(* ===== verification/Prelude.thy ===== *)
theory Prelude
  imports Main "HOL-Library.Finite_Map" "HOL-Library.List_Lexorder" "HOL-Library.Char_ord"
    "HOL-Library.Product_Lexorder" "HOL-Library.Multiset"
begin

text \<open>
  Shared vocabulary of the development: the result type of fallible operations, Go's maps as
  finite maps together with an explicit enumeration order (the Go runtime leaves the order of
  \<open>range\<close> over a map open, so it is a parameter of every definition that iterates over one),
  \<open>sort.Slice\<close> as a stable insertion sort over the source's comparator, times and durations
  with Go's saturating subtraction, 64-bit wrap-around, decimal printing and small string helpers.
\<close>

named_theorems model_defs \<open>definitions of the model unfolded by simplification\<close>

section \<open>Finite maps and their enumeration\<close>

type_synonym 'v table = "(string, 'v) fmap"

type_synonym order = "string fset \<Rightarrow> string list"

definition valid_order :: "order \<Rightarrow> bool" where
  "valid_order ord \<longleftrightarrow> (\<forall>A. distinct (ord A) \<and> set (ord A) = fset A)"

definition map_values :: "order \<Rightarrow> 'v table \<Rightarrow> 'v list" where
  "map_values ord m = List.map_filter (fmlookup m) (ord (fmdom m))"

lemma valid_order_sorted: "valid_order sorted_list_of_fset"
  by (simp add: valid_order_def sorted_list_of_fset.rep_eq)

lemma valid_orderD:
  assumes "valid_order ord"
  shows "distinct (ord A)" and "set (ord A) = fset A"
  using assms by (auto simp: valid_order_def)

lemma map_filter_subset_dom:
  "set ks \<subseteq> fset (fmdom m) \<Longrightarrow> List.map_filter (fmlookup m) ks = map (\<lambda>k. the (fmlookup m k)) ks"
  by (induction ks) (auto simp: map_filter_simps fmlookup_dom_iff)

lemma set_map_filter_iff: "y \<in> set (List.map_filter f xs) \<longleftrightarrow> (\<exists>x \<in> set xs. f x = Some y)"
  by (induction xs) (auto simp: map_filter_simps split: option.splits)

lemma map_values_eq:
  assumes "valid_order ord"
  shows "map_values ord m = map (\<lambda>k. the (fmlookup m k)) (ord (fmdom m))"
  unfolding map_values_def
  by (rule map_filter_subset_dom) (simp add: valid_orderD(2) [OF assms])

lemma set_map_values:
  assumes "valid_order ord"
  shows "set (map_values ord m) = {v. \<exists>k. fmlookup m k = Some v}"
  by (force simp: map_values_eq [OF assms] valid_orderD(2) [OF assms] fmlookup_dom_iff image_iff)

lemma mset_map_values_indep:
  assumes "valid_order o1" and "valid_order o2"
  shows "mset (map_values o1 m) = mset (map_values o2 m)"
proof -
  have "mset (o1 (fmdom m)) = mset (o2 (fmdom m))"
    using valid_orderD [OF assms(1)] valid_orderD [OF assms(2)]
    by (metis set_eq_iff_mset_eq_distinct)
  then show ?thesis
    by (simp add: map_values_eq assms)
qed

text \<open>Enumerating a map whose keys are the ids of its values lists distinct ids.\<close>

definition keyed_by :: "('v \<Rightarrow> string) \<Rightarrow> 'v table \<Rightarrow> bool" where
  "keyed_by key m \<longleftrightarrow> fmpred (\<lambda>k v. key v = k) m"

lemma keyed_byD: "keyed_by key m \<Longrightarrow> fmlookup m k = Some v \<Longrightarrow> key v = k"
  by (auto simp: keyed_by_def)

lemma keyed_by_upd: "keyed_by key m \<Longrightarrow> key v = k \<Longrightarrow> keyed_by key (fmupd k v m)"
  by (auto simp: keyed_by_def)

lemma keyed_by_empty [simp]: "keyed_by key fmempty"
  by (simp add: keyed_by_def)

lemma map_key_map_values:
  assumes "valid_order ord" and "keyed_by key m"
  shows "map key (map_values ord m) = ord (fmdom m)"
proof -
  have "\<forall>k \<in> set (ord (fmdom m)). key (the (fmlookup m k)) = k"
    using valid_orderD(2) [OF assms(1)] keyed_byD [OF assms(2)]
    by (auto simp: fmlookup_dom_iff)
  then show ?thesis
    by (simp add: map_values_eq [OF assms(1)] map_idI)
qed

lemma distinct_map_key:
  assumes "valid_order ord" and "keyed_by key m"
  shows "distinct (map key (map_values ord m))"
  by (simp add: map_key_map_values assms valid_orderD(1))

section \<open>Sorting a slice with a comparator\<close>

text \<open>
  \<open>sort.Slice(xs, less)\<close>. Go does not fix the order of elements the comparator does not
  separate; the model sorts stably, and \<open>sort_slice_indep\<close> says when the result does not
  depend on the order of the input.
\<close>

fun insert_by :: "('a \<Rightarrow> 'a \<Rightarrow> bool) \<Rightarrow> 'a \<Rightarrow> 'a list \<Rightarrow> 'a list" where
  "insert_by lt x [] = [x]"
| "insert_by lt x (y # ys) = (if lt y x then y # insert_by lt x ys else x # y # ys)"

definition sort_slice :: "('a \<Rightarrow> 'a \<Rightarrow> bool) \<Rightarrow> 'a list \<Rightarrow> 'a list" where
  "sort_slice lt xs = foldr (insert_by lt) xs []"

lemma sort_slice_Nil [simp]: "sort_slice lt [] = []"
  by (simp add: sort_slice_def)

lemma sort_slice_Cons [simp]: "sort_slice lt (x # xs) = insert_by lt x (sort_slice lt xs)"
  by (simp add: sort_slice_def)

lemma mset_insert_by [simp]: "mset (insert_by lt x xs) = add_mset x (mset xs)"
  by (induction xs) auto

lemma mset_sort_slice [simp]: "mset (sort_slice lt xs) = mset xs"
  by (induction xs) auto

lemma set_sort_slice [simp]: "set (sort_slice lt xs) = set xs"
  by (metis mset_sort_slice set_mset_mset)

lemma length_sort_slice [simp]: "length (sort_slice lt xs) = length xs"
  by (metis mset_sort_slice size_mset)

lemma insert_by_key:
  assumes "\<And>a b. lt a b \<longleftrightarrow> key a < (key b :: 'k :: linorder)"
  shows "insert_by lt x xs = insort_key key x xs"
  by (induction xs) (auto simp: assms)

lemma sort_slice_key:
  assumes "\<And>a b. lt a b \<longleftrightarrow> key a < (key b :: 'k :: linorder)"
  shows "sort_slice lt xs = sort_key key xs"
  by (induction xs) (simp_all add: insert_by_key [OF assms])

lemma sort_slice_indep:
  assumes lt: "\<And>a b. lt a b \<longleftrightarrow> key a < (key b :: 'k :: linorder)"
    and m: "mset xs = mset ys" and inj: "inj_on key (set xs)"
  shows "sort_slice lt xs = sort_slice lt ys"
proof -
  have "sort_key key xs = sort_key key ys"
    by (rule sort_key_inj_key_eq) (simp_all add: m inj)
  then show ?thesis by (simp add: sort_slice_key [OF lt])
qed

lemma inj_on_key_distinct: "distinct (map key xs) \<Longrightarrow> inj_on key (set xs)"
  by (simp add: distinct_map)

lemma distinct_map_filter_key: "distinct (map key xs) \<Longrightarrow> distinct (map key (filter P xs))"
  by (induction xs) auto

section \<open>Results, sequencing and loops\<close>

text \<open>
  An operation returns its result or its error together with the new state: the state is
  returned on the error path too, because some operations of the source write before they fail.
\<close>

type_synonym ('e, 'a, 's) outcome = "('e + 'a) \<times> 's"

definition and_then :: "('e, 'a, 's) outcome \<Rightarrow> ('a \<Rightarrow> 's \<Rightarrow> ('e, 'b, 's) outcome) \<Rightarrow> ('e, 'b, 's) outcome"
  where "and_then r f = (case r of (Inl e, s) \<Rightarrow> (Inl e, s) | (Inr a, s) \<Rightarrow> f a s)"

lemma and_then_simps [simp]:
  "and_then (Inl e, s) f = (Inl e, s)"
  "and_then (Inr a, s) f = f a s"
  by (simp_all add: and_then_def)

lemma and_then_Inr:
  "and_then r f = (Inr b, t) \<longleftrightarrow> (\<exists>a s. r = (Inr a, s) \<and> f a s = (Inr b, t))"
  by (cases r) (auto simp: and_then_def split: sum.splits)

lemma and_then_inv:
  assumes "I (snd r)" and "\<And>a s. r = (Inr a, s) \<Longrightarrow> I s \<Longrightarrow> I (snd (f a s))"
  shows "I (snd (and_then r f))"
  using assms by (cases r) (auto simp: and_then_def split: sum.splits)

fun for_each :: "('a \<Rightarrow> 's \<Rightarrow> ('e, unit, 's) outcome) \<Rightarrow> 'a list \<Rightarrow> 's \<Rightarrow> ('e, unit, 's) outcome" where
  "for_each f [] s = (Inr (), s)"
| "for_each f (x # xs) s = and_then (f x s) (\<lambda>_ s'. for_each f xs s')"

lemma for_each_inv:
  assumes "I s" and "\<And>x s. x \<in> set xs \<Longrightarrow> I s \<Longrightarrow> I (snd (f x s))"
  shows "I (snd (for_each f xs s))"
  using assms
proof (induction xs arbitrary: s)
  case Nil
  then show ?case by simp
next
  case (Cons x xs)
  show ?case
    unfolding for_each.simps
    by (rule and_then_inv) (use Cons in auto)
qed

text \<open>A loop over a list that only changes the state.\<close>

lemma fold_inv:
  assumes "I s" and "\<And>x s. x \<in> set xs \<Longrightarrow> I s \<Longrightarrow> I (f x s)"
  shows "I (fold f xs s)"
  using assms by (induction xs arbitrary: s) auto

section \<open>Integers, times and strings\<close>

text \<open>\<open>int64\<close> arithmetic: the mathematical result reduced to two's complement.\<close>

definition wrap64 :: "int \<Rightarrow> int" where
  "wrap64 x = (x + 2 ^ 63) mod 2 ^ 64 - 2 ^ 63"

definition in_int64 :: "int \<Rightarrow> bool" where
  "in_int64 x \<longleftrightarrow> - (2 ^ 63) \<le> x \<and> x < 2 ^ 63"

lemma wrap64_id: "in_int64 x \<Longrightarrow> wrap64 x = x"
  by (simp add: wrap64_def in_int64_def)

lemma in_int64_wrap64 [simp]: "in_int64 (wrap64 x)"
  by (simp add: wrap64_def in_int64_def)

text \<open>
  A \<open>time.Time\<close> is its number of nanoseconds since Go's zero time, a \<open>time.Duration\<close> an
  \<open>int64\<close> number of nanoseconds. \<open>Sub\<close> saturates, integer division truncates.
\<close>

type_synonym time = int
type_synonym duration = int

definition zero_time :: time where "zero_time = 0"

definition time_add :: "time \<Rightarrow> duration \<Rightarrow> time" where
  "time_add t d = t + d"

definition time_sub :: "time \<Rightarrow> time \<Rightarrow> duration" where
  "time_sub t u = max (- (2 ^ 63)) (min (2 ^ 63 - 1) (t - u))"

definition time_after :: "time \<Rightarrow> time \<Rightarrow> bool" where
  [simp]: "time_after t u \<longleftrightarrow> u < t"

definition time_before :: "time \<Rightarrow> time \<Rightarrow> bool" where
  [simp]: "time_before t u \<longleftrightarrow> t < u"

definition go_quot :: "int \<Rightarrow> int \<Rightarrow> int" where
  "go_quot a b = sgn a * sgn b * (\<bar>a\<bar> div \<bar>b\<bar>)"

definition milliseconds :: "duration \<Rightarrow> int" where
  "milliseconds d = go_quot d 1000000"

definition second :: duration where "second = 1000000000"

definition hour :: duration where "hour = 3600 * second"

text \<open>Decimal printing (\<open>fmt.Sprint\<close>, \<open>strconv.FormatInt\<close>).\<close>

fun digits10 :: "nat \<Rightarrow> string" where
  "digits10 n = (if n < 10 then [char_of (48 + n)] else digits10 (n div 10) @ [char_of (48 + n mod 10)])"

declare digits10.simps [simp del]

definition itoa :: "int \<Rightarrow> string" where
  "itoa i = (if i < 0 then CHR ''-'' # digits10 (nat (- i)) else digits10 (nat i))"

fun join :: "string \<Rightarrow> string list \<Rightarrow> string" where
  "join sep [] = []"
| "join sep [x] = x"
| "join sep (x # y # ys) = x @ sep @ join sep (y # ys)"

definition NUL :: string where "NUL = [char_of (0 :: nat)]"

end
