(* ===== verification/Float64.thy ===== *)
theory Float64
  imports Prelude Complex_Main "HOL-Library.Log_Nat"
begin

text \<open>
  Go's \<open>float64\<close>: a value is the real number it stands for, and every arithmetic operation of
  the source is the exact operation followed by \<open>fl\<close>, rounding to the nearest value with 53
  significant bits (ties to even, subnormals down to \<open>2 ^ -1074\<close>). Overflow to infinity is not
  modelled: the magnitudes of the program (scores in [0,1], token counts, milliseconds) stay far
  below \<open>2 ^ 1023\<close>. What the development proves about floats rests on \<open>fl\<close> being monotone and
  fixing the integers below \<open>2 ^ 53\<close>.
\<close>

type_synonym float64 = real

definition round_half_even :: "real \<Rightarrow> int" where
  "round_half_even x = (let f = \<lfloor>x\<rfloor>; d = x - of_int f in
     if d < 1 / 2 then f else if d > 1 / 2 then f + 1 else if even f then f else f + 1)"

text \<open>The number of low bits lost when \<open>x * 2 ^ 1074\<close> is cut to 53 bits.\<close>

definition lost_bits :: "real \<Rightarrow> nat" where
  "lost_bits y = nat (bitlen \<lfloor>\<bar>y\<bar>\<rfloor> - 53)"

definition scale :: real where "scale = 2 ^ 1074"

definition fl :: "real \<Rightarrow> float64" where
  "fl x = (let y = x * scale; k = lost_bits y
           in of_int (round_half_even (y / 2 ^ k)) * 2 ^ k / scale)"

lemma scale_pos [simp]: "0 < scale"
  by (simp add: scale_def)

lemma scale_ne [simp]: "scale \<noteq> 0"
  using scale_pos by linarith

lemma scale_split: "k \<le> 1074 \<Longrightarrow> scale = 2 ^ (1074 - k) * 2 ^ k"
  unfolding scale_def by (simp only: flip: power_add) simp

lemma round_half_even_of_int [simp]: "round_half_even (of_int i) = i"
  by (simp add: round_half_even_def)

lemma round_half_even_0 [simp]: "round_half_even 0 = 0"
  using round_half_even_of_int [of 0] by simp

lemma round_half_even_mono:
  assumes "x \<le> y"
  shows "round_half_even x \<le> round_half_even y"
proof (cases "\<lfloor>x\<rfloor> = \<lfloor>y\<rfloor>")
  case True
  with assms show ?thesis by (auto simp: round_half_even_def Let_def)
next
  case False
  with assms floor_mono [OF assms] have "\<lfloor>x\<rfloor> + 1 \<le> \<lfloor>y\<rfloor>" by linarith
  moreover have "round_half_even x \<le> \<lfloor>x\<rfloor> + 1" "\<lfloor>y\<rfloor> \<le> round_half_even y"
    by (auto simp: round_half_even_def Let_def)
  ultimately show ?thesis by linarith
qed

lemma round_half_even_le_int: "x \<le> of_int i \<Longrightarrow> round_half_even x \<le> i"
  using round_half_even_mono [of x "of_int i"] by simp

lemma round_half_even_ge_int: "of_int i \<le> x \<Longrightarrow> i \<le> round_half_even x"
  using round_half_even_mono [of "of_int i" x] by simp

lemma bitlen_bound: "0 \<le> i \<Longrightarrow> i < 2 ^ nat (bitlen i)"
  using bitlen_bounds [of i] by (cases "i = 0") auto

lemma lost_bits_mono:
  assumes "\<bar>x\<bar> \<le> \<bar>y\<bar>"
  shows "lost_bits x \<le> lost_bits y"
proof -
  have "bitlen \<lfloor>\<bar>x\<bar>\<rfloor> \<le> bitlen \<lfloor>\<bar>y\<bar>\<rfloor>"
    unfolding bitlen_def using assms by (simp add: floor_mono floorlog_mono nat_mono)
  then show ?thesis by (simp add: lost_bits_def nat_mono)
qed

text \<open>A value with lost bits is at least \<open>2 ^ (52 + k)\<close>; every value is below \<open>2 ^ (53 + k)\<close>.\<close>

lemma lost_bits_lower:
  assumes "0 < lost_bits y"
  shows "2 ^ (52 + lost_bits y) \<le> \<bar>y\<bar>"
proof -
  let ?i = "\<lfloor>\<bar>y\<bar>\<rfloor>"
  have b: "53 < bitlen ?i" using assms by (simp add: lost_bits_def)
  have pos: "0 < ?i"
  proof (rule ccontr)
    assume "\<not> 0 < ?i"
    then have "?i = 0" using zero_le_floor [of "\<bar>y\<bar>"] abs_ge_zero [of y] by linarith
    with b show False by simp
  qed
  have "2 ^ nat (bitlen ?i - 1) \<le> ?i" using bitlen_bounds [OF pos] by simp
  moreover have "nat (bitlen ?i - 1) = 52 + lost_bits y"
    using b by (simp add: lost_bits_def)
  ultimately have "2 ^ (52 + lost_bits y) \<le> ?i" by simp
  then have "(2 :: real) ^ (52 + lost_bits y) \<le> of_int ?i"
    by (metis of_int_le_iff of_int_numeral of_int_power)
  also have "\<dots> \<le> \<bar>y\<bar>" by simp
  finally show ?thesis .
qed

lemma lost_bits_upper: "\<bar>y\<bar> < 2 ^ (53 + lost_bits y)"
proof -
  let ?i = "\<lfloor>\<bar>y\<bar>\<rfloor>"
  have "?i < 2 ^ nat (bitlen ?i)" by (rule bitlen_bound) simp
  also have "(2 :: int) ^ nat (bitlen ?i) \<le> 2 ^ (53 + lost_bits y)"
    by (rule power_increasing) (auto simp: lost_bits_def)
  finally have "?i < 2 ^ (53 + lost_bits y)" .
  then have "?i + 1 \<le> 2 ^ (53 + lost_bits y)" by simp
  then have "of_int (?i + 1) \<le> (2 :: real) ^ (53 + lost_bits y)"
    by (metis of_int_le_iff of_int_numeral of_int_power)
  moreover have "\<bar>y\<bar> < of_int (?i + 1)" by simp
  ultimately show ?thesis by linarith
qed

text \<open>Rounding on the scaled value; \<open>fl\<close> is this between two exact scalings.\<close>

definition round_scaled :: "real \<Rightarrow> real" where
  "round_scaled y = of_int (round_half_even (y / 2 ^ lost_bits y)) * 2 ^ lost_bits y"

lemma fl_scaled: "fl x = round_scaled (x * scale) / scale"
  by (simp add: fl_def round_scaled_def Let_def)

lemma round_half_even_minus: "round_half_even (- x) = - round_half_even x"
proof (cases "x \<in> \<int>")
  case True
  then obtain i where "x = of_int i" by (rule Ints_cases)
  then show ?thesis by (metis of_int_minus round_half_even_of_int)
next
  case False
  then have "x \<noteq> of_int \<lfloor>x\<rfloor>" by (metis Ints_of_int)
  then have "\<lfloor>- x\<rfloor> = - \<lfloor>x\<rfloor> - 1" by (simp add: floor_minus ceiling_altdef)
  then show ?thesis by (auto simp: round_half_even_def Let_def)
qed

lemma lost_bits_minus [simp]: "lost_bits (- y) = lost_bits y"
  by (simp add: lost_bits_def)

lemma round_scaled_minus: "round_scaled (- y) = - round_scaled y"
  by (simp add: round_scaled_def round_half_even_minus)

lemma round_scaled_nonneg: "0 \<le> y \<Longrightarrow> 0 \<le> round_scaled y"
  using round_half_even_ge_int [of 0 "y / 2 ^ lost_bits y"] by (simp add: round_scaled_def)

lemma round_scaled_upper: "0 \<le> y \<Longrightarrow> round_scaled y \<le> 2 ^ (53 + lost_bits y)"
proof -
  assume "0 \<le> y"
  let ?k = "lost_bits y"
  have "y / 2 ^ ?k \<le> of_int (2 ^ 53)"
    using lost_bits_upper [of y] \<open>0 \<le> y\<close> by (simp add: field_simps power_add)
  from round_half_even_le_int [OF this]
  have "of_int (round_half_even (y / 2 ^ ?k)) \<le> (2 ^ 53 :: real)"
    by (metis of_int_le_iff of_int_numeral of_int_power)
  then show ?thesis by (simp add: round_scaled_def power_add)
qed

lemma round_scaled_lower:
  assumes "0 \<le> y" and "0 < lost_bits y"
  shows "2 ^ (52 + lost_bits y) \<le> round_scaled y"
proof -
  let ?k = "lost_bits y"
  have "of_int (2 ^ 52) \<le> y / 2 ^ ?k"
    using lost_bits_lower [OF assms(2)] \<open>0 \<le> y\<close> by (simp add: field_simps power_add)
  from round_half_even_ge_int [OF this]
  have "(2 ^ 52 :: real) \<le> of_int (round_half_even (y / 2 ^ ?k))"
    by (metis of_int_le_iff of_int_numeral of_int_power)
  then show ?thesis by (simp add: round_scaled_def power_add)
qed

lemma round_scaled_mono_nonneg:
  assumes "0 \<le> y" and "y \<le> z"
  shows "round_scaled y \<le> round_scaled z"
proof (cases "lost_bits y = lost_bits z")
  case True
  have "round_half_even (y / 2 ^ lost_bits z) \<le> round_half_even (z / 2 ^ lost_bits z)"
    using assms by (intro round_half_even_mono divide_right_mono) auto
  with True show ?thesis by (simp add: round_scaled_def)
next
  case False
  with lost_bits_mono [of y z] assms have k: "lost_bits y < lost_bits z" by simp
  have "round_scaled y \<le> 2 ^ (53 + lost_bits y)" by (rule round_scaled_upper [OF assms(1)])
  also have "\<dots> \<le> (2 :: real) ^ (52 + lost_bits z)" using k by (intro power_increasing) auto
  also have "\<dots> \<le> round_scaled z" using assms k by (intro round_scaled_lower) auto
  finally show ?thesis .
qed

lemma round_scaled_mono:
  assumes "y \<le> z"
  shows "round_scaled y \<le> round_scaled z"
proof -
  consider "0 \<le> y" | "y < 0" "0 \<le> z" | "y < 0" "z < 0" by linarith
  then show ?thesis
  proof cases
    case 1
    then show ?thesis using assms by (rule round_scaled_mono_nonneg)
  next
    case 2
    then show ?thesis
      using round_scaled_nonneg [of "- y"] round_scaled_nonneg [of z] by (simp add: round_scaled_minus)
  next
    case 3
    then show ?thesis
      using round_scaled_mono_nonneg [of "- z" "- y"] assms by (simp add: round_scaled_minus)
  qed
qed

theorem fl_mono: "x \<le> y \<Longrightarrow> fl x \<le> fl y"
  by (simp add: fl_scaled divide_right_mono round_scaled_mono mult_right_mono less_imp_le)

lemma lost_bits_small_int:
  assumes "\<bar>i\<bar> < 2 ^ 53"
  shows "lost_bits (of_int i * scale) \<le> 1074"
proof (rule ccontr)
  let ?y = "of_int i * scale"
  assume "\<not> lost_bits ?y \<le> 1074"
  then have k: "1074 < lost_bits ?y" by simp
  then have "2 ^ (52 + lost_bits ?y) \<le> \<bar>?y\<bar>" by (intro lost_bits_lower) simp
  moreover have "(2 :: real) ^ (53 + 1074) \<le> 2 ^ (52 + lost_bits ?y)"
    using k by (intro power_increasing) auto
  ultimately have "(2 :: real) ^ 53 * 2 ^ 1074 \<le> \<bar>?y\<bar>" by (simp only: flip: power_add)
  then have "(2 :: real) ^ 53 * scale \<le> \<bar>of_int i\<bar> * scale"
    by (simp only: abs_mult scale_def power_abs abs_numeral)
  then have "of_int (2 ^ 53) \<le> (of_int \<bar>i\<bar> :: real)" by simp
  then show False using assms by (simp only: of_int_le_iff)
qed

lemma round_scaled_exact:
  assumes "y = of_int m * 2 ^ lost_bits y"
  shows "round_scaled y = y"
proof -
  have "y / 2 ^ lost_bits y = of_int m" using assms by (simp add: field_simps)
  then show ?thesis using assms by (simp add: round_scaled_def)
qed

theorem fl_of_int:
  assumes "\<bar>i\<bar> < 2 ^ 53"
  shows "fl (of_int i) = of_int i"
proof -
  define k where "k = lost_bits (of_int i * scale)"
  have k: "k \<le> 1074" unfolding k_def by (rule lost_bits_small_int [OF assms])
  have "of_int i * scale = of_int i * (2 ^ (1074 - k) * 2 ^ k)"
    by (simp only: scale_split [OF k])
  also have "\<dots> = of_int (i * 2 ^ (1074 - k)) * 2 ^ k" by simp
  finally have "round_scaled (of_int i * scale) = of_int i * scale"
    unfolding k_def by (rule round_scaled_exact)
  then show ?thesis by (simp add: fl_scaled)
qed

lemma fl_0 [simp]: "fl 0 = 0" using fl_of_int [of 0] by simp
lemma fl_1 [simp]: "fl 1 = 1" using fl_of_int [of 1] by simp

lemma fl_nonneg: "0 \<le> x \<Longrightarrow> 0 \<le> fl x"
  using fl_mono [of 0 x] by simp

lemma fl_nonpos: "x \<le> 0 \<Longrightarrow> fl x \<le> 0"
  using fl_mono [of x 0] by simp

lemma fl_le_1: "x \<le> 1 \<Longrightarrow> fl x \<le> 1"
  using fl_mono [of x 1] by simp

text \<open>Rounding is idempotent, odd, and at most doubles a value.\<close>

lemma lost_bits_le: "\<bar>z\<bar> < 2 ^ (53 + k) \<Longrightarrow> lost_bits z \<le> k"
proof (rule ccontr)
  assume z: "\<bar>z\<bar> < 2 ^ (53 + k)" and "\<not> lost_bits z \<le> k"
  then have "0 < lost_bits z" and "53 + k \<le> 52 + lost_bits z" by auto
  then have "2 ^ (52 + lost_bits z) \<le> \<bar>z\<bar>" and "(2 :: real) ^ (53 + k) \<le> 2 ^ (52 + lost_bits z)"
    by (auto intro: lost_bits_lower power_increasing)
  with z show False by linarith
qed

lemma round_scaled_multiple:
  assumes "\<bar>n\<bar> \<le> 2 ^ 53"
  shows "round_scaled (of_int n * 2 ^ k) = of_int n * 2 ^ k"
proof -
  let ?z = "of_int n * (2 :: real) ^ k"
  have exact: "round_scaled ?z = ?z" if "lost_bits ?z \<le> k"
  proof (rule round_scaled_exact)
    have "(2 :: real) ^ k = 2 ^ (k - lost_bits ?z) * 2 ^ lost_bits ?z"
      using that by (simp flip: power_add)
    then show "?z = of_int (n * 2 ^ (k - lost_bits ?z)) * 2 ^ lost_bits ?z"
      by (metis mult.assoc of_int_mult of_int_numeral of_int_power)
  qed
  have n: "\<bar>of_int n\<bar> \<le> (2 :: real) ^ 53"
    using assms by (metis of_int_abs of_int_le_iff of_int_numeral of_int_power)
  have "\<bar>?z\<bar> < 2 ^ (53 + Suc k)"
    using mult_right_mono [OF n, of "2 ^ k"] by (simp add: power_add abs_mult)
  then have le: "lost_bits ?z \<le> Suc k" by (rule lost_bits_le)
  show ?thesis
  proof (cases "lost_bits ?z \<le> k")
    case True
    then show ?thesis by (rule exact)
  next
    case False
    with le have k: "lost_bits ?z = Suc k" by simp
    have "\<bar>n\<bar> = 2 ^ 53"
    proof (rule ccontr)
      assume "\<bar>n\<bar> \<noteq> 2 ^ 53"
      with assms have "\<bar>n\<bar> < 2 ^ 53" by simp
      then have "\<bar>of_int n\<bar> < (2 :: real) ^ 53"
        by (metis of_int_abs of_int_less_iff of_int_numeral of_int_power)
      then have "\<bar>?z\<bar> < 2 ^ (53 + k)" by (simp add: power_add abs_mult)
      with lost_bits_le [of ?z k] False show False by simp
    qed
    then have "even n" by (metis abs_dvd_iff dvd_power dvd_abs_iff even_abs_add_iff even_numeral
          zero_less_numeral dvd_triv_left power_eq_if zero_neq_numeral)
    then obtain m where "n = 2 * m" by blast
    then have "?z = of_int m * 2 ^ lost_bits ?z" unfolding k by simp
    then show ?thesis by (rule round_scaled_exact)
  qed
qed

lemma round_half_even_scaled_bound: "\<bar>round_half_even (y / 2 ^ lost_bits y)\<bar> \<le> 2 ^ 53"
proof -
  have "\<bar>y / 2 ^ lost_bits y\<bar> \<le> of_int (2 ^ 53)"
    using lost_bits_upper [of y] by (simp add: power_add abs_divide field_simps)
  then have "y / 2 ^ lost_bits y \<le> of_int (2 ^ 53)" "of_int (- (2 ^ 53)) \<le> y / 2 ^ lost_bits y"
    by (simp_all only: of_int_minus abs_le_iff) linarith+
  then have "round_half_even (y / 2 ^ lost_bits y) \<le> 2 ^ 53" "- (2 ^ 53) \<le> round_half_even (y / 2 ^ lost_bits y)"
    using round_half_even_le_int round_half_even_ge_int by blast+
  then show ?thesis by (intro abs_leI) linarith+
qed

theorem fl_idem [simp]: "fl (fl x) = fl x"
proof -
  have "round_scaled (round_scaled y) = round_scaled y" for y
    unfolding round_scaled_def [of y] by (rule round_scaled_multiple [OF round_half_even_scaled_bound])
  then show ?thesis by (simp add: fl_scaled)
qed

lemma fl_minus: "fl (- x) = - fl x"
  by (simp add: fl_scaled round_scaled_minus)

lemma round_half_even_double: "0 \<le> x \<Longrightarrow> of_int (round_half_even x) \<le> 2 * x"
proof -
  assume x: "0 \<le> x"
  define f where "f = \<lfloor>x\<rfloor>"
  have f: "0 \<le> f" "of_int f \<le> x" "x < of_int f + 1" using x by (simp_all add: f_def)
  have rep: "round_half_even x = (if x - of_int f < 1 / 2 then f
      else if x - of_int f > 1 / 2 then f + 1 else if even f then f else f + 1)"
    by (simp add: round_half_even_def f_def Let_def)
  show ?thesis
  proof (cases "f = 0")
    case True
    with f show ?thesis by (simp add: rep)
  next
    case False
    then have "1 \<le> (of_int f :: real)" using f(1) by (simp add: int_one_le_iff_zero_less)
    with f show ?thesis by (simp add: rep)
  qed
qed

lemma fl_le_double: "0 \<le> x \<Longrightarrow> fl x \<le> 2 * x"
proof -
  assume "0 \<le> x"
  then have y: "0 \<le> x * scale" by (simp add: less_imp_le)
  have "round_scaled (x * scale) \<le> 2 * (x * scale / 2 ^ lost_bits (x * scale)) * 2 ^ lost_bits (x * scale)"
    unfolding round_scaled_def using y by (intro mult_right_mono round_half_even_double) auto
  then show ?thesis by (simp add: fl_scaled pos_divide_le_eq)
qed

text \<open>The operations of the source on \<open>float64\<close>.\<close>

definition fadd :: "float64 \<Rightarrow> float64 \<Rightarrow> float64" where "fadd x y = fl (x + y)"
definition fsub :: "float64 \<Rightarrow> float64 \<Rightarrow> float64" where "fsub x y = fl (x - y)"
definition fmul :: "float64 \<Rightarrow> float64 \<Rightarrow> float64" where "fmul x y = fl (x * y)"
definition fdiv :: "float64 \<Rightarrow> float64 \<Rightarrow> float64" where "fdiv x y = fl (x / y)"
definition float_of_int :: "int \<Rightarrow> float64" where "float_of_int i = fl (of_int i)"

text \<open>The representable values.\<close>

definition is_float :: "float64 \<Rightarrow> bool" where "is_float x \<longleftrightarrow> fl x = x"

lemma is_float_fl [simp]: "is_float (fl x)"
  by (simp add: is_float_def)

lemma is_float_ops [simp]: "is_float (fadd x y)" "is_float (fsub x y)" "is_float (fmul x y)" "is_float (fdiv x y)"
  by (simp_all add: fadd_def fsub_def fmul_def fdiv_def)

lemma fadd_ge: "is_float x \<Longrightarrow> 0 \<le> y \<Longrightarrow> x \<le> fadd x y"
  unfolding is_float_def fadd_def using fl_mono [of x "x + y"] by simp

lemma fadd_ge2: "is_float y \<Longrightarrow> 0 \<le> x \<Longrightarrow> y \<le> fadd x y"
  unfolding is_float_def fadd_def using fl_mono [of y "x + y"] by simp

end
