(* ===== verification/MissionTypes.thy ===== *)
theory MissionTypes
  imports Float64
begin

text \<open>
  The task model of \<open>internal/mission/types.go\<close>: subtask states, kinds, retry and scheduling
  specifications, permission envelopes, wake registrations, subtasks and missions.

  Go's string types with a fixed set of constants that only the code writes are datatypes; the ones
  a client can fill freely (\<open>Kind\<close>, wake kinds, board modes, classifications) stay strings with
  the constants as definitions. \<open>State\<close> and \<open>EventType\<close> keep a constructor for a string outside
  the constants, because \<open>Apply\<close> has a branch for it. A pointer that may be nil is an option, a nil
  slice is the empty list, \<open>any\<close> is \<open>goval\<close> with the dynamic types the code stores, and
  \<open>map[string]any\<close> is a finite map into it.
\<close>

section \<open>Dynamic values\<close>

datatype goval =
    VNil
  | VBool bool
  | VInt int              \<comment> \<open>dynamic type \<open>int\<close>\<close>
  | VInt64 int            \<comment> \<open>dynamic type \<open>int64\<close>\<close>
  | VFloat float64
  | VStr string
  | VStrs "string list"   \<comment> \<open>dynamic type \<open>[]string\<close>\<close>
  | VArr "goval list"
  | VObj "(string, goval) fmap"

type_synonym payload = "(string, goval) fmap"

section \<open>States, kinds and statuses\<close>

datatype State =
    StatePending | StateReady | StateOffered | StateLeased | StateRunning
  | StateWaiting | StateBlocked | StateSucceeded | StateFailed | StateCancelled
  | StateOther string

fun Terminal :: "State \<Rightarrow> bool" where
  "Terminal StateSucceeded = True"
| "Terminal StateFailed = True"
| "Terminal StateCancelled = True"
| "Terminal _ = False"

fun state_string :: "State \<Rightarrow> string" where
  "state_string StatePending = ''PENDING''"
| "state_string StateReady = ''READY''"
| "state_string StateOffered = ''OFFERED''"
| "state_string StateLeased = ''LEASED''"
| "state_string StateRunning = ''RUNNING''"
| "state_string StateWaiting = ''WAITING''"
| "state_string StateBlocked = ''BLOCKED''"
| "state_string StateSucceeded = ''SUCCEEDED''"
| "state_string StateFailed = ''FAILED''"
| "state_string StateCancelled = ''CANCELLED''"
| "state_string (StateOther x) = x"

type_synonym Kind = string

definition KindAgent :: Kind where "KindAgent = ''agent''"
definition KindHumanApproval :: Kind where "KindHumanApproval = ''human_approval''"
definition KindHumanDecision :: Kind where "KindHumanDecision = ''human_decision''"
definition KindAggregation :: Kind where "KindAggregation = ''aggregation''"
definition KindCondition :: Kind where "KindCondition = ''condition''"

datatype MissionStatus = MissionActive | MissionSucceeded | MissionFailed | MissionCancelled

fun mission_status_string :: "MissionStatus \<Rightarrow> string" where
  "mission_status_string MissionActive = ''ACTIVE''"
| "mission_status_string MissionSucceeded = ''SUCCEEDED''"
| "mission_status_string MissionFailed = ''FAILED''"
| "mission_status_string MissionCancelled = ''CANCELLED''"

section \<open>Specifications and permissions\<close>

record RetryPolicy =
  MaxAttempts :: int
  Backoff :: string
  OnFailure :: string

record SchedulingSpec =
  Priority :: int
  Deadline :: "time option"
  BudgetTokens :: int
  Exclusive :: bool

record BoardGrant =
  g_Namespace :: string
  g_Keys :: "string list"
  g_Mode :: string

record PermissionEnvelope =
  Classification :: string
  ToolScopes :: "string list"
  ArtifactRefs :: "string list"
  BoardViews :: "BoardGrant list"

section \<open>Wake registrations\<close>

definition WakeTimer :: string where "WakeTimer = ''timer''"
definition WakeManual :: string where "WakeManual = ''manual''"
definition WakeEvent :: string where "WakeEvent = ''event''"
definition WakeCondition :: string where "WakeCondition = ''condition''"

record EventMatch =
  em_Types :: "string list"
  em_Where :: payload
  em_AfterSeq :: int

record BoardCondition =
  bc_Board :: string
  bc_Op :: string
  bc_Value :: goval
  bc_Expr :: string
  bc_Refs :: "string list"
  bc_RefsWildcard :: bool

record WakeSpec =
  w_Kind :: string
  w_At :: "time option"
  w_Deadline :: "time option"
  w_RegisteredAt :: "time option"
  w_Event :: "EventMatch option"
  w_Condition :: "BoardCondition option"

definition CondExists :: string where "CondExists = ''exists''"
definition CondEquals :: string where "CondEquals = ''equals''"

section \<open>Subtasks and missions\<close>

text \<open>
  \<open>st_WakeSpec\<close> is the decoded form of the JSON the code stores (\<open>None\<close> for the empty slice).
\<close>

record Subtask =
  st_ID :: string
  st_MissionID :: string
  st_ParentID :: string
  st_Kind :: Kind
  st_RequiredSkills :: "string list"
  st_DependsOn :: "string list"
  st_Scheduling :: SchedulingSpec
  st_Retry :: RetryPolicy
  st_State :: State
  st_Assignee :: string
  st_LeaseID :: string
  st_Attempt :: int
  st_ResultRef :: string
  st_Version :: int
  st_Question :: string
  st_Options :: "string list"
  st_OnTimeout :: string
  st_Input :: payload
  st_ReworkOf :: string
  st_Grants :: PermissionEnvelope
  st_Checkpoint :: string
  st_WakeKind :: string
  st_WakeAt :: "time option"
  st_WakeDeadline :: "time option"
  st_WakeSpec :: "WakeSpec option"

record Mission =
  m_ID :: string
  m_Owner :: string
  m_Goal :: string
  m_BudgetTokens :: int
  m_Status :: MissionStatus
  m_Version :: int

definition zero_grants :: PermissionEnvelope where
  "zero_grants = \<lparr>Classification = '''', ToolScopes = [], ArtifactRefs = [], BoardViews = []\<rparr>"

text \<open>The zero value of \<open>mission.Subtask\<close>, the base of the composite literals in the code.\<close>

definition zero_subtask :: Subtask where
  "zero_subtask =
     \<lparr>st_ID = '''', st_MissionID = '''', st_ParentID = '''', st_Kind = '''',
      st_RequiredSkills = [], st_DependsOn = [],
      st_Scheduling = \<lparr>Priority = 0, Deadline = None, BudgetTokens = 0, Exclusive = False\<rparr>,
      st_Retry = \<lparr>MaxAttempts = 0, Backoff = '''', OnFailure = ''''\<rparr>,
      st_State = StateOther '''', st_Assignee = '''', st_LeaseID = '''', st_Attempt = 0,
      st_ResultRef = '''', st_Version = 0, st_Question = '''', st_Options = [],
      st_OnTimeout = '''', st_Input = fmempty, st_ReworkOf = '''', st_Grants = zero_grants,
      st_Checkpoint = '''', st_WakeKind = '''', st_WakeAt = None, st_WakeDeadline = None,
      st_WakeSpec = None\<rparr>"

end
