(* ===== verification/StateMachine.thy ===== *)
theory StateMachine
  imports MissionTypes
begin

text \<open>
  The life cycle of a subtask, \<open>internal/mission/statemachine.go\<close>: the transition table, \<open>Apply\<close>
  with its three kinds of refusal, and the derivation of a mission's status from its subtasks.
\<close>

datatype EventType =
    EvCreated | EvDepsSatisfied | EvLeaseOffered | EvLeaseAccepted | EvLeaseExpired
  | EvStarted | EvTakeover | EvSuspended | EvWoken | EvBlocked | EvDecisionApproved
  | EvDecisionRejected | EvCompleted | EvFailed | EvRetried | EvWithdrawn | EvCancelled
  | EvOther string

fun event_string :: "EventType \<Rightarrow> string" where
  "event_string EvCreated = ''subtask.created''"
| "event_string EvDepsSatisfied = ''subtask.deps_satisfied''"
| "event_string EvLeaseOffered = ''subtask.lease_offered''"
| "event_string EvLeaseAccepted = ''subtask.lease_accepted''"
| "event_string EvLeaseExpired = ''subtask.lease_expired''"
| "event_string EvStarted = ''subtask.started''"
| "event_string EvTakeover = ''subtask.takeover_ready''"
| "event_string EvSuspended = ''subtask.suspended''"
| "event_string EvWoken = ''subtask.woken''"
| "event_string EvBlocked = ''subtask.blocked''"
| "event_string EvDecisionApproved = ''subtask.decision_approved''"
| "event_string EvDecisionRejected = ''subtask.decision_rejected''"
| "event_string EvCompleted = ''subtask.succeeded''"
| "event_string EvFailed = ''subtask.failed''"
| "event_string EvRetried = ''subtask.retried''"
| "event_string EvWithdrawn = ''subtask.withdrawn''"
| "event_string EvCancelled = ''subtask.cancelled''"
| "event_string (EvOther x) = x"

text \<open>
  The table \<open>transitions\<close>: \<open>None\<close> for a state without an entry, and for a state with an entry
  the map from events to next states.
\<close>

fun transitions :: "State \<Rightarrow> (EventType \<rightharpoonup> State) option" where
  "transitions StatePending = Some [EvDepsSatisfied \<mapsto> StateReady, EvCancelled \<mapsto> StateCancelled]"
| "transitions StateReady = Some [EvLeaseOffered \<mapsto> StateOffered, EvSuspended \<mapsto> StateWaiting,
     EvBlocked \<mapsto> StateBlocked, EvCancelled \<mapsto> StateCancelled]"
| "transitions StateOffered = Some [EvLeaseAccepted \<mapsto> StateLeased, EvLeaseExpired \<mapsto> StateReady,
     EvWithdrawn \<mapsto> StateReady, EvCancelled \<mapsto> StateCancelled]"
| "transitions StateLeased = Some [EvStarted \<mapsto> StateRunning, EvLeaseExpired \<mapsto> StateReady,
     EvCancelled \<mapsto> StateCancelled]"
| "transitions StateRunning = Some [EvCompleted \<mapsto> StateSucceeded, EvFailed \<mapsto> StateFailed,
     EvTakeover \<mapsto> StateReady, EvSuspended \<mapsto> StateWaiting, EvBlocked \<mapsto> StateBlocked,
     EvCancelled \<mapsto> StateCancelled]"
| "transitions StateWaiting = Some [EvWoken \<mapsto> StateReady, EvCancelled \<mapsto> StateCancelled]"
| "transitions StateBlocked = Some [EvDecisionApproved \<mapsto> StateRunning,
     EvDecisionRejected \<mapsto> StateFailed, EvCancelled \<mapsto> StateCancelled]"
| "transitions StateFailed = Some [EvRetried \<mapsto> StateReady, EvCancelled \<mapsto> StateCancelled]"
| "transitions _ = None"

datatype apply_error = TerminalState State EventType | UnknownState State | IllegalTransition State EventType

definition Apply :: "State \<Rightarrow> EventType \<Rightarrow> apply_error + State" where
  "Apply frm ev =
     (case transitions frm of
        None \<Rightarrow> if Terminal frm then Inl (TerminalState frm ev) else Inl (UnknownState frm)
      | Some nexts \<Rightarrow>
         (case nexts ev of
            None \<Rightarrow> Inl (IllegalTransition frm ev)
          | Some nxt \<Rightarrow> Inr nxt))"

text \<open>\<open>MustApply\<close> panics on an illegal transition: \<open>None\<close> is the panic.\<close>

definition MustApply :: "State \<Rightarrow> EventType \<Rightarrow> State option" where
  "MustApply frm ev = (case Apply frm ev of Inl _ \<Rightarrow> None | Inr nxt \<Rightarrow> Some nxt)"

fun count_states :: "State list \<Rightarrow> int \<times> int \<times> int \<times> int \<Rightarrow> int \<times> int \<times> int \<times> int" where
  "count_states [] acc = acc"
| "count_states (s # ss) (succeeded, failed, cancelled, terminal) =
     count_states ss
       (case s of
          StateSucceeded \<Rightarrow> (succeeded + 1, failed, cancelled, terminal + 1)
        | StateFailed \<Rightarrow> (succeeded, failed + 1, cancelled, terminal + 1)
        | StateCancelled \<Rightarrow> (succeeded, failed, cancelled + 1, terminal + 1)
        | _ \<Rightarrow> (succeeded, failed, cancelled, terminal))"

definition MissionStatusOf :: "State list \<Rightarrow> MissionStatus" where
  "MissionStatusOf states =
     (if states = [] then MissionActive
      else case count_states states (0, 0, 0, 0) of (succeeded, failed, cancelled, terminal) \<Rightarrow>
        if terminal < int (length states) then MissionActive
        else if failed > 0 then MissionFailed
        else if cancelled > 0 then MissionCancelled
        else MissionSucceeded)"

section \<open>The transition relation\<close>

inductive moves :: "State \<Rightarrow> EventType \<Rightarrow> State \<Rightarrow> bool" where
  moves: "Apply s ev = Inr t \<Longrightarrow> moves s ev t"

inductive_simps moves_iff: "moves s ev t"

lemma Apply_Inr_iff: "Apply s ev = Inr t \<longleftrightarrow> (\<exists>n. transitions s = Some n \<and> n ev = Some t)"
  by (auto simp: Apply_def split: option.splits if_splits)

text \<open>The complete list of moves, the table read as rules.\<close>

lemma Apply_cases:
  assumes "Apply s ev = Inr t"
  shows "(s, ev, t) \<in> {(StatePending, EvDepsSatisfied, StateReady), (StatePending, EvCancelled, StateCancelled),
    (StateReady, EvLeaseOffered, StateOffered), (StateReady, EvSuspended, StateWaiting),
    (StateReady, EvBlocked, StateBlocked), (StateReady, EvCancelled, StateCancelled),
    (StateOffered, EvLeaseAccepted, StateLeased), (StateOffered, EvLeaseExpired, StateReady),
    (StateOffered, EvWithdrawn, StateReady), (StateOffered, EvCancelled, StateCancelled),
    (StateLeased, EvStarted, StateRunning), (StateLeased, EvLeaseExpired, StateReady),
    (StateLeased, EvCancelled, StateCancelled), (StateRunning, EvCompleted, StateSucceeded),
    (StateRunning, EvFailed, StateFailed), (StateRunning, EvTakeover, StateReady),
    (StateRunning, EvSuspended, StateWaiting), (StateRunning, EvBlocked, StateBlocked),
    (StateRunning, EvCancelled, StateCancelled), (StateWaiting, EvWoken, StateReady),
    (StateWaiting, EvCancelled, StateCancelled), (StateBlocked, EvDecisionApproved, StateRunning),
    (StateBlocked, EvDecisionRejected, StateFailed), (StateBlocked, EvCancelled, StateCancelled),
    (StateFailed, EvRetried, StateReady), (StateFailed, EvCancelled, StateCancelled)}"
  using assms unfolding Apply_Inr_iff
  by (cases s) (auto split: if_splits)

section \<open>Runs of a life cycle\<close>

text \<open>A run is a list of events followed from one state to another.\<close>

fun follows :: "('s \<Rightarrow> 'e \<Rightarrow> 's \<Rightarrow> bool) \<Rightarrow> 's \<Rightarrow> 'e list \<Rightarrow> 's \<Rightarrow> bool" where
  "follows mv s [] t \<longleftrightarrow> s = t"
| "follows mv s (e # es) t \<longleftrightarrow> (\<exists>u. mv s e u \<and> follows mv u es t)"

text \<open>
  The contract of a life cycle: an event determines the next state, and a final state refuses
  every event. Clients get determinism of whole runs and that a run ends at a final state.
\<close>

locale lifecycle =
  fixes mv :: "'s \<Rightarrow> 'e \<Rightarrow> 's \<Rightarrow> bool" and final :: "'s \<Rightarrow> bool"
  assumes mv_det: "mv s e t \<Longrightarrow> mv s e u \<Longrightarrow> t = u"
    and final_stuck: "final s \<Longrightarrow> \<not> mv s e t"
begin

lemma follows_det: "follows mv s es t \<Longrightarrow> follows mv s es u \<Longrightarrow> t = u"
proof (induction es arbitrary: s)
  case (Cons e es)
  then obtain a b where "mv s e a" "follows mv a es t" "mv s e b" "follows mv b es u" by auto
  with Cons.IH [of a] mv_det [of s e a b] show ?case by blast
qed simp

lemma follows_final: "follows mv s es t \<Longrightarrow> final s \<Longrightarrow> es = [] \<and> t = s"
  by (cases es) (use final_stuck in auto)

lemma follows_append: "follows mv s (es @ fs) t \<longleftrightarrow> (\<exists>u. follows mv s es u \<and> follows mv u fs t)"
  by (induction es arbitrary: s) auto

lemma final_only_at_end:
  assumes "follows mv s (es @ f # fs) t" and "follows mv s es u"
  shows "\<not> final u"
proof -
  from assms(1) obtain v where v: "follows mv s es v" "follows mv v (f # fs) t"
    by (auto simp only: follows_append)
  then have "v = u" using assms(2) follows_det by blast
  with v(2) follows_final [of u "f # fs" t] show ?thesis by blast
qed

end

definition absorbing :: "State \<Rightarrow> bool" where
  "absorbing s \<longleftrightarrow> s = StateSucceeded \<or> s = StateCancelled"

interpretation subtask_cycle: lifecycle moves absorbing
  by unfold_locales (auto simp: moves_iff absorbing_def Apply_Inr_iff)

text \<open>The shortest way to success from every known state that is not absorbing.\<close>

fun success_path :: "State \<Rightarrow> EventType list" where
  "success_path StatePending = [EvDepsSatisfied, EvLeaseOffered, EvLeaseAccepted, EvStarted, EvCompleted]"
| "success_path StateReady = [EvLeaseOffered, EvLeaseAccepted, EvStarted, EvCompleted]"
| "success_path StateOffered = [EvLeaseAccepted, EvStarted, EvCompleted]"
| "success_path StateLeased = [EvStarted, EvCompleted]"
| "success_path StateRunning = [EvCompleted]"
| "success_path StateWaiting = [EvWoken, EvLeaseOffered, EvLeaseAccepted, EvStarted, EvCompleted]"
| "success_path StateBlocked = [EvDecisionApproved, EvCompleted]"
| "success_path StateFailed = [EvRetried, EvLeaseOffered, EvLeaseAccepted, EvStarted, EvCompleted]"
| "success_path _ = []"

lemma success_path_follows:
  "s \<noteq> StateCancelled \<Longrightarrow> (\<And>x. s \<noteq> StateOther x) \<Longrightarrow> follows moves s (success_path s) StateSucceeded"
  by (cases s) (auto simp: moves_iff Apply_def)

section \<open>Counting states\<close>

lemma count_states_eq:
  "count_states ss (a, b, c, d) =
     (a + int (count_list ss StateSucceeded), b + int (count_list ss StateFailed),
      c + int (count_list ss StateCancelled), d + int (length (filter Terminal ss)))"
proof (induction ss arbitrary: a b c d)
  case (Cons s ss)
  then show ?case by (cases s) simp_all
qed simp

lemma count_list_pos_iff: "0 < count_list xs x \<longleftrightarrow> x \<in> set xs"
  by (induction xs) auto

lemma filter_length_less_iff: "length (filter P xs) < length xs \<longleftrightarrow> (\<exists>x \<in> set xs. \<not> P x)"
  by (induction xs) (auto simp: less_Suc_eq_le)

lemma MissionStatusOf_eq:
  "MissionStatusOf ss =
     (if ss = [] \<or> (\<exists>s \<in> set ss. \<not> Terminal s) then MissionActive
      else if StateFailed \<in> set ss then MissionFailed
      else if StateCancelled \<in> set ss then MissionCancelled
      else MissionSucceeded)"
  by (auto simp: MissionStatusOf_def count_states_eq count_list_pos_iff filter_length_less_iff)

lemma Terminal_cases: "Terminal s \<longleftrightarrow> s = StateSucceeded \<or> s = StateFailed \<or> s = StateCancelled"
  by (cases s) auto

end
