(* ===== verification/Permissions.thy ===== *)
theory Permissions
  imports MissionTypes
begin

text \<open>
  Permission envelopes, \<open>internal/mission/permissions.go\<close>: normalisation (validation, sorted
  duplicate-free lists, a canonical order of the board views) and the attenuation check
  \<open>PermissionEnvelopeSubset\<close> that delegation relies on. The abstract side is \<open>authority\<close>, the
  set of things an envelope lets its holder do.
\<close>

section \<open>Normalisation\<close>

definition ClassificationPublic :: string where "ClassificationPublic = ''public''"
definition ClassificationInternal :: string where "ClassificationInternal = ''internal''"
definition ClassificationConfidential :: string where "ClassificationConfidential = ''confidential''"
definition ClassificationRestricted :: string where "ClassificationRestricted = ''restricted''"
definition BoardModeReadOnly :: string where "BoardModeReadOnly = ''ro''"
definition BoardModeReadWrite :: string where "BoardModeReadWrite = ''rw''"

definition classificationRank :: "string \<rightharpoonup> nat" where
  "classificationRank = [ClassificationPublic \<mapsto> 0, ClassificationInternal \<mapsto> 1,
     ClassificationConfidential \<mapsto> 2, ClassificationRestricted \<mapsto> 3]"

datatype permission_error = UnknownClassification string | NamespaceRequired | BadBoardMode

definition uniqueSorted :: "string list \<Rightarrow> string list" where
  "uniqueSorted xs = sort (remdups (filter (\<lambda>v. v \<noteq> '''') xs))"

text \<open>The loop over the board views: the first invalid view stops it.\<close>

definition normalizeView :: "BoardGrant \<Rightarrow> permission_error + BoardGrant" where
  "normalizeView view =
     (if g_Namespace view = '''' then Inl NamespaceRequired
      else let view = (if g_Mode view = '''' then view\<lparr>g_Mode := BoardModeReadOnly\<rparr> else view) in
        if g_Mode view \<noteq> BoardModeReadOnly \<and> g_Mode view \<noteq> BoardModeReadWrite then Inl BadBoardMode
        else Inr (view\<lparr>g_Keys := uniqueSorted (g_Keys view)\<rparr>))"

fun normalizeViews :: "BoardGrant list \<Rightarrow> permission_error + BoardGrant list" where
  "normalizeViews [] = Inr []"
| "normalizeViews (v # vs) =
     (case normalizeView v of
        Inl e \<Rightarrow> Inl e
      | Inr v' \<Rightarrow> (case normalizeViews vs of Inl e \<Rightarrow> Inl e | Inr vs' \<Rightarrow> Inr (v' # vs')))"

definition view_less :: "BoardGrant \<Rightarrow> BoardGrant \<Rightarrow> bool" where
  "view_less a b =
     (if g_Namespace a \<noteq> g_Namespace b then g_Namespace a < g_Namespace b
      else if g_Mode a \<noteq> g_Mode b then g_Mode a < g_Mode b
      else join NUL (g_Keys a) < join NUL (g_Keys b))"

definition NormalizePermissionEnvelope :: "PermissionEnvelope \<Rightarrow> permission_error + PermissionEnvelope" where
  "NormalizePermissionEnvelope env =
     (let out = (if Classification env = '''' then env\<lparr>Classification := ClassificationPublic\<rparr> else env) in
      if classificationRank (Classification out) = None then Inl (UnknownClassification (Classification out))
      else let out = out\<lparr>ToolScopes := uniqueSorted (ToolScopes out),
                         ArtifactRefs := uniqueSorted (ArtifactRefs out)\<rparr> in
        (case normalizeViews (BoardViews out) of
           Inl e \<Rightarrow> Inl e
         | Inr views \<Rightarrow> Inr (out\<lparr>BoardViews := sort_slice view_less views\<rparr>)))"

section \<open>Attenuation\<close>

definition stringSubset :: "string list \<Rightarrow> string list \<Rightarrow> bool" where
  "stringSubset parent child = list_all (\<lambda>v. v \<in> set parent) child"

definition boardGrantCovers :: "BoardGrant \<Rightarrow> BoardGrant \<Rightarrow> bool" where
  "boardGrantCovers parent child =
     (if g_Namespace parent \<noteq> g_Namespace child \<or>
         (g_Mode parent = BoardModeReadOnly \<and> g_Mode child = BoardModeReadWrite) then False
      else if g_Keys child = [] then g_Keys parent = []
      else if g_Keys parent = [] then True
      else stringSubset (g_Keys parent) (g_Keys child))"

definition rank_of :: "string \<Rightarrow> nat" where
  \<comment> \<open>a Go map read: the zero value for a missing key\<close>
  "rank_of c = (case classificationRank c of None \<Rightarrow> 0 | Some n \<Rightarrow> n)"

definition PermissionEnvelopeSubset :: "PermissionEnvelope \<Rightarrow> PermissionEnvelope \<Rightarrow> bool" where
  "PermissionEnvelopeSubset parent child =
     (case NormalizePermissionEnvelope parent of
        Inl _ \<Rightarrow> False
      | Inr p \<Rightarrow>
         (case NormalizePermissionEnvelope child of
            Inl _ \<Rightarrow> False
          | Inr c \<Rightarrow>
              if rank_of (Classification c) > rank_of (Classification p) then False
              else if \<not> stringSubset (ToolScopes p) (ToolScopes c)
                    \<or> \<not> stringSubset (ArtifactRefs p) (ArtifactRefs c) then False
              else list_all (\<lambda>cv. list_ex (\<lambda>pv. boardGrantCovers pv cv) (BoardViews p)) (BoardViews c)))"

section \<open>Normal forms\<close>

lemma set_uniqueSorted: "set (uniqueSorted xs) = {x \<in> set xs. x \<noteq> ''''}"
  by (auto simp: uniqueSorted_def)

lemma sorted_uniqueSorted: "sorted (uniqueSorted xs)" and distinct_uniqueSorted: "distinct (uniqueSorted xs)"
  by (simp_all add: uniqueSorted_def)

lemma uniqueSorted_idem [simp]: "uniqueSorted (uniqueSorted xs) = uniqueSorted xs"
proof -
  have "filter (\<lambda>v. v \<noteq> '''') (uniqueSorted xs) = uniqueSorted xs"
    by (simp add: filter_id_conv set_uniqueSorted)
  then show ?thesis
    unfolding uniqueSorted_def [of "uniqueSorted xs"]
    by (simp add: distinct_remdups_id distinct_uniqueSorted sorted_sort_id sorted_uniqueSorted)
qed

definition view_normal :: "BoardGrant \<Rightarrow> bool" where
  "view_normal v \<longleftrightarrow> g_Namespace v \<noteq> '''' \<and> (g_Mode v = BoardModeReadOnly \<or> g_Mode v = BoardModeReadWrite)
     \<and> uniqueSorted (g_Keys v) = g_Keys v"

lemma mode_constants [simp]: "BoardModeReadOnly \<noteq> ''''" "BoardModeReadWrite \<noteq> ''''"
    "BoardModeReadOnly \<noteq> BoardModeReadWrite" "BoardModeReadWrite \<noteq> BoardModeReadOnly"
  by (simp_all add: BoardModeReadOnly_def BoardModeReadWrite_def)

lemma normalizeView_normal: "normalizeView v = Inr w \<Longrightarrow> view_normal w"
  by (auto simp: normalizeView_def view_normal_def Let_def split: if_splits)

lemma normalizeView_id: "view_normal v \<Longrightarrow> normalizeView v = Inr v"
  by (auto simp: normalizeView_def view_normal_def Let_def)

lemma normalizeViews_normal: "normalizeViews vs = Inr ws \<Longrightarrow> list_all view_normal ws"
  by (induction vs arbitrary: ws) (auto split: sum.splits dest: normalizeView_normal)

lemma normalizeViews_id: "list_all view_normal vs \<Longrightarrow> normalizeViews vs = Inr vs"
  by (induction vs) (auto simp: normalizeView_id)

lemma view_less_key:
  "view_less a b \<longleftrightarrow> (g_Namespace a, g_Mode a, join NUL (g_Keys a)) < (g_Namespace b, g_Mode b, join NUL (g_Keys b))"
  by (auto simp: view_less_def less_prod_simp)

lemma sort_slice_sorted_id:
  assumes "\<And>a b. lt a b \<longleftrightarrow> key a < (key b :: 'k :: linorder)"
  shows "sort_slice lt (sort_slice lt xs) = sort_slice lt xs"
  by (simp add: sort_slice_key [where key = key, OF assms] sort_key_id_if_sorted)

text \<open>What an envelope allows, independent of how its lists are written.\<close>

datatype right = UseTool string | ReadArtifact string | ReadBoard string string | WriteBoard string string

fun grant_rights :: "BoardGrant \<Rightarrow> right \<Rightarrow> bool" where
  "grant_rights v (ReadBoard ns key) \<longleftrightarrow> g_Namespace v = ns \<and> (g_Keys v = [] \<or> key \<in> set (g_Keys v))"
| "grant_rights v (WriteBoard ns key) \<longleftrightarrow> g_Namespace v = ns \<and> (g_Keys v = [] \<or> key \<in> set (g_Keys v))
     \<and> g_Mode v = BoardModeReadWrite"
| "grant_rights v _ \<longleftrightarrow> False"

definition authority :: "PermissionEnvelope \<Rightarrow> right set" where
  "authority env =
     (case NormalizePermissionEnvelope env of
        Inl _ \<Rightarrow> {}
      | Inr n \<Rightarrow> UseTool ` set (ToolScopes n) \<union> ReadArtifact ` set (ArtifactRefs n)
          \<union> {r. \<exists>v \<in> set (BoardViews n). grant_rights v r})"

definition valid_envelope :: "PermissionEnvelope \<Rightarrow> bool" where
  "valid_envelope env \<longleftrightarrow> (case NormalizePermissionEnvelope env of Inl _ \<Rightarrow> False | Inr _ \<Rightarrow> True)"

definition normal_envelope :: "PermissionEnvelope \<Rightarrow> bool" where
  "normal_envelope n \<longleftrightarrow> classificationRank (Classification n) \<noteq> None
     \<and> uniqueSorted (ToolScopes n) = ToolScopes n \<and> uniqueSorted (ArtifactRefs n) = ArtifactRefs n
     \<and> list_all view_normal (BoardViews n) \<and> sort_slice view_less (BoardViews n) = BoardViews n"

lemma rank_constants [simp]: "classificationRank '''' = None" "classificationRank ClassificationPublic = Some 0"
  by (simp_all add: classificationRank_def ClassificationPublic_def ClassificationInternal_def
      ClassificationConfidential_def ClassificationRestricted_def)

lemma Normalize_normal:
  assumes "NormalizePermissionEnvelope env = Inr n"
  shows "normal_envelope n"
proof -
  have views: "list_all view_normal (sort_slice view_less ws)" if "normalizeViews vs = Inr ws" for vs ws
    using normalizeViews_normal [OF that] by (simp add: list_all_iff)
  show ?thesis
    using assms views unfolding NormalizePermissionEnvelope_def normal_envelope_def Let_def
    by (auto simp: sort_slice_sorted_id [OF view_less_key] split: if_splits sum.splits)
qed

lemma Normalize_id:
  assumes "normal_envelope n"
  shows "NormalizePermissionEnvelope n = Inr n"
proof -
  have "Classification n \<noteq> ''''" using assms by (auto simp: normal_envelope_def)
  then show ?thesis
    using assms by (auto simp: NormalizePermissionEnvelope_def normal_envelope_def Let_def normalizeViews_id)
qed

text \<open>The subset check on the normal forms.\<close>

definition covers_normal :: "PermissionEnvelope \<Rightarrow> PermissionEnvelope \<Rightarrow> bool" where
  "covers_normal p c \<longleftrightarrow> rank_of (Classification c) \<le> rank_of (Classification p)
     \<and> set (ToolScopes c) \<subseteq> set (ToolScopes p) \<and> set (ArtifactRefs c) \<subseteq> set (ArtifactRefs p)
     \<and> (\<forall>cv \<in> set (BoardViews c). \<exists>pv \<in> set (BoardViews p). boardGrantCovers pv cv)"

lemma stringSubset_iff: "stringSubset p c \<longleftrightarrow> set c \<subseteq> set p"
  by (auto simp: stringSubset_def list_all_iff)

lemma Subset_iff:
  "PermissionEnvelopeSubset parent child \<longleftrightarrow>
     (\<exists>p c. NormalizePermissionEnvelope parent = Inr p \<and> NormalizePermissionEnvelope child = Inr c
        \<and> covers_normal p c)"
  by (auto simp: PermissionEnvelopeSubset_def covers_normal_def stringSubset_iff list_all_iff list_ex_iff
      split: sum.splits)

lemma boardGrantCovers_refl: "boardGrantCovers v v"
  by (auto simp: boardGrantCovers_def stringSubset_iff)

lemma boardGrantCovers_trans:
  "boardGrantCovers a b \<Longrightarrow> boardGrantCovers b c \<Longrightarrow> view_normal b \<Longrightarrow> boardGrantCovers a c"
  by (auto simp: boardGrantCovers_def stringSubset_iff view_normal_def split: if_splits)

lemma covers_normal_trans:
  assumes "covers_normal a b" "covers_normal b c" "normal_envelope b"
  shows "covers_normal a c"
proof -
  have "\<exists>av \<in> set (BoardViews a). boardGrantCovers av cv" if "cv \<in> set (BoardViews c)" for cv
    using assms that boardGrantCovers_trans unfolding covers_normal_def normal_envelope_def list_all_iff by metis
  then show ?thesis using assms by (auto simp: covers_normal_def)
qed

lemma grant_rights_covers:
  "boardGrantCovers p c \<Longrightarrow> view_normal p \<Longrightarrow> grant_rights c r \<Longrightarrow> grant_rights p r"
  by (cases r) (auto simp: boardGrantCovers_def stringSubset_iff view_normal_def split: if_splits)

text \<open>
  The contract of an attenuation order: every valid envelope covers itself, covering composes,
  and what is covered has no more rights. The client is a chain of delegations.
\<close>

locale attenuation =
  fixes covers :: "'e \<Rightarrow> 'e \<Rightarrow> bool" and rights :: "'e \<Rightarrow> 'r set"
  assumes covers_trans: "covers a b \<Longrightarrow> covers b c \<Longrightarrow> covers a c"
    and covers_rights: "covers p c \<Longrightarrow> rights c \<subseteq> rights p"
begin

lemma chain_covered:
  "successively covers (e0 # es) \<Longrightarrow> e \<in> set es \<Longrightarrow> covers e0 e"
proof (induction es arbitrary: e0)
  case (Cons f es)
  then have "covers e0 f" and "successively covers (f # es)" by auto
  with Cons show ?case by (cases "e = f") (auto intro: covers_trans)
qed simp

lemma chain_rights:
  "successively covers (e0 # es) \<Longrightarrow> e \<in> set es \<Longrightarrow> rights e \<subseteq> rights e0"
  by (rule covers_rights) (rule chain_covered)

end

lemma Subset_trans:
  "PermissionEnvelopeSubset a b \<Longrightarrow> PermissionEnvelopeSubset b c \<Longrightarrow> PermissionEnvelopeSubset a c"
  unfolding Subset_iff by (metis Inr_inject Normalize_normal covers_normal_trans)

lemma Subset_authority:
  assumes "PermissionEnvelopeSubset p c"
  shows "authority c \<subseteq> authority p"
proof -
  from assms obtain np nc where n: "NormalizePermissionEnvelope p = Inr np"
      "NormalizePermissionEnvelope c = Inr nc" and cov: "covers_normal np nc"
    by (auto simp: Subset_iff)
  have "view_normal v" if "v \<in> set (BoardViews np)" for v
    using Normalize_normal [OF n(1)] that by (simp add: normal_envelope_def list_all_iff)
  then have "\<exists>pv \<in> set (BoardViews np). grant_rights pv r"
    if "cv \<in> set (BoardViews nc)" "grant_rights cv r" for cv r
    using cov that grant_rights_covers unfolding covers_normal_def by metis
  then show ?thesis
    using cov unfolding authority_def n covers_normal_def by auto
qed

interpretation envelopes: attenuation PermissionEnvelopeSubset authority
  by unfold_locales (rule Subset_trans, assumption+, rule Subset_authority)

end
