(* ===== verification/StoreTypes.thy ===== *)
theory StoreTypes
  imports StateMachine Permissions
begin

text \<open>
  The storage vocabulary of \<open>internal/store/store.go\<close> and the record types of
  \<open>internal/store/quality.go\<close>: the sentinel errors, actors, events, agents, leases, decisions,
  board entries, artifacts, the Lead inbox, budget accounts and holds, context packages, quality
  records, appeals, reputation and meter records.

  Statuses that only the code writes are datatypes; agent health and the timeout policy of a
  decision are client strings. JSON-only tags have no counterpart.
\<close>

text \<open>
  The errors of the store, the ones the service layer adds, and \<open>ErrPlain\<close> for an error without a
  sentinel (\<open>fmt.Errorf\<close> without \<open>%w\<close>), with its message.
\<close>

datatype error =
    ErrConflict | ErrNotFound | ErrFenced | ErrDuplicate | ErrBudgetRequired | ErrBudgetExceeded
  | ErrPermissionExceeded
  | ErrInvalidDAG | ErrInvalidBudget | ErrInvalidPermission | ErrNoAgent | ErrForbidden
  | ErrInvalidLeadInput | ErrInvalidCondition | ErrConditionCostExceeded
  | ErrInvalidQuality | ErrInvalidProductInput
  | ErrPlain string

record Actor =
  ac_Kind :: string
  ac_ID :: string

record Event =
  e_Seq :: int
  e_AggregateID :: string
  e_MissionID :: string
  e_Type :: string
  e_Payload :: payload
  e_Actor :: Actor
  e_Ts :: time

record Capability =
  c_Skill :: string
  c_Level :: float64

record ReputationRecord =
  r_AgentID :: string
  r_Skill :: string
  SuccessAlpha :: float64
  SuccessBeta :: float64
  QualityEWMA :: float64
  QualitySamples :: float64
  ReliabilityAlpha :: float64
  ReliabilityBeta :: float64
  LatencyEWMAms :: float64
  CostEfficiency :: float64
  Samples :: float64
  r_UpdatedAt :: time
  SuccessScore :: float64
  ReliabilityScore :: float64
  CompositeScore :: float64

record Agent =
  a_ID :: string
  a_Name :: string
  a_Platform :: string
  a_Endpoint :: "(string, string) fmap"
  a_Capabilities :: "Capability list"
  a_MaxConcurrency :: int
  a_Health :: string
  a_LastHeartbeat :: time
  a_Running :: int
  a_TriggerScopes :: "string list"
  a_AuthSubject :: string
  a_Reputation :: "(string, ReputationRecord) fmap"

datatype LeaseState = LeaseActive | LeaseExpired | LeaseReleased | LeaseFenced

record Lease =
  l_ID :: string
  l_SubtaskID :: string
  l_AgentID :: string
  l_FencingToken :: int
  l_ExpiresAt :: time
  l_State :: LeaseState
  l_CreatedAt :: time

text \<open>\<open>DecisionUnset\<close> is the empty string, the zero value a decision has before it is stored.\<close>

datatype DecisionStatus = DecisionUnset | DecisionPending | DecisionResolved | DecisionExpired

record Decision =
  d_ID :: string
  d_MissionID :: string
  d_SubtaskID :: string
  d_Kind :: string
  d_Question :: string
  d_Options :: "string list"
  d_Status :: DecisionStatus
  d_Choice :: string
  d_Rationale :: string
  d_DeciderID :: string
  d_Deadline :: "time option"
  d_OnTimeout :: string
  d_CreatedAt :: time
  d_ResolvedAt :: "time option"

record BoardEntry =
  b_MissionID :: string
  b_Namespace :: string
  b_Key :: string
  b_Value :: string
  b_Version :: int
  b_UpdatedAt :: time

record Artifact =
  art_ID :: string
  art_SHA256 :: string
  art_MissionID :: string
  art_ProducedBy :: string
  art_SchemaRef :: string
  art_Size :: int
  art_CreatedAt :: time

datatype InboxStatus = LeadInboxPending | LeadInboxIngested

record LeadInboxItem =
  i_ID :: string
  i_MissionID :: string
  i_LeadSubtaskID :: string
  i_SourceSubtaskID :: string
  i_Kind :: string
  i_ResultRef :: string
  i_Status :: InboxStatus
  i_IngestMode :: string
  i_IngestedBy :: string
  i_Version :: int
  i_CreatedAt :: time
  i_IngestedAt :: "time option"

definition LeadIngestSummary :: string where "LeadIngestSummary = ''summary''"
definition LeadIngestFull :: string where "LeadIngestFull = ''full''"

definition LeadInboxID :: "string \<Rightarrow> string" where
  "LeadInboxID sourceSubtaskID = ''lin_'' @ sourceSubtaskID"

record BudgetAccount =
  ba_MissionID :: string
  ba_Metered :: bool
  ba_Total :: int
  ba_Held :: int
  ba_Spent :: int
  ba_Available :: int
  ba_Version :: int
  ba_UpdatedAt :: time

datatype HoldStatus = BudgetHoldHeld | BudgetHoldSettled | BudgetHoldReleased

record BudgetHold =
  h_ID :: string
  h_MissionID :: string
  h_SubtaskID :: string
  h_Attempt :: int
  h_Amount :: int
  h_Actual :: int
  h_Status :: HoldStatus
  h_CreatedAt :: time
  h_SettledAt :: "time option"

definition BudgetHoldID :: "string \<Rightarrow> string" where
  "BudgetHoldID subtaskID = ''bhd_'' @ subtaskID"

record ContextBoardEntry =
  cb_Namespace :: string
  cb_Key :: string
  cb_Value :: string
  cb_Version :: int
  cb_Mode :: string

record ContextDecision =
  cd_ID :: string
  cd_Kind :: string
  cd_Question :: string
  cd_Status :: DecisionStatus
  cd_Choice :: string

record ContextTask =
  ct_ID :: string
  ct_MissionID :: string
  ct_ParentID :: string
  ct_Kind :: Kind
  ct_RequiredSkills :: "string list"
  ct_Scheduling :: SchedulingSpec
  ct_Retry :: RetryPolicy
  ct_Input :: payload
  ct_ReworkOf :: string
  ct_Grants :: PermissionEnvelope
  ct_Checkpoint :: string
  ct_WakeKind :: string
  ct_WakeAt :: "time option"
  ct_WakeDeadline :: "time option"
  ct_WakeSpec :: "WakeSpec option"

record ContextPackage =
  cp_ID :: string
  cp_LeaseID :: string
  cp_MissionID :: string
  cp_SubtaskID :: string
  cp_Task :: ContextTask
  cp_Artifacts :: "Artifact list"
  cp_BoardViews :: "ContextBoardEntry list"
  cp_Decisions :: "ContextDecision list"
  cp_Budget :: BudgetAccount
  cp_SnapshotHash :: string
  cp_CreatedAt :: time

section \<open>Quality, appeals, signals and metering\<close>

definition QualityAccepted :: string where "QualityAccepted = ''accepted''"
definition QualityRework :: string where "QualityRework = ''rework''"
definition QualityRejected :: string where "QualityRejected = ''rejected''"
definition MeterAuthoritative :: string where "MeterAuthoritative = ''authoritative''"
definition MeterSelfReported :: string where "MeterSelfReported = ''self_reported''"
definition PriceBookV1 :: string where "PriceBookV1 = ''credits-v1''"
definition AppealPending :: string where "AppealPending = ''pending''"
definition AppealUpheld :: string where "AppealUpheld = ''upheld''"
definition AppealOverturned :: string where "AppealOverturned = ''overturned''"

record QualityLayer =
  ql_Pass :: bool
  ql_Score :: "float64 option"
  ql_Confidence :: "float64 option"
  ql_Violations :: "payload list"
  ql_Evidence :: payload

record QualityRecord =
  q_ArtifactID :: string
  q_MissionID :: string
  q_SubtaskID :: string
  q_ProducerAgentID :: string
  q_ProducerPlatform :: string
  q_Attempt :: int
  q_Layers :: "(string, QualityLayer) fmap"
  q_Score :: float64
  q_Confidence :: float64
  q_Verdict :: string
  q_FailureClass :: string
  q_Rubric :: string
  q_ContextHash :: string
  q_VerifiedBy :: "Actor list"
  q_CreatedAt :: time

record QualityAppeal =
  ap_ID :: string
  ap_ArtifactID :: string
  ap_MissionID :: string
  ap_AppellantID :: string
  ap_Reason :: string
  ap_EvidenceRefs :: "string list"
  ap_Status :: string
  ap_Resolution :: string
  ap_ReviewerID :: string
  ap_CorrectionSignal :: string
  ap_CreatedAt :: time
  ap_ResolvedAt :: "time option"

record ReputationSignal =
  sig_ID :: string
  sig_AgentID :: string
  sig_Skill :: string
  sig_Success :: "bool option"
  sig_Quality :: "float64 option"
  sig_Reliable :: "bool option"
  sig_LatencyMS :: float64
  sig_CostCredits :: float64
  sig_Weight :: float64
  sig_EventRef :: string

record MeterRecord =
  mt_ID :: string
  mt_MissionID :: string
  mt_SubtaskID :: string
  mt_AgentID :: string
  mt_Resource :: string
  mt_Quantity :: float64
  mt_Unit :: string
  mt_Trust :: string
  mt_PriceBook :: string
  mt_UnitPrice :: float64
  mt_Credits :: float64
  mt_Metadata :: payload
  mt_RecordedAt :: time

definition zero_account :: "string \<Rightarrow> BudgetAccount" where
  "zero_account missionID =
     \<lparr>ba_MissionID = missionID, ba_Metered = False, ba_Total = 0, ba_Held = 0, ba_Spent = 0,
      ba_Available = 0, ba_Version = 0, ba_UpdatedAt = zero_time\<rparr>"

definition zero_meter :: MeterRecord where
  "zero_meter =
     \<lparr>mt_ID = '''', mt_MissionID = '''', mt_SubtaskID = '''', mt_AgentID = '''', mt_Resource = '''',
      mt_Quantity = 0, mt_Unit = '''', mt_Trust = '''', mt_PriceBook = '''', mt_UnitPrice = 0,
      mt_Credits = 0, mt_Metadata = fmempty, mt_RecordedAt = zero_time\<rparr>"

end
