(* ===== verification/ContextPackages.thy ===== *)
theory ContextPackages
  imports StoreTypes
begin

text \<open>
  \<open>internal/store/context.go\<close>: the least-privilege snapshot handed to an agent with its lease.
  The content fingerprint (\<open>json.Marshal\<close> followed by SHA-256 in hexadecimal) is a parameter
  \<open>digest\<close>, a function of exactly the values the code hashes; \<open>None\<close> is a marshalling error.
\<close>

record SnapshotInput =
  si_Task :: ContextTask
  si_Artifacts :: "Artifact list"
  si_Board :: "ContextBoardEntry list"
  si_Decisions :: "ContextDecision list"
  si_Budget :: BudgetAccount

type_synonym digest = "SnapshotInput \<Rightarrow> string option"

definition context_task :: "Subtask \<Rightarrow> PermissionEnvelope \<Rightarrow> ContextTask" where
  "context_task sub grants =
     \<lparr>ct_ID = st_ID sub, ct_MissionID = st_MissionID sub, ct_ParentID = st_ParentID sub,
      ct_Kind = st_Kind sub, ct_RequiredSkills = st_RequiredSkills sub,
      ct_Scheduling = st_Scheduling sub, ct_Retry = st_Retry sub, ct_Input = st_Input sub,
      ct_ReworkOf = st_ReworkOf sub, ct_Grants = grants, ct_Checkpoint = st_Checkpoint sub,
      ct_WakeKind = st_WakeKind sub, ct_WakeAt = st_WakeAt sub,
      ct_WakeDeadline = st_WakeDeadline sub, ct_WakeSpec = st_WakeSpec sub\<rparr>"

definition context_decision :: "Decision \<Rightarrow> ContextDecision" where
  "context_decision d = \<lparr>cd_ID = d_ID d, cd_Kind = d_Kind d, cd_Question = d_Question d,
     cd_Status = d_Status d, cd_Choice = d_Choice d\<rparr>"

definition board_view_less :: "ContextBoardEntry \<Rightarrow> ContextBoardEntry \<Rightarrow> bool" where
  "board_view_less a b = (if cb_Namespace a \<noteq> cb_Namespace b then cb_Namespace a < cb_Namespace b
     else cb_Key a < cb_Key b)"

text \<open>A nil pointer in the artifact and decision slices is \<open>None\<close>.\<close>

definition BuildContextPackage ::
  "digest \<Rightarrow> string \<Rightarrow> Subtask \<Rightarrow> Artifact option list \<Rightarrow> ContextBoardEntry list \<Rightarrow> Decision option list
     \<Rightarrow> BudgetAccount option \<Rightarrow> time \<Rightarrow> error + ContextPackage" where
  "BuildContextPackage digest leaseID sub artifacts board decisions budget now =
     (case NormalizePermissionEnvelope (st_Grants sub) of
        Inl _ \<Rightarrow> Inl (ErrPlain ''invalid permission envelope'')
      | Inr grants \<Rightarrow>
          let task = context_task sub grants;
              filtered = filter (\<lambda>a. art_MissionID a = st_MissionID sub) (List.map_filter id artifacts);
              filtered = sort_slice (\<lambda>a b. art_ID a < art_ID b) filtered;
              board = sort_slice board_view_less board;
              dgst = map context_decision
                (filter (\<lambda>d. d_SubtaskID d = st_ID sub) (List.map_filter id decisions));
              dgst = sort_slice (\<lambda>a b. cd_ID a < cd_ID b) dgst;
              bud = (case budget of None \<Rightarrow> zero_account (st_MissionID sub) | Some b \<Rightarrow> b)
          in case digest \<lparr>si_Task = task, si_Artifacts = filtered, si_Board = board,
                 si_Decisions = dgst, si_Budget = bud\<rparr> of
               None \<Rightarrow> Inl (ErrPlain ''json'')
             | Some hex \<Rightarrow>
                 Inr \<lparr>cp_ID = ''ctx_'' @ leaseID, cp_LeaseID = leaseID, cp_MissionID = st_MissionID sub,
                      cp_SubtaskID = st_ID sub, cp_Task = task, cp_Artifacts = filtered,
                      cp_BoardViews = board, cp_Decisions = dgst, cp_Budget = bud,
                      cp_SnapshotHash = ''sha256:'' @ hex, cp_CreatedAt = now\<rparr>)"

lemma map_filter_id_Some [simp]: "List.map_filter id (map Some xs) = xs"
  by (induction xs) (simp_all add: map_filter_simps)

lemma map_filter_id_set: "x \<in> set (List.map_filter id xs) \<longleftrightarrow> Some x \<in> set xs"
  by (induction xs) (auto simp: map_filter_simps split: option.splits)

lemma BuildContextPackage_fields:
  assumes "BuildContextPackage digest leaseID sub artifacts board decisions budget now = Inr pkg"
  shows "cp_ID pkg = ''ctx_'' @ leaseID" "cp_LeaseID pkg = leaseID"
    "cp_MissionID pkg = st_MissionID sub" "cp_SubtaskID pkg = st_ID sub"
    "set (cp_Artifacts pkg) = {a. Some a \<in> set artifacts \<and> art_MissionID a = st_MissionID sub}"
    "set (cp_BoardViews pkg) = set board"
    "set (cp_Decisions pkg) = context_decision ` {d. Some d \<in> set decisions \<and> d_SubtaskID d = st_ID sub}"
    "cp_Budget pkg = (case budget of None \<Rightarrow> zero_account (st_MissionID sub) | Some b \<Rightarrow> b)"
    "NormalizePermissionEnvelope (st_Grants sub) = Inr (ct_Grants (cp_Task pkg))"
  using assms unfolding BuildContextPackage_def Let_def
  by (auto simp: context_task_def map_filter_id_set split: sum.splits option.splits)

text \<open>
  The fingerprint does not depend on the lease, the time or the order in which artifacts,
  board views and decisions were collected.
\<close>

lemma BuildContextPackage_hash_stable:
  assumes "BuildContextPackage digest l1 sub arts1 board1 decs1 budget t1 = Inr p1"
    and "BuildContextPackage digest l2 sub arts2 board2 decs2 budget t2 = Inr p2"
    and "mset arts1 = mset arts2" "mset board1 = mset board2" "mset decs1 = mset decs2"
    and "inj_on art_ID {a. Some a \<in> set arts1}"
    and "inj_on (\<lambda>v. (cb_Namespace v, cb_Key v)) (set board1)"
    and "inj_on d_ID {d. Some d \<in> set decs1}"
  shows "cp_SnapshotHash p1 = cp_SnapshotHash p2"
proof -
  have less: "board_view_less a b \<longleftrightarrow> (cb_Namespace a, cb_Key a) < (cb_Namespace b, cb_Key b)" for a b
    by (auto simp: board_view_less_def less_prod_simp)
  have filt: "mset (List.map_filter id xs) = mset (List.map_filter id ys)" if "mset xs = mset ys"
    for xs ys :: "'x option list"
    using that by (simp add: List.map_filter_def mset_filter)
  have "sort_slice (\<lambda>a b. art_ID a < art_ID b)
      (filter (\<lambda>a. art_MissionID a = st_MissionID sub) (List.map_filter id arts1)) =
    sort_slice (\<lambda>a b. art_ID a < art_ID b)
      (filter (\<lambda>a. art_MissionID a = st_MissionID sub) (List.map_filter id arts2))"
    using assms(6) filt [OF assms(3)]
    by (intro sort_slice_indep [where key = art_ID]) (auto simp: map_filter_id_set inj_on_def mset_filter)
  moreover have "sort_slice board_view_less board1 = sort_slice board_view_less board2"
    using assms(4,7) less by (intro sort_slice_indep) auto
  moreover have "sort_slice (\<lambda>a b. cd_ID a < cd_ID b) (map context_decision
        (filter (\<lambda>d. d_SubtaskID d = st_ID sub) (List.map_filter id decs1))) =
    sort_slice (\<lambda>a b. cd_ID a < cd_ID b) (map context_decision
        (filter (\<lambda>d. d_SubtaskID d = st_ID sub) (List.map_filter id decs2)))"
    using assms(8) filt [OF assms(5)]
    by (intro sort_slice_indep [where key = cd_ID])
      (auto simp: map_filter_id_set inj_on_def mset_filter context_decision_def)
  ultimately show ?thesis
    using assms(1,2) unfolding BuildContextPackage_def Let_def
    by (auto split: sum.splits option.splits)
qed

end
