(* ===== verification/Quality.thy ===== *)
theory Quality
  imports StoreTypes
begin

text \<open>
  The projections of \<open>internal/store/quality.go\<close>: the reputation record and its update by a
  signal, the composite score, and the price book.
\<close>

section \<open>Reputation\<close>

definition clamp01 :: "float64 \<Rightarrow> float64" where
  "clamp01 v = (if v < 0 then 0 else if v > 1 then 1 else v)"

definition ratio :: "float64 \<Rightarrow> float64 \<Rightarrow> float64" where
  "ratio a b = (if fadd a b = 0 then fl (1 / 2) else fdiv a (fadd a b))"

definition RefreshScores :: "ReputationRecord \<Rightarrow> ReputationRecord" where
  "RefreshScores r =
     (let success = ratio (SuccessAlpha r) (SuccessBeta r);
          reliability = ratio (ReliabilityAlpha r) (ReliabilityBeta r)
      in r\<lparr>SuccessScore := success, ReliabilityScore := reliability,
           CompositeScore := clamp01 (fadd (fadd (fmul (fl (4 / 10)) success)
             (fmul (fl (4 / 10)) (QualityEWMA r))) (fmul (fl (2 / 10)) reliability))\<rparr>)"

definition NewReputation :: "string \<Rightarrow> string \<Rightarrow> ReputationRecord" where
  "NewReputation agentID skill =
     \<lparr>r_AgentID = agentID, r_Skill = skill, SuccessAlpha = 2, SuccessBeta = 2,
      QualityEWMA = fl (5 / 10), QualitySamples = 0, ReliabilityAlpha = 2, ReliabilityBeta = 2,
      LatencyEWMAms = 0, CostEfficiency = 0, Samples = 0, r_UpdatedAt = zero_time,
      SuccessScore = 0, ReliabilityScore = 0, CompositeScore = 0\<rparr>"

definition signal_weight :: "ReputationSignal \<Rightarrow> float64" where
  "signal_weight sig =
     (let weight = sig_Weight sig;
          weight = (if weight \<le> 0 then 1 else weight)
      in if weight > 1 then 1 else weight)"

definition ewma_alpha :: "float64 \<Rightarrow> float64" where
  "ewma_alpha weight = min (fmul (fl (2 / 10)) weight) (fl (1 / 10))"

definition ewma_step :: "float64 \<Rightarrow> float64 \<Rightarrow> float64 \<Rightarrow> float64" where
  "ewma_step alpha old x = fadd old (fmul alpha (fsub x old))"

definition ApplyReputationSignal :: "ReputationRecord \<Rightarrow> ReputationSignal \<Rightarrow> time \<Rightarrow> ReputationRecord" where
  "ApplyReputationSignal r sig now =
     (let weight = signal_weight sig;
          r = (case sig_Success sig of None \<Rightarrow> r
               | Some True \<Rightarrow> r\<lparr>SuccessAlpha := fadd (SuccessAlpha r) weight\<rparr>
               | Some False \<Rightarrow> r\<lparr>SuccessBeta := fadd (SuccessBeta r) weight\<rparr>);
          r = (case sig_Reliable sig of None \<Rightarrow> r
               | Some True \<Rightarrow> r\<lparr>ReliabilityAlpha := fadd (ReliabilityAlpha r) weight\<rparr>
               | Some False \<Rightarrow> r\<lparr>ReliabilityBeta := fadd (ReliabilityBeta r) weight\<rparr>);
          alpha = ewma_alpha weight;
          r = (case sig_Quality sig of None \<Rightarrow> r
               | Some quality \<Rightarrow>
                   r\<lparr>QualityEWMA := ewma_step alpha (QualityEWMA r) (clamp01 quality),
                     QualitySamples := fadd (QualitySamples r) weight\<rparr>);
          r = (if sig_LatencyMS sig > 0
               then if LatencyEWMAms r = 0 then r\<lparr>LatencyEWMAms := sig_LatencyMS sig\<rparr>
                    else r\<lparr>LatencyEWMAms := ewma_step alpha (LatencyEWMAms r) (sig_LatencyMS sig)\<rparr>
               else r);
          r = (case sig_Quality sig of None \<Rightarrow> r
               | Some quality \<Rightarrow>
                   if sig_CostCredits sig > 0
                   then let eff = fdiv (clamp01 quality) (sig_CostCredits sig) in
                     if CostEfficiency r = 0 then r\<lparr>CostEfficiency := eff\<rparr>
                     else r\<lparr>CostEfficiency := ewma_step alpha (CostEfficiency r) eff\<rparr>
                   else r);
          r = r\<lparr>Samples := fadd (Samples r) weight, r_UpdatedAt := now\<rparr>
      in RefreshScores r)"

section \<open>The price book\<close>

definition PriceMeter :: "MeterRecord \<Rightarrow> MeterRecord" where
  "PriceMeter m =
     (let m = m\<lparr>mt_PriceBook := PriceBookV1\<rparr>;
          m = (if mt_Resource m = ''lease.wall_ms'' then m\<lparr>mt_Unit := ''ms'', mt_UnitPrice := fl (1 / 1000000)\<rparr>
               else if mt_Resource m = ''artifact.byte'' then m\<lparr>mt_Unit := ''byte'', mt_UnitPrice := fl (1 / 1000000000)\<rparr>
               else if mt_Resource m = ''verify.call'' then m\<lparr>mt_Unit := ''call'', mt_UnitPrice := fl (1 / 100)\<rparr>
               else if mt_Resource m = ''wake.fire'' then m\<lparr>mt_Unit := ''fire'', mt_UnitPrice := fl (1 / 1000)\<rparr>
               else if mt_Resource m = ''token.reported'' then m\<lparr>mt_Unit := ''token'', mt_UnitPrice := 0\<rparr>
               else if mt_Resource m = ''token.input'' then m\<lparr>mt_Unit := ''token'', mt_UnitPrice := fl (2 / 1000000)\<rparr>
               else if mt_Resource m = ''token.output'' then m\<lparr>mt_Unit := ''token'', mt_UnitPrice := fl (8 / 1000000)\<rparr>
               else m)
      in m\<lparr>mt_Credits := fmul (mt_Quantity m) (mt_UnitPrice m)\<rparr>)"

section \<open>Bounds\<close>

lemma clamp01_bounds: "0 \<le> clamp01 v \<and> clamp01 v \<le> 1"
  by (simp add: clamp01_def)

lemma signal_weight_bounds: "0 < signal_weight sig \<and> signal_weight sig \<le> 1"
  by (simp add: signal_weight_def Let_def)

lemma ratio_bounds:
  assumes "0 \<le> a" "0 \<le> b" "is_float a"
  shows "0 \<le> ratio a b \<and> ratio a b \<le> 1"
proof (cases "fadd a b = 0")
  case True
  then show ?thesis by (simp add: ratio_def fl_nonneg fl_le_1)
next
  case False
  have "a \<le> fadd a b" using assms by (intro fadd_ge) auto
  with False assms have "a / fadd a b \<le> 1" "0 \<le> a / fadd a b" by (auto simp: field_simps)
  with False show ?thesis by (simp add: ratio_def fdiv_def fl_nonneg fl_le_1)
qed

text \<open>
  One averaging step keeps a representable value of [0,1] in [0,1], in rounded arithmetic: below
  because the step is at least \<open>- old\<close>, above because two roundings at most quadruple a step that
  is at most a fifth of the way to 1.
\<close>

lemma ewma_step_bounds:
  assumes old: "0 \<le> old" "old \<le> 1" "is_float old" and x: "0 \<le> x" "x \<le> 1"
    and alpha: "0 \<le> alpha" "alpha \<le> 2 / 10"
  shows "0 \<le> ewma_step alpha old x \<and> ewma_step alpha old x \<le> 1"
proof -
  have fo: "fl (- old) = - old" using old(3) by (simp add: fl_minus is_float_def)
  have "- old \<le> fsub x old"
    using fl_mono [of "- old" "x - old"] x(1) fo by (simp add: fsub_def)
  then have "- (alpha * old) \<le> alpha * fsub x old"
    using mult_left_mono [OF _ alpha(1)] by fastforce
  moreover have "alpha * old \<le> 1 * old" using old alpha by (intro mult_right_mono) auto
  ultimately have "- old \<le> alpha * fsub x old" by simp
  then have lo: "- old \<le> fmul alpha (fsub x old)"
    using fl_mono [of "- old" "alpha * fsub x old"] fo by (simp add: fmul_def)
  have "fsub x old \<le> fl (1 - old)" unfolding fsub_def using x by (intro fl_mono) simp
  also have "\<dots> \<le> 2 * (1 - old)" using old by (intro fl_le_double) simp
  finally have "alpha * fsub x old \<le> alpha * (2 * (1 - old))" using alpha(1) by (rule mult_left_mono)
  also have "\<dots> \<le> 2 / 10 * (2 * (1 - old))" using alpha old by (intro mult_right_mono) auto
  finally have "fmul alpha (fsub x old) \<le> fl (2 / 10 * (2 * (1 - old)))"
    unfolding fmul_def by (rule fl_mono)
  also have "\<dots> \<le> 2 * (2 / 10 * (2 * (1 - old)))" using old by (intro fl_le_double) simp
  also have "\<dots> \<le> 1 - old" using old by simp
  finally have hi: "fmul alpha (fsub x old) \<le> 1 - old" .
  from lo hi show ?thesis by (simp add: ewma_step_def fadd_def fl_nonneg fl_le_1)
qed

lemma ewma_alpha_bounds:
  assumes "0 < w" "w \<le> 1"
  shows "0 \<le> ewma_alpha w \<and> ewma_alpha w \<le> 2 / 10"
proof -
  have "fl (1 / 10) \<le> 2 * (1 / 10)" by (rule fl_le_double) simp
  moreover have "0 \<le> fmul (fl (2 / 10)) w" using assms by (simp add: fmul_def fl_nonneg)
  ultimately show ?thesis by (auto simp: ewma_alpha_def min_def fl_nonneg)
qed

text \<open>The invariant of a reputation record and the bounds of the scores derived from it.\<close>

definition reputation_inv :: "ReputationRecord \<Rightarrow> bool" where
  "reputation_inv r \<longleftrightarrow> 2 \<le> SuccessAlpha r \<and> 2 \<le> SuccessBeta r \<and> 2 \<le> ReliabilityAlpha r
     \<and> 2 \<le> ReliabilityBeta r \<and> 0 \<le> QualityEWMA r \<and> QualityEWMA r \<le> 1
     \<and> is_float (SuccessAlpha r) \<and> is_float (SuccessBeta r) \<and> is_float (ReliabilityAlpha r)
     \<and> is_float (ReliabilityBeta r) \<and> is_float (QualityEWMA r)"

definition scores_bounded :: "ReputationRecord \<Rightarrow> bool" where
  "scores_bounded r \<longleftrightarrow> 0 \<le> SuccessScore r \<and> SuccessScore r \<le> 1 \<and> 0 \<le> ReliabilityScore r
     \<and> ReliabilityScore r \<le> 1 \<and> 0 \<le> CompositeScore r \<and> CompositeScore r \<le> 1"

lemma NewReputation_inv: "reputation_inv (NewReputation agent skill)"
  using fl_of_int [of 2] by (simp add: reputation_inv_def NewReputation_def is_float_def fl_nonneg fl_le_1)

lemma RefreshScores_bounded: "reputation_inv r \<Longrightarrow> scores_bounded (RefreshScores r)"
  using ratio_bounds [of "SuccessAlpha r" "SuccessBeta r"] ratio_bounds [of "ReliabilityAlpha r" "ReliabilityBeta r"]
  by (simp add: reputation_inv_def scores_bounded_def RefreshScores_def Let_def clamp01_bounds)

lemma RefreshScores_inv [simp]: "reputation_inv (RefreshScores r) = reputation_inv r"
  by (simp add: reputation_inv_def RefreshScores_def Let_def)

lemma fadd_weight: "2 \<le> a \<Longrightarrow> is_float a \<Longrightarrow> 2 \<le> fadd a (signal_weight sig)"
  using fadd_ge [of a "signal_weight sig"] signal_weight_bounds [of sig] by linarith

lemma is_float_ewma_step [simp]: "is_float (ewma_step a x y)"
  by (simp add: ewma_step_def)

lemma ApplyReputationSignal_inv:
  assumes "reputation_inv r"
  shows "reputation_inv (ApplyReputationSignal r sig now)"
proof -
  have "0 \<le> ewma_alpha (signal_weight sig) \<and> ewma_alpha (signal_weight sig) \<le> 2 / 10"
    using signal_weight_bounds [of sig] ewma_alpha_bounds by blast
  then have "0 \<le> ewma_step (ewma_alpha (signal_weight sig)) q (clamp01 v)
      \<and> ewma_step (ewma_alpha (signal_weight sig)) q (clamp01 v) \<le> 1"
    if "0 \<le> q" "q \<le> 1" "is_float q" for q v
    using that clamp01_bounds [of v] ewma_step_bounds by blast
  with assms show ?thesis
    unfolding ApplyReputationSignal_def Let_def RefreshScores_inv
    by (auto simp: reputation_inv_def fadd_weight split: option.splits bool.splits)
qed

lemma ApplyReputationSignal_bounded:
  "reputation_inv r \<Longrightarrow> scores_bounded (ApplyReputationSignal r sig now)"
  using ApplyReputationSignal_inv [of r sig now]
  unfolding ApplyReputationSignal_def Let_def RefreshScores_inv by (rule RefreshScores_bounded)

end
