(* ===== verification/MemState.thy ===== *)
theory MemState
  imports ContextPackages Quality
begin

text \<open>
  The in-memory store of \<open>internal/store/memory/memory.go\<close>: its state and the helpers its methods
  share. Every method runs under one mutex, so a method is one atomic state transformer. The
  sequences \<open>eventSeq\<close>, \<open>fencingSeq\<close> and \<open>leaseSeq\<close> count up from 0, one per event or offer, and
  are kept as unbounded integers: 2 ^ 63 steps are out of reach. Budget amounts are client data
  and keep their 64-bit arithmetic (\<open>wrap64\<close>).
\<close>

record Store =
  missions :: "Mission table"
  subtasks :: "Subtask table"
  agents :: "Agent table"
  leases :: "Lease table"
  events :: "Event list"
  idem :: "string table"
  decisions :: "Decision table"
  board :: "BoardEntry table"
  artifacts :: "Artifact table"
  leadInbox :: "LeadInboxItem table"
  budgets :: "BudgetAccount table"
  budgetHolds :: "BudgetHold table"
  contexts :: "ContextPackage table"
  quality :: "QualityRecord table"
  appeals :: "QualityAppeal table"
  reputations :: "ReputationRecord table"
  repSignals :: "string fset"
  meters :: "MeterRecord table"
  eventSeq :: int
  fencingSeq :: int
  leaseSeq :: int

definition New :: Store where
  "New = \<lparr>missions = fmempty, subtasks = fmempty, agents = fmempty, leases = fmempty, events = [],
     idem = fmempty, decisions = fmempty, board = fmempty, artifacts = fmempty, leadInbox = fmempty,
     budgets = fmempty, budgetHolds = fmempty, contexts = fmempty, quality = fmempty,
     appeals = fmempty, reputations = fmempty, repSignals = {||}, meters = fmempty,
     eventSeq = 0, fencingSeq = 0, leaseSeq = 0\<rparr>"

type_synonym 'a result = "(error, 'a, Store) outcome"

text \<open>A method that returns a value beside its error carries that value on the \<open>Inl\<close> side.\<close>

type_synonym 'a result2 = "(error \<times> 'a, 'a, Store) outcome"

section \<open>Writing one entry\<close>

text \<open>A write through a pointer obtained from a map is an update at the key it was read from.\<close>

abbreviation setMission :: "string \<Rightarrow> Mission \<Rightarrow> Store \<Rightarrow> Store" where
  "setMission k v s \<equiv> s\<lparr>missions := fmupd k v (missions s)\<rparr>"

abbreviation setSubtask :: "string \<Rightarrow> Subtask \<Rightarrow> Store \<Rightarrow> Store" where
  "setSubtask k v s \<equiv> s\<lparr>subtasks := fmupd k v (subtasks s)\<rparr>"

abbreviation setAgent :: "string \<Rightarrow> Agent \<Rightarrow> Store \<Rightarrow> Store" where
  "setAgent k v s \<equiv> s\<lparr>agents := fmupd k v (agents s)\<rparr>"

abbreviation setLease :: "string \<Rightarrow> Lease \<Rightarrow> Store \<Rightarrow> Store" where
  "setLease k v s \<equiv> s\<lparr>leases := fmupd k v (leases s)\<rparr>"

abbreviation setDecision :: "string \<Rightarrow> Decision \<Rightarrow> Store \<Rightarrow> Store" where
  "setDecision k v s \<equiv> s\<lparr>decisions := fmupd k v (decisions s)\<rparr>"

abbreviation setBudget :: "string \<Rightarrow> BudgetAccount \<Rightarrow> Store \<Rightarrow> Store" where
  "setBudget k v s \<equiv> s\<lparr>budgets := fmupd k v (budgets s)\<rparr>"

abbreviation setHold :: "string \<Rightarrow> BudgetHold \<Rightarrow> Store \<Rightarrow> Store" where
  "setHold k v s \<equiv> s\<lparr>budgetHolds := fmupd k v (budgetHolds s)\<rparr>"

definition any_value :: "('v \<Rightarrow> bool) \<Rightarrow> 'v table \<Rightarrow> bool" where
  \<comment> \<open>a \<open>range\<close> loop that only looks for a value\<close>
  "any_value P m \<longleftrightarrow> \<not> fmpred (\<lambda>_ v. \<not> P v) m"

lemma any_value_iff: "any_value P m \<longleftrightarrow> (\<exists>k v. fmlookup m k = Some v \<and> P v)"
  by (auto simp: any_value_def fmpred_iff)

section \<open>The event log\<close>

definition appendEventLocked ::
  "string \<Rightarrow> string \<Rightarrow> string \<Rightarrow> payload \<Rightarrow> Actor \<Rightarrow> time \<Rightarrow> Store \<Rightarrow> Store" where
  "appendEventLocked aggregateID missionID typ payload actor now s =
     s\<lparr>eventSeq := eventSeq s + 1,
       events := events s @
         [\<lparr>e_Seq = eventSeq s + 1, e_AggregateID = aggregateID, e_MissionID = missionID,
           e_Type = typ, e_Payload = payload, e_Actor = actor, e_Ts = now\<rparr>]\<rparr>"

definition AppendEvent :: "Event \<Rightarrow> Store \<Rightarrow> unit result" where
  "AppendEvent e s = (Inr (), appendEventLocked (e_AggregateID e) (e_MissionID e) (e_Type e)
     (e_Payload e) (e_Actor e) (e_Ts e) s)"

text \<open>The loop of \<open>ListMissionEvents\<close>: the limit is tested after an event has been taken.\<close>

fun collectEvents :: "string \<Rightarrow> int \<Rightarrow> int \<Rightarrow> Event list \<Rightarrow> Event list \<Rightarrow> Event list" where
  "collectEvents missionID afterSeq limit out [] = out"
| "collectEvents missionID afterSeq limit out (e # es) =
     (if e_MissionID e = missionID \<and> e_Seq e > afterSeq
      then let out = out @ [e] in
        if int (length out) \<ge> limit then out else collectEvents missionID afterSeq limit out es
      else collectEvents missionID afterSeq limit out es)"

definition ListMissionEvents :: "string \<Rightarrow> int \<Rightarrow> int \<Rightarrow> Store \<Rightarrow> Event list" where
  "ListMissionEvents missionID afterSeq limit s = collectEvents missionID afterSeq limit [] (events s)"

definition MaxEventSeq :: "Store \<Rightarrow> int" where
  "MaxEventSeq s = eventSeq s"

section \<open>Idempotency keys\<close>

definition PutIdempotent :: "string \<Rightarrow> string \<Rightarrow> Store \<Rightarrow> string result2" where
  "PutIdempotent key result s =
     (case fmlookup (idem s) key of
        Some existing \<Rightarrow> (Inl (ErrDuplicate, existing), s)
      | None \<Rightarrow> (Inr '''', s\<lparr>idem := fmupd key result (idem s)\<rparr>))"

section \<open>Lease identifiers\<close>

definition digits36 :: string where
  "digits36 = ''0123456789abcdefghijklmnopqrstuvwxyz''"

text \<open>The loop fills the buffer from its end: \<open>k\<close> digits of \<open>n\<close> in base 36.\<close>

fun base36 :: "nat \<Rightarrow> int \<Rightarrow> string" where
  "base36 0 n = ''''"
| "base36 (Suc k) n = base36 k (n div 36) @ [digits36 ! nat (n mod 36)]"

definition leaseID :: "int \<Rightarrow> string" where
  "leaseID n = ''les_'' @ base36 8 n"

section \<open>Meters\<close>

definition putMeterLocked :: "MeterRecord \<Rightarrow> time \<Rightarrow> Store \<Rightarrow> Store" where
  "putMeterLocked m now s =
     (case fmlookup (meters s) (mt_ID m) of
        Some _ \<Rightarrow> s
      | None \<Rightarrow> s\<lparr>meters := fmupd (mt_ID m) (PriceMeter (m\<lparr>mt_RecordedAt := now\<rparr>)) (meters s)\<rparr>)"

section \<open>Leases: fencing, release\<close>

definition checkFencingLocked :: "Subtask \<Rightarrow> int \<Rightarrow> Store \<Rightarrow> error + Lease" where
  "checkFencingLocked sub fencingToken s =
     (if st_LeaseID sub = '''' then Inl ErrFenced
      else case fmlookup (leases s) (st_LeaseID sub) of
          None \<Rightarrow> Inl ErrFenced
        | Some l \<Rightarrow>
            if l_State l \<noteq> LeaseActive \<or> l_FencingToken l \<noteq> fencingToken then Inl ErrFenced else Inr l)"

definition decRunning :: "string \<Rightarrow> Store \<Rightarrow> Store" where
  "decRunning agentID s =
     (case fmlookup (agents s) agentID of
        None \<Rightarrow> s
      | Some a \<Rightarrow> if a_Running a > 0 then setAgent agentID (a\<lparr>a_Running := a_Running a - 1\<rparr>) s else s)"

text \<open>The lease is written back under the key \<open>k\<close> it was read from.\<close>

definition releaseLeaseLocked :: "string \<Rightarrow> Lease \<Rightarrow> Store \<Rightarrow> Store" where
  "releaseLeaseLocked k l s = decRunning (l_AgentID l) (setLease k (l\<lparr>l_State := LeaseReleased\<rparr>) s)"

section \<open>Budget holds\<close>

definition available :: "BudgetAccount \<Rightarrow> int" where
  "available acc = wrap64 (wrap64 (ba_Total acc - ba_Held acc) - ba_Spent acc)"

definition settleBudgetHoldLocked :: "Subtask \<Rightarrow> int \<Rightarrow> Actor \<Rightarrow> time \<Rightarrow> Store \<Rightarrow> unit result" where
  "settleBudgetHoldLocked sub usageTokens actor now s =
     (case fmlookup (budgetHolds s) (st_ID sub) of
        None \<Rightarrow> (Inr (), s)
      | Some hold \<Rightarrow>
          if h_Status hold \<noteq> BudgetHoldHeld then (Inr (), s)
          else if usageTokens < 0 then (Inl ErrBudgetExceeded, s)
          else case fmlookup (budgets s) (st_MissionID sub) of
            None \<Rightarrow> (Inl ErrConflict, s)
          | Some account \<Rightarrow>
              let otherHeld = wrap64 (ba_Held account - h_Amount hold) in
              if otherHeld < 0
                 \<or> usageTokens > wrap64 (wrap64 (ba_Total account - ba_Spent account) - otherHeld)
              then (Inl ErrBudgetExceeded, s)
              else
                let account = account\<lparr>ba_Held := otherHeld,
                      ba_Spent := wrap64 (ba_Spent account + usageTokens),
                      ba_Version := ba_Version account + 1, ba_UpdatedAt := now\<rparr>;
                    account = account\<lparr>ba_Available := available account\<rparr>;
                    hold' = hold\<lparr>h_Actual := usageTokens, h_Status := BudgetHoldSettled,
                      h_SettledAt := Some now\<rparr>;
                    s = setBudget (st_MissionID sub) account s;
                    s = setHold (st_ID sub) hold' s;
                    s = appendEventLocked (st_ID sub) (st_MissionID sub) ''budget.settled''
                      (fmap_of_list [(''hold_id'', VStr (h_ID hold)), (''reserved_tokens'', VInt64 (h_Amount hold)),
                        (''actual_tokens'', VInt64 usageTokens), (''available_tokens'', VInt64 (ba_Available account))])
                      actor now s
                in (Inr (), s))"

definition releaseBudgetHoldLocked :: "Subtask \<Rightarrow> string \<Rightarrow> Actor \<Rightarrow> time \<Rightarrow> Store \<Rightarrow> Store" where
  "releaseBudgetHoldLocked sub reason actor now s =
     (case fmlookup (budgetHolds s) (st_ID sub) of
        None \<Rightarrow> s
      | Some hold \<Rightarrow>
          if h_Status hold \<noteq> BudgetHoldHeld then s
          else case fmlookup (budgets s) (st_MissionID sub) of
            None \<Rightarrow> s
          | Some account \<Rightarrow>
              let account = account\<lparr>ba_Held := wrap64 (ba_Held account - h_Amount hold),
                    ba_Version := ba_Version account + 1, ba_UpdatedAt := now\<rparr>;
                  account = account\<lparr>ba_Available := available account\<rparr>;
                  hold' = hold\<lparr>h_Status := BudgetHoldReleased, h_SettledAt := Some now\<rparr>;
                  s = setBudget (st_MissionID sub) account s;
                  s = setHold (st_ID sub) hold' s
              in appendEventLocked (st_ID sub) (st_MissionID sub) ''budget.released''
                   (fmap_of_list [(''hold_id'', VStr (h_ID hold)), (''amount_tokens'', VInt64 (h_Amount hold)),
                     (''reason'', VStr reason), (''available_tokens'', VInt64 (ba_Available account))])
                   actor now s)"

end
