(* ===== verification/MemTasks.thy ===== *)
theory MemTasks
  imports MemState
begin

text \<open>
  Missions, subtasks, the generic transition, the ready queue and the agent registry of
  \<open>internal/store/memory/memory.go\<close>.
\<close>

section \<open>Missions\<close>

definition created_subtask :: "Mission \<Rightarrow> Actor \<Rightarrow> time \<Rightarrow> Subtask \<Rightarrow> Store \<Rightarrow> Store" where
  "created_subtask m actor now sub s =
     appendEventLocked (st_ID sub) (m_ID m) (event_string EvCreated)
       (fmap_of_list [(''kind'', VStr (st_Kind sub))]) actor now (setSubtask (st_ID sub) sub s)"

definition CreateMission :: "Mission \<Rightarrow> Subtask list \<Rightarrow> Actor \<Rightarrow> time \<Rightarrow> Store \<Rightarrow> unit result" where
  "CreateMission m subs actor now s =
     (case fmlookup (missions s) (m_ID m) of
        Some _ \<Rightarrow> (Inl ErrConflict, s)
      | None \<Rightarrow>
          let s = setMission (m_ID m) m s;
              s = (if m_BudgetTokens m > 0
                   then setBudget (m_ID m) \<lparr>ba_MissionID = m_ID m, ba_Metered = True,
                     ba_Total = m_BudgetTokens m, ba_Held = 0, ba_Spent = 0,
                     ba_Available = m_BudgetTokens m, ba_Version = 0, ba_UpdatedAt = now\<rparr> s
                   else s);
              s = appendEventLocked (m_ID m) (m_ID m) ''mission.created''
                (fmap_of_list [(''goal'', VStr (m_Goal m)), (''owner'', VStr (m_Owner m)),
                  (''budget_tokens'', VInt64 (m_BudgetTokens m))]) actor now s
          in (Inr (), fold (created_subtask m actor now) subs s))"

definition GetMission :: "string \<Rightarrow> Store \<Rightarrow> error + Mission" where
  "GetMission ident s = (case fmlookup (missions s) ident of None \<Rightarrow> Inl ErrNotFound | Some m \<Rightarrow> Inr m)"

definition GetMissionBudget :: "string \<Rightarrow> Store \<Rightarrow> error + BudgetAccount" where
  "GetMissionBudget missionID s =
     (case fmlookup (missions s) missionID of
        None \<Rightarrow> Inl ErrNotFound
      | Some _ \<Rightarrow>
          (case fmlookup (budgets s) missionID of
             None \<Rightarrow> Inr (zero_account missionID)
           | Some account \<Rightarrow> Inr (account\<lparr>ba_Available := available account\<rparr>)))"

text \<open>The comparator shared by the listings: creation time, then id.\<close>

definition created_less :: "('a \<Rightarrow> time) \<Rightarrow> ('a \<Rightarrow> string) \<Rightarrow> 'a \<Rightarrow> 'a \<Rightarrow> bool" where
  "created_less created ident a b =
     (if created a = created b then ident a < ident b else time_before (created a) (created b))"

definition ListBudgetHolds :: "order \<Rightarrow> string \<Rightarrow> Store \<Rightarrow> error + BudgetHold list" where
  "ListBudgetHolds ord missionID s =
     (case fmlookup (missions s) missionID of
        None \<Rightarrow> Inl ErrNotFound
      | Some _ \<Rightarrow> Inr (sort_slice (created_less h_CreatedAt h_ID)
          (filter (\<lambda>h. h_MissionID h = missionID) (map_values ord (budgetHolds s)))))"

definition lowerStatus :: "MissionStatus \<Rightarrow> string" where
  "lowerStatus st = (case st of MissionSucceeded \<Rightarrow> ''succeeded'' | MissionFailed \<Rightarrow> ''failed''
     | MissionCancelled \<Rightarrow> ''cancelled'' | MissionActive \<Rightarrow> ''active'')"

definition SetMissionStatus ::
  "string \<Rightarrow> MissionStatus \<Rightarrow> int \<Rightarrow> Actor \<Rightarrow> time \<Rightarrow> Store \<Rightarrow> unit result" where
  "SetMissionStatus ident st expectedVersion actor now s =
     (case fmlookup (missions s) ident of
        None \<Rightarrow> (Inl ErrNotFound, s)
      | Some m \<Rightarrow>
          if m_Version m \<noteq> expectedVersion then (Inl ErrConflict, s)
          else
            let m = m\<lparr>m_Status := st, m_Version := m_Version m + 1\<rparr>;
                s = setMission ident m s
            in (Inr (), appendEventLocked (m_ID m) (m_ID m) (''mission.'' @ lowerStatus st)
                 (fmap_of_list [(''status'', VStr (mission_status_string st))]) actor now s))"

section \<open>Subtasks\<close>

definition GetSubtask :: "string \<Rightarrow> Store \<Rightarrow> error + Subtask" where
  "GetSubtask ident s = (case fmlookup (subtasks s) ident of None \<Rightarrow> Inl ErrNotFound | Some sub \<Rightarrow> Inr sub)"

definition by_id :: "Subtask \<Rightarrow> Subtask \<Rightarrow> bool" where
  "by_id a b \<longleftrightarrow> st_ID a < st_ID b"

definition ListSubtasks :: "order \<Rightarrow> string \<Rightarrow> Store \<Rightarrow> Subtask list" where
  "ListSubtasks ord missionID s =
     sort_slice by_id (filter (\<lambda>sub. st_MissionID sub = missionID) (map_values ord (subtasks s)))"

definition ListSubtasksByState :: "order \<Rightarrow> State \<Rightarrow> Store \<Rightarrow> Subtask list" where
  "ListSubtasksByState ord st s =
     sort_slice by_id (filter (\<lambda>sub. st_State sub = st) (map_values ord (subtasks s)))"

text \<open>
  \<open>mutate\<close> changes the stored subtask in place and may fail, so it returns its error beside the
  changed subtask; \<open>None\<close> is the nil function. On its error the new state has already been written.
\<close>

definition TransitionSubtask ::
  "string \<Rightarrow> EventType \<Rightarrow> int \<Rightarrow> Actor \<Rightarrow> payload option \<Rightarrow> time
     \<Rightarrow> (Subtask \<Rightarrow> error option \<times> Subtask) option \<Rightarrow> Store \<Rightarrow> Subtask result" where
  "TransitionSubtask ident ev expectedVersion actor payload now mutate s =
     (case fmlookup (subtasks s) ident of
        None \<Rightarrow> (Inl ErrNotFound, s)
      | Some sub \<Rightarrow>
          if st_Version sub \<noteq> expectedVersion then (Inl ErrConflict, s)
          else case Apply (st_State sub) ev of
              Inl _ \<Rightarrow> (Inl ErrConflict, s)
            | Inr nxt \<Rightarrow>
                let sub = sub\<lparr>st_State := nxt\<rparr>;
                    (err, sub) = (case mutate of None \<Rightarrow> (None, sub) | Some f \<Rightarrow> f sub)
                in case err of
                     Some e \<Rightarrow> (Inl e, setSubtask ident sub s)
                   | None \<Rightarrow>
                       let sub = sub\<lparr>st_Version := st_Version sub + 1\<rparr>;
                           payload = (case payload of None \<Rightarrow> fmempty | Some p \<Rightarrow> p);
                           payload = fmupd ''state'' (VStr (state_string nxt)) payload;
                           s = setSubtask ident sub s
                       in (Inr sub, appendEventLocked (st_ID sub) (st_MissionID sub)
                             (event_string ev) payload actor now s))"

section \<open>The ready queue\<close>

definition ready_less :: "Subtask \<Rightarrow> Subtask \<Rightarrow> bool" where
  "ready_less a b =
     (if Priority (st_Scheduling a) \<noteq> Priority (st_Scheduling b)
      then Priority (st_Scheduling a) > Priority (st_Scheduling b)
      else case (Deadline (st_Scheduling a), Deadline (st_Scheduling b)) of
          (Some ad, Some bd) \<Rightarrow> if ad \<noteq> bd then time_before ad bd else st_ID a < st_ID b
        | (Some _, None) \<Rightarrow> True
        | (None, Some _) \<Rightarrow> False
        | (None, None) \<Rightarrow> st_ID a < st_ID b)"

text \<open>A negative limit would make the slice expression panic; the scheduler passes its batch size.\<close>

definition DequeueReady :: "order \<Rightarrow> int \<Rightarrow> Store \<Rightarrow> Subtask list" where
  "DequeueReady ord limit s =
     (let ready = sort_slice ready_less (filter (\<lambda>sub. st_State sub = StateReady) (map_values ord (subtasks s)))
      in if int (length ready) > limit then take (nat limit) ready else ready)"

section \<open>Agents\<close>

text \<open>The result is the argument after the call: its heartbeat is set through the pointer.\<close>

definition UpsertAgent :: "Agent \<Rightarrow> time \<Rightarrow> Store \<Rightarrow> Agent result" where
  "UpsertAgent a now s =
     (let a = a\<lparr>a_LastHeartbeat := now\<rparr> in (Inr a, setAgent (a_ID a) a s))"

definition GetAgent :: "string \<Rightarrow> Store \<Rightarrow> error + Agent" where
  "GetAgent ident s = (case fmlookup (agents s) ident of None \<Rightarrow> Inl ErrNotFound | Some a \<Rightarrow> Inr a)"

definition ListAgents :: "order \<Rightarrow> Store \<Rightarrow> Agent list" where
  "ListAgents ord s = sort_slice (\<lambda>a b. a_ID a < a_ID b) (map_values ord (agents s))"

definition HeartbeatAgent :: "string \<Rightarrow> time \<Rightarrow> Store \<Rightarrow> unit result" where
  "HeartbeatAgent ident now s =
     (case fmlookup (agents s) ident of
        None \<Rightarrow> (Inl ErrNotFound, s)
      | Some a \<Rightarrow>
          let a = a\<lparr>a_LastHeartbeat := now\<rparr>;
              a = (if a_Health a = '''' \<or> a_Health a = ''suspect'' then a\<lparr>a_Health := ''healthy''\<rparr> else a)
          in (Inr (), setAgent ident a s))"

definition MarkAgentHealth :: "string \<Rightarrow> string \<Rightarrow> Store \<Rightarrow> unit result" where
  "MarkAgentHealth ident health s =
     (case fmlookup (agents s) ident of
        None \<Rightarrow> (Inl ErrNotFound, s)
      | Some a \<Rightarrow> (Inr (), setAgent ident (a\<lparr>a_Health := health\<rparr>) s))"

end
