(* ===== verification/MemLeases.thy ===== *)
theory MemLeases
  imports MemTasks
begin

text \<open>
  Offering, accepting, renewing and expiring leases, and the context package materialised with an
  offer (\<open>internal/store/memory/memory.go\<close>).
\<close>

section \<open>Materialising the context of an offer\<close>

text \<open>One board entry under one grant of the envelope.\<close>

definition view_entry ::
  "Subtask \<Rightarrow> BoardGrant \<Rightarrow> BoardEntry \<Rightarrow> ContextBoardEntry table \<Rightarrow> ContextBoardEntry table" where
  "view_entry sub grant entry views =
     (if b_MissionID entry \<noteq> st_MissionID sub \<or> b_Namespace entry \<noteq> g_Namespace grant then views
      else if g_Keys grant \<noteq> [] \<and> b_Key entry \<notin> set (g_Keys grant) then views
      else
        let key = b_Namespace entry @ NUL @ b_Key entry;
            view = \<lparr>cb_Namespace = b_Namespace entry, cb_Key = b_Key entry, cb_Value = b_Value entry,
              cb_Version = b_Version entry, cb_Mode = g_Mode grant\<rparr>
        in case fmlookup views key of
             None \<Rightarrow> fmupd key view views
           | Some current \<Rightarrow>
               if cb_Mode current = BoardModeReadOnly \<and> g_Mode grant = BoardModeReadWrite
               then fmupd key view views else views)"

definition board_views :: "order \<Rightarrow> Subtask \<Rightarrow> Store \<Rightarrow> ContextBoardEntry table" where
  "board_views ord sub s =
     fold (\<lambda>grant. fold (view_entry sub grant) (map_values ord (board s)))
       (BoardViews (st_Grants sub)) fmempty"

definition buildContextPackageLocked ::
  "order \<Rightarrow> digest \<Rightarrow> string \<Rightarrow> Subtask \<Rightarrow> time \<Rightarrow> Store \<Rightarrow> error + ContextPackage" where
  "buildContextPackageLocked ord digest lid sub now s =
     (let arts = List.map_filter (fmlookup (artifacts s)) (ArtifactRefs (st_Grants sub));
          board = map_values ord (board_views ord sub s);
          decs = filter (\<lambda>d. d_MissionID d = st_MissionID sub \<and> d_SubtaskID d = st_ID sub)
            (map_values ord (decisions s));
          budget = map_option (\<lambda>acc. acc\<lparr>ba_Available := available acc\<rparr>)
            (fmlookup (budgets s) (st_MissionID sub))
      in BuildContextPackage digest lid sub (map Some arts) board (map Some decs) budget now)"

section \<open>Offer and accept\<close>

definition system_actor :: "string \<Rightarrow> Actor" where
  "system_actor ident = \<lparr>ac_Kind = ''system'', ac_ID = ident\<rparr>"

definition incRunning :: "string \<Rightarrow> Store \<Rightarrow> Store" where
  "incRunning agentID s =
     (case fmlookup (agents s) agentID of
        None \<Rightarrow> s
      | Some a \<Rightarrow> setAgent agentID (a\<lparr>a_Running := a_Running a + 1\<rparr>) s)"

definition OfferLease ::
  "order \<Rightarrow> digest \<Rightarrow> string \<Rightarrow> string \<Rightarrow> int \<Rightarrow> duration \<Rightarrow> Actor \<Rightarrow> time \<Rightarrow> Store \<Rightarrow> Lease result" where
  "OfferLease ord digest subtaskID agentID expectedVersion ttl actor now s =
     (case fmlookup (subtasks s) subtaskID of
        None \<Rightarrow> (Inl ErrNotFound, s)
      | Some sub \<Rightarrow>
          if st_Version sub \<noteq> expectedVersion then (Inl ErrConflict, s)
          else case Apply (st_State sub) EvLeaseOffered of
              Inl _ \<Rightarrow> (Inl ErrConflict, s)
            | Inr _ \<Rightarrow>
                if any_value (\<lambda>l. l_SubtaskID l = subtaskID \<and> l_State l = LeaseActive) (leases s)
                then (Inl ErrConflict, s)
                else
                  let s = s\<lparr>fencingSeq := fencingSeq s + 1, leaseSeq := leaseSeq s + 1\<rparr>;
                      lease = \<lparr>l_ID = leaseID (leaseSeq s), l_SubtaskID = subtaskID, l_AgentID = agentID,
                        l_FencingToken = fencingSeq s, l_ExpiresAt = time_add now ttl,
                        l_State = LeaseActive, l_CreatedAt = now\<rparr>
                  in case buildContextPackageLocked ord digest (l_ID lease) sub now s of
                       Inl e \<Rightarrow> (Inl e, s)
                     | Inr pkg \<Rightarrow>
                         let s = setLease (l_ID lease) lease s;
                             s = s\<lparr>contexts := fmupd (l_ID lease) pkg (contexts s)\<rparr>;
                             s = setSubtask subtaskID (sub\<lparr>st_State := StateOffered, st_Assignee := agentID,
                               st_LeaseID := l_ID lease, st_Version := st_Version sub + 1\<rparr>) s;
                             s = incRunning agentID s;
                             s = appendEventLocked subtaskID (st_MissionID sub) (event_string EvLeaseOffered)
                               (fmap_of_list [(''state'', VStr (state_string StateOffered)),
                                 (''agent_id'', VStr agentID), (''lease_id'', VStr (l_ID lease)),
                                 (''fencing_token'', VInt64 (l_FencingToken lease))]) actor now s;
                             s = appendEventLocked subtaskID (st_MissionID sub) ''context.materialized''
                               (fmap_of_list [(''context_package_id'', VStr (cp_ID pkg)),
                                 (''lease_id'', VStr (l_ID lease)), (''snapshot_hash'', VStr (cp_SnapshotHash pkg))])
                               (system_actor ''context-builder'') now s
                         in (Inr lease, s))"

definition AcceptLease :: "string \<Rightarrow> int \<Rightarrow> int \<Rightarrow> Actor \<Rightarrow> time \<Rightarrow> Store \<Rightarrow> Subtask result" where
  "AcceptLease lid fencingToken expectedSubVersion actor now s =
     (case fmlookup (leases s) lid of
        None \<Rightarrow> (Inl ErrNotFound, s)
      | Some l \<Rightarrow>
          if l_State l \<noteq> LeaseActive \<or> l_FencingToken l \<noteq> fencingToken then (Inl ErrFenced, s)
          else case fmlookup (subtasks s) (l_SubtaskID l) of
              None \<Rightarrow> (Inl ErrNotFound, s)
            | Some sub \<Rightarrow>
                if st_Version sub \<noteq> expectedSubVersion then (Inl ErrConflict, s)
                else case Apply (st_State sub) EvLeaseAccepted of
                    Inl _ \<Rightarrow> (Inl ErrConflict, s)
                  | Inr _ \<Rightarrow>
                      let sub = sub\<lparr>st_State := StateLeased, st_Version := st_Version sub + 1\<rparr>;
                          s = setSubtask (l_SubtaskID l) sub s
                      in (Inr sub, appendEventLocked (st_ID sub) (st_MissionID sub)
                           (event_string EvLeaseAccepted)
                           (fmap_of_list [(''state'', VStr (state_string StateLeased)),
                             (''lease_id'', VStr lid)]) actor now s))"

definition GetLease :: "string \<Rightarrow> Store \<Rightarrow> error + Lease" where
  "GetLease ident s = (case fmlookup (leases s) ident of None \<Rightarrow> Inl ErrNotFound | Some l \<Rightarrow> Inr l)"

text \<open>The JSON round trip in \<open>GetContextPackage\<close> makes a deep copy of the package.\<close>

definition GetContextPackage :: "string \<Rightarrow> Store \<Rightarrow> error + ContextPackage" where
  "GetContextPackage lid s =
     (case fmlookup (contexts s) lid of None \<Rightarrow> Inl ErrNotFound | Some pkg \<Rightarrow> Inr pkg)"

definition RenewLease :: "string \<Rightarrow> int \<Rightarrow> duration \<Rightarrow> time \<Rightarrow> Store \<Rightarrow> unit result" where
  "RenewLease lid fencingToken ttl now s =
     (case fmlookup (leases s) lid of
        None \<Rightarrow> (Inl ErrNotFound, s)
      | Some l \<Rightarrow>
          if l_State l \<noteq> LeaseActive \<or> l_FencingToken l \<noteq> fencingToken then (Inl ErrFenced, s)
          else (Inr (), setLease lid (l\<lparr>l_ExpiresAt := time_add now ttl\<rparr>) s))"

section \<open>The expiry sweep\<close>

text \<open>One iteration, for the lease under key \<open>k\<close>; the loop visits the keys in the order \<open>ord\<close>.\<close>

definition expire_lease :: "time \<Rightarrow> string \<Rightarrow> int \<times> Store \<Rightarrow> int \<times> Store" where
  "expire_lease now k ns = (case ns of (n, s) \<Rightarrow>
     (case fmlookup (leases s) k of
        None \<Rightarrow> (n, s)
      | Some l \<Rightarrow>
          if l_State l \<noteq> LeaseActive \<or> time_after (l_ExpiresAt l) now then (n, s)
          else case fmlookup (subtasks s) (l_SubtaskID l) of
              None \<Rightarrow> (n, s)
            | Some sub \<Rightarrow>
                if st_State sub \<noteq> StateOffered \<and> st_State sub \<noteq> StateLeased then (n, s)
                else
                  let s = setLease k (l\<lparr>l_State := LeaseExpired\<rparr>) s;
                      s = decRunning (l_AgentID l) s;
                      sub = sub\<lparr>st_State := StateReady, st_Assignee := '''', st_LeaseID := '''',
                        st_Version := st_Version sub + 1\<rparr>;
                      s = setSubtask (l_SubtaskID l) sub s
                  in (n + 1, appendEventLocked (st_ID sub) (st_MissionID sub) (event_string EvLeaseExpired)
                        (fmap_of_list [(''state'', VStr (state_string StateReady)), (''lease_id'', VStr (l_ID l))])
                        (system_actor ''lease-sweeper'') now s)))"

definition ExpireLeases :: "order \<Rightarrow> time \<Rightarrow> Store \<Rightarrow> int result" where
  "ExpireLeases ord now s =
     (let (n, s') = fold (expire_lease now) (ord (fmdom (leases s))) (0, s) in (Inr n, s'))"

end
