(* ===== verification/MemExec.thy ===== *)
theory MemExec
  imports MemLeases
begin

text \<open>
  The execution callbacks of \<open>internal/store/memory/memory.go\<close>: start, complete (idempotency, then
  version, fencing, transition and budget settlement), fail, block and cancel.
\<close>

definition StartSubtask :: "string \<Rightarrow> int \<Rightarrow> int \<Rightarrow> Actor \<Rightarrow> time \<Rightarrow> Store \<Rightarrow> Subtask result" where
  "StartSubtask ident fencingToken expectedVersion actor now s =
     (case fmlookup (subtasks s) ident of
        None \<Rightarrow> (Inl ErrNotFound, s)
      | Some sub \<Rightarrow>
          if st_Version sub \<noteq> expectedVersion then (Inl ErrConflict, s)
          else case checkFencingLocked sub fencingToken s of
              Inl e \<Rightarrow> (Inl e, s)
            | Inr _ \<Rightarrow>
               (case Apply (st_State sub) EvStarted of
                  Inl _ \<Rightarrow> (Inl ErrConflict, s)
                | Inr _ \<Rightarrow>
                    let sub = sub\<lparr>st_State := StateRunning, st_Version := st_Version sub + 1\<rparr>;
                        s = setSubtask ident sub s
                    in (Inr sub, appendEventLocked (st_ID sub) (st_MissionID sub) (event_string EvStarted)
                         (fmap_of_list [(''state'', VStr (state_string StateRunning)),
                           (''attempt'', VInt (st_Attempt sub))]) actor now s)))"

text \<open>The wall-clock meter of a finished lease.\<close>

definition lease_meter :: "Subtask \<Rightarrow> Lease \<Rightarrow> time \<Rightarrow> MeterRecord" where
  "lease_meter sub l now =
     zero_meter\<lparr>mt_ID := ''meter:lease:'' @ l_ID l, mt_MissionID := st_MissionID sub,
       mt_SubtaskID := st_ID sub, mt_AgentID := l_AgentID l, mt_Resource := ''lease.wall_ms'',
       mt_Quantity := float_of_int (milliseconds (time_sub now (l_CreatedAt l))),
       mt_Trust := MeterAuthoritative\<rparr>"

definition token_meter :: "Subtask \<Rightarrow> Lease \<Rightarrow> string \<Rightarrow> int \<Rightarrow> MeterRecord" where
  "token_meter sub l idemKey usageTokens =
     zero_meter\<lparr>mt_ID := ''meter:token:'' @ st_ID sub @ '':'' @ idemKey, mt_MissionID := st_MissionID sub,
       mt_SubtaskID := st_ID sub, mt_AgentID := l_AgentID l, mt_Resource := ''token.reported'',
       mt_Quantity := float_of_int usageTokens, mt_Trust := MeterSelfReported\<rparr>"

text \<open>A delegated child delivers its result to the inbox of its parent, once.\<close>

definition enqueueLeadInbox :: "Subtask \<Rightarrow> string \<Rightarrow> time \<Rightarrow> Store \<Rightarrow> Store" where
  "enqueueLeadInbox sub resultRef now s =
     (if st_ParentID sub = '''' then s
      else let itemID = LeadInboxID (st_ID sub) in
        case fmlookup (leadInbox s) itemID of
          Some _ \<Rightarrow> s
        | None \<Rightarrow>
            let item = \<lparr>i_ID = itemID, i_MissionID = st_MissionID sub, i_LeadSubtaskID = st_ParentID sub,
                  i_SourceSubtaskID = st_ID sub, i_Kind = ''result'', i_ResultRef = resultRef,
                  i_Status = LeadInboxPending, i_IngestMode = '''', i_IngestedBy = '''', i_Version = 0,
                  i_CreatedAt = now, i_IngestedAt = None\<rparr>;
                s = s\<lparr>leadInbox := fmupd itemID item (leadInbox s)\<rparr>
            in appendEventLocked (st_ParentID sub) (st_MissionID sub) ''lead.inbox.enqueued''
                 (fmap_of_list [(''item_id'', VStr itemID), (''source_subtask_id'', VStr (st_ID sub)),
                   (''result_ref'', VStr resultRef)]) (system_actor ''lead-inbox'') now s)"

definition completeSubtask ::
  "string \<Rightarrow> int \<Rightarrow> string \<Rightarrow> string \<Rightarrow> int \<Rightarrow> int \<Rightarrow> Actor \<Rightarrow> time \<Rightarrow> Store
     \<Rightarrow> (error \<times> Subtask option, Subtask, Store) outcome" where
  "completeSubtask ident fencingToken idemKey resultRef usageTokens expectedVersion actor now s =
     (case fmlookup (subtasks s) ident of
        None \<Rightarrow> (Inl (ErrNotFound, None), s)
      | Some sub \<Rightarrow>
          if fmlookup (idem s) idemKey \<noteq> None then (Inl (ErrDuplicate, Some sub), s)
          else if st_Version sub \<noteq> expectedVersion then (Inl (ErrConflict, None), s)
          else case checkFencingLocked sub fencingToken s of
              Inl e \<Rightarrow> (Inl (e, None), s)
            | Inr l \<Rightarrow>
               (case Apply (st_State sub) EvCompleted of
                  Inl _ \<Rightarrow> (Inl (ErrConflict, None), s)
                | Inr _ \<Rightarrow>
                   (case settleBudgetHoldLocked sub usageTokens actor now s of
                      (Inl e, s) \<Rightarrow> (Inl (e, None), s)
                    | (Inr _, s) \<Rightarrow>
                        let k = st_LeaseID sub;
                            sub = sub\<lparr>st_State := StateSucceeded, st_ResultRef := resultRef,
                              st_Version := st_Version sub + 1\<rparr>;
                            s = setSubtask ident sub s;
                            s = s\<lparr>idem := fmupd idemKey resultRef (idem s)\<rparr>;
                            s = putMeterLocked (lease_meter sub l now) now s;
                            s = (if usageTokens > 0
                                 then putMeterLocked (token_meter sub l idemKey usageTokens) now s else s);
                            s = releaseLeaseLocked k l s;
                            s = appendEventLocked (st_ID sub) (st_MissionID sub) (event_string EvCompleted)
                              (fmap_of_list [(''state'', VStr (state_string StateSucceeded)),
                                (''subtask_id'', VStr (st_ID sub)), (''result_ref'', VStr resultRef)]) actor now s;
                            s = enqueueLeadInbox sub resultRef now s
                        in (Inr sub, s))))"

definition CompleteSubtask ::
  "string \<Rightarrow> int \<Rightarrow> string \<Rightarrow> string \<Rightarrow> int \<Rightarrow> Actor \<Rightarrow> time \<Rightarrow> Store
     \<Rightarrow> (error \<times> Subtask option, Subtask, Store) outcome" where
  "CompleteSubtask ident fencingToken idemKey resultRef expectedVersion actor now s =
     completeSubtask ident fencingToken idemKey resultRef 0 expectedVersion actor now s"

definition CompleteSubtaskWithUsage ::
  "string \<Rightarrow> int \<Rightarrow> string \<Rightarrow> string \<Rightarrow> int \<Rightarrow> int \<Rightarrow> Actor \<Rightarrow> time \<Rightarrow> Store
     \<Rightarrow> (error \<times> Subtask option, Subtask, Store) outcome" where
  "CompleteSubtaskWithUsage ident fencingToken idemKey resultRef usageTokens expectedVersion actor now s =
     completeSubtask ident fencingToken idemKey resultRef usageTokens expectedVersion actor now s"

definition FailSubtask ::
  "string \<Rightarrow> int \<Rightarrow> string \<Rightarrow> int \<Rightarrow> Actor \<Rightarrow> time \<Rightarrow> Store \<Rightarrow> Subtask result" where
  "FailSubtask ident fencingToken reason expectedVersion actor now s =
     (case fmlookup (subtasks s) ident of
        None \<Rightarrow> (Inl ErrNotFound, s)
      | Some sub \<Rightarrow>
          if st_Version sub \<noteq> expectedVersion then (Inl ErrConflict, s)
          else case checkFencingLocked sub fencingToken s of
              Inl e \<Rightarrow> (Inl e, s)
            | Inr l \<Rightarrow>
               (case Apply (st_State sub) EvFailed of
                  Inl _ \<Rightarrow> (Inl ErrConflict, s)
                | Inr _ \<Rightarrow>
                    let k = st_LeaseID sub;
                        sub = sub\<lparr>st_State := StateFailed, st_Version := st_Version sub + 1\<rparr>;
                        s = setSubtask ident sub s;
                        s = putMeterLocked (lease_meter sub l now) now s;
                        s = releaseLeaseLocked k l s;
                        s = (if st_Attempt sub \<ge> MaxAttempts (st_Retry sub)
                             then releaseBudgetHoldLocked sub ''final_failure'' actor now s else s)
                    in (Inr sub, appendEventLocked (st_ID sub) (st_MissionID sub) (event_string EvFailed)
                         (fmap_of_list [(''state'', VStr (state_string StateFailed)),
                           (''reason'', VStr reason)]) actor now s)))"

definition BlockSubtask :: "string \<Rightarrow> int \<Rightarrow> int \<Rightarrow> Actor \<Rightarrow> time \<Rightarrow> Store \<Rightarrow> Subtask result" where
  "BlockSubtask ident fencingToken expectedVersion actor now s =
     (case fmlookup (subtasks s) ident of
        None \<Rightarrow> (Inl ErrNotFound, s)
      | Some sub \<Rightarrow>
          if st_Version sub \<noteq> expectedVersion then (Inl ErrConflict, s)
          else case checkFencingLocked sub fencingToken s of
              Inl e \<Rightarrow> (Inl e, s)
            | Inr _ \<Rightarrow>
               (case Apply (st_State sub) EvBlocked of
                  Inl _ \<Rightarrow> (Inl ErrConflict, s)
                | Inr _ \<Rightarrow>
                    let sub = sub\<lparr>st_State := StateBlocked, st_Version := st_Version sub + 1\<rparr>;
                        s = setSubtask ident sub s
                    in (Inr sub, appendEventLocked (st_ID sub) (st_MissionID sub) (event_string EvBlocked)
                         (fmap_of_list [(''state'', VStr (state_string StateBlocked))]) actor now s)))"

text \<open>The active lease of a cancelled subtask, if there is one, is released.\<close>

definition releaseActiveLease :: "Subtask \<Rightarrow> Store \<Rightarrow> Store" where
  "releaseActiveLease sub s =
     (if st_LeaseID sub = '''' then s
      else case fmlookup (leases s) (st_LeaseID sub) of
          None \<Rightarrow> s
        | Some l \<Rightarrow> if l_State l = LeaseActive then releaseLeaseLocked (st_LeaseID sub) l s else s)"

definition CancelSubtask :: "string \<Rightarrow> int \<Rightarrow> Actor \<Rightarrow> time \<Rightarrow> Store \<Rightarrow> Subtask result" where
  "CancelSubtask ident expectedVersion actor now s =
     (case fmlookup (subtasks s) ident of
        None \<Rightarrow> (Inl ErrNotFound, s)
      | Some sub \<Rightarrow>
          if st_Version sub \<noteq> expectedVersion then (Inl ErrConflict, s)
          else case Apply (st_State sub) EvCancelled of
              Inl _ \<Rightarrow> (Inl ErrConflict, s)
            | Inr _ \<Rightarrow>
                let s = releaseActiveLease sub s;
                    sub = sub\<lparr>st_State := StateCancelled, st_Assignee := '''', st_LeaseID := '''',
                      st_Version := st_Version sub + 1\<rparr>;
                    s = setSubtask ident sub s;
                    s = releaseBudgetHoldLocked sub ''cancelled'' actor now s
                in (Inr sub, appendEventLocked (st_ID sub) (st_MissionID sub) (event_string EvCancelled)
                     (fmap_of_list [(''state'', VStr (state_string StateCancelled))]) actor now s))"

end
