(* ===== verification/MemDelegate.thy ===== *)
theory MemDelegate
  imports MemExec
begin

text \<open>
  Delegation and Lead recovery in \<open>internal/store/memory/memory.go\<close>: spawning a child under the
  parent's fencing token, permission envelope and budget, the Lead inbox, Lead snapshots, and the
  takeover of stale Leads.
\<close>

section \<open>Spawning a child\<close>

text \<open>The hold of a metered mission for a new child, with its event.\<close>

definition placeHold :: "BudgetAccount \<Rightarrow> Subtask \<Rightarrow> Actor \<Rightarrow> time \<Rightarrow> Store \<Rightarrow> Store" where
  "placeHold account child actor now s =
     (let amount = BudgetTokens (st_Scheduling child);
          hold = \<lparr>h_ID = BudgetHoldID (st_ID child), h_MissionID = st_MissionID child,
            h_SubtaskID = st_ID child, h_Attempt = st_Attempt child, h_Amount = amount, h_Actual = 0,
            h_Status = BudgetHoldHeld, h_CreatedAt = now, h_SettledAt = None\<rparr>;
          s = setHold (st_ID child) hold s;
          account = account\<lparr>ba_Held := wrap64 (ba_Held account + amount),
            ba_Version := ba_Version account + 1, ba_UpdatedAt := now\<rparr>;
          account = account\<lparr>ba_Available := available account\<rparr>;
          s = setBudget (st_MissionID child) account s
      in appendEventLocked (st_ID child) (st_MissionID child) ''budget.held''
           (fmap_of_list [(''hold_id'', VStr (h_ID hold)), (''amount_tokens'', VInt64 amount),
             (''available_tokens'', VInt64 (ba_Available account))]) actor now s)"

definition SpawnSubtask ::
  "string \<Rightarrow> string \<Rightarrow> int \<Rightarrow> int \<Rightarrow> Subtask \<Rightarrow> Actor \<Rightarrow> time \<Rightarrow> Store \<Rightarrow> string result2" where
  "SpawnSubtask idemKey parentID fencingToken parentVersion child actor now s =
     (case fmlookup (idem s) idemKey of
        Some existing \<Rightarrow> (Inl (ErrDuplicate, existing), s)
      | None \<Rightarrow>
         (case fmlookup (subtasks s) parentID of
            None \<Rightarrow> (Inl (ErrNotFound, ''''), s)
          | Some parent \<Rightarrow>
              if st_Version parent \<noteq> parentVersion then (Inl (ErrConflict, ''''), s)
              else case checkFencingLocked parent fencingToken s of
                  Inl e \<Rightarrow> (Inl (e, ''''), s)
                | Inr lease \<Rightarrow>
                    if l_AgentID lease \<noteq> ac_ID actor \<or> \<not> time_after (l_ExpiresAt lease) now
                    then (Inl (ErrFenced, ''''), s)
                    else if st_State parent \<noteq> StateRunning then (Inl (ErrConflict, ''''), s)
                    else if \<not> PermissionEnvelopeSubset (st_Grants parent) (st_Grants child)
                    then (Inl (ErrPermissionExceeded, ''''), s)
                    else if fmlookup (subtasks s) (st_ID child) \<noteq> None then (Inl (ErrConflict, ''''), s)
                    else
                      let account = fmlookup (budgets s) (st_MissionID child);
                          amount = BudgetTokens (st_Scheduling child)
                      in if account \<noteq> None \<and> amount \<le> 0 then (Inl (ErrBudgetRequired, ''''), s)
                         else if account \<noteq> None \<and> available (the account) < amount
                         then (Inl (ErrBudgetExceeded, ''''), s)
                         else
                           let c = child\<lparr>st_State := StateReady, st_Version := 1\<rparr>;
                               s = setSubtask (st_ID child) c s;
                               s = s\<lparr>idem := fmupd idemKey (st_ID child) (idem s)\<rparr>;
                               s = (case account of None \<Rightarrow> s | Some acc \<Rightarrow> placeHold acc child actor now s);
                               s = appendEventLocked (st_ID child) (st_MissionID child) (event_string EvCreated)
                                 (fmap_of_list [(''kind'', VStr (st_Kind child)),
                                   (''parent_subtask_id'', VStr parentID), (''rework_of'', VStr (st_ReworkOf child))])
                                 actor now s;
                               s = appendEventLocked (st_ID child) (st_MissionID child)
                                 (event_string EvDepsSatisfied)
                                 (fmap_of_list [(''state'', VStr (state_string StateReady))])
                                 (system_actor ''orchestrator'') now s
                           in (Inr '''', s)))"

definition CountChildren :: "order \<Rightarrow> string \<Rightarrow> Store \<Rightarrow> int" where
  "CountChildren ord parentID s =
     int (length (filter (\<lambda>sub. st_ParentID sub = parentID) (map_values ord (subtasks s))))"

section \<open>The Lead inbox\<close>

definition ListLeadInbox :: "order \<Rightarrow> string \<Rightarrow> bool \<Rightarrow> Store \<Rightarrow> LeadInboxItem list" where
  "ListLeadInbox ord leadSubtaskID pendingOnly s =
     sort_slice (created_less i_CreatedAt i_ID)
       (filter (\<lambda>i. \<not> (i_LeadSubtaskID i \<noteq> leadSubtaskID \<or> pendingOnly \<and> i_Status i \<noteq> LeadInboxPending))
         (map_values ord (leadInbox s)))"

definition IngestLeadInbox ::
  "string \<Rightarrow> string \<Rightarrow> int \<Rightarrow> int \<Rightarrow> string \<Rightarrow> Actor \<Rightarrow> time \<Rightarrow> Store \<Rightarrow> LeadInboxItem result" where
  "IngestLeadInbox itemID leadSubtaskID fencingToken expectedVersion mode actor now s =
     (case fmlookup (leadInbox s) itemID of
        None \<Rightarrow> (Inl ErrNotFound, s)
      | Some item \<Rightarrow>
          if i_LeadSubtaskID item \<noteq> leadSubtaskID then (Inl ErrNotFound, s)
          else case fmlookup (subtasks s) leadSubtaskID of
              None \<Rightarrow> (Inl ErrNotFound, s)
            | Some lead \<Rightarrow>
                if st_State lead \<noteq> StateRunning then (Inl ErrConflict, s)
                else case checkFencingLocked lead fencingToken s of
                    Inl e \<Rightarrow> (Inl e, s)
                  | Inr lease \<Rightarrow>
                      if l_AgentID lease \<noteq> ac_ID actor \<or> \<not> time_after (l_ExpiresAt lease) now
                      then (Inl ErrFenced, s)
                      else if i_Status item \<noteq> LeadInboxPending \<or> i_Version item \<noteq> expectedVersion
                      then (Inl ErrConflict, s)
                      else
                        let item = item\<lparr>i_Status := LeadInboxIngested, i_IngestMode := mode,
                              i_IngestedBy := ac_ID actor, i_IngestedAt := Some now,
                              i_Version := i_Version item + 1\<rparr>;
                            s = s\<lparr>leadInbox := fmupd itemID item (leadInbox s)\<rparr>
                        in (Inr item, appendEventLocked (st_ID lead) (st_MissionID lead) ''lead.inbox.ingested''
                             (fmap_of_list [(''item_id'', VStr (i_ID item)),
                               (''source_subtask_id'', VStr (i_SourceSubtaskID item)), (''mode'', VStr mode)])
                             actor now s))"

section \<open>Lead snapshots\<close>

definition boardKey :: "string \<Rightarrow> string \<Rightarrow> string \<Rightarrow> string" where
  "boardKey missionID ns key = missionID @ ''/'' @ ns @ ''/'' @ key"

definition SaveLeadSnapshot ::
  "string \<Rightarrow> int \<Rightarrow> int \<Rightarrow> string \<Rightarrow> duration \<Rightarrow> Actor \<Rightarrow> time \<Rightarrow> Store \<Rightarrow> BoardEntry result" where
  "SaveLeadSnapshot leadSubtaskID fencingToken expectedVersion val leaseTTL actor now s =
     (case fmlookup (subtasks s) leadSubtaskID of
        None \<Rightarrow> (Inl ErrNotFound, s)
      | Some lead \<Rightarrow>
          if st_State lead \<noteq> StateRunning then (Inl ErrConflict, s)
          else case checkFencingLocked lead fencingToken s of
              Inl e \<Rightarrow> (Inl e, s)
            | Inr lease \<Rightarrow>
                if l_AgentID lease \<noteq> ac_ID actor \<or> \<not> time_after (l_ExpiresAt lease) now
                then (Inl ErrFenced, s)
                else
                  let k = boardKey (st_MissionID lead) ''lead-plan'' (st_ID lead);
                      cur = fmlookup (board s) k
                  in if (if expectedVersion = -1 then cur \<noteq> None
                         else cur = None \<or> b_Version (the cur) \<noteq> expectedVersion)
                     then (Inl ErrConflict, s)
                     else
                       let version = (case cur of None \<Rightarrow> 0 | Some c \<Rightarrow> b_Version c + 1);
                           entry = \<lparr>b_MissionID = st_MissionID lead, b_Namespace = ''lead-plan'',
                             b_Key = st_ID lead, b_Value = val, b_Version = version, b_UpdatedAt = now\<rparr>;
                           s = s\<lparr>board := fmupd k entry (board s)\<rparr>;
                           s = setLease (st_LeaseID lead) (lease\<lparr>l_ExpiresAt := time_add now leaseTTL\<rparr>) s;
                           s = (case fmlookup (agents s) (ac_ID actor) of
                                  None \<Rightarrow> s
                                | Some agent \<Rightarrow>
                                    let agent = agent\<lparr>a_LastHeartbeat := now\<rparr>;
                                        agent = (if a_Health agent = ''suspect''
                                                 then agent\<lparr>a_Health := ''healthy''\<rparr> else agent)
                                    in setAgent (ac_ID actor) agent s)
                       in (Inr entry, appendEventLocked (st_ID lead) (st_MissionID lead) ''lead.snapshot.saved''
                            (fmap_of_list [(''version'', VInt64 version)]) actor now s))"

section \<open>Takeover of stale Leads\<close>

definition is_lead :: "Subtask \<Rightarrow> Store \<Rightarrow> bool" where
  "is_lead lead s \<longleftrightarrow>
     fmlookup (board s) (boardKey (st_MissionID lead) ''lead-plan'' (st_ID lead)) \<noteq> None
     \<or> any_value (\<lambda>child. st_ParentID child = st_ID lead) (subtasks s)"

definition suspectAgent :: "string \<Rightarrow> Store \<Rightarrow> Store" where
  "suspectAgent agentID s =
     (case fmlookup (agents s) agentID of
        None \<Rightarrow> s
      | Some a \<Rightarrow>
          let a = (if a_Running a > 0 then a\<lparr>a_Running := a_Running a - 1\<rparr> else a);
              a = (if a_Health a \<noteq> ''down'' then a\<lparr>a_Health := ''suspect''\<rparr> else a)
          in setAgent agentID a s)"

text \<open>
  One iteration for the subtask under key \<open>k\<close>; \<open>out\<close> collects the subtasks taken over. The error
  branch, which the source leaves with the partial list, is not taken: RUNNING accepts a takeover.
\<close>

definition takeover_lead ::
  "time \<Rightarrow> string \<Rightarrow> Subtask list \<Rightarrow> Store \<Rightarrow> (error, Subtask list, Store) outcome" where
  "takeover_lead now k out s =
     (case fmlookup (subtasks s) k of
        None \<Rightarrow> (Inr out, s)
      | Some lead \<Rightarrow>
          if st_State lead \<noteq> StateRunning \<or> st_LeaseID lead = '''' then (Inr out, s)
          else case fmlookup (leases s) (st_LeaseID lead) of
              None \<Rightarrow> (Inr out, s)
            | Some lease \<Rightarrow>
                if l_State lease \<noteq> LeaseActive \<or> time_after (l_ExpiresAt lease) now then (Inr out, s)
                else if \<not> is_lead lead s then (Inr out, s)
                else case Apply (st_State lead) EvTakeover of
                    Inl _ \<Rightarrow> (Inl ErrConflict, s)
                  | Inr _ \<Rightarrow>
                      let s = setLease (st_LeaseID lead) (lease\<lparr>l_State := LeaseFenced\<rparr>) s;
                          s = suspectAgent (l_AgentID lease) s;
                          oldAgent = st_Assignee lead;
                          oldLease = st_LeaseID lead;
                          lead = lead\<lparr>st_State := StateReady, st_Assignee := '''', st_LeaseID := '''',
                            st_Version := st_Version lead + 1\<rparr>;
                          s = setSubtask k lead s;
                          s = appendEventLocked (st_ID lead) (st_MissionID lead) (event_string EvTakeover)
                            (fmap_of_list [(''state'', VStr (state_string StateReady)),
                              (''fenced_lease_id'', VStr oldLease), (''previous_agent_id'', VStr oldAgent)])
                            (system_actor ''lead-takeover'') now s
                      in (Inr (out @ [lead]), s))"

fun takeover_loop ::
  "time \<Rightarrow> string list \<Rightarrow> Subtask list \<Rightarrow> Store \<Rightarrow> (error, Subtask list, Store) outcome" where
  "takeover_loop now [] out s = (Inr (sort_slice by_id out), s)"
| "takeover_loop now (k # ks) out s = and_then (takeover_lead now k out s) (\<lambda>out s. takeover_loop now ks out s)"

definition TakeoverStaleLeads :: "order \<Rightarrow> time \<Rightarrow> Store \<Rightarrow> Subtask list result" where
  "TakeoverStaleLeads ord now s = takeover_loop now (ord (fmdom (subtasks s))) [] s"

end
