(* ===== verification/MemWake.thy ===== *)
theory MemWake
  imports MemDelegate
begin

text \<open>
  Suspension and wake-up in \<open>internal/store/memory/memory.go\<close>. A wake registration is stored as
  JSON; \<open>json_value\<close> is what a dynamic value becomes in that round trip (every number a
  \<open>float64\<close>, every slice a \<open>[]any\<close>), and a registration of the model always marshals.
\<close>

primrec json_value :: "goval \<Rightarrow> goval" where
  "json_value VNil = VNil"
| "json_value (VBool b) = VBool b"
| "json_value (VInt i) = VFloat (float_of_int i)"
| "json_value (VInt64 i) = VFloat (float_of_int i)"
| "json_value (VFloat x) = VFloat x"
| "json_value (VStr t) = VStr t"
| "json_value (VStrs ts) = VArr (map VStr ts)"
| "json_value (VArr vs) = VArr (map json_value vs)"
| "json_value (VObj m) = VObj (fmmap json_value m)"

definition wake_json :: "WakeSpec \<Rightarrow> WakeSpec" where
  "wake_json w =
     w\<lparr>w_Event := map_option (\<lambda>e. e\<lparr>em_Where := fmmap json_value (em_Where e)\<rparr>) (w_Event w),
       w_Condition := map_option (\<lambda>c. c\<lparr>bc_Value := json_value (bc_Value c)\<rparr>) (w_Condition w)\<rparr>"

definition SuspendSubtask ::
  "string \<Rightarrow> int \<Rightarrow> int \<Rightarrow> WakeSpec \<Rightarrow> string \<Rightarrow> Actor \<Rightarrow> time \<Rightarrow> Store \<Rightarrow> Subtask result" where
  "SuspendSubtask ident fencingToken expectedVersion wake checkpoint actor now s =
     (case fmlookup (subtasks s) ident of
        None \<Rightarrow> (Inl ErrNotFound, s)
      | Some sub \<Rightarrow>
          if st_Version sub \<noteq> expectedVersion then (Inl ErrConflict, s)
          else case checkFencingLocked sub fencingToken s of
              Inl e \<Rightarrow> (Inl e, s)
            | Inr l \<Rightarrow>
               (case Apply (st_State sub) EvSuspended of
                  Inl _ \<Rightarrow> (Inl ErrConflict, s)
                | Inr _ \<Rightarrow>
                    let k = st_LeaseID sub;
                        sub = sub\<lparr>st_State := StateWaiting, st_WakeKind := w_Kind wake, st_WakeAt := w_At wake,
                          st_WakeDeadline := w_Deadline wake, st_WakeSpec := Some (wake_json wake)\<rparr>;
                        sub = (if checkpoint \<noteq> '''' then sub\<lparr>st_Checkpoint := checkpoint\<rparr> else sub);
                        sub = sub\<lparr>st_Version := st_Version sub + 1\<rparr>;
                        s = releaseLeaseLocked k l s;
                        sub = sub\<lparr>st_Assignee := '''', st_LeaseID := ''''\<rparr>;
                        s = setSubtask ident sub s
                    in (Inr sub, appendEventLocked (st_ID sub) (st_MissionID sub) (event_string EvSuspended)
                         (fmap_of_list [(''state'', VStr (state_string StateWaiting)),
                           (''wake_kind'', VStr (w_Kind wake))]) actor now s)))"

definition clear_wake :: "Subtask \<Rightarrow> Subtask" where
  "clear_wake sub = sub\<lparr>st_WakeKind := '''', st_WakeAt := None, st_WakeDeadline := None, st_WakeSpec := None\<rparr>"

definition wake_meter :: "Subtask \<Rightarrow> MeterRecord" where
  "wake_meter sub = zero_meter\<lparr>mt_ID := ''meter:wake:'' @ st_ID sub @ '':'' @ itoa (st_Version sub),
     mt_MissionID := st_MissionID sub, mt_SubtaskID := st_ID sub, mt_Resource := ''wake.fire'',
     mt_Quantity := 1, mt_Trust := MeterAuthoritative\<rparr>"

definition WakeSubtask :: "string \<Rightarrow> int \<Rightarrow> Actor \<Rightarrow> time \<Rightarrow> Store \<Rightarrow> Subtask result" where
  "WakeSubtask ident expectedVersion actor now s =
     (case fmlookup (subtasks s) ident of
        None \<Rightarrow> (Inl ErrNotFound, s)
      | Some sub \<Rightarrow>
          if st_Version sub \<noteq> expectedVersion then (Inl ErrConflict, s)
          else if (case st_WakeDeadline sub of None \<Rightarrow> False | Some d \<Rightarrow> \<not> time_after d now)
          then (Inl ErrConflict, s)
          else case Apply (st_State sub) EvWoken of
              Inl _ \<Rightarrow> (Inl ErrConflict, s)
            | Inr _ \<Rightarrow>
                let sub = clear_wake (sub\<lparr>st_State := StateReady\<rparr>);
                    sub = sub\<lparr>st_Version := st_Version sub + 1\<rparr>;
                    s = setSubtask ident sub s;
                    s = putMeterLocked (wake_meter sub) now s
                in (Inr sub, appendEventLocked (st_ID sub) (st_MissionID sub) (event_string EvWoken)
                     (fmap_of_list [(''state'', VStr (state_string StateReady))]) actor now s))"

definition timer_due :: "time \<Rightarrow> Subtask \<Rightarrow> bool" where
  "timer_due now sub \<longleftrightarrow> st_State sub = StateWaiting \<and> st_WakeKind sub = WakeTimer
     \<and> (case st_WakeAt sub of None \<Rightarrow> False | Some wat \<Rightarrow> \<not> time_after wat now)
     \<and> (case st_WakeDeadline sub of None \<Rightarrow> True | Some d \<Rightarrow> time_after d now)"

definition ListWaitingDue :: "order \<Rightarrow> time \<Rightarrow> Store \<Rightarrow> Subtask list" where
  "ListWaitingDue ord now s = filter (timer_due now) (map_values ord (subtasks s))"

definition ListWaiting :: "order \<Rightarrow> string \<Rightarrow> Store \<Rightarrow> Subtask list" where
  "ListWaiting ord wakeKind s =
     filter (\<lambda>sub. st_State sub = StateWaiting \<and> st_WakeKind sub = wakeKind) (map_values ord (subtasks s))"

definition expire_wake :: "time \<Rightarrow> string \<Rightarrow> Subtask list \<times> Store \<Rightarrow> Subtask list \<times> Store" where
  "expire_wake now k os = (case os of (out, s) \<Rightarrow>
     (case fmlookup (subtasks s) k of
        None \<Rightarrow> (out, s)
      | Some sub \<Rightarrow>
          if st_State sub \<noteq> StateWaiting
             \<or> (case st_WakeDeadline sub of None \<Rightarrow> True | Some d \<Rightarrow> time_after d now)
          then (out, s)
          else
            let sub = clear_wake (sub\<lparr>st_State := StateFailed\<rparr>);
                sub = sub\<lparr>st_Version := st_Version sub + 1\<rparr>;
                s = setSubtask k sub s;
                s = appendEventLocked (st_ID sub) (st_MissionID sub) (event_string EvFailed)
                  (fmap_of_list [(''state'', VStr (state_string StateFailed)), (''reason'', VStr ''wake_timeout'')])
                  (system_actor ''sweeper'') now s
            in (out @ [sub], s)))"

definition ExpireWakes :: "order \<Rightarrow> time \<Rightarrow> Store \<Rightarrow> Subtask list result" where
  "ExpireWakes ord now s =
     (let (out, s') = fold (expire_wake now) (ord (fmdom (subtasks s))) ([], s) in (Inr out, s'))"

definition SaveCheckpoint :: "string \<Rightarrow> int \<Rightarrow> string \<Rightarrow> Store \<Rightarrow> unit result" where
  "SaveCheckpoint ident fencingToken checkpoint s =
     (case fmlookup (subtasks s) ident of
        None \<Rightarrow> (Inl ErrNotFound, s)
      | Some sub \<Rightarrow>
         (case checkFencingLocked sub fencingToken s of
            Inl e \<Rightarrow> (Inl e, s)
          | Inr _ \<Rightarrow>
              if st_State sub \<noteq> StateRunning \<and> st_State sub \<noteq> StateBlocked then (Inl ErrConflict, s)
              else (Inr (), setSubtask ident (sub\<lparr>st_Checkpoint := checkpoint\<rparr>) s)))"

end
