(* ===== verification/MemDecisions.thy ===== *)
theory MemDecisions
  imports MemWake
begin

text \<open>Human decisions in \<open>internal/store/memory/memory.go\<close>: creation, resolution, expiry.\<close>

definition decision_payload :: "Decision \<Rightarrow> payload" where
  "decision_payload d = fmap_of_list [(''decision_id'', VStr (d_ID d)), (''question'', VStr (d_Question d)),
     (''options'', VStrs (d_Options d))]"

definition CreateDecision :: "Decision \<Rightarrow> time \<Rightarrow> Store \<Rightarrow> unit result" where
  "CreateDecision d now s =
     (case fmlookup (decisions s) (d_ID d) of
        Some _ \<Rightarrow> (Inl ErrConflict, s)
      | None \<Rightarrow>
          let c = d\<lparr>d_Status := DecisionPending, d_CreatedAt := now\<rparr>;
              s = setDecision (d_ID d) c s
          in (Inr (), appendEventLocked (d_SubtaskID d) (d_MissionID d) ''decision.requested''
               (decision_payload d) (system_actor ''hitl'') now s))"

text \<open>\<open>fencingToken\<close> is a pointer: \<open>None\<close> for a human node, whose subtask has no lease.\<close>

definition CreateDecisionAndBlock ::
  "Decision \<Rightarrow> int \<Rightarrow> int option \<Rightarrow> Actor \<Rightarrow> time \<Rightarrow> Store \<Rightarrow> Subtask result" where
  "CreateDecisionAndBlock d expectedSubVersion fencingToken actor now s =
     (case fmlookup (decisions s) (d_ID d) of
        Some _ \<Rightarrow> (Inl ErrConflict, s)
      | None \<Rightarrow>
         (case fmlookup (subtasks s) (d_SubtaskID d) of
            None \<Rightarrow> (Inl ErrNotFound, s)
          | Some sub \<Rightarrow>
              if st_Version sub \<noteq> expectedSubVersion then (Inl ErrConflict, s)
              else case (case fencingToken of None \<Rightarrow> None
                         | Some tok \<Rightarrow> (case checkFencingLocked sub tok s of Inl e \<Rightarrow> Some e | Inr _ \<Rightarrow> None)) of
                  Some e \<Rightarrow> (Inl e, s)
                | None \<Rightarrow>
                   (case Apply (st_State sub) EvBlocked of
                      Inl _ \<Rightarrow> (Inl ErrConflict, s)
                    | Inr _ \<Rightarrow>
                        let sub = sub\<lparr>st_State := StateBlocked, st_Version := st_Version sub + 1\<rparr>;
                            s = setSubtask (d_SubtaskID d) sub s;
                            c = d\<lparr>d_Status := DecisionPending, d_CreatedAt := now\<rparr>;
                            s = setDecision (d_ID d) c s;
                            s = appendEventLocked (st_ID sub) (st_MissionID sub) (event_string EvBlocked)
                              (fmap_of_list [(''state'', VStr (state_string StateBlocked)),
                                (''question'', VStr (d_Question d))]) actor now s;
                            s = appendEventLocked (d_SubtaskID d) (d_MissionID d) ''decision.requested''
                              (decision_payload d) actor now s
                        in (Inr sub, s))))"

definition GetDecision :: "string \<Rightarrow> Store \<Rightarrow> error + Decision" where
  "GetDecision ident s = (case fmlookup (decisions s) ident of None \<Rightarrow> Inl ErrNotFound | Some d \<Rightarrow> Inr d)"

definition ListDecisions :: "order \<Rightarrow> string \<Rightarrow> bool \<Rightarrow> Store \<Rightarrow> Decision list" where
  "ListDecisions ord missionID pendingOnly s =
     sort_slice (\<lambda>a b. time_before (d_CreatedAt a) (d_CreatedAt b))
       (filter (\<lambda>d. \<not> (missionID \<noteq> '''' \<and> d_MissionID d \<noteq> missionID)
          \<and> \<not> (pendingOnly \<and> d_Status d \<noteq> DecisionPending)) (map_values ord (decisions s)))"

definition ResolveDecision ::
  "string \<Rightarrow> string \<Rightarrow> string \<Rightarrow> string \<Rightarrow> time \<Rightarrow> Store \<Rightarrow> Decision result" where
  "ResolveDecision ident choice rationale deciderID now s =
     (case fmlookup (decisions s) ident of
        None \<Rightarrow> (Inl ErrNotFound, s)
      | Some d \<Rightarrow>
          if d_Status d \<noteq> DecisionPending then (Inl ErrConflict, s)
          else
            let d = d\<lparr>d_Status := DecisionResolved, d_Choice := choice, d_Rationale := rationale,
                  d_DeciderID := deciderID, d_ResolvedAt := Some now\<rparr>;
                s = setDecision ident d s
            in (Inr d, appendEventLocked (d_SubtaskID d) (d_MissionID d) ''decision.resolved''
                 (fmap_of_list [(''decision_id'', VStr (d_ID d)), (''choice'', VStr choice),
                   (''decider'', VStr deciderID)]) \<lparr>ac_Kind = ''human'', ac_ID = deciderID\<rparr> now s))"

definition timed_out :: "time \<Rightarrow> Decision \<Rightarrow> Decision" where
  "timed_out now d =
     (if d_OnTimeout d = ''auto_approve'' \<or> d_OnTimeout d = ''auto_reject'' then
        d\<lparr>d_Status := DecisionResolved,
          d_Choice := (if d_OnTimeout d = ''auto_approve'' then ''approve'' else ''reject''),
          d_DeciderID := ''system:timeout'', d_ResolvedAt := Some now\<rparr>
      else d\<lparr>d_Status := DecisionExpired\<rparr>)"

definition expire_decision :: "time \<Rightarrow> string \<Rightarrow> Decision list \<times> Store \<Rightarrow> Decision list \<times> Store" where
  "expire_decision now k os = (case os of (out, s) \<Rightarrow>
     (case fmlookup (decisions s) k of
        None \<Rightarrow> (out, s)
      | Some d \<Rightarrow>
          if d_Status d \<noteq> DecisionPending
             \<or> (case d_Deadline d of None \<Rightarrow> True | Some dl \<Rightarrow> time_after dl now)
          then (out, s)
          else
            let d = timed_out now d;
                s = setDecision k d s;
                s = appendEventLocked (d_SubtaskID d) (d_MissionID d) ''decision.expired''
                  (fmap_of_list [(''decision_id'', VStr (d_ID d)), (''on_timeout'', VStr (d_OnTimeout d)),
                    (''choice'', VStr (d_Choice d))]) (system_actor ''decision-sweeper'') now s
            in (out @ [d], s)))"

definition ExpireDecisions :: "order \<Rightarrow> time \<Rightarrow> Store \<Rightarrow> Decision list result" where
  "ExpireDecisions ord now s =
     (let (out, s') = fold (expire_decision now) (ord (fmdom (decisions s))) ([], s) in (Inr out, s'))"

end
