(* ===== verification/MemBoard.thy ===== *)
theory MemBoard
  imports MemDecisions
begin

text \<open>
  The blackboard, the artifact registry, quality records, appeals, reputation and meters of
  \<open>internal/store/memory/memory.go\<close>.
\<close>

section \<open>Blackboard\<close>

definition BoardPut :: "BoardEntry \<Rightarrow> int \<Rightarrow> time \<Rightarrow> Store \<Rightarrow> BoardEntry result" where
  "BoardPut e expectedVersion now s =
     (let k = boardKey (b_MissionID e) (b_Namespace e) (b_Key e);
          cur = fmlookup (board s) k;
          curVer = (case cur of None \<Rightarrow> -1 | Some c \<Rightarrow> b_Version c)
      in if expectedVersion \<ge> 0 \<and> curVer \<noteq> expectedVersion then (Inl ErrConflict, s)
         else
           let newVer = (case cur of None \<Rightarrow> 0 | Some c \<Rightarrow> b_Version c + 1);
               c = e\<lparr>b_Version := newVer, b_UpdatedAt := now\<rparr>
           in (Inr c, s\<lparr>board := fmupd k c (board s)\<rparr>))"

definition BoardGet :: "string \<Rightarrow> string \<Rightarrow> string \<Rightarrow> Store \<Rightarrow> error + BoardEntry" where
  "BoardGet missionID ns key s =
     (case fmlookup (board s) (boardKey missionID ns key) of None \<Rightarrow> Inl ErrNotFound | Some e \<Rightarrow> Inr e)"

definition BoardList :: "order \<Rightarrow> string \<Rightarrow> string \<Rightarrow> Store \<Rightarrow> BoardEntry list" where
  "BoardList ord missionID ns s =
     (let pre = missionID @ ''/'';
          pre = (if ns \<noteq> '''' then pre @ ns @ ''/'' else pre);
          ks = filter (\<lambda>k. length k > length pre \<and> take (length pre) k = pre) (ord (fmdom (board s)))
      in sort_slice (\<lambda>a b. b_Key a < b_Key b) (List.map_filter (fmlookup (board s)) ks))"

section \<open>Artifacts\<close>

definition artifact_meter :: "Artifact \<Rightarrow> MeterRecord" where
  "artifact_meter a = zero_meter\<lparr>mt_ID := ''meter:artifact:'' @ art_ID a, mt_MissionID := art_MissionID a,
     mt_SubtaskID := art_ProducedBy a, mt_Resource := ''artifact.byte'',
     mt_Quantity := float_of_int (art_Size a), mt_Trust := MeterAuthoritative\<rparr>"

definition PutArtifact :: "Artifact \<Rightarrow> time \<Rightarrow> Store \<Rightarrow> unit result" where
  "PutArtifact a now s =
     (case fmlookup (artifacts s) (art_ID a) of
        Some _ \<Rightarrow> (Inl ErrConflict, s)
      | None \<Rightarrow>
          let s = s\<lparr>artifacts := fmupd (art_ID a) (a\<lparr>art_CreatedAt := now\<rparr>) (artifacts s)\<rparr>;
              s = putMeterLocked (artifact_meter a) now s
          in (Inr (), appendEventLocked (art_ProducedBy a) (art_MissionID a) ''artifact.produced''
               (fmap_of_list [(''artifact_id'', VStr (art_ID a)), (''sha256'', VStr (art_SHA256 a)),
                 (''size'', VInt64 (art_Size a))]) (system_actor ''artifact-store'') now s))"

definition GetArtifact :: "string \<Rightarrow> Store \<Rightarrow> error + Artifact" where
  "GetArtifact ident s = (case fmlookup (artifacts s) ident of None \<Rightarrow> Inl ErrNotFound | Some a \<Rightarrow> Inr a)"

section \<open>Reputation\<close>

definition reputationKey :: "string \<Rightarrow> string \<Rightarrow> string" where
  "reputationKey agentID skill = agentID @ NUL @ skill"

definition ListReputations :: "order \<Rightarrow> string \<Rightarrow> Store \<Rightarrow> error + ReputationRecord list" where
  "ListReputations ord agentID s =
     (case fmlookup (agents s) agentID of
        None \<Rightarrow> Inl ErrNotFound
      | Some _ \<Rightarrow> Inr (sort_slice (\<lambda>a b. r_Skill a < r_Skill b)
          (map RefreshScores (filter (\<lambda>r. r_AgentID r = agentID) (map_values ord (reputations s))))))"

definition applyReputationSignalLocked :: "ReputationSignal \<Rightarrow> time \<Rightarrow> Store \<Rightarrow> unit result" where
  "applyReputationSignalLocked sig now s =
     (if sig_ID sig |\<in>| repSignals s then (Inl ErrDuplicate, s)
      else case fmlookup (agents s) (sig_AgentID sig) of
          None \<Rightarrow> (Inl ErrNotFound, s)
        | Some _ \<Rightarrow>
            let key = reputationKey (sig_AgentID sig) (sig_Skill sig);
                rep = (case fmlookup (reputations s) key of
                         None \<Rightarrow> NewReputation (sig_AgentID sig) (sig_Skill sig) | Some r \<Rightarrow> r);
                s = s\<lparr>reputations := fmupd key (ApplyReputationSignal rep sig now) (reputations s)\<rparr>
            in (Inr (), s\<lparr>repSignals := finsert (sig_ID sig) (repSignals s)\<rparr>))"

text \<open>The exported method takes the mutex around the locked one.\<close>

definition StoreApplyReputationSignal :: "ReputationSignal \<Rightarrow> time \<Rightarrow> Store \<Rightarrow> unit result" where
  "StoreApplyReputationSignal sig now s = applyReputationSignalLocked sig now s"

section \<open>Quality records\<close>

text \<open>Signals applied one after the other; a duplicate is skipped, another error stops.\<close>

definition apply_signal :: "time \<Rightarrow> ReputationSignal \<Rightarrow> Store \<Rightarrow> unit result" where
  "apply_signal now sig s =
     (case applyReputationSignalLocked sig now s of
        (Inl e, s') \<Rightarrow> if e = ErrDuplicate then (Inr (), s') else (Inl e, s')
      | (Inr _, s') \<Rightarrow> (Inr (), s'))"

definition verify_meter :: "QualityRecord \<Rightarrow> MeterRecord" where
  "verify_meter q = zero_meter\<lparr>mt_ID := ''meter:verify:'' @ q_ArtifactID q, mt_MissionID := q_MissionID q,
     mt_SubtaskID := q_SubtaskID q, mt_Resource := ''verify.call'', mt_Quantity := 1,
     mt_Trust := MeterAuthoritative\<rparr>"

text \<open>\<open>cloneQuality\<close>, a JSON round trip, makes a deep copy; the result is the argument after the call.\<close>

definition RecordQuality ::
  "QualityRecord \<Rightarrow> ReputationSignal list \<Rightarrow> Actor \<Rightarrow> time \<Rightarrow> Store \<Rightarrow> QualityRecord result" where
  "RecordQuality q signals actor now s =
     (if fmlookup (artifacts s) (q_ArtifactID q) = None then (Inl ErrNotFound, s)
      else if fmlookup (quality s) (q_ArtifactID q) \<noteq> None then (Inl ErrDuplicate, s)
      else if list_ex (\<lambda>sig. fmlookup (agents s) (sig_AgentID sig) = None) signals then (Inl ErrNotFound, s)
      else
        let q = q\<lparr>q_CreatedAt := now\<rparr>;
            s = s\<lparr>quality := fmupd (q_ArtifactID q) q (quality s)\<rparr>
        in and_then (for_each (apply_signal now) signals s) (\<lambda>_ s.
             let s = putMeterLocked (verify_meter q) now s
             in (Inr q, appendEventLocked (q_ArtifactID q) (q_MissionID q) ''artifact.verified''
                  (fmap_of_list [(''artifact_id'', VStr (q_ArtifactID q)), (''score'', VFloat (q_Score q)),
                    (''confidence'', VFloat (q_Confidence q)), (''verdict'', VStr (q_Verdict q)),
                    (''failure_class'', VStr (q_FailureClass q))]) actor now s)))"

definition GetQuality :: "string \<Rightarrow> Store \<Rightarrow> error + QualityRecord" where
  "GetQuality artifactID s =
     (case fmlookup (quality s) artifactID of None \<Rightarrow> Inl ErrNotFound | Some q \<Rightarrow> Inr q)"

section \<open>Appeals\<close>

text \<open>The result is the caller's appeal after the call (\<open>*a = cp\<close>).\<close>

definition CreateQualityAppeal :: "QualityAppeal \<Rightarrow> Actor \<Rightarrow> time \<Rightarrow> Store \<Rightarrow> QualityAppeal result" where
  "CreateQualityAppeal a actor now s =
     (case fmlookup (quality s) (ap_ArtifactID a) of
        None \<Rightarrow> (Inl ErrNotFound, s)
      | Some q \<Rightarrow>
          if fmlookup (appeals s) (ap_ID a) \<noteq> None then (Inl ErrDuplicate, s)
          else
            let a = a\<lparr>ap_MissionID := q_MissionID q, ap_Status := AppealPending, ap_CreatedAt := now\<rparr>;
                s = s\<lparr>appeals := fmupd (ap_ID a) a (appeals s)\<rparr>
            in (Inr a, appendEventLocked (ap_ID a) (ap_MissionID a) ''quality.appeal.created''
                 (fmap_of_list [(''appeal_id'', VStr (ap_ID a)), (''artifact_id'', VStr (ap_ArtifactID a)),
                   (''appellant_id'', VStr (ap_AppellantID a))]) actor now s))"

definition ListQualityAppeals :: "order \<Rightarrow> string \<Rightarrow> bool \<Rightarrow> Store \<Rightarrow> QualityAppeal list" where
  "ListQualityAppeals ord missionID pendingOnly s =
     sort_slice (created_less ap_CreatedAt ap_ID)
       (filter (\<lambda>a. (missionID = '''' \<or> ap_MissionID a = missionID)
          \<and> (\<not> pendingOnly \<or> ap_Status a = AppealPending)) (map_values ord (appeals s)))"

definition StoreResolveQualityAppeal ::
  "string \<Rightarrow> string \<Rightarrow> string \<Rightarrow> string \<Rightarrow> Actor \<Rightarrow> time \<Rightarrow> Store \<Rightarrow> QualityAppeal result" where
  "StoreResolveQualityAppeal ident status resolution reviewerID actor now s =
     (case fmlookup (appeals s) ident of
        None \<Rightarrow> (Inl ErrNotFound, s)
      | Some a \<Rightarrow>
          if ap_Status a \<noteq> AppealPending then (Inl ErrConflict, s)
          else
            let a = a\<lparr>ap_Status := status, ap_Resolution := resolution, ap_ReviewerID := reviewerID,
                  ap_ResolvedAt := Some now\<rparr>;
                s = s\<lparr>appeals := fmupd ident a (appeals s)\<rparr>
            in (Inr a, appendEventLocked (ap_ID a) (ap_MissionID a) ''quality.appeal.resolved''
                 (fmap_of_list [(''appeal_id'', VStr (ap_ID a)), (''artifact_id'', VStr (ap_ArtifactID a)),
                   (''status'', VStr status)]) actor now s))"

section \<open>Meters\<close>

definition PutMeterRecord :: "MeterRecord \<Rightarrow> time \<Rightarrow> Store \<Rightarrow> unit result" where
  "PutMeterRecord m now s =
     (case fmlookup (meters s) (mt_ID m) of
        Some _ \<Rightarrow> (Inl ErrDuplicate, s)
      | None \<Rightarrow> (Inr (), putMeterLocked m now s))"

definition ListMeterRecords :: "order \<Rightarrow> string \<Rightarrow> Store \<Rightarrow> error + MeterRecord list" where
  "ListMeterRecords ord missionID s =
     (case fmlookup (missions s) missionID of
        None \<Rightarrow> Inl ErrNotFound
      | Some _ \<Rightarrow> Inr (sort_slice (created_less mt_RecordedAt mt_ID)
          (filter (\<lambda>m. mt_MissionID m = missionID) (map_values ord (meters s)))))"

end
