(* ===== verification/MemFrames.thy ===== *)
theory MemFrames
  imports MemBoard
begin

text \<open>
  What the shared helpers of the in-memory store leave alone: one simplification bundle per helper,
  stating that every other table and counter keeps its value.
\<close>

lemma appendEventLocked_frame [simp]:
  "missions (appendEventLocked ag mi ty pl ac now s) = missions s"
  "subtasks (appendEventLocked ag mi ty pl ac now s) = subtasks s"
  "agents (appendEventLocked ag mi ty pl ac now s) = agents s"
  "leases (appendEventLocked ag mi ty pl ac now s) = leases s"
  "idem (appendEventLocked ag mi ty pl ac now s) = idem s"
  "decisions (appendEventLocked ag mi ty pl ac now s) = decisions s"
  "board (appendEventLocked ag mi ty pl ac now s) = board s"
  "artifacts (appendEventLocked ag mi ty pl ac now s) = artifacts s"
  "leadInbox (appendEventLocked ag mi ty pl ac now s) = leadInbox s"
  "budgets (appendEventLocked ag mi ty pl ac now s) = budgets s"
  "budgetHolds (appendEventLocked ag mi ty pl ac now s) = budgetHolds s"
  "contexts (appendEventLocked ag mi ty pl ac now s) = contexts s"
  "quality (appendEventLocked ag mi ty pl ac now s) = quality s"
  "appeals (appendEventLocked ag mi ty pl ac now s) = appeals s"
  "reputations (appendEventLocked ag mi ty pl ac now s) = reputations s"
  "repSignals (appendEventLocked ag mi ty pl ac now s) = repSignals s"
  "meters (appendEventLocked ag mi ty pl ac now s) = meters s"
  "fencingSeq (appendEventLocked ag mi ty pl ac now s) = fencingSeq s"
  "leaseSeq (appendEventLocked ag mi ty pl ac now s) = leaseSeq s"
  by (simp_all add: appendEventLocked_def split: option.splits)

lemma putMeterLocked_frame [simp]:
  "missions (putMeterLocked m now s) = missions s" "subtasks (putMeterLocked m now s) = subtasks s"
  "agents (putMeterLocked m now s) = agents s" "leases (putMeterLocked m now s) = leases s"
  "events (putMeterLocked m now s) = events s" "idem (putMeterLocked m now s) = idem s"
  "decisions (putMeterLocked m now s) = decisions s" "board (putMeterLocked m now s) = board s"
  "artifacts (putMeterLocked m now s) = artifacts s"
  "leadInbox (putMeterLocked m now s) = leadInbox s" "budgets (putMeterLocked m now s) = budgets s"
  "budgetHolds (putMeterLocked m now s) = budgetHolds s"
  "contexts (putMeterLocked m now s) = contexts s" "quality (putMeterLocked m now s) = quality s"
  "appeals (putMeterLocked m now s) = appeals s"
  "reputations (putMeterLocked m now s) = reputations s"
  "repSignals (putMeterLocked m now s) = repSignals s"
  "eventSeq (putMeterLocked m now s) = eventSeq s"
  "fencingSeq (putMeterLocked m now s) = fencingSeq s"
  "leaseSeq (putMeterLocked m now s) = leaseSeq s"
  by (simp_all add: putMeterLocked_def split: option.splits)

lemma decRunning_frame [simp]:
  "missions (decRunning ag s) = missions s" "subtasks (decRunning ag s) = subtasks s"
  "leases (decRunning ag s) = leases s" "events (decRunning ag s) = events s"
  "idem (decRunning ag s) = idem s" "decisions (decRunning ag s) = decisions s"
  "board (decRunning ag s) = board s" "artifacts (decRunning ag s) = artifacts s"
  "leadInbox (decRunning ag s) = leadInbox s" "budgets (decRunning ag s) = budgets s"
  "budgetHolds (decRunning ag s) = budgetHolds s" "contexts (decRunning ag s) = contexts s"
  "quality (decRunning ag s) = quality s" "appeals (decRunning ag s) = appeals s"
  "reputations (decRunning ag s) = reputations s" "repSignals (decRunning ag s) = repSignals s"
  "meters (decRunning ag s) = meters s" "eventSeq (decRunning ag s) = eventSeq s"
  "fencingSeq (decRunning ag s) = fencingSeq s" "leaseSeq (decRunning ag s) = leaseSeq s"
  by (simp_all add: decRunning_def split: option.splits)

lemma incRunning_frame [simp]:
  "missions (incRunning ag s) = missions s" "subtasks (incRunning ag s) = subtasks s"
  "leases (incRunning ag s) = leases s" "events (incRunning ag s) = events s"
  "idem (incRunning ag s) = idem s" "decisions (incRunning ag s) = decisions s"
  "board (incRunning ag s) = board s" "artifacts (incRunning ag s) = artifacts s"
  "leadInbox (incRunning ag s) = leadInbox s" "budgets (incRunning ag s) = budgets s"
  "budgetHolds (incRunning ag s) = budgetHolds s" "contexts (incRunning ag s) = contexts s"
  "quality (incRunning ag s) = quality s" "appeals (incRunning ag s) = appeals s"
  "reputations (incRunning ag s) = reputations s" "repSignals (incRunning ag s) = repSignals s"
  "meters (incRunning ag s) = meters s" "eventSeq (incRunning ag s) = eventSeq s"
  "fencingSeq (incRunning ag s) = fencingSeq s" "leaseSeq (incRunning ag s) = leaseSeq s"
  by (simp_all add: incRunning_def split: option.splits)

lemma suspectAgent_frame [simp]:
  "missions (suspectAgent ag s) = missions s" "subtasks (suspectAgent ag s) = subtasks s"
  "leases (suspectAgent ag s) = leases s" "events (suspectAgent ag s) = events s"
  "idem (suspectAgent ag s) = idem s" "decisions (suspectAgent ag s) = decisions s"
  "board (suspectAgent ag s) = board s" "artifacts (suspectAgent ag s) = artifacts s"
  "leadInbox (suspectAgent ag s) = leadInbox s" "budgets (suspectAgent ag s) = budgets s"
  "budgetHolds (suspectAgent ag s) = budgetHolds s" "contexts (suspectAgent ag s) = contexts s"
  "quality (suspectAgent ag s) = quality s" "appeals (suspectAgent ag s) = appeals s"
  "reputations (suspectAgent ag s) = reputations s" "repSignals (suspectAgent ag s) = repSignals s"
  "meters (suspectAgent ag s) = meters s" "eventSeq (suspectAgent ag s) = eventSeq s"
  "fencingSeq (suspectAgent ag s) = fencingSeq s" "leaseSeq (suspectAgent ag s) = leaseSeq s"
  by (simp_all add: suspectAgent_def Let_def split: option.splits)

lemma releaseLeaseLocked_frame [simp]:
  "missions (releaseLeaseLocked k l s) = missions s"
  "subtasks (releaseLeaseLocked k l s) = subtasks s" "events (releaseLeaseLocked k l s) = events s"
  "idem (releaseLeaseLocked k l s) = idem s" "decisions (releaseLeaseLocked k l s) = decisions s"
  "board (releaseLeaseLocked k l s) = board s" "artifacts (releaseLeaseLocked k l s) = artifacts s"
  "leadInbox (releaseLeaseLocked k l s) = leadInbox s"
  "budgets (releaseLeaseLocked k l s) = budgets s"
  "budgetHolds (releaseLeaseLocked k l s) = budgetHolds s"
  "contexts (releaseLeaseLocked k l s) = contexts s"
  "quality (releaseLeaseLocked k l s) = quality s" "appeals (releaseLeaseLocked k l s) = appeals s"
  "reputations (releaseLeaseLocked k l s) = reputations s"
  "repSignals (releaseLeaseLocked k l s) = repSignals s"
  "meters (releaseLeaseLocked k l s) = meters s" "eventSeq (releaseLeaseLocked k l s) = eventSeq s"
  "fencingSeq (releaseLeaseLocked k l s) = fencingSeq s"
  "leaseSeq (releaseLeaseLocked k l s) = leaseSeq s"
  by (simp_all add: releaseLeaseLocked_def split: option.splits)

lemma releaseActiveLease_frame [simp]:
  "missions (releaseActiveLease sub s) = missions s"
  "subtasks (releaseActiveLease sub s) = subtasks s" "events (releaseActiveLease sub s) = events s"
  "idem (releaseActiveLease sub s) = idem s" "decisions (releaseActiveLease sub s) = decisions s"
  "board (releaseActiveLease sub s) = board s" "artifacts (releaseActiveLease sub s) = artifacts s"
  "leadInbox (releaseActiveLease sub s) = leadInbox s"
  "budgets (releaseActiveLease sub s) = budgets s"
  "budgetHolds (releaseActiveLease sub s) = budgetHolds s"
  "contexts (releaseActiveLease sub s) = contexts s"
  "quality (releaseActiveLease sub s) = quality s" "appeals (releaseActiveLease sub s) = appeals s"
  "reputations (releaseActiveLease sub s) = reputations s"
  "repSignals (releaseActiveLease sub s) = repSignals s"
  "meters (releaseActiveLease sub s) = meters s" "eventSeq (releaseActiveLease sub s) = eventSeq s"
  "fencingSeq (releaseActiveLease sub s) = fencingSeq s"
  "leaseSeq (releaseActiveLease sub s) = leaseSeq s"
  by (simp_all add: releaseActiveLease_def split: option.splits)

lemma releaseBudgetHoldLocked_frame [simp]:
  "missions (releaseBudgetHoldLocked sub r ac now s) = missions s"
  "subtasks (releaseBudgetHoldLocked sub r ac now s) = subtasks s"
  "agents (releaseBudgetHoldLocked sub r ac now s) = agents s"
  "leases (releaseBudgetHoldLocked sub r ac now s) = leases s"
  "idem (releaseBudgetHoldLocked sub r ac now s) = idem s"
  "decisions (releaseBudgetHoldLocked sub r ac now s) = decisions s"
  "board (releaseBudgetHoldLocked sub r ac now s) = board s"
  "artifacts (releaseBudgetHoldLocked sub r ac now s) = artifacts s"
  "leadInbox (releaseBudgetHoldLocked sub r ac now s) = leadInbox s"
  "contexts (releaseBudgetHoldLocked sub r ac now s) = contexts s"
  "quality (releaseBudgetHoldLocked sub r ac now s) = quality s"
  "appeals (releaseBudgetHoldLocked sub r ac now s) = appeals s"
  "reputations (releaseBudgetHoldLocked sub r ac now s) = reputations s"
  "repSignals (releaseBudgetHoldLocked sub r ac now s) = repSignals s"
  "meters (releaseBudgetHoldLocked sub r ac now s) = meters s"
  "fencingSeq (releaseBudgetHoldLocked sub r ac now s) = fencingSeq s"
  "leaseSeq (releaseBudgetHoldLocked sub r ac now s) = leaseSeq s"
  by (simp_all add: releaseBudgetHoldLocked_def Let_def split: option.splits)

lemma enqueueLeadInbox_frame [simp]:
  "missions (enqueueLeadInbox sub r now s) = missions s"
  "subtasks (enqueueLeadInbox sub r now s) = subtasks s"
  "agents (enqueueLeadInbox sub r now s) = agents s"
  "leases (enqueueLeadInbox sub r now s) = leases s" "idem (enqueueLeadInbox sub r now s) = idem s"
  "decisions (enqueueLeadInbox sub r now s) = decisions s"
  "board (enqueueLeadInbox sub r now s) = board s"
  "artifacts (enqueueLeadInbox sub r now s) = artifacts s"
  "budgets (enqueueLeadInbox sub r now s) = budgets s"
  "budgetHolds (enqueueLeadInbox sub r now s) = budgetHolds s"
  "contexts (enqueueLeadInbox sub r now s) = contexts s"
  "quality (enqueueLeadInbox sub r now s) = quality s"
  "appeals (enqueueLeadInbox sub r now s) = appeals s"
  "reputations (enqueueLeadInbox sub r now s) = reputations s"
  "repSignals (enqueueLeadInbox sub r now s) = repSignals s"
  "meters (enqueueLeadInbox sub r now s) = meters s"
  "fencingSeq (enqueueLeadInbox sub r now s) = fencingSeq s"
  "leaseSeq (enqueueLeadInbox sub r now s) = leaseSeq s"
  by (simp_all add: enqueueLeadInbox_def Let_def split: option.splits)

lemma placeHold_frame [simp]:
  "missions (placeHold acc c ac now s) = missions s"
  "subtasks (placeHold acc c ac now s) = subtasks s" "agents (placeHold acc c ac now s) = agents s"
  "leases (placeHold acc c ac now s) = leases s" "idem (placeHold acc c ac now s) = idem s"
  "decisions (placeHold acc c ac now s) = decisions s" "board (placeHold acc c ac now s) = board s"
  "artifacts (placeHold acc c ac now s) = artifacts s"
  "leadInbox (placeHold acc c ac now s) = leadInbox s"
  "contexts (placeHold acc c ac now s) = contexts s"
  "quality (placeHold acc c ac now s) = quality s" "appeals (placeHold acc c ac now s) = appeals s"
  "reputations (placeHold acc c ac now s) = reputations s"
  "repSignals (placeHold acc c ac now s) = repSignals s"
  "meters (placeHold acc c ac now s) = meters s"
  "fencingSeq (placeHold acc c ac now s) = fencingSeq s"
  "leaseSeq (placeHold acc c ac now s) = leaseSeq s"
  by (simp_all add: placeHold_def Let_def split: option.splits)

text \<open>Settling a hold returns an outcome; its frame is stated for the resulting state.\<close>

lemma settleBudgetHoldLocked_frame:
  assumes "settleBudgetHoldLocked sub usage ac now s = (r, t)"
  shows "missions t = missions s" "subtasks t = subtasks s" "agents t = agents s" "leases t = leases s"
    "idem t = idem s" "decisions t = decisions s" "board t = board s" "artifacts t = artifacts s"
    "leadInbox t = leadInbox s" "quality t = quality s" "meters t = meters s"
    "fencingSeq t = fencingSeq s" "leaseSeq t = leaseSeq s" "reputations t = reputations s"
  using assms by (auto simp: settleBudgetHoldLocked_def Let_def split: option.splits if_splits)

lemma releaseLeaseLocked_leases [simp]:
  "leases (releaseLeaseLocked k l s) = fmupd k (l\<lparr>l_State := LeaseReleased\<rparr>) (leases s)"
  by (simp add: releaseLeaseLocked_def decRunning_def split: option.splits)

lemma putMeterLocked_meters:
  "meters (putMeterLocked m now s) =
     (if fmlookup (meters s) (mt_ID m) = None
      then fmupd (mt_ID m) (PriceMeter (m\<lparr>mt_RecordedAt := now\<rparr>)) (meters s) else meters s)"
  by (simp add: putMeterLocked_def split: option.splits)

end
