(* ===== verification/MemHistory.thy ===== *)
theory MemHistory
  imports MemFrames
begin

text \<open>
  What the in-memory store never takes back. \<open>history s t\<close> says that \<open>t\<close> can follow \<open>s\<close>: the event
  log has only grown at its end, subtasks have only moved along the life cycle with rising versions
  and are frozen once absorbing, a lease that has stopped being ACTIVE never becomes ACTIVE again and
  keeps its token, settled holds, resolved decisions, ingested inbox items, artifacts, quality
  records, meters and idempotency keys never change. Every operation of the store is shown to keep it.
\<close>

section \<open>Tables that evolve\<close>

definition evolves :: "('v \<Rightarrow> 'v \<Rightarrow> bool) \<Rightarrow> 'v table \<Rightarrow> 'v table \<Rightarrow> bool" where
  "evolves R m m' \<longleftrightarrow> (\<forall>k v. fmlookup m k = Some v \<longrightarrow> (\<exists>v'. fmlookup m' k = Some v' \<and> R v v'))"

lemma evolvesD: "evolves R m m' \<Longrightarrow> fmlookup m k = Some v \<Longrightarrow> \<exists>v'. fmlookup m' k = Some v' \<and> R v v'"
  by (auto simp: evolves_def)

lemma evolves_refl: "(\<And>v. R v v) \<Longrightarrow> evolves R m m"
  by (auto simp: evolves_def)

lemma evolves_trans:
  assumes "evolves R m1 m2" "evolves R m2 m3" and "\<And>a b c. R a b \<Longrightarrow> R b c \<Longrightarrow> R a c"
  shows "evolves R m1 m3"
  using assms unfolding evolves_def by metis

lemma evolves_upd:
  assumes "evolves R m m'" "\<And>a b c. R a b \<Longrightarrow> R b c \<Longrightarrow> R a c"
    and "\<And>old. fmlookup m' k = Some old \<Longrightarrow> R old v"
  shows "evolves R m (fmupd k v m')"
  unfolding evolves_def
proof (intro allI impI)
  fix k' w assume "fmlookup m k' = Some w"
  then obtain w' where w': "fmlookup m' k' = Some w'" "R w w'" using assms(1) by (auto simp: evolves_def)
  with assms(2,3) show "\<exists>v'. fmlookup (fmupd k v m') k' = Some v' \<and> R w v'" by auto
qed

section \<open>How one entry may change\<close>

text \<open>
  The store follows the transition table, with one exception: the wake sweep (\<open>ExpireWakes\<close>) takes
  a WAITING subtask to FAILED, an edge the table does not have.
\<close>

inductive store_moves :: "State \<Rightarrow> EventType \<Rightarrow> State \<Rightarrow> bool" where
  table_move: "Apply a ev = Inr b \<Longrightarrow> store_moves a ev b"
| wake_timeout: "store_moves StateWaiting EvFailed StateFailed"

inductive_simps store_moves_iff: "store_moves a ev b"

interpretation store_cycle: lifecycle store_moves absorbing
  by unfold_locales (auto simp: store_moves_iff absorbing_def Apply_Inr_iff)

definition advances :: "State \<Rightarrow> State \<Rightarrow> bool" where
  "advances a b \<longleftrightarrow> (\<exists>es. follows store_moves a es b)"

lemma advances_refl [simp]: "advances a a"
  unfolding advances_def by (rule exI [of _ "[]"]) simp

lemma advances_trans: "advances a b \<Longrightarrow> advances b c \<Longrightarrow> advances a c"
  unfolding advances_def using store_cycle.follows_append by blast

lemma advances_move: "store_moves a ev b \<Longrightarrow> advances a b"
  unfolding advances_def by (rule exI [of _ "[ev]"]) simp

lemma advances_absorbing: "advances a b \<Longrightarrow> absorbing a \<Longrightarrow> b = a"
  unfolding advances_def using store_cycle.follows_final by blast

lemma Apply_not_absorbing: "Apply a ev = Inr b \<Longrightarrow> \<not> absorbing a"
  using subtask_cycle.final_stuck by (auto simp: moves_iff)

definition subtask_le :: "Subtask \<Rightarrow> Subtask \<Rightarrow> bool" where
  "subtask_le a b \<longleftrightarrow> st_ID b = st_ID a \<and> st_MissionID b = st_MissionID a
     \<and> st_Version a \<le> st_Version b \<and> advances (st_State a) (st_State b)
     \<and> (st_Version b = st_Version a \<longrightarrow> st_State b = st_State a)
     \<and> (absorbing (st_State a) \<longrightarrow> b = a)"

definition lease_le :: "Lease \<Rightarrow> Lease \<Rightarrow> bool" where
  "lease_le a b \<longleftrightarrow> b = a\<lparr>l_State := l_State b, l_ExpiresAt := l_ExpiresAt b\<rparr>
     \<and> (l_State a \<noteq> LeaseActive \<longrightarrow> b = a)"

definition mission_le :: "Mission \<Rightarrow> Mission \<Rightarrow> bool" where
  "mission_le a b \<longleftrightarrow> b = a\<lparr>m_Status := m_Status b, m_Version := m_Version b\<rparr>
     \<and> m_Version a \<le> m_Version b \<and> (m_Version b = m_Version a \<longrightarrow> b = a)"

definition decision_le :: "Decision \<Rightarrow> Decision \<Rightarrow> bool" where
  "decision_le a b \<longleftrightarrow> (d_Status a \<noteq> DecisionPending \<longrightarrow> b = a)
     \<and> (d_ID b, d_MissionID b, d_SubtaskID b, d_Question b) = (d_ID a, d_MissionID a, d_SubtaskID a, d_Question a)"

definition inbox_le :: "LeadInboxItem \<Rightarrow> LeadInboxItem \<Rightarrow> bool" where
  "inbox_le a b \<longleftrightarrow> (i_Status a = LeadInboxIngested \<longrightarrow> b = a)
     \<and> (i_ID b, i_SourceSubtaskID b, i_ResultRef b) = (i_ID a, i_SourceSubtaskID a, i_ResultRef a)"

definition hold_le :: "BudgetHold \<Rightarrow> BudgetHold \<Rightarrow> bool" where
  "hold_le a b \<longleftrightarrow> (h_Status a \<noteq> BudgetHoldHeld \<longrightarrow> b = a)
     \<and> (h_ID b, h_MissionID b, h_Amount b) = (h_ID a, h_MissionID a, h_Amount a)"

definition account_le :: "BudgetAccount \<Rightarrow> BudgetAccount \<Rightarrow> bool" where
  "account_le a b \<longleftrightarrow> (ba_MissionID b, ba_Total b, ba_Metered b) = (ba_MissionID a, ba_Total a, ba_Metered a)
     \<and> ba_Version a \<le> ba_Version b"

lemma subtask_le_refl [simp]: "subtask_le a a"
  by (simp add: subtask_le_def)

lemma subtask_le_trans: "subtask_le a b \<Longrightarrow> subtask_le b c \<Longrightarrow> subtask_le a c"
  unfolding subtask_le_def by (auto intro: advances_trans)

lemma entry_le_refl [simp]:
  "lease_le l l" "mission_le m m" "decision_le d d" "inbox_le i i" "hold_le h h" "account_le c c"
  by (simp_all add: lease_le_def mission_le_def decision_le_def inbox_le_def hold_le_def account_le_def)

lemma lease_le_trans: "lease_le a b \<Longrightarrow> lease_le b c \<Longrightarrow> lease_le a c"
  by (cases a; cases b; cases c) (auto simp: lease_le_def)

lemma mission_le_trans: "mission_le a b \<Longrightarrow> mission_le b c \<Longrightarrow> mission_le a c"
  by (cases a; cases b; cases c) (auto simp: mission_le_def)

lemma decision_le_trans: "decision_le a b \<Longrightarrow> decision_le b c \<Longrightarrow> decision_le a c"
  by (auto simp: decision_le_def)

lemma inbox_le_trans: "inbox_le a b \<Longrightarrow> inbox_le b c \<Longrightarrow> inbox_le a c"
  by (auto simp: inbox_le_def)

lemma hold_le_trans: "hold_le a b \<Longrightarrow> hold_le b c \<Longrightarrow> hold_le a c"
  by (auto simp: hold_le_def)

lemma account_le_trans: "account_le a b \<Longrightarrow> account_le b c \<Longrightarrow> account_le a c"
  by (auto simp: account_le_def)

section \<open>The history order on stores\<close>

definition history :: "Store \<Rightarrow> Store \<Rightarrow> bool" where
  "history s t \<longleftrightarrow> (\<exists>es. events t = events s @ es)
     \<and> evolves subtask_le (subtasks s) (subtasks t)
     \<and> evolves lease_le (leases s) (leases t)
     \<and> evolves mission_le (missions s) (missions t)
     \<and> evolves decision_le (decisions s) (decisions t)
     \<and> evolves inbox_le (leadInbox s) (leadInbox t)
     \<and> evolves hold_le (budgetHolds s) (budgetHolds t)
     \<and> evolves account_le (budgets s) (budgets t)
     \<and> evolves (=) (idem s) (idem t)
     \<and> evolves (=) (artifacts s) (artifacts t)
     \<and> evolves (=) (quality s) (quality t)
     \<and> evolves (=) (meters s) (meters t)
     \<and> fencingSeq s \<le> fencingSeq t"

lemma history_refl [simp]: "history s s"
  by (simp add: history_def evolves_refl)

lemma history_trans: "history s t \<Longrightarrow> history t u \<Longrightarrow> history s u"
  unfolding history_def
  by (auto elim!: evolves_trans subtask_le_trans lease_le_trans mission_le_trans decision_le_trans
      inbox_le_trans hold_le_trans account_le_trans)

section \<open>Writes that keep the history\<close>

named_theorems hist \<open>backward rules for \<open>history s (write u)\<close>\<close>

lemma history_write_subtask [hist]:
  assumes "history s u" and "M = subtasks u" and "\<And>old. fmlookup M k = Some old \<Longrightarrow> subtask_le old v"
  shows "history s (u\<lparr>subtasks := fmupd k v M\<rparr>)"
  using assms by (auto simp: history_def intro!: evolves_upd elim: subtask_le_trans)

lemma history_write_lease [hist]:
  assumes "history s u" and "M = leases u" and "\<And>old. fmlookup M k = Some old \<Longrightarrow> lease_le old v"
  shows "history s (u\<lparr>leases := fmupd k v M\<rparr>)"
  using assms by (auto simp: history_def intro!: evolves_upd elim: lease_le_trans)

lemma history_write_mission [hist]:
  assumes "history s u" and "M = missions u" and "\<And>old. fmlookup M k = Some old \<Longrightarrow> mission_le old v"
  shows "history s (u\<lparr>missions := fmupd k v M\<rparr>)"
  using assms by (auto simp: history_def intro!: evolves_upd elim: mission_le_trans)

lemma history_write_decision [hist]:
  assumes "history s u" and "M = decisions u" and "\<And>old. fmlookup M k = Some old \<Longrightarrow> decision_le old v"
  shows "history s (u\<lparr>decisions := fmupd k v M\<rparr>)"
  using assms by (auto simp: history_def intro!: evolves_upd elim: decision_le_trans)

lemma history_write_inbox [hist]:
  assumes "history s u" and "M = leadInbox u" and "\<And>old. fmlookup M k = Some old \<Longrightarrow> inbox_le old v"
  shows "history s (u\<lparr>leadInbox := fmupd k v M\<rparr>)"
  using assms by (auto simp: history_def intro!: evolves_upd elim: inbox_le_trans)

lemma history_write_hold [hist]:
  assumes "history s u" and "M = budgetHolds u" and "\<And>old. fmlookup M k = Some old \<Longrightarrow> hold_le old v"
  shows "history s (u\<lparr>budgetHolds := fmupd k v M\<rparr>)"
  using assms by (auto simp: history_def intro!: evolves_upd elim: hold_le_trans)

lemma history_write_budget [hist]:
  assumes "history s u" and "M = budgets u" and "\<And>old. fmlookup M k = Some old \<Longrightarrow> account_le old v"
  shows "history s (u\<lparr>budgets := fmupd k v M\<rparr>)"
  using assms by (auto simp: history_def intro!: evolves_upd elim: account_le_trans)

lemma history_write_once [hist]:
  "history s u \<Longrightarrow> idem u = Midem \<Longrightarrow> fmlookup Midem k = None \<Longrightarrow> history s (u\<lparr>idem := fmupd k v Midem\<rparr>)"
  "history s u \<Longrightarrow> artifacts u = Martifacts \<Longrightarrow> fmlookup Martifacts k = None \<Longrightarrow> history s (u\<lparr>artifacts := fmupd k a Martifacts\<rparr>)"
  "history s u \<Longrightarrow> quality u = Mquality \<Longrightarrow> fmlookup Mquality k = None \<Longrightarrow> history s (u\<lparr>quality := fmupd k q Mquality\<rparr>)"
  "history s u \<Longrightarrow> meters u = Mmeters \<Longrightarrow> fmlookup Mmeters k = None \<Longrightarrow> history s (u\<lparr>meters := fmupd k mt Mmeters\<rparr>)"
  by (auto simp: history_def intro!: evolves_upd)

lemma history_write_free [hist]:
  "history s u \<Longrightarrow> history s (u\<lparr>agents := A\<rparr>)" "history s u \<Longrightarrow> history s (u\<lparr>board := B\<rparr>)"
  "history s u \<Longrightarrow> history s (u\<lparr>contexts := C\<rparr>)" "history s u \<Longrightarrow> history s (u\<lparr>appeals := P\<rparr>)"
  "history s u \<Longrightarrow> history s (u\<lparr>reputations := R\<rparr>)" "history s u \<Longrightarrow> history s (u\<lparr>repSignals := S\<rparr>)"
  "history s u \<Longrightarrow> history s (u\<lparr>leaseSeq := n\<rparr>)"
  "history s u \<Longrightarrow> fencingSeq u \<le> m \<Longrightarrow> history s (u\<lparr>fencingSeq := m\<rparr>)"
  by (simp_all add: history_def)

lemma history_appendEvent [hist]:
  "history s u \<Longrightarrow> history s (appendEventLocked ag mi ty pl ac now u)"
  by (auto simp: history_def appendEventLocked_def)

lemma history_putMeter [hist]: "history s u \<Longrightarrow> history s (putMeterLocked m now u)"
  by (auto simp: putMeterLocked_def intro!: hist split: option.splits)

lemma history_agents [hist]:
  "history s u \<Longrightarrow> history s (decRunning ag u)" "history s u \<Longrightarrow> history s (incRunning ag u)"
  "history s u \<Longrightarrow> history s (suspectAgent ag u)"
  by (auto simp: decRunning_def incRunning_def suspectAgent_def Let_def intro!: hist split: option.splits)

lemma lease_le_release: "l_State l = LeaseActive \<Longrightarrow> lease_le l (l\<lparr>l_State := x\<rparr>)"
  by (simp add: lease_le_def)

lemma lease_le_extend: "l_State l = LeaseActive \<Longrightarrow> lease_le l (l\<lparr>l_ExpiresAt := x\<rparr>)"
  by (simp add: lease_le_def)

lemma history_releaseLease [hist]:
  assumes "history s u" "fmlookup (leases u) k = Some l" "l_State l = LeaseActive"
  shows "history s (releaseLeaseLocked k l u)"
  using assms by (auto simp: releaseLeaseLocked_def intro!: hist lease_le_release)

lemma history_releaseActive [hist]: "history s u \<Longrightarrow> history s (releaseActiveLease sub u)"
  by (auto simp: releaseActiveLease_def intro!: hist split: option.splits)

lemma history_releaseBudget [hist]: "history s u \<Longrightarrow> history s (releaseBudgetHoldLocked sub r ac now u)"
  by (auto simp: releaseBudgetHoldLocked_def Let_def hold_le_def account_le_def intro!: hist split: option.splits)

lemma history_settle:
  "history s u \<Longrightarrow> settleBudgetHoldLocked sub usage ac now u = (r, t) \<Longrightarrow> history s t"
  by (auto simp: settleBudgetHoldLocked_def Let_def hold_le_def account_le_def intro!: hist
      split: option.splits if_splits)

lemma history_enqueue [hist]: "history s u \<Longrightarrow> history s (enqueueLeadInbox sub r now u)"
  by (auto simp: enqueueLeadInbox_def Let_def intro!: hist split: option.splits)

lemma history_placeHold [hist]:
  assumes "history s u" "fmlookup (budgetHolds u) (st_ID c) = None"
    and "fmlookup (budgets u) (st_MissionID c) = Some acc"
  shows "history s (placeHold acc c ac now u)"
  using assms by (auto simp: placeHold_def Let_def account_le_def intro!: hist)

text \<open>The usual write to a subtask: it follows the transition table and its version goes up by one.\<close>

lemma subtask_le_step:
  assumes "Apply (st_State a) ev = Inr x" and "st_State b = x"
    and "st_Version b = st_Version a + 1"
    and "st_ID b = st_ID a" and "st_MissionID b = st_MissionID a"
  shows "subtask_le a b"
  using assms by (auto simp: subtask_le_def intro: advances_move table_move dest: Apply_not_absorbing)

lemma checkFencing_Inr:
  "checkFencingLocked sub tok s = Inr l \<longleftrightarrow>
     st_LeaseID sub \<noteq> '''' \<and> fmlookup (leases s) (st_LeaseID sub) = Some l
     \<and> l_State l = LeaseActive \<and> l_FencingToken l = tok"
  by (auto simp: checkFencingLocked_def split: option.splits if_splits)

text \<open>The next state each handler writes is the one the table gives for its event.\<close>

lemma Apply_next:
  "Apply x EvLeaseOffered = Inr y \<Longrightarrow> y = StateOffered" "Apply x EvLeaseAccepted = Inr y \<Longrightarrow> y = StateLeased"
  "Apply x EvStarted = Inr y \<Longrightarrow> y = StateRunning" "Apply x EvCompleted = Inr y \<Longrightarrow> y = StateSucceeded"
  "Apply x EvFailed = Inr y \<Longrightarrow> y = StateFailed" "Apply x EvBlocked = Inr y \<Longrightarrow> y = StateBlocked"
  "Apply x EvSuspended = Inr y \<Longrightarrow> y = StateWaiting" "Apply x EvCancelled = Inr y \<Longrightarrow> y = StateCancelled"
  "Apply x EvWoken = Inr y \<Longrightarrow> y = StateReady" "Apply x EvTakeover = Inr y \<Longrightarrow> y = StateReady"
  by (auto dest!: Apply_cases)

lemma Apply_moves:
  "Apply x EvLeaseOffered = Inr y \<Longrightarrow> advances x StateOffered \<and> \<not> absorbing x"
  "Apply x EvLeaseAccepted = Inr y \<Longrightarrow> advances x StateLeased \<and> \<not> absorbing x"
  "Apply x EvStarted = Inr y \<Longrightarrow> advances x StateRunning \<and> \<not> absorbing x"
  "Apply x EvCompleted = Inr y \<Longrightarrow> advances x StateSucceeded \<and> \<not> absorbing x"
  "Apply x EvFailed = Inr y \<Longrightarrow> advances x StateFailed \<and> \<not> absorbing x"
  "Apply x EvBlocked = Inr y \<Longrightarrow> advances x StateBlocked \<and> \<not> absorbing x"
  "Apply x EvSuspended = Inr y \<Longrightarrow> advances x StateWaiting \<and> \<not> absorbing x"
  "Apply x EvCancelled = Inr y \<Longrightarrow> advances x StateCancelled \<and> \<not> absorbing x"
  "Apply x EvWoken = Inr y \<Longrightarrow> advances x StateReady \<and> \<not> absorbing x"
  "Apply x EvTakeover = Inr y \<Longrightarrow> advances x StateReady \<and> \<not> absorbing x"
  using Apply_next Apply_not_absorbing advances_move [OF table_move] by metis+

end
