(* ===== verification/MemWf.thy ===== *)
theory MemWf
  imports MemHistory
begin

text \<open>
  Well-formed states of the in-memory store: tables are keyed by the ids of their entries, the event
  log is numbered without gaps, leases carry the token their id encodes and the ACTIVE lease of a
  subtask holds the newest token, and every budget account balances its holds. The second half shows
  which writes keep each of the four parts.
\<close>

section \<open>The parts\<close>

definition keys_wf :: "Store \<Rightarrow> bool" where
  "keys_wf s \<longleftrightarrow> keyed_by m_ID (missions s) \<and> keyed_by st_ID (subtasks s) \<and> keyed_by a_ID (agents s)
     \<and> keyed_by d_ID (decisions s) \<and> keyed_by i_ID (leadInbox s) \<and> keyed_by art_ID (artifacts s)
     \<and> keyed_by q_ArtifactID (quality s) \<and> keyed_by mt_ID (meters s)"

definition log_wf :: "Store \<Rightarrow> bool" where
  "log_wf s \<longleftrightarrow> 0 \<le> eventSeq s \<and> map e_Seq (events s) = [1..eventSeq s]"

text \<open>The eight base-36 digits of a lease id count this many offers before they repeat.\<close>

definition lease_ids :: int where "lease_ids = 36 ^ 8"

definition seqs_wf :: "Store \<Rightarrow> bool" where
  "seqs_wf s \<longleftrightarrow> fencingSeq s = leaseSeq s \<and> 0 \<le> leaseSeq s \<and> leaseSeq s < lease_ids
     \<and> fmdom (contexts s) = fmdom (leases s)"

definition entries_wf :: "Store \<Rightarrow> bool" where
  "entries_wf s \<longleftrightarrow> (\<forall>k l. fmlookup (leases s) k = Some l \<longrightarrow> l_ID l = k \<and> k = leaseID (l_FencingToken l)
     \<and> 1 \<le> l_FencingToken l \<and> l_FencingToken l \<le> leaseSeq s \<and> fmlookup (subtasks s) (l_SubtaskID l) \<noteq> None)"

text \<open>The ACTIVE lease of a subtask has the newest token among its leases.\<close>

definition newest_wf :: "Lease table \<Rightarrow> bool" where
  "newest_wf L \<longleftrightarrow> (\<forall>k l k' l'. fmlookup L k = Some l \<longrightarrow> fmlookup L k' = Some l'
     \<longrightarrow> l_SubtaskID l' = l_SubtaskID l \<longrightarrow> l_State l = LeaseActive \<longrightarrow> l_FencingToken l' \<le> l_FencingToken l)"

text \<open>A subtask points to one of its own leases or to none.\<close>

definition owners_wf :: "Store \<Rightarrow> bool" where
  "owners_wf s \<longleftrightarrow> (\<forall>k sub. fmlookup (subtasks s) k = Some sub \<longrightarrow> st_LeaseID sub \<noteq> []
     \<longrightarrow> (\<exists>l. fmlookup (leases s) (st_LeaseID sub) = Some l \<and> l_SubtaskID l = k))"

definition leases_wf :: "Store \<Rightarrow> bool" where
  "leases_wf s \<longleftrightarrow> seqs_wf s \<and> entries_wf s \<and> newest_wf (leases s) \<and> owners_wf s"

lemmas lease_parts = leases_wf_def seqs_wf_def entries_wf_def newest_wf_def owners_wf_def

definition hold_part :: "string \<Rightarrow> BudgetHold \<Rightarrow> int" where
  "hold_part m h = (if h_Status h = BudgetHoldHeld \<and> h_MissionID h = m then h_Amount h else 0)"

definition held :: "BudgetHold table \<Rightarrow> string \<Rightarrow> int" where
  "held H m = (\<Sum>k \<in> fset (fmdom H). hold_part m (the (fmlookup H k)))"

definition account_wf :: "BudgetHold table \<Rightarrow> string \<Rightarrow> BudgetAccount \<Rightarrow> bool" where
  "account_wf H m a \<longleftrightarrow> ba_MissionID a = m \<and> in_int64 (ba_Total a) \<and> 0 \<le> ba_Spent a
     \<and> ba_Held a = held H m \<and> ba_Held a + ba_Spent a \<le> ba_Total a
     \<and> ba_Available a = ba_Total a - ba_Held a - ba_Spent a"

definition hold_wf :: "Store \<Rightarrow> string \<Rightarrow> BudgetHold \<Rightarrow> bool" where
  "hold_wf s k h \<longleftrightarrow> 0 < h_Amount h \<and> h_SubtaskID h = k \<and> fmlookup (budgets s) (h_MissionID h) \<noteq> None
     \<and> (\<exists>sub. fmlookup (subtasks s) k = Some sub \<and> st_MissionID sub = h_MissionID h)"

definition budgets_wf :: "Store \<Rightarrow> bool" where
  "budgets_wf s \<longleftrightarrow> (\<forall>k. fmlookup (budgets s) k \<noteq> None \<longrightarrow> fmlookup (missions s) k \<noteq> None)
     \<and> (\<forall>k a. fmlookup (budgets s) k = Some a \<longrightarrow> account_wf (budgetHolds s) k a)
     \<and> (\<forall>k h. fmlookup (budgetHolds s) k = Some h \<longrightarrow> hold_wf s k h)"

definition store_wf :: "Store \<Rightarrow> bool" where
  "store_wf s \<longleftrightarrow> keys_wf s \<and> log_wf s \<and> leases_wf s \<and> budgets_wf s"

section \<open>Lease identifiers are distinct\<close>

lemma digits36_nth_inj:
  assumes "i < 36" "j < 36" "digits36 ! i = digits36 ! j"
  shows "i = j"
proof -
  have "distinct digits36" "length digits36 = 36" by (simp_all add: digits36_def)
  with assms show ?thesis by (simp add: nth_eq_iff_index_eq)
qed

lemma base36_length [simp]: "length (base36 k n) = k"
  by (induction k arbitrary: n) simp_all

lemma base36_inj:
  "0 \<le> m \<Longrightarrow> 0 \<le> n \<Longrightarrow> m < 36 ^ k \<Longrightarrow> n < 36 ^ k \<Longrightarrow> base36 k m = base36 k n \<Longrightarrow> m = n"
proof (induction k arbitrary: m n)
  case (Suc k)
  have "m div 36 = n div 36"
    by (rule Suc.IH) (use Suc.prems in auto)
  moreover have "nat (m mod 36) = nat (n mod 36)"
    by (rule digits36_nth_inj) (use Suc.prems in auto)
  then have "m mod 36 = n mod 36" by simp
  ultimately show ?case by (metis div_mult_mod_eq)
qed simp

lemma leaseID_inj:
  "leaseID m = leaseID n \<Longrightarrow> 0 \<le> m \<Longrightarrow> 0 \<le> n \<Longrightarrow> m < lease_ids \<Longrightarrow> n < lease_ids \<Longrightarrow> m = n"
  by (auto simp: leaseID_def lease_ids_def intro!: base36_inj [where k = 8])

lemma leaseID_nonempty [simp]: "leaseID n \<noteq> ''''" "'''' \<noteq> leaseID n"
  by (simp_all add: leaseID_def)

section \<open>Sums over holds\<close>

lemma held_upd:
  "held (fmupd k h H) m = held H m + hold_part m h
     - (case fmlookup H k of None \<Rightarrow> 0 | Some h' \<Rightarrow> hold_part m h')"
proof -
  let ?f = "\<lambda>G k. hold_part m (the (fmlookup G k))"
  have "held (fmupd k h H) m = hold_part m h + (\<Sum>j \<in> fset (fmdom H) - {k}. ?f (fmupd k h H) j)"
    by (simp add: held_def sum.insert_remove)
  also have "(\<Sum>j \<in> fset (fmdom H) - {k}. ?f (fmupd k h H) j) = (\<Sum>j \<in> fset (fmdom H) - {k}. ?f H j)"
    by (rule sum.cong) auto
  also have "\<dots> = held H m - (case fmlookup H k of None \<Rightarrow> 0 | Some h' \<Rightarrow> hold_part m h')"
    by (auto simp: held_def sum_diff1 fmlookup_dom_iff split: option.split)
  finally show ?thesis by simp
qed

lemma held_nonneg: "budgets_wf s \<Longrightarrow> 0 \<le> held (budgetHolds s) m"
  unfolding held_def
  by (rule sum_nonneg) (auto simp: budgets_wf_def hold_wf_def hold_part_def fmlookup_dom_iff less_imp_le)

lemma held_ge:
  assumes "budgets_wf s" "fmlookup (budgetHolds s) k = Some h" "h_Status h = BudgetHoldHeld" "h_MissionID h = m"
  shows "h_Amount h \<le> held (budgetHolds s) m"
proof -
  have "hold_part m (the (fmlookup (budgetHolds s) k)) \<le> held (budgetHolds s) m"
    unfolding held_def
    by (rule member_le_sum)
      (use assms in \<open>auto simp: budgets_wf_def hold_wf_def hold_part_def fmlookup_dom_iff less_imp_le\<close>)
  with assms show ?thesis by (simp add: hold_part_def)
qed

section \<open>Writes that keep the parts\<close>

lemma parts_event [simp]:
  "keys_wf (appendEventLocked ag mi ty pl ac now u) = keys_wf u"
  "leases_wf (appendEventLocked ag mi ty pl ac now u) = leases_wf u"
  "budgets_wf (appendEventLocked ag mi ty pl ac now u) = budgets_wf u"
  by (simp_all add: keys_wf_def lease_parts budgets_wf_def hold_wf_def)

lemma log_wf_event: "log_wf u \<Longrightarrow> log_wf (appendEventLocked ag mi ty pl ac now u)"
  by (simp add: log_wf_def appendEventLocked_def upto_rec2)

lemma log_wf_frame [simp]:
  "log_wf (u\<lparr>missions := M\<rparr>) = log_wf u" "log_wf (u\<lparr>subtasks := S\<rparr>) = log_wf u"
  "log_wf (u\<lparr>agents := A\<rparr>) = log_wf u" "log_wf (u\<lparr>leases := L\<rparr>) = log_wf u"
  "log_wf (u\<lparr>idem := I\<rparr>) = log_wf u" "log_wf (u\<lparr>decisions := D\<rparr>) = log_wf u"
  "log_wf (u\<lparr>board := B\<rparr>) = log_wf u" "log_wf (u\<lparr>artifacts := F\<rparr>) = log_wf u"
  "log_wf (u\<lparr>leadInbox := N\<rparr>) = log_wf u" "log_wf (u\<lparr>budgets := U\<rparr>) = log_wf u"
  "log_wf (u\<lparr>budgetHolds := H\<rparr>) = log_wf u" "log_wf (u\<lparr>contexts := C\<rparr>) = log_wf u"
  "log_wf (u\<lparr>quality := Q\<rparr>) = log_wf u" "log_wf (u\<lparr>appeals := P\<rparr>) = log_wf u"
  "log_wf (u\<lparr>reputations := R\<rparr>) = log_wf u" "log_wf (u\<lparr>repSignals := G\<rparr>) = log_wf u"
  "log_wf (u\<lparr>meters := T\<rparr>) = log_wf u" "log_wf (u\<lparr>fencingSeq := n\<rparr>) = log_wf u"
  "log_wf (u\<lparr>leaseSeq := n\<rparr>) = log_wf u"
  by (simp_all add: log_wf_def)

lemma leases_wf_frame [simp]:
  "leases_wf (u\<lparr>missions := M\<rparr>) = leases_wf u" "leases_wf (u\<lparr>agents := A\<rparr>) = leases_wf u"
  "leases_wf (u\<lparr>idem := I\<rparr>) = leases_wf u" "leases_wf (u\<lparr>decisions := D\<rparr>) = leases_wf u"
  "leases_wf (u\<lparr>board := B\<rparr>) = leases_wf u" "leases_wf (u\<lparr>artifacts := F\<rparr>) = leases_wf u"
  "leases_wf (u\<lparr>leadInbox := N\<rparr>) = leases_wf u" "leases_wf (u\<lparr>budgets := U\<rparr>) = leases_wf u"
  "leases_wf (u\<lparr>budgetHolds := H\<rparr>) = leases_wf u" "leases_wf (u\<lparr>quality := Q\<rparr>) = leases_wf u"
  "leases_wf (u\<lparr>appeals := P\<rparr>) = leases_wf u" "leases_wf (u\<lparr>reputations := R\<rparr>) = leases_wf u"
  "leases_wf (u\<lparr>repSignals := G\<rparr>) = leases_wf u" "leases_wf (u\<lparr>meters := T\<rparr>) = leases_wf u"
  by (simp_all add: lease_parts)

lemma budgets_wf_frame [simp]:
  "budgets_wf (u\<lparr>agents := A\<rparr>) = budgets_wf u" "budgets_wf (u\<lparr>leases := L\<rparr>) = budgets_wf u"
  "budgets_wf (u\<lparr>idem := I\<rparr>) = budgets_wf u" "budgets_wf (u\<lparr>decisions := D\<rparr>) = budgets_wf u"
  "budgets_wf (u\<lparr>board := B\<rparr>) = budgets_wf u" "budgets_wf (u\<lparr>artifacts := F\<rparr>) = budgets_wf u"
  "budgets_wf (u\<lparr>leadInbox := N\<rparr>) = budgets_wf u" "budgets_wf (u\<lparr>contexts := C\<rparr>) = budgets_wf u"
  "budgets_wf (u\<lparr>quality := Q\<rparr>) = budgets_wf u" "budgets_wf (u\<lparr>appeals := P\<rparr>) = budgets_wf u"
  "budgets_wf (u\<lparr>reputations := R\<rparr>) = budgets_wf u" "budgets_wf (u\<lparr>repSignals := G\<rparr>) = budgets_wf u"
  "budgets_wf (u\<lparr>meters := T\<rparr>) = budgets_wf u" "budgets_wf (u\<lparr>fencingSeq := n\<rparr>) = budgets_wf u"
  "budgets_wf (u\<lparr>leaseSeq := n\<rparr>) = budgets_wf u"
  by (simp_all add: budgets_wf_def hold_wf_def)

lemma keys_wf_frame [simp]:
  "keys_wf (u\<lparr>leases := L\<rparr>) = keys_wf u" "keys_wf (u\<lparr>idem := I\<rparr>) = keys_wf u"
  "keys_wf (u\<lparr>board := B\<rparr>) = keys_wf u" "keys_wf (u\<lparr>budgets := U\<rparr>) = keys_wf u"
  "keys_wf (u\<lparr>budgetHolds := H\<rparr>) = keys_wf u" "keys_wf (u\<lparr>contexts := C\<rparr>) = keys_wf u"
  "keys_wf (u\<lparr>appeals := P\<rparr>) = keys_wf u" "keys_wf (u\<lparr>reputations := R\<rparr>) = keys_wf u"
  "keys_wf (u\<lparr>repSignals := G\<rparr>) = keys_wf u" "keys_wf (u\<lparr>fencingSeq := n\<rparr>) = keys_wf u"
  "keys_wf (u\<lparr>leaseSeq := n\<rparr>) = keys_wf u"
  by (simp_all add: keys_wf_def)

lemma keys_wf_writes:
  "keys_wf u \<Longrightarrow> m_ID m = k \<Longrightarrow> keys_wf (u\<lparr>missions := fmupd k m (missions u)\<rparr>)"
  "keys_wf u \<Longrightarrow> st_ID sub = k \<Longrightarrow> S = subtasks u \<Longrightarrow> keys_wf (u\<lparr>subtasks := fmupd k sub S\<rparr>)"
  "keys_wf u \<Longrightarrow> a_ID a = k \<Longrightarrow> keys_wf (u\<lparr>agents := fmupd k a (agents u)\<rparr>)"
  "keys_wf u \<Longrightarrow> d_ID d = k \<Longrightarrow> keys_wf (u\<lparr>decisions := fmupd k d (decisions u)\<rparr>)"
  "keys_wf u \<Longrightarrow> i_ID i = k \<Longrightarrow> keys_wf (u\<lparr>leadInbox := fmupd k i (leadInbox u)\<rparr>)"
  "keys_wf u \<Longrightarrow> art_ID f = k \<Longrightarrow> keys_wf (u\<lparr>artifacts := fmupd k f (artifacts u)\<rparr>)"
  "keys_wf u \<Longrightarrow> q_ArtifactID q = k \<Longrightarrow> keys_wf (u\<lparr>quality := fmupd k q (quality u)\<rparr>)"
  "keys_wf u \<Longrightarrow> mt_ID mt = k \<Longrightarrow> keys_wf (u\<lparr>meters := fmupd k mt (meters u)\<rparr>)"
  by (simp_all add: keys_wf_def keyed_by_upd)

subsection \<open>Leases\<close>

lemma leases_wf_subtask:
  assumes "leases_wf u" and "\<And>old. fmlookup (subtasks u) k = Some old \<Longrightarrow> st_LeaseID v \<in> {st_LeaseID old, ''''}"
    and "fmlookup (subtasks u) k = None \<Longrightarrow> st_LeaseID v = ''''"
  shows "leases_wf (u\<lparr>subtasks := fmupd k v (subtasks u)\<rparr>)"
proof -
  have "entries_wf (u\<lparr>subtasks := fmupd k v (subtasks u)\<rparr>)"
    using assms(1) by (auto simp: leases_wf_def entries_wf_def)
  moreover have "owners_wf (u\<lparr>subtasks := fmupd k v (subtasks u)\<rparr>)"
    using assms by (cases "fmlookup (subtasks u) k") (auto simp: leases_wf_def owners_wf_def)
  ultimately show ?thesis using assms(1) by (simp add: leases_wf_def seqs_wf_def)
qed

lemma leases_wf_lease:
  assumes wf: "leases_wf u" and old: "fmlookup (leases u) k = Some old" and le: "lease_le old v"
    and act: "l_State old = LeaseActive"
  shows "leases_wf (u\<lparr>leases := fmupd k v (leases u)\<rparr>)"
proof -
  have v: "l_ID v = l_ID old" "l_SubtaskID v = l_SubtaskID old" "l_FencingToken v = l_FencingToken old"
    using le by (auto simp: lease_le_def dest: arg_cong [where f = l_ID] arg_cong [where f = l_SubtaskID]
        arg_cong [where f = l_FencingToken])
  have "finsert k (fmdom (leases u)) = fmdom (leases u)"
    using old by (auto simp: fmlookup_dom_iff finsert_absorb)
  moreover have "entries_wf (u\<lparr>leases := fmupd k v (leases u)\<rparr>)"
    using wf old v by (auto simp: leases_wf_def entries_wf_def)
  moreover have "newest_wf (fmupd k v (leases u))"
    using wf old v act unfolding leases_wf_def newest_wf_def by (auto split: if_splits)
  moreover have "owners_wf (u\<lparr>leases := fmupd k v (leases u)\<rparr>)"
    using wf old v by (fastforce simp: leases_wf_def owners_wf_def)
  ultimately show ?thesis using wf by (simp add: leases_wf_def seqs_wf_def)
qed

lemma leases_wf_bump:
  assumes "leases_wf u" "leaseSeq u + 1 < lease_ids"
  shows "leases_wf (u\<lparr>fencingSeq := fencingSeq u + 1, leaseSeq := leaseSeq u + 1\<rparr>)"
proof -
  have "entries_wf (u\<lparr>fencingSeq := fencingSeq u + 1, leaseSeq := leaseSeq u + 1\<rparr>)"
    using assms(1) by (fastforce simp: leases_wf_def entries_wf_def)
  with assms show ?thesis by (auto simp: leases_wf_def seqs_wf_def owners_wf_def)
qed

text \<open>
  The writes of a successful offer: the counters go up, the new lease and its package are stored
  under the id of the new token, and the subtask points to the lease.
\<close>

lemma fresh_leaseID:
  assumes "leases_wf u" "leaseSeq u + 1 < lease_ids"
  shows "fmlookup (leases u) (leaseID (leaseSeq u + 1)) = None"
proof (rule ccontr)
  assume "fmlookup (leases u) (leaseID (leaseSeq u + 1)) \<noteq> None"
  then obtain x where "fmlookup (leases u) (leaseID (leaseSeq u + 1)) = Some x" by blast
  then have x: "leaseID (leaseSeq u + 1) = leaseID (l_FencingToken x)" "1 \<le> l_FencingToken x"
    "l_FencingToken x \<le> leaseSeq u"
    using assms(1) by (auto simp: leases_wf_def entries_wf_def)
  then have "leaseSeq u + 1 = l_FencingToken x"
    using assms(2) by (intro leaseID_inj) auto
  with x show False by simp
qed

lemma leases_wf_offer:
  assumes wf: "leases_wf u" and bound: "leaseSeq u + 1 < lease_ids"
    and sub: "fmlookup (subtasks u) k = Some sub" and v: "st_LeaseID v = leaseID (leaseSeq u + 1)"
    and none: "\<And>j l. fmlookup (leases u) j = Some l \<Longrightarrow> l_SubtaskID l = k \<Longrightarrow> l_State l \<noteq> LeaseActive"
    and l: "l_ID l = leaseID (leaseSeq u + 1)" "l_SubtaskID l = k" "l_FencingToken l = leaseSeq u + 1"
  shows "leases_wf (u\<lparr>fencingSeq := fencingSeq u + 1, leaseSeq := leaseSeq u + 1,
      leases := fmupd (leaseID (leaseSeq u + 1)) l (leases u),
      contexts := fmupd (leaseID (leaseSeq u + 1)) c (contexts u), subtasks := fmupd k v (subtasks u)\<rparr>)"
    (is "leases_wf ?t")
proof -
  note fresh = fresh_leaseID [OF wf bound]
  have seq: "0 \<le> leaseSeq u" and old: "\<And>j x. fmlookup (leases u) j = Some x \<Longrightarrow> l_FencingToken x \<le> leaseSeq u"
    using wf by (auto simp: leases_wf_def seqs_wf_def entries_wf_def)
  have "entries_wf ?t"
    using wf l sub by (fastforce simp: leases_wf_def entries_wf_def seqs_wf_def)
  moreover have "newest_wf (leases ?t)"
    unfolding newest_wf_def
  proof (intro allI impI)
    fix j x j' x'
    assume "fmlookup (leases ?t) j = Some x" "fmlookup (leases ?t) j' = Some x'"
      "l_SubtaskID x' = l_SubtaskID x" "l_State x = LeaseActive"
    then show "l_FencingToken x' \<le> l_FencingToken x"
      using wf l none old seq by (auto simp: leases_wf_def newest_wf_def less_imp_le split: if_splits)
  qed
  moreover have "owners_wf ?t"
    unfolding owners_wf_def
  proof (intro allI impI)
    fix j w assume "fmlookup (subtasks ?t) j = Some w" "st_LeaseID w \<noteq> []"
    with wf v l fresh show "\<exists>x. fmlookup (leases ?t) (st_LeaseID w) = Some x \<and> l_SubtaskID x = j"
      by (cases "j = k") (force simp: leases_wf_def owners_wf_def)+
  qed
  ultimately show ?thesis using wf bound by (simp add: leases_wf_def seqs_wf_def)
qed

subsection \<open>Budgets\<close>

lemma budgets_wfD:
  assumes "budgets_wf s"
  shows "fmlookup (budgets s) k = Some a \<Longrightarrow> account_wf (budgetHolds s) k a"
    and "fmlookup (budgetHolds s) k = Some h \<Longrightarrow> hold_wf s k h"
    and "fmlookup (missions s) k = None \<Longrightarrow> fmlookup (budgets s) k = None"
  using assms by (auto simp: budgets_wf_def)

lemma budgets_wfI:
  assumes "\<And>k a. fmlookup (budgets s) k = Some a \<Longrightarrow> fmlookup (missions s) k \<noteq> None"
    and "\<And>k a. fmlookup (budgets s) k = Some a \<Longrightarrow> account_wf (budgetHolds s) k a"
    and "\<And>k h. fmlookup (budgetHolds s) k = Some h \<Longrightarrow> hold_wf s k h"
  shows "budgets_wf s"
  using assms by (auto simp: budgets_wf_def)

lemma budgets_wf_mission:
  "budgets_wf u \<Longrightarrow> budgets_wf (u\<lparr>missions := fmupd k m (missions u)\<rparr>)"
  by (auto simp: budgets_wf_def hold_wf_def)

lemma budgets_wf_subtask:
  assumes wf: "budgets_wf u" and S: "S = subtasks u"
    and v: "\<And>old. fmlookup S k = Some old \<Longrightarrow> st_MissionID v = st_MissionID old"
  shows "budgets_wf (u\<lparr>subtasks := fmupd k v S\<rparr>)"
proof (rule budgets_wfI)
  fix j h assume "fmlookup (budgetHolds (u\<lparr>subtasks := fmupd k v S\<rparr>)) j = Some h"
  then have "hold_wf u j h" using budgets_wfD(2) [OF wf] by simp
  then show "hold_wf (u\<lparr>subtasks := fmupd k v S\<rparr>) j h" using v S by (auto simp: hold_wf_def)
qed (use budgets_wfD [OF wf] in \<open>auto, fastforce\<close>)

lemma held_none:
  assumes wf: "budgets_wf u" and none: "fmlookup (budgets u) m = None"
  shows "held (budgetHolds u) m = 0"
  unfolding held_def
proof (rule sum.neutral, rule ballI)
  fix k assume "k \<in> fset (fmdom (budgetHolds u))"
  then obtain h where h: "fmlookup (budgetHolds u) k = Some h" by (auto simp: fmlookup_dom_iff)
  with budgets_wfD(2) [OF wf h] none show "hold_part m (the (fmlookup (budgetHolds u) k)) = 0"
    by (auto simp: hold_wf_def hold_part_def)
qed

lemma budgets_wf_open:
  assumes wf: "budgets_wf u" and "fmlookup (missions u) m \<noteq> None" and none: "fmlookup (budgets u) m = None"
    and "in_int64 n" "0 < n"
  shows "budgets_wf (u\<lparr>budgets := fmupd m \<lparr>ba_MissionID = m, ba_Metered = True, ba_Total = n, ba_Held = 0,
      ba_Spent = 0, ba_Available = n, ba_Version = 0, ba_UpdatedAt = now\<rparr> (budgets u)\<rparr>)" (is "budgets_wf ?t")
proof (rule budgets_wfI)
  fix k a assume "fmlookup (budgets ?t) k = Some a"
  then show "account_wf (budgetHolds ?t) k a"
    using assms held_none [OF wf none] budgets_wfD(1) [OF wf]
    by (cases "k = m") (force simp: account_wf_def)+
next
  fix k h assume "fmlookup (budgetHolds ?t) k = Some h"
  then show "hold_wf ?t k h" using budgets_wfD(2) [OF wf] by (auto simp: hold_wf_def)
qed (use assms budgets_wfD(3) [OF wf] in \<open>auto split: if_splits, fastforce\<close>)

text \<open>
  The accounting identity behind the three operations on holds: an account and the hold that moves
  change together, so the sum over all holds follows.
\<close>

lemma account_int64:
  assumes "budgets_wf u" "fmlookup (budgets u) m = Some a"
  shows "in_int64 (ba_Total a)" "0 \<le> ba_Held a" "0 \<le> ba_Spent a" "ba_Held a + ba_Spent a \<le> ba_Total a"
    "ba_Held a = held (budgetHolds u) m" "ba_MissionID a = m"
    "ba_Available a = ba_Total a - ba_Held a - ba_Spent a"
  using budgets_wfD(1) [OF assms] held_nonneg [OF assms(1), of m] by (auto simp: account_wf_def)

lemma available_eq:
  assumes "in_int64 (ba_Total a)" "0 \<le> ba_Held a" "0 \<le> ba_Spent a" "ba_Held a + ba_Spent a \<le> ba_Total a"
  shows "available a = ba_Total a - ba_Held a - ba_Spent a"
proof -
  have "in_int64 (ba_Total a - ba_Held a)" "in_int64 (ba_Total a - ba_Held a - ba_Spent a)"
    using assms by (auto simp: in_int64_def)
  then show ?thesis by (simp add: available_def wrap64_id)
qed

lemma budgets_wf_move:
  assumes wf: "budgets_wf u" and acc: "fmlookup (budgets u) m = Some a" and h: "hold_wf u k h" "h_MissionID h = m"
    and old: "case fmlookup (budgetHolds u) k of None \<Rightarrow> d = hold_part m h
      | Some h' \<Rightarrow> h_MissionID h' = m \<and> d = hold_part m h - hold_part m h'"
    and b: "ba_MissionID b = m" "ba_Total b = ba_Total a" "ba_Held b = ba_Held a + d" "0 \<le> ba_Spent b"
      "ba_Held b + ba_Spent b \<le> ba_Total b" "ba_Available b = ba_Total b - ba_Held b - ba_Spent b"
  shows "budgets_wf (u\<lparr>budgets := fmupd m b (budgets u), budgetHolds := fmupd k h (budgetHolds u)\<rparr>)"
proof (rule budgets_wfI)
  let ?t = "u\<lparr>budgets := fmupd m b (budgets u), budgetHolds := fmupd k h (budgetHolds u)\<rparr>"
  let ?H = "fmupd k h (budgetHolds u)"
  have other: "held ?H j = held (budgetHolds u) j" if "j \<noteq> m" for j
    using old h(2) that by (auto simp: held_upd hold_part_def split: option.splits)
  have mine: "held ?H m = ba_Held b"
    using account_int64(5) [OF wf acc] old b(3) by (auto simp: held_upd split: option.splits)
  fix j x assume j: "fmlookup (budgets ?t) j = Some x"
  then show "account_wf (budgetHolds ?t) j x"
    using account_int64 [OF wf acc] b mine other budgets_wfD(1) [OF wf, of j x]
    by (cases "j = m") (auto simp: account_wf_def)
  from j acc budgets_wfD(3) [OF wf, of j] show "fmlookup (missions ?t) j \<noteq> None"
    by (cases "j = m") auto
next
  let ?t = "u\<lparr>budgets := fmupd m b (budgets u), budgetHolds := fmupd k h (budgetHolds u)\<rparr>"
  fix j x assume "fmlookup (budgetHolds ?t) j = Some x"
  then show "hold_wf ?t j x"
    using h budgets_wfD(2) [OF wf, of j x] by (cases "j = k") (auto simp: hold_wf_def)
qed

lemma budgets_wf_settle:
  assumes wf: "budgets_wf u" and sub: "fmlookup (subtasks u) (st_ID sub) = Some x" "st_MissionID x = st_MissionID sub"
    and "in_int64 usage"
  shows "budgets_wf (snd (settleBudgetHoldLocked sub usage actor now u))"
proof (cases "fmlookup (budgetHolds u) (st_ID sub)")
  case None
  then show ?thesis using wf by (simp add: settleBudgetHoldLocked_def)
next
  case (Some h)
  then have h: "hold_wf u (st_ID sub) h" using wf by (simp add: budgets_wf_def)
  then have m: "h_MissionID h = st_MissionID sub" using sub by (auto simp: hold_wf_def)
  show ?thesis
  proof (cases "h_Status h = BudgetHoldHeld")
    case False
    then show ?thesis using wf Some by (simp add: settleBudgetHoldLocked_def)
  next
    case True
    obtain a where a: "fmlookup (budgets u) (st_MissionID sub) = Some a"
      using h m by (auto simp: hold_wf_def)
    note acc = account_int64 [OF wf a]
    have le: "h_Amount h \<le> ba_Held a"
      using held_ge [OF wf Some True m] acc by simp
    have pos: "0 < h_Amount h" using h by (simp add: hold_wf_def)
    have w: "wrap64 (ba_Held a - h_Amount h) = ba_Held a - h_Amount h"
      "wrap64 (ba_Total a - ba_Spent a) = ba_Total a - ba_Spent a"
      "wrap64 (ba_Total a - ba_Spent a - (ba_Held a - h_Amount h)) = ba_Total a - ba_Spent a - (ba_Held a - h_Amount h)"
      using acc le pos by (auto intro!: wrap64_id simp: in_int64_def)
    have w2: "wrap64 (ba_Spent a + usage) = ba_Spent a + usage"
      if "0 \<le> usage" "usage \<le> ba_Total a - ba_Spent a - (ba_Held a - h_Amount h)"
      using acc le pos that by (intro wrap64_id) (auto simp: in_int64_def)
    show ?thesis
      using Some True a w w2 acc le
      by (auto simp: settleBudgetHoldLocked_def Let_def not_less
          intro!: budgets_wf_move [OF wf a] wf split: if_splits)
        (use h m pos acc in \<open>auto simp: hold_wf_def hold_part_def available_eq\<close>)
  qed
qed

end
