(* ===== verification/MemReach.thy ===== *)
theory MemReach
  imports MemWf
begin

text \<open>
  The runs of the in-memory store. \<open>mem_step\<close> has one rule per state-changing method of the store
  interface, for any arguments that satisfy what the service layer guarantees its callers: fresh
  subtasks carry new ids and no lease, amounts are 64-bit integers, and the callback of a generic
  transition only touches fields other than identity, state and version. \<open>reachable\<close> is what runs
  from \<open>New\<close> reach.
\<close>

section \<open>What the service layer guarantees\<close>

definition fresh_subtasks :: "Mission \<Rightarrow> Subtask list \<Rightarrow> Store \<Rightarrow> bool" where
  "fresh_subtasks m subs s \<longleftrightarrow> distinct (map st_ID subs)
     \<and> list_all (\<lambda>sub. fmlookup (subtasks s) (st_ID sub) = None \<and> st_MissionID sub = m_ID m \<and> st_LeaseID sub = '''') subs"

definition mutate_ok :: "(Subtask \<Rightarrow> error option \<times> Subtask) option \<Rightarrow> bool" where
  "mutate_ok mutate \<longleftrightarrow> (\<forall>f sub. mutate = Some f \<longrightarrow> fst (f sub) = None
     \<and> st_ID (snd (f sub)) = st_ID sub \<and> st_MissionID (snd (f sub)) = st_MissionID sub
     \<and> st_State (snd (f sub)) = st_State sub \<and> st_Version (snd (f sub)) = st_Version sub
     \<and> st_LeaseID (snd (f sub)) \<in> {st_LeaseID sub, ''''})"

section \<open>Steps and runs\<close>

inductive mem_step :: "Store \<Rightarrow> Store \<Rightarrow> bool" where
  step_AppendEvent: "mem_step s (snd (AppendEvent e s))"
| step_PutIdempotent: "mem_step s (snd (PutIdempotent key result s))"
| step_CreateMission: "fresh_subtasks m subs s \<Longrightarrow> in_int64 (m_BudgetTokens m)
    \<Longrightarrow> mem_step s (snd (CreateMission m subs actor now s))"
| step_SetMissionStatus: "mem_step s (snd (SetMissionStatus ident st version actor now s))"
| step_TransitionSubtask: "mutate_ok mutate
    \<Longrightarrow> mem_step s (snd (TransitionSubtask ident ev version actor pl now mutate s))"
| step_UpsertAgent: "mem_step s (snd (UpsertAgent a now s))"
| step_HeartbeatAgent: "mem_step s (snd (HeartbeatAgent ident now s))"
| step_MarkAgentHealth: "mem_step s (snd (MarkAgentHealth ident health s))"
| step_OfferLease: "leaseSeq s + 1 < lease_ids
    \<Longrightarrow> mem_step s (snd (OfferLease ord digest ident agentID version ttl actor now s))"
| step_AcceptLease: "mem_step s (snd (AcceptLease lid tok version actor now s))"
| step_RenewLease: "mem_step s (snd (RenewLease lid tok ttl now s))"
| step_ExpireLeases: "mem_step s (snd (ExpireLeases ord now s))"
| step_StartSubtask: "mem_step s (snd (StartSubtask ident tok version actor now s))"
| step_CompleteSubtask: "mem_step s (snd (CompleteSubtask ident tok key ref version actor now s))"
| step_CompleteSubtaskWithUsage: "in_int64 usage
    \<Longrightarrow> mem_step s (snd (CompleteSubtaskWithUsage ident tok key ref usage version actor now s))"
| step_FailSubtask: "mem_step s (snd (FailSubtask ident tok reason version actor now s))"
| step_BlockSubtask: "mem_step s (snd (BlockSubtask ident tok version actor now s))"
| step_CancelSubtask: "mem_step s (snd (CancelSubtask ident version actor now s))"
| step_SpawnSubtask: "st_LeaseID child = '''' \<Longrightarrow> in_int64 (BudgetTokens (st_Scheduling child))
    \<Longrightarrow> mem_step s (snd (SpawnSubtask key parentID tok version child actor now s))"
| step_IngestLeadInbox: "mem_step s (snd (IngestLeadInbox itemID lead tok version mode actor now s))"
| step_SaveLeadSnapshot: "mem_step s (snd (SaveLeadSnapshot lead tok version val ttl actor now s))"
| step_TakeoverStaleLeads: "mem_step s (snd (TakeoverStaleLeads ord now s))"
| step_SuspendSubtask: "mem_step s (snd (SuspendSubtask ident tok version wake ckpt actor now s))"
| step_WakeSubtask: "mem_step s (snd (WakeSubtask ident version actor now s))"
| step_ExpireWakes: "mem_step s (snd (ExpireWakes ord now s))"
| step_SaveCheckpoint: "mem_step s (snd (SaveCheckpoint ident tok ckpt s))"
| step_CreateDecision: "mem_step s (snd (CreateDecision d now s))"
| step_CreateDecisionAndBlock: "mem_step s (snd (CreateDecisionAndBlock d version otok actor now s))"
| step_ResolveDecision: "mem_step s (snd (ResolveDecision ident choice rationale decider now s))"
| step_ExpireDecisions: "mem_step s (snd (ExpireDecisions ord now s))"
| step_BoardPut: "mem_step s (snd (BoardPut b version now s))"
| step_PutArtifact: "mem_step s (snd (PutArtifact art now s))"
| step_ApplyReputationSignal: "mem_step s (snd (StoreApplyReputationSignal sig now s))"
| step_RecordQuality: "mem_step s (snd (RecordQuality q sigs actor now s))"
| step_CreateQualityAppeal: "mem_step s (snd (CreateQualityAppeal ap actor now s))"
| step_ResolveQualityAppeal: "mem_step s (snd (StoreResolveQualityAppeal ident status resolution reviewer actor now s))"
| step_PutMeterRecord: "mem_step s (snd (PutMeterRecord mt now s))"

inductive reaches :: "Store \<Rightarrow> Store \<Rightarrow> bool" where
  reaches_refl: "reaches s s"
| reaches_step: "reaches s t \<Longrightarrow> mem_step t u \<Longrightarrow> reaches s u"

definition reachable :: "Store \<Rightarrow> bool" where
  "reachable s \<longleftrightarrow> reaches New s"

end
