(* ===== verification/MemInvariants.thy ===== *)
theory MemInvariants
  imports MemReach
begin

text \<open>
  The contract between the writes of the in-memory store and its methods. \<open>store_invariant\<close> lists
  the writes a property has to survive; inside it every method is shown, once, to keep any such
  property, so a new invariant of the store only has to be checked against the writes.
\<close>

locale store_invariant =
  fixes P :: "Store \<Rightarrow> bool"
  assumes P_wf: "P u \<Longrightarrow> store_wf u"
    and P_event: "P u \<Longrightarrow> P (appendEventLocked ag mi ty pl ac now u)"
    and P_agent: "P u \<Longrightarrow> A = agents u \<Longrightarrow> a_ID a = k \<Longrightarrow> P (u\<lparr>agents := fmupd k a A\<rparr>)"
    and P_free: "P u \<Longrightarrow> P (u\<lparr>board := B\<rparr>)" "P u \<Longrightarrow> P (u\<lparr>appeals := V\<rparr>)" "P u \<Longrightarrow> P (u\<lparr>repSignals := G\<rparr>)"
    and P_reputation: "P u \<Longrightarrow> R = reputations u
      \<Longrightarrow> r = ApplyReputationSignal
            (case fmlookup R key of None \<Rightarrow> NewReputation agent skill | Some old \<Rightarrow> old) sig now
      \<Longrightarrow> P (u\<lparr>reputations := fmupd key r R\<rparr>)"
    and P_subtask: "P u \<Longrightarrow> S = subtasks u
      \<Longrightarrow> (case fmlookup S k of None \<Rightarrow> st_ID v = k \<and> st_LeaseID v = ''''
           | Some old \<Rightarrow> subtask_le old v \<and> st_LeaseID v \<in> {st_LeaseID old, ''''})
      \<Longrightarrow> P (u\<lparr>subtasks := fmupd k v S\<rparr>)"
    and P_lease: "P u \<Longrightarrow> L = leases u
      \<Longrightarrow> (case fmlookup L k of None \<Rightarrow> False | Some old \<Rightarrow> l_State old = LeaseActive \<and> lease_le old l)
      \<Longrightarrow> P (u\<lparr>leases := fmupd k l L\<rparr>)"
    and P_mission: "P u \<Longrightarrow> M = missions u
      \<Longrightarrow> (case fmlookup M k of None \<Rightarrow> m_ID m = k | Some old \<Rightarrow> mission_le old m)
      \<Longrightarrow> P (u\<lparr>missions := fmupd k m M\<rparr>)"
    and P_decision: "P u \<Longrightarrow> D = decisions u
      \<Longrightarrow> (case fmlookup D k of None \<Rightarrow> d_ID d = k | Some old \<Rightarrow> decision_le old d)
      \<Longrightarrow> P (u\<lparr>decisions := fmupd k d D\<rparr>)"
    and P_inbox: "P u \<Longrightarrow> N = leadInbox u
      \<Longrightarrow> (case fmlookup N k of None \<Rightarrow> i_ID i = k | Some old \<Rightarrow> inbox_le old i)
      \<Longrightarrow> P (u\<lparr>leadInbox := fmupd k i N\<rparr>)"
    and P_idem: "P u \<Longrightarrow> I = idem u \<Longrightarrow> fmlookup I k = None \<Longrightarrow> P (u\<lparr>idem := fmupd k x I\<rparr>)"
    and P_artifact: "P u \<Longrightarrow> F = artifacts u \<Longrightarrow> fmlookup F k = None \<Longrightarrow> art_ID art = k
      \<Longrightarrow> P (u\<lparr>artifacts := fmupd k art F\<rparr>)"
    and P_quality: "P u \<Longrightarrow> Q = quality u \<Longrightarrow> fmlookup Q k = None \<Longrightarrow> q_ArtifactID q = k
      \<Longrightarrow> P (u\<lparr>quality := fmupd k q Q\<rparr>)"
    and P_meter: "P u \<Longrightarrow> T = meters u \<Longrightarrow> fmlookup T k = None \<Longrightarrow> mt_ID mt = k
      \<Longrightarrow> P (u\<lparr>meters := fmupd k mt T\<rparr>)"
    and P_open: "P u \<Longrightarrow> fmlookup (missions u) k \<noteq> None \<Longrightarrow> U = budgets u \<Longrightarrow> fmlookup U k = None
      \<Longrightarrow> in_int64 n \<Longrightarrow> 0 < n \<Longrightarrow> P (u\<lparr>budgets := fmupd k \<lparr>ba_MissionID = k, ba_Metered = True, ba_Total = n,
            ba_Held = 0, ba_Spent = 0, ba_Available = n, ba_Version = 0, ba_UpdatedAt = now\<rparr> U\<rparr>)"
    and P_hold: "P u \<Longrightarrow> fmlookup (budgetHolds u) (st_ID c) = None
      \<Longrightarrow> fmlookup (budgets u) (st_MissionID c) = Some acc
      \<Longrightarrow> (case fmlookup (subtasks u) (st_ID c) of None \<Rightarrow> False | Some x \<Rightarrow> st_MissionID x = st_MissionID c)
      \<Longrightarrow> 0 < BudgetTokens (st_Scheduling c) \<Longrightarrow> BudgetTokens (st_Scheduling c) \<le> available acc
      \<Longrightarrow> P (placeHold acc c ac now u)"
    and P_settle: "P u
      \<Longrightarrow> (case fmlookup (subtasks u) (st_ID sub) of None \<Rightarrow> False | Some x \<Rightarrow> st_MissionID x = st_MissionID sub)
      \<Longrightarrow> in_int64 usage \<Longrightarrow> P (snd (settleBudgetHoldLocked sub usage ac now u))"
    and P_release: "P u
      \<Longrightarrow> (case fmlookup (subtasks u) (st_ID sub) of None \<Rightarrow> False | Some x \<Rightarrow> st_MissionID x = st_MissionID sub)
      \<Longrightarrow> P (releaseBudgetHoldLocked sub reason ac now u)"
    and P_bump: "P u \<Longrightarrow> leaseSeq u + 1 < lease_ids
      \<Longrightarrow> P (u\<lparr>fencingSeq := fencingSeq u + 1, leaseSeq := leaseSeq u + 1\<rparr>)"
    and P_offer: "P u \<Longrightarrow> leaseSeq u + 1 < lease_ids \<Longrightarrow> fmlookup (subtasks u) k = Some sub
      \<Longrightarrow> Apply (st_State sub) EvLeaseOffered = Inr nxt
      \<Longrightarrow> (\<And>j l. fmlookup (leases u) j = Some l \<Longrightarrow> l_SubtaskID l = k \<Longrightarrow> l_State l \<noteq> LeaseActive)
      \<Longrightarrow> l_ID l = leaseID (leaseSeq u + 1) \<Longrightarrow> l_SubtaskID l = k \<Longrightarrow> l_FencingToken l = fencingSeq u + 1
      \<Longrightarrow> P (u\<lparr>fencingSeq := fencingSeq u + 1, leaseSeq := leaseSeq u + 1,
            leases := fmupd (leaseID (leaseSeq u + 1)) l (leases u),
            contexts := fmupd (leaseID (leaseSeq u + 1)) pkg (contexts u),
            subtasks := fmupd k (sub\<lparr>st_State := StateOffered, st_Assignee := agentID,
              st_LeaseID := leaseID (leaseSeq u + 1), st_Version := st_Version sub + 1\<rparr>) (subtasks u)\<rparr>)"
begin

lemmas writes = P_event P_agent P_free P_reputation P_subtask P_lease P_mission P_decision P_inbox P_idem
  P_artifact P_quality P_meter P_open P_hold P_release

lemma keys:
  assumes "P u"
  shows "fmlookup (subtasks u) k = Some sub \<Longrightarrow> st_ID sub = k" "fmlookup (agents u) k = Some a \<Longrightarrow> a_ID a = k"
  using P_wf [OF assms] by (auto simp: store_wf_def keys_wf_def dest: keyed_byD)

lemma putMeter: "P u \<Longrightarrow> P (putMeterLocked m now u)"
  by (auto simp: putMeterLocked_def PriceMeter_def Let_def intro!: writes split: option.splits)

lemma running: "P u \<Longrightarrow> P (decRunning ag u)" "P u \<Longrightarrow> P (incRunning ag u)" "P u \<Longrightarrow> P (suspectAgent ag u)"
  by (auto simp: decRunning_def incRunning_def suspectAgent_def Let_def keys intro!: writes split: option.splits)

lemma releaseLease:
  "P u \<Longrightarrow> fmlookup (leases u) k = Some l \<Longrightarrow> l_State l = LeaseActive \<Longrightarrow> P (releaseLeaseLocked k l u)"
  by (auto simp: releaseLeaseLocked_def lease_le_release intro!: writes running)

lemma releaseActive: "P u \<Longrightarrow> P (releaseActiveLease sub u)"
  by (auto simp: releaseActiveLease_def intro!: releaseLease split: option.splits)

lemma enqueue: "P u \<Longrightarrow> P (enqueueLeadInbox sub r now u)"
  by (auto simp: enqueueLeadInbox_def Let_def intro!: writes split: option.splits)

lemmas helpers = putMeter running releaseLease releaseActive enqueue

lemma tasks:
  assumes "P s"
  shows "P (snd (AppendEvent e s))" "P (snd (PutIdempotent key result s))"
    "P (snd (SetMissionStatus ident st version actor now s))"
    "P (snd (UpsertAgent a now s))" "P (snd (HeartbeatAgent ident now s))"
    "P (snd (MarkAgentHealth ident health s))"
  using assms
  by (auto simp: AppendEvent_def PutIdempotent_def SetMissionStatus_def UpsertAgent_def HeartbeatAgent_def
      MarkAgentHealth_def Let_def mission_le_def keys intro!: writes split: option.splits)

lemma created_subtasks:
  assumes "P u" "distinct (map st_ID subs)"
    and "list_all (\<lambda>sub. fmlookup (subtasks u) (st_ID sub) = None \<and> st_LeaseID sub = '''') subs"
  shows "P (fold (created_subtask m actor now) subs u)"
  using assms
proof (induction subs arbitrary: u)
  case (Cons a subs)
  have "P (created_subtask m actor now a u)"
    using Cons.prems by (auto simp: created_subtask_def intro!: writes)
  moreover have "list_all (\<lambda>sub. fmlookup (subtasks (created_subtask m actor now a u)) (st_ID sub) = None
      \<and> st_LeaseID sub = '''') subs"
    using Cons.prems by (auto simp: list_all_iff created_subtask_def)
  ultimately show ?case using Cons by simp
qed simp

lemma CreateMission:
  assumes "P s" "fresh_subtasks m subs s" "in_int64 (m_BudgetTokens m)"
  shows "P (snd (CreateMission m subs actor now s))"
proof -
  have "fmlookup (budgets s) (m_ID m) = None" if "fmlookup (missions s) (m_ID m) = None"
    using P_wf [OF assms(1)] that by (simp add: store_wf_def budgets_wfD(3))
  with assms show ?thesis
    by (auto simp: CreateMission_def Let_def fresh_subtasks_def list_all_iff intro!: created_subtasks writes
        split: option.splits)
qed

lemma TransitionSubtask:
  assumes "P s" "mutate_ok mutate"
  shows "P (snd (TransitionSubtask ident ev version actor pl now mutate s))"
proof (cases mutate)
  case None
  then show ?thesis
    using assms by (auto simp: TransitionSubtask_def Let_def intro!: writes subtask_le_step
      split: option.splits sum.splits)
next
  case (Some f)
  have f: "fst (f sub) = None" "st_ID (snd (f sub)) = st_ID sub" "st_MissionID (snd (f sub)) = st_MissionID sub"
    "st_State (snd (f sub)) = st_State sub" "st_Version (snd (f sub)) = st_Version sub"
    "st_LeaseID (snd (f sub)) = st_LeaseID sub \<or> st_LeaseID (snd (f sub)) = ''''" for sub
    using assms(2) Some by (auto simp: mutate_ok_def)
  have "subtask_le sub (snd (f (sub\<lparr>st_State := x\<rparr>))\<lparr>st_Version := st_Version sub + 1\<rparr>)"
    if "Apply (st_State sub) ev = Inr x" for sub x
    by (rule subtask_le_step [OF that]) (simp_all add: f)
  then show ?thesis
    using assms Some f(6) [of "sub\<lparr>st_State := x\<rparr>" for sub x]
    by (auto simp: TransitionSubtask_def Let_def prod_eq_iff f intro!: writes
        split: option.splits sum.splits prod.splits)
qed

lemma leases:
  assumes "P s"
  shows "P (snd (AcceptLease lid tok version actor now s))" "P (snd (RenewLease lid tok ttl now s))"
  using assms
  by (auto simp: AcceptLease_def RenewLease_def Let_def subtask_le_def intro!: writes lease_le_extend
      dest: Apply_moves split: option.splits sum.splits)

lemma exec:
  assumes "P s"
  shows "P (snd (StartSubtask ident tok version actor now s))" "P (snd (BlockSubtask ident tok version actor now s))"
  using assms
  by (auto simp: StartSubtask_def BlockSubtask_def Let_def checkFencing_Inr subtask_le_def
      intro!: writes dest: Apply_moves split: option.splits sum.splits)

lemma fail:
  assumes "P s"
  shows "P (snd (FailSubtask ident tok reason version actor now s))"
  using assms
  by (auto simp: FailSubtask_def Let_def checkFencing_Inr keys subtask_le_def intro!: writes helpers
      dest: Apply_moves split: option.splits sum.splits)

lemma cancel:
  assumes "P s"
  shows "P (snd (CancelSubtask ident version actor now s))"
  using assms
  by (auto simp: CancelSubtask_def Let_def keys subtask_le_def intro!: writes helpers
      dest: Apply_moves split: option.splits sum.splits)

lemma completeSubtask:
  assumes "P s" "in_int64 usage"
  shows "P (snd (completeSubtask ident tok key ref usage version actor now s))"
proof -
  have settle: "P t" "subtasks t = subtasks s" "leases t = leases s" "idem t = idem s"
    if "settleBudgetHoldLocked sub usage actor now s = (r, t)" "fmlookup (subtasks s) ident = Some sub" for sub r t
    using P_settle [of s sub usage actor now] assms that keys(1) [OF assms(1) that(2)]
      settleBudgetHoldLocked_frame [OF that(1)] by auto
  show ?thesis
    using assms
    by (auto simp: completeSubtask_def Let_def checkFencing_Inr settle subtask_le_def intro!: writes helpers
        dest: Apply_moves split: option.splits sum.splits prod.splits)
qed

lemma fold_snd:
  fixes f :: "'k \<Rightarrow> 'n \<times> Store \<Rightarrow> 'n \<times> Store"
  assumes "P s" and "\<And>k n u. P u \<Longrightarrow> P (snd (f k (n, u)))"
  shows "P (snd (fold f ks (n, s)))"
proof (rule fold_inv [where I = "\<lambda>p. P (snd p)"])
  fix k and p :: "'n \<times> Store" assume "P (snd p)"
  with assms(2) [of "snd p" k "fst p"] show "P (snd (f k p))" by simp
qed (use assms in simp)

lemma expire_lease: "P u \<Longrightarrow> P (snd (expire_lease now k (n, u)))"
  by (auto simp: expire_lease_def Let_def Apply_def lease_le_release
      intro!: writes helpers subtask_le_step [where ev = EvLeaseExpired] split: option.splits)

lemma expire_wake: "P u \<Longrightarrow> P (snd (expire_wake now k (n, u)))"
  by (auto simp: expire_wake_def clear_wake_def Let_def subtask_le_def absorbing_def
      intro!: writes advances_move [OF wake_timeout] split: option.splits)

lemma expire_decision: "P u \<Longrightarrow> P (snd (expire_decision now k (n, u)))"
  by (auto simp: expire_decision_def timed_out_def Let_def decision_le_def intro!: writes split: option.splits)

lemma sweeps:
  assumes "P s"
  shows "P (snd (ExpireLeases ord now s))" "P (snd (ExpireWakes ord now s))" "P (snd (ExpireDecisions ord now s))"
  using fold_snd [where f = "expire_lease now", OF assms expire_lease]
    fold_snd [where f = "expire_wake now", OF assms expire_wake]
    fold_snd [where f = "expire_decision now", OF assms expire_decision]
  by (simp_all add: ExpireLeases_def ExpireWakes_def ExpireDecisions_def case_prod_unfold Let_def)

lemma takeover_lead: "P u \<Longrightarrow> P (snd (takeover_lead now k out u))"
  by (auto simp: takeover_lead_def Let_def lease_le_release subtask_le_def intro!: writes helpers
      dest: Apply_moves split: option.splits sum.splits)

lemma TakeoverStaleLeads:
  assumes "P s"
  shows "P (snd (TakeoverStaleLeads ord now s))"
proof -
  have "P t \<Longrightarrow> P (snd (takeover_loop now ks out t))" for ks out t
  proof (induction ks arbitrary: out t)
    case (Cons k ks)
    show ?case
      unfolding takeover_loop.simps
      by (rule and_then_inv) (use Cons takeover_lead in auto)
  qed simp
  with assms show ?thesis by (simp add: TakeoverStaleLeads_def)
qed

lemma SpawnSubtask:
  assumes "P s" "st_LeaseID child = ''''" "in_int64 (BudgetTokens (st_Scheduling child))"
  shows "P (snd (SpawnSubtask key parentID tok version child actor now s))"
proof -
  have "fmlookup (budgetHolds s) (st_ID child) = None" if "fmlookup (subtasks s) (st_ID child) = None"
    using budgets_wfD(2) [of s "st_ID child"] P_wf [OF assms(1)] that
    by (cases "fmlookup (budgetHolds s) (st_ID child)") (auto simp: store_wf_def hold_wf_def)
  with assms show ?thesis
    by (auto simp: SpawnSubtask_def Let_def intro!: writes split: option.splits sum.splits)
qed

lemma lead:
  assumes "P s"
  shows "P (snd (IngestLeadInbox itemID lead tok version mode actor now s))"
    "P (snd (SaveLeadSnapshot lead tok version val ttl actor now s))"
  using assms
  by (auto simp: IngestLeadInbox_def SaveLeadSnapshot_def Let_def checkFencing_Inr inbox_le_def keys
      intro!: writes lease_le_extend split: option.splits sum.splits)

lemma wakes:
  assumes "P s"
  shows "P (snd (SuspendSubtask ident tok version wake ckpt actor now s))"
    "P (snd (WakeSubtask ident version actor now s))"
  using assms
  by (auto simp: SuspendSubtask_def WakeSubtask_def clear_wake_def Let_def checkFencing_Inr subtask_le_def
      intro!: writes helpers  dest: Apply_moves split: option.splits sum.splits)

lemma SaveCheckpoint: "P s \<Longrightarrow> P (snd (SaveCheckpoint ident tok ckpt s))"
  by (auto simp: SaveCheckpoint_def subtask_le_def absorbing_def intro!: writes split: option.splits sum.splits)

lemma decisions:
  assumes "P s"
  shows "P (snd (CreateDecision d now s))" "P (snd (CreateDecisionAndBlock d version otok actor now s))"
    "P (snd (ResolveDecision ident choice rationale decider now s))"
  using assms
  by (auto simp: CreateDecision_def CreateDecisionAndBlock_def ResolveDecision_def Let_def decision_le_def subtask_le_def
      intro!: writes dest: Apply_moves split: option.splits sum.splits)

lemma signal: "P s \<Longrightarrow> P (snd (applyReputationSignalLocked sig now s))"
  by (auto simp: applyReputationSignalLocked_def Let_def intro!: writes split: option.splits)

lemma RecordQuality:
  assumes "P s"
  shows "P (snd (RecordQuality q sigs actor now s))"
proof -
  have one: "P (snd (apply_signal now sig u))" if "P u" for sig u
    using signal [OF that, of sig now] by (auto simp: apply_signal_def split: prod.splits sum.splits)
  have each: "P (snd (for_each (apply_signal now) sigs u))" if "P u" for u
    using that one by (rule for_each_inv)
  have rest: "P (snd (and_then (for_each (apply_signal now) sigs u) (\<lambda>_ s. (Inr x, appendEventLocked ag mi ty pl ac now (putMeterLocked m now s)))))"
    if "P u" for u x ag mi ty pl ac m
    by (rule and_then_inv) (use that each in \<open>auto intro!: writes helpers\<close>)
  with assms show ?thesis
    by (auto simp: RecordQuality_def Let_def intro!: P_quality rest)
qed

lemma boards:
  assumes "P s"
  shows "P (snd (BoardPut b version now s))" "P (snd (PutArtifact art now s))"
    "P (snd (StoreApplyReputationSignal sig now s))" "P (snd (CreateQualityAppeal ap actor now s))"
    "P (snd (StoreResolveQualityAppeal ident status resolution reviewer actor now s))"
    "P (snd (PutMeterRecord mt now s))"
  using assms signal [of s sig now]
  by (auto simp: BoardPut_def PutArtifact_def StoreApplyReputationSignal_def CreateQualityAppeal_def
      StoreResolveQualityAppeal_def PutMeterRecord_def Let_def intro!: writes helpers split: option.splits)


lemma OfferLease:
  assumes "P s" "leaseSeq s + 1 < lease_ids"
  shows "P (snd (OfferLease ord digest ident agentID version ttl actor now s))"
  using assms P_bump [OF assms]
  by (auto simp: OfferLease_def Let_def any_value_iff split: option.splits sum.splits
      intro!: P_event running P_offer)

lemmas operations = tasks CreateMission TransitionSubtask leases exec fail cancel completeSubtask sweeps
  TakeoverStaleLeads SpawnSubtask lead wakes SaveCheckpoint decisions RecordQuality boards OfferLease

lemma step: "mem_step s t \<Longrightarrow> P s \<Longrightarrow> P t"
  by (induction rule: mem_step.induct)
    (simp_all add: operations CompleteSubtask_def CompleteSubtaskWithUsage_def in_int64_def)

lemma run: "reaches s t \<Longrightarrow> P s \<Longrightarrow> P t"
  by (induction rule: reaches.induct) (auto intro: step)

end

end
