(* ===== verification/MemSafety.thy ===== *)
theory MemSafety
  imports MemInvariants
begin

text \<open>
  The store invariants on the model: well-formedness, the history order and the reputation bounds
  survive every write, hence every run.
\<close>

lemma store_wf_New: "store_wf New"
  by (simp add: store_wf_def New_def keys_wf_def log_wf_def lease_parts budgets_wf_def lease_ids_def)

lemma wf_placeHold:
  assumes wf: "budgets_wf u" and none: "fmlookup (budgetHolds u) (st_ID c) = None"
    and acc: "fmlookup (budgets u) (st_MissionID c) = Some acc"
    and sub: "case fmlookup (subtasks u) (st_ID c) of None \<Rightarrow> False | Some x \<Rightarrow> st_MissionID x = st_MissionID c"
    and amount: "0 < BudgetTokens (st_Scheduling c)" "BudgetTokens (st_Scheduling c) \<le> available acc"
  shows "budgets_wf (placeHold acc c ac now u)"
proof -
  note a = account_int64 [OF wf acc]
  have av: "available acc = ba_Total acc - ba_Held acc - ba_Spent acc"
    by (rule available_eq) (use a in auto)
  have w: "wrap64 (ba_Held acc + BudgetTokens (st_Scheduling c)) = ba_Held acc + BudgetTokens (st_Scheduling c)"
    using a amount av by (intro wrap64_id) (auto simp: in_int64_def)
  have commute: "u\<lparr>budgetHolds := H, budgets := B\<rparr> = u\<lparr>budgets := B, budgetHolds := H\<rparr>" for H B by simp
  show ?thesis
    using a av w amount none sub acc
    by (auto simp: placeHold_def Let_def commute intro!: budgets_wf_move [OF wf acc] split: option.splits)
      (auto simp: hold_wf_def hold_part_def available_eq)
qed

lemma wf_release:
  assumes wf: "budgets_wf u"
    and sub: "case fmlookup (subtasks u) (st_ID sub) of None \<Rightarrow> False | Some x \<Rightarrow> st_MissionID x = st_MissionID sub"
  shows "budgets_wf (releaseBudgetHoldLocked sub reason ac now u)"
proof (cases "fmlookup (budgetHolds u) (st_ID sub)")
  case None
  then show ?thesis using wf by (simp add: releaseBudgetHoldLocked_def)
next
  case (Some h)
  show ?thesis
  proof (cases "h_Status h = BudgetHoldHeld")
    case False
    then show ?thesis using wf Some by (simp add: releaseBudgetHoldLocked_def)
  next
    case True
    have h: "hold_wf u (st_ID sub) h" by (rule budgets_wfD(2) [OF wf Some])
    with sub have m: "h_MissionID h = st_MissionID sub" by (auto simp: hold_wf_def)
    obtain a where a: "fmlookup (budgets u) (st_MissionID sub) = Some a"
      using h m by (auto simp: hold_wf_def)
    note acc = account_int64 [OF wf a]
    have le: "h_Amount h \<le> ba_Held a" using held_ge [OF wf Some True m] acc by simp
    have pos: "0 < h_Amount h" using h by (simp add: hold_wf_def)
    have w: "wrap64 (ba_Held a - h_Amount h) = ba_Held a - h_Amount h"
      using acc le pos by (auto intro!: wrap64_id simp: in_int64_def)
    show ?thesis
      using Some True a w acc le
      by (auto simp: releaseBudgetHoldLocked_def Let_def intro!: budgets_wf_move [OF wf a] split: if_splits)
        (use h m pos acc in \<open>auto simp: hold_wf_def hold_part_def available_eq\<close>)
  qed
qed

lemma log_wf_holds:
  "log_wf u \<Longrightarrow> log_wf (placeHold acc c ac now u)" "log_wf u \<Longrightarrow> log_wf (releaseBudgetHoldLocked sub r ac now u)"
  "log_wf u \<Longrightarrow> log_wf (snd (settleBudgetHoldLocked sub usage ac now u))"
  by (auto simp: placeHold_def releaseBudgetHoldLocked_def settleBudgetHoldLocked_def Let_def
      intro!: log_wf_event split: option.splits)

lemma parts_holds [simp]:
  "keys_wf (placeHold acc c ac now u) = keys_wf u" "leases_wf (placeHold acc c ac now u) = leases_wf u"
  "keys_wf (releaseBudgetHoldLocked sub r ac now u) = keys_wf u"
  "leases_wf (releaseBudgetHoldLocked sub r ac now u) = leases_wf u"
  "keys_wf (snd (settleBudgetHoldLocked sub usage ac now u)) = keys_wf u"
  "leases_wf (snd (settleBudgetHoldLocked sub usage ac now u)) = leases_wf u"
  by (auto simp: placeHold_def releaseBudgetHoldLocked_def settleBudgetHoldLocked_def Let_def
      split: option.splits)

lemma keys_wfD:
  assumes "keys_wf u"
  shows "fmlookup (missions u) k = Some m \<Longrightarrow> m_ID m = k" "fmlookup (subtasks u) k = Some sub \<Longrightarrow> st_ID sub = k"
    "fmlookup (decisions u) k = Some d \<Longrightarrow> d_ID d = k" "fmlookup (leadInbox u) k = Some i \<Longrightarrow> i_ID i = k"
  using assms by (auto simp: keys_wf_def dest: keyed_byD)

interpretation well: store_invariant store_wf
proof unfold_locales
  fix u S k and v :: Subtask
  assume "store_wf u" "S = subtasks u" and v: "case fmlookup S k of None \<Rightarrow> st_ID v = k \<and> st_LeaseID v = ''''
           | Some old \<Rightarrow> subtask_le old v \<and> st_LeaseID v \<in> {st_LeaseID old, ''''}"
  then show "store_wf (u\<lparr>subtasks := fmupd k v S\<rparr>)"
    using keys_wfD(2) [of u k]
    by (cases "fmlookup S k") (auto simp: store_wf_def subtask_le_def intro!: keys_wf_writes leases_wf_subtask budgets_wf_subtask)
next
  fix u L k and l :: Lease
  assume "store_wf u" "L = leases u"
    "case fmlookup L k of None \<Rightarrow> False | Some old \<Rightarrow> l_State old = LeaseActive \<and> lease_le old l"
  then show "store_wf (u\<lparr>leases := fmupd k l L\<rparr>)"
    by (cases "fmlookup L k") (auto simp: store_wf_def intro!: leases_wf_lease)
next
  fix u M k and m :: Mission
  assume "store_wf u" "M = missions u" "case fmlookup M k of None \<Rightarrow> m_ID m = k | Some old \<Rightarrow> mission_le old m"
  then show "store_wf (u\<lparr>missions := fmupd k m M\<rparr>)"
    using keys_wfD(1) [of u k]
    by (cases "fmlookup M k") (auto simp: store_wf_def mission_le_def intro!: keys_wf_writes budgets_wf_mission
        dest: arg_cong [where f = m_ID])
next
  fix u D k and d :: Decision
  assume "store_wf u" "D = decisions u" "case fmlookup D k of None \<Rightarrow> d_ID d = k | Some old \<Rightarrow> decision_le old d"
  then show "store_wf (u\<lparr>decisions := fmupd k d D\<rparr>)"
    using keys_wfD(3) [of u k]
    by (cases "fmlookup D k") (auto simp: store_wf_def decision_le_def intro!: keys_wf_writes)
next
  fix u N k and i :: LeadInboxItem
  assume "store_wf u" "N = leadInbox u" "case fmlookup N k of None \<Rightarrow> i_ID i = k | Some old \<Rightarrow> inbox_le old i"
  then show "store_wf (u\<lparr>leadInbox := fmupd k i N\<rparr>)"
    using keys_wfD(4) [of u k]
    by (cases "fmlookup N k") (auto simp: store_wf_def inbox_le_def intro!: keys_wf_writes)
next
  fix u usage ac now and sub :: Subtask
  assume "store_wf u" "in_int64 usage"
    "case fmlookup (subtasks u) (st_ID sub) of None \<Rightarrow> False | Some x \<Rightarrow> st_MissionID x = st_MissionID sub"
  then show "store_wf (snd (settleBudgetHoldLocked sub usage ac now u))"
    by (cases "fmlookup (subtasks u) (st_ID sub)") (auto simp: store_wf_def log_wf_holds intro!: budgets_wf_settle)
next
  fix u k nxt pkg agentID and sub :: Subtask and l :: Lease
  assume "store_wf u" "leaseSeq u + 1 < lease_ids" "fmlookup (subtasks u) k = Some sub"
    "\<And>j l. fmlookup (leases u) j = Some l \<Longrightarrow> l_SubtaskID l = k \<Longrightarrow> l_State l \<noteq> LeaseActive"
    "l_ID l = leaseID (leaseSeq u + 1)" "l_SubtaskID l = k" "l_FencingToken l = fencingSeq u + 1"
  then show "store_wf (u\<lparr>fencingSeq := fencingSeq u + 1, leaseSeq := leaseSeq u + 1,
            leases := fmupd (leaseID (leaseSeq u + 1)) l (leases u),
            contexts := fmupd (leaseID (leaseSeq u + 1)) pkg (contexts u),
            subtasks := fmupd k (sub\<lparr>st_State := StateOffered, st_Assignee := agentID,
              st_LeaseID := leaseID (leaseSeq u + 1), st_Version := st_Version sub + 1\<rparr>) (subtasks u)\<rparr>)"
    using keys_wfD(2) [of u k sub]
    by (auto simp: store_wf_def intro!: keys_wf_writes leases_wf_offer budgets_wf_subtask)
      (auto simp: leases_wf_def seqs_wf_def)
qed (auto simp: store_wf_def log_wf_event log_wf_holds wf_placeHold wf_release budgets_wf_open
      intro!: keys_wf_writes leases_wf_bump)

section \<open>The history order\<close>

lemma history_offer:
  assumes "history s u" and wf: "store_wf u" and bound: "leaseSeq u + 1 < lease_ids"
    and sub: "fmlookup (subtasks u) k = Some sub" and ev: "Apply (st_State sub) EvLeaseOffered = Inr nxt"
  shows "history s (u\<lparr>fencingSeq := fencingSeq u + 1, leaseSeq := leaseSeq u + 1,
      leases := fmupd (leaseID (leaseSeq u + 1)) l (leases u), contexts := C,
      subtasks := fmupd k (sub\<lparr>st_State := StateOffered, st_Assignee := agentID,
        st_LeaseID := leaseID (leaseSeq u + 1), st_Version := st_Version sub + 1\<rparr>) (subtasks u)\<rparr>)"
  using assms fresh_leaseID [of u] Apply_moves(1) [OF ev]
  by (auto simp: store_wf_def subtask_le_def intro!: hist)

interpretation past: store_invariant "\<lambda>t. store_wf t \<and> history s t" for s
proof unfold_locales
  fix u S k and v :: Subtask
  assume "store_wf u \<and> history s u" "S = subtasks u" "case fmlookup S k of None \<Rightarrow> st_ID v = k \<and> st_LeaseID v = ''''
           | Some old \<Rightarrow> subtask_le old v \<and> st_LeaseID v \<in> {st_LeaseID old, ''''}"
  then show "store_wf (u\<lparr>subtasks := fmupd k v S\<rparr>) \<and> history s (u\<lparr>subtasks := fmupd k v S\<rparr>)"
    using well.P_subtask [of u S v k] by (auto intro!: hist split: option.splits)
next
  fix u L k and l :: Lease
  assume "store_wf u \<and> history s u" "L = leases u"
    "case fmlookup L k of None \<Rightarrow> False | Some old \<Rightarrow> l_State old = LeaseActive \<and> lease_le old l"
  then show "store_wf (u\<lparr>leases := fmupd k l L\<rparr>) \<and> history s (u\<lparr>leases := fmupd k l L\<rparr>)"
    using well.P_lease [of u L l k] by (auto intro!: hist split: option.splits)
next
  fix u M k and m :: Mission
  assume "store_wf u \<and> history s u" "M = missions u" "case fmlookup M k of None \<Rightarrow> m_ID m = k | Some old \<Rightarrow> mission_le old m"
  then show "store_wf (u\<lparr>missions := fmupd k m M\<rparr>) \<and> history s (u\<lparr>missions := fmupd k m M\<rparr>)"
    using well.P_mission [of u M m k] by (auto intro!: hist split: option.splits)
next
  fix u D k and d :: Decision
  assume "store_wf u \<and> history s u" "D = decisions u" "case fmlookup D k of None \<Rightarrow> d_ID d = k | Some old \<Rightarrow> decision_le old d"
  then show "store_wf (u\<lparr>decisions := fmupd k d D\<rparr>) \<and> history s (u\<lparr>decisions := fmupd k d D\<rparr>)"
    using well.P_decision [of u D d k] by (auto intro!: hist split: option.splits)
next
  fix u N k and i :: LeadInboxItem
  assume "store_wf u \<and> history s u" "N = leadInbox u" "case fmlookup N k of None \<Rightarrow> i_ID i = k | Some old \<Rightarrow> inbox_le old i"
  then show "store_wf (u\<lparr>leadInbox := fmupd k i N\<rparr>) \<and> history s (u\<lparr>leadInbox := fmupd k i N\<rparr>)"
    using well.P_inbox [of u N i k] by (auto intro!: hist split: option.splits)
next
  fix u usage ac now and sub :: Subtask
  assume "store_wf u \<and> history s u" "in_int64 usage"
    "case fmlookup (subtasks u) (st_ID sub) of None \<Rightarrow> False | Some x \<Rightarrow> st_MissionID x = st_MissionID sub"
  then show "store_wf (snd (settleBudgetHoldLocked sub usage ac now u))
      \<and> history s (snd (settleBudgetHoldLocked sub usage ac now u))"
    using well.P_settle [of u sub usage ac now] history_settle [of s u sub usage ac now]
    by (simp add: prod_eq_iff)
next
  fix u k nxt pkg agentID and sub :: Subtask and l :: Lease
  assume a: "store_wf u \<and> history s u" "leaseSeq u + 1 < lease_ids" "fmlookup (subtasks u) k = Some sub"
    "Apply (st_State sub) EvLeaseOffered = Inr nxt"
    "\<And>j l. fmlookup (leases u) j = Some l \<Longrightarrow> l_SubtaskID l = k \<Longrightarrow> l_State l \<noteq> LeaseActive"
    "l_ID l = leaseID (leaseSeq u + 1)" "l_SubtaskID l = k" "l_FencingToken l = fencingSeq u + 1"
  let ?t = "u\<lparr>fencingSeq := fencingSeq u + 1, leaseSeq := leaseSeq u + 1,
            leases := fmupd (leaseID (leaseSeq u + 1)) l (leases u),
            contexts := fmupd (leaseID (leaseSeq u + 1)) pkg (contexts u),
            subtasks := fmupd k (sub\<lparr>st_State := StateOffered, st_Assignee := agentID,
              st_LeaseID := leaseID (leaseSeq u + 1), st_Version := st_Version sub + 1\<rparr>) (subtasks u)\<rparr>"
  have "store_wf ?t" by (rule well.P_offer) (use a in auto)
  moreover have "history s ?t" by (rule history_offer) (use a in auto)
  ultimately show "store_wf ?t \<and> history s ?t" ..
qed (auto simp: well.P_event well.P_agent well.P_free well.P_reputation well.P_idem well.P_artifact
      well.P_quality well.P_meter well.P_open well.P_hold well.P_release well.P_bump intro!: hist)

section \<open>Reputations\<close>

definition reputations_ok :: "Store \<Rightarrow> bool" where
  "reputations_ok s \<longleftrightarrow> fmpred (\<lambda>_ r. reputation_inv r \<and> scores_bounded r) (reputations s)"

lemma reputations_okD:
  "reputations_ok s \<Longrightarrow> fmlookup (reputations s) k = Some r \<Longrightarrow> reputation_inv r \<and> scores_bounded r"
  by (auto simp: reputations_ok_def)

lemma reputations_ok_cong: "reputations t = reputations s \<Longrightarrow> reputations_ok s \<Longrightarrow> reputations_ok t"
  by (simp add: reputations_ok_def)

interpretation rated: store_invariant "\<lambda>t. store_wf t \<and> reputations_ok t"
proof unfold_locales
  fix u R r key agent skill sig now
  assume "store_wf u \<and> reputations_ok u" "R = reputations u"
    "r = ApplyReputationSignal
       (case fmlookup R key of None \<Rightarrow> NewReputation agent skill | Some old \<Rightarrow> old) sig now"
  then show "store_wf (u\<lparr>reputations := fmupd key r R\<rparr>) \<and> reputations_ok (u\<lparr>reputations := fmupd key r R\<rparr>)"
    by (auto simp: reputations_ok_def well.P_reputation intro!: ApplyReputationSignal_inv ApplyReputationSignal_bounded
        NewReputation_inv split: option.splits)
next
  fix u usage ac now and sub :: Subtask
  assume "store_wf u \<and> reputations_ok u" "in_int64 usage"
    "case fmlookup (subtasks u) (st_ID sub) of None \<Rightarrow> False | Some x \<Rightarrow> st_MissionID x = st_MissionID sub"
  then show "store_wf (snd (settleBudgetHoldLocked sub usage ac now u))
      \<and> reputations_ok (snd (settleBudgetHoldLocked sub usage ac now u))"
    using well.P_settle [of u sub usage ac now] settleBudgetHoldLocked_frame(14) [of sub usage ac now u]
    by (cases "settleBudgetHoldLocked sub usage ac now u") (auto simp: reputations_ok_def)
qed (auto intro: well.P_event well.P_agent well.P_free well.P_subtask well.P_lease well.P_mission well.P_decision
      well.P_inbox well.P_idem well.P_artifact well.P_quality well.P_meter well.P_open well.P_hold well.P_release
      well.P_bump well.P_offer elim!: reputations_ok_cong [rotated])

section \<open>Runs\<close>

lemma reachable_New: "reachable New"
  by (simp add: reachable_def reaches_refl)

lemma reachable_step: "reachable s \<Longrightarrow> mem_step s t \<Longrightarrow> reachable t"
  unfolding reachable_def by (rule reaches_step)

lemma reaches_trans: "reaches t u \<Longrightarrow> reaches s t \<Longrightarrow> reaches s u"
  by (induction rule: reaches.induct) (auto intro: reaches_step)

lemma reachable_run: "reachable s \<Longrightarrow> reaches s t \<Longrightarrow> reachable t"
  unfolding reachable_def by (rule reaches_trans)

lemma reachable_wf: "reachable s \<Longrightarrow> store_wf s"
  unfolding reachable_def using well.run store_wf_New by blast

lemma reachable_history: "reachable s \<Longrightarrow> reaches s t \<Longrightarrow> history s t"
  using past.run [of s t s] reachable_wf [of s] by simp

lemma reachable_reputations: "reachable s \<Longrightarrow> reputations_ok s"
  unfolding reachable_def
  using rated.run [of New s] store_wf_New by (simp add: reputations_ok_def New_def)

end
