(* ===== verification/Scenario.thy ===== *)
theory Scenario
  imports MemSafety
begin

text \<open>
  One concrete run of the store, from the empty store through the life of a small metered mission:
  registration, creation, activation, offer, acceptance, start, delegation, cancellation. Its states
  instantiate the hypotheses of the theorems about reachable states.
\<close>

definition ann :: Actor where "ann = \<lparr>ac_Kind = ''human'', ac_ID = ''ann''\<rparr>"
definition worker :: Actor where "worker = \<lparr>ac_Kind = ''agent'', ac_ID = ''agt_1''\<rparr>"

definition demo_agent :: Agent where
  "demo_agent = \<lparr>a_ID = ''agt_1'', a_Name = ''w'', a_Platform = ''p'', a_Endpoint = fmempty,
     a_Capabilities = [], a_MaxConcurrency = 2, a_Health = ''healthy'', a_LastHeartbeat = 0, a_Running = 0,
     a_TriggerScopes = [], a_AuthSubject = '''', a_Reputation = fmempty\<rparr>"

definition demo_mission :: Mission where
  "demo_mission = \<lparr>m_ID = ''msn_1'', m_Owner = ''ann'', m_Goal = ''ship'', m_BudgetTokens = 100,
     m_Status = MissionActive, m_Version = 0\<rparr>"

definition demo_task :: Subtask where
  "demo_task = zero_subtask\<lparr>st_ID := ''sub_a'', st_MissionID := ''msn_1'', st_Kind := KindAgent,
     st_State := StatePending\<rparr>"

definition demo_child :: Subtask where
  "demo_child = zero_subtask\<lparr>st_ID := ''sub_c'', st_MissionID := ''msn_1'', st_ParentID := ''sub_a'',
     st_Kind := KindAgent, st_Scheduling := \<lparr>Priority = 1, Deadline = None, BudgetTokens = 40, Exclusive = False\<rparr>\<rparr>"

definition demo_digest :: digest where "demo_digest = (\<lambda>_. Some ''h'')"

definition scn_created :: Store where
  "scn_created = snd (CreateMission demo_mission [demo_task] ann 10 (snd (UpsertAgent demo_agent 5 New)))"

definition scn_ready :: Store where
  "scn_ready = snd (TransitionSubtask ''sub_a'' EvDepsSatisfied 0 ann None 10 None scn_created)"

definition scn_offered :: Store where
  "scn_offered = snd (OfferLease sorted_list_of_fset demo_digest ''sub_a'' ''agt_1'' 1 30 ann 20 scn_ready)"

definition scn_leased :: Store where
  "scn_leased = snd (AcceptLease (leaseID 1) 1 2 worker 25 scn_offered)"

definition scn_running :: Store where
  "scn_running = snd (StartSubtask ''sub_a'' 1 3 worker 26 scn_leased)"

definition scn_spawned :: Store where
  "scn_spawned = snd (SpawnSubtask ''key_1'' ''sub_a'' 1 4 demo_child worker 27 scn_running)"

definition scn_done :: Store where
  "scn_done = snd (CompleteSubtaskWithUsage ''sub_a'' 1 ''done_1'' ''blob_1'' 7 4 worker 40 scn_spawned)"

definition scn_cancelled :: Store where
  "scn_cancelled = snd (CancelSubtask ''sub_a'' 4 ann 30 scn_spawned)"

lemmas scn_defs = scn_created_def scn_ready_def scn_offered_def scn_leased_def scn_running_def scn_spawned_def
  scn_done_def scn_cancelled_def

lemma reachable_created: "reachable scn_created"
proof -
  have "fresh_subtasks demo_mission [demo_task] (snd (UpsertAgent demo_agent 5 New))"
    by (simp add: fresh_subtasks_def demo_task_def demo_mission_def zero_subtask_def UpsertAgent_def New_def Let_def)
  then show ?thesis
    unfolding scn_created_def
    using step_CreateMission [of demo_mission "[demo_task]" "snd (UpsertAgent demo_agent 5 New)" ann 10]
      reachable_step [OF reachable_step [OF reachable_New step_UpsertAgent]]
    by (simp add: demo_mission_def in_int64_def)
qed

lemma scn_seq: "leaseSeq scn_ready + 1 < lease_ids"
  by code_simp

lemma reachable_ready: "reachable scn_ready"
  unfolding scn_ready_def
  by (rule reachable_step [OF reachable_created step_TransitionSubtask]) (simp add: mutate_ok_def)

lemma step_offered: "mem_step scn_ready scn_offered"
  unfolding scn_offered_def by (rule step_OfferLease [OF scn_seq])

lemma step_leased: "mem_step scn_offered scn_leased"
  unfolding scn_leased_def by (rule step_AcceptLease)

lemma step_running: "mem_step scn_leased scn_running"
  unfolding scn_running_def by (rule step_StartSubtask)

lemmas reachable_offered = reachable_step [OF reachable_ready step_offered]
lemmas reachable_leased = reachable_step [OF reachable_offered step_leased]
lemmas reachable_running = reachable_step [OF reachable_leased step_running]

lemma step_spawned: "mem_step scn_running scn_spawned"
  unfolding scn_spawned_def by (rule step_SpawnSubtask) (simp_all add: demo_child_def zero_subtask_def in_int64_def)

lemma reachable_spawned: "reachable scn_spawned"
  by (rule reachable_step [OF reachable_running step_spawned])

lemma step_done: "mem_step scn_spawned scn_done"
  unfolding scn_done_def by (rule step_CompleteSubtaskWithUsage) (simp add: in_int64_def)

lemma reachable_done: "reachable scn_done"
  by (rule reachable_step [OF reachable_spawned step_done])

lemma step_cancelled: "mem_step scn_spawned scn_cancelled"
  unfolding scn_cancelled_def by (rule step_CancelSubtask)

lemma reachable_cancelled: "reachable scn_cancelled"
  by (rule reachable_step [OF reachable_spawned step_cancelled])

lemma reaches_ready_cancelled: "reaches scn_ready scn_cancelled"
  by (rule reaches_step [OF reaches_step [OF reaches_step [OF reaches_step [OF reaches_step [OF reaches_refl
    step_offered] step_leased] step_running] step_spawned] step_cancelled])

text \<open>What the run looks like at its milestones.\<close>

definition scn_lease :: Lease where
  "scn_lease = \<lparr>l_ID = leaseID 1, l_SubtaskID = ''sub_a'', l_AgentID = ''agt_1'', l_FencingToken = 1,
     l_ExpiresAt = 50, l_State = LeaseActive, l_CreatedAt = 20\<rparr>"

lemma lease_offered: "fmlookup (leases scn_offered) (leaseID 1) = Some scn_lease"
  by code_simp

lemma lease_running: "fmlookup (leases scn_running) (leaseID 1) = Some scn_lease"
  by code_simp

lemma lease_cancelled:
  "fmlookup (leases scn_cancelled) (leaseID 1) = Some (scn_lease\<lparr>l_State := LeaseReleased\<rparr>)"
  by code_simp

lemma budget_spawned:
  "map_option ba_Held (fmlookup (budgets scn_spawned) ''msn_1'') = Some 40"
  "map_option ba_Available (fmlookup (budgets scn_spawned) ''msn_1'') = Some 60"
  by code_simp+

end
