(* ===== verification/LeaseProps.thy ===== *)
theory LeaseProps
  imports Scenario
begin

text \<open>
  Leases and fencing: what the well-formedness and the history of the store give for the leases of
  any reachable state.
\<close>

lemma lease_wfD:
  assumes "store_wf s" "fmlookup (leases s) k = Some l"
  shows "l_ID l = k" "k = leaseID (l_FencingToken l)" "1 \<le> l_FencingToken l" "l_FencingToken l \<le> leaseSeq s"
    "fmlookup (subtasks s) (l_SubtaskID l) \<noteq> None"
  using assms by (auto simp: store_wf_def leases_wf_def entries_wf_def)

lemma token_determines_lease:
  assumes "store_wf s" "fmlookup (leases s) k = Some l" "fmlookup (leases s) k' = Some l'"
    and "l_FencingToken l = l_FencingToken l'"
  shows "k = k' \<and> l = l'"
  using assms lease_wfD(2) [OF assms(1,2)] lease_wfD(2) [OF assms(1,3)] by simp

lemma active_newest:
  assumes "store_wf s" "fmlookup (leases s) k = Some l" "fmlookup (leases s) k' = Some l'"
    and "l_SubtaskID l' = l_SubtaskID l" "l_State l = LeaseActive"
  shows "l_FencingToken l' \<le> l_FencingToken l"
  using assms unfolding store_wf_def leases_wf_def newest_wf_def by blast

lemma fenced_owner:
  assumes "store_wf s" "fmlookup (subtasks s) k = Some sub" "checkFencingLocked sub tok s = Inr l"
  shows "l_SubtaskID l = k" "fmlookup (leases s) (st_LeaseID sub) = Some l" "l_State l = LeaseActive"
    "l_FencingToken l = tok"
  using assms by (auto simp: checkFencing_Inr store_wf_def leases_wf_def owners_wf_def dest!: spec [of _ k])

text \<open>A lease that is not ACTIVE is found unchanged in every later state.\<close>

lemma dead_lease_kept:
  assumes "reachable s" "reaches s t" "fmlookup (leases s) k = Some l" "l_State l \<noteq> LeaseActive"
  shows "fmlookup (leases t) k = Some l"
  using reachable_history [OF assms(1,2)] assms(3,4)
  by (auto simp: history_def lease_le_def dest: evolvesD)

lemma dead_token_rejected:
  assumes "store_wf t" "fmlookup (leases t) k = Some l" "l_State l \<noteq> LeaseActive"
  shows "checkFencingLocked sub (l_FencingToken l) t = Inl ErrFenced"
proof (cases "checkFencingLocked sub (l_FencingToken l) t")
  case (Inl e)
  then show ?thesis by (auto simp: checkFencingLocked_def split: if_splits option.splits)
next
  case (Inr l')
  then have "fmlookup (leases t) (st_LeaseID sub) = Some l'" "l_State l' = LeaseActive"
    "l_FencingToken l' = l_FencingToken l"
    by (auto simp: checkFencing_Inr)
  with token_determines_lease [OF assms(1,2)] assms(3) show ?thesis by metis
qed

lemma dead_token_not_active:
  assumes "store_wf t" "fmlookup (leases t) k = Some l" "l_State l \<noteq> LeaseActive"
    and "fmlookup (leases t) k' = Some l'"
  shows "l_State l' \<noteq> LeaseActive \<or> l_FencingToken l' \<noteq> l_FencingToken l"
  using token_determines_lease [OF assms(1,2,4)] assms(3) by auto

text \<open>An outcome that is an error and leaves the store as it was.\<close>

definition refused :: "('e + 'a) \<times> Store \<Rightarrow> Store \<Rightarrow> bool" where
  "refused r s \<longleftrightarrow> isl (fst r) \<and> snd r = s"

lemma refused_simps [simp]: "refused (Inl e, s) s" "\<not> refused (Inr a, s) t"
  by (simp_all add: refused_def)

text \<open>C17: Fencing. Once a lease has stopped being ACTIVE (released, expired or fenced by a takeover), then in
  every state the store can reach from there, every callback that presents its fencing token is refused with
  the store unchanged: accepting, renewing, starting, completing, failing, blocking, blocking on a decision ticket,
  suspending, saving a checkpoint, delegating a child, ingesting an inbox item and saving a Lead snapshot. A worker that lost its
  lease can never write again, even though its subtask has been leased to another agent since.\<close>

theorem zombie_fenced:
  assumes "reachable s" "fmlookup (leases s) k = Some l" "l_State l \<noteq> LeaseActive" "reaches s t"
    and "tok = l_FencingToken l"
  shows "refused (AcceptLease lid tok v actor now t) t \<and> refused (RenewLease lid tok ttl now t) t
    \<and> refused (StartSubtask ident tok v actor now t) t
    \<and> refused (CompleteSubtaskWithUsage ident tok key ref usage v actor now t) t
    \<and> refused (FailSubtask ident tok reason v actor now t) t
    \<and> refused (BlockSubtask ident tok v actor now t) t
    \<and> refused (CreateDecisionAndBlock d v (Some tok) actor now t) t
    \<and> refused (SuspendSubtask ident tok v wake ckpt actor now t) t
    \<and> refused (SaveCheckpoint ident tok ckpt t) t
    \<and> refused (SpawnSubtask key ident tok v child actor now t) t
    \<and> refused (IngestLeadInbox itemID ident tok v mode actor now t) t
    \<and> refused (SaveLeadSnapshot ident tok v val ttl actor now t) t"
proof -
  have wf: "store_wf t" using assms(1,4) reachable_run reachable_wf by blast
  have dead: "fmlookup (leases t) k = Some l" by (rule dead_lease_kept [OF assms(1,4,2,3)])
  have no: "checkFencingLocked sub tok t = Inl ErrFenced" for sub
    unfolding assms(5) by (rule dead_token_rejected [OF wf dead assms(3)])
  have no': "l_State l' \<noteq> LeaseActive \<or> l_FencingToken l' \<noteq> tok" if "fmlookup (leases t) k' = Some l'" for k' l'
    unfolding assms(5) by (rule dead_token_not_active [OF wf dead assms(3) that])
  have "refused (AcceptLease lid tok v actor now t) t" "refused (RenewLease lid tok ttl now t) t"
    using no' by (auto simp: AcceptLease_def RenewLease_def refused_def split: option.splits)
  moreover have "refused (StartSubtask ident tok v actor now t) t"
    "refused (CompleteSubtaskWithUsage ident tok key ref usage v actor now t) t"
    "refused (FailSubtask ident tok reason v actor now t) t"
    "refused (BlockSubtask ident tok v actor now t) t"
    "refused (CreateDecisionAndBlock d v (Some tok) actor now t) t"
    "refused (SuspendSubtask ident tok v wake ckpt actor now t) t"
    "refused (SaveCheckpoint ident tok ckpt t) t"
    "refused (SpawnSubtask key ident tok v child actor now t) t"
    "refused (IngestLeadInbox itemID ident tok v mode actor now t) t"
    "refused (SaveLeadSnapshot ident tok v val ttl actor now t) t"
    by (auto simp: StartSubtask_def CompleteSubtaskWithUsage_def completeSubtask_def FailSubtask_def
      BlockSubtask_def CreateDecisionAndBlock_def SuspendSubtask_def SaveCheckpoint_def SpawnSubtask_def IngestLeadInbox_def
      SaveLeadSnapshot_def no split: option.splits)
  ultimately show ?thesis by blast
qed

theorem zombie_fenced_witness:
  "refused (CompleteSubtaskWithUsage ''sub_a'' 1 ''k'' ''r'' 0 5 worker 60 scn_cancelled) scn_cancelled"
  using zombie_fenced [OF reachable_cancelled lease_cancelled _ reaches_refl, of 1] by (simp add: scn_lease_def)

text \<open>At most one agent owns a subtask. In every reachable state an ACTIVE lease is the only ACTIVE lease of
  its subtask, its fencing token is the newest among all leases the subtask ever had, and no other lease of the
  subtask has the same token.\<close>

theorem active_lease_unique:
  assumes "reachable s" "fmlookup (leases s) k = Some l" "l_State l = LeaseActive"
    and "fmlookup (leases s) k' = Some l'" "l_SubtaskID l' = l_SubtaskID l"
  shows "(l_State l' = LeaseActive \<longrightarrow> k' = k) \<and> l_FencingToken l' \<le> l_FencingToken l
    \<and> (l_FencingToken l' = l_FencingToken l \<longrightarrow> k' = k)"
proof -
  have wf: "store_wf s" by (rule reachable_wf [OF assms(1)])
  have le: "l_FencingToken l' \<le> l_FencingToken l" by (rule active_newest [OF wf assms(2,4,5,3)])
  have same: "k' = k" if "l_FencingToken l' = l_FencingToken l"
    using token_determines_lease [OF wf assms(4,2) that] by simp
  moreover have "l_FencingToken l \<le> l_FencingToken l'" if "l_State l' = LeaseActive"
    by (rule active_newest [OF wf assms(4,2) assms(5) [symmetric] that])
  ultimately show ?thesis using le by force
qed

theorem active_lease_unique_witness:
  "l_FencingToken scn_lease \<le> l_FencingToken scn_lease \<and> l_State scn_lease = LeaseActive"
  using active_lease_unique [OF reachable_running lease_running _ lease_running refl] by (simp add: scn_lease_def)

section \<open>Offers\<close>

lemma OfferLease_Inr:
  assumes "OfferLease ord digest ident agentID v ttl actor now s = (Inr l, t)"
  obtains sub pkg where "fmlookup (subtasks s) ident = Some sub" "st_Version sub = v" "st_State sub = StateReady"
    and "\<And>k l. fmlookup (leases s) k = Some l \<Longrightarrow> l_SubtaskID l = ident \<Longrightarrow> l_State l \<noteq> LeaseActive"
    and "l = \<lparr>l_ID = leaseID (leaseSeq s + 1), l_SubtaskID = ident, l_AgentID = agentID,
          l_FencingToken = fencingSeq s + 1, l_ExpiresAt = time_add now ttl, l_State = LeaseActive, l_CreatedAt = now\<rparr>"
    and "buildContextPackageLocked ord digest (l_ID l) sub now
          (s\<lparr>fencingSeq := fencingSeq s + 1, leaseSeq := leaseSeq s + 1\<rparr>) = Inr pkg"
    and "leases t = fmupd (l_ID l) l (leases s)" "contexts t = fmupd (l_ID l) pkg (contexts s)"
    and "subtasks t = fmupd ident (sub\<lparr>st_State := StateOffered, st_Assignee := agentID, st_LeaseID := l_ID l,
          st_Version := v + 1\<rparr>) (subtasks s)"
  using assms
  by (auto simp: OfferLease_def Let_def any_value_iff split: option.splits sum.splits if_splits dest!: Apply_cases)

lemma buildContext_fields:
  assumes "buildContextPackageLocked ord digest lid sub now s = Inr pkg"
  shows "cp_LeaseID pkg = lid" "cp_SubtaskID pkg = st_ID sub" "cp_MissionID pkg = st_MissionID sub"
    "set (cp_Artifacts pkg) \<subseteq> {a. \<exists>r \<in> set (ArtifactRefs (st_Grants sub)). fmlookup (artifacts s) r = Some a}"
  using BuildContextPackage_fields [OF assms [unfolded buildContextPackageLocked_def Let_def]]
  by (auto simp: set_map_filter_iff)

text \<open>A board view of the package: an entry of the mission's board that one of the grants names.\<close>

definition granted_view :: "Subtask \<Rightarrow> Store \<Rightarrow> ContextBoardEntry \<Rightarrow> bool" where
  "granted_view sub s view \<longleftrightarrow> (\<exists>grant \<in> set (BoardViews (st_Grants sub)). \<exists>k e. fmlookup (board s) k = Some e
     \<and> b_MissionID e = st_MissionID sub \<and> b_Namespace e = g_Namespace grant
     \<and> (g_Keys grant = [] \<or> b_Key e \<in> set (g_Keys grant)) \<and> cb_Mode view = g_Mode grant
     \<and> (cb_Namespace view, cb_Key view, cb_Value view, cb_Version view)
         = (b_Namespace e, b_Key e, b_Value e, b_Version e))"

lemma board_views_granted:
  assumes "valid_order ord"
  shows "fmpred (\<lambda>_. granted_view sub s) (board_views ord sub s)"
proof -
  have one: "fmpred (\<lambda>_. granted_view sub s) (view_entry sub grant e views)"
    if g: "grant \<in> set (BoardViews (st_Grants sub))" and e: "e \<in> set (map_values ord (board s))"
      and ok: "fmpred (\<lambda>_. granted_view sub s) views" for grant e and views :: "ContextBoardEntry table"
  proof -
    obtain k where k: "fmlookup (board s) k = Some e" using e by (auto simp: set_map_values [OF assms])
    have "granted_view sub s \<lparr>cb_Namespace = g_Namespace grant, cb_Key = b_Key e, cb_Value = b_Value e,
        cb_Version = b_Version e, cb_Mode = md\<rparr>"
      if "b_MissionID e = st_MissionID sub" "b_Namespace e = g_Namespace grant" "md = g_Mode grant"
        "g_Keys grant = [] \<or> b_Key e \<in> set (g_Keys grant)" for md
      unfolding granted_view_def
      by (rule bexI [OF _ g], rule exI [of _ k], rule exI [of _ e]) (use k that in simp)
    then show ?thesis using ok by (auto simp: view_entry_def Let_def intro!: fmpred_upd split: option.splits)
  qed
  show ?thesis
    unfolding board_views_def
    by (rule fold_inv [where I = "fmpred (\<lambda>_. granted_view sub s)"], simp,
        rule fold_inv [where I = "fmpred (\<lambda>_. granted_view sub s)"]) (auto intro: one)
qed

text \<open>C23: Least privilege of an offer. The context package stored with a successful offer belongs to that lease and
  subtask; its artifacts are artifacts of the same mission that the permission envelope of the subtask lists, its
  board views are current board entries of the mission that a grant of the envelope names, in the mode of that
  grant, and its decisions are decisions about the subtask itself.\<close>

theorem offer_context_least_privilege:
  assumes "valid_order ord" "OfferLease ord digest ident agentID v ttl actor now s = (Inr l, t)"
    and "fmlookup (subtasks s) ident = Some sub"
  shows "\<exists>pkg. fmlookup (contexts t) (l_ID l) = Some pkg \<and> cp_LeaseID pkg = l_ID l \<and> cp_SubtaskID pkg = st_ID sub
    \<and> (\<forall>a \<in> set (cp_Artifacts pkg). art_MissionID a = st_MissionID sub
         \<and> (\<exists>r \<in> set (ArtifactRefs (st_Grants sub)). fmlookup (artifacts s) r = Some a))
    \<and> (\<forall>view \<in> set (cp_BoardViews pkg). granted_view sub s view)
    \<and> (\<forall>d \<in> set (cp_Decisions pkg). \<exists>k e. fmlookup (decisions s) k = Some e
         \<and> d_SubtaskID e = st_ID sub \<and> d = context_decision e)"
  using assms(2)
proof (rule OfferLease_Inr)
  let ?u = "s\<lparr>fencingSeq := fencingSeq s + 1, leaseSeq := leaseSeq s + 1\<rparr>"
  fix sub' pkg
  assume "fmlookup (subtasks s) ident = Some sub'"
    and pkg: "buildContextPackageLocked ord digest (l_ID l) sub' now ?u = Inr pkg"
    and ctx: "contexts t = fmupd (l_ID l) pkg (contexts s)"
  then have [simp]: "sub' = sub" using assms(3) by simp
  note f = BuildContextPackage_fields [OF pkg [unfolded buildContextPackageLocked_def Let_def]]
  have "granted_view sub s view" if "view \<in> set (cp_BoardViews pkg)" for view
    using that board_views_granted [OF assms(1), of sub ?u]
    by (auto simp: f(6) set_map_values [OF assms(1)] granted_view_def)
  with f ctx show ?thesis
    by (auto simp: set_map_filter_iff set_map_values [OF assms(1)])
qed

lemma scn_offer:
  "OfferLease sorted_list_of_fset demo_digest ''sub_a'' ''agt_1'' 1 30 ann 20 scn_ready = (Inr scn_lease, scn_offered)"
proof (rule prod_eqI)
  show "fst (OfferLease sorted_list_of_fset demo_digest ''sub_a'' ''agt_1'' 1 30 ann 20 scn_ready)
      = fst (Inr scn_lease, scn_offered)"
    by code_simp
qed (simp add: scn_offered_def)

lemma task_ready:
  "fmlookup (subtasks scn_ready) ''sub_a'' = Some (demo_task\<lparr>st_State := StateReady, st_Version := 1\<rparr>)"
  by code_simp

theorem offer_context_least_privilege_witness:
  "\<exists>pkg. fmlookup (contexts scn_offered) (l_ID scn_lease) = Some pkg \<and> cp_SubtaskID pkg = ''sub_a''"
  using offer_context_least_privilege [OF valid_order_sorted scn_offer task_ready]
  by (auto simp: demo_task_def zero_subtask_def)

text \<open>What an offer does. A successful offer in a reachable state is made for a READY subtask at the version the
  scheduler read, with no ACTIVE lease; the new lease is ACTIVE until \<open>now + ttl\<close>, its fencing token is larger than
  every token handed out before, its id is new, and the subtask moves to OFFERED, points to it and names the agent.
  Other subtasks and leases keep their entries.\<close>

theorem offer_effect:
  assumes "reachable s" "leaseSeq s + 1 < lease_ids"
    and "OfferLease ord digest ident agentID v ttl actor now s = (Inr l, t)"
  shows "\<exists>sub. fmlookup (subtasks s) ident = Some sub \<and> st_Version sub = v \<and> st_State sub = StateReady
    \<and> (\<forall>k l'. fmlookup (leases s) k = Some l' \<longrightarrow> l_FencingToken l' < l_FencingToken l
         \<and> (l_SubtaskID l' = ident \<longrightarrow> l_State l' \<noteq> LeaseActive))
    \<and> fmlookup (leases s) (l_ID l) = None \<and> leases t = fmupd (l_ID l) l (leases s)
    \<and> l_State l = LeaseActive \<and> l_SubtaskID l = ident \<and> l_AgentID l = agentID \<and> l_ExpiresAt l = time_add now ttl
    \<and> subtasks t = fmupd ident (sub\<lparr>st_State := StateOffered, st_Assignee := agentID, st_LeaseID := l_ID l,
          st_Version := v + 1\<rparr>) (subtasks s)"
  using assms(3)
proof (rule OfferLease_Inr, goal_cases)
  case (1 sub pkg)
  have wf: "store_wf s" by (rule reachable_wf [OF assms(1)])
  then have seq: "fencingSeq s = leaseSeq s" by (simp add: store_wf_def leases_wf_def seqs_wf_def)
  have "l_FencingToken l' < l_FencingToken l" if "fmlookup (leases s) k = Some l'" for k l'
    using lease_wfD(4) [OF wf that] 1(5) seq by simp
  moreover have "fmlookup (leases s) (l_ID l) = None"
    using fresh_leaseID [of s] wf assms(2) 1(5) by (simp add: store_wf_def)
  ultimately show ?case using 1 by auto
qed

theorem offer_effect_witness:
  "leases scn_offered = fmupd (l_ID scn_lease) scn_lease (leases scn_ready)"
  using offer_effect [OF reachable_ready scn_seq scn_offer] by auto

end
