(* ===== verification/StoreProps.thy ===== *)
theory StoreProps
  imports LeaseProps
begin

text \<open>
  The promises of the store to the services above it: finished work is final, completion happens once,
  budgets balance, the event log can be paged, versions exclude each other, delegation stays inside the
  parent's rights and money.
\<close>

section \<open>Finality\<close>

lemma history_subtask:
  "history s t \<Longrightarrow> fmlookup (subtasks s) k = Some sub \<Longrightarrow> \<exists>sub'. fmlookup (subtasks t) k = Some sub' \<and> subtask_le sub sub'"
  by (auto simp: history_def dest: evolvesD)

lemma store_edges:
  "store_moves a ev b \<longleftrightarrow> Apply a ev = Inr b \<or> (a = StateWaiting \<and> ev = EvFailed \<and> b = StateFailed)"
  "store_moves StateFailed ev b \<longleftrightarrow> (ev, b) \<in> {(EvRetried, StateReady), (EvCancelled, StateCancelled)}"
  by (auto simp: store_moves_iff Apply_def split: if_splits)

text \<open>C20: The life of a subtask only moves forward. Between any two states of a run, a subtask keeps its identity and
  mission, its version never falls, its state changes only together with a higher version and only along the
  edges of \<open>store_moves\<close>: the transition table and one edge that is not in the table, WAITING to FAILED, which the wake sweep
  (\<open>ExpireWakes\<close>) writes. Once it is SUCCEEDED or CANCELLED its whole record, result reference included, is frozen; FAILED is
  not frozen, although the code calls it terminal: from it a subtask can be retried (READY) or cancelled, and nothing else.\<close>

theorem subtask_forward:
  assumes "reachable s" "reaches s t" "fmlookup (subtasks s) k = Some sub"
  shows "\<exists>sub'. fmlookup (subtasks t) k = Some sub' \<and> st_ID sub' = k \<and> st_MissionID sub' = st_MissionID sub
    \<and> st_Version sub \<le> st_Version sub'
    \<and> (\<exists>es. follows store_moves (st_State sub) es (st_State sub'))
    \<and> (st_State sub' \<noteq> st_State sub \<longrightarrow> st_Version sub < st_Version sub')
    \<and> (st_State sub = StateSucceeded \<or> st_State sub = StateCancelled \<longrightarrow> sub' = sub)
    \<and> (\<forall>a ev b. store_moves a ev b \<longleftrightarrow> Apply a ev = Inr b \<or> (a = StateWaiting \<and> ev = EvFailed \<and> b = StateFailed))
    \<and> (\<forall>ev b. store_moves StateFailed ev b \<longleftrightarrow> (ev, b) \<in> {(EvRetried, StateReady), (EvCancelled, StateCancelled)})"
proof -
  obtain sub' where sub': "fmlookup (subtasks t) k = Some sub'" "subtask_le sub sub'"
    using history_subtask [OF reachable_history [OF assms(1,2)] assms(3)] by blast
  moreover have "st_ID sub' = k"
    using reachable_wf [OF reachable_run [OF assms(1,2)]] sub'(1) using keys_wfD(2) [of t k sub'] by (simp add: store_wf_def)
  ultimately have "st_ID sub' = k \<and> st_MissionID sub' = st_MissionID sub \<and> st_Version sub \<le> st_Version sub'
    \<and> (\<exists>es. follows store_moves (st_State sub) es (st_State sub'))
    \<and> (st_State sub' \<noteq> st_State sub \<longrightarrow> st_Version sub < st_Version sub')
    \<and> (st_State sub = StateSucceeded \<or> st_State sub = StateCancelled \<longrightarrow> sub' = sub)"
    by (auto simp: subtask_le_def advances_def absorbing_def)
  then show ?thesis
    using sub'(1) store_edges by (intro exI [of _ sub'] conjI allI; (elim conjE)?; assumption?) metis+
qed

theorem subtask_forward_witness:
  "\<exists>sub. fmlookup (subtasks scn_cancelled) ''sub_a'' = Some sub \<and> 1 \<le> st_Version sub
    \<and> (\<exists>es. follows store_moves StateReady es (st_State sub))"
  using subtask_forward [OF reachable_ready reaches_ready_cancelled task_ready] by auto

section \<open>Completion\<close>

lemma settle_Inr:
  assumes "settleBudgetHoldLocked sub usage ac now s = (Inr u, t)"
  shows "subtasks t = subtasks s" "leases t = leases s" "idem t = idem s" "leadInbox t = leadInbox s"
  using settleBudgetHoldLocked_frame [OF assms] by simp_all

lemma completeSubtask_Inr:
  assumes "completeSubtask ident tok key ref usage v actor now s = (Inr sub', t)"
  obtains sub l where "fmlookup (subtasks s) ident = Some sub" "fmlookup (idem s) key = None" "st_Version sub = v"
    and "st_State sub = StateRunning" "checkFencingLocked sub tok s = Inr l"
    and "sub' = sub\<lparr>st_State := StateSucceeded, st_ResultRef := ref, st_Version := v + 1\<rparr>"
    and "fmlookup (subtasks t) ident = Some sub'" "fmlookup (idem t) key = Some ref"
    and "fmlookup (leases t) (st_LeaseID sub) = Some (l\<lparr>l_State := LeaseReleased\<rparr>)"
    and "fst (settleBudgetHoldLocked sub usage actor now s) = Inr ()"
  using assms
  by (auto simp: completeSubtask_def Let_def settle_Inr split: option.splits sum.splits prod.splits if_splits
      dest!: Apply_cases)

text \<open>C18: A result is delivered exactly once. If a completion succeeds in a reachable state, the subtask was RUNNING at
  the expected version under the caller's ACTIVE lease and the idempotency key was new; then in every later state the
  subtask is SUCCEEDED with exactly this result, the lease is RELEASED, the key holds the result, and repeating the
  callback, or any completion with this key whatever its other arguments, is answered \<open>ErrDuplicate\<close> and changes
  nothing.\<close>

theorem complete_once:
  assumes "reachable s" "in_int64 usage"
    and "CompleteSubtaskWithUsage ident tok key ref usage v actor now s = (Inr sub', t)" and "reaches t u"
  shows "(\<exists>sub l. fmlookup (subtasks s) ident = Some sub \<and> st_State sub = StateRunning \<and> st_Version sub = v
      \<and> fmlookup (idem s) key = None \<and> l_FencingToken l = tok \<and> l_State l = LeaseActive \<and> l_SubtaskID l = ident
      \<and> fmlookup (leases u) (l_ID l) = Some (l\<lparr>l_State := LeaseReleased\<rparr>))
    \<and> st_State sub' = StateSucceeded \<and> st_ResultRef sub' = ref
    \<and> fmlookup (subtasks u) ident = Some sub' \<and> fmlookup (idem u) key = Some ref
    \<and> CompleteSubtaskWithUsage ident tok' key ref' usage' v' actor' now' u = (Inl (ErrDuplicate, Some sub'), u)"
proof -
  have t: "t = snd (CompleteSubtaskWithUsage ident tok key ref usage v actor now s)" using assms(3) by simp
  have rt: "reachable t" unfolding t by (rule reachable_step [OF assms(1) step_CompleteSubtaskWithUsage [OF assms(2)]])
  have hist: "history t u" by (rule reachable_history [OF rt assms(4)])
  show ?thesis
    using assms(3) [unfolded CompleteSubtaskWithUsage_def]
  proof (rule completeSubtask_Inr)
    fix sub l
    assume a: "fmlookup (subtasks s) ident = Some sub" "fmlookup (idem s) key = None" "st_Version sub = v"
      "st_State sub = StateRunning" "checkFencingLocked sub tok s = Inr l"
      "sub' = sub\<lparr>st_State := StateSucceeded, st_ResultRef := ref, st_Version := v + 1\<rparr>"
      "fmlookup (subtasks t) ident = Some sub'" "fmlookup (idem t) key = Some ref"
      "fmlookup (leases t) (st_LeaseID sub) = Some (l\<lparr>l_State := LeaseReleased\<rparr>)"
    note own = fenced_owner [OF reachable_wf [OF assms(1)] a(1,5)]
    have id: "st_LeaseID sub = l_ID l" using lease_wfD(1) [OF reachable_wf [OF assms(1)] own(2)] by simp
    have "fmlookup (subtasks u) ident = Some sub'"
      using history_subtask [OF hist a(7)] a(6) by (auto simp: subtask_le_def absorbing_def)
    moreover have "fmlookup (idem u) key = Some ref"
      using hist a(8) by (auto simp: history_def dest: evolvesD)
    moreover have "fmlookup (leases u) (l_ID l) = Some (l\<lparr>l_State := LeaseReleased\<rparr>)"
      using dead_lease_kept [OF rt assms(4) a(9)] id by simp
    ultimately show ?thesis
      using a own by (auto simp: CompleteSubtaskWithUsage_def completeSubtask_def)
  qed
qed

lemma done_ok: "fst (CompleteSubtaskWithUsage ''sub_a'' 1 ''done_1'' ''blob_1'' 7 4 worker 40 scn_spawned) =
    Inr (demo_task\<lparr>st_State := StateSucceeded, st_Version := 5, st_ResultRef := ''blob_1'', st_LeaseID := leaseID 1,
      st_Assignee := ''agt_1''\<rparr>)"
proof -
  have "fmlookup (subtasks scn_spawned) ''sub_a'' = Some (demo_task\<lparr>st_State := StateRunning, st_Version := 4,
      st_LeaseID := leaseID 1, st_Assignee := ''agt_1''\<rparr>)"
    "fmlookup (leases scn_spawned) (leaseID 1) = Some scn_lease" "fmlookup (idem scn_spawned) ''done_1'' = None"
    "fmlookup (budgetHolds scn_spawned) ''sub_a'' = None"
    by code_simp+
  then show ?thesis
    by (simp add: CompleteSubtaskWithUsage_def completeSubtask_def checkFencingLocked_def settleBudgetHoldLocked_def
        scn_lease_def Apply_def demo_task_def zero_subtask_def Let_def)
qed

theorem complete_once_witness:
  "CompleteSubtaskWithUsage ''sub_a'' 9 ''done_1'' ''other'' 3 0 ann 99 scn_done
     = (Inl (ErrDuplicate, Some (demo_task\<lparr>st_State := StateSucceeded, st_Version := 5, st_ResultRef := ''blob_1'',
          st_LeaseID := leaseID 1, st_Assignee := ''agt_1''\<rparr>)), scn_done)"
proof -
  let ?sub = "demo_task\<lparr>st_State := StateSucceeded, st_Version := 5, st_ResultRef := ''blob_1'',
          st_LeaseID := leaseID 1, st_Assignee := ''agt_1''\<rparr>"
  have "CompleteSubtaskWithUsage ''sub_a'' 1 ''done_1'' ''blob_1'' 7 4 worker 40 scn_spawned = (Inr ?sub, scn_done)"
    using done_ok by (simp add: scn_done_def prod_eq_iff)
  from complete_once [OF reachable_spawned _ this reaches_refl] show ?thesis by (simp add: in_int64_def)
qed

section \<open>Budgets\<close>

text \<open>C19: Money is conserved. In every reachable state, the account of a metered mission has as its held amount exactly the
  sum of the amounts of the mission's HELD holds, held and spent amounts are never negative and together never exceed
  the total, the stored available amount is what is left, and the account that \<open>GetMissionBudget\<close> recomputes with 64-bit
  arithmetic is the stored one: no operation ever wraps around.\<close>

theorem budget_balanced:
  assumes "reachable s" "fmlookup (budgets s) m = Some a"
  shows "ba_Held a = (\<Sum>k \<in> fset (fmdom (budgetHolds s)). hold_part m (the (fmlookup (budgetHolds s) k)))
    \<and> 0 \<le> ba_Held a \<and> 0 \<le> ba_Spent a \<and> ba_Held a + ba_Spent a \<le> ba_Total a
    \<and> ba_Available a = ba_Total a - ba_Held a - ba_Spent a
    \<and> GetMissionBudget m s = Inr a"
proof -
  have wf: "budgets_wf s" using reachable_wf [OF assms(1)] by (simp add: store_wf_def)
  note acc = account_int64 [OF wf assms(2)]
  have "available a = ba_Available a" using available_eq [of a] acc by simp
  moreover have "fmlookup (missions s) m \<noteq> None" using budgets_wfD(3) [OF wf, of m] assms(2) by auto
  ultimately show ?thesis
    using acc assms(2) by (auto simp: GetMissionBudget_def held_def [symmetric] split: option.splits)
qed

theorem budget_balanced_witness:
  "\<exists>a. fmlookup (budgets scn_spawned) ''msn_1'' = Some a \<and> ba_Held a = 40 \<and> ba_Available a = ba_Total a - 40 - ba_Spent a"
proof -
  obtain a where a: "fmlookup (budgets scn_spawned) ''msn_1'' = Some a" "ba_Held a = 40"
    using budget_spawned by auto
  with budget_balanced [OF reachable_spawned a(1)] show ?thesis by auto
qed

section \<open>The event log\<close>

lemma collectEvents_eq:
  assumes "int (length out) < limit"
  shows "collectEvents m after limit out es =
     out @ take (nat limit - length out) (filter (\<lambda>e. e_MissionID e = m \<and> e_Seq e > after) es)"
  using assms
proof (induction es arbitrary: out)
  case (Cons e es)
  have "nat limit - length out = Suc (nat limit - length (out @ [e]))" using Cons.prems by simp
  with Cons show ?case by (auto simp: Let_def)
qed simp

lemma filter_after_last:
  fixes key :: "'a \<Rightarrow> int"
  assumes "sorted_wrt (<) (map key ys)" "take n ys \<noteq> []"
  shows "filter (\<lambda>e. key e > key (last (take n ys))) ys = drop n ys"
proof -
  let ?p = "take n ys" and ?q = "drop n ys"
  have s: "sorted_wrt (<) (map key ?p @ map key ?q)"
    using assms(1) by (metis append_take_drop_id map_append)
  have p: "?p = butlast ?p @ [last ?p]" using assms(2) by simp
  have "sorted_wrt (<) (map key (butlast ?p) @ [key (last ?p)])"
    using s p by (metis (no_types, lifting) list.simps(8,9) map_append sorted_wrt_append)
  then have below: "\<forall>e \<in> set (butlast ?p). key e < key (last ?p)" by (simp add: sorted_wrt_append)
  have "\<not> key (last ?p) < key e" if "e \<in> set ?p" for e
  proof -
    have "e \<in> set (butlast ?p) \<or> e = last ?p" using that arg_cong [where f = set, OF p] by auto
    then show ?thesis using below by force
  qed
  moreover have "key (last ?p) < key e" if "e \<in> set ?q" for e
    using s that last_in_set [OF assms(2)] by (auto simp: sorted_wrt_append)
  ultimately have "filter (\<lambda>e. key e > key (last ?p)) ?p = []" "filter (\<lambda>e. key e > key (last ?p)) ?q = ?q"
    by (simp_all add: filter_empty_conv)
  then show ?thesis
    using filter_append [of "\<lambda>e. key e > key (last ?p)" ?p ?q] by (simp only: append_take_drop_id append_Nil)
qed

section \<open>Pages of the event log\<close>

text \<open>The events of a mission after a sequence number; a page of \<open>ListMissionEvents\<close> is the first of them.\<close>

abbreviation mission_events :: "string \<Rightarrow> int \<Rightarrow> Store \<Rightarrow> Event list" where
  "mission_events m after s \<equiv> filter (\<lambda>e. e_MissionID e = m \<and> e_Seq e > after) (events s)"

lemma ListMissionEvents_take: "0 < limit \<Longrightarrow> ListMissionEvents m after limit s = take (nat limit) (mission_events m after s)"
  using collectEvents_eq [of "[]" limit m after "events s"] by (simp add: ListMissionEvents_def)

lemma page_rest:
  assumes "sorted_wrt (<) (map e_Seq (events s))" "0 < limit" "ListMissionEvents m after limit s \<noteq> []"
  shows "mission_events m (e_Seq (last (ListMissionEvents m after limit s))) s = drop (nat limit) (mission_events m after s)"
proof -
  let ?all = "mission_events m after s" and ?page = "ListMissionEvents m after limit s"
  have page: "?page = take (nat limit) ?all" using assms(2) by (rule ListMissionEvents_take)
  have "sorted_wrt (<) (map e_Seq ?all)" using assms(1) by (simp add: sorted_wrt_map sorted_wrt_filter)
  from filter_after_last [OF this, of "nat limit"] assms(3) page
  have drop: "filter (\<lambda>e. e_Seq (last ?page) < e_Seq e) ?all = drop (nat limit) ?all" by simp
  have "last ?page \<in> set ?all" using assms(3) page by (metis in_set_takeD last_in_set)
  then show ?thesis unfolding drop [symmetric] by (auto intro!: filter_cong)
qed

lemma reachable_seqs: "reachable s \<Longrightarrow> sorted_wrt (<) (map e_Seq (events s))"
  using reachable_wf [of s] by (simp add: store_wf_def log_wf_def)

section \<open>Polling the event log\<close>

text \<open>
  A reader that asks for one page per tick and moves on to the last number it was given. The locale states what the reader needs:
  the log of a state it was given is sorted by number and only grows at its end, and a page is the head of what is left.
\<close>

fun polled :: "(int \<Rightarrow> 's \<Rightarrow> Event list) \<Rightarrow> int \<Rightarrow> 's list \<Rightarrow> Event list" where
  "polled page after [] = []"
| "polled page after (s # ticks) =
     (let evs = page after s in evs @ polled page (if evs = [] then after else e_Seq (last evs)) ticks)"

locale polled_log =
  fixes log :: "'s \<Rightarrow> Event list"
    and mission :: string
    and page :: "int \<Rightarrow> 's \<Rightarrow> Event list"
    and leads :: "'s \<Rightarrow> 's \<Rightarrow> bool"
  assumes sorted: "leads s t \<Longrightarrow> sorted_wrt (<) (map e_Seq (log t))"
    and grows: "leads s t \<Longrightarrow> \<exists>es. log t = log s @ es"
    and head: "leads s t \<Longrightarrow> page after s = take 200 (filter (\<lambda>e. e_MissionID e = mission \<and> e_Seq e > after) (log s))"
    and stays: "leads s t \<Longrightarrow> leads t t"
begin

definition left :: "int \<Rightarrow> 's \<Rightarrow> Event list" where
  "left after s = filter (\<lambda>e. e_MissionID e = mission \<and> e_Seq e > after) (log s)"

text \<open>One tick: what it delivers and what is left from its position on are what there was to deliver.\<close>

lemma tick_split:
  assumes "leads s t"
  shows "left after t = page after s @ left (if page after s = [] then after else e_Seq (last (page after s))) t"
proof (cases "page after s = []")
  case False
  let ?evs = "page after s" and ?all = "left after s"
  obtain es where es: "log t = log s @ es" using grows [OF assms] by blast
  have evs: "?evs = take 200 ?all" using head [OF assms] by (simp add: left_def)
  have order: "sorted_wrt (<) (map e_Seq (log s))" "e \<in> set (log s) \<Longrightarrow> e' \<in> set es \<Longrightarrow> e_Seq e < e_Seq e'" for e e'
    using sorted [OF assms] by (auto simp: es sorted_wrt_append)
  have "last ?evs \<in> set ?all" using False evs by (metis in_set_takeD last_in_set)
  then have l: "last ?evs \<in> set (log s)" "after < e_Seq (last ?evs)" by (auto simp: left_def)
  have "filter (\<lambda>e. e_Seq (last ?evs) < e_Seq e) ?all = drop 200 ?all"
    using filter_after_last [of e_Seq ?all 200] order(1) False evs by (simp add: left_def sorted_wrt_map sorted_wrt_filter)
  moreover have "filter (\<lambda>e. e_Seq (last ?evs) < e_Seq e) ?all = left (e_Seq (last ?evs)) s"
    using l(2) by (auto simp: left_def intro!: filter_cong)
  ultimately have "?all = ?evs @ left (e_Seq (last ?evs)) s" using evs by (metis append_take_drop_id)
  moreover have "left x t = left x s @ filter (\<lambda>e. e_MissionID e = mission \<and> e_Seq e > x) es" for x
    by (simp add: left_def es)
  moreover have "filter (\<lambda>e. e_MissionID e = mission \<and> e_Seq e > after) es = filter (\<lambda>e. e_MissionID e = mission \<and> e_Seq e > e_Seq (last ?evs)) es"
    using l order(2) [OF l(1)] by (intro filter_cong refl) (metis order.strict_trans)
  ultimately show ?thesis using False by simp
next
  case True
  then show ?thesis by simp
qed

lemma poll_split:
  assumes "\<forall>s \<in> set ticks. leads s t"
  obtains cur where "left after t = polled page after ticks @ left cur t"
    and "\<And>more. polled page after (ticks @ more) = polled page after ticks @ polled page cur more"
  using assms
proof (induction ticks arbitrary: after thesis)
  case (Cons s ticks)
  let ?after = "if page after s = [] then after else e_Seq (last (page after s))"
  obtain cur where cur: "left ?after t = polled page ?after ticks @ left cur t"
    "\<And>more. polled page ?after (ticks @ more) = polled page ?after ticks @ polled page cur more"
    using Cons.IH [of ?after] Cons.prems(2) by auto
  show ?case
  proof (rule Cons.prems(1))
    show "left after t = polled page after (s # ticks) @ left cur t"
      using tick_split [of s t after] cur(1) Cons.prems(2) by (simp add: Let_def)
    show "polled page after ((s # ticks) @ more) = polled page after (s # ticks) @ polled page cur more" for more
      using cur(2) [of more] by (simp add: Let_def)
  qed
qed simp

lemma poll_rest:
  assumes "leads t t" "length (left after t) \<le> 200 * n"
  shows "polled page after (replicate n t) = left after t"
  using assms(2)
proof (induction n arbitrary: after)
  case (Suc n)
  let ?evs = "page after t"
  let ?after = "if ?evs = [] then after else e_Seq (last ?evs)"
  have split: "left after t = ?evs @ left ?after t" by (rule tick_split [OF assms(1)])
  have "?evs = take 200 (left after t)" using head [OF assms(1)] by (simp add: left_def)
  then have "length ?evs = min 200 (length (left after t))" by simp
  moreover have "length (left after t) = length ?evs + length (left ?after t)" using split by (metis length_append)
  moreover have "a = b + c \<Longrightarrow> b = min 200 a \<Longrightarrow> a \<le> 200 * Suc n \<Longrightarrow> c \<le> 200 * n" for a b c :: nat
    by (auto simp: min_def split: if_splits)
  ultimately have "length (left ?after t) \<le> 200 * n" using Suc.prems by blast
  from Suc.IH [OF this] split show ?case by (simp add: Let_def)
qed simp

text \<open>Nothing is lost or repeated, and a log that rests is read to its end.\<close>

lemma poll_exact:
  assumes "\<forall>s \<in> set ticks. leads s t" "leads t t"
  shows "\<exists>rest. left after t = polled page after ticks @ rest
    \<and> (length rest \<le> 200 * n \<longrightarrow> polled page after (ticks @ replicate n t) = left after t)"
proof -
  from poll_split [OF assms(1)] obtain cur where "left after t = polled page after ticks @ left cur t"
    "\<And>more. polled page after (ticks @ more) = polled page after ticks @ polled page cur more" by blast
  with poll_rest [OF assms(2), of cur n] show ?thesis by (intro exI [of _ "left cur t"]) auto
qed

end

interpretation mem_log: polled_log events m "\<lambda>after. ListMissionEvents m after 200" "\<lambda>s t. reachable s \<and> reaches s t" for m
proof
  fix s t after
  assume run: "reachable s \<and> reaches s t"
  then show "sorted_wrt (<) (map e_Seq (events t))" "reachable t \<and> reaches t t"
    using reachable_seqs reachable_run reaches_refl by blast+
  show "\<exists>es. events t = events s @ es" using reachable_history [of s t] run by (simp add: history_def)
  show "ListMissionEvents m after 200 s = take 200 (mission_events m after s)" by (simp add: ListMissionEvents_take)
qed

section \<open>Versions\<close>

text \<open>Every versioned method on a subtask whose version has moved past the expected one is refused.\<close>

lemma stale_version:
  assumes "fmlookup (subtasks s) ident = Some sub" "st_Version sub \<noteq> v"
  shows "TransitionSubtask ident ev v actor pl now mutate s = (Inl ErrConflict, s)"
    and "OfferLease ord digest ident agentID v ttl actor now s = (Inl ErrConflict, s)"
    and "StartSubtask ident tok v actor now s = (Inl ErrConflict, s)"
    and "FailSubtask ident tok reason v actor now s = (Inl ErrConflict, s)"
    and "BlockSubtask ident tok v actor now s = (Inl ErrConflict, s)"
    and "CancelSubtask ident v actor now s = (Inl ErrConflict, s)"
    and "SuspendSubtask ident tok v wake ckpt actor now s = (Inl ErrConflict, s)"
    and "WakeSubtask ident v actor now s = (Inl ErrConflict, s)"
    and "refused (CompleteSubtaskWithUsage ident tok key ref usage v actor now s) s"
  using assms
  by (simp_all add: TransitionSubtask_def OfferLease_def StartSubtask_def FailSubtask_def BlockSubtask_def
      CancelSubtask_def SuspendSubtask_def WakeSubtask_def CompleteSubtaskWithUsage_def completeSubtask_def)

lemma mutate_okD:
  assumes "mutate_ok (Some f)" "f x = (e, y)"
  shows "e = None \<and> st_ID y = st_ID x \<and> st_MissionID y = st_MissionID x \<and> st_State y = st_State x
    \<and> st_Version y = st_Version x"
proof -
  have "fst (f x) = None \<and> st_ID (snd (f x)) = st_ID x \<and> st_MissionID (snd (f x)) = st_MissionID x
    \<and> st_State (snd (f x)) = st_State x \<and> st_Version (snd (f x)) = st_Version x"
    using assms(1) by (simp add: mutate_ok_def)
  then show ?thesis by (simp add: assms(2))
qed

lemma TransitionSubtask_Inr:
  assumes "TransitionSubtask ident ev v actor pl now mutate s = (Inr sub', t)" "mutate_ok mutate"
  obtains sub where "fmlookup (subtasks s) ident = Some sub" "st_Version sub = v"
    and "Apply (st_State sub) ev = Inr (st_State sub')" "st_Version sub' = v + 1"
    and "st_ID sub' = st_ID sub" "st_MissionID sub' = st_MissionID sub" "subtasks t = fmupd ident sub' (subtasks s)"
    and "mutate = None \<Longrightarrow> sub' = sub\<lparr>st_State := st_State sub', st_Version := v + 1\<rparr>"
proof (cases mutate)
  case None
  then show ?thesis using assms that
    by (auto simp: TransitionSubtask_def Let_def split: option.splits sum.splits if_splits)
next
  case (Some f)
  then show ?thesis using assms that
    by (auto simp: TransitionSubtask_def Let_def split: option.splits sum.splits if_splits prod.splits
        dest!: mutate_okD)
qed

text \<open>Optimistic locking. When a generic transition at version \<open>v\<close> succeeds, the subtask was at version \<open>v\<close>, the event
  was legal in its state, and the stored subtask is the returned one, at version \<open>v + 1\<close>. In every later state of the
  store each of the versioned operations that still expects \<open>v\<close> is refused and changes nothing, so of several
  controllers that read the same version at most one acts.\<close>

theorem transition_excludes:
  assumes "reachable s" "mutate_ok mutate"
    and "TransitionSubtask ident ev v actor pl now mutate s = (Inr sub', t)" "reaches t u"
  shows "(\<exists>sub. fmlookup (subtasks s) ident = Some sub \<and> st_Version sub = v
      \<and> Apply (st_State sub) ev = Inr (st_State sub') \<and> st_Version sub' = v + 1
      \<and> fmlookup (subtasks t) ident = Some sub')
    \<and> TransitionSubtask ident ev' v actor' pl' now' mutate' u = (Inl ErrConflict, u)
    \<and> OfferLease ord digest ident agentID v ttl actor' now' u = (Inl ErrConflict, u)
    \<and> StartSubtask ident tok v actor' now' u = (Inl ErrConflict, u)
    \<and> FailSubtask ident tok reason v actor' now' u = (Inl ErrConflict, u)
    \<and> CancelSubtask ident v actor' now' u = (Inl ErrConflict, u)
    \<and> SuspendSubtask ident tok v wake ckpt actor' now' u = (Inl ErrConflict, u)
    \<and> WakeSubtask ident v actor' now' u = (Inl ErrConflict, u)
    \<and> refused (CompleteSubtaskWithUsage ident tok key ref usage v actor' now' u) u"
  using assms(3,2)
proof (rule TransitionSubtask_Inr)
  fix sub
  assume a: "fmlookup (subtasks s) ident = Some sub" "st_Version sub = v"
    "Apply (st_State sub) ev = Inr (st_State sub')" "st_Version sub' = v + 1" "subtasks t = fmupd ident sub' (subtasks s)"
  have "t = snd (TransitionSubtask ident ev v actor pl now mutate s)" using assms(3) by simp
  then have "reachable t" using reachable_step [OF assms(1) step_TransitionSubtask [OF assms(2)]] by simp
  then obtain x where "fmlookup (subtasks u) ident = Some x" "st_Version sub' \<le> st_Version x"
    using history_subtask [OF reachable_history [OF _ assms(4)], of ident sub'] a(5) by (auto simp: subtask_le_def)
  then have x: "fmlookup (subtasks u) ident = Some x" "st_Version x \<noteq> v" using a(4) by auto
  show ?thesis using a stale_version [OF x] by simp
qed

theorem transition_excludes_witness:
  "CancelSubtask ''sub_a'' 0 ann 50 scn_ready = (Inl ErrConflict, scn_ready)"
proof -
  have "fst (TransitionSubtask ''sub_a'' EvDepsSatisfied 0 ann None 10 None scn_created)
      = Inr (demo_task\<lparr>st_State := StateReady, st_Version := 1\<rparr>)"
    by code_simp
  then have "TransitionSubtask ''sub_a'' EvDepsSatisfied 0 ann None 10 None scn_created
      = (Inr (demo_task\<lparr>st_State := StateReady, st_Version := 1\<rparr>), scn_ready)"
    by (simp add: scn_ready_def prod_eq_iff)
  from transition_excludes [OF reachable_created _ this reaches_refl] show ?thesis by (simp add: mutate_ok_def)
qed

section \<open>Delegation\<close>

text \<open>C21: Delegation stays inside the parent's lease, rights and money. When a delegation succeeds in a reachable state, the
  parent was RUNNING at the expected version under an ACTIVE, unexpired lease held by the very actor that delegates, with
  the presented token; the child's permissions cover no right the parent's envelope does not cover; the child's id and
  the idempotency key were new; the child is READY at version 1 and the key remembers it. In a metered mission a HELD
  hold of the child's positive budget has been taken from what was available. A refused delegation changes nothing.\<close>

theorem spawn_within_parent:
  assumes "reachable s" "in_int64 (BudgetTokens (st_Scheduling child))"
  shows "case SpawnSubtask key parentID tok v child actor now s of
      (Inl e, t) \<Rightarrow> t = s
    | (Inr _, t) \<Rightarrow> \<exists>parent l. fmlookup (subtasks s) parentID = Some parent \<and> st_State parent = StateRunning
        \<and> st_Version parent = v \<and> fmlookup (leases s) (st_LeaseID parent) = Some l \<and> l_State l = LeaseActive
        \<and> l_FencingToken l = tok \<and> l_AgentID l = ac_ID actor \<and> now < l_ExpiresAt l \<and> l_SubtaskID l = parentID
        \<and> authority (st_Grants child) \<subseteq> authority (st_Grants parent)
        \<and> fmlookup (subtasks s) (st_ID child) = None \<and> fmlookup (idem s) key = None
        \<and> fmlookup (subtasks t) (st_ID child) = Some (child\<lparr>st_State := StateReady, st_Version := 1\<rparr>)
        \<and> fmlookup (idem t) key = Some (st_ID child)
        \<and> (\<forall>a. fmlookup (budgets s) (st_MissionID child) = Some a \<longrightarrow>
             0 < BudgetTokens (st_Scheduling child) \<and> BudgetTokens (st_Scheduling child) \<le> ba_Available a
             \<and> (\<exists>h. fmlookup (budgetHolds t) (st_ID child) = Some h \<and> h_Status h = BudgetHoldHeld
                  \<and> h_Amount h = BudgetTokens (st_Scheduling child)))"
proof (cases "SpawnSubtask key parentID tok v child actor now s")
  case (Pair r t)
  show ?thesis
  proof (cases r)
    case (Inl e)
    then show ?thesis using Pair by (auto simp: SpawnSubtask_def Let_def split: option.splits sum.splits if_splits)
  next
    case (Inr u)
    have wf: "store_wf s" by (rule reachable_wf [OF assms(1)])
    obtain parent l where p: "fmlookup (subtasks s) parentID = Some parent" "checkFencingLocked parent tok s = Inr l"
      using Pair Inr by (auto simp: SpawnSubtask_def Let_def split: option.splits sum.splits if_splits)
    note own = fenced_owner [OF wf p]
    have av: "available a = ba_Available a" if "fmlookup (budgets s) m = Some a" for m a
      using account_int64 [of s m a] available_eq [of a] that wf by (simp add: store_wf_def)
    have sub: "authority (st_Grants child) \<subseteq> authority (st_Grants parent)"
      using Pair Inr p
      by (auto simp: SpawnSubtask_def Let_def split: option.splits sum.splits if_splits dest: envelopes.covers_rights)
    show ?thesis
      using Pair Inr p own sub av
      by (auto simp: SpawnSubtask_def Let_def placeHold_def split: option.splits if_splits)
  qed
qed

lemma spawn_ok: "SpawnSubtask ''key_1'' ''sub_a'' 1 4 demo_child worker 27 scn_running = (Inr '''', scn_spawned)"
proof (rule prod_eqI)
  show "fst (SpawnSubtask ''key_1'' ''sub_a'' 1 4 demo_child worker 27 scn_running) = fst (Inr '''', scn_spawned)"
    by code_simp
qed (simp add: scn_spawned_def)

theorem spawn_within_parent_witness:
  "fmlookup (subtasks scn_spawned) ''sub_c'' = Some (demo_child\<lparr>st_State := StateReady, st_Version := 1\<rparr>)"
proof -
  have "in_int64 (BudgetTokens (st_Scheduling demo_child))" "st_ID demo_child = ''sub_c''"
    by (simp_all add: demo_child_def zero_subtask_def in_int64_def)
  with spawn_within_parent [OF reachable_running, where child = demo_child and key = "''key_1''"
    and parentID = "''sub_a''" and tok = 1 and v = 4 and actor = worker and now = 27]
  show ?thesis by (simp add: spawn_ok) blast
qed

end
