(* ===== verification/SweepProps.thy ===== *)
theory SweepProps
  imports StoreProps
begin

text \<open>
  The sweeps of the store visit their table in an arbitrary order. This theory shows what is true after a
  sweep whatever that order was: every due entry has been handled, every other entry is untouched.
\<close>

section \<open>Sweeps entry by entry\<close>

text \<open>A loop over distinct keys each of whose steps changes only its own key.\<close>

lemma fold_pointwise:
  assumes step: "\<And>k p j. look (f k p) j = (if j = k then h k (look p k) else look p j)"
    and "distinct ks"
  shows "look (fold f ks p) j = (if j \<in> set ks then h j (look p j) else look p j)"
  using assms(2)
proof (induction ks arbitrary: p)
  case (Cons k ks)
  then show ?case using step by auto
qed simp

section \<open>Wake deadlines\<close>

definition wake_expired :: "time \<Rightarrow> Subtask \<Rightarrow> bool" where
  "wake_expired now sub \<longleftrightarrow> st_State sub = StateWaiting
     \<and> (case st_WakeDeadline sub of None \<Rightarrow> False | Some d \<Rightarrow> d \<le> now)"

definition wake_timed_out :: "Subtask \<Rightarrow> Subtask" where
  "wake_timed_out sub = (clear_wake (sub\<lparr>st_State := StateFailed\<rparr>))\<lparr>st_Version := st_Version sub + 1\<rparr>"

lemma expire_wake_lookup:
  "fmlookup (subtasks (snd (expire_wake now k p))) j =
     (if j = k then map_option (\<lambda>sub. if wake_expired now sub then wake_timed_out sub else sub)
        (fmlookup (subtasks (snd p)) k) else fmlookup (subtasks (snd p)) j)"
  by (cases p) (auto simp: expire_wake_def wake_expired_def wake_timed_out_def clear_wake_def Let_def
      split: option.splits)

lemma ExpireWakes_lookup:
  assumes "valid_order ord"
  shows "fmlookup (subtasks (snd (ExpireWakes ord now s))) j =
     map_option (\<lambda>sub. if wake_expired now sub then wake_timed_out sub else sub) (fmlookup (subtasks s) j)"
  using fold_pointwise [where look = "\<lambda>p. fmlookup (subtasks (snd p))" and f = "expire_wake now"
      and ks = "ord (fmdom (subtasks s))" and p = "([], s)", OF expire_wake_lookup valid_orderD(1) [OF assms]]
    valid_orderD(2) [OF assms, of "fmdom (subtasks s)"]
  by (auto simp: ExpireWakes_def case_prod_unfold Let_def fmlookup_dom_iff)

text \<open>C24: A wake deadline decides between waking and failing. For a WAITING subtask with deadline \<open>d\<close>, at any time before
  \<open>d\<close> a wake at the current version succeeds, makes it READY and clears the registration, and the sweep leaves it
  alone; at \<open>d\<close> and later every wake is refused and the sweep fails it with the registration cleared. The two can never
  both take the subtask at the same time, whatever order the sweep uses, and a suspended subtask cannot wait for ever.\<close>

theorem wake_deadline_decides:
  assumes "valid_order ord" "fmlookup (subtasks s) ident = Some sub" "st_State sub = StateWaiting"
    and "st_WakeDeadline sub = Some d"
  shows "if now < d
    then (\<exists>t. WakeSubtask ident (st_Version sub) actor now s =
              (Inr ((clear_wake (sub\<lparr>st_State := StateReady\<rparr>))\<lparr>st_Version := st_Version sub + 1\<rparr>), t)
            \<and> fmlookup (subtasks t) ident =
                Some ((clear_wake (sub\<lparr>st_State := StateReady\<rparr>))\<lparr>st_Version := st_Version sub + 1\<rparr>))
       \<and> fmlookup (subtasks (snd (ExpireWakes ord now s))) ident = Some sub
    else WakeSubtask ident v actor now s = (Inl ErrConflict, s)
       \<and> fmlookup (subtasks (snd (ExpireWakes ord now s))) ident =
           Some ((clear_wake (sub\<lparr>st_State := StateFailed\<rparr>))\<lparr>st_Version := st_Version sub + 1\<rparr>)"
  using assms
  by (auto simp: ExpireWakes_lookup wake_expired_def wake_timed_out_def WakeSubtask_def Apply_def Let_def clear_wake_def)

section \<open>Lease expiry\<close>

definition due_lease :: "time \<Rightarrow> Store \<Rightarrow> string \<Rightarrow> bool" where
  "due_lease now s k \<longleftrightarrow> (\<exists>l sub. fmlookup (leases s) k = Some l \<and> l_State l = LeaseActive \<and> l_ExpiresAt l \<le> now
     \<and> fmlookup (subtasks s) (l_SubtaskID l) = Some sub
     \<and> (st_State sub = StateOffered \<or> st_State sub = StateLeased))"

text \<open>One iteration handles its own lease and never makes another one due.\<close>

lemma expire_lease_due:
  "\<not> due_lease now (snd (expire_lease now k p)) k"
  "due_lease now (snd (expire_lease now k p)) j \<Longrightarrow> due_lease now (snd p) j"
  by (cases p; auto simp: expire_lease_def due_lease_def Let_def decRunning_frame split: option.splits if_splits)+

lemma expire_lease_other:
  "fmlookup (leases (snd p)) j = Some l \<Longrightarrow> l_State l \<noteq> LeaseActive \<or> now < l_ExpiresAt l
     \<Longrightarrow> fmlookup (leases (snd (expire_lease now k p))) j = Some l"
  by (cases p) (auto simp: expire_lease_def Let_def split: option.splits)

lemma fold_expire_due:
  "k \<in> set ks \<Longrightarrow> \<not> due_lease now (snd (fold (expire_lease now) ks p)) k"
proof (induction ks arbitrary: p)
  case (Cons j ks)
  show ?case
  proof (cases "k \<in> set ks")
    case True
    then show ?thesis using Cons.IH by simp
  next
    case False
    have "\<not> due_lease now (snd q) k \<Longrightarrow> \<not> due_lease now (snd (fold (expire_lease now) ks q)) k" for q
      by (rule fold_inv [where I = "\<lambda>p. \<not> due_lease now (snd p) k"]) (auto dest: expire_lease_due(2))
    with False Cons.prems show ?thesis by (simp add: expire_lease_due(1))
  qed
qed simp

lemma fold_expire_other:
  "fmlookup (leases (snd p)) j = Some l \<Longrightarrow> l_State l \<noteq> LeaseActive \<or> now < l_ExpiresAt l
     \<Longrightarrow> fmlookup (leases (snd (fold (expire_lease now) ks p))) j = Some l"
  by (induction ks arbitrary: p) (auto simp: expire_lease_other)

text \<open>The lease sweep is complete and precise. After \<open>ExpireLeases\<close> at time \<open>now\<close>, whatever order it used, no lease is
  left that is ACTIVE, has expired, and whose subtask still waits in OFFERED or LEASED; a lease that had not expired, or
  was not ACTIVE, keeps its record.\<close>

theorem lease_sweep_complete:
  assumes "valid_order ord"
  shows "(\<forall>k l sub. fmlookup (leases (snd (ExpireLeases ord now s))) k = Some l \<longrightarrow> l_State l = LeaseActive
      \<longrightarrow> l_ExpiresAt l \<le> now \<longrightarrow> fmlookup (subtasks (snd (ExpireLeases ord now s))) (l_SubtaskID l) = Some sub
      \<longrightarrow> st_State sub \<noteq> StateOffered \<and> st_State sub \<noteq> StateLeased)
    \<and> (\<forall>k l. fmlookup (leases s) k = Some l \<longrightarrow> l_State l \<noteq> LeaseActive \<or> now < l_ExpiresAt l
      \<longrightarrow> fmlookup (leases (snd (ExpireLeases ord now s))) k = Some l)"
proof -
  let ?ks = "ord (fmdom (leases s))" and ?t = "snd (ExpireLeases ord now s)"
  have t: "?t = snd (fold (expire_lease now) ?ks (0, s))" by (simp add: ExpireLeases_def case_prod_unfold Let_def)
  have dom: "fmdom (leases (snd (fold (expire_lease now) ks p))) = fmdom (leases (snd p))" for ks and p :: "int \<times> Store"
  proof (induction ks arbitrary: p)
    case (Cons k ks)
    have "fmdom (leases (snd (expire_lease now k p))) = fmdom (leases (snd p))"
      by (cases p) (auto simp: expire_lease_def Let_def fmlookup_dom_iff split: option.splits)
    with Cons show ?case by simp
  qed simp
  have "\<not> due_lease now ?t k" if "fmlookup (leases ?t) k = Some l" for k l
  proof -
    have "k |\<in>| fmdom (leases s)" using that dom [of ?ks "(0, s)"] t fmdomI by fastforce
    then have "k \<in> set ?ks" by (simp add: valid_orderD(2) [OF assms])
    then show ?thesis unfolding t by (rule fold_expire_due)
  qed
  then show ?thesis using fold_expire_other [of "(0, s)" _ _ now ?ks] by (auto simp: due_lease_def t)
qed

definition demo_wake :: WakeSpec where
  "demo_wake = \<lparr>w_Kind = WakeTimer, w_At = Some 60, w_Deadline = Some 100, w_RegisteredAt = Some 30,
     w_Event = None, w_Condition = None\<rparr>"

definition scn_waiting :: Store where
  "scn_waiting = snd (SuspendSubtask ''sub_a'' 1 4 demo_wake ''page 7'' worker 30 scn_running)"

definition scn_waiting_task :: Subtask where
  "scn_waiting_task = demo_task\<lparr>st_State := StateWaiting, st_Version := 5, st_Checkpoint := ''page 7'',
     st_WakeKind := WakeTimer, st_WakeAt := Some 60, st_WakeDeadline := Some 100, st_WakeSpec := Some demo_wake\<rparr>"

lemma task_waiting: "fmlookup (subtasks scn_waiting) ''sub_a'' = Some scn_waiting_task"
  by code_simp

theorem wake_deadline_decides_witness:
  "fmlookup (subtasks (snd (ExpireWakes sorted_list_of_fset 99 scn_waiting))) ''sub_a'' = Some scn_waiting_task
   \<and> WakeSubtask ''sub_a'' 5 ann 100 scn_waiting = (Inl ErrConflict, scn_waiting)"
  using wake_deadline_decides [OF valid_order_sorted task_waiting, of 100 99 ann 5]
    wake_deadline_decides [OF valid_order_sorted task_waiting, of 100 100 ann 5]
  by (simp add: scn_waiting_task_def)

theorem lease_sweep_complete_witness:
  "fmlookup (leases (snd (ExpireLeases sorted_list_of_fset 40 scn_offered))) (leaseID 1) = Some scn_lease"
  using lease_sweep_complete [OF valid_order_sorted, of 40 scn_offered] lease_offered by (simp add: scn_lease_def)

section \<open>Takeover of stale Leads\<close>

definition stale_lead :: "time \<Rightarrow> Store \<Rightarrow> string \<Rightarrow> bool" where
  "stale_lead now s k \<longleftrightarrow> (\<exists>lead l. fmlookup (subtasks s) k = Some lead \<and> st_State lead = StateRunning
     \<and> st_LeaseID lead \<noteq> '''' \<and> fmlookup (leases s) (st_LeaseID lead) = Some l \<and> l_State l = LeaseActive
     \<and> l_ExpiresAt l \<le> now \<and> is_lead lead s)"

lemma is_lead_frame:
  "is_lead lead (appendEventLocked ag mi ty pl ac now s) = is_lead lead s"
  "is_lead lead (suspectAgent a s) = is_lead lead s" "is_lead lead (setLease k l s) = is_lead lead s"
  by (simp_all add: is_lead_def)

lemma is_lead_subtask:
  assumes "M = subtasks u" "fmlookup M k = Some old" "st_ParentID v = st_ParentID old"
  shows "is_lead lead (u\<lparr>subtasks := fmupd k v M\<rparr>) = is_lead lead u"
proof -
  have "any_value P (fmupd k v M) = any_value P M" if "P v = P old" for P
  proof (cases "P old")
    case True
    then show ?thesis using assms(2) that by (auto simp: any_value_iff intro: exI [of _ k])
  next
    case False
    then have "k' \<noteq> k" if "fmlookup M k' = Some x" "P x" for k' x using assms(2) that by auto
    with False that show ?thesis unfolding any_value_iff by (metis fmupd_lookup option.inject)
  qed
  then show ?thesis using assms by (simp add: is_lead_def)
qed

text \<open>One iteration: it returns normally, handles its own Lead and makes no other one stale.\<close>

lemma takeover_lead_Inr: "\<exists>out' t. takeover_lead now k out s = (Inr out', t)"
  by (auto simp: takeover_lead_def Let_def Apply_def split: option.splits)

lemma takeover_lead_stale:
  assumes "takeover_lead now k out s = (Inr out', t)"
  shows "\<not> stale_lead now t k" and "stale_lead now t j \<Longrightarrow> stale_lead now s j"
  using assms
  by (auto simp: takeover_lead_def stale_lead_def Let_def is_lead_frame is_lead_subtask
      split: option.splits if_splits sum.splits)

lemma takeover_loop_stale:
  "\<exists>out' t. takeover_loop now ks out s = (Inr out', t)
     \<and> (\<forall>k. stale_lead now t k \<longrightarrow> stale_lead now s k \<and> k \<notin> set ks)"
proof (induction ks arbitrary: out s)
  case (Cons k ks)
  obtain out1 t1 where one: "takeover_lead now k out s = (Inr out1, t1)" using takeover_lead_Inr by blast
  obtain out2 t2 where rest: "takeover_loop now ks out1 t1 = (Inr out2, t2)"
    "\<forall>j. stale_lead now t2 j \<longrightarrow> stale_lead now t1 j \<and> j \<notin> set ks"
    using Cons.IH by blast
  then show ?case using takeover_lead_stale [OF one] by (auto simp: one)
qed simp

text \<open>Lead takeover is complete and never fails. \<open>TakeoverStaleLeads\<close> returns normally in every state and, whatever
  order it used, leaves no RUNNING Lead (a subtask with a plan snapshot or delegated children) whose ACTIVE lease has
  expired; with the fencing theorem the previous Lead can then no longer write.\<close>

theorem takeover_complete:
  assumes "valid_order ord"
  shows "\<exists>out t. TakeoverStaleLeads ord now s = (Inr out, t) \<and> (\<forall>k. \<not> stale_lead now t k)"
proof -
  obtain out t where t: "takeover_loop now (ord (fmdom (subtasks s))) [] s = (Inr out, t)"
    "\<forall>k. stale_lead now t k \<longrightarrow> stale_lead now s k \<and> k \<notin> set (ord (fmdom (subtasks s)))"
    using takeover_loop_stale by blast
  have "k \<in> set (ord (fmdom (subtasks s)))" if "stale_lead now s k" for k
    using that by (auto simp: stale_lead_def valid_orderD(2) [OF assms] fmlookup_dom_iff)
  with t show ?thesis by (auto simp: TakeoverStaleLeads_def)
qed

theorem takeover_complete_witness:
  "\<exists>out t. TakeoverStaleLeads sorted_list_of_fset 500 scn_spawned = (Inr out, t) \<and> (\<forall>k. \<not> stale_lead 500 t k)"
  by (rule takeover_complete [OF valid_order_sorted])

end
