(* ===== verification/QueueProps.thy ===== *)
theory QueueProps
  imports SweepProps
begin

text \<open>
  The read side and the blackboard: the ready queue is a function of the stored subtasks and not of Go's map
  order, the blackboard is a compare-and-swap register per storage key, and reputations stay in bounds.
\<close>

section \<open>The ready queue\<close>

definition ready_key :: "Subtask \<Rightarrow> int \<times> (int \<times> int) \<times> string" where
  "ready_key a = (- Priority (st_Scheduling a),
     (case Deadline (st_Scheduling a) of Some d \<Rightarrow> (0, d) | None \<Rightarrow> (1, 0)), st_ID a)"

lemma ready_less_key: "ready_less a b \<longleftrightarrow> ready_key a < ready_key b"
  by (auto simp: ready_less_def ready_key_def less_prod_def' split: option.splits)

text \<open>Listing the values of a table that satisfy a test and sorting them by a key that contains the id.\<close>

lemma sorted_listing_indep:
  fixes key :: "'v \<Rightarrow> 'k :: linorder"
  assumes "valid_order o1" "valid_order o2" "keyed_by ident m"
    and lt: "\<And>a b. lt a b \<longleftrightarrow> key a < key b" and inj: "\<And>a b. key a = key b \<Longrightarrow> ident a = ident b"
  shows "sort_slice lt (filter P (map_values o1 m)) = sort_slice lt (filter P (map_values o2 m))"
proof (rule sort_slice_indep [OF lt])
  show "mset (filter P (map_values o1 m)) = mset (filter P (map_values o2 m))"
    using mset_map_values_indep [OF assms(1,2), of m] by simp
  have "inj_on ident (set (filter P (map_values o1 m)))"
    using inj_on_key_distinct [OF distinct_map_filter_key [OF distinct_map_key [OF assms(1,3)]]] by simp
  then show "inj_on key (set (filter P (map_values o1 m)))"
    by (auto simp: inj_on_def dest: inj)
qed

lemma sorted_wrt_take_drop:
  "sorted_wrt R xs \<Longrightarrow> x \<in> set (take n xs) \<Longrightarrow> y \<in> set (drop n xs) \<Longrightarrow> R x y"
  by (metis append_take_drop_id sorted_wrt_append)

text \<open>The ready queue is deterministic and never skips a more urgent task. In a reachable state, \<open>DequeueReady\<close> with a limit
  \<open>n \<ge> 0\<close> returns READY subtasks only, ordered by priority, then deadline (none last), then id; it does not depend on the
  order in which Go enumerates the table; and a READY subtask that is left out comes after every returned one and is left out
  only because the batch is full.\<close>

theorem dequeue_ready:
  assumes "reachable s" "valid_order o1" "valid_order o2" "0 \<le> n"
  shows "DequeueReady o1 n s = DequeueReady o2 n s
    \<and> sorted_wrt ready_less (DequeueReady o1 n s)
    \<and> (\<forall>sub \<in> set (DequeueReady o1 n s). st_State sub = StateReady \<and> fmlookup (subtasks s) (st_ID sub) = Some sub)
    \<and> (\<forall>k sub. fmlookup (subtasks s) k = Some sub \<longrightarrow> st_State sub = StateReady \<longrightarrow> sub \<notin> set (DequeueReady o1 n s)
        \<longrightarrow> int (length (DequeueReady o1 n s)) = n \<and> (\<forall>x \<in> set (DequeueReady o1 n s). ready_less x sub))"
proof -
  let ?f = "\<lambda>ord. filter (\<lambda>sub. st_State sub = StateReady) (map_values ord (subtasks s))"
  let ?q = "\<lambda>ord. sort_slice ready_less (?f ord)"
  have keyed: "keyed_by st_ID (subtasks s)"
    using reachable_wf [OF assms(1)] by (simp add: store_wf_def keys_wf_def)
  have own: "fmlookup (subtasks s) (st_ID x) = Some x" if "\<exists>k. fmlookup (subtasks s) k = Some x" for x
    using that keyed_byD [OF keyed] by metis
  have deq: "DequeueReady ord n s = take (nat n) (?q ord)" for ord
    using assms(4) by (simp add: DequeueReady_def Let_def not_less)
  have same: "?q o1 = ?q o2"
    by (rule sorted_listing_indep [OF assms(2,3) keyed ready_less_key]) (simp add: ready_key_def)
  have set_q: "set (?q o1) = {sub. st_State sub = StateReady \<and> (\<exists>k. fmlookup (subtasks s) k = Some sub)}"
    by (auto simp: set_map_values [OF assms(2)])
  have own_q: "fmlookup (subtasks s) (st_ID x) = Some x" if "x \<in> set (?q o1)" for x
    using that own unfolding set_q by blast
  have "distinct (map st_ID (?f o1))"
    by (rule distinct_map_filter_key [OF distinct_map_key [OF assms(2) keyed]])
  then have d: "distinct (?q o1)"
    by (metis distinct_map mset_eq_imp_distinct_iff mset_sort_slice)
  have srt: "sorted (map ready_key (?q o1))"
    unfolding sort_slice_key [of ready_less ready_key, OF ready_less_key] by simp
  have inj: "inj_on ready_key (set (?q o1))"
  proof (rule inj_onI)
    fix x y assume x: "x \<in> set (?q o1)" and y: "y \<in> set (?q o1)" and "ready_key x = ready_key y"
    then have "st_ID x = st_ID y" by (simp only: ready_key_def prod.inject)
    then have "Some x = Some y" using own_q [OF x] own_q [OF y] by argo
    then show "x = y" by (rule option.inject [THEN iffD1])
  qed
  from srt d inj have "sorted_wrt (<) (map ready_key (?q o1))"
    unfolding strict_sorted_iff distinct_map by blast
  then have sorted: "sorted_wrt ready_less (?q o1)"
    by (simp only: sorted_wrt_map ready_less_key [abs_def])
  have rest: "int (length (take (nat n) (?q o1))) = n \<and> (\<forall>x \<in> set (take (nat n) (?q o1)). ready_less x sub)"
    if "sub \<in> set (?q o1)" "sub \<notin> set (take (nat n) (?q o1))" for sub
  proof -
    have d: "sub \<in> set (drop (nat n) (?q o1))"
      using that by (metis Un_iff append_take_drop_id set_append)
    then have "nat n < length (?q o1)" by (metis drop_all empty_iff leI list.set(1))
    then have "length (take (nat n) (?q o1)) = nat n" by (simp only: length_take min_def) simp
    with sorted_wrt_take_drop [OF sorted _ d] assms(4) show ?thesis by simp
  qed
  have ready: "st_State sub = StateReady \<and> fmlookup (subtasks s) (st_ID sub) = Some sub"
    if "sub \<in> set (take (nat n) (?q o1))" for sub
    using in_set_takeD [OF that] own_q set_q by blast
  have mem: "sub \<in> set (?q o1)" if "fmlookup (subtasks s) k = Some sub" "st_State sub = StateReady" for k sub
    using that set_q by blast
  have srt': "sorted_wrt ready_less (take (nat n) (?q o1))" by (rule sorted_wrt_take [OF sorted])
  show ?thesis
    unfolding deq same [symmetric]
    by (intro conjI allI ballI impI refl srt' ready) (use rest mem ready in blast)+
qed

theorem dequeue_ready_witness:
  "DequeueReady sorted_list_of_fset 5 scn_spawned = DequeueReady (\<lambda>A. rev (sorted_list_of_fset A)) 5 scn_spawned"
proof -
  have "valid_order (\<lambda>A. rev (sorted_list_of_fset A))"
    using valid_order_sorted by (simp add: valid_order_def)
  from dequeue_ready [OF reachable_spawned valid_order_sorted this, of 5] show ?thesis by simp
qed

section \<open>The blackboard\<close>

text \<open>
  The contract of a versioned register under a storage key: an accepted write is the one read next and its version
  is one more than the version it replaced, and two writers that expect the same version exclude each other.
\<close>

locale versioned_cell =
  fixes put :: "'k \<Rightarrow> int \<Rightarrow> 'v \<Rightarrow> 's \<Rightarrow> bool \<times> 's" and version :: "'k \<Rightarrow> 's \<Rightarrow> int"
  assumes put_cas: "fst (put k v x s) \<longleftrightarrow> v < 0 \<or> version k s = v"
    and put_bump: "fst (put k v x s) \<Longrightarrow> version k (snd (put k v x s)) = version k s + 1"
    and put_refused: "\<not> fst (put k v x s) \<Longrightarrow> snd (put k v x s) = s"
begin

lemma writers_exclude:
  assumes "0 \<le> v" "fst (put k v x s)"
  shows "\<not> fst (put k v y (snd (put k v x s)))"
  using assms put_cas [of k v x s] put_cas [of k v y "snd (put k v x s)"] put_bump [of k v x s] by auto

lemma version_mono: "version k s \<le> version k (snd (put k v x s))"
  using put_bump [of k v x s] put_refused [of k v x s] by (cases "fst (put k v x s)") auto

end

definition board_version :: "string \<times> string \<times> string \<Rightarrow> Store \<Rightarrow> int" where
  "board_version k s = (case k of (m, ns, key) \<Rightarrow>
     (case fmlookup (board s) (boardKey m ns key) of None \<Rightarrow> -1 | Some c \<Rightarrow> b_Version c))"

definition board_write :: "string \<times> string \<times> string \<Rightarrow> int \<Rightarrow> string \<times> time \<Rightarrow> Store \<Rightarrow> bool \<times> Store" where
  "board_write k v x s = (case k of (m, ns, key) \<Rightarrow> case x of (val, now) \<Rightarrow>
     (let (r, t) = BoardPut \<lparr>b_MissionID = m, b_Namespace = ns, b_Key = key, b_Value = val, b_Version = 0,
        b_UpdatedAt = zero_time\<rparr> v now s in (\<not> isl r, t)))"

interpretation board_cell: versioned_cell board_write board_version
  by unfold_locales (auto simp: board_write_def board_version_def BoardPut_def Let_def split: option.splits if_splits)

abbreviation board_entry :: "string \<Rightarrow> string \<Rightarrow> string \<Rightarrow> string \<Rightarrow> BoardEntry" where
  "board_entry m ns key val \<equiv> \<lparr>b_MissionID = m, b_Namespace = ns, b_Key = key, b_Value = val, b_Version = 0,
     b_UpdatedAt = zero_time\<rparr>"

text \<open>The blackboard is a compare-and-swap register. A write with an expected version \<open>v \<ge> 0\<close> is accepted exactly when \<open>v\<close> is the
  stored version (a negative \<open>v\<close> writes blindly); an accepted write is what the next read of the same namespace and key returns,
  at the stored version plus one (0 for a new entry); of two writers that expect the same version the second is refused; a
  refused write changes nothing.\<close>

theorem board_cas:
  "case BoardPut (board_entry m ns key val) v now s of
     (Inr e, t) \<Rightarrow> (v < 0 \<or> board_version (m, ns, key) s = v) \<and> BoardGet m ns key t = Inr e
       \<and> b_Value e = val \<and> b_Version e = board_version (m, ns, key) s + 1
       \<and> (0 \<le> v \<longrightarrow> BoardPut (board_entry m ns key val') v now' t = (Inl ErrConflict, t))
   | (Inl e, t) \<Rightarrow> t = s \<and> e = ErrConflict \<and> 0 \<le> v \<and> board_version (m, ns, key) s \<noteq> v"
  using board_cell.writers_exclude [of v "(m, ns, key)" "(val, now)" s "(val', now')"]
  by (auto simp: board_write_def BoardPut_def BoardGet_def board_version_def Let_def split: option.splits if_splits)

theorem board_cas_witness:
  "BoardPut (board_entry ''m'' ''n'' ''k'' ''y'') 0 9
     (snd (BoardPut (board_entry ''m'' ''n'' ''k'' ''x'') 0 8 (snd (BoardPut (board_entry ''m'' ''n'' ''k'' ''w'') (-1) 7 New))))
   = (Inl ErrConflict, snd (BoardPut (board_entry ''m'' ''n'' ''k'' ''x'') 0 8
       (snd (BoardPut (board_entry ''m'' ''n'' ''k'' ''w'') (-1) 7 New))))"
proof -
  let ?s = "snd (BoardPut (board_entry ''m'' ''n'' ''k'' ''w'') (-1) 7 New)"
  have "BoardPut (board_entry ''m'' ''n'' ''k'' ''x'') 0 8 ?s =
      (Inr \<lparr>b_MissionID = ''m'', b_Namespace = ''n'', b_Key = ''k'', b_Value = ''x'', b_Version = 1, b_UpdatedAt = 8\<rparr>,
       snd (BoardPut (board_entry ''m'' ''n'' ''k'' ''x'') 0 8 ?s))"
    by (simp add: BoardPut_def New_def Let_def)
  then show ?thesis
    using board_cas [where m = "''m''" and ns = "''n''" and key = "''k''" and val = "''x''" and v = 0 and now = 8
      and s = ?s and val' = "''y''" and now' = 9] by (simp split: prod.splits)
qed

text \<open>Two different addresses can share one blackboard entry. The storage key joins mission, namespace and key with
  slashes although namespaces and keys may contain slashes themselves; so the pair \<open>(a, b/c)\<close> and the pair \<open>(a/b, c)\<close> are the
  same entry: a value written at the first address is returned by a read at the second, which was never written.\<close>

theorem board_addresses_collide:
  "\<exists>e. fst (BoardPut \<lparr>b_MissionID = m, b_Namespace = a, b_Key = b @ ''/'' @ c, b_Value = val, b_Version = 0, b_UpdatedAt = 0\<rparr>
        (-1) now s) = Inr e
    \<and> BoardGet m (a @ ''/'' @ b) c (snd (BoardPut \<lparr>b_MissionID = m, b_Namespace = a, b_Key = b @ ''/'' @ c, b_Value = val,
        b_Version = 0, b_UpdatedAt = 0\<rparr> (-1) now s)) = Inr e
    \<and> b_Value e = val \<and> (b_Namespace e, b_Key e) = (a, b @ ''/'' @ c)"
  by (simp add: BoardPut_def BoardGet_def boardKey_def Let_def)

section \<open>Reputations\<close>

definition demo_signal :: ReputationSignal where
  "demo_signal = \<lparr>sig_ID = ''sig_1'', sig_AgentID = ''agt_1'', sig_Skill = ''go'', sig_Success = Some True, sig_Quality = None,
     sig_Reliable = None, sig_LatencyMS = 0, sig_CostCredits = 0, sig_Weight = 1, sig_EventRef = ''e''\<rparr>"

lemma map_values_single: "map_values sorted_list_of_fset (fmupd k v fmempty) = [v]"
  by (simp add: map_values_def sorted_list_of_fset.rep_eq map_filter_simps)

lemma signal_agent: "r_AgentID (ApplyReputationSignal r sig now) = r_AgentID r"
  by (simp add: ApplyReputationSignal_def RefreshScores_def Let_def split: option.splits bool.splits)

text \<open>C33: Reputation scores are always probabilities. In every reachable state, whatever signals were applied and in whatever
  order, each stored reputation has its posterior counts at least at the prior, its quality average and all three derived scores in
  the unit interval, and so has every record the listing returns; the arithmetic is the rounded \<open>float64\<close> arithmetic of the code.\<close>

theorem reputations_bounded:
  assumes "reachable s" "valid_order ord" "ListReputations ord agentID s = Inr rs"
  shows "(\<forall>k r. fmlookup (reputations s) k = Some r \<longrightarrow> reputation_inv r \<and> scores_bounded r)
    \<and> (\<forall>r \<in> set rs. scores_bounded r)"
proof -
  have ok: "reputation_inv r \<and> scores_bounded r" if "fmlookup (reputations s) k = Some r" for k r
    using reputations_okD [OF reachable_reputations [OF assms(1)] that] .
  have "scores_bounded r" if "r \<in> set rs" for r
    using that assms(3) RefreshScores_bounded ok
    by (auto simp: ListReputations_def set_map_values [OF assms(2)] split: option.splits)
  with ok show ?thesis by blast
qed

theorem reputations_bounded_witness:
  "\<exists>r. ListReputations sorted_list_of_fset ''agt_1'' (snd (StoreApplyReputationSignal demo_signal 30 scn_ready)) = Inr [r] \<and> scores_bounded r"
proof -
  let ?s = "snd (StoreApplyReputationSignal demo_signal 30 scn_ready)"
  let ?r = "ApplyReputationSignal (NewReputation ''agt_1'' ''go'') demo_signal 30"
  have f: "repSignals scn_ready = {||} \<and> reputations scn_ready = fmempty"
    by (simp add: scn_ready_def scn_created_def TransitionSubtask_def CreateMission_def UpsertAgent_def New_def Let_def
        created_subtask_def appendEventLocked_def split: option.splits sum.splits)
  have "fmlookup (agents scn_ready) ''agt_1'' \<noteq> None" by code_simp
  then obtain a where a: "fmlookup (agents scn_ready) ''agt_1'' = Some a" by auto
  have "sig_ID demo_signal = ''sig_1'' \<and> sig_AgentID demo_signal = ''agt_1'' \<and> sig_Skill demo_signal = ''go''"
    by (simp add: demo_signal_def)
  then have e: "reputations ?s = fmupd (reputationKey ''agt_1'' ''go'') ?r fmempty" "agents ?s = agents scn_ready"
    using f a by (simp_all add: StoreApplyReputationSignal_def applyReputationSignalLocked_def Let_def)
  have "r_AgentID ?r = ''agt_1''" by (simp add: signal_agent NewReputation_def)
  then have l: "ListReputations sorted_list_of_fset ''agt_1'' ?s = Inr [RefreshScores ?r]"
    by (simp add: ListReputations_def e a map_values_single)
  have "reachable ?s" by (rule reachable_step [OF reachable_ready step_ApplyReputationSignal])
  from reputations_bounded [OF this valid_order_sorted l] l show ?thesis by auto
qed
end
