(* ===== verification/Dag.thy ===== *)
theory Dag
  imports QueueProps
begin

text \<open>
  Task specifications and the validation of a submitted task graph (\<open>validateDAG\<close> in
  \<open>internal/core/service.go\<close>): unique names, existing dependencies, and Kahn's algorithm for cycles.
  A Go map with a zero default is a function.
\<close>

record TaskSpec =
  t_Name :: string
  t_Kind :: Kind
  t_RequiredSkills :: "string list"
  t_DependsOn :: "string list"
  t_Input :: payload
  t_Priority :: int
  t_Deadline :: "time option"
  t_MaxAttempts :: int
  t_Grants :: PermissionEnvelope
  t_Question :: string
  t_Options :: "string list"
  t_OnTimeout :: string

section \<open>The three passes\<close>

text \<open>First pass: permission envelopes and names; \<open>seen\<close> is the set of names so far.\<close>

fun check_names :: "TaskSpec list \<Rightarrow> string list \<Rightarrow> error + string list" where
  "check_names [] seen = Inr seen"
| "check_names (t # ts) seen =
     (case NormalizePermissionEnvelope (t_Grants t) of
        Inl _ \<Rightarrow> Inl ErrInvalidPermission
      | Inr _ \<Rightarrow>
          if t_Name t = '''' \<or> t_Name t \<in> set seen then Inl ErrInvalidDAG
          else check_names ts (t_Name t # seen))"

text \<open>Second pass: dependencies of one task, then of all tasks, counting in-degrees.\<close>

fun count_deps :: "string list \<Rightarrow> string \<Rightarrow> string list \<Rightarrow> (string \<Rightarrow> int) \<Rightarrow> error + (string \<Rightarrow> int)" where
  "count_deps seen name [] indegree = Inr indegree"
| "count_deps seen name (d # ds) indegree =
     (if d \<notin> set seen then Inl ErrInvalidDAG
      else if d = name then Inl ErrInvalidDAG
      else count_deps seen name ds (indegree(name := indegree name + 1)))"

fun count_all :: "string list \<Rightarrow> TaskSpec list \<Rightarrow> (string \<Rightarrow> int) \<Rightarrow> error + (string \<Rightarrow> int)" where
  "count_all seen [] indegree = Inr indegree"
| "count_all seen (t # ts) indegree =
     (case count_deps seen (t_Name t) (t_DependsOn t) indegree of
        Inl e \<Rightarrow> Inl e
      | Inr indegree \<Rightarrow> count_all seen ts indegree)"

text \<open>Third pass: visiting \<open>n\<close> lowers the in-degree of its dependents and queues those that reach 0.\<close>

fun dec_deps :: "string \<Rightarrow> string \<Rightarrow> string list \<Rightarrow> string list \<times> (string \<Rightarrow> int) \<Rightarrow> string list \<times> (string \<Rightarrow> int)" where
  "dec_deps n name [] st = st"
| "dec_deps n name (d # ds) (queue, indegree) =
     (if d = n then
        let indegree = indegree(name := indegree name - 1);
            queue = (if indegree name = 0 then queue @ [name] else queue)
        in dec_deps n name ds (queue, indegree)
      else dec_deps n name ds (queue, indegree))"

definition visit :: "TaskSpec list \<Rightarrow> string \<Rightarrow> string list \<times> (string \<Rightarrow> int) \<Rightarrow> string list \<times> (string \<Rightarrow> int)" where
  "visit tasks n st = fold (\<lambda>t. dec_deps n (t_Name t) (t_DependsOn t)) tasks st"

text \<open>Every iteration lowers the queue length plus the positive in-degrees.\<close>

definition kahn_measure :: "TaskSpec list \<Rightarrow> string list \<times> (string \<Rightarrow> int) \<Rightarrow> nat" where
  "kahn_measure tasks st = length (fst st) + (\<Sum>m \<in> t_Name ` set tasks. nat (snd st m))"

lemma dec_deps_measure:
  "name \<in> t_Name ` set tasks \<Longrightarrow> kahn_measure tasks (dec_deps n name ds st) \<le> kahn_measure tasks st"
proof (induction n name ds st rule: dec_deps.induct)
  case (2 n name d ds queue indegree)
  have "kahn_measure tasks (if indegree name - 1 = 0 then queue @ [name] else queue, indegree(name := indegree name - 1))
      \<le> kahn_measure tasks (queue, indegree)"
    using 2(3) by (simp add: kahn_measure_def sum.remove [of _ name] nat_mono)
  with 2 show ?case by (auto simp: Let_def split: if_splits intro: order_trans)
qed simp

lemma visit_measure: "set ts \<subseteq> set tasks \<Longrightarrow>
    kahn_measure tasks (fold (\<lambda>t. dec_deps n (t_Name t) (t_DependsOn t)) ts st) \<le> kahn_measure tasks st"
proof (induction ts arbitrary: st)
  case (Cons t ts)
  have "kahn_measure tasks (dec_deps n (t_Name t) (t_DependsOn t) st) \<le> kahn_measure tasks st"
    by (rule dec_deps_measure) (use Cons.prems in auto)
  from order_trans [OF Cons.IH this] Cons.prems show ?case by simp
qed simp

lemma kahn_decreases:
  "kahn_measure tasks (visit tasks n (queue, indegree)) < kahn_measure tasks (n # queue, indegree)"
  using visit_measure [of tasks tasks n "(queue, indegree)"] by (simp add: visit_def kahn_measure_def)

function kahn :: "TaskSpec list \<Rightarrow> string list \<Rightarrow> (string \<Rightarrow> int) \<Rightarrow> int \<Rightarrow> int" where
  "kahn tasks [] indegree visited = visited"
| "kahn tasks (n # queue) indegree visited =
     (case visit tasks n (queue, indegree) of (queue, indegree) \<Rightarrow> kahn tasks queue indegree (visited + 1))"
  by pat_completeness auto

termination
  by (relation "measure (\<lambda>(tasks, queue, indegree, _). kahn_measure tasks (queue, indegree))")
    (auto simp: kahn_decreases)

definition validateDAG :: "TaskSpec list \<Rightarrow> error + unit" where
  "validateDAG tasks =
     (case check_names tasks [] of
        Inl e \<Rightarrow> Inl e
      | Inr seen \<Rightarrow>
         (case count_all seen tasks (\<lambda>_. 0) of
            Inl e \<Rightarrow> Inl e
          | Inr indegree \<Rightarrow>
              let queue = filter (\<lambda>n. indegree n = 0) (map t_Name tasks);
                  visited = kahn tasks queue indegree 0
              in if visited \<noteq> int (length tasks) then Inl ErrInvalidDAG else Inr ()))"

section \<open>Correctness\<close>

text \<open>The dependency relation of a task list, and the dependencies of a name.\<close>

definition dep_rel :: "TaskSpec list \<Rightarrow> (string \<times> string) set" where
  "dep_rel tasks = {(d, t_Name t) | d t. t \<in> set tasks \<and> d \<in> set (t_DependsOn t)}"

definition deps_of :: "TaskSpec list \<Rightarrow> string \<Rightarrow> string list" where
  "deps_of tasks m = concat (map t_DependsOn (filter (\<lambda>t. t_Name t = m) tasks))"

lemma dep_rel_iff: "(d, m) \<in> dep_rel tasks \<longleftrightarrow> d \<in> set (deps_of tasks m)"
  by (auto simp: dep_rel_def deps_of_def)

lemma deps_of_task:
  "distinct (map t_Name tasks) \<Longrightarrow> t \<in> set tasks \<Longrightarrow> deps_of tasks (t_Name t) = t_DependsOn t"
proof (induction tasks)
  case (Cons a tasks)
  have "filter (\<lambda>t'. t_Name t' = t_Name a) tasks = []"
    using Cons.prems by (auto simp: filter_empty_conv image_iff)
  with Cons show ?case by (auto simp: deps_of_def)
qed simp

lemma check_names_iff:
  "check_names ts seen = Inr seen' \<longleftrightarrow> seen' = rev (map t_Name ts) @ seen
     \<and> (\<forall>t \<in> set ts. (\<exists>g. NormalizePermissionEnvelope (t_Grants t) = Inr g) \<and> t_Name t \<noteq> '''')
     \<and> distinct (map t_Name ts) \<and> set (map t_Name ts) \<inter> set seen = {}"
  by (induction ts arbitrary: seen) (auto split: sum.splits)

lemma count_deps_eq:
  "count_deps seen name ds f =
     (if \<forall>d \<in> set ds. d \<in> set seen \<and> d \<noteq> name then Inr (f(name := f name + int (length ds)))
      else Inl ErrInvalidDAG)"
  by (induction ds arbitrary: f) auto

lemma count_all_iff:
  "count_all seen ts f = Inr g \<longleftrightarrow>
     (\<forall>t \<in> set ts. \<forall>d \<in> set (t_DependsOn t). d \<in> set seen \<and> d \<noteq> t_Name t)
     \<and> g = (\<lambda>m. f m + int (length (deps_of ts m)))"
proof (induction ts arbitrary: f)
  case Nil
  then show ?case by (auto simp: deps_of_def)
next
  case (Cons t ts)
  have "(\<lambda>m. (f(t_Name t := f (t_Name t) + int (length (t_DependsOn t)))) m + int (length (deps_of ts m)))
      = (\<lambda>m. f m + int (length (deps_of (t # ts) m)))"
    by (auto simp: deps_of_def fun_eq_iff)
  then show ?case by (simp add: count_deps_eq Cons.IH)
qed

text \<open>One visit: in-degrees fall by the number of edges from \<open>n\<close>; names that reach 0 are queued.\<close>

lemma dec_deps_eq:
  "0 \<le> f name - int (count_list ds n) \<Longrightarrow> dec_deps n name ds (queue, f) =
     (queue @ (if n \<in> set ds \<and> f name = int (count_list ds n) then [name] else []),
      f(name := f name - int (count_list ds n)))"
proof (induction ds arbitrary: queue f)
  case (Cons d ds)
  show ?case
  proof (cases "d = n")
    case True
    let ?f = "f(name := f name - 1)"
    have ih: "dec_deps n name ds (q, ?f) = (q @ (if n \<in> set ds \<and> ?f name = int (count_list ds n) then [name] else []),
        ?f(name := ?f name - int (count_list ds n)))" for q
      by (rule Cons.IH) (use Cons.prems True in simp)
    have "count_list ds n = 0 \<longleftrightarrow> n \<notin> set ds" by (rule count_list_0_iff)
    with Cons.prems True show ?thesis by (auto simp: Let_def ih)
  next
    case False
    with Cons show ?thesis by simp
  qed
qed simp

lemma visit_eq:
  assumes "distinct (map t_Name ts)"
    and "\<And>t. t \<in> set ts \<Longrightarrow> int (count_list (t_DependsOn t) n) \<le> f (t_Name t)"
  shows "fold (\<lambda>t. dec_deps n (t_Name t) (t_DependsOn t)) ts (queue, f) =
    (queue @ map t_Name (filter (\<lambda>t. n \<in> set (t_DependsOn t)
        \<and> f (t_Name t) = int (count_list (t_DependsOn t) n)) ts),
     \<lambda>m. f m - int (count_list (deps_of ts m) n))"
  using assms
proof (induction ts arbitrary: queue f)
  case Nil
  then show ?case by (simp add: deps_of_def)
next
  case (Cons t ts)
  let ?f = "f(t_Name t := f (t_Name t) - int (count_list (t_DependsOn t) n))"
  have other: "t_Name t' \<noteq> t_Name t" if "t' \<in> set ts" for t' using Cons.prems(1) that by (auto simp: image_iff)
  have none: "deps_of ts (t_Name t) = []" using other by (auto simp: deps_of_def filter_empty_conv)
  have "fold (\<lambda>t. dec_deps n (t_Name t) (t_DependsOn t)) ts (q, ?f) =
    (q @ map t_Name (filter (\<lambda>t. n \<in> set (t_DependsOn t)
        \<and> ?f (t_Name t) = int (count_list (t_DependsOn t) n)) ts),
     \<lambda>m. ?f m - int (count_list (deps_of ts m) n))" for q
    by (rule Cons.IH) (use Cons.prems other in auto)
  moreover have "filter (\<lambda>t. n \<in> set (t_DependsOn t) \<and> ?f (t_Name t) = int (count_list (t_DependsOn t) n)) ts
      = filter (\<lambda>t. n \<in> set (t_DependsOn t) \<and> f (t_Name t) = int (count_list (t_DependsOn t) n)) ts"
    using other by (auto intro!: filter_cong)
  moreover have "(\<lambda>m. ?f m - int (count_list (deps_of ts m) n))
      = (\<lambda>m. f m - int (count_list (deps_of (t # ts) m) n))"
    using none by (auto simp: deps_of_def fun_eq_iff)
  ultimately show ?case
    using Cons.prems(2) [of t] by (simp add: dec_deps_eq)
qed

text \<open>The invariant of the loop: \<open>xs\<close> is what has been popped, in order.\<close>

definition kahn_inv :: "TaskSpec list \<Rightarrow> string list \<Rightarrow> string list \<Rightarrow> (string \<Rightarrow> int) \<Rightarrow> bool" where
  "kahn_inv tasks xs queue f \<longleftrightarrow> distinct (xs @ queue) \<and> set (xs @ queue) \<subseteq> t_Name ` set tasks
     \<and> (\<forall>m \<in> t_Name ` set tasks. f m = int (length (filter (\<lambda>d. d \<notin> set xs) (deps_of tasks m))))
     \<and> (\<forall>m \<in> t_Name ` set tasks. m \<in> set (xs @ queue) \<longleftrightarrow> set (deps_of tasks m) \<subseteq> set xs)
     \<and> (\<forall>ys m zs. xs = ys @ m # zs \<longrightarrow> set (deps_of tasks m) \<subseteq> set ys)"

lemma kahn_invD:
  assumes "kahn_inv tasks xs queue f"
  shows "distinct (xs @ queue)" "set (xs @ queue) \<subseteq> t_Name ` set tasks"
    "m \<in> t_Name ` set tasks \<Longrightarrow> f m = int (length (filter (\<lambda>d. d \<notin> set xs) (deps_of tasks m)))"
    "m \<in> t_Name ` set tasks \<Longrightarrow> m \<in> set (xs @ queue) \<longleftrightarrow> set (deps_of tasks m) \<subseteq> set xs"
    "xs = ys @ m # zs \<Longrightarrow> set (deps_of tasks m) \<subseteq> set ys"
  using assms unfolding kahn_inv_def by blast+

lemma length_filter_pop:
  "n \<notin> A \<Longrightarrow> length (filter (\<lambda>d. d \<notin> A) ds) = count_list ds n + length (filter (\<lambda>d. d \<notin> insert n A) ds)"
  by (induction ds) auto

lemma kahn_inv_step:
  assumes dist: "distinct (map t_Name tasks)" and inv: "kahn_inv tasks xs (n # queue) f"
  shows "kahn_inv tasks (xs @ [n]) (fst (visit tasks n (queue, f))) (snd (visit tasks n (queue, f)))"
proof -
  let ?names = "t_Name ` set tasks"
  let ?N = "map t_Name (filter (\<lambda>t. n \<in> set (t_DependsOn t) \<and> f (t_Name t) = int (count_list (t_DependsOn t) n)) tasks)"
  let ?g = "\<lambda>m. f m - int (count_list (deps_of tasks m) n)"
  have f: "f m = int (length (filter (\<lambda>d. d \<notin> set xs) (deps_of tasks m)))" if "m \<in> ?names" for m
    by (rule kahn_invD(3) [OF inv that])
  have ready: "m \<in> set (xs @ n # queue) \<longleftrightarrow> set (deps_of tasks m) \<subseteq> set xs" if "m \<in> ?names" for m
    by (rule kahn_invD(4) [OF inv that])
  have nx: "n \<notin> set xs" and nn: "n \<in> ?names" using kahn_invD(1,2) [OF inv] by auto
  have g: "?g m = int (length (filter (\<lambda>d. d \<notin> insert n (set xs)) (deps_of tasks m)))" if "m \<in> ?names" for m
    using f [OF that] length_filter_pop [OF nx, of "deps_of tasks m"] by simp
  have dt: "t_DependsOn t = deps_of tasks (t_Name t)" if "t \<in> set tasks" for t
    using deps_of_task [OF dist that] by simp
  have v: "visit tasks n (queue, f) = (queue @ ?N, ?g)"
    unfolding visit_def
  proof (rule visit_eq [OF dist])
    fix t assume t: "t \<in> set tasks"
    then show "int (count_list (t_DependsOn t) n) \<le> f (t_Name t)"
      using g [of "t_Name t"] dt [OF t] by simp
  qed
  have N: "m \<in> set ?N \<longleftrightarrow> n \<in> set (deps_of tasks m) \<and> set (deps_of tasks m) \<subseteq> insert n (set xs)" if m: "m \<in> ?names" for m
  proof -
    obtain t where t: "t \<in> set tasks" "m = t_Name t" using m by blast
    have "m \<in> set ?N \<longleftrightarrow> n \<in> set (deps_of tasks m) \<and> ?g m = 0"
      using t dt deps_of_task [OF dist] by (fastforce simp: image_iff)
    then show ?thesis unfolding g [OF m] by (auto simp: filter_empty_conv)
  qed
  have dN: "distinct ?N" using dist by (rule distinct_map_filter)
  have "set ?N \<subseteq> ?names" by auto
  then have "set ?N \<inter> set (xs @ n # queue) = {}" using N ready nx by blast
  with dN inv have "distinct ((xs @ [n]) @ queue @ ?N)" by (auto simp: kahn_inv_def)
  moreover have "set ((xs @ [n]) @ queue @ ?N) \<subseteq> ?names" using inv by (auto simp: kahn_inv_def)
  moreover have "m \<in> set ((xs @ [n]) @ queue @ ?N) \<longleftrightarrow> set (deps_of tasks m) \<subseteq> set (xs @ [n])" if "m \<in> ?names" for m
    using N [OF that] ready [OF that] by auto
  moreover have "set (deps_of tasks m) \<subseteq> set ys" if "xs @ [n] = ys @ m # zs" for ys m zs
    using that kahn_invD(5) [OF inv] ready [OF nn] by (cases zs rule: rev_cases) auto
  ultimately show ?thesis
    unfolding v using g by (simp add: kahn_inv_def)
qed

lemma kahn_result:
  assumes "distinct (map t_Name tasks)" "kahn_inv tasks xs queue f"
  shows "\<exists>ys. kahn tasks queue f (int (length xs)) = int (length ys) \<and> (\<exists>g. kahn_inv tasks ys [] g)"
  using assms
proof (induction tasks queue f "int (length xs)" arbitrary: xs rule: kahn.induct)
  case (1 tasks f)
  then show ?case by auto
next
  case (2 tasks n queue f)
  obtain q g where v: "visit tasks n (queue, f) = (q, g)" by fastforce
  have "kahn_inv tasks (xs @ [n]) q g" using kahn_inv_step [OF 2(2,3)] v by simp
  from 2(1) [OF v [symmetric] _ 2(2) this] obtain ys where
    "kahn tasks q g (int (length xs) + 1) = int (length ys)" "\<exists>h. kahn_inv tasks ys [] h"
    by (auto simp: add.commute)
  with v show ?case by auto
qed

lemma takeWhile_shorter: "d \<in> set ys \<Longrightarrow> length (takeWhile (\<lambda>x. x \<noteq> d) ys) < length ys"
  by (induction ys) auto

lemma kahn_complete:
  assumes dist: "distinct (map t_Name tasks)" and inv: "kahn_inv tasks xs [] f"
    and known: "\<And>d m. (d, m) \<in> dep_rel tasks \<Longrightarrow> d \<in> t_Name ` set tasks"
  shows "length xs = length tasks \<longleftrightarrow> acyclic (dep_rel tasks)"
proof
  have len: "card (t_Name ` set tasks) = length tasks" using dist by (metis distinct_card length_map set_map)
  have dx: "distinct xs" "set xs \<subseteq> t_Name ` set tasks" using kahn_invD(1,2) [OF inv] by auto
  {
    assume "length xs = length tasks"
    then have all: "set xs = t_Name ` set tasks"
      using dx len distinct_card [OF dx(1)] by (simp add: card_subset_eq)
    let ?pos = "\<lambda>m. length (takeWhile (\<lambda>x. x \<noteq> m) xs)"
    have "dep_rel tasks \<subseteq> measure ?pos"
    proof clarify
      fix d m assume e: "(d, m) \<in> dep_rel tasks"
      then have "m \<in> set xs" unfolding all by (auto simp: dep_rel_def)
      then obtain ys zs where xs: "xs = ys @ m # zs" by (auto simp: in_set_conv_decomp)
      have "m \<notin> set ys" "d \<in> set ys" using dx(1) kahn_invD(5) [OF inv xs] e xs by (auto simp: dep_rel_iff)
      then have "takeWhile (\<lambda>x. x \<noteq> m) ys = ys" by (simp add: takeWhile_eq_all_conv) metis
      then have "?pos m = length ys" unfolding xs using \<open>m \<notin> set ys\<close> by (simp add: takeWhile_append2)
      moreover have "?pos d = length (takeWhile (\<lambda>x. x \<noteq> d) ys)" unfolding xs using \<open>d \<in> set ys\<close> by (simp add: takeWhile_append1)
      then have "?pos d < length ys" using takeWhile_shorter [OF \<open>d \<in> set ys\<close>] by simp
      ultimately have "?pos d < ?pos m" by (simp only:)
      then show "(d, m) \<in> measure ?pos" by simp
    qed
    then show "acyclic (dep_rel tasks)" by (meson wf_acyclic wf_measure wf_subset)
  }
  assume "acyclic (dep_rel tasks)"
  moreover have "finite (dep_rel tasks)"
  proof (rule finite_subset)
    show "dep_rel tasks \<subseteq> (t_Name ` set tasks) \<times> (t_Name ` set tasks)"
      using known by (auto simp: dep_rel_def)
  qed simp
  ultimately have wf: "wf (dep_rel tasks)" by (simp add: finite_acyclic_wf)
  have "t_Name ` set tasks - set xs = {}"
  proof (rule ccontr)
    assume "t_Name ` set tasks - set xs \<noteq> {}"
    then obtain m where m: "m \<in> t_Name ` set tasks - set xs"
      "\<And>d. (d, m) \<in> dep_rel tasks \<Longrightarrow> d \<notin> t_Name ` set tasks - set xs"
      using wf by (metis ex_in_conv wfE_min)
    then have "set (deps_of tasks m) \<subseteq> set xs" using known by (auto simp: dep_rel_iff)
    with m(1) kahn_invD(4) [OF inv, of m] show False by auto
  qed
  then have "set xs = t_Name ` set tasks" using dx by blast
  then show "length xs = length tasks" using distinct_card [OF dx(1)] len by simp
qed

text \<open>C22: A task graph is accepted exactly when it can be executed. \<open>validateDAG\<close> terminates on every input and accepts a list of
  tasks if and only if every permission envelope is valid, every task has a non-empty name, names are unique, every dependency
  names a task of the list, and the dependency relation has no cycle.\<close>

theorem validateDAG_iff:
  "validateDAG tasks = Inr () \<longleftrightarrow>
     (\<forall>t \<in> set tasks. (\<exists>g. NormalizePermissionEnvelope (t_Grants t) = Inr g) \<and> t_Name t \<noteq> '''')
     \<and> distinct (map t_Name tasks)
     \<and> (\<forall>t \<in> set tasks. set (t_DependsOn t) \<subseteq> t_Name ` set tasks)
     \<and> acyclic (dep_rel tasks)"
proof -
  let ?names = "\<forall>t \<in> set tasks. (\<exists>g. NormalizePermissionEnvelope (t_Grants t) = Inr g) \<and> t_Name t \<noteq> ''''"
  let ?f = "\<lambda>m. int (length (deps_of tasks m))"
  let ?q = "filter (\<lambda>n. ?f n = 0) (map t_Name tasks)"
  have main: "kahn tasks ?q ?f 0 = int (length tasks) \<longleftrightarrow> acyclic (dep_rel tasks)"
    if "distinct (map t_Name tasks)" "\<forall>t \<in> set tasks. set (t_DependsOn t) \<subseteq> t_Name ` set tasks"
  proof -
    have "kahn_inv tasks [] ?q ?f" using that(1) by (auto simp: kahn_inv_def)
    from kahn_result [OF that(1) this] obtain ys g where ys: "kahn tasks ?q ?f 0 = int (length ys)" "kahn_inv tasks ys [] g"
      by auto
    with kahn_complete [OF that(1) ys(2)] that(2) show ?thesis by (auto simp: dep_rel_def)
  qed
  have self: "d \<noteq> t_Name t" if "acyclic (dep_rel tasks)" "t \<in> set tasks" "d \<in> set (t_DependsOn t)" for t d
    using that by (auto simp: dep_rel_def acyclic_def)
  have steps: "validateDAG tasks = Inr () \<longleftrightarrow> (\<exists>seen g. check_names tasks [] = Inr seen
      \<and> count_all seen tasks (\<lambda>_. 0) = Inr g \<and> kahn tasks (filter (\<lambda>n. g n = 0) (map t_Name tasks)) g 0 = int (length tasks))"
    by (auto simp: validateDAG_def Let_def split: sum.splits)
  have "validateDAG tasks = Inr () \<longleftrightarrow> ?names \<and> distinct (map t_Name tasks)
      \<and> (\<forall>t \<in> set tasks. \<forall>d \<in> set (t_DependsOn t). d \<in> t_Name ` set tasks \<and> d \<noteq> t_Name t)
      \<and> kahn tasks ?q ?f 0 = int (length tasks)"
    by (simp add: steps check_names_iff count_all_iff conj_assoc)
  then show ?thesis using main self by blast
qed


definition demo_spec :: "string \<Rightarrow> string list \<Rightarrow> TaskSpec" where
  "demo_spec name deps = \<lparr>t_Name = name, t_Kind = KindAgent, t_RequiredSkills = [], t_DependsOn = deps, t_Input = fmempty,
     t_Priority = 0, t_Deadline = None, t_MaxAttempts = 1, t_Grants = zero_grants, t_Question = '''', t_Options = [],
     t_OnTimeout = ''''\<rparr>"

definition demo_tasks :: "TaskSpec list" where
  "demo_tasks = [demo_spec ''a'' [], demo_spec ''b'' [''a''], demo_spec ''c'' [''a'', ''b'']]"

theorem validateDAG_iff_witness:
  "validateDAG demo_tasks = Inr () \<and> acyclic (dep_rel demo_tasks) \<and> validateDAG [demo_spec ''a'' [''b''], demo_spec ''b'' [''a'']] = Inl ErrInvalidDAG"
proof -
  have ok: "validateDAG demo_tasks = Inr ()" by code_simp
  moreover have "validateDAG [demo_spec ''a'' [''b''], demo_spec ''b'' [''a'']] = Inl ErrInvalidDAG" by code_simp
  ultimately show ?thesis using validateDAG_iff [of demo_tasks] by blast
qed

end
