(* ===== verification/CoreMission.thy ===== *)
theory CoreMission
  imports Dag
begin

text \<open>
  Creating, cancelling and driving a mission (\<open>internal/core/service.go\<close>): \<open>createMission\<close> and the
  activation of its roots, \<open>propagate\<close>, \<open>cancelUnreachable\<close>, \<open>deriveMissionStatus\<close>,
  \<open>CancelMissionAs\<close>, the agent registry of the service, and the configuration.

  A fresh identifier (\<open>newID\<close>, random) is an argument. The clock is read once per operation: every
  \<open>s.clk.Now()\<close> inside one operation is its argument \<open>now\<close>. \<open>ord\<close> is the enumeration order of Go
  maps inside the store.
\<close>

record Config =
  OfferTTL :: duration
  ScheduleBatch :: int
  HeartbeatStale :: duration
  LeadHeartbeatTTL :: duration
  ReputationCacheTTL :: duration
  MaxDelegateDepth :: int
  MaxDelegateFanout :: int
  MaxRework :: int

definition DefaultConfig :: Config where
  "DefaultConfig = \<lparr>OfferTTL = 30 * second, ScheduleBatch = 100, HeartbeatStale = 90 * second,
     LeadHeartbeatTTL = 60 * second, ReputationCacheTTL = 5 * second, MaxDelegateDepth = 4,
     MaxDelegateFanout = 8, MaxRework = 3\<rparr>"

text \<open>An operation whose value is dropped, and one whose conflict is tolerated.\<close>

definition ignore :: "('e, 'a, 's) outcome \<Rightarrow> ('e, unit, 's) outcome" where
  "ignore r = and_then r (\<lambda>_ s. (Inr (), s))"

definition tolerate_conflict :: "'a result \<Rightarrow> unit result" where
  "tolerate_conflict r = (case r of (Inl e, s) \<Rightarrow> (if e = ErrConflict then Inr () else Inl e, s) | (Inr _, s) \<Rightarrow> (Inr (), s))"

section \<open>Creation\<close>

text \<open>\<open>missionID[4:]\<close> drops the prefix \<open>msn_\<close> of every generated mission id.\<close>

definition subID :: "string \<Rightarrow> string \<Rightarrow> string" where
  "subID missionID name = ''sub_'' @ drop 4 missionID @ ''_'' @ name"

definition mission_subtask :: "string \<Rightarrow> TaskSpec \<Rightarrow> Subtask" where
  "mission_subtask missionID t = zero_subtask
     \<lparr>st_ID := subID missionID (t_Name t), st_MissionID := missionID, st_Kind := t_Kind t,
      st_RequiredSkills := t_RequiredSkills t, st_DependsOn := map (subID missionID) (t_DependsOn t),
      st_Scheduling := \<lparr>Priority = t_Priority t, Deadline = t_Deadline t, BudgetTokens = 0, Exclusive = False\<rparr>,
      st_Retry := \<lparr>MaxAttempts = t_MaxAttempts t, Backoff = '''', OnFailure = ''retry''\<rparr>,
      st_State := StatePending, st_Input := t_Input t,
      st_Grants := (case NormalizePermissionEnvelope (t_Grants t) of Inl _ \<Rightarrow> zero_grants | Inr g \<Rightarrow> g),
      st_Question := t_Question t, st_Options := t_Options t, st_OnTimeout := t_OnTimeout t\<rparr>"

definition activate_root :: "Actor \<Rightarrow> time \<Rightarrow> Subtask \<Rightarrow> Store \<Rightarrow> unit result" where
  "activate_root actor now sub s =
     (if st_State sub \<noteq> StatePending \<or> st_DependsOn sub \<noteq> [] then (Inr (), s)
      else tolerate_conflict (TransitionSubtask (st_ID sub) EvDepsSatisfied (st_Version sub) actor None now None s))"

definition activateMissionRoots :: "order \<Rightarrow> string \<Rightarrow> Actor \<Rightarrow> time \<Rightarrow> Store \<Rightarrow> unit result" where
  "activateMissionRoots ord missionID actor now s =
     for_each (activate_root actor now) (ListSubtasks ord missionID s) s"

definition createMission ::
  "order \<Rightarrow> string \<Rightarrow> Actor \<Rightarrow> string \<Rightarrow> string \<Rightarrow> int \<Rightarrow> TaskSpec list \<Rightarrow> time \<Rightarrow> Store \<Rightarrow> Mission result" where
  "createMission ord ident actor owner goal budgetTokens tasks now s =
     (if budgetTokens < 0 then (Inl ErrInvalidBudget, s)
      else case validateDAG tasks of
          Inl e \<Rightarrow> (Inl e, s)
        | Inr _ \<Rightarrow>
            let m = \<lparr>m_ID = ident, m_Owner = owner, m_Goal = goal, m_BudgetTokens = budgetTokens,
                  m_Status = MissionActive, m_Version = 0\<rparr>
            in and_then (CreateMission m (map (mission_subtask ident) tasks) actor now s) (\<lambda>_ s.
                 and_then (activateMissionRoots ord ident actor now s) (\<lambda>_ s. (Inr m, s))))"

definition CreateMissionWithBudgetAs ::
  "order \<Rightarrow> string \<Rightarrow> Actor \<Rightarrow> string \<Rightarrow> string \<Rightarrow> int \<Rightarrow> TaskSpec list \<Rightarrow> time \<Rightarrow> Store \<Rightarrow> Mission result" where
  "CreateMissionWithBudgetAs ord newid actor owner goal budgetTokens tasks now s =
     createMission ord newid actor owner goal budgetTokens tasks now s"

definition CreateMissionWithBudget ::
  "order \<Rightarrow> string \<Rightarrow> string \<Rightarrow> string \<Rightarrow> int \<Rightarrow> TaskSpec list \<Rightarrow> time \<Rightarrow> Store \<Rightarrow> Mission result" where
  "CreateMissionWithBudget ord newid owner goal budgetTokens tasks now s =
     CreateMissionWithBudgetAs ord newid \<lparr>ac_Kind = ''human'', ac_ID = owner\<rparr> owner goal budgetTokens tasks now s"

section \<open>Propagation\<close>

definition deriveMissionStatus :: "order \<Rightarrow> string \<Rightarrow> time \<Rightarrow> Store \<Rightarrow> unit result" where
  "deriveMissionStatus ord missionID now s =
     (let st = MissionStatusOf (map st_State (ListSubtasks ord missionID s)) in
      if st = MissionActive then (Inr (), s)
      else case GetMission missionID s of
          Inl e \<Rightarrow> (Inl e, s)
        | Inr m \<Rightarrow>
            if m_Status m \<noteq> MissionActive then (Inr (), s)
            else tolerate_conflict (SetMissionStatus missionID st (m_Version m) (system_actor ''orchestrator'') now s))"

text \<open>\<open>byID\<close> is filled in listing order, so a later entry for an id would win.\<close>

definition deps_ready :: "Subtask list \<Rightarrow> Subtask \<Rightarrow> bool" where
  "deps_ready subs sub =
     (let byID = map_of (rev (map (\<lambda>x. (st_ID x, x)) subs)) in
      list_all (\<lambda>dep. case byID dep of None \<Rightarrow> False | Some x \<Rightarrow> st_State x = StateSucceeded) (st_DependsOn sub))"

definition propagate_one :: "Subtask list \<Rightarrow> time \<Rightarrow> Subtask \<Rightarrow> Store \<Rightarrow> unit result" where
  "propagate_one subs now sub s =
     (if st_State sub \<noteq> StatePending then (Inr (), s)
      else if deps_ready subs sub
      then ignore (TransitionSubtask (st_ID sub) EvDepsSatisfied (st_Version sub)
        (system_actor ''orchestrator'') None now None s)
      else (Inr (), s))"

definition propagate :: "order \<Rightarrow> Subtask \<Rightarrow> Actor \<Rightarrow> time \<Rightarrow> Store \<Rightarrow> unit result" where
  "propagate ord completed actor now s =
     (let subs = ListSubtasks ord (st_MissionID completed) s in
      and_then (for_each (propagate_one subs now) subs s)
        (\<lambda>_ s. deriveMissionStatus ord (st_MissionID completed) now s))"

section \<open>Cancelling what can no longer run\<close>

text \<open>One pass over the listing; \<open>dead\<close> is the set of dead ids, newest first.\<close>

fun cancel_pass ::
  "string \<Rightarrow> Actor \<Rightarrow> time \<Rightarrow> Subtask list \<Rightarrow> string list \<Rightarrow> Store \<Rightarrow> (error, string list, Store) outcome" where
  "cancel_pass failedID actor now [] dead s = (Inr dead, s)"
| "cancel_pass failedID actor now (sub # subs) dead s =
     (if st_State sub \<noteq> StatePending \<or> st_ID sub \<in> set dead then cancel_pass failedID actor now subs dead s
      else if list_ex (\<lambda>dep. dep \<in> set dead) (st_DependsOn sub)
      then and_then (TransitionSubtask (st_ID sub) EvCancelled (st_Version sub) actor
             (Some (fmap_of_list [(''reason'', VStr (''upstream failed: '' @ failedID))])) now None s)
           (\<lambda>_ s. cancel_pass failedID actor now subs (st_ID sub # dead) s)
      else cancel_pass failedID actor now subs dead s)"

lemma cancel_pass_dead:
  assumes "cancel_pass failedID actor now subs dead s = (Inr dead', s')"
  shows "\<exists>new. dead' = new @ dead \<and> set new \<subseteq> st_ID ` set subs - set dead"
  using assms
proof (induction failedID actor now subs dead s arbitrary: dead' s' rule: cancel_pass.induct)
  case (2 failedID actor now sub subs dead s)
  consider (skip) "st_State sub \<noteq> StatePending \<or> st_ID sub \<in> set dead"
      | (cancel) "\<not> (st_State sub \<noteq> StatePending \<or> st_ID sub \<in> set dead)" "list_ex (\<lambda>dep. dep \<in> set dead) (st_DependsOn sub)"
      | (keep) "\<not> (st_State sub \<noteq> StatePending \<or> st_ID sub \<in> set dead)" "\<not> list_ex (\<lambda>dep. dep \<in> set dead) (st_DependsOn sub)"
    by blast
  then show ?case
  proof cases
    case skip
    with 2(1) 2(4) show ?thesis by fastforce
  next
    case cancel
    with 2(4) obtain t u where t: "cancel_pass failedID actor now subs (st_ID sub # dead) t = (Inr dead', s')"
      by (auto simp: and_then_Inr)
    from 2(2) [OF cancel t] obtain new where n: "dead' = new @ st_ID sub # dead"
      "set new \<subseteq> st_ID ` set subs - set (st_ID sub # dead)" by blast
    then have "dead' = (new @ [st_ID sub]) @ dead \<and> set (new @ [st_ID sub]) \<subseteq> st_ID ` set (sub # subs) - set dead"
      using cancel by auto
    then show ?thesis by blast
  next
    case keep
    with 2(3) 2(4) show ?thesis by fastforce
  qed
qed simp

definition undecided :: "Subtask list \<Rightarrow> string list \<Rightarrow> nat" where
  "undecided subs dead = card (st_ID ` set subs - set dead)"

lemma cancel_pass_decides:
  assumes "cancel_pass failedID actor now subs dead s = (Inr dead', s')" and "length dead' \<noteq> length dead"
  shows "undecided subs dead' < undecided subs dead"
proof -
  from cancel_pass_dead [OF assms(1)] obtain new where n: "dead' = new @ dead"
    "set new \<subseteq> st_ID ` set subs - set dead" by blast
  with assms(2) obtain x where "x \<in> set new" by (cases new) auto
  with n have "st_ID ` set subs - set dead' \<subset> st_ID ` set subs - set dead" by auto
  then show ?thesis by (simp add: undecided_def psubset_card_mono)
qed

text \<open>The loop ends because every further pass needs a newly dead subtask.\<close>

function cancel_loop :: "string \<Rightarrow> Actor \<Rightarrow> time \<Rightarrow> Subtask list \<Rightarrow> string list \<Rightarrow> Store \<Rightarrow> unit result" where
  "cancel_loop failedID actor now subs dead s =
     (case cancel_pass failedID actor now subs dead s of
        (Inl e, s') \<Rightarrow> (Inl e, s')
      | (Inr dead', s') \<Rightarrow>
          if length dead' = length dead then (Inr (), s') else cancel_loop failedID actor now subs dead' s')"
  by pat_completeness auto

termination
  by (relation "measure (\<lambda>(_, _, _, subs, dead, _). undecided subs dead)")
    (auto intro: cancel_pass_decides [OF sym])

declare cancel_loop.simps [simp del]

definition cancelUnreachable :: "order \<Rightarrow> Subtask \<Rightarrow> Actor \<Rightarrow> time \<Rightarrow> Store \<Rightarrow> unit result" where
  "cancelUnreachable ord failed actor now s =
     cancel_loop (st_ID failed) actor now (ListSubtasks ord (st_MissionID failed) s) [st_ID failed] s"

section \<open>Cancelling a mission\<close>

definition cancel_one :: "Actor \<Rightarrow> time \<Rightarrow> Subtask \<Rightarrow> Store \<Rightarrow> unit result" where
  "cancel_one actor now sub s =
     (if Terminal (st_State sub) then (Inr (), s)
      else ignore (CancelSubtask (st_ID sub) (st_Version sub) actor now s))"

definition CancelMissionAs :: "order \<Rightarrow> string \<Rightarrow> Actor \<Rightarrow> time \<Rightarrow> Store \<Rightarrow> unit result" where
  "CancelMissionAs ord ident actor now s =
     and_then (for_each (cancel_one actor now) (ListSubtasks ord ident s) s) (\<lambda>_ s.
       case GetMission ident s of
         Inl e \<Rightarrow> (Inl e, s)
       | Inr m \<Rightarrow> SetMissionStatus ident MissionCancelled (m_Version m) actor now s)"

definition CancelMission :: "order \<Rightarrow> string \<Rightarrow> string \<Rightarrow> time \<Rightarrow> Store \<Rightarrow> unit result" where
  "CancelMission ord ident owner now s = CancelMissionAs ord ident \<lparr>ac_Kind = ''human'', ac_ID = owner\<rparr> now s"

section \<open>Agents\<close>

text \<open>The result is the argument after the call: its id, health and heartbeat are set through the pointer.\<close>

definition RegisterAgent :: "order \<Rightarrow> string \<Rightarrow> Agent \<Rightarrow> time \<Rightarrow> Store \<Rightarrow> Agent result" where
  "RegisterAgent ord newid a now s =
     (let a = (if a_ID a = '''' then a\<lparr>a_ID := newid\<rparr> else a) in
      if a_AuthSubject a \<noteq> ''''
         \<and> list_ex (\<lambda>x. a_ID x \<noteq> a_ID a \<and> a_AuthSubject x = a_AuthSubject a) (ListAgents ord s)
      then (Inl ErrConflict, s)
      else
        let a = (if a_Health a = '''' then a\<lparr>a_Health := ''healthy''\<rparr> else a)
        in UpsertAgent a now s)"

definition Heartbeat :: "string \<Rightarrow> time \<Rightarrow> Store \<Rightarrow> unit result" where
  "Heartbeat agentID now s = HeartbeatAgent agentID now s"

definition ServiceGetMissionBudget :: "order \<Rightarrow> string \<Rightarrow> Store \<Rightarrow> error + BudgetAccount \<times> BudgetHold list" where
  "ServiceGetMissionBudget ord ident s =
     (case GetMissionBudget ident s of
        Inl e \<Rightarrow> Inl e
      | Inr account \<Rightarrow> (case ListBudgetHolds ord ident s of Inl e \<Rightarrow> Inl e | Inr holds \<Rightarrow> Inr (account, holds)))"

end
