(* ===== verification/CoreExec.thy ===== *)
theory CoreExec
  imports CoreMission
begin

text \<open>
  The service object and the execution callbacks of \<open>internal/core/service.go\<close>, with the reputation
  part of \<open>internal/core/quality.go\<close>: lease ownership checks, accept, start, renew, complete, fail,
  the recording of outcomes and the reputation cache.

  A service is its store, its configuration, its placement strategy and its reputation cache. An
  operation that only touches the store is a function on \<open>Store\<close>, lifted with \<open>on_store\<close>.
\<close>

section \<open>The service object\<close>

record CacheEntry =
  ce_records :: "ReputationRecord list"
  ce_expiresAt :: time

text \<open>The round-robin strategy has a counter and the counter value of each agent's last placement.\<close>

datatype PlacementStrategy = CapabilityFirst | RoundRobin int "(string, int) fmap"

record Service =
  sv_st :: Store
  sv_cfg :: Config
  sv_strategy :: PlacementStrategy
  sv_cache :: "CacheEntry table"

definition NewService :: "Store \<Rightarrow> Config \<Rightarrow> Service" where
  "NewService st cfg = \<lparr>sv_st = st, sv_cfg = cfg, sv_strategy = CapabilityFirst, sv_cache = fmempty\<rparr>"

definition on_store :: "(Store \<Rightarrow> ('e, 'a, Store) outcome) \<Rightarrow> Service \<Rightarrow> ('e, 'a, Service) outcome" where
  "on_store f sv = (case f (sv_st sv) of (r, s) \<Rightarrow> (r, sv\<lparr>sv_st := s\<rparr>))"

lemma on_store_st [simp]: "sv_st (snd (on_store f sv)) = snd (f (sv_st sv))"
  by (simp add: on_store_def split: prod.splits)

lemma on_store_fst [simp]: "fst (on_store f sv) = fst (f (sv_st sv))"
  by (simp add: on_store_def split: prod.splits)

section \<open>Lease ownership\<close>

definition authorizeLeaseOwner :: "string \<Rightarrow> string \<Rightarrow> int \<Rightarrow> string \<Rightarrow> bool \<Rightarrow> Store \<Rightarrow> error + Lease" where
  "authorizeLeaseOwner lid subtaskID fencingToken agentID requireActive s =
     (if agentID = '''' then Inl ErrForbidden
      else case GetLease lid s of
          Inl e \<Rightarrow> Inl e
        | Inr lease \<Rightarrow>
            if l_AgentID lease \<noteq> agentID then Inl ErrForbidden
            else if subtaskID \<noteq> '''' \<and> l_SubtaskID lease \<noteq> subtaskID then Inl ErrForbidden
            else if l_FencingToken lease \<noteq> fencingToken \<or> requireActive \<and> l_State lease \<noteq> LeaseActive
            then Inl ErrFenced else Inr lease)"

definition authorizeSubtaskLeaseOwner :: "string \<Rightarrow> int \<Rightarrow> string \<Rightarrow> bool \<Rightarrow> Store \<Rightarrow> error + Subtask" where
  "authorizeSubtaskLeaseOwner subtaskID fencingToken agentID requireActive s =
     (case GetSubtask subtaskID s of
        Inl e \<Rightarrow> Inl e
      | Inr sub \<Rightarrow>
          if st_LeaseID sub = '''' then Inl ErrFenced
          else case authorizeLeaseOwner (st_LeaseID sub) subtaskID fencingToken agentID requireActive s of
              Inl e \<Rightarrow> Inl e
            | Inr _ \<Rightarrow> Inr sub)"

definition AuthorizeArtifactAccess :: "string \<Rightarrow> string \<Rightarrow> string \<Rightarrow> Store \<Rightarrow> error + unit" where
  "AuthorizeArtifactAccess artifactID lid agentID s =
     (case GetLease lid s of
        Inl e \<Rightarrow> Inl e
      | Inr lease \<Rightarrow>
          if l_AgentID lease \<noteq> agentID \<or> l_State lease \<noteq> LeaseActive then Inl ErrForbidden
          else case GetContextPackage lid s of
              Inl e \<Rightarrow> Inl e
            | Inr pkg \<Rightarrow>
                if list_ex (\<lambda>a. art_ID a = artifactID) (cp_Artifacts pkg) then Inr () else Inl ErrForbidden)"

definition ListOffers :: "order \<Rightarrow> string \<Rightarrow> Store \<Rightarrow> Subtask list" where
  "ListOffers ord agentID s = filter (\<lambda>sub. st_Assignee sub = agentID) (ListSubtasksByState ord StateOffered s)"

definition agent_actor :: "string \<Rightarrow> Actor" where
  "agent_actor ident = \<lparr>ac_Kind = ''agent'', ac_ID = ident\<rparr>"

definition ServiceAcceptLease :: "string \<Rightarrow> int \<Rightarrow> int \<Rightarrow> string \<Rightarrow> time \<Rightarrow> Store \<Rightarrow> Subtask result" where
  "ServiceAcceptLease lid fencingToken subtaskVersion agentID now s =
     (case authorizeLeaseOwner lid '''' fencingToken agentID True s of
        Inl e \<Rightarrow> (Inl e, s)
      | Inr _ \<Rightarrow> AcceptLease lid fencingToken subtaskVersion (agent_actor agentID) now s)"

definition ServiceStartSubtask :: "string \<Rightarrow> int \<Rightarrow> int \<Rightarrow> string \<Rightarrow> time \<Rightarrow> Store \<Rightarrow> Subtask result" where
  "ServiceStartSubtask subtaskID fencingToken version agentID now s =
     (case authorizeSubtaskLeaseOwner subtaskID fencingToken agentID True s of
        Inl e \<Rightarrow> (Inl e, s)
      | Inr _ \<Rightarrow> StartSubtask subtaskID fencingToken version (agent_actor agentID) now s)"

definition ServiceRenewLease :: "Config \<Rightarrow> string \<Rightarrow> int \<Rightarrow> time \<Rightarrow> Store \<Rightarrow> unit result" where
  "ServiceRenewLease cfg lid fencingToken now s = RenewLease lid fencingToken (wrap64 (2 * OfferTTL cfg)) now s"

section \<open>Outcomes and the reputation cache\<close>

definition reputationSkills :: "string list \<Rightarrow> string list" where
  "reputationSkills skills = (if skills = [] then [''*''] else skills)"

definition invalidateReputation :: "string \<Rightarrow> Service \<Rightarrow> Service" where
  "invalidateReputation agentID sv = (if agentID = '''' then sv else sv\<lparr>sv_cache := fmdrop agentID (sv_cache sv)\<rparr>)"

definition outcome_signal :: "Subtask \<Rightarrow> bool \<Rightarrow> string \<Rightarrow> float64 \<Rightarrow> string \<Rightarrow> ReputationSignal" where
  "outcome_signal sub success agentID latencyMS skill =
     \<lparr>sig_ID = ''outcome:'' @ st_ID sub @ '':'' @ itoa (st_Attempt sub) @ '':''
        @ (if success then ''true'' else ''false'') @ '':'' @ skill,
      sig_AgentID = agentID, sig_Skill = skill, sig_Success = Some success, sig_Quality = None,
      sig_Reliable = Some success, sig_LatencyMS = latencyMS, sig_CostCredits = 0,
      sig_Weight = fl (1 / 4), sig_EventRef = ''subtask:'' @ st_ID sub\<rparr>"

definition record_signal :: "time \<Rightarrow> string \<Rightarrow> ReputationSignal \<Rightarrow> Service \<Rightarrow> Service" where
  "record_signal now agentID sig sv =
     (case on_store (StoreApplyReputationSignal sig now) sv of
        (Inl e, sv) \<Rightarrow> if e \<noteq> ErrDuplicate then sv else invalidateReputation agentID sv
      | (Inr _, sv) \<Rightarrow> invalidateReputation agentID sv)"

definition recordOutcome :: "Subtask \<Rightarrow> bool \<Rightarrow> string \<Rightarrow> float64 \<Rightarrow> time \<Rightarrow> Service \<Rightarrow> Service" where
  "recordOutcome sub success agentID latencyMS now sv =
     (if agentID = '''' then sv
      else fold (\<lambda>skill. record_signal now agentID (outcome_signal sub success agentID latencyMS skill))
        (reputationSkills (st_RequiredSkills sub)) sv)"

definition cachedReputations ::
  "order \<Rightarrow> string \<Rightarrow> time \<Rightarrow> Service \<Rightarrow> (error, ReputationRecord list, Service) outcome" where
  "cachedReputations ord agentID now sv =
     (let fetch = (case ListReputations ord agentID (sv_st sv) of
            Inl e \<Rightarrow> (Inl e, sv)
          | Inr records \<Rightarrow>
              let ttl = (if ReputationCacheTTL (sv_cfg sv) \<le> 0 then 5 * second else ReputationCacheTTL (sv_cfg sv))
              in (Inr records, sv\<lparr>sv_cache := fmupd agentID
                   \<lparr>ce_records = records, ce_expiresAt = time_add now ttl\<rparr> (sv_cache sv)\<rparr>))
      in case fmlookup (sv_cache sv) agentID of
           None \<Rightarrow> fetch
         | Some entry \<Rightarrow> if time_before now (ce_expiresAt entry) then (Inr (ce_records entry), sv) else fetch)"

section \<open>Completion\<close>

text \<open>The latency of a lease; 0 when the lease is unknown or has no creation time.\<close>

definition lease_latency :: "string \<Rightarrow> time \<Rightarrow> Store \<Rightarrow> float64" where
  "lease_latency lid now s =
     (case GetLease lid s of
        Inl _ \<Rightarrow> 0
      | Inr lease \<Rightarrow> if l_CreatedAt lease = zero_time then 0
          else float_of_int (milliseconds (time_sub now (l_CreatedAt lease))))"

definition ServiceCompleteSubtaskWithUsage ::
  "order \<Rightarrow> string \<Rightarrow> int \<Rightarrow> string \<Rightarrow> string \<Rightarrow> int \<Rightarrow> int \<Rightarrow> string \<Rightarrow> time \<Rightarrow> Service
     \<Rightarrow> (error \<times> Subtask option, Subtask, Service) outcome" where
  "ServiceCompleteSubtaskWithUsage ord subtaskID fencingToken idemKey resultRef usageTokens version agentID now sv =
     (if usageTokens < 0 then (Inl (ErrInvalidBudget, None), sv)
      else case authorizeSubtaskLeaseOwner subtaskID fencingToken agentID False (sv_st sv) of
          Inl e \<Rightarrow> (Inl (e, None), sv)
        | Inr current \<Rightarrow>
            let latencyMS = lease_latency (st_LeaseID current) now (sv_st sv); actor = agent_actor agentID in
            (case on_store (CompleteSubtaskWithUsage subtaskID fencingToken idemKey resultRef usageTokens version actor now) sv of
               (Inl (e, osub), sv) \<Rightarrow>
                 (case osub of
                    None \<Rightarrow> (Inl (e, None), sv)
                  | Some sub \<Rightarrow>
                      if e = ErrDuplicate \<and> st_State sub = StateSucceeded
                      then
                        let sv = recordOutcome sub True agentID latencyMS now sv in
                        (case on_store (propagate ord sub actor now) sv of
                           (Inl e', sv) \<Rightarrow> (Inl (e', Some sub), sv)
                         | (Inr _, sv) \<Rightarrow> (Inl (ErrDuplicate, Some sub), sv))
                      else (Inl (e, Some sub), sv))
             | (Inr sub, sv) \<Rightarrow>
                 (case on_store (propagate ord sub actor now) sv of
                    (Inl e, sv) \<Rightarrow> (Inl (e, Some sub), sv)
                  | (Inr _, sv) \<Rightarrow> (Inr sub, recordOutcome sub True agentID latencyMS now sv))))"

definition ServiceCompleteSubtask ::
  "order \<Rightarrow> string \<Rightarrow> int \<Rightarrow> string \<Rightarrow> string \<Rightarrow> int \<Rightarrow> string \<Rightarrow> time \<Rightarrow> Service
     \<Rightarrow> (error \<times> Subtask option, Subtask, Service) outcome" where
  "ServiceCompleteSubtask ord subtaskID fencingToken idemKey resultRef version agentID now sv =
     ServiceCompleteSubtaskWithUsage ord subtaskID fencingToken idemKey resultRef 0 version agentID now sv"

section \<open>Failure and retry\<close>

definition retry_mutate :: "Subtask \<Rightarrow> error option \<times> Subtask" where
  "retry_mutate sub = (None, sub\<lparr>st_Attempt := st_Attempt sub + 1, st_Assignee := '''', st_LeaseID := ''''\<rparr>)"

definition ServiceFailSubtask ::
  "order \<Rightarrow> string \<Rightarrow> int \<Rightarrow> string \<Rightarrow> int \<Rightarrow> string \<Rightarrow> time \<Rightarrow> Service
     \<Rightarrow> (error \<times> Subtask option, Subtask, Service) outcome" where
  "ServiceFailSubtask ord subtaskID fencingToken reason version agentID now sv =
     (case authorizeSubtaskLeaseOwner subtaskID fencingToken agentID True (sv_st sv) of
        Inl e \<Rightarrow> (Inl (e, None), sv)
      | Inr current \<Rightarrow>
          let latencyMS = lease_latency (st_LeaseID current) now (sv_st sv); actor = agent_actor agentID in
          (case on_store (FailSubtask subtaskID fencingToken reason version actor now) sv of
             (Inl e, sv) \<Rightarrow> (Inl (e, None), sv)
           | (Inr sub, sv) \<Rightarrow>
               let sv = recordOutcome sub False agentID latencyMS now sv in
               if st_Attempt sub < MaxAttempts (st_Retry sub)
               then (case on_store (TransitionSubtask (st_ID sub) EvRetried (st_Version sub)
                        (system_actor ''orchestrator'') (Some (fmap_of_list [(''reason'', VStr reason)])) now
                        (Some retry_mutate)) sv of
                       (Inl e, sv) \<Rightarrow> (Inl (e, Some sub), sv)
                     | (Inr retried, sv) \<Rightarrow> (Inr retried, sv))
               else (case on_store (cancelUnreachable ord sub actor now) sv of
                       (Inl e, sv) \<Rightarrow> (Inl (e, Some sub), sv)
                     | (Inr _, sv) \<Rightarrow>
                        (case on_store (deriveMissionStatus ord (st_MissionID sub) now) sv of
                           (Inl e, sv) \<Rightarrow> (Inl (e, Some sub), sv)
                         | (Inr _, sv) \<Rightarrow> (Inr sub, sv)))))"

end
