(* ===== verification/CoreRuns.thy ===== *)
theory CoreRuns
  imports CoreExec
begin

text \<open>
  What the service layer does to the store. Loops over a listing change the listed entries one by one
  (\<open>for_each_entries\<close>), and every operation of the mission service is a run of store steps, so the
  invariants and the history of the store hold for whatever the service does.
\<close>

section \<open>Listings\<close>

lemma subtasks_keyed: "store_wf s \<Longrightarrow> keyed_by st_ID (subtasks s)"
  by (simp add: store_wf_def keys_wf_def)

lemma subtask_key: "store_wf s \<Longrightarrow> fmlookup (subtasks s) k = Some sub \<Longrightarrow> st_ID sub = k"
  by (rule keyed_byD [OF subtasks_keyed])

lemma ListSubtasks_member:
  assumes "valid_order ord" "store_wf s"
  shows "x \<in> set (ListSubtasks ord missionID s) \<longleftrightarrow> fmlookup (subtasks s) (st_ID x) = Some x \<and> st_MissionID x = missionID"
  using subtask_key [OF assms(2)] by (auto simp: ListSubtasks_def set_map_values [OF assms(1)])

lemma ListSubtasksByState_member:
  assumes "valid_order ord" "store_wf s"
  shows "x \<in> set (ListSubtasksByState ord st s) \<longleftrightarrow> fmlookup (subtasks s) (st_ID x) = Some x \<and> st_State x = st"
  using subtask_key [OF assms(2)] by (auto simp: ListSubtasksByState_def set_map_values [OF assms(1)])

lemma distinct_sort_slice_key: "distinct (map key xs) \<Longrightarrow> distinct (map key (sort_slice lt xs))"
  by (metis distinct_map mset_eq_imp_distinct_iff mset_sort_slice set_sort_slice)

lemma ListSubtasks_distinct:
  "valid_order ord \<Longrightarrow> store_wf s \<Longrightarrow> distinct (map st_ID (ListSubtasks ord missionID s))"
  unfolding ListSubtasks_def
  by (intro distinct_sort_slice_key distinct_map_filter_key distinct_map_key subtasks_keyed)

lemma ListSubtasksByState_distinct:
  "valid_order ord \<Longrightarrow> store_wf s \<Longrightarrow> distinct (map st_ID (ListSubtasksByState ord st s))"
  unfolding ListSubtasksByState_def
  by (intro distinct_sort_slice_key distinct_map_filter_key distinct_map_key subtasks_keyed)

section \<open>Loops over a listing\<close>

text \<open>A loop whose iteration for \<open>x\<close> turns the entry of \<open>x\<close> into \<open>g x\<close> and leaves the other entries alone.\<close>

lemma for_each_entries:
  assumes step: "\<And>x u. x \<in> set xs \<Longrightarrow> P u \<Longrightarrow> fmlookup (subtasks u) (st_ID x) = Some x \<Longrightarrow>
      \<exists>u'. f x u = (Inr (), u') \<and> P u' \<and> (\<forall>k. fmlookup (subtasks u') k = (if k = st_ID x then Some (g x) else fmlookup (subtasks u) k))"
    and start: "P s" "\<forall>x \<in> set xs. fmlookup (subtasks s) (st_ID x) = Some x" and dist: "distinct (map st_ID xs)"
  shows "\<exists>s'. for_each f xs s = (Inr (), s') \<and> P s' \<and> (\<forall>x \<in> set xs. fmlookup (subtasks s') (st_ID x) = Some (g x))
    \<and> (\<forall>k. k \<notin> st_ID ` set xs \<longrightarrow> fmlookup (subtasks s') k = fmlookup (subtasks s) k)"
  using assms
proof (induction xs arbitrary: s)
  case (Cons x xs)
  from Cons.prems(1) [of x s] Cons.prems(2,3) obtain u where u: "f x s = (Inr (), u)" "P u"
    "\<forall>k. fmlookup (subtasks u) k = (if k = st_ID x then Some (g x) else fmlookup (subtasks s) k)" by auto
  have "\<exists>s'. for_each f xs u = (Inr (), s') \<and> P s' \<and> (\<forall>x \<in> set xs. fmlookup (subtasks s') (st_ID x) = Some (g x))
    \<and> (\<forall>k. k \<notin> st_ID ` set xs \<longrightarrow> fmlookup (subtasks s') k = fmlookup (subtasks u) k)"
  proof (rule Cons.IH)
    have "st_ID y \<noteq> st_ID x" if "y \<in> set xs" for y using that Cons.prems(4) by (auto simp: image_iff)
    then show "\<forall>x \<in> set xs. fmlookup (subtasks u) (st_ID x) = Some x" using Cons.prems(3) u(3) by simp
    show "P u" "distinct (map st_ID xs)" using u(2) Cons.prems(4) by simp_all
  qed (rule Cons.prems(1), simp_all)
  then obtain s' where s': "for_each f xs u = (Inr (), s')" "P s'" "\<forall>x \<in> set xs. fmlookup (subtasks s') (st_ID x) = Some (g x)"
    "\<forall>k. k \<notin> st_ID ` set xs \<longrightarrow> fmlookup (subtasks s') k = fmlookup (subtasks u) k" by blast
  have "fmlookup (subtasks s') (st_ID x) = Some (g x)" using s'(4) u(3) Cons.prems(4) by simp
  moreover have "fmlookup (subtasks s') k = fmlookup (subtasks s) k" if "k \<notin> st_ID ` set (x # xs)" for k
    using that s'(4) u(3) by simp
  ultimately show ?case using u(1) s'(1,2,3) by simp
qed simp

text \<open>The same for the subtasks of a mission, as one equation for the whole table.\<close>

lemma listing_loop:
  assumes "valid_order ord" "store_wf s" "P s"
    and step: "\<And>x u. x \<in> set (ListSubtasks ord missionID s) \<Longrightarrow> P u \<Longrightarrow> fmlookup (subtasks u) (st_ID x) = Some x \<Longrightarrow>
      \<exists>u'. f x u = (Inr (), u') \<and> P u' \<and> (\<forall>k. fmlookup (subtasks u') k = (if k = st_ID x then Some (g x) else fmlookup (subtasks u) k))"
  shows "\<exists>s'. for_each f (ListSubtasks ord missionID s) s = (Inr (), s') \<and> P s' \<and> (\<forall>k. fmlookup (subtasks s') k =
    map_option (\<lambda>sub. if st_MissionID sub = missionID then g sub else sub) (fmlookup (subtasks s) k))"
proof -
  let ?subs = "ListSubtasks ord missionID s"
  note mem = ListSubtasks_member [OF assms(1,2)]
  have start: "\<forall>x \<in> set ?subs. fmlookup (subtasks s) (st_ID x) = Some x" by (simp add: mem)
  have "\<exists>s'. for_each f ?subs s = (Inr (), s') \<and> P s' \<and> (\<forall>x \<in> set ?subs. fmlookup (subtasks s') (st_ID x) = Some (g x))
    \<and> (\<forall>k. k \<notin> st_ID ` set ?subs \<longrightarrow> fmlookup (subtasks s') k = fmlookup (subtasks s) k)"
    by (rule for_each_entries [OF step assms(3) start ListSubtasks_distinct [OF assms(1,2)]])
  then obtain s' where s': "for_each f ?subs s = (Inr (), s')" "P s'" "\<forall>x \<in> set ?subs. fmlookup (subtasks s') (st_ID x) = Some (g x)"
    "\<forall>k. k \<notin> st_ID ` set ?subs \<longrightarrow> fmlookup (subtasks s') k = fmlookup (subtasks s) k" by blast
  have "fmlookup (subtasks s') k = map_option (\<lambda>sub. if st_MissionID sub = missionID then g sub else sub) (fmlookup (subtasks s) k)" for k
  proof (cases "k \<in> st_ID ` set ?subs")
    case True
    then obtain x where "x \<in> set ?subs" "st_ID x = k" by blast
    with s'(3) show ?thesis by (auto simp: mem)
  next
    case False
    then have "st_MissionID sub \<noteq> missionID" if "fmlookup (subtasks s) k = Some sub" for sub
      using that subtask_key [OF assms(2) that] by (auto simp: image_iff mem)
    moreover have "fmlookup (subtasks s') k = fmlookup (subtasks s) k" using s'(4) False by blast
    ultimately show ?thesis by (cases "fmlookup (subtasks s) k") auto
  qed
  with s'(1,2) show ?thesis by blast
qed

text \<open>Where in the loop the iteration for \<open>x\<close> happened.\<close>

lemma for_each_split:
  assumes "for_each f xs s = (Inr (), s')" "x \<in> set xs"
    and R: "\<And>u. R u u" "\<And>u v w. R u v \<Longrightarrow> R v w \<Longrightarrow> R u w" "\<And>x u. R u (snd (f x u))"
  shows "\<exists>u u'. R s u \<and> f x u = (Inr (), u') \<and> R u' s'"
  using assms(1,2)
proof (induction xs arbitrary: s)
  case (Cons y xs)
  then obtain u where u: "f y s = (Inr (), u)" "for_each f xs u = (Inr (), s')" by (auto simp: and_then_Inr)
  have steps: "R v (snd (for_each f ys v))" for v ys
  proof (induction ys arbitrary: v)
    case (Cons z zs)
    show ?case
      unfolding for_each.simps
      by (rule and_then_inv [where I = "R v"]) (use R(2) [of v] R(3) [where u = v] Cons.IH in blast)+
  qed (simp add: R(1))
  have yu: "R s u" using R(3) [where x = y and u = s] u(1) by simp
  show ?case
  proof (cases "x = y")
    case True
    then show ?thesis using u steps [of u xs] R(1) by auto
  next
    case False
    with Cons.IH [OF u(2)] Cons.prems(2) show ?thesis using R(2) [OF yu] by auto
  qed
qed simp

section \<open>Exact effects of store operations\<close>

lemma TransitionSubtask_exact:
  assumes "fmlookup (subtasks s) ident = Some sub" "st_Version sub = v" "Apply (st_State sub) ev = Inr nxt"
  shows "\<exists>s'. TransitionSubtask ident ev v actor pl now None s = (Inr (sub\<lparr>st_State := nxt, st_Version := v + 1\<rparr>), s')
    \<and> subtasks s' = fmupd ident (sub\<lparr>st_State := nxt, st_Version := v + 1\<rparr>) (subtasks s) \<and> missions s' = missions s
    \<and> leases s' = leases s"
  using assms by (simp add: TransitionSubtask_def Let_def)

lemma SetMissionStatus_exact:
  assumes "fmlookup (missions s) ident = Some m" "m_Version m = v"
  shows "\<exists>s'. SetMissionStatus ident st v actor now s = (Inr (), s') \<and> subtasks s' = subtasks s \<and> leases s' = leases s
    \<and> missions s' = fmupd ident (m\<lparr>m_Status := st, m_Version := v + 1\<rparr>) (missions s)"
  using assms by (simp add: SetMissionStatus_def Let_def)

section \<open>Service operations are store runs\<close>

named_theorems runs \<open>\<open>reaches s u \<Longrightarrow> reaches s (snd (op u))\<close> for the operations of the service\<close>

lemma reaches_one: "reaches s u \<Longrightarrow> mem_step u t \<Longrightarrow> reaches s t"
  by (rule reaches_step)

lemma run_and_then [runs]:
  assumes "reaches s (snd r)" "\<And>a u. r = (Inr a, u) \<Longrightarrow> reaches s u \<Longrightarrow> reaches s (snd (f a u))"
  shows "reaches s (snd (and_then r f))"
  by (rule and_then_inv [where I = "reaches s"]) (use assms in auto)

lemma run_for_each [runs]:
  assumes "reaches s u" "\<And>x v. x \<in> set xs \<Longrightarrow> reaches s v \<Longrightarrow> reaches s (snd (f x v))"
  shows "reaches s (snd (for_each f xs u))"
  by (rule for_each_inv [where I = "reaches s"]) (use assms in auto)

lemma run_ignore [runs]: "reaches s (snd r) \<Longrightarrow> reaches s (snd (ignore r))"
  by (auto simp: ignore_def and_then_def split: prod.splits sum.splits)

lemma run_tolerate [runs]: "reaches s (snd r) \<Longrightarrow> reaches s (snd (tolerate_conflict r))"
  by (auto simp: tolerate_conflict_def split: prod.splits sum.splits)

lemma run_transition [runs]:
  "reaches s u \<Longrightarrow> mutate_ok mutate \<Longrightarrow> reaches s (snd (TransitionSubtask ident ev v actor pl now mutate u))"
  by (rule reaches_step [OF _ step_TransitionSubtask])

lemma mutate_ok_None [simp]: "mutate_ok None"
  by (simp add: mutate_ok_def)

lemma run_store_ops [runs]:
  "reaches s u \<Longrightarrow> reaches s (snd (SetMissionStatus ident st v actor now u))"
  "reaches s u \<Longrightarrow> reaches s (snd (CancelSubtask ident v actor now u))"
  "reaches s u \<Longrightarrow> reaches s (snd (UpsertAgent a now u))"
  "reaches s u \<Longrightarrow> reaches s (snd (HeartbeatAgent ident now u))"
  "reaches s u \<Longrightarrow> reaches s (snd (MarkAgentHealth ident health u))"
  "reaches s u \<Longrightarrow> reaches s (snd (AcceptLease lid tok v actor now u))"
  "reaches s u \<Longrightarrow> reaches s (snd (RenewLease lid tok ttl now u))"
  "reaches s u \<Longrightarrow> reaches s (snd (StartSubtask ident tok v actor now u))"
  "reaches s u \<Longrightarrow> in_int64 usage \<Longrightarrow> reaches s (snd (CompleteSubtaskWithUsage ident tok key ref usage v actor now u))"
  "reaches s u \<Longrightarrow> reaches s (snd (FailSubtask ident tok reason v actor now u))"
  "reaches s u \<Longrightarrow> reaches s (snd (StoreApplyReputationSignal sig now u))"
  by (erule reaches_step, rule mem_step.intros, assumption?)+

lemma run_activate [runs]: "reaches s u \<Longrightarrow> reaches s (snd (activateMissionRoots ord ident actor now u))"
  unfolding activateMissionRoots_def by (rule run_for_each) (auto simp: activate_root_def intro!: runs)

lemma run_derive [runs]: "reaches s u \<Longrightarrow> reaches s (snd (deriveMissionStatus ord ident now u))"
  by (auto simp: deriveMissionStatus_def Let_def intro!: runs split: sum.splits)

lemma run_propagate [runs]: "reaches s u \<Longrightarrow> reaches s (snd (propagate ord sub actor now u))"
  unfolding propagate_def Let_def
  by (rule run_and_then [OF run_for_each]) (auto simp: propagate_one_def intro!: runs)

lemma run_cancel_pass: "reaches s u \<Longrightarrow> reaches s (snd (cancel_pass failedID actor now subs dead u))"
  by (induction failedID actor now subs dead u rule: cancel_pass.induct) (auto intro!: runs)

lemma run_cancel_loop: "reaches s u \<Longrightarrow> reaches s (snd (cancel_loop failedID actor now subs dead u))"
proof (induction failedID actor now subs dead u rule: cancel_loop.induct)
  case (1 failedID actor now subs dead u)
  from run_cancel_pass [OF 1(2), of failedID actor now subs dead] 1(1) show ?case
    by (subst cancel_loop.simps) (auto split: prod.splits sum.splits)
qed

lemma run_unreachable [runs]: "reaches s u \<Longrightarrow> reaches s (snd (cancelUnreachable ord sub actor now u))"
  unfolding cancelUnreachable_def by (rule run_cancel_loop)

lemma run_cancel [runs]: "reaches s u \<Longrightarrow> reaches s (snd (CancelMissionAs ord ident actor now u))"
  unfolding CancelMissionAs_def
  by (rule run_and_then [OF run_for_each]) (auto simp: cancel_one_def intro!: runs split: sum.splits)

lemma run_register [runs]: "reaches s u \<Longrightarrow> reaches s (snd (RegisterAgent ord newid a now u))"
  by (auto simp: RegisterAgent_def Let_def intro!: runs)

lemma subID_inj: "subID ident a = subID ident b \<longleftrightarrow> a = b"
  by (simp add: subID_def)

lemma mission_subtask_simps [simp]:
  "st_ID (mission_subtask ident t) = subID ident (t_Name t)" "st_MissionID (mission_subtask ident t) = ident"
  "st_State (mission_subtask ident t) = StatePending" "st_Version (mission_subtask ident t) = 0"
  "st_LeaseID (mission_subtask ident t) = ''''" "st_DependsOn (mission_subtask ident t) = map (subID ident) (t_DependsOn t)"
  by (simp_all add: mission_subtask_def zero_subtask_def)

definition fresh_mission :: "string \<Rightarrow> TaskSpec list \<Rightarrow> Store \<Rightarrow> bool" where
  \<comment> \<open>the random mission id is new: no subtask has it, and no subtask has an id derived from it\<close>
  "fresh_mission ident tasks s \<longleftrightarrow> (\<forall>t \<in> set tasks. fmlookup (subtasks s) (subID ident (t_Name t)) = None)
     \<and> (\<forall>k sub. fmlookup (subtasks s) k = Some sub \<longrightarrow> st_MissionID sub \<noteq> ident)"

lemma validateDAG_distinct: "validateDAG tasks = Inr () \<Longrightarrow> distinct (map t_Name tasks)"
  by (auto simp: validateDAG_def check_names_iff Let_def split: sum.splits if_splits)

lemma fresh_mission_subtasks:
  assumes "fresh_mission ident tasks s" "distinct (map t_Name tasks)"
  shows "fresh_subtasks \<lparr>m_ID = ident, m_Owner = owner, m_Goal = goal, m_BudgetTokens = b, m_Status = st, m_Version = v\<rparr>
    (map (mission_subtask ident) tasks) s"
proof -
  have "inj_on (subID ident) (set (map t_Name tasks))" by (rule inj_onI) (simp add: subID_inj)
  then have "distinct (map (subID ident) (map t_Name tasks))" using assms(2) by (simp only: distinct_map)
  then show ?thesis using assms(1)
    by (simp add: fresh_subtasks_def fresh_mission_def list_all_iff comp_def)
qed

lemma run_create [runs]:
  assumes "reaches s u" "fresh_mission ident tasks u" "in_int64 budget"
  shows "reaches s (snd (createMission ord ident actor owner goal budget tasks now u))"
proof (cases "budget < 0 \<or> validateDAG tasks \<noteq> Inr ()")
  case True
  then show ?thesis using assms(1) by (auto simp: createMission_def split: sum.splits)
next
  case False
  then have "validateDAG tasks = Inr ()" by simp
  from fresh_mission_subtasks [OF assms(2) validateDAG_distinct [OF this]] False assms(1,3) show ?thesis
    by (auto simp: createMission_def Let_def intro!: runs reaches_step [OF _ step_CreateMission])
qed

end
