(* ===== verification/MissionProps.thy ===== *)
theory MissionProps
  imports CoreRuns
begin

text \<open>
  The orchestration properties of the mission service: what creating a mission stores, which subtasks
  a completion releases, which ones a permanent failure takes down, and what cancelling a mission
  leaves behind. Each states the whole effect on the subtask table, not only that something holds
  afterwards, and that the operation succeeds.
\<close>

section \<open>A concrete mission\<close>

text \<open>The mission the witnesses run: \<open>a\<close>, then \<open>b\<close> after \<open>a\<close>, then \<open>c\<close> after both; and the same mission with \<open>a\<close> done.\<close>

definition core_created :: Store where
  "core_created = snd (createMission sorted_list_of_fset ''msn_9'' ann ''ann'' ''ship'' 0 demo_tasks 10 New)"

definition core_done :: Store where
  "core_done = snd (TransitionSubtask ''sub_9_a'' EvCompleted 3 ann None 13 None
     (snd (TransitionSubtask ''sub_9_a'' EvDecisionApproved 2 ann None 12 None
       (snd (TransitionSubtask ''sub_9_a'' EvBlocked 1 ann None 11 None core_created)))))"

lemma fresh_New: "fresh_mission ident tasks New"
  by (simp add: fresh_mission_def New_def)

lemma reachable_core_created: "reachable core_created"
proof -
  have "in_int64 0" by (simp add: in_int64_def)
  then show ?thesis
    unfolding core_created_def reachable_def by (intro run_create reaches_refl fresh_New)
qed

lemma reachable_core_done: "reachable core_done"
  using reachable_core_created unfolding core_done_def reachable_def by (intro runs mutate_ok_None)

definition core_task :: "string \<Rightarrow> Subtask" where
  "core_task name = the (fmlookup (subtasks core_created) (subID ''msn_9'' name))"

lemma core_mission:
  "fmlookup (missions core_created) ''msn_9'' = Some \<lparr>m_ID = ''msn_9'', m_Owner = ''ann'', m_Goal = ''ship'', m_BudgetTokens = 0,
     m_Status = MissionActive, m_Version = 0\<rparr>"
  "fmlookup (missions core_done) ''msn_9'' = Some \<lparr>m_ID = ''msn_9'', m_Owner = ''ann'', m_Goal = ''ship'', m_BudgetTokens = 0,
     m_Status = MissionActive, m_Version = 0\<rparr>"
  by code_simp+

lemma core_states:
  "map_option st_State (fmlookup (subtasks core_done) ''sub_9_a'') = Some StateSucceeded"
  "map_option st_MissionID (fmlookup (subtasks core_done) ''sub_9_a'') = Some ''msn_9''"
  "map_option (\<lambda>x. (st_ID x, st_State x, st_MissionID x, st_DependsOn x)) (fmlookup (subtasks core_done) ''sub_9_b'')
     = Some (''sub_9_b'', StatePending, ''msn_9'', [''sub_9_a''])"
  "map_option (\<lambda>x. (st_ID x, st_State x, st_MissionID x, st_DependsOn x)) (fmlookup (subtasks core_created) ''sub_9_b'')
     = Some (''sub_9_b'', StatePending, ''msn_9'', [''sub_9_a''])"
  "map_option (\<lambda>x. (st_ID x, st_State x, st_MissionID x, st_DependsOn x)) (fmlookup (subtasks core_created) ''sub_9_c'')
     = Some (''sub_9_c'', StatePending, ''msn_9'', [''sub_9_a'', ''sub_9_b''])"
  "fmpred (\<lambda>k x. case st_State x of StateOther _ \<Rightarrow> False | _ \<Rightarrow> True) (subtasks core_created)"
  by code_simp+

section \<open>Deriving the mission status\<close>

definition derived_mission :: "order \<Rightarrow> Store \<Rightarrow> Mission \<Rightarrow> Mission" where
  "derived_mission ord s m =
     (let st = MissionStatusOf (map st_State (ListSubtasks ord (m_ID m) s)) in
      if st = MissionActive \<or> m_Status m \<noteq> MissionActive then m else m\<lparr>m_Status := st, m_Version := m_Version m + 1\<rparr>)"

lemma derive_exact:
  assumes "fmlookup (missions s) ident = Some m" "m_ID m = ident"
  shows "\<exists>s'. deriveMissionStatus ord ident now s = (Inr (), s') \<and> subtasks s' = subtasks s
    \<and> fmlookup (missions s') ident = Some (derived_mission ord s m)"
proof -
  let ?st = "MissionStatusOf (map st_State (ListSubtasks ord ident s))"
  show ?thesis
  proof (cases "?st = MissionActive \<or> m_Status m \<noteq> MissionActive")
    case True
    then show ?thesis using assms by (auto simp: deriveMissionStatus_def derived_mission_def Let_def GetMission_def)
  next
    case False
    with SetMissionStatus_exact [OF assms(1) refl, of ?st "system_actor ''orchestrator''" now] assms show ?thesis
      by (auto simp: deriveMissionStatus_def derived_mission_def Let_def GetMission_def tolerate_conflict_def)
  qed
qed

section \<open>Releasing dependents\<close>

definition releasable :: "Store \<Rightarrow> string \<Rightarrow> Subtask \<Rightarrow> bool" where
  "releasable s missionID sub \<longleftrightarrow> st_MissionID sub = missionID \<and> st_State sub = StatePending
     \<and> (\<forall>dep \<in> set (st_DependsOn sub). \<exists>x. fmlookup (subtasks s) dep = Some x \<and> st_MissionID x = missionID
          \<and> st_State x = StateSucceeded)"

lemma deps_ready_iff:
  assumes "distinct (map st_ID subs)"
  shows "deps_ready subs sub \<longleftrightarrow> (\<forall>dep \<in> set (st_DependsOn sub). \<exists>x \<in> set subs. st_ID x = dep \<and> st_State x = StateSucceeded)"
proof -
  have "distinct (map fst (rev (map (\<lambda>x. (st_ID x, x)) subs)))"
    using assms by (simp add: rev_map [symmetric] comp_def)
  from map_of_eq_Some_iff [OF this]
  have "map_of (rev (map (\<lambda>x. (st_ID x, x)) subs)) d = Some x \<longleftrightarrow> x \<in> set subs \<and> st_ID x = d" for d x
    by auto
  moreover have "(case r of None \<Rightarrow> False | Some x \<Rightarrow> P x) \<longleftrightarrow> (\<exists>x. r = Some x \<and> P x)" for r :: "Subtask option" and P
    by (cases r) auto
  ultimately show ?thesis by (auto simp: deps_ready_def list_all_iff)
qed

lemma releasable_listed:
  assumes "valid_order ord" "store_wf s" "x \<in> set (ListSubtasks ord missionID s)"
  shows "releasable s missionID x \<longleftrightarrow> st_State x = StatePending \<and> deps_ready (ListSubtasks ord missionID s) x"
proof -
  have "(\<exists>y \<in> set (ListSubtasks ord missionID s). st_ID y = dep \<and> st_State y = StateSucceeded) \<longleftrightarrow>
      (\<exists>y. fmlookup (subtasks s) dep = Some y \<and> st_MissionID y = missionID \<and> st_State y = StateSucceeded)" for dep
    using subtask_key [OF assms(2), of dep] unfolding Bex_def ListSubtasks_member [OF assms(1,2)] by (metis (full_types))
  with assms(3) show ?thesis
    by (simp add: releasable_def deps_ready_iff [OF ListSubtasks_distinct [OF assms(1,2)]] ListSubtasks_member [OF assms(1,2)])
qed

definition released :: "Subtask \<Rightarrow> Subtask" where
  "released sub = sub\<lparr>st_State := StateReady, st_Version := st_Version sub + 1\<rparr>"

lemma propagate_one_exact:
  assumes "fmlookup (subtasks u) (st_ID x) = Some x"
  shows "\<exists>u'. propagate_one subs now x u = (Inr (), u') \<and> missions u' = missions u
    \<and> (\<forall>k. fmlookup (subtasks u') k = (if k = st_ID x
          then Some (if st_State x = StatePending \<and> deps_ready subs x then released x else x) else fmlookup (subtasks u) k))"
proof (cases "st_State x = StatePending \<and> deps_ready subs x")
  case True
  then have "Apply (st_State x) EvDepsSatisfied = Inr StateReady" by (simp add: Apply_def)
  from TransitionSubtask_exact [OF assms refl this, of "system_actor ''orchestrator''" None now] True show ?thesis
    by (auto simp: propagate_one_def ignore_def released_def)
next
  case False
  then show ?thesis using assms by (auto simp: propagate_one_def)
qed

lemma propagate_exact:
  assumes "reachable s" "valid_order ord" "fmlookup (missions s) (st_MissionID completed) = Some m"
  shows "\<exists>s'. propagate ord completed actor now s = (Inr (), s')
    \<and> (\<forall>k. fmlookup (subtasks s') k =
         map_option (\<lambda>sub. if releasable s (st_MissionID completed) sub then released sub else sub) (fmlookup (subtasks s) k))
    \<and> fmlookup (missions s') (st_MissionID completed) = Some (derived_mission ord s' m)"
proof -
  let ?mid = "st_MissionID completed" and ?subs = "ListSubtasks ord (st_MissionID completed) s"
  let ?g = "\<lambda>x. if st_State x = StatePending \<and> deps_ready ?subs x then released x else x"
  note wf = reachable_wf [OF assms(1)]
  note mem = ListSubtasks_member [OF assms(2) wf]
  have "\<exists>u. for_each (propagate_one ?subs now) ?subs s = (Inr (), u) \<and> missions u = missions s
      \<and> (\<forall>k. fmlookup (subtasks u) k = map_option (\<lambda>sub. if st_MissionID sub = ?mid then ?g sub else sub) (fmlookup (subtasks s) k))"
  proof (rule listing_loop [OF assms(2) wf])
    fix x :: Subtask and u :: Store assume "x \<in> set ?subs" and a: "missions u = missions s" and b: "fmlookup (subtasks u) (st_ID x) = Some x"
    from propagate_one_exact [OF b, of ?subs now]
    show "\<exists>u'. propagate_one ?subs now x u = (Inr (), u') \<and> missions u' = missions s
        \<and> (\<forall>k. fmlookup (subtasks u') k = (if k = st_ID x then Some (?g x) else fmlookup (subtasks u) k))"
      unfolding a .
  qed (rule refl)
  then obtain u where u: "for_each (propagate_one ?subs now) ?subs s = (Inr (), u)" "missions u = missions s"
    "\<forall>k. fmlookup (subtasks u) k = map_option (\<lambda>sub. if st_MissionID sub = ?mid then ?g sub else sub) (fmlookup (subtasks s) k)"
    by blast
  have same: "(if st_MissionID sub = ?mid then ?g sub else sub) = (if releasable s ?mid sub then released sub else sub)"
    if "fmlookup (subtasks s) k = Some sub" for k sub
    using that releasable_listed [OF assms(2) wf, of sub ?mid] subtask_key [OF wf that]
    by (auto simp: mem releasable_def)
  have entries: "fmlookup (subtasks u) k =
      map_option (\<lambda>sub. if releasable s ?mid sub then released sub else sub) (fmlookup (subtasks s) k)" for k
    using u(3) same [of k] by (cases "fmlookup (subtasks s) k") auto
  have "m_ID m = ?mid" using wf assms(3) by (auto simp: store_wf_def dest: keys_wfD)
  with derive_exact [of u ?mid m ord now] u(2) assms(3) obtain s' where
    "deriveMissionStatus ord ?mid now u = (Inr (), s')" "subtasks s' = subtasks u"
    "fmlookup (missions s') ?mid = Some (derived_mission ord u m)" by auto
  moreover from this have "derived_mission ord u m = derived_mission ord s' m"
    by (simp add: derived_mission_def ListSubtasks_def)
  ultimately show ?thesis using u(1) entries by (simp add: propagate_def Let_def)
qed

text \<open>C1: A completion releases exactly the subtasks it makes runnable. In a reachable state \<open>propagate\<close> always succeeds; the
  PENDING subtasks of the mission all of whose dependencies are SUCCEEDED subtasks of that mission become READY with their
  version raised by one, every other subtask of the store keeps its record, and an ACTIVE mission whose subtasks are now all
  final gets the status derived from them.\<close>

theorem propagate_releases:
  assumes "reachable s" "valid_order ord" "fmlookup (missions s) (st_MissionID completed) = Some m"
  shows "\<exists>s'. propagate ord completed actor now s = (Inr (), s')
    \<and> (\<forall>k. fmlookup (subtasks s') k =
         map_option (\<lambda>sub. if releasable s (st_MissionID completed) sub then released sub else sub) (fmlookup (subtasks s) k))
    \<and> fmlookup (missions s') (st_MissionID completed) = Some (derived_mission ord s' m)"
  by (rule propagate_exact [OF assms])

theorem propagate_releases_witness:
  "\<exists>s'. propagate sorted_list_of_fset (zero_subtask\<lparr>st_MissionID := ''msn_9''\<rparr>) ann 30 core_done = (Inr (), s')
     \<and> map_option st_State (fmlookup (subtasks s') ''sub_9_b'') = Some StateReady"
proof -
  from core_states(1,2,3) obtain a b where a: "fmlookup (subtasks core_done) ''sub_9_a'' = Some a" "st_State a = StateSucceeded"
      "st_MissionID a = ''msn_9''"
    and b: "fmlookup (subtasks core_done) ''sub_9_b'' = Some b" "st_State b = StatePending" "st_MissionID b = ''msn_9''"
      "st_DependsOn b = [''sub_9_a'']" by auto
  have "releasable core_done ''msn_9'' b" using a b by (simp add: releasable_def)
  with propagate_releases [OF reachable_core_done valid_order_sorted,
      of "zero_subtask\<lparr>st_MissionID := ''msn_9''\<rparr>", simplified, OF core_mission(2), of ann 30] b(1)
  show ?thesis by (auto simp: released_def)
qed


section \<open>Taking down what depends on a failure\<close>

text \<open>The specification: what a failure dooms, as the least set closed under dependency of PENDING subtasks.\<close>

inductive doomed :: "Store \<Rightarrow> string \<Rightarrow> string \<Rightarrow> string \<Rightarrow> bool" for s missionID failedID where
  doomed_root: "doomed s missionID failedID failedID"
| doomed_dep: "fmlookup (subtasks s) k = Some sub \<Longrightarrow> st_MissionID sub = missionID \<Longrightarrow> st_State sub = StatePending
    \<Longrightarrow> dep \<in> set (st_DependsOn sub) \<Longrightarrow> doomed s missionID failedID dep \<Longrightarrow> doomed s missionID failedID k"

definition cancelled_pending :: "Subtask \<Rightarrow> Subtask" where
  "cancelled_pending sub = sub\<lparr>st_State := StateCancelled, st_Version := st_Version sub + 1\<rparr>"

text \<open>Between the passes: the dead ids are doomed, and exactly the dead subtasks other than the failed one are cancelled.\<close>

definition pass_inv :: "Store \<Rightarrow> string \<Rightarrow> string \<Rightarrow> string list \<Rightarrow> Store \<Rightarrow> bool" where
  "pass_inv s missionID failedID dead u \<longleftrightarrow> failedID \<in> set dead \<and> (\<forall>d \<in> set dead. doomed s missionID failedID d)
     \<and> (\<forall>k. fmlookup (subtasks u) k =
          (if k \<in> set dead \<and> k \<noteq> failedID then map_option cancelled_pending (fmlookup (subtasks s) k) else fmlookup (subtasks s) k))
     \<and> (\<forall>k sub. k \<in> set dead \<longrightarrow> k \<noteq> failedID \<longrightarrow> fmlookup (subtasks s) k = Some sub
          \<longrightarrow> st_MissionID sub = missionID \<and> st_State sub = StatePending)"

lemma cancel_pass_inv:
  assumes "\<forall>x \<in> set subs. fmlookup (subtasks s) (st_ID x) = Some x \<and> st_MissionID x = missionID"
    and "pass_inv s missionID failedID dead u"
  shows "\<exists>dead' u'. cancel_pass failedID actor now subs dead u = (Inr dead', u') \<and> pass_inv s missionID failedID dead' u'"
  using assms
proof (induction subs arbitrary: dead u)
  case (Cons x subs)
  then have own: "fmlookup (subtasks s) (st_ID x) = Some x" "st_MissionID x = missionID" by simp_all
  show ?case
  proof (cases "st_State x = StatePending \<and> st_ID x \<notin> set dead \<and> list_ex (\<lambda>dep. dep \<in> set dead) (st_DependsOn x)")
    case False
    with Cons show ?thesis by auto
  next
    case True
    let ?x = "cancelled_pending x" and ?pl = "Some (fmap_of_list [(''reason'', VStr (''upstream failed: '' @ failedID))])"
    have u: "fmlookup (subtasks u) (st_ID x) = Some x" using Cons.prems(2) own True by (simp add: pass_inv_def)
    have "Apply (st_State x) EvCancelled = Inr StateCancelled" using True by (simp add: Apply_def)
    from TransitionSubtask_exact [OF u refl this, of actor ?pl now] obtain u' where
      u': "TransitionSubtask (st_ID x) EvCancelled (st_Version x) actor ?pl now None u = (Inr ?x, u')"
      "subtasks u' = fmupd (st_ID x) ?x (subtasks u)" by (auto simp: cancelled_pending_def)
    from True obtain dep where "dep \<in> set (st_DependsOn x)" "dep \<in> set dead" by (auto simp: list_ex_iff)
    then have "doomed s missionID failedID (st_ID x)"
      using own True Cons.prems(2) by (auto simp: pass_inv_def intro: doomed_dep)
    then have "pass_inv s missionID failedID (st_ID x # dead) u'"
      using Cons.prems(2) own True u'(2) by (auto simp: pass_inv_def)
    from Cons.IH [OF _ this] Cons.prems(1) True u'(1) show ?thesis by auto
  qed
qed auto

lemma cancel_pass_stable:
  assumes "cancel_pass failedID actor now subs dead u = (Inr dead, u')"
  shows "\<forall>x \<in> set subs. st_State x = StatePending \<longrightarrow> st_ID x \<notin> set dead \<longrightarrow> set (st_DependsOn x) \<inter> set dead = {}"
  using assms
proof (induction failedID actor now subs dead u arbitrary: u' rule: cancel_pass.induct)
  case (2 failedID actor now sub subs dead s)
  have "\<not> (\<not> (st_State sub \<noteq> StatePending \<or> st_ID sub \<in> set dead) \<and> list_ex (\<lambda>dep. dep \<in> set dead) (st_DependsOn sub))"
  proof
    assume a: "\<not> (st_State sub \<noteq> StatePending \<or> st_ID sub \<in> set dead) \<and> list_ex (\<lambda>dep. dep \<in> set dead) (st_DependsOn sub)"
    with 2(4) obtain t where "cancel_pass failedID actor now subs (st_ID sub # dead) t = (Inr dead, u')"
      by (auto simp: and_then_Inr)
    from cancel_pass_dead [OF this] obtain new where "dead = new @ st_ID sub # dead" by blast
    then have "length dead = length (new @ st_ID sub # dead)" by (rule arg_cong)
    then show False by simp
  qed
  with 2(1,3,4) show ?case by (cases "st_State sub \<noteq> StatePending \<or> st_ID sub \<in> set dead") (auto simp: list_ex_iff)
qed simp

lemma cancel_loop_inv:
  assumes "\<forall>x \<in> set subs. fmlookup (subtasks s) (st_ID x) = Some x \<and> st_MissionID x = missionID"
    and "pass_inv s missionID failedID dead u"
  shows "\<exists>dead' u'. cancel_loop failedID actor now subs dead u = (Inr (), u') \<and> pass_inv s missionID failedID dead' u'
    \<and> (\<forall>x \<in> set subs. st_State x = StatePending \<longrightarrow> st_ID x \<notin> set dead' \<longrightarrow> set (st_DependsOn x) \<inter> set dead' = {})"
  using assms
proof (induction failedID actor now subs dead u rule: cancel_loop.induct)
  case (1 failedID actor now subs dead u)
  from cancel_pass_inv [OF 1(2,3)] obtain dead' u' where p: "cancel_pass failedID actor now subs dead u = (Inr dead', u')"
    "pass_inv s missionID failedID dead' u'" by blast
  show ?case
  proof (cases "length dead' = length dead")
    case True
    with cancel_pass_dead [OF p(1)] have "dead' = dead" by auto
    with p cancel_pass_stable [of failedID actor now subs dead u u'] show ?thesis
      by (subst cancel_loop.simps) auto
  next
    case False
    from 1(1) [OF p(1) [symmetric] refl False 1(2) p(2)] p(1) False show ?thesis
      by (subst cancel_loop.simps) simp
  qed
qed

lemma cancelUnreachable_exact:
  assumes "reachable s" "valid_order ord"
  shows "\<exists>s'. cancelUnreachable ord failed actor now s = (Inr (), s') \<and> (\<forall>k. fmlookup (subtasks s') k =
    map_option (\<lambda>sub. if k \<noteq> st_ID failed \<and> st_MissionID sub = st_MissionID failed \<and> st_State sub = StatePending
        \<and> doomed s (st_MissionID failed) (st_ID failed) k then cancelled_pending sub else sub) (fmlookup (subtasks s) k))"
proof -
  let ?mid = "st_MissionID failed" and ?f = "st_ID failed" and ?subs = "ListSubtasks ord (st_MissionID failed) s"
  note mem = ListSubtasks_member [OF assms(2) reachable_wf [OF assms(1)]]
  have "pass_inv s ?mid ?f [?f] s" by (simp add: pass_inv_def doomed_root)
  from cancel_loop_inv [OF _ this, of ?subs actor now] obtain dead s' where
    s': "cancel_loop ?f actor now ?subs [?f] s = (Inr (), s')" "pass_inv s ?mid ?f dead s'"
    "\<forall>x \<in> set ?subs. st_State x = StatePending \<longrightarrow> st_ID x \<notin> set dead \<longrightarrow> set (st_DependsOn x) \<inter> set dead = {}"
    by (auto simp: mem)
  have "k \<in> set dead" if "doomed s ?mid ?f k" for k
    using that
  proof induction
    case doomed_root
    then show ?case using s'(2) by (simp add: pass_inv_def)
  next
    case (doomed_dep k sub dep)
    then have "sub \<in> set ?subs" "st_ID sub = k" using subtask_key [OF reachable_wf [OF assms(1)]] by (auto simp: mem)
    with s'(3) doomed_dep show ?case by auto
  qed
  moreover have "doomed s ?mid ?f k" if "k \<in> set dead" for k using that s'(2) unfolding pass_inv_def by blast
  ultimately have dead: "k \<in> set dead \<longleftrightarrow> doomed s ?mid ?f k" for k by blast
  have entry: "fmlookup (subtasks s') k = (if doomed s ?mid ?f k \<and> k \<noteq> ?f
      then map_option cancelled_pending (fmlookup (subtasks s) k) else fmlookup (subtasks s) k)" for k
    using s'(2) dead by (simp add: pass_inv_def)
  have pending: "st_MissionID sub = ?mid \<and> st_State sub = StatePending"
    if "doomed s ?mid ?f k" "k \<noteq> ?f" "fmlookup (subtasks s) k = Some sub" for k sub
    using that s'(2) dead by (simp add: pass_inv_def)
  have "fmlookup (subtasks s') k =
    map_option (\<lambda>sub. if k \<noteq> ?f \<and> st_MissionID sub = ?mid \<and> st_State sub = StatePending
        \<and> doomed s ?mid ?f k then cancelled_pending sub else sub) (fmlookup (subtasks s) k)" for k
    unfolding entry using pending [of k] by (cases "fmlookup (subtasks s) k") auto
  with s'(1) show ?thesis by (simp add: cancelUnreachable_def)
qed

text \<open>C2: A permanent failure takes down exactly what can no longer run. In a reachable state \<open>cancelUnreachable\<close> terminates and
  succeeds whatever the shape of the graph (cycles included); it cancels those PENDING subtasks of the mission that depend on
  the failed subtask directly or through other PENDING subtasks, and changes no other subtask.\<close>

theorem cancel_unreachable_exact:
  assumes "reachable s" "valid_order ord"
  shows "\<exists>s'. cancelUnreachable ord failed actor now s = (Inr (), s') \<and> (\<forall>k. fmlookup (subtasks s') k =
    map_option (\<lambda>sub. if k \<noteq> st_ID failed \<and> st_MissionID sub = st_MissionID failed \<and> st_State sub = StatePending
        \<and> doomed s (st_MissionID failed) (st_ID failed) k then cancelled_pending sub else sub) (fmlookup (subtasks s) k))"
  by (rule cancelUnreachable_exact [OF assms])

theorem cancel_unreachable_exact_witness:
  "\<exists>s'. cancelUnreachable sorted_list_of_fset (zero_subtask\<lparr>st_ID := ''sub_9_a'', st_MissionID := ''msn_9''\<rparr>) ann 30 core_created
       = (Inr (), s')
     \<and> map_option st_State (fmlookup (subtasks s') ''sub_9_c'') = Some StateCancelled"
proof -
  from core_states(4,5) obtain b c where
      b: "fmlookup (subtasks core_created) ''sub_9_b'' = Some b" "st_State b = StatePending" "st_MissionID b = ''msn_9''"
      "st_DependsOn b = [''sub_9_a'']"
    and c: "fmlookup (subtasks core_created) ''sub_9_c'' = Some c" "st_State c = StatePending" "st_MissionID c = ''msn_9''"
      "st_DependsOn c = [''sub_9_a'', ''sub_9_b'']" by auto
  have "doomed core_created ''msn_9'' ''sub_9_a'' ''sub_9_b''"
    by (rule doomed_dep [OF b(1,3,2) _ doomed_root]) (simp add: b(4))
  then have "doomed core_created ''msn_9'' ''sub_9_a'' ''sub_9_c''"
    by (rule doomed_dep [OF c(1,3,2), rotated]) (simp add: c(4))
  with cancel_unreachable_exact [OF reachable_core_created valid_order_sorted,
      of "zero_subtask\<lparr>st_ID := ''sub_9_a'', st_MissionID := ''msn_9''\<rparr>" ann 30] c
  show ?thesis by (auto simp: cancelled_pending_def)
qed


section \<open>Cancelling a mission\<close>

definition cancelled_mission_subtask :: "Subtask \<Rightarrow> Subtask" where
  "cancelled_mission_subtask sub = (if Terminal (st_State sub) then sub
     else sub\<lparr>st_State := StateCancelled, st_Assignee := '''', st_LeaseID := '''', st_Version := st_Version sub + 1\<rparr>)"

lemma Apply_cancel: "\<not> Terminal x \<Longrightarrow> (\<And>y. x \<noteq> StateOther y) \<Longrightarrow> Apply x EvCancelled = Inr StateCancelled"
  by (cases x) (auto simp: Apply_def)

text \<open>The subtasks a cancellation stops.\<close>

definition cancel_stops :: "Store \<Rightarrow> string \<Rightarrow> Subtask set" where
  "cancel_stops s ident = {x. fmlookup (subtasks s) (st_ID x) = Some x \<and> st_MissionID x = ident \<and> \<not> Terminal (st_State x)}"

text \<open>
  The specification. Of the leases of the stopped subtasks \<open>D\<close> those that are ACTIVE are released, each frees one slot of its agent;
  the holds of the stopped subtasks that are HELD are released, only the account of the mission changes, and not in what it has in
  total or has spent; the new events are about the mission; every other table and counter is as before.
\<close>

definition free_slot :: "Agent \<Rightarrow> Agent" where
  "free_slot a = (if a_Running a > 0 then a\<lparr>a_Running := a_Running a - 1\<rparr> else a)"

definition gives_back :: "Store \<Rightarrow> Subtask set \<Rightarrow> string \<Rightarrow> Lease \<Rightarrow> bool" where
  "gives_back s D k l \<longleftrightarrow> fmlookup (leases s) k = Some l \<and> l_State l = LeaseActive \<and> k \<in> st_LeaseID ` D"

definition released_hold :: "time \<Rightarrow> BudgetHold \<Rightarrow> BudgetHold" where
  "released_hold now h = (if h_Status h = BudgetHoldHeld then h\<lparr>h_Status := BudgetHoldReleased, h_SettledAt := Some now\<rparr> else h)"

definition cancel_keeps :: "Store \<Rightarrow> Store \<Rightarrow> bool" where
  "cancel_keeps s u \<longleftrightarrow> idem u = idem s \<and> decisions u = decisions s \<and> board u = board s \<and> artifacts u = artifacts s
     \<and> leadInbox u = leadInbox s \<and> contexts u = contexts s \<and> quality u = quality s \<and> appeals u = appeals s
     \<and> reputations u = reputations s \<and> repSignals u = repSignals s \<and> meters u = meters s
     \<and> fencingSeq u = fencingSeq s \<and> leaseSeq u = leaseSeq s"

definition cancel_logs :: "string \<Rightarrow> Actor \<Rightarrow> time \<Rightarrow> Store \<Rightarrow> Store \<Rightarrow> bool" where
  "cancel_logs m actor now s u \<longleftrightarrow> (\<exists>es. events u = events s @ es \<and> (\<forall>e \<in> set es. e_MissionID e = m \<and> e_Actor e = actor \<and> e_Ts e = now))"

definition cancel_frees :: "Store \<Rightarrow> Subtask set \<Rightarrow> Store \<Rightarrow> bool" where
  "cancel_frees s D u \<longleftrightarrow>
     (\<forall>k. fmlookup (leases u) k = map_option (\<lambda>l. if gives_back s D k l then l\<lparr>l_State := LeaseReleased\<rparr> else l) (fmlookup (leases s) k))
   \<and> (\<forall>i. fmlookup (agents u) i =
        map_option (free_slot ^^ card {k. \<exists>l. gives_back s D k l \<and> l_AgentID l = i}) (fmlookup (agents s) i))"

definition cancel_refunds :: "Store \<Rightarrow> string \<Rightarrow> time \<Rightarrow> Subtask set \<Rightarrow> Store \<Rightarrow> bool" where
  "cancel_refunds s m now D u \<longleftrightarrow>
     (\<forall>k. fmlookup (budgetHolds u) k =
        map_option (\<lambda>h. if k \<in> st_ID ` D then released_hold now h else h) (fmlookup (budgetHolds s) k))
   \<and> (\<forall>k. k \<noteq> m \<longrightarrow> fmlookup (budgets u) k = fmlookup (budgets s) k)
   \<and> map_option (\<lambda>b. (ba_Total b, ba_Spent b)) (fmlookup (budgets u) m) =
       map_option (\<lambda>b. (ba_Total b, ba_Spent b)) (fmlookup (budgets s) m)"

lemma cancel_frees_start: "cancel_frees s {} s"
  by (simp add: cancel_frees_def gives_back_def option.map_ident option.map_id0)

lemma cancel_refunds_start: "cancel_refunds s m now {} s"
  by (simp add: cancel_refunds_def option.map_id0 [unfolded id_def])

lemma lease_key_nonempty: "store_wf s \<Longrightarrow> fmlookup (leases s) k = Some l \<Longrightarrow> k \<noteq> ''''"
proof -
  assume "store_wf s" "fmlookup (leases s) k = Some l"
  then have "k = leaseID (l_FencingToken l)" by (auto simp: store_wf_def leases_wf_def entries_wf_def)
  then show ?thesis by simp
qed

text \<open>Two subtasks never point to the same lease.\<close>

lemma own_lease_differs:
  assumes "store_wf s" "fmlookup (subtasks s) (st_ID x) = Some x" "fmlookup (subtasks s) (st_ID y) = Some y" "x \<noteq> y"
    and "fmlookup (leases s) (st_LeaseID x) = Some l"
  shows "st_LeaseID y \<noteq> st_LeaseID x"
proof
  assume eq: "st_LeaseID y = st_LeaseID x"
  have "st_LeaseID x \<noteq> ''''" by (rule lease_key_nonempty [OF assms(1,5)])
  with eq assms(1-3,5) have "l_SubtaskID l = st_ID x" "l_SubtaskID l = st_ID y"
    by (fastforce simp: store_wf_def leases_wf_def owners_wf_def)+
  then show False using assms(2-4) by simp
qed

lemma gives_back_insert:
  "gives_back s (insert x D) k l \<longleftrightarrow> gives_back s D k l \<or> fmlookup (leases s) k = Some l \<and> l_State l = LeaseActive \<and> k = st_LeaseID x"
  by (auto simp: gives_back_def)

lemma finite_slots: "finite {k. \<exists>l. gives_back s D k l \<and> l_AgentID l = i}"
  by (rule finite_subset [of _ "fset (fmdom (leases s))"]) (auto simp: gives_back_def fmlookup_dom_iff)

lemma cancel_frees_release:
  assumes wf: "store_wf s" and "cancel_frees s D u" "x \<notin> D" "fmlookup (subtasks s) (st_ID x) = Some x"
    and D: "\<And>y. y \<in> D \<Longrightarrow> fmlookup (subtasks s) (st_ID y) = Some y"
  shows "cancel_frees s (insert x D) (releaseActiveLease x u)"
proof (cases "\<exists>l. fmlookup (leases s) (st_LeaseID x) = Some l \<and> l_State l = LeaseActive")
  case False
  then have "gives_back s (insert x D) k l = gives_back s D k l" for k l by (auto simp: gives_back_insert)
  moreover have "releaseActiveLease x u = u"
  proof (cases "fmlookup (leases s) (st_LeaseID x)")
    case None
    then show ?thesis using assms(2) by (simp add: releaseActiveLease_def cancel_frees_def)
  next
    case (Some l)
    then show ?thesis using assms(2) False by (simp add: releaseActiveLease_def cancel_frees_def)
  qed
  ultimately show ?thesis using assms(2) by (simp add: cancel_frees_def)
next
  case True
  then obtain l where l: "fmlookup (leases s) (st_LeaseID x) = Some l" "l_State l = LeaseActive" by blast
  let ?k = "st_LeaseID x" and ?u = "releaseActiveLease x u"
  have ne: "?k \<noteq> ''''" by (rule lease_key_nonempty [OF wf l(1)])
  have new: "?k \<notin> st_LeaseID ` D" using own_lease_differs [OF wf assms(4) D _ l(1)] assms(3) by force
  then have out: "\<not> gives_back s D ?k l'" for l' by (auto simp: gives_back_def)
  have lu: "fmlookup (leases u) ?k = Some l" using assms(2) l(1) out by (simp add: cancel_frees_def)
  then have rel: "?u = decRunning (l_AgentID l) (setLease ?k (l\<lparr>l_State := LeaseReleased\<rparr>) u)"
    using ne l(2) by (simp add: releaseActiveLease_def releaseLeaseLocked_def)
  have gb: "gives_back s (insert x D) k l' \<longleftrightarrow> (if k = ?k then l' = l else gives_back s D k l')" for k l'
    using l out by (auto simp: gives_back_insert)
  have "leases ?u = fmupd ?k (l\<lparr>l_State := LeaseReleased\<rparr>) (leases u)"
    by (simp add: rel decRunning_def split: option.split)
  then have "fmlookup (leases ?u) k = map_option (\<lambda>l. if gives_back s (insert x D) k l then l\<lparr>l_State := LeaseReleased\<rparr> else l) (fmlookup (leases s) k)" for k
    using assms(2) l(1) by (cases "k = ?k") (simp_all add: cancel_frees_def gb)
  moreover have "fmlookup (agents ?u) i =
      map_option (free_slot ^^ card {k. \<exists>l. gives_back s (insert x D) k l \<and> l_AgentID l = i}) (fmlookup (agents s) i)" for i
  proof -
    let ?S = "{k. \<exists>l. gives_back s D k l \<and> l_AgentID l = i}"
    have "{k. \<exists>l. gives_back s (insert x D) k l \<and> l_AgentID l = i} = (if l_AgentID l = i then insert ?k ?S else ?S)"
      using out by (auto simp: gb split: if_splits)
    moreover have "?k \<notin> ?S" using out by blast
    moreover have "fmlookup (agents ?u) i = map_option (if l_AgentID l = i then free_slot else (\<lambda>a. a)) (fmlookup (agents u) i)"
      by (auto simp: rel decRunning_def free_slot_def split: option.split)
    ultimately show ?thesis using assms(2) by (auto simp: cancel_frees_def finite_slots option.map_comp comp_def split: if_splits)
  qed
  ultimately show ?thesis by (simp add: cancel_frees_def)
qed

lemma cancel_frees_cong: "leases v = leases u \<Longrightarrow> agents v = agents u \<Longrightarrow> cancel_frees s D v = cancel_frees s D u"
  by (simp add: cancel_frees_def)

lemma cancel_refunds_release:
  assumes wf: "store_wf s" and "cancel_refunds s m now D u" "x \<notin> D" "fmlookup (subtasks s) (st_ID x) = Some x" "st_MissionID x = m"
    and D: "\<And>y. y \<in> D \<Longrightarrow> fmlookup (subtasks s) (st_ID y) = Some y" and y: "st_ID y = st_ID x" "st_MissionID y = m"
  shows "cancel_refunds s m now (insert x D) (releaseBudgetHoldLocked y reason actor now u)"
proof -
  have new: "st_ID x \<notin> st_ID ` D" using assms(3,4) D by force
  then have hold: "fmlookup (budgetHolds u) (st_ID x) = fmlookup (budgetHolds s) (st_ID x)"
    using assms(2) by (cases "fmlookup (budgetHolds s) (st_ID x)") (simp_all add: cancel_refunds_def)
  show ?thesis
  proof (cases "fmlookup (budgetHolds s) (st_ID x)")
    case None
    then have "k \<in> st_ID ` insert x D \<longleftrightarrow> k \<in> st_ID ` D" if "fmlookup (budgetHolds s) k = Some h" for k h
      using that by auto
    moreover have "releaseBudgetHoldLocked y reason actor now u = u" using None hold y by (simp add: releaseBudgetHoldLocked_def)
    ultimately show ?thesis using assms(2) unfolding cancel_refunds_def by (auto intro!: option.map_cong)
  next
    case (Some h)
    have "fmlookup (budgets s) m \<noteq> None"
    proof -
      have "hold_wf s (st_ID x) h" using wf Some by (simp add: store_wf_def budgets_wf_def)
      with assms(4,5) have "h_MissionID h = m" "fmlookup (budgets s) (h_MissionID h) \<noteq> None" by (auto simp: hold_wf_def)
      then show ?thesis by simp
    qed
    then obtain b where "fmlookup (budgets u) m = Some b" using assms(2) by (auto simp: cancel_refunds_def)
    then have "fmlookup (budgetHolds (releaseBudgetHoldLocked y reason actor now u)) k =
        (if k = st_ID x then Some (released_hold now h) else fmlookup (budgetHolds u) k)" for k
      using hold y Some by (auto simp: releaseBudgetHoldLocked_def released_hold_def appendEventLocked_def Let_def)
    moreover have "fmlookup (budgets (releaseBudgetHoldLocked y reason actor now u)) k = fmlookup (budgets u) k" if "k \<noteq> m" for k
      using that y hold Some by (auto simp: releaseBudgetHoldLocked_def appendEventLocked_def Let_def split: option.split)
    moreover have "map_option (\<lambda>b. (ba_Total b, ba_Spent b)) (fmlookup (budgets (releaseBudgetHoldLocked y reason actor now u)) m)
        = map_option (\<lambda>b. (ba_Total b, ba_Spent b)) (fmlookup (budgets u) m)"
      using y hold Some by (auto simp: releaseBudgetHoldLocked_def appendEventLocked_def Let_def split: option.split)
    ultimately show ?thesis using assms(2) Some by (auto simp: cancel_refunds_def)
  qed
qed

lemma cancel_one_effect:
  assumes wf: "store_wf s" and x: "fmlookup (subtasks s) (st_ID x) = Some x" "st_MissionID x = m" "\<not> Terminal (st_State x)"
    and D: "x \<notin> D" "\<And>y. y \<in> D \<Longrightarrow> fmlookup (subtasks s) (st_ID y) = Some y"
    and u: "fmlookup (subtasks u) (st_ID x) = Some x" "\<And>y. st_State x \<noteq> StateOther y"
    and inv: "missions u = missions s" "cancel_keeps s u" "cancel_logs m actor now s u" "cancel_frees s D u" "cancel_refunds s m now D u"
  shows "\<exists>v. cancel_one actor now x u = (Inr (), v) \<and> subtasks v = fmupd (st_ID x) (cancelled_mission_subtask x) (subtasks u)
    \<and> missions v = missions s \<and> cancel_keeps s v \<and> cancel_logs m actor now s v \<and> cancel_frees s (insert x D) v
    \<and> cancel_refunds s m now (insert x D) v"
proof -
  let ?y = "cancelled_mission_subtask x"
  let ?r = "releaseActiveLease x u"
  let ?b = "releaseBudgetHoldLocked ?y ''cancelled'' actor now (setSubtask (st_ID x) ?y ?r)"
  let ?v = "appendEventLocked (st_ID x) m (event_string EvCancelled) (fmap_of_list [(''state'', VStr (state_string StateCancelled))]) actor now ?b"
  have y: "?y = x\<lparr>st_State := StateCancelled, st_Assignee := '''', st_LeaseID := '''', st_Version := st_Version x + 1\<rparr>"
    using x(3) by (simp add: cancelled_mission_subtask_def)
  then have run: "cancel_one actor now x u = (Inr (), ?v)"
    using u(1) Apply_cancel [OF x(3) u(2)] x(2,3) by (simp add: cancel_one_def CancelSubtask_def ignore_def Let_def)
  have "cancel_refunds s m now D (setSubtask (st_ID x) ?y ?r)" using inv(5) by (simp add: cancel_refunds_def)
  from cancel_refunds_release [OF wf this D(1) x(1,2) D(2), of ?y "''cancelled''" actor]
  have "cancel_refunds s m now (insert x D) ?v" using y x(2) by (simp add: cancel_refunds_def)
  moreover have "cancel_frees s (insert x D) ?v"
    using cancel_frees_release [OF wf inv(4) D(1) x(1) D(2)] by (subst cancel_frees_cong [of _ ?r]) simp_all
  moreover have "cancel_logs m actor now s ?v"
    using inv(3) x(2) y by (auto simp: cancel_logs_def releaseBudgetHoldLocked_def appendEventLocked_def Let_def split: option.split)
  moreover have "cancel_keeps s ?v" using inv(2) by (simp add: cancel_keeps_def)
  moreover have "subtasks ?v = fmupd (st_ID x) ?y (subtasks u)" "missions ?v = missions s" using inv(1) by simp_all
  ultimately show ?thesis using run by blast
qed

lemma cancel_changes: "cancelled_mission_subtask x \<noteq> x" if t: "\<not> Terminal (st_State x)"
proof
  assume a: "cancelled_mission_subtask x = x"
  have "st_State (cancelled_mission_subtask x) = StateCancelled" using t by (simp add: cancelled_mission_subtask_def)
  with a t show False by simp
qed

text \<open>The whole loop: the subtasks to stop are those whose record has changed since.\<close>

lemma cancel_all_effect:
  assumes "store_wf s" "valid_order ord"
    and known: "\<forall>k sub x. fmlookup (subtasks s) k = Some sub \<longrightarrow> st_MissionID sub = ident \<longrightarrow> st_State sub \<noteq> StateOther x"
  shows "\<exists>u. for_each (cancel_one actor now) (ListSubtasks ord ident s) s = (Inr (), u) \<and> missions u = missions s
    \<and> (\<forall>k. fmlookup (subtasks u) k =
         map_option (\<lambda>sub. if st_MissionID sub = ident then cancelled_mission_subtask sub else sub) (fmlookup (subtasks s) k))
    \<and> cancel_keeps s u \<and> cancel_logs ident actor now s u
    \<and> cancel_frees s (cancel_stops s ident) u \<and> cancel_refunds s ident now (cancel_stops s ident) u"
proof -
  let ?subs = "ListSubtasks ord ident s" and ?f = "cancel_one actor now"
  note wf = assms(1)
  note mem = ListSubtasks_member [OF assms(2) wf]
  let ?done = "\<lambda>u. {x \<in> cancel_stops s ident. fmlookup (subtasks u) (st_ID x) \<noteq> Some x}"
  let ?P = "\<lambda>u. missions u = missions s \<and> cancel_keeps s u \<and> cancel_logs ident actor now s u \<and> cancel_frees s (?done u) u
    \<and> cancel_refunds s ident now (?done u) u"
  have start: "?P s"
  proof -
    have "?done s = {}" by (auto simp: cancel_stops_def)
    then show ?thesis unfolding \<open>?done s = {}\<close> by (simp add: cancel_frees_start cancel_refunds_start cancel_keeps_def cancel_logs_def)
  qed
  have "\<exists>u. for_each ?f ?subs s = (Inr (), u) \<and> ?P u \<and> (\<forall>k. fmlookup (subtasks u) k =
      map_option (\<lambda>sub. if st_MissionID sub = ident then cancelled_mission_subtask sub else sub) (fmlookup (subtasks s) k))"
  proof (rule listing_loop [where P = ?P, OF assms(2) wf start])
    fix x :: Subtask and u :: Store
    assume x: "x \<in> set ?subs" and P: "?P u" and b: "fmlookup (subtasks u) (st_ID x) = Some x"
    have own: "fmlookup (subtasks s) (st_ID x) = Some x" "st_MissionID x = ident" using x by (simp_all add: mem)
    show "\<exists>u'. ?f x u = (Inr (), u') \<and> ?P u' \<and> (\<forall>k. fmlookup (subtasks u') k =
        (if k = st_ID x then Some (cancelled_mission_subtask x) else fmlookup (subtasks u) k))"
    proof (cases "Terminal (st_State x)")
      case True
      with P b show ?thesis by (auto simp: cancel_one_def cancelled_mission_subtask_def)
    next
      case False
      have kn: "\<And>y. st_State x \<noteq> StateOther y" using known own by blast
      have "\<exists>v. ?f x u = (Inr (), v) \<and> subtasks v = fmupd (st_ID x) (cancelled_mission_subtask x) (subtasks u)
          \<and> missions v = missions s \<and> cancel_keeps s v \<and> cancel_logs ident actor now s v
          \<and> cancel_frees s (insert x (?done u)) v \<and> cancel_refunds s ident now (insert x (?done u)) v"
        by (rule cancel_one_effect [OF wf own False _ _ b kn]) (use P b in \<open>auto simp: cancel_stops_def\<close>)
      then obtain v where v: "?f x u = (Inr (), v)" "subtasks v = fmupd (st_ID x) (cancelled_mission_subtask x) (subtasks u)"
        "missions v = missions s" "cancel_keeps s v" "cancel_logs ident actor now s v"
        "cancel_frees s (insert x (?done u)) v" "cancel_refunds s ident now (insert x (?done u)) v" by blast
      have "?done v = insert x (?done u)"
        using v(2) own False cancel_changes [OF False] by (auto simp: cancel_stops_def split: if_splits)
      with v show ?thesis by auto
    qed
  qed
  then obtain u where u: "for_each ?f ?subs s = (Inr (), u)" "?P u" "\<forall>k. fmlookup (subtasks u) k =
      map_option (\<lambda>sub. if st_MissionID sub = ident then cancelled_mission_subtask sub else sub) (fmlookup (subtasks s) k)" by blast
  have "fmlookup (subtasks u) (st_ID x) \<noteq> Some x" if "x \<in> cancel_stops s ident" for x
  proof -
    have "fmlookup (subtasks u) (st_ID x) = Some (cancelled_mission_subtask x)" using u(3) that by (simp add: cancel_stops_def)
    with cancel_changes [of x] that show ?thesis by (simp add: cancel_stops_def)
  qed
  then have "?done u = cancel_stops s ident" by blast
  with u show ?thesis by (intro exI [of _ u]) simp
qed

text \<open>C3: Cancelling a mission stops all of it and nothing else. For an existing mission in a reachable state whose subtasks are in known
  states, \<open>CancelMissionAs\<close> always succeeds. The mission is CANCELLED and no other mission changes; every subtask of it that was not
  final is CANCELLED and has no assignee or lease, every other subtask keeps its record. Exactly the ACTIVE leases of the stopped
  subtasks are released and every other lease is untouched; an agent gets back one running slot for each of its leases that was
  released, and is otherwise untouched. The HELD budget holds of the stopped subtasks are released, other holds and the accounts of
  other missions stay, and so do total and spending of its own account. The events added are about this mission, by this actor, at this time; every other table is unchanged.\<close>

theorem cancel_mission_stops_all:
  assumes "reachable s" "valid_order ord" "fmlookup (missions s) ident = Some m"
    and known: "\<forall>k sub x. fmlookup (subtasks s) k = Some sub \<longrightarrow> st_MissionID sub = ident \<longrightarrow> st_State sub \<noteq> StateOther x"
  shows "\<exists>s'. CancelMissionAs ord ident actor now s = (Inr (), s')
    \<and> missions s' = fmupd ident (m\<lparr>m_Status := MissionCancelled, m_Version := m_Version m + 1\<rparr>) (missions s)
    \<and> (\<forall>k. fmlookup (subtasks s') k =
         map_option (\<lambda>sub. if st_MissionID sub = ident then cancelled_mission_subtask sub else sub) (fmlookup (subtasks s) k))
    \<and> cancel_frees s (cancel_stops s ident) s' \<and> cancel_refunds s ident now (cancel_stops s ident) s'
    \<and> cancel_keeps s s' \<and> cancel_logs ident actor now s s'"
proof -
  note wf = reachable_wf [OF assms(1)]
  from cancel_all_effect [OF wf assms(2) known, of actor now] obtain u where
    u: "for_each (cancel_one actor now) (ListSubtasks ord ident s) s = (Inr (), u)" "missions u = missions s"
      "\<forall>k. fmlookup (subtasks u) k =
         map_option (\<lambda>sub. if st_MissionID sub = ident then cancelled_mission_subtask sub else sub) (fmlookup (subtasks s) k)"
      "cancel_keeps s u" "cancel_logs ident actor now s u" "cancel_frees s (cancel_stops s ident) u"
      "cancel_refunds s ident now (cancel_stops s ident) u" by blast
  let ?m = "m\<lparr>m_Status := MissionCancelled, m_Version := m_Version m + 1\<rparr>"
  let ?v = "appendEventLocked (m_ID m) (m_ID m) (''mission.'' @ lowerStatus MissionCancelled)
      (fmap_of_list [(''status'', VStr (mission_status_string MissionCancelled))]) actor now (setMission ident ?m u)"
  have id: "m_ID m = ident" using wf assms(3) by (auto simp: store_wf_def dest: keys_wfD)
  have "CancelMissionAs ord ident actor now s = (Inr (), ?v)"
    using u(1,2) assms(3) by (simp add: CancelMissionAs_def GetMission_def SetMissionStatus_def Let_def)
  moreover have "cancel_logs ident actor now s ?v" using u(5) id by (auto simp: cancel_logs_def appendEventLocked_def)
  moreover have "cancel_keeps s ?v" using u(4) by (simp add: cancel_keeps_def)
  moreover have "cancel_frees s (cancel_stops s ident) ?v" using u(6) by (simp add: cancel_frees_def)
  moreover have "cancel_refunds s ident now (cancel_stops s ident) ?v" using u(7) by (simp add: cancel_refunds_def)
  ultimately show ?thesis using u(2,3) by (intro exI [of _ ?v]) simp
qed

theorem cancel_mission_stops_all_witness:
  "\<exists>s'. CancelMissionAs sorted_list_of_fset ''msn_9'' ann 30 core_created = (Inr (), s')
     \<and> map_option m_Status (fmlookup (missions s') ''msn_9'') = Some MissionCancelled
     \<and> map_option st_State (fmlookup (subtasks s') ''sub_9_c'') = Some StateCancelled"
proof -
  from core_states(5) obtain c where
    c: "fmlookup (subtasks core_created) ''sub_9_c'' = Some c" "st_State c = StatePending" "st_MissionID c = ''msn_9''" by auto
  have known: "\<forall>k sub x. fmlookup (subtasks core_created) k = Some sub \<longrightarrow> st_MissionID sub = ''msn_9'' \<longrightarrow> st_State sub \<noteq> StateOther x"
    using fmpredD [OF core_states(6)] by fastforce
  from cancel_mission_stops_all [OF reachable_core_created valid_order_sorted core_mission(1) known, where actor = ann and now = 30] c
  show ?thesis by (auto simp: cancelled_mission_subtask_def)
qed


section \<open>Creating a mission\<close>

lemma fold_created_subtasks:
  "subtasks (fold (created_subtask m actor now) subs s) = fold (\<lambda>sub. fmupd (st_ID sub) sub) subs (subtasks s)"
  "missions (fold (created_subtask m actor now) subs s) = missions s"
  by (induction subs arbitrary: s) (simp_all add: created_subtask_def)

lemma fold_fmupd_lookup:
  assumes "distinct (map key xs)"
  shows "x \<in> set xs \<Longrightarrow> fmlookup (fold (\<lambda>x. fmupd (key x) x) xs m) (key x) = Some x"
    and "k \<notin> key ` set xs \<Longrightarrow> fmlookup (fold (\<lambda>x. fmupd (key x) x) xs m) k = fmlookup m k"
proof -
  show other: "k \<notin> key ` set xs \<Longrightarrow> fmlookup (fold (\<lambda>x. fmupd (key x) x) xs m) k = fmlookup m k" for k m
    by (induction xs arbitrary: m) auto
  show "x \<in> set xs \<Longrightarrow> fmlookup (fold (\<lambda>x. fmupd (key x) x) xs m) (key x) = Some x"
    using assms
  proof (induction xs arbitrary: m)
    case (Cons y ys)
    have "k \<notin> key ` set ys \<Longrightarrow> fmlookup (fold (\<lambda>x. fmupd (key x) x) ys m) k = fmlookup m k" for k m
      by (induction ys arbitrary: m) auto
    with Cons show ?case by (cases "x \<in> set ys") (auto simp: image_iff)
  qed simp
qed

lemma activate_root_exact:
  assumes "fmlookup (subtasks u) (st_ID x) = Some x"
  shows "\<exists>u'. activate_root actor now x u = (Inr (), u') \<and> missions u' = missions u
    \<and> (\<forall>k. fmlookup (subtasks u') k = (if k = st_ID x
          then Some (if st_State x = StatePending \<and> st_DependsOn x = [] then released x else x) else fmlookup (subtasks u) k))"
proof (cases "st_State x = StatePending \<and> st_DependsOn x = []")
  case True
  then have "Apply (st_State x) EvDepsSatisfied = Inr StateReady" by (simp add: Apply_def)
  from TransitionSubtask_exact [OF assms refl this, of actor None now] True show ?thesis
    by (auto simp: activate_root_def tolerate_conflict_def released_def)
next
  case False
  then show ?thesis using assms by (auto simp: activate_root_def)
qed

text \<open>C4: Creating a mission is all or nothing and starts exactly its roots. For a new mission id, a negative budget or a task list
  that \<open>validateDAG\<close> refuses is an error that leaves the store untouched; otherwise the mission is stored ACTIVE, every task
  becomes a subtask of it, READY when it has no dependency and PENDING otherwise, and no other subtask changes.\<close>

theorem create_mission_effect:
  assumes "reachable s" "valid_order ord" "fresh_mission ident tasks s" "in_int64 budget" "fmlookup (missions s) ident = None"
  shows "if budget < 0 \<or> validateDAG tasks \<noteq> Inr ()
    then \<exists>e. createMission ord ident actor owner goal budget tasks now s = (Inl e, s)
    else \<exists>m s'. createMission ord ident actor owner goal budget tasks now s = (Inr m, s')
      \<and> fmlookup (missions s') ident = Some m \<and> m_ID m = ident \<and> m_Status m = MissionActive \<and> m_BudgetTokens m = budget
      \<and> (\<forall>t \<in> set tasks. fmlookup (subtasks s') (subID ident (t_Name t)) =
           Some (if t_DependsOn t = [] then released (mission_subtask ident t) else mission_subtask ident t))
      \<and> (\<forall>k. k \<notin> (\<lambda>t. subID ident (t_Name t)) ` set tasks \<longrightarrow> fmlookup (subtasks s') k = fmlookup (subtasks s) k)"
proof (cases "budget < 0 \<or> validateDAG tasks \<noteq> Inr ()")
  case True
  then show ?thesis by (auto simp: createMission_def split: sum.splits)
next
  case False
  then have ok: "validateDAG tasks = Inr ()" by simp
  let ?m = "\<lparr>m_ID = ident, m_Owner = owner, m_Goal = goal, m_BudgetTokens = budget, m_Status = MissionActive, m_Version = 0\<rparr>"
  let ?new = "map (mission_subtask ident) tasks" and ?g = "\<lambda>x. if st_State x = StatePending \<and> st_DependsOn x = [] then released x else x"
  note fresh = fresh_mission_subtasks [OF assms(3) validateDAG_distinct [OF ok]]
  obtain s1 where s1: "CreateMission ?m ?new actor now s = (Inr (), s1)"
    and tab: "subtasks s1 = fold (\<lambda>sub. fmupd (st_ID sub) sub) ?new (subtasks s)" "missions s1 = fmupd ident ?m (missions s)"
    using assms(5) by (auto simp: CreateMission_def Let_def fold_created_subtasks)
  have "mem_step s s1" using step_CreateMission [OF fresh, of owner goal budget MissionActive 0 actor now] assms(4) s1 by simp
  then have wf: "store_wf s1" using reachable_wf reachable_step assms(1) by blast
  have dist: "distinct (map st_ID ?new)" using fresh by (simp add: fresh_subtasks_def)
  note look = fold_fmupd_lookup [OF dist, of _ "subtasks s", folded tab(1)]
  have "\<exists>s'. for_each (activate_root actor now) (ListSubtasks ord ident s1) s1 = (Inr (), s') \<and> missions s' = missions s1
    \<and> (\<forall>k. fmlookup (subtasks s') k = map_option (\<lambda>sub. if st_MissionID sub = ident then ?g sub else sub) (fmlookup (subtasks s1) k))"
  proof (rule listing_loop [OF assms(2) wf])
    fix x :: Subtask and u :: Store
    assume a: "missions u = missions s1" and b: "fmlookup (subtasks u) (st_ID x) = Some x"
    from activate_root_exact [OF b, of actor now]
    show "\<exists>u'. activate_root actor now x u = (Inr (), u') \<and> missions u' = missions s1
        \<and> (\<forall>k. fmlookup (subtasks u') k = (if k = st_ID x then Some (?g x) else fmlookup (subtasks u) k))"
      unfolding a .
  qed simp
  then obtain s' where s': "for_each (activate_root actor now) (ListSubtasks ord ident s1) s1 = (Inr (), s')" "missions s' = missions s1"
    "\<forall>k. fmlookup (subtasks s') k = map_option (\<lambda>sub. if st_MissionID sub = ident then ?g sub else sub) (fmlookup (subtasks s1) k)"
    by blast
  have new: "fmlookup (subtasks s') (subID ident (t_Name t)) =
      Some (if t_DependsOn t = [] then released (mission_subtask ident t) else mission_subtask ident t)" if "t \<in> set tasks" for t
    using look(1) [of "mission_subtask ident t"] that s'(3) by simp
  have old: "fmlookup (subtasks s') k = fmlookup (subtasks s) k" if "k \<notin> (\<lambda>t. subID ident (t_Name t)) ` set tasks" for k
  proof -
    have "fmlookup (subtasks s1) k = fmlookup (subtasks s) k" using look(2) [of k] that by (auto simp: image_iff)
    moreover have "st_MissionID sub \<noteq> ident" if "fmlookup (subtasks s) k = Some sub" for sub
      using assms(3) that by (simp add: fresh_mission_def)
    ultimately show ?thesis using s'(3) by (cases "fmlookup (subtasks s) k") auto
  qed
  have "createMission ord ident actor owner goal budget tasks now s = (Inr ?m, s')"
    using False s1 s'(1) by (simp add: createMission_def activateMissionRoots_def Let_def)
  moreover have "fmlookup (missions s') ident = Some ?m" using s'(2) tab(2) by simp
  ultimately show ?thesis using False new old by (auto intro!: exI [of _ ?m] exI [of _ s'])
qed

theorem create_mission_effect_witness:
  "\<exists>m s'. createMission sorted_list_of_fset ''msn_9'' ann ''ann'' ''ship'' 0 demo_tasks 10 New = (Inr m, s')
     \<and> map_option st_State (fmlookup (subtasks s') (subID ''msn_9'' ''a'')) = Some StateReady"
proof -
  have ok: "validateDAG demo_tasks = Inr ()" by code_simp
  have "in_int64 0" "fmlookup (missions New) ''msn_9'' = None" by (simp_all add: in_int64_def New_def)
  from create_mission_effect [OF reachable_New valid_order_sorted fresh_New this, where tasks = demo_tasks and actor = ann
      and owner = "''ann''" and goal = "''ship''" and now = 10] ok
  show ?thesis by (auto simp: demo_tasks_def demo_spec_def released_def)
qed

end
