(* ===== verification/CoreSchedule.thy ===== *)
theory CoreSchedule
  imports MissionProps
begin

text \<open>
  Placement and the scheduling round (\<open>internal/core/scheduler.go\<close>): the capability-first and the
  round-robin strategy, the choice of an agent, and \<open>ScheduleOnce\<close>. Scores are computed in \<open>float64\<close>
  in the order of the source (without fused multiply-add). A score is an option: \<open>None\<close> is \<open>ok = false\<close>.
\<close>

section \<open>Eligibility\<close>

definition skill_levels :: "Capability list \<Rightarrow> (string, float64) fmap" where
  "skill_levels cs = fold (\<lambda>c. fmupd (c_Skill c) (c_Level c)) cs fmempty"

fun min_level :: "(string, float64) fmap \<Rightarrow> string list \<Rightarrow> float64 \<Rightarrow> float64 option" where
  "min_level levels [] m = Some m"
| "min_level levels (sk # sks) m =
     (case fmlookup levels sk of
        None \<Rightarrow> None
      | Some lv \<Rightarrow> min_level levels sks (if lv < m then lv else m))"

definition matchSkills :: "Agent \<Rightarrow> string list \<Rightarrow> float64 option" where
  "matchSkills a required =
     (if required = [] then Some (1 / 2) else min_level (skill_levels (a_Capabilities a)) required 1)"

definition eligible :: "Agent \<Rightarrow> Subtask \<Rightarrow> bool" where
  "eligible a sub =
     (if a_Health a \<noteq> '''' \<and> a_Health a \<noteq> ''healthy'' then False
      else if a_MaxConcurrency a > 0 \<and> a_Running a \<ge> a_MaxConcurrency a then False
      else matchSkills a (st_RequiredSkills sub) \<noteq> None)"

section \<open>Scores\<close>

definition MaxFloat64 :: float64 where
  "MaxFloat64 = (2 ^ 53 - 1) * 2 ^ 971"

text \<open>One skill: \<open>RefreshScores\<close> recomputes the derived scores of the agent's own copy of the record.\<close>

definition reputation_step :: "Agent \<Rightarrow> string \<Rightarrow> float64 \<times> float64 \<Rightarrow> float64 \<times> float64" where
  "reputation_step a skill st = (case st of (score, samples) \<Rightarrow>
     (case fmlookup (a_Reputation a) skill of
        None \<Rightarrow> (if 1 / 2 < score then 1 / 2 else score, 0)
      | Some r \<Rightarrow>
          let r = RefreshScores r in
          (if CompositeScore r < score then CompositeScore r else score,
           if Samples r < samples then Samples r else samples)))"

definition reputationScore :: "Agent \<Rightarrow> string list \<Rightarrow> float64 \<times> float64" where
  "reputationScore a skills =
     (case fold (reputation_step a) (if skills = [] then [''*''] else skills) (1, MaxFloat64) of
        (score, samples) \<Rightarrow> (score, if samples = MaxFloat64 then 0 else samples))"

definition loadPenalty :: "Subtask \<Rightarrow> time \<Rightarrow> float64" where
  "loadPenalty sub now =
     (let p = Priority (st_Scheduling sub);
          boost = (if p > 0 then fadd 0 (fdiv (min (float_of_int p) 10) 10) else 0);
          boost = (case Deadline (st_Scheduling sub) of
              None \<Rightarrow> boost
            | Some dl \<Rightarrow>
                let left = time_sub dl now in
                if left \<le> hour then fadd boost 1
                else if left \<le> 6 * hour then fadd boost (1 / 2)
                else if left \<le> 24 * hour then fadd boost (fl (2 / 10))
                else boost)
      in fmul (fl (1 / 10)) (fadd 1 (min boost 2)))"

definition capabilityScore :: "Subtask \<Rightarrow> Agent \<Rightarrow> time \<Rightarrow> float64 option" where
  "capabilityScore sub a now =
     (if \<not> eligible a sub then None
      else
        let level = (case matchSkills a (st_RequiredSkills sub) of None \<Rightarrow> 0 | Some l \<Rightarrow> l);
            (reputation, samples) = reputationScore a (st_RequiredSkills sub);
            exploration = (if samples < 5 then fmul (fl (5 / 100)) (fsub 1 (fdiv samples 5)) else 0)
        in Some (fsub (fadd (fadd level (fmul (fl (3 / 10)) reputation)) exploration)
             (fmul (loadPenalty sub now) (float_of_int (a_Running a)))))"

definition roundRobinScore :: "(string, int) fmap \<Rightarrow> Subtask \<Rightarrow> Agent \<Rightarrow> float64 option" where
  "roundRobinScore placedAt sub a =
     (if \<not> eligible a sub then None
      else Some (- float_of_int (case fmlookup placedAt (a_ID a) of None \<Rightarrow> 0 | Some n \<Rightarrow> n)))"

section \<open>Strategies\<close>

definition NewRoundRobin :: PlacementStrategy where
  "NewRoundRobin = RoundRobin 0 fmempty"

definition NewStrategy :: "string \<Rightarrow> error + PlacementStrategy" where
  "NewStrategy name =
     (if name = '''' \<or> name = ''capability-first'' then Inr CapabilityFirst
      else if name = ''round-robin'' then Inr NewRoundRobin
      else Inl (ErrPlain ''core: unknown scheduler strategy''))"

fun strategyName :: "PlacementStrategy \<Rightarrow> string" where
  "strategyName CapabilityFirst = ''capability-first''"
| "strategyName (RoundRobin _ _) = ''round-robin''"

fun Score :: "PlacementStrategy \<Rightarrow> Subtask \<Rightarrow> Agent \<Rightarrow> time \<Rightarrow> float64 option" where
  "Score CapabilityFirst sub a now = capabilityScore sub a now"
| "Score (RoundRobin seq placedAt) sub a now = roundRobinScore placedAt sub a"

text \<open>The placement hook: only the round-robin strategy has one.\<close>

fun OnPlaced :: "string \<Rightarrow> PlacementStrategy \<Rightarrow> PlacementStrategy" where
  "OnPlaced agentID CapabilityFirst = CapabilityFirst"
| "OnPlaced agentID (RoundRobin seq placedAt) = RoundRobin (seq + 1) (fmupd agentID (seq + 1) placedAt)"

definition WithStrategy :: "PlacementStrategy \<Rightarrow> Service \<Rightarrow> Service" where
  "WithStrategy ps sv = sv\<lparr>sv_strategy := ps\<rparr>"

section \<open>The scheduling round\<close>

fun pick :: "('a \<Rightarrow> float64 option) \<Rightarrow> 'a list \<Rightarrow> ('a \<times> float64) option \<Rightarrow> 'a option" where
  "pick score [] best = map_option fst best"
| "pick score (a # ags) best =
     (case score a of
        None \<Rightarrow> pick score ags best
      | Some x \<Rightarrow>
         (case best of
            None \<Rightarrow> pick score ags (Some (a, x))
          | Some (b, y) \<Rightarrow> pick score ags (if x > y then Some (a, x) else best)))"

definition pickAgent :: "PlacementStrategy \<Rightarrow> Agent list \<Rightarrow> Subtask \<Rightarrow> time \<Rightarrow> Agent option" where
  "pickAgent strategy ags sub now = pick (\<lambda>a. Score strategy sub a now) ags None"

definition isHumanKind :: "Kind \<Rightarrow> bool" where
  "isHumanKind k \<longleftrightarrow> k = KindHumanApproval \<or> k = KindHumanDecision"

definition reputation_map :: "ReputationRecord list \<Rightarrow> (string, ReputationRecord) fmap" where
  "reputation_map reps = fold (\<lambda>rep. fmupd (r_Skill rep) rep) reps fmempty"

fun load_reputations ::
  "order \<Rightarrow> time \<Rightarrow> Agent list \<Rightarrow> Service \<Rightarrow> (error, Agent list, Service) outcome" where
  "load_reputations ord now [] sv = (Inr [], sv)"
| "load_reputations ord now (a # ags) sv =
     and_then (cachedReputations ord (a_ID a) now sv) (\<lambda>reps sv.
       and_then (load_reputations ord now ags sv) (\<lambda>ags sv.
         (Inr (a\<lparr>a_Reputation := reputation_map reps\<rparr> # ags), sv)))"

text \<open>The local view of the agents: \<open>best.Running++\<close>.\<close>

definition bump_running :: "string \<Rightarrow> Agent list \<Rightarrow> Agent list" where
  "bump_running agentID ags = map (\<lambda>a. if a_ID a = agentID then a\<lparr>a_Running := a_Running a + 1\<rparr> else a) ags"

fun place_all ::
  "order \<Rightarrow> digest \<Rightarrow> time \<Rightarrow> Subtask list \<Rightarrow> Agent list \<Rightarrow> int \<Rightarrow> Service \<Rightarrow> int \<times> Service" where
  "place_all ord digest now [] ags placed sv = (placed, sv)"
| "place_all ord digest now (sub # ready) ags placed sv =
     (if isHumanKind (st_Kind sub) then place_all ord digest now ready ags placed sv
      else case pickAgent (sv_strategy sv) ags sub now of
          None \<Rightarrow> place_all ord digest now ready ags placed sv
        | Some best \<Rightarrow>
           (case on_store (OfferLease ord digest (st_ID sub) (a_ID best) (st_Version sub) (OfferTTL (sv_cfg sv))
                    (system_actor ''scheduler'') now) sv of
              (Inl _, sv) \<Rightarrow> place_all ord digest now ready ags placed sv
            | (Inr _, sv) \<Rightarrow>
                place_all ord digest now ready (bump_running (a_ID best) ags) (placed + 1)
                  (sv\<lparr>sv_strategy := OnPlaced (a_ID best) (sv_strategy sv)\<rparr>)))"

definition ScheduleOnce :: "order \<Rightarrow> digest \<Rightarrow> time \<Rightarrow> Service \<Rightarrow> (error, int, Service) outcome" where
  "ScheduleOnce ord digest now sv =
     (let ready = DequeueReady ord (ScheduleBatch (sv_cfg sv)) (sv_st sv) in
      and_then (load_reputations ord now (ListAgents ord (sv_st sv)) sv) (\<lambda>ags sv.
        let ags = sort_slice (\<lambda>a b. a_ID a < a_ID b) ags;
            (placed, sv) = place_all ord digest now ready ags 0 sv
        in (Inr placed, sv)))"

end
