(* ===== verification/ScheduleProps.thy ===== *)
theory ScheduleProps
  imports CoreSchedule
begin

text \<open>
  Placement properties. The contract of a placement strategy is a locale: a strategy scores exactly the
  eligible agents. Both built-in strategies satisfy it, so the choice of \<open>pickAgent\<close> is proved once.
  A scheduling round offers only READY agent work to eligible agents and never overloads one.
\<close>

section \<open>Choosing the best agent\<close>

text \<open>Reference: the first agent among those with the highest score.\<close>

definition first_best :: "('a \<Rightarrow> float64 option) \<Rightarrow> 'a list \<Rightarrow> 'a \<Rightarrow> bool" where
  "first_best score ags a \<longleftrightarrow> (\<exists>ys zs x. ags = ys @ a # zs \<and> score a = Some x
     \<and> (\<forall>b \<in> set ys. \<forall>y. score b = Some y \<longrightarrow> y < x) \<and> (\<forall>b \<in> set zs. \<forall>y. score b = Some y \<longrightarrow> y \<le> x))"

lemma pick_found:
  "pick score ags (Some (b, y)) = Some a \<Longrightarrow>
     a = b \<and> (\<forall>c \<in> set ags. \<forall>z. score c = Some z \<longrightarrow> z \<le> y)
     \<or> (\<exists>ys zs x. ags = ys @ a # zs \<and> score a = Some x \<and> y < x
          \<and> (\<forall>b \<in> set ys. \<forall>y. score b = Some y \<longrightarrow> y < x) \<and> (\<forall>b \<in> set zs. \<forall>y. score b = Some y \<longrightarrow> y \<le> x))"
proof (induction ags arbitrary: b y)
  case (Cons c ags)
  show ?case
  proof (cases "\<exists>x. score c = Some x \<and> y < x")
    case False
    with Cons.prems have "pick score ags (Some (b, y)) = Some a" by (auto split: option.splits if_splits)
    from Cons.IH [OF this] show ?thesis
    proof
      assume "a = b \<and> (\<forall>c \<in> set ags. \<forall>z. score c = Some z \<longrightarrow> z \<le> y)"
      with False show ?thesis by force
    next
      assume "\<exists>ys zs x. ags = ys @ a # zs \<and> score a = Some x \<and> y < x
          \<and> (\<forall>b \<in> set ys. \<forall>y. score b = Some y \<longrightarrow> y < x) \<and> (\<forall>b \<in> set zs. \<forall>y. score b = Some y \<longrightarrow> y \<le> x)"
      then obtain ys zs x where "ags = ys @ a # zs" "score a = Some x" "y < x"
        "\<forall>b \<in> set ys. \<forall>y. score b = Some y \<longrightarrow> y < x" "\<forall>b \<in> set zs. \<forall>y. score b = Some y \<longrightarrow> y \<le> x" by blast
      with False have "c # ags = (c # ys) @ a # zs \<and> score a = Some x \<and> y < x
          \<and> (\<forall>b \<in> set (c # ys). \<forall>y. score b = Some y \<longrightarrow> y < x) \<and> (\<forall>b \<in> set zs. \<forall>y. score b = Some y \<longrightarrow> y \<le> x)"
        by force
      then show ?thesis by blast
    qed
  next
    case True
    then obtain x where x: "score c = Some x" "y < x" by blast
    with Cons.prems have "pick score ags (Some (c, x)) = Some a" by simp
    from Cons.IH [OF this] show ?thesis
    proof
      assume "a = c \<and> (\<forall>c \<in> set ags. \<forall>z. score c = Some z \<longrightarrow> z \<le> x)"
      with x have "c # ags = [] @ a # ags \<and> score a = Some x \<and> y < x
          \<and> (\<forall>b \<in> set []. \<forall>y. score b = Some y \<longrightarrow> y < x) \<and> (\<forall>b \<in> set ags. \<forall>y. score b = Some y \<longrightarrow> y \<le> x)" by simp
      then show ?thesis by blast
    next
      assume "\<exists>ys zs x'. ags = ys @ a # zs \<and> score a = Some x' \<and> x < x'
          \<and> (\<forall>b \<in> set ys. \<forall>y. score b = Some y \<longrightarrow> y < x') \<and> (\<forall>b \<in> set zs. \<forall>y. score b = Some y \<longrightarrow> y \<le> x')"
      then obtain ys zs x' where "ags = ys @ a # zs" "score a = Some x'" "x < x'"
        "\<forall>b \<in> set ys. \<forall>y. score b = Some y \<longrightarrow> y < x'" "\<forall>b \<in> set zs. \<forall>y. score b = Some y \<longrightarrow> y \<le> x'" by blast
      with x have "c # ags = (c # ys) @ a # zs \<and> score a = Some x' \<and> y < x'
          \<and> (\<forall>b \<in> set (c # ys). \<forall>y. score b = Some y \<longrightarrow> y < x') \<and> (\<forall>b \<in> set zs. \<forall>y. score b = Some y \<longrightarrow> y \<le> x')" by auto
      then show ?thesis by blast
    qed
  qed
qed simp

lemma pick_kept: "pick score ags (Some p) \<noteq> None"
  by (induction ags arbitrary: p) (auto split: option.splits)

lemma pick_None: "pick score ags None = None \<longleftrightarrow> (\<forall>a \<in> set ags. score a = None)"
  by (induction ags) (auto simp: pick_kept split: option.splits)

lemma pick_first_best: "pick score ags None = Some a \<Longrightarrow> first_best score ags a"
proof (induction ags)
  case (Cons c ags)
  show ?case
  proof (cases "score c")
    case None
    with Cons obtain ys zs x where "ags = ys @ a # zs" "score a = Some x" "\<forall>b \<in> set ys. \<forall>y. score b = Some y \<longrightarrow> y < x"
      "\<forall>b \<in> set zs. \<forall>y. score b = Some y \<longrightarrow> y \<le> x" by (auto simp: first_best_def)
    with None show ?thesis unfolding first_best_def by (intro exI [of _ "c # ys"] exI [of _ zs] exI [of _ x]) auto
  next
    case (Some x)
    with Cons.prems have "pick score ags (Some (c, x)) = Some a" by simp
    from pick_found [OF this] show ?thesis
    proof
      assume "a = c \<and> (\<forall>c \<in> set ags. \<forall>z. score c = Some z \<longrightarrow> z \<le> x)"
      with Some show ?thesis unfolding first_best_def by (intro exI [of _ "[]"] exI [of _ ags] exI [of _ x]) auto
    next
      assume "\<exists>ys zs x'. ags = ys @ a # zs \<and> score a = Some x' \<and> x < x'
          \<and> (\<forall>b \<in> set ys. \<forall>y. score b = Some y \<longrightarrow> y < x') \<and> (\<forall>b \<in> set zs. \<forall>y. score b = Some y \<longrightarrow> y \<le> x')"
      then obtain ys zs x' where "ags = ys @ a # zs" "score a = Some x'" "x < x'"
        "\<forall>b \<in> set ys. \<forall>y. score b = Some y \<longrightarrow> y < x'" "\<forall>b \<in> set zs. \<forall>y. score b = Some y \<longrightarrow> y \<le> x'" by blast
      with Some show ?thesis unfolding first_best_def by (intro exI [of _ "c # ys"] exI [of _ zs] exI [of _ x']) auto
    qed
  qed
qed simp

locale placement_strategy =
  fixes score :: "'sub \<Rightarrow> 'ag \<Rightarrow> float64 option" and may :: "'ag \<Rightarrow> 'sub \<Rightarrow> bool"
  assumes scores_eligible: "score sub a \<noteq> None \<longleftrightarrow> may a sub"
begin

lemma picks_eligible: "pick (score sub) ags None = Some a \<Longrightarrow> a \<in> set ags \<and> may a sub \<and> first_best (score sub) ags a"
  using pick_first_best [of "score sub" ags a] scores_eligible [of sub a] by (auto simp: first_best_def)

lemma picks_whenever_possible: "pick (score sub) ags None = None \<longleftrightarrow> (\<forall>a \<in> set ags. \<not> may a sub)"
  using pick_None [of "score sub" ags] scores_eligible [of sub] by metis

end

interpretation capability_first: placement_strategy "\<lambda>sub a. capabilityScore sub a now" eligible for now
  by unfold_locales (simp add: capabilityScore_def Let_def split: prod.splits)

interpretation round_robin: placement_strategy "roundRobinScore placedAt" eligible for placedAt
  by unfold_locales (simp add: roundRobinScore_def)

text \<open>The chosen agent is the best eligible one. Whatever the strategy, \<open>pickAgent\<close> finds nobody exactly when no agent of the list is
  eligible (healthy, below its concurrency limit, with all required skills); otherwise the agent it returns is eligible, no
  eligible agent has a higher score, and none before it in the list has the same one.\<close>

theorem pick_agent_best:
  "case pickAgent strategy ags sub now of
     None \<Rightarrow> (\<forall>a \<in> set ags. \<not> eligible a sub)
   | Some a \<Rightarrow> a \<in> set ags \<and> eligible a sub \<and> first_best (\<lambda>b. Score strategy sub b now) ags a"
proof (cases strategy)
  case CapabilityFirst
  then show ?thesis
    using capability_first.picks_eligible [of sub now ags] capability_first.picks_whenever_possible [of sub now ags]
    by (auto simp: pickAgent_def split: option.splits)
next
  case (RoundRobin seq placedAt)
  then show ?thesis
    using round_robin.picks_eligible [of placedAt sub ags] round_robin.picks_whenever_possible [of placedAt sub ags]
    by (auto simp: pickAgent_def split: option.splits)
qed

theorem pick_agent_best_witness:
  "pickAgent NewRoundRobin [demo_agent\<lparr>a_Health := ''down''\<rparr>, demo_agent] demo_task 20 = Some demo_agent \<and> eligible demo_agent demo_task"
proof -
  have "pickAgent NewRoundRobin [demo_agent\<lparr>a_Health := ''down''\<rparr>, demo_agent] demo_task 20 = Some demo_agent"
    by (simp add: pickAgent_def NewRoundRobin_def roundRobinScore_def eligible_def demo_agent_def demo_task_def zero_subtask_def
        matchSkills_def)
  with pick_agent_best [where strategy = NewRoundRobin and ags = "[demo_agent\<lparr>a_Health := ''down''\<rparr>, demo_agent]" and sub = demo_task
      and now = 20] show ?thesis by simp
qed


section \<open>One scheduling round\<close>

lemma OfferLease_agents:
  "OfferLease ord digest ident agentID v ttl actor now s = (Inl e, t) \<Longrightarrow> agents t = agents s \<and> subtasks t = subtasks s"
  "OfferLease ord digest ident agentID v ttl actor now s = (Inr l, t) \<Longrightarrow> agents t = agents (incRunning agentID s)"
  by (auto simp: OfferLease_def Let_def incRunning_def split: option.splits sum.splits if_splits)

lemma DequeueReady_member:
  assumes "valid_order ord" "store_wf s" "x \<in> set (DequeueReady ord n s)"
  shows "fmlookup (subtasks s) (st_ID x) = Some x \<and> st_State x = StateReady"
proof -
  have "x \<in> set (sort_slice ready_less (filter (\<lambda>sub. st_State sub = StateReady) (map_values ord (subtasks s))))"
    using assms(3) by (auto simp: DequeueReady_def Let_def split: if_splits dest: in_set_takeD)
  then show ?thesis using subtask_key [OF assms(2)] by (auto simp: set_map_values [OF assms(1)])
qed

lemma DequeueReady_length: "0 \<le> n \<Longrightarrow> int (length (DequeueReady ord n s)) \<le> n"
  by (auto simp: DequeueReady_def Let_def)

lemma eligible_mono:
  "eligible a sub \<Longrightarrow> a_Health b = a_Health a \<Longrightarrow> a_MaxConcurrency b = a_MaxConcurrency a
     \<Longrightarrow> a_Capabilities b = a_Capabilities a \<Longrightarrow> a_Running b \<le> a_Running a \<Longrightarrow> eligible b sub"
  by (auto simp: eligible_def matchSkills_def split: if_splits)

text \<open>The fields of an agent that matter for eligibility and that a round does not change.\<close>

definition profile :: "Agent \<Rightarrow> string \<times> int \<times> Capability list" where
  "profile a = (a_Health a, a_MaxConcurrency a, a_Capabilities a)"

text \<open>No agent is loaded beyond its limit, unless it already was.\<close>

definition load_bounded :: "Store \<Rightarrow> Store \<Rightarrow> bool" where
  "load_bounded s u \<longleftrightarrow> (\<forall>k a. fmlookup (agents u) k = Some a \<longrightarrow> (\<exists>a0. fmlookup (agents s) k = Some a0
     \<and> profile a = profile a0 \<and> a_Running a0 \<le> a_Running a
     \<and> (0 < a_MaxConcurrency a \<longrightarrow> a_Running a \<le> max (a_MaxConcurrency a) (a_Running a0))))"

text \<open>Every subtask is as before or has gone from READY to OFFERED to an agent that was eligible.\<close>

definition offered_only :: "Store \<Rightarrow> Store \<Rightarrow> bool" where
  "offered_only s u \<longleftrightarrow> (\<forall>k. fmlookup (subtasks u) k = fmlookup (subtasks s) k
     \<or> (\<exists>sub sub' a. fmlookup (subtasks s) k = Some sub \<and> fmlookup (subtasks u) k = Some sub'
          \<and> st_State sub = StateReady \<and> \<not> isHumanKind (st_Kind sub) \<and> st_State sub' = StateOffered
          \<and> fmlookup (agents s) (st_Assignee sub') = Some a \<and> eligible a sub))"

definition local_view :: "Agent list \<Rightarrow> Store \<Rightarrow> bool" where
  "local_view ags u \<longleftrightarrow> (\<forall>a \<in> set ags. \<exists>b. fmlookup (agents u) (a_ID a) = Some b \<and> profile b = profile a \<and> a_Running b = a_Running a)"

lemma place_one_inv:
  assumes sub: "fmlookup (subtasks s) (st_ID sub) = Some sub" "st_State sub = StateReady" "\<not> isHumanKind (st_Kind sub)"
    and best: "best \<in> set ags" "eligible best sub"
    and inv: "local_view ags u" "load_bounded s u" "offered_only s u"
    and offer: "OfferLease ord digest (st_ID sub) (a_ID best) v ttl actor now u = (Inr l, t)"
  shows "local_view (bump_running (a_ID best) ags) t \<and> load_bounded s t \<and> offered_only s t"
proof -
  from inv(1) best(1) obtain b where b: "fmlookup (agents u) (a_ID best) = Some b" "profile b = profile best"
    "a_Running b = a_Running best" by (auto simp: local_view_def)
  have ag: "agents t = fmupd (a_ID best) (b\<lparr>a_Running := a_Running b + 1\<rparr>) (agents u)"
    using OfferLease_agents(2) [OF offer] b by (simp add: incRunning_def)
  have view: "local_view (bump_running (a_ID best) ags) t"
    unfolding local_view_def
  proof
    fix a' assume "a' \<in> set (bump_running (a_ID best) ags)"
    then obtain a where a: "a \<in> set ags" "a' = (if a_ID a = a_ID best then a\<lparr>a_Running := a_Running a + 1\<rparr> else a)"
      by (auto simp: bump_running_def)
    from inv(1) a(1) obtain c where "fmlookup (agents u) (a_ID a) = Some c" "profile c = profile a" "a_Running c = a_Running a"
      unfolding local_view_def by blast
    with a(2) b(1) show "\<exists>b. fmlookup (agents t) (a_ID a') = Some b \<and> profile b = profile a' \<and> a_Running b = a_Running a'"
      by (cases "a_ID a = a_ID best") (simp_all add: ag profile_def)
  qed
  have room: "0 < a_MaxConcurrency b \<longrightarrow> a_Running b < a_MaxConcurrency b"
    using best(2) b by (auto simp: eligible_def profile_def split: if_splits)
  have load: "load_bounded s t"
    unfolding load_bounded_def
  proof (intro allI impI)
    fix k a assume a: "fmlookup (agents t) k = Some a"
    show "\<exists>a0. fmlookup (agents s) k = Some a0 \<and> profile a = profile a0 \<and> a_Running a0 \<le> a_Running a
        \<and> (0 < a_MaxConcurrency a \<longrightarrow> a_Running a \<le> max (a_MaxConcurrency a) (a_Running a0))"
    proof (cases "k = a_ID best")
      case True
      from inv(2) b(1) obtain a0 where "fmlookup (agents s) (a_ID best) = Some a0" "profile b = profile a0"
        "a_Running a0 \<le> a_Running b" unfolding load_bounded_def by blast
      with True a room show ?thesis by (auto simp: ag profile_def)
    next
      case False
      with a inv(2) show ?thesis by (simp add: ag load_bounded_def)
    qed
  qed
  from inv(2) b(1) obtain a0 where a0: "fmlookup (agents s) (a_ID best) = Some a0" "profile b = profile a0"
    "a_Running a0 \<le> a_Running b" unfolding load_bounded_def by blast
  have elig: "eligible a0 sub" by (rule eligible_mono [OF best(2)]) (use a0 b in \<open>auto simp: profile_def\<close>)
  from OfferLease_Inr [OF offer] obtain x where x: "fmlookup (subtasks u) (st_ID sub) = Some x" "st_State x = StateReady"
    "subtasks t = fmupd (st_ID sub) (x\<lparr>st_State := StateOffered, st_Assignee := a_ID best, st_LeaseID := l_ID l,
       st_Version := v + 1\<rparr>) (subtasks u)" by metis
  have "offered_only s t"
    unfolding offered_only_def
  proof
    fix k
    show "fmlookup (subtasks t) k = fmlookup (subtasks s) k \<or> (\<exists>sub sub' a. fmlookup (subtasks s) k = Some sub
      \<and> fmlookup (subtasks t) k = Some sub' \<and> st_State sub = StateReady \<and> \<not> isHumanKind (st_Kind sub) \<and> st_State sub' = StateOffered
      \<and> fmlookup (agents s) (st_Assignee sub') = Some a \<and> eligible a sub)"
    proof (cases "k = st_ID sub")
      case True
      with x sub a0(1) elig show ?thesis by auto
    next
      case False
      with inv(3) show ?thesis by (simp add: x(3) offered_only_def)
    qed
  qed
  with view load show ?thesis by blast
qed

lemma place_all_inv:
  assumes "\<forall>x \<in> set ready. fmlookup (subtasks s) (st_ID x) = Some x \<and> st_State x = StateReady"
    and "local_view ags (sv_st sv)" "load_bounded s (sv_st sv)" "offered_only s (sv_st sv)"
    and "place_all ord digest now ready ags placed sv = (n, sv')"
  shows "load_bounded s (sv_st sv') \<and> offered_only s (sv_st sv') \<and> placed \<le> n \<and> n \<le> placed + int (length ready)"
  using assms
proof (induction ready arbitrary: ags placed sv)
  case (Cons sub ready)
  note IH = Cons.IH [OF _ _ _ _]
  have rest: "\<forall>x \<in> set ready. fmlookup (subtasks s) (st_ID x) = Some x \<and> st_State x = StateReady" using Cons.prems(1) by simp
  show ?case
  proof (cases "isHumanKind (st_Kind sub) \<or> pickAgent (sv_strategy sv) ags sub now = None")
    case True
    then have "place_all ord digest now ready ags placed sv = (n, sv')" using Cons.prems(5) by (auto split: if_splits)
    from Cons.IH [OF rest Cons.prems(2-4) this] show ?thesis by simp
  next
    case False
    then obtain best where best: "pickAgent (sv_strategy sv) ags sub now = Some best" by auto
    then have el: "best \<in> set ags" "eligible best sub"
      using capability_first.picks_eligible [of sub now ags best] round_robin.picks_eligible [of _ sub ags best]
      by (cases "sv_strategy sv"; auto simp: pickAgent_def)+
    obtain r t where o: "OfferLease ord digest (st_ID sub) (a_ID best) (st_Version sub) (OfferTTL (sv_cfg sv))
        (system_actor ''scheduler'') now (sv_st sv) = (r, t)" by fastforce
    show ?thesis
    proof (cases r)
      case (Inl e)
      with OfferLease_agents(1) [of ord digest "st_ID sub" "a_ID best" "st_Version sub" "OfferTTL (sv_cfg sv)"
          "system_actor ''scheduler''" now "sv_st sv" e t] o
      have same: "agents t = agents (sv_st sv)" "subtasks t = subtasks (sv_st sv)" by simp_all
      have p: "place_all ord digest now ready ags placed (sv\<lparr>sv_st := t\<rparr>) = (n, sv')"
        using Cons.prems(5) False best o Inl by (simp add: on_store_def)
      have "local_view ags t" "load_bounded s t" "offered_only s t"
        using Cons.prems(2-4) by (simp_all add: local_view_def load_bounded_def offered_only_def same)
      with Cons.IH [OF rest _ _ _ p] show ?thesis by simp
    next
      case (Inr l)
      let ?sv = "sv\<lparr>sv_st := t, sv_strategy := OnPlaced (a_ID best) (sv_strategy sv)\<rparr>"
      have p: "place_all ord digest now ready (bump_running (a_ID best) ags) (placed + 1) ?sv = (n, sv')"
        using Cons.prems(5) False best o Inr by (simp add: on_store_def)
      have "local_view (bump_running (a_ID best) ags) t \<and> load_bounded s t \<and> offered_only s t"
        by (rule place_one_inv [OF _ _ _ el Cons.prems(2-4) o [unfolded Inr]]) (use Cons.prems(1) False in auto)
      with Cons.IH [OF rest _ _ _ p] show ?thesis by simp
    qed
  qed
qed simp

lemma load_reputations_view:
  assumes "\<forall>a \<in> set ags. fmlookup (agents (sv_st sv)) (a_ID a) = Some a"
  shows "\<exists>ags' sv'. load_reputations ord now ags sv = (Inr ags', sv') \<and> sv_st sv' = sv_st sv \<and> sv_cfg sv' = sv_cfg sv
    \<and> (\<forall>a' \<in> set ags'. \<exists>a \<in> set ags. a_ID a' = a_ID a \<and> profile a' = profile a \<and> a_Running a' = a_Running a)"
  using assms
proof (induction ags arbitrary: sv)
  case (Cons a ags)
  have "\<exists>reps sv1. cachedReputations ord (a_ID a) now sv = (Inr reps, sv1) \<and> sv_st sv1 = sv_st sv \<and> sv_cfg sv1 = sv_cfg sv"
    using Cons.prems by (auto simp: cachedReputations_def ListReputations_def Let_def split: option.splits)
  then obtain reps sv1 where r: "cachedReputations ord (a_ID a) now sv = (Inr reps, sv1)" "sv_st sv1 = sv_st sv"
    "sv_cfg sv1 = sv_cfg sv" by blast
  with Cons.IH [of sv1] Cons.prems obtain ags' sv' where "load_reputations ord now ags sv1 = (Inr ags', sv')"
    "sv_st sv' = sv_st sv" "sv_cfg sv' = sv_cfg sv"
    "\<forall>a' \<in> set ags'. \<exists>a \<in> set ags. a_ID a' = a_ID a \<and> profile a' = profile a \<and> a_Running a' = a_Running a" by auto
  with r(1) show ?case by (auto simp: profile_def)
qed simp

text \<open>C16: A scheduling round is safe. From a reachable store \<open>ScheduleOnce\<close> always succeeds and places at most one batch; a subtask is
  either untouched or goes from READY to OFFERED, is agent work, and is assigned to a registered agent that was eligible for
  it; and no agent with a concurrency limit is loaded beyond it in the course of the round, however many subtasks the round
  places, except that an agent already above its limit stays where it was.\<close>

theorem schedule_once_safe:
  assumes "reachable (sv_st sv)" "valid_order ord" "0 \<le> ScheduleBatch (sv_cfg sv)"
  shows "\<exists>n sv'. ScheduleOnce ord digest now sv = (Inr n, sv') \<and> 0 \<le> n \<and> n \<le> ScheduleBatch (sv_cfg sv)
    \<and> offered_only (sv_st sv) (sv_st sv') \<and> load_bounded (sv_st sv) (sv_st sv')"
proof -
  let ?s = "sv_st sv" and ?ready = "DequeueReady ord (ScheduleBatch (sv_cfg sv)) (sv_st sv)"
  note wf = reachable_wf [OF assms(1)]
  have keyed: "keyed_by a_ID (agents ?s)" using wf by (simp add: store_wf_def keys_wf_def)
  have "\<forall>a \<in> set (ListAgents ord ?s). fmlookup (agents ?s) (a_ID a) = Some a"
    using keyed_byD [OF keyed] by (auto simp: ListAgents_def set_map_values [OF assms(2)])
  from load_reputations_view [OF this, of ord now] this obtain ags sv1 where
    l: "load_reputations ord now (ListAgents ord ?s) sv = (Inr ags, sv1)" "sv_st sv1 = ?s" and
    v: "\<forall>a' \<in> set ags. \<exists>a. fmlookup (agents ?s) (a_ID a') = Some a \<and> profile a' = profile a \<and> a_Running a' = a_Running a"
    by metis
  obtain n sv' where p: "place_all ord digest now ?ready (sort_slice (\<lambda>a b. a_ID a < a_ID b) ags) 0 sv1 = (n, sv')" by fastforce
  have "local_view (sort_slice (\<lambda>a b. a_ID a < a_ID b) ags) ?s" using v by (force simp: local_view_def)
  moreover have "load_bounded ?s ?s" "offered_only ?s ?s" by (auto simp: load_bounded_def offered_only_def)
  ultimately have "load_bounded ?s (sv_st sv') \<and> offered_only ?s (sv_st sv') \<and> 0 \<le> n \<and> n \<le> int (length ?ready)"
    using place_all_inv [OF _ _ _ _ p, of ?s] DequeueReady_member [OF assms(2) wf] l(2) by simp
  with DequeueReady_length [OF assms(3), of ord ?s] l(1) p show ?thesis by (auto simp: ScheduleOnce_def Let_def)
qed

theorem schedule_once_safe_witness:
  "\<exists>n sv'. ScheduleOnce sorted_list_of_fset demo_digest 20 (NewService scn_ready DefaultConfig) = (Inr n, sv') \<and> 0 \<le> n \<and> n \<le> 100
     \<and> load_bounded scn_ready (sv_st sv')"
proof -
  have "sv_st (NewService scn_ready DefaultConfig) = scn_ready" "ScheduleBatch (sv_cfg (NewService scn_ready DefaultConfig)) = 100"
    by (simp_all add: NewService_def DefaultConfig_def)
  with schedule_once_safe [of "NewService scn_ready DefaultConfig" sorted_list_of_fset demo_digest 20] reachable_ready valid_order_sorted
  show ?thesis by auto
qed

end
