(* ===== verification/CoreHitl.thy ===== *)
theory CoreHitl
  imports ScheduleProps
begin

text \<open>
  Human decisions in the service (\<open>internal/core/hitl.go\<close>): opening the tickets of human nodes, decisions
  requested by an agent, resolving them and moving the subtask. \<open>findRunning\<close> is in \<open>delegate.go\<close>.
  The ids that \<open>newID("dec")\<close> draws are arguments: for a round of tickets, a function of the counter of
  tickets tried.
\<close>

definition RejectChoice :: string where "RejectChoice = ''reject''"

definition zero_decision :: Decision where
  "zero_decision = \<lparr>d_ID = '''', d_MissionID = '''', d_SubtaskID = '''', d_Kind = '''', d_Question = '''', d_Options = [],
     d_Status = DecisionUnset, d_Choice = '''', d_Rationale = '''', d_DeciderID = '''', d_Deadline = None, d_OnTimeout = '''',
     d_CreatedAt = zero_time, d_ResolvedAt = None\<rparr>"

section \<open>Opening tickets\<close>

definition human_ticket :: "string \<Rightarrow> Subtask \<Rightarrow> Decision" where
  "human_ticket newid sub = zero_decision
     \<lparr>d_ID := newid, d_MissionID := st_MissionID sub, d_SubtaskID := st_ID sub,
      d_Kind := (if st_Kind sub = KindHumanDecision then ''decision'' else ''approval''),
      d_Question := (if st_Question sub = '''' then ''Approve subtask '' @ st_ID sub @ ''?'' else st_Question sub),
      d_Options := (if st_Options sub = [] then [''approve'', RejectChoice] else st_Options sub),
      d_Deadline := Deadline (st_Scheduling sub), d_OnTimeout := st_OnTimeout sub\<rparr>"

fun open_tickets :: "(nat \<Rightarrow> string) \<Rightarrow> time \<Rightarrow> Subtask list \<Rightarrow> nat \<Rightarrow> int \<Rightarrow> Store
    \<Rightarrow> (error \<times> int, int, Store) outcome" where
  "open_tickets ids now [] i opened s = (Inr opened, s)"
| "open_tickets ids now (sub # subs) i opened s =
     (if \<not> isHumanKind (st_Kind sub) then open_tickets ids now subs i opened s
      else case CreateDecisionAndBlock (human_ticket (ids i) sub) (st_Version sub) None (system_actor ''hitl'') now s of
          (Inl e, s) \<Rightarrow> if e = ErrConflict then open_tickets ids now subs (Suc i) opened s else (Inl (e, opened), s)
        | (Inr _, s) \<Rightarrow> open_tickets ids now subs (Suc i) (opened + 1) s)"

definition OpenHumanDecisions :: "order \<Rightarrow> (nat \<Rightarrow> string) \<Rightarrow> time \<Rightarrow> Store \<Rightarrow> (error \<times> int, int, Store) outcome" where
  "OpenHumanDecisions ord ids now s = open_tickets ids now (ListSubtasksByState ord StateReady s) 0 0 s"

section \<open>Decisions an agent asks for\<close>

definition findRunning :: "order \<Rightarrow> string \<Rightarrow> Store \<Rightarrow> error + Subtask" where
  "findRunning ord subtaskID s =
     (case find (\<lambda>sub. st_ID sub = subtaskID) (ListSubtasksByState ord StateRunning s) of
        Some sub \<Rightarrow> Inr sub
      | None \<Rightarrow> Inl (ErrPlain (''core: parent subtask '' @ subtaskID @ '' not RUNNING (delegate requires active execution)'')))"

text \<open>The returned ticket is the local one: its status is still the zero value.\<close>

definition RequestDecision ::
  "order \<Rightarrow> string \<Rightarrow> string \<Rightarrow> int \<Rightarrow> int \<Rightarrow> string \<Rightarrow> string \<Rightarrow> string list \<Rightarrow> time \<Rightarrow> Store \<Rightarrow> Decision result" where
  "RequestDecision ord newid subtaskID fencingToken version agentID question options now s =
     (case findRunning ord subtaskID s of
        Inl e \<Rightarrow> (Inl e, s)
      | Inr sub \<Rightarrow>
         (case authorizeSubtaskLeaseOwner subtaskID fencingToken agentID True s of
            Inl e \<Rightarrow> (Inl e, s)
          | Inr _ \<Rightarrow>
              let options = (if options = [] then [''approve'', RejectChoice] else options);
                  d = zero_decision\<lparr>d_ID := newid, d_MissionID := st_MissionID sub, d_SubtaskID := st_ID sub,
                    d_Kind := ''decision'', d_Question := question, d_Options := options\<rparr>
              in and_then (CreateDecisionAndBlock d version (Some fencingToken) (agent_actor agentID) now s)
                   (\<lambda>_ s. (Inr d, s))))"

section \<open>Resolving\<close>

definition verdict_payload :: "Decision \<Rightarrow> payload" where
  "verdict_payload d = fmap_of_list [(''choice'', VStr (d_Choice d)), (''rationale'', VStr (d_Rationale d))]"

definition decision_mutate :: "Decision \<Rightarrow> Subtask \<Rightarrow> error option \<times> Subtask" where
  "decision_mutate d sub = (None, sub\<lparr>st_ResultRef := ''decision://'' @ d_ID d\<rparr>)"

definition applyDecisionOutcome :: "order \<Rightarrow> Decision \<Rightarrow> time \<Rightarrow> Store \<Rightarrow> unit result" where
  "applyDecisionOutcome ord d now s =
     (let actor = \<lparr>ac_Kind = ''human'', ac_ID = d_DeciderID d\<rparr> in
      case find (\<lambda>x. st_ID x = d_SubtaskID d) (ListSubtasks ord (d_MissionID d) s) of
        None \<Rightarrow> (Inl ErrNotFound, s)
      | Some sub \<Rightarrow>
          if st_State sub \<noteq> StateBlocked then (Inr (), s)
          else if d_Choice d = RejectChoice then
            and_then (TransitionSubtask (st_ID sub) EvDecisionRejected (st_Version sub) actor (Some (verdict_payload d)) now None s)
              (\<lambda>rejected s. and_then (cancelUnreachable ord rejected actor now s)
                (\<lambda>_ s. deriveMissionStatus ord (d_MissionID d) now s))
          else
            and_then (TransitionSubtask (st_ID sub) EvDecisionApproved (st_Version sub) actor (Some (verdict_payload d)) now None s)
              (\<lambda>approved s.
                if isHumanKind (st_Kind sub) then
                  and_then (TransitionSubtask (st_ID sub) EvCompleted (st_Version approved) actor
                      (Some (fmap_of_list [(''via'', VStr ''human_decision'')])) now (Some (decision_mutate d)) s)
                    (\<lambda>done s. propagate ord done actor now s)
                else (Inr (), s)))"

text \<open>The ticket is resolved before the subtask moves; an error of the second step comes with the ticket.\<close>

definition ServiceResolveDecision ::
  "order \<Rightarrow> string \<Rightarrow> string \<Rightarrow> string \<Rightarrow> string \<Rightarrow> time \<Rightarrow> Store \<Rightarrow> (error \<times> Decision option, Decision, Store) outcome" where
  "ServiceResolveDecision ord decisionID choice rationale deciderID now s =
     (case ResolveDecision decisionID choice rationale deciderID now s of
        (Inl e, s) \<Rightarrow> (Inl (e, None), s)
      | (Inr d, s) \<Rightarrow>
         (case applyDecisionOutcome ord d now s of
            (Inl e, s) \<Rightarrow> (Inl (e, Some d), s)
          | (Inr _, s) \<Rightarrow> (Inr d, s)))"

section \<open>Runs\<close>

lemma run_block [runs]: "reaches s u \<Longrightarrow> reaches s (snd (CreateDecisionAndBlock d v tok actor now u))"
  by (rule reaches_step [OF _ step_CreateDecisionAndBlock])

lemma run_tickets: "reaches s u \<Longrightarrow> reaches s (snd (open_tickets ids now subs i opened u))"
proof (induction ids now subs i opened u rule: open_tickets.induct)
  case (2 ids now sub subs i opened u)
  have "reaches s (snd (CreateDecisionAndBlock (human_ticket (ids i) sub) (st_Version sub) None (system_actor ''hitl'') now u))"
    by (rule run_block [OF 2(4)])
  with 2 show ?case by (auto split: prod.splits sum.splits)
qed simp

lemma run_open [runs]: "reaches s u \<Longrightarrow> reaches s (snd (OpenHumanDecisions ord ids now u))"
  unfolding OpenHumanDecisions_def by (rule run_tickets)

lemma run_request [runs]: "reaches s u \<Longrightarrow> reaches s (snd (RequestDecision ord newid ident tok v ag q os now u))"
  by (auto simp: RequestDecision_def Let_def intro!: runs split: sum.splits)

lemma mutate_ok_decision: "mutate_ok (Some (decision_mutate d))"
  by (auto simp: mutate_ok_def decision_mutate_def)

lemma run_outcome [runs]: "reaches s u \<Longrightarrow> reaches s (snd (applyDecisionOutcome ord d now u))"
  by (auto simp: applyDecisionOutcome_def Let_def intro!: runs mutate_ok_decision split: option.splits)

lemma run_resolve [runs]: "reaches s u \<Longrightarrow> reaches s (snd (ResolveDecision ident c r dec now u))"
  by (rule reaches_step [OF _ step_ResolveDecision])

lemma run_service_resolve [runs]:
  assumes "reaches s u"
  shows "reaches s (snd (ServiceResolveDecision ord ident c r dec now u))"
  using run_resolve [OF assms, of ident c r dec now] run_outcome [of s]
  by (auto simp: ServiceResolveDecision_def split: prod.splits sum.splits) (metis snd_conv)+

end
