(* ===== verification/CoreDelegate.thy ===== *)
theory CoreDelegate
  imports CoreHitl
begin

text \<open>
  Delegation and Lead recovery in the service (\<open>internal/core/delegate.go\<close>, \<open>internal/core/lead.go\<close>) and
  the intent type they consume (\<open>internal/core/intent.go\<close>).

  The loop over the rework chain has no bound in the source, so it is a partial function whose value
  \<open>None\<close> is a loop that never ends; the operations built on it return an option for the same reason.
\<close>

section \<open>Intents\<close>

record DelegateSpec =
  ds_Name :: string
  ds_RequiredSkills :: "string list"
  ds_Input :: payload
  ds_Priority :: int
  ds_Deadline :: "time option"
  ds_MaxAttempts :: int
  ds_BudgetTokens :: int
  ds_Grants :: PermissionEnvelope
  ds_ReworkOf :: string
  ds_Feedback :: string

record Intent =
  in_Source :: Actor
  in_Action :: string
  in_IdempotencyKey :: string
  in_Owner :: string
  in_Goal :: string
  in_Tasks :: "TaskSpec list"
  in_BudgetTokens :: int
  in_SubtaskID :: string
  in_ParentSubtaskID :: string
  in_FencingToken :: int
  in_ParentVersion :: int
  in_Task :: "DelegateSpec option"

record IntentResult =
  ir_MissionID :: string
  ir_SubtaskID :: string
  ir_Deduplicated :: bool

section \<open>Limits of a delegation\<close>

definition by_ids :: "Subtask list \<Rightarrow> string \<Rightarrow> Subtask option" where
  "by_ids subs = map_of (rev (map (\<lambda>x. (st_ID x, x)) subs))"

text \<open>The climb along the parents: \<open>n\<close> is the number of iterations the step counter still allows.\<close>

fun climb :: "nat \<Rightarrow> (string \<Rightarrow> Subtask option) \<Rightarrow> Subtask \<Rightarrow> int \<Rightarrow> int" where
  "climb 0 byID cur depth = depth"
| "climb (Suc n) byID cur depth =
     (if st_ParentID cur = '''' then depth
      else case byID (st_ParentID cur) of
          None \<Rightarrow> depth + 1
        | Some p \<Rightarrow> climb n byID p (depth + 1))"

partial_function (option) rework_chain :: "(string \<Rightarrow> Subtask option) \<Rightarrow> Subtask \<Rightarrow> int \<Rightarrow> int option" where
  "rework_chain byID cur chain =
     (if st_ReworkOf cur = '''' then Some chain
      else case byID (st_ReworkOf cur) of
          None \<Rightarrow> Some chain
        | Some prev \<Rightarrow> rework_chain byID prev (chain + 1))"

declare rework_chain.simps [code]

definition checkDelegateLimits ::
  "Config \<Rightarrow> order \<Rightarrow> Subtask \<Rightarrow> DelegateSpec \<Rightarrow> Subtask list \<Rightarrow> Store \<Rightarrow> (error + unit) option" where
  "checkDelegateLimits cfg ord parent task subs s =
     (let byID = by_ids subs;
          depth = climb (nat (MaxDelegateDepth cfg + 2)) byID parent 1
      in if depth > MaxDelegateDepth cfg then Some (Inl (ErrPlain ''core: delegate depth exceeds max''))
         else if CountChildren ord (st_ID parent) s \<ge> MaxDelegateFanout cfg
         then Some (Inl (ErrPlain ''core: delegate fanout reaches max''))
         else if ds_ReworkOf task \<noteq> '''' then
           (case byID (ds_ReworkOf task) of
              None \<Rightarrow> Some (Inl (ErrPlain ''core: rework_of not found in mission''))
            | Some origin \<Rightarrow>
                if st_ParentID origin \<noteq> st_ID parent
                then Some (Inl (ErrPlain ''core: rework_of is not delegated by this parent''))
                else map_option (\<lambda>chain. if chain > MaxRework cfg
                    then Inl (ErrPlain ''core: rework chain exceeds max'') else Inr ())
                  (rework_chain byID origin 1))
         else Some (Inr ()))"

section \<open>The delegate intent\<close>

definition delegated_child :: "string \<Rightarrow> Subtask \<Rightarrow> DelegateSpec \<Rightarrow> PermissionEnvelope \<Rightarrow> Subtask" where
  "delegated_child newid parent task grants = zero_subtask
     \<lparr>st_ID := (if ds_Name task \<noteq> '''' then subID (st_MissionID parent) (ds_Name task) else newid),
      st_MissionID := st_MissionID parent, st_ParentID := st_ID parent, st_Kind := KindAgent,
      st_RequiredSkills := ds_RequiredSkills task,
      st_Input := (if ds_Feedback task \<noteq> '''' then fmupd ''feedback'' (VStr (ds_Feedback task)) (ds_Input task) else ds_Input task),
      st_ReworkOf := ds_ReworkOf task, st_Grants := grants,
      st_Scheduling := \<lparr>Priority = ds_Priority task, Deadline = ds_Deadline task, BudgetTokens = ds_BudgetTokens task,
        Exclusive = False\<rparr>,
      st_Retry := \<lparr>MaxAttempts = ds_MaxAttempts task, Backoff = '''', OnFailure = ''retry''\<rparr>\<rparr>"

definition intentDelegate ::
  "Config \<Rightarrow> order \<Rightarrow> string \<Rightarrow> Intent \<Rightarrow> time \<Rightarrow> Store \<Rightarrow> IntentResult result option" where
  "intentDelegate cfg ord newid inp now s =
     (if in_IdempotencyKey inp = '''' then Some (Inl (ErrPlain ''core: delegate intent requires idempotency_key''), s)
      else case in_Task inp of
          None \<Rightarrow> Some (Inl (ErrPlain ''core: delegate intent requires parent_subtask_id and task''), s)
        | Some task \<Rightarrow>
            if in_ParentSubtaskID inp = '''' then Some (Inl (ErrPlain ''core: delegate intent requires parent_subtask_id and task''), s)
            else if ac_Kind (in_Source inp) \<noteq> ''agent'' then Some (Inl ErrForbidden, s)
            else if ds_BudgetTokens task < 0 then Some (Inl ErrInvalidBudget, s)
            else case NormalizePermissionEnvelope (ds_Grants task) of
                Inl _ \<Rightarrow> Some (Inl ErrInvalidPermission, s)
              | Inr grants \<Rightarrow>
                 (case findRunning ord (in_ParentSubtaskID inp) s of
                    Inl e \<Rightarrow> Some (Inl e, s)
                  | Inr parent \<Rightarrow>
                     (case authorizeSubtaskLeaseOwner (st_ID parent) (in_FencingToken inp) (ac_ID (in_Source inp)) True s of
                        Inl e \<Rightarrow> Some (Inl e, s)
                      | Inr _ \<Rightarrow>
                         (case GetMission (st_MissionID parent) s of
                            Inl e \<Rightarrow> Some (Inl e, s)
                          | Inr m \<Rightarrow>
                              if m_Status m \<noteq> MissionActive then Some (Inl (ErrPlain ''core: delegate into terminal mission rejected''), s)
                              else if \<not> PermissionEnvelopeSubset (st_Grants parent) grants then Some (Inl ErrInvalidPermission, s)
                              else
                               (case checkDelegateLimits cfg ord parent task (ListSubtasks ord (st_MissionID parent) s) s of
                                  None \<Rightarrow> None
                                | Some (Inl e) \<Rightarrow> Some (Inl e, s)
                                | Some (Inr _) \<Rightarrow>
                                    let child = delegated_child newid parent task grants in
                                    Some (case SpawnSubtask (''intent-delegate-'' @ in_IdempotencyKey inp) (st_ID parent)
                                        (in_FencingToken inp) (in_ParentVersion inp) child
                                        \<lparr>ac_Kind = ac_Kind (in_Source inp), ac_ID = ac_ID (in_Source inp)\<rparr> now s of
                                      (Inl (e, existing), s) \<Rightarrow>
                                        if e = ErrDuplicate
                                        then (Inr \<lparr>ir_MissionID = st_MissionID parent, ir_SubtaskID = existing, ir_Deduplicated = True\<rparr>, s)
                                        else (Inl e, s)
                                    | (Inr _, s) \<Rightarrow>
                                        (Inr \<lparr>ir_MissionID = st_MissionID parent, ir_SubtaskID = st_ID child,
                                           ir_Deduplicated = False\<rparr>, s)))))))"

section \<open>Lead recovery\<close>

definition MaxLeadSnapshotSize :: int where "MaxLeadSnapshotSize = 256 * 1024"

record LeadSnapshot =
  ls_MissionID :: string
  ls_SubtaskID :: string
  ls_Value :: string
  ls_Version :: int
  ls_UpdatedAt :: time

record LeadContext =
  lc_Snapshot :: "LeadSnapshot option"
  lc_Inbox :: "LeadInboxItem list"

definition leadSnapshot :: "BoardEntry \<Rightarrow> LeadSnapshot" where
  "leadSnapshot e = \<lparr>ls_MissionID = b_MissionID e, ls_SubtaskID = b_Key e, ls_Value = b_Value e,
     ls_Version = b_Version e, ls_UpdatedAt = b_UpdatedAt e\<rparr>"

definition ServiceListLeadInbox :: "order \<Rightarrow> string \<Rightarrow> bool \<Rightarrow> Store \<Rightarrow> error + LeadInboxItem list" where
  "ServiceListLeadInbox ord lead pendingOnly s =
     (case GetSubtask lead s of Inl e \<Rightarrow> Inl e | Inr _ \<Rightarrow> Inr (ListLeadInbox ord lead pendingOnly s))"

definition ServiceIngestLeadInbox ::
  "string \<Rightarrow> string \<Rightarrow> string \<Rightarrow> int \<Rightarrow> int \<Rightarrow> string \<Rightarrow> time \<Rightarrow> Store \<Rightarrow> LeadInboxItem result" where
  "ServiceIngestLeadInbox lead itemID agentID fencingToken expectedVersion mode now s =
     (if mode \<noteq> LeadIngestSummary \<and> mode \<noteq> LeadIngestFull then (Inl ErrInvalidLeadInput, s)
      else case authorizeSubtaskLeaseOwner lead fencingToken agentID True s of
          Inl e \<Rightarrow> (Inl e, s)
        | Inr _ \<Rightarrow> IngestLeadInbox itemID lead fencingToken expectedVersion mode (agent_actor agentID) now s)"

text \<open>\<open>json.Valid\<close> is the parameter \<open>valid_json\<close>.\<close>

definition ServiceSaveLeadSnapshot ::
  "Config \<Rightarrow> (string \<Rightarrow> bool) \<Rightarrow> string \<Rightarrow> string \<Rightarrow> int \<Rightarrow> int \<Rightarrow> string \<Rightarrow> time \<Rightarrow> Store \<Rightarrow> LeadSnapshot result" where
  "ServiceSaveLeadSnapshot cfg valid_json lead agentID fencingToken expectedVersion snapshot now s =
     (if snapshot = '''' \<or> \<not> valid_json snapshot then (Inl ErrInvalidLeadInput, s)
      else if int (length snapshot) > MaxLeadSnapshotSize then (Inl ErrInvalidLeadInput, s)
      else if expectedVersion < -1 then (Inl ErrInvalidLeadInput, s)
      else case authorizeSubtaskLeaseOwner lead fencingToken agentID True s of
          Inl e \<Rightarrow> (Inl e, s)
        | Inr _ \<Rightarrow>
            and_then (SaveLeadSnapshot lead fencingToken expectedVersion snapshot (LeadHeartbeatTTL cfg) (agent_actor agentID) now s)
              (\<lambda>entry s. (Inr (leadSnapshot entry), s)))"

definition GetLeadContext :: "order \<Rightarrow> string \<Rightarrow> Store \<Rightarrow> error + LeadContext" where
  "GetLeadContext ord lead s =
     (case GetSubtask lead s of
        Inl e \<Rightarrow> Inl e
      | Inr sub \<Rightarrow>
         (case BoardGet (st_MissionID sub) ''lead-plan'' (st_ID sub) s of
            Inl e \<Rightarrow> if e = ErrNotFound
              then Inr \<lparr>lc_Snapshot = None, lc_Inbox = ListLeadInbox ord (st_ID sub) False s\<rparr> else Inl e
          | Inr entry \<Rightarrow> Inr \<lparr>lc_Snapshot = Some (leadSnapshot entry), lc_Inbox = ListLeadInbox ord (st_ID sub) False s\<rparr>))"

end
