(* ===== verification/Cel.thy ===== *)
theory Cel
  imports MemFrames
begin

text \<open>
  The condition kernel of \<open>internal/core/cel.go\<close>: compiling a wake condition, the static extraction of the board
  references of its syntax tree, the filter that decides whether a board write concerns it, the data view, and the
  evaluation.

  The cel-go library is a parameter, the record \<open>CelEngine\<close>: parsing and type checking, the cost estimate, the
  construction of a program and its evaluation under a cost limit. Its syntax tree is the protobuf one; \<open>CelExpr\<close> has
  the cases \<open>walk\<close> and \<open>boardChain\<close> distinguish. The two clock functions, which the code binds for each evaluation, are
  the two durations of the activation. \<open>JSON\<close> stands for \<open>encoding/json\<close>. The compilation cache is left out: it holds what
  compiling the same text gave before.
\<close>

section \<open>Parameters\<close>

text \<open>A struct entry has a field name or a map key. An index \<open>a[b]\<close> is the call \<open>_[_]\<close> without a target; \<open>has(e.f)\<close> is a select with the test flag.\<close>

datatype CelExpr =
    EConst goval
  | EIdent string
  | ESelect CelExpr string bool
  | ECall string "CelExpr option" "CelExpr list"
  | EList "CelExpr list"
  | EStruct string "CelEntry list"
  | EComp string CelExpr string CelExpr CelExpr CelExpr CelExpr
      \<comment> \<open>iteration variable, range, accumulator, its initial value, loop condition, loop step, result\<close>
and CelEntry = EField string CelExpr | EMapEntry CelExpr CelExpr

datatype CelType = TypeBool | TypeDyn | TypeOther

text \<open>\<open>ast_Checked\<close> is what \<open>AstToCheckedExpr\<close> returns, \<open>None\<close> for its error.\<close>

record CelAst =
  ast_Source :: string
  ast_ResultType :: CelType
  ast_Checked :: "CelExpr option"

type_synonym boardView = "(string, payload) fmap"

record Activation =
  act_board :: boardView
  act_mission :: payload
  act_subtask :: payload
  act_elapsed :: duration
  act_deadline_in :: duration

record CelEngine =
  eng_Compile :: "string \<Rightarrow> string + CelAst"
  eng_EstimateCost :: "CelAst \<Rightarrow> string + int"
  eng_Program :: "CelAst \<Rightarrow> int \<Rightarrow> error option"
  eng_Eval :: "CelAst \<Rightarrow> int \<Rightarrow> Activation \<Rightarrow> string + goval"

record JSON =
  json_Unmarshal :: "string \<Rightarrow> goval option"
  json_Marshal :: "goval \<Rightarrow> error + string"

section \<open>Static references\<close>

record refExtractor =
  x_refs :: "string list"
  x_seen :: "string fset"
  x_wildcard :: bool

definition ref_add :: "string \<Rightarrow> refExtractor \<Rightarrow> refExtractor" where
  "ref_add r x = (if r |\<in>| x_seen x then x
     else x\<lparr>x_seen := finsert r (x_seen x), x_refs := x_refs x @ [r]\<rparr>)"

definition record_ref :: "string list \<Rightarrow> bool \<Rightarrow> refExtractor \<Rightarrow> refExtractor" where
  "record_ref segs dynamic x =
     (if dynamic \<or> segs = [] then x\<lparr>x_wildcard := True\<rparr>
      else if length segs = 1 then ref_add (segs ! 0 @ ''/*'') x
      else ref_add (segs ! 0 @ ''/'' @ segs ! 1) x)"

text \<open>The constant select and index chain that ends in the identifier \<open>board\<close>: its segments, whether one is dynamic,
  and whether the root is \<open>board\<close>.\<close>

fun boardChain :: "CelExpr \<Rightarrow> string list \<times> bool \<times> bool" where
  "boardChain (EIdent x) = ([], False, x = ''board'')"
| "boardChain (ESelect e f _) =
     (let (segs, dynamic, ok) = boardChain e in if \<not> ok then ([], False, False) else (segs @ [f], dynamic, True))"
| "boardChain (ECall f tgt [e, i]) =
     (if f = ''_[_]'' then
        let (segs, dynamic, ok) = boardChain e
        in if \<not> ok then ([], False, False)
           else case i of EConst (VStr k) \<Rightarrow> (segs @ [k], dynamic, True) | _ \<Rightarrow> (segs, True, True)
      else ([], False, False))"
| "boardChain _ = ([], False, False)"

fun walk :: "CelExpr \<Rightarrow> refExtractor \<Rightarrow> refExtractor"
  and walk_list :: "CelExpr list \<Rightarrow> refExtractor \<Rightarrow> refExtractor"
  and walk_entries :: "CelEntry list \<Rightarrow> refExtractor \<Rightarrow> refExtractor" where
  "walk (EConst c) x = x"
| "walk (EIdent v) x = (if x_wildcard x then x else if v = ''board'' then record_ref [] False x else x)"
| "walk (ESelect e f t) x =
     (if x_wildcard x then x
      else let (segs, dynamic, ok) = boardChain (ESelect e f t)
           in if ok then record_ref segs dynamic x else walk e x)"
| "walk (ECall f tgt es) x =
     (if x_wildcard x then x
      else let (segs, dynamic, ok) = boardChain (ECall f tgt es)
           in if f = ''_[_]'' \<and> ok then record_ref segs dynamic x
              else walk_list es (case tgt of None \<Rightarrow> x | Some t \<Rightarrow> walk t x))"
| "walk (EList es) x = (if x_wildcard x then x else walk_list es x)"
| "walk (EStruct nm ens) x = (if x_wildcard x then x else walk_entries ens x)"
| "walk (EComp iv rng av ini cnd stp res) x =
     (if x_wildcard x then x else walk res (walk stp (walk cnd (walk ini (walk rng x)))))"
| "walk_list [] x = x"
| "walk_list (e # es) x = walk_list es (walk e x)"
| "walk_entries [] x = x"
| "walk_entries (EField _ v # ens) x = walk_entries ens (walk v x)"
| "walk_entries (EMapEntry k v # ens) x = walk_entries ens (walk v (walk k x))"

definition extractBoardRefs :: "CelAst \<Rightarrow> string list \<times> bool" where
  "extractBoardRefs ast =
     (case ast_Checked ast of
        None \<Rightarrow> ([], True)
      | Some e \<Rightarrow> let x = walk e \<lparr>x_refs = [], x_seen = {||}, x_wildcard = False\<rparr> in (x_refs x, x_wildcard x))"

section \<open>Compilation\<close>

definition MaxConditionStaticCost :: int where "MaxConditionStaticCost = 10000"
definition MaxConditionRuntimeCost :: int where "MaxConditionRuntimeCost = 100000"

record compiledCondition =
  cc_ast :: CelAst
  cc_refs :: "string list"
  cc_wildcard :: bool

definition compileConditionExpr :: "CelEngine \<Rightarrow> string \<Rightarrow> error + compiledCondition" where
  "compileConditionExpr eng expr =
     (case eng_Compile eng expr of
        Inl _ \<Rightarrow> Inl ErrInvalidCondition
      | Inr ast \<Rightarrow>
          if ast_ResultType ast \<noteq> TypeBool \<and> ast_ResultType ast \<noteq> TypeDyn then Inl ErrInvalidCondition
          else case eng_EstimateCost eng ast of
              Inl _ \<Rightarrow> Inl ErrInvalidCondition
            | Inr est \<Rightarrow>
                if est > MaxConditionStaticCost then Inl ErrInvalidCondition
                else let (refs, wildcard) = extractBoardRefs ast
                     in Inr \<lparr>cc_ast = ast, cc_refs = refs, cc_wildcard = wildcard\<rparr>)"

definition referencesBoard :: "compiledCondition \<Rightarrow> string \<Rightarrow> bool" where
  "referencesBoard c changedBoard \<longleftrightarrow> cc_wildcard c
     \<or> list_ex (\<lambda>r. r = changedBoard
         \<or> (length r \<ge> 2 \<and> drop (length r - 2) r = ''/*'' \<and> take (length r - 1) changedBoard = take (length r - 1) r))
       (cc_refs c)"

section \<open>The data view\<close>

text \<open>
  \<open>int64(t)\<close> of an integral float. The bound \<open>math.MaxInt64\<close> is rounded to \<open>2 ^ 63\<close> in the comparison, so \<open>2 ^ 63\<close> itself
  reaches the conversion, where the language leaves the result open; it is the most negative value, as on amd64.
\<close>

definition int64_of_float :: "float64 \<Rightarrow> int" where
  "int64_of_float t = (if t = 2 ^ 63 then - (2 ^ 63) else \<lfloor>t\<rfloor>)"

primrec normCEL :: "goval \<Rightarrow> goval" where
  "normCEL VNil = VNil"
| "normCEL (VBool b) = VBool b"
| "normCEL (VInt i) = VInt i"
| "normCEL (VInt64 i) = VInt64 i"
| "normCEL (VFloat t) = (if of_int \<lfloor>t\<rfloor> = t \<and> - (2 ^ 63) \<le> t \<and> t \<le> 2 ^ 63 then VInt64 (int64_of_float t) else VFloat t)"
| "normCEL (VStr t) = VStr t"
| "normCEL (VStrs ts) = VStrs ts"
| "normCEL (VArr vs) = VArr (map normCEL vs)"
| "normCEL (VObj m) = VObj (fmmap normCEL m)"

definition jsonToCEL :: "JSON \<Rightarrow> string \<Rightarrow> goval" where
  "jsonToCEL js raw = (case json_Unmarshal js raw of None \<Rightarrow> VStr raw | Some v \<Rightarrow> normCEL v)"

definition put_entry :: "JSON \<Rightarrow> BoardEntry \<Rightarrow> boardView \<Rightarrow> boardView" where
  "put_entry js e view =
     (let g = (case fmlookup view (b_Namespace e) of None \<Rightarrow> fmempty | Some g \<Rightarrow> g)
      in fmupd (b_Namespace e) (fmupd (b_Key e) (jsonToCEL js (b_Value e)) g) view)"

text \<open>The part of a reference before its first slash.\<close>

definition ref_namespace :: "string \<Rightarrow> string" where
  "ref_namespace r = takeWhile (\<lambda>c. c \<noteq> CHR ''/'') r"

definition celBoardView :: "JSON \<Rightarrow> order \<Rightarrow> string \<Rightarrow> compiledCondition \<Rightarrow> Store \<Rightarrow> boardView" where
  "celBoardView js ord missionID cc s =
     (if cc_wildcard cc then fold (put_entry js) (BoardList ord missionID '''' s) fmempty
      else fold (\<lambda>ns. fold (put_entry js) (BoardList ord missionID ns s))
             (ord (fset_of_list (map ref_namespace (cc_refs cc)))) fmempty)"

section \<open>Evaluation\<close>

definition mission_view :: "Mission \<Rightarrow> payload" where
  "mission_view m = fmap_of_list [(''id'', VStr (m_ID m)), (''owner'', VStr (m_Owner m)), (''goal'', VStr (m_Goal m)),
     (''status'', VStr (mission_status_string (m_Status m)))]"

definition subtask_view :: "Subtask \<Rightarrow> payload" where
  "subtask_view sub = fmap_of_list [(''id'', VStr (st_ID sub)), (''kind'', VStr (st_Kind sub)),
     (''state'', VStr (state_string (st_State sub))), (''attempt'', VInt64 (st_Attempt sub)),
     (''assignee'', VStr (st_Assignee sub))]"

definition contains :: "string \<Rightarrow> string \<Rightarrow> bool" where
  "contains pat t \<longleftrightarrow> list_ex (\<lambda>i. take (length pat) (drop i t) = pat) [0..<Suc (length t)]"

definition evalConditionExpr ::
  "CelEngine \<Rightarrow> JSON \<Rightarrow> order \<Rightarrow> Subtask \<Rightarrow> WakeSpec \<Rightarrow> BoardCondition \<Rightarrow> time \<Rightarrow> Store \<Rightarrow> error + bool" where
  "evalConditionExpr eng js ord sub w c now s =
     (case compileConditionExpr eng (bc_Expr c) of
        Inl e \<Rightarrow> Inl e
      | Inr cc \<Rightarrow>
         (case GetMission (st_MissionID sub) s of
            Inl e \<Rightarrow> Inl e
          | Inr m \<Rightarrow>
             (case eng_Program eng (cc_ast cc) MaxConditionRuntimeCost of
                Some e \<Rightarrow> Inl e
              | None \<Rightarrow>
                 (case eng_Eval eng (cc_ast cc) MaxConditionRuntimeCost
                     \<lparr>act_board = celBoardView js ord (st_MissionID sub) cc s, act_mission = mission_view m,
                      act_subtask = subtask_view sub,
                      act_elapsed = time_sub now (case w_RegisteredAt w of None \<Rightarrow> now | Some t \<Rightarrow> t),
                      act_deadline_in = time_sub (case w_Deadline w of None \<Rightarrow> now | Some t \<Rightarrow> t) now\<rparr> of
                    Inl msg \<Rightarrow> if contains ''cost limit'' msg then Inl ErrConditionCostExceeded else Inr False
                  | Inr v \<Rightarrow> Inr (v = VBool True)))))"

end
