(* ===== verification/CoreTrigger.thy ===== *)
theory CoreTrigger
  imports CoreDelegate Cel
begin

text \<open>
  Suspension, wake-up and the wake evaluators of \<open>internal/core/trigger.go\<close>, and the blackboard operations of
  \<open>internal/core/service.go\<close> that drive them.

  A stored registration is decoded already (see \<open>MemWake\<close>), so \<open>wakeSpecOf\<close> cannot fail. Every operation reads the
  clock once; the code reads it again inside its loops.
\<close>

section \<open>Registration\<close>

definition MaxCheckpointSize :: int where "MaxCheckpointSize = 64 * 1024"

text \<open>\<open>strings.SplitN(s, "/", 2)\<close>: the second part is \<open>None\<close> when there is no slash.\<close>

definition split_slash :: "string \<Rightarrow> string \<times> string option" where
  "split_slash t = (let a = takeWhile (\<lambda>c. c \<noteq> CHR ''/'') t; b = dropWhile (\<lambda>c. c \<noteq> CHR ''/'') t
     in (a, if b = [] then None else Some (tl b)))"

definition validateCondition :: "CelEngine \<Rightarrow> BoardCondition option \<Rightarrow> error + BoardCondition" where
  "validateCondition eng oc =
     (case oc of
        None \<Rightarrow> Inl (ErrPlain ''core: condition wake requires condition'')
      | Some c \<Rightarrow>
          let hasExpr = bc_Expr c \<noteq> ''''; hasStruct = bc_Board c \<noteq> '''' \<or> bc_Op c \<noteq> '''' in
          if hasExpr \<and> hasStruct then Inl ErrInvalidCondition
          else if hasExpr then
            (case compileConditionExpr eng (bc_Expr c) of
               Inl e \<Rightarrow> Inl e
             | Inr cc \<Rightarrow> Inr (c\<lparr>bc_Refs := cc_refs cc, bc_RefsWildcard := cc_wildcard cc\<rparr>))
          else if \<not> hasStruct then Inl (ErrPlain ''core: condition requires expr or board/op'')
          else if fst (split_slash (bc_Board c)) = '''' \<or> snd (split_slash (bc_Board c)) \<in> {None, Some ''''}
          then Inl (ErrPlain ''core: condition.board must be namespace/key'')
          else if bc_Op c = CondExists then Inr c
          else if bc_Op c = CondEquals then
            (if bc_Value c = VNil then Inl (ErrPlain ''core: equals condition requires value'') else Inr c)
          else Inl (ErrPlain ''core: unsupported condition op''))"

text \<open>The result is the registration with the references the condition check fills in.\<close>

definition validateWake :: "CelEngine \<Rightarrow> WakeSpec \<Rightarrow> error + WakeSpec" where
  "validateWake eng w =
     (let kind =
        (if w_Kind w = WakeTimer then
           (if w_At w = None then Inl (ErrPlain ''core: timer wake requires at'') else Inr w)
         else if w_Kind w = WakeManual then Inr w
         else if w_Kind w = WakeEvent then
           (case w_Event w of
              None \<Rightarrow> Inl (ErrPlain ''core: event wake requires event.types'')
            | Some ev \<Rightarrow> if em_Types ev = [] then Inl (ErrPlain ''core: event wake requires event.types'') else Inr w)
         else if w_Kind w = WakeCondition then
           map_sum (\<lambda>e. e) (\<lambda>c. w\<lparr>w_Condition := Some c\<rparr>) (validateCondition eng (w_Condition w))
         else Inl (ErrPlain ''core: unsupported wake kind''))
      in case kind of
           Inl e \<Rightarrow> Inl e
         | Inr w \<Rightarrow>
            (case w_Deadline w of
               None \<Rightarrow> Inl (ErrPlain ''core: wake deadline (TTL) is required'')
             | Some d \<Rightarrow>
                 if w_Kind w = WakeTimer \<and> \<not> time_after d (the (w_At w))
                 then Inl (ErrPlain ''core: wake deadline must be after at'') else Inr w))"

definition Suspend ::
  "CelEngine \<Rightarrow> string \<Rightarrow> int \<Rightarrow> int \<Rightarrow> string \<Rightarrow> WakeSpec \<Rightarrow> string \<Rightarrow> time \<Rightarrow> Store \<Rightarrow> Subtask result" where
  "Suspend eng subtaskID fencingToken version agentID wake checkpoint now s =
     (case validateWake eng wake of
        Inl e \<Rightarrow> (Inl e, s)
      | Inr wake \<Rightarrow>
         (case authorizeSubtaskLeaseOwner subtaskID fencingToken agentID True s of
            Inl e \<Rightarrow> (Inl e, s)
          | Inr _ \<Rightarrow>
              if int (length checkpoint) > MaxCheckpointSize then (Inl (ErrPlain ''core: checkpoint too large''), s)
              else
                let wake = (if w_Kind wake = WakeEvent
                            then wake\<lparr>w_Event := map_option (\<lambda>ev. ev\<lparr>em_AfterSeq := MaxEventSeq s\<rparr>) (w_Event wake)\<rparr>
                            else wake);
                    wake = wake\<lparr>w_RegisteredAt := Some now\<rparr>
                in SuspendSubtask subtaskID fencingToken version wake checkpoint (agent_actor agentID) now s))"

definition WakeAs :: "order \<Rightarrow> string \<Rightarrow> Actor \<Rightarrow> time \<Rightarrow> Store \<Rightarrow> Subtask result" where
  "WakeAs ord subtaskID actor now s =
     (case find (\<lambda>x. st_ID x = subtaskID) (ListSubtasksByState ord StateWaiting s) of
        Some x \<Rightarrow> WakeSubtask subtaskID (st_Version x) actor now s
      | None \<Rightarrow> (Inl ErrNotFound, s))"

definition Wake :: "order \<Rightarrow> string \<Rightarrow> string \<Rightarrow> time \<Rightarrow> Store \<Rightarrow> Subtask result" where
  "Wake ord subtaskID actorID now s = WakeAs ord subtaskID \<lparr>ac_Kind = ''human'', ac_ID = actorID\<rparr> now s"

definition Progress ::
  "Config \<Rightarrow> string \<Rightarrow> string \<Rightarrow> int \<Rightarrow> string \<Rightarrow> string \<Rightarrow> time \<Rightarrow> Store \<Rightarrow> unit result" where
  "Progress cfg subtaskID lid fencingToken agentID checkpoint now s =
     (if int (length checkpoint) > MaxCheckpointSize then (Inl (ErrPlain ''core: checkpoint too large''), s)
      else case authorizeLeaseOwner lid subtaskID fencingToken agentID True s of
          Inl e \<Rightarrow> (Inl e, s)
        | Inr _ \<Rightarrow>
            and_then (RenewLease lid fencingToken (wrap64 (2 * OfferTTL cfg)) now s) (\<lambda>_ s.
              if checkpoint = '''' then (Inr (), s) else SaveCheckpoint subtaskID fencingToken checkpoint s))"

section \<open>Event wakes\<close>

definition wakeSpecOf :: "Subtask \<Rightarrow> WakeSpec option" where
  "wakeSpecOf sub = st_WakeSpec sub"

definition split_on :: "char \<Rightarrow> string \<Rightarrow> string list" where
  "split_on c t = foldr (\<lambda>x acc. if x = c then [] # acc else (x # hd acc) # tl acc) t [[]]"

fun walk_path :: "string list \<Rightarrow> goval \<Rightarrow> goval option" where
  "walk_path [] cur = Some cur"
| "walk_path (seg # segs) (VObj m) = (case fmlookup m seg of None \<Rightarrow> None | Some v \<Rightarrow> walk_path segs v)"
| "walk_path (seg # segs) _ = None"

text \<open>\<open>reflect.DeepEqual\<close> compares dynamic types and values: equality of \<open>goval\<close>.\<close>

definition matchWhere :: "payload \<Rightarrow> payload \<Rightarrow> bool" where
  "matchWhere pl whr \<longleftrightarrow> fmpred (\<lambda>path want. walk_path (split_on (CHR ''.'') path) (VObj pl) = Some want) whr"

definition event_matches :: "EventMatch \<Rightarrow> Event \<Rightarrow> bool" where
  "event_matches m e \<longleftrightarrow> e_Type e \<in> set (em_Types m) \<and> matchWhere (e_Payload e) (em_Where m)"

lemma collectEvents_members:
  "set (collectEvents m after limit out es) \<subseteq> set out \<union> {e \<in> set es. e_Seq e > after \<and> e_MissionID e = m}"
  by (induction m after limit out es rule: collectEvents.induct) (auto simp: Let_def)

text \<open>The pages of 200 events: whether one of them has a match. The log after the last event of a page is shorter.\<close>

function scan_events :: "(Event \<Rightarrow> bool) \<Rightarrow> string \<Rightarrow> int \<Rightarrow> Store \<Rightarrow> bool" where
  "scan_events P missionID after s =
     (let evs = ListMissionEvents missionID after 200 s in
      if list_ex P evs then True
      else if length evs < 200 then False
      else scan_events P missionID (e_Seq (last evs)) s)"
  by pat_completeness auto

termination
proof (relation "measure (\<lambda>(P, m, after, s). length (filter (\<lambda>e. e_Seq e > after) (events s)))")
  fix P :: "Event \<Rightarrow> bool" and missionID after and s :: Store and evs
  assume evs: "evs = ListMissionEvents missionID after 200 s" "\<not> length evs < 200"
  then have "last evs \<in> set evs" by (intro last_in_set) auto
  with evs(1) have l: "last evs \<in> set (events s)" "e_Seq (last evs) > after"
    using collectEvents_members [of missionID after 200 "[]" "events s"] by (auto simp: ListMissionEvents_def)
  have "length (filter (\<lambda>e. e_Seq e > e_Seq (last evs)) (events s))
      < length (filter (\<lambda>e. e_Seq e > after) (events s))"
  proof -
    have "filter (\<lambda>e. e_Seq e > e_Seq (last evs)) (filter (\<lambda>e. e_Seq e > after) (events s))
        = filter (\<lambda>e. e_Seq e > e_Seq (last evs)) (events s)" using l(2) by (auto intro: filter_cong)
    moreover have "length (filter (\<lambda>e. e_Seq e > e_Seq (last evs)) (filter (\<lambda>e. e_Seq e > after) (events s)))
        < length (filter (\<lambda>e. e_Seq e > after) (events s))"
      by (rule length_filter_less [of "last evs"]) (use l in auto)
    ultimately show ?thesis by simp
  qed
  then show "((P, missionID, e_Seq (last evs), s), P, missionID, after, s)
      \<in> measure (\<lambda>(P, m, after, s). length (filter (\<lambda>e. e_Seq e > after) (events s)))" by simp
qed simp

declare scan_events.simps [simp del]

text \<open>A registration whose deadline has passed is left to the sweeper.\<close>

definition wake_lapsed :: "WakeSpec \<Rightarrow> time \<Rightarrow> bool" where
  "wake_lapsed w now \<longleftrightarrow> (case w_Deadline w of None \<Rightarrow> False | Some d \<Rightarrow> \<not> time_after d now)"

definition eval_event_wake :: "time \<Rightarrow> Subtask \<Rightarrow> Store \<Rightarrow> unit result" where
  "eval_event_wake now sub s =
     (case wakeSpecOf sub of
        None \<Rightarrow> (Inr (), s)
      | Some w \<Rightarrow>
         (case w_Event w of
            None \<Rightarrow> (Inr (), s)
          | Some m \<Rightarrow>
              if wake_lapsed w now then (Inr (), s)
              else if scan_events (event_matches m) (st_MissionID sub) (em_AfterSeq m) s
              then (Inr (), snd (WakeSubtask (st_ID sub) (st_Version sub) (system_actor ''trigger'') now s))
              else (Inr (), s)))"

definition evalEventWakes :: "order \<Rightarrow> time \<Rightarrow> Store \<Rightarrow> unit result" where
  "evalEventWakes ord now s = for_each (eval_event_wake now) (ListWaiting ord WakeEvent s) s"

section \<open>Condition wakes\<close>

definition evalStructuredCondition :: "JSON \<Rightarrow> string \<Rightarrow> BoardCondition \<Rightarrow> Store \<Rightarrow> error + bool" where
  "evalStructuredCondition js missionID c s =
     (case split_slash (bc_Board c) of (ns, key) \<Rightarrow>
      case BoardGet missionID ns (the key) s of
        Inl e \<Rightarrow> if e = ErrNotFound then Inr False else Inl e
      | Inr entry \<Rightarrow>
          if bc_Op c = CondExists then Inr True
          else case json_Marshal js (bc_Value c) of
              Inl e \<Rightarrow> Inl e
            | Inr want \<Rightarrow>
               (case json_Unmarshal js (b_Value entry) of
                  None \<Rightarrow> Inr False
                | Some gotNorm \<Rightarrow> map_sum (\<lambda>e. e) (\<lambda>got. want = got) (json_Marshal js gotNorm)))"

definition evalCondition ::
  "CelEngine \<Rightarrow> JSON \<Rightarrow> order \<Rightarrow> Subtask \<Rightarrow> WakeSpec \<Rightarrow> BoardCondition \<Rightarrow> time \<Rightarrow> Store \<Rightarrow> error + bool" where
  "evalCondition eng js ord sub w c now s =
     (if bc_Expr c \<noteq> '''' then evalConditionExpr eng js ord sub w c now s
      else evalStructuredCondition js (st_MissionID sub) c s)"

definition conditionRefsChanged :: "CelEngine \<Rightarrow> BoardCondition \<Rightarrow> string \<Rightarrow> bool" where
  "conditionRefsChanged eng c changedBoard \<longleftrightarrow>
     (if bc_Expr c = '''' then bc_Board c = changedBoard
      else case compileConditionExpr eng (bc_Expr c) of Inl _ \<Rightarrow> True | Inr cc \<Rightarrow> referencesBoard cc changedBoard)"

definition cost_event :: "Subtask \<Rightarrow> BoardCondition \<Rightarrow> time \<Rightarrow> Event" where
  "cost_event sub c now = \<lparr>e_Seq = 0, e_AggregateID = st_ID sub, e_MissionID = st_MissionID sub,
     e_Type = ''condition.cost_exceeded'',
     e_Payload = fmap_of_list [(''subtask_id'', VStr (st_ID sub)), (''expr'', VStr (bc_Expr c)),
       (''limit'', VInt MaxConditionRuntimeCost)],
     e_Actor = system_actor ''trigger'', e_Ts = now\<rparr>"

definition eval_condition_wake ::
  "CelEngine \<Rightarrow> JSON \<Rightarrow> order \<Rightarrow> string \<Rightarrow> string \<Rightarrow> time \<Rightarrow> Subtask \<Rightarrow> Store \<Rightarrow> unit result" where
  "eval_condition_wake eng js ord missionID changedBoard now sub s =
     (case wakeSpecOf sub of
        None \<Rightarrow> (Inr (), s)
      | Some w \<Rightarrow>
         (case w_Condition w of
            None \<Rightarrow> (Inr (), s)
          | Some c \<Rightarrow>
              if wake_lapsed w now then (Inr (), s)
              else if changedBoard \<noteq> '''' \<and> (st_MissionID sub \<noteq> missionID \<or> \<not> conditionRefsChanged eng c changedBoard)
              then (Inr (), s)
              else case evalCondition eng js ord sub w c now s of
                  Inl e \<Rightarrow> if e = ErrConditionCostExceeded then (Inr (), snd (AppendEvent (cost_event sub c now) s))
                           else (Inl e, s)
                | Inr ok \<Rightarrow>
                    if ok then (Inr (), snd (WakeSubtask (st_ID sub) (st_Version sub) (system_actor ''trigger'') now s))
                    else (Inr (), s)))"

definition evalConditionWakes ::
  "CelEngine \<Rightarrow> JSON \<Rightarrow> order \<Rightarrow> string \<Rightarrow> string \<Rightarrow> time \<Rightarrow> Store \<Rightarrow> unit result" where
  "evalConditionWakes eng js ord missionID changedBoard now s =
     for_each (eval_condition_wake eng js ord missionID changedBoard now) (ListWaiting ord WakeCondition s) s"

section \<open>The wake part of the sweep\<close>

definition fire_timer :: "time \<Rightarrow> Subtask \<Rightarrow> Store \<Rightarrow> unit result" where
  "fire_timer now sub s =
     (Inr (), snd (WakeSubtask (st_ID sub) (st_Version sub) (system_actor ''trigger'') now s))"

definition fail_expired :: "order \<Rightarrow> time \<Rightarrow> Subtask \<Rightarrow> Store \<Rightarrow> unit result" where
  "fail_expired ord now sub s =
     and_then (cancelUnreachable ord sub (system_actor ''sweeper'') now s)
       (\<lambda>_ s. deriveMissionStatus ord (st_MissionID sub) now s)"

definition sweepWakes :: "CelEngine \<Rightarrow> JSON \<Rightarrow> order \<Rightarrow> time \<Rightarrow> Store \<Rightarrow> unit result" where
  "sweepWakes eng js ord now s =
     and_then (for_each (fire_timer now) (ListWaitingDue ord now s) s) (\<lambda>_ s.
     and_then (evalEventWakes ord now s) (\<lambda>_ s.
     and_then (evalConditionWakes eng js ord '''' '''' now s) (\<lambda>_ s.
     and_then (ExpireWakes ord now s) (\<lambda>expired s.
       for_each (fail_expired ord now) expired s))))"

section \<open>The blackboard\<close>

definition ServiceBoardPut ::
  "CelEngine \<Rightarrow> JSON \<Rightarrow> order \<Rightarrow> string \<Rightarrow> string \<Rightarrow> string \<Rightarrow> string \<Rightarrow> int \<Rightarrow> time \<Rightarrow> Store \<Rightarrow> BoardEntry result" where
  "ServiceBoardPut eng js ord missionID ns key val expectedVersion now s =
     (if ns = '''' \<or> key = '''' then (Inl (ErrPlain ''core: board namespace/key required''), s)
      else and_then (BoardPut \<lparr>b_MissionID = missionID, b_Namespace = ns, b_Key = key, b_Value = val, b_Version = 0,
              b_UpdatedAt = zero_time\<rparr> expectedVersion now s)
             (\<lambda>entry s. (Inr entry, snd (evalConditionWakes eng js ord missionID (ns @ ''/'' @ key) now s))))"

definition ServiceBoardGet :: "string \<Rightarrow> string \<Rightarrow> string \<Rightarrow> Store \<Rightarrow> error + BoardEntry" where
  "ServiceBoardGet missionID ns key s = BoardGet missionID ns key s"

definition ServiceBoardList :: "order \<Rightarrow> string \<Rightarrow> string \<Rightarrow> Store \<Rightarrow> BoardEntry list" where
  "ServiceBoardList ord missionID ns s = BoardList ord missionID ns s"

section \<open>Runs\<close>

lemma run_wake_ops [runs]:
  "reaches s u \<Longrightarrow> reaches s (snd (WakeSubtask ident v actor now u))"
  "reaches s u \<Longrightarrow> reaches s (snd (SuspendSubtask ident tok v wake ckpt actor now u))"
  "reaches s u \<Longrightarrow> reaches s (snd (SaveCheckpoint ident tok ckpt u))"
  "reaches s u \<Longrightarrow> reaches s (snd (ExpireWakes ord now u))"
  "reaches s u \<Longrightarrow> reaches s (snd (AppendEvent ev u))"
  "reaches s u \<Longrightarrow> reaches s (snd (BoardPut b v now u))"
  "reaches s u \<Longrightarrow> reaches s (snd (RenewLease lid tok ttl now u))"
  by (auto intro: reaches_step mem_step.intros)

lemma run_suspend [runs]: "reaches s u \<Longrightarrow> reaches s (snd (Suspend eng ident tok v ag wake ckpt now u))"
  by (auto simp: Suspend_def Let_def intro!: runs split: sum.splits)

lemma run_wake_as [runs]: "reaches s u \<Longrightarrow> reaches s (snd (WakeAs ord ident actor now u))"
  by (auto simp: WakeAs_def intro!: runs split: option.splits)

lemma run_progress [runs]: "reaches s u \<Longrightarrow> reaches s (snd (Progress cfg ident lid tok ag ckpt now u))"
  by (auto simp: Progress_def intro!: runs split: sum.splits)

lemma run_event_wakes [runs]: "reaches s u \<Longrightarrow> reaches s (snd (evalEventWakes ord now u))"
  unfolding evalEventWakes_def by (rule run_for_each) (auto simp: eval_event_wake_def intro!: runs split: option.splits)

lemma run_condition_wakes [runs]: "reaches s u \<Longrightarrow> reaches s (snd (evalConditionWakes eng js ord m b now u))"
  unfolding evalConditionWakes_def
  by (rule run_for_each) (auto simp: eval_condition_wake_def intro!: runs split: option.splits sum.splits)

lemma run_sweep_wakes [runs]: "reaches s u \<Longrightarrow> reaches s (snd (sweepWakes eng js ord now u))"
  by (auto simp: sweepWakes_def fire_timer_def fail_expired_def intro!: runs)

lemma run_board_put [runs]: "reaches s u \<Longrightarrow> reaches s (snd (ServiceBoardPut eng js ord m ns key val v now u))"
  by (auto simp: ServiceBoardPut_def intro!: runs)

end
