(* ===== verification/CoreSweep.thy ===== *)
theory CoreSweep
  imports CoreTrigger
begin

text \<open>
  The sweeper of \<open>internal/core/service.go\<close>: one round that takes over stale Leads, expires leases, marks silent agents,
  times decisions out, fires wakes and then repairs what an interruption may have left (roots, propagation, reputation,
  decision effects). The round stops at the first error. It reads the clock once; the code reads it again in some of the
  steps.
\<close>

definition mark_stale :: "Config \<Rightarrow> time \<Rightarrow> Agent \<Rightarrow> Store \<Rightarrow> unit result" where
  "mark_stale cfg now a s =
     (if a_Health a = ''healthy'' \<and> time_sub now (a_LastHeartbeat a) > HeartbeatStale cfg
      then MarkAgentHealth (a_ID a) ''suspect'' s else (Inr (), s))"

definition apply_expired :: "order \<Rightarrow> time \<Rightarrow> Decision \<Rightarrow> Store \<Rightarrow> unit result" where
  "apply_expired ord now d s =
     (if d_Status d = DecisionResolved then applyDecisionOutcome ord d now s else (Inr (), s))"

definition activate_pending :: "time \<Rightarrow> Subtask \<Rightarrow> Store \<Rightarrow> unit result" where
  "activate_pending now sub s =
     (if st_DependsOn sub \<noteq> [] then (Inr (), s)
      else tolerate_conflict (TransitionSubtask (st_ID sub) EvDepsSatisfied (st_Version sub) (system_actor ''reconciler'') None now
        None s))"

definition reconcilePendingRoots :: "order \<Rightarrow> time \<Rightarrow> Store \<Rightarrow> unit result" where
  "reconcilePendingRoots ord now s = for_each (activate_pending now) (ListSubtasksByState ord StatePending s) s"

definition repropagate :: "order \<Rightarrow> time \<Rightarrow> Subtask \<Rightarrow> Store \<Rightarrow> unit result" where
  "repropagate ord now sub s = propagate ord sub (system_actor ''reconciler'') now s"

definition reconcileSucceeded :: "order \<Rightarrow> time \<Rightarrow> Store \<Rightarrow> unit result" where
  "reconcileSucceeded ord now s = for_each (repropagate ord now) (ListSubtasksByState ord StateSucceeded s) s"

definition rerecord :: "time \<Rightarrow> bool \<Rightarrow> Subtask \<Rightarrow> Service \<Rightarrow> Service" where
  "rerecord now success sub sv = recordOutcome sub success (st_Assignee sub) 0 now sv"

definition reconcileReputation :: "order \<Rightarrow> time \<Rightarrow> Service \<Rightarrow> (error, unit, Service) outcome" where
  "reconcileReputation ord now sv =
     (let sv = fold (rerecord now True) (ListSubtasksByState ord StateSucceeded (sv_st sv)) sv;
          sv = fold (rerecord now False) (ListSubtasksByState ord StateFailed (sv_st sv)) sv
      in (Inr (), sv))"

definition reconcileResolvedDecisions :: "order \<Rightarrow> time \<Rightarrow> Store \<Rightarrow> unit result" where
  "reconcileResolvedDecisions ord now s = for_each (apply_expired ord now) (ListDecisions ord '''' False s) s"

text \<open>The part of the round before the reconciliation of reputations; it only touches the store.\<close>

definition sweep_store :: "CelEngine \<Rightarrow> JSON \<Rightarrow> Config \<Rightarrow> order \<Rightarrow> time \<Rightarrow> Store \<Rightarrow> unit result" where
  "sweep_store eng js cfg ord now s =
     and_then (TakeoverStaleLeads ord now s) (\<lambda>_ s.
     and_then (ExpireLeases ord now s) (\<lambda>_ s.
     and_then (for_each (mark_stale cfg now) (ListAgents ord s) s) (\<lambda>_ s.
     and_then (ExpireDecisions ord now s) (\<lambda>expired s.
     and_then (for_each (apply_expired ord now) expired s) (\<lambda>_ s.
     and_then (sweepWakes eng js ord now s) (\<lambda>_ s.
     and_then (reconcilePendingRoots ord now s) (\<lambda>_ s.
     reconcileSucceeded ord now s)))))))"

definition SweepOnce :: "CelEngine \<Rightarrow> JSON \<Rightarrow> order \<Rightarrow> time \<Rightarrow> Service \<Rightarrow> (error, unit, Service) outcome" where
  "SweepOnce eng js ord now sv =
     and_then (on_store (sweep_store eng js (sv_cfg sv) ord now) sv) (\<lambda>_ sv.
     and_then (reconcileReputation ord now sv) (\<lambda>_ sv.
     on_store (reconcileResolvedDecisions ord now) sv))"

section \<open>Runs\<close>

lemma run_sweep_ops [runs]:
  "reaches s u \<Longrightarrow> reaches s (snd (TakeoverStaleLeads ord now u))"
  "reaches s u \<Longrightarrow> reaches s (snd (ExpireLeases ord now u))"
  "reaches s u \<Longrightarrow> reaches s (snd (MarkAgentHealth ident h u))"
  "reaches s u \<Longrightarrow> reaches s (snd (ExpireDecisions ord now u))"
  by (auto intro: reaches_step mem_step.intros)

lemma run_mark_stale [runs]: "reaches s u \<Longrightarrow> reaches s (snd (mark_stale cfg now a u))"
  by (auto simp: mark_stale_def intro!: runs)

lemma run_apply_expired [runs]: "reaches s u \<Longrightarrow> reaches s (snd (apply_expired ord now d u))"
  by (auto simp: apply_expired_def intro!: runs)

lemma run_reconcile_roots [runs]: "reaches s u \<Longrightarrow> reaches s (snd (reconcilePendingRoots ord now u))"
  unfolding reconcilePendingRoots_def
  by (rule run_for_each) (auto simp: activate_pending_def intro!: runs mutate_ok_None)

lemma run_reconcile_succeeded [runs]: "reaches s u \<Longrightarrow> reaches s (snd (reconcileSucceeded ord now u))"
  unfolding reconcileSucceeded_def by (rule run_for_each) (auto simp: repropagate_def intro!: runs)

lemma run_reconcile_decisions [runs]: "reaches s u \<Longrightarrow> reaches s (snd (reconcileResolvedDecisions ord now u))"
  unfolding reconcileResolvedDecisions_def by (rule run_for_each) (auto intro!: runs)

lemma run_sweep_store [runs]: "reaches s u \<Longrightarrow> reaches s (snd (sweep_store eng js cfg ord now u))"
  by (auto simp: sweep_store_def intro!: runs)

lemma run_record_signal: "reaches s (sv_st sv) \<Longrightarrow> reaches s (sv_st (record_signal now ag sig sv))"
  using reaches_step [OF _ step_ApplyReputationSignal [of "sv_st sv" sig now], of s]
  by (auto simp: record_signal_def on_store_def invalidateReputation_def split: prod.splits sum.splits)

lemma run_outcomes: "reaches s (sv_st sv) \<Longrightarrow> reaches s (sv_st (fold (rerecord now b) subs sv))"
proof (rule fold_inv [where I = "\<lambda>sv :: Service. reaches s (sv_st sv)"])
  fix x :: Subtask and v :: Service
  assume "reaches s (sv_st v)"
  then show "reaches s (sv_st (rerecord now b x v))"
    unfolding rerecord_def recordOutcome_def
    by (auto intro!: fold_inv [where I = "\<lambda>sv :: Service. reaches s (sv_st sv)"] run_record_signal)
qed

lemma run_sweep:
  assumes "reaches s (sv_st sv)"
  shows "reaches s (sv_st (snd (SweepOnce eng js ord now sv)))"
  unfolding SweepOnce_def
  by (intro and_then_inv [where I = "\<lambda>sv :: Service. reaches s (sv_st sv)"])
    (auto simp: reconcileReputation_def Let_def intro!: runs run_outcomes assms)

end
