(* ===== verification/CoreQuality.thy ===== *)
theory CoreQuality
  imports CoreSweep
begin

text \<open>
  Artifacts and their verification: \<open>internal/core/blob.go\<close> (the blob store interface, its in-memory implementation and the
  artifact operations of the service) and the rest of \<open>internal/core/quality.go\<close> (verification, usage reports).

  Byte slices are strings. SHA-256 in hexadecimal is a parameter \<open>sha\<close>. The blob store is a record of the two methods of
  the interface over a state of its own, so that the operations take any implementation; a failing read or write of the
  file system or of S3 is an error result of such an implementation. A float is a real number here, so the checks for NaN
  and infinity have no counterpart.
\<close>

section \<open>Blob stores\<close>

record 'b BlobStore =
  bs_Put :: "string \<Rightarrow> string \<Rightarrow> 'b \<Rightarrow> (error, unit, 'b) outcome"
  bs_Get :: "string \<Rightarrow> 'b \<Rightarrow> error + string"

type_synonym MemBlob = "string table"

definition NewMemBlob :: MemBlob where "NewMemBlob = fmempty"

definition MemBlobPut :: "string \<Rightarrow> string \<Rightarrow> MemBlob \<Rightarrow> (error, unit, MemBlob) outcome" where
  "MemBlobPut hash dat m = (Inr (), fmupd hash dat m)"

definition MemBlobGet :: "string \<Rightarrow> MemBlob \<Rightarrow> error + string" where
  "MemBlobGet hash m =
     (case fmlookup m hash of None \<Rightarrow> Inl (ErrPlain (''blob: '' @ hash @ '' not found'')) | Some b \<Rightarrow> Inr b)"

definition mem_blob :: "MemBlob BlobStore" where
  "mem_blob = \<lparr>bs_Put = MemBlobPut, bs_Get = MemBlobGet\<rparr>"

section \<open>Artifacts\<close>

text \<open>The blob is written before the registry decides, and stays when the registry refuses.\<close>

definition ServicePutArtifact ::
  "'b BlobStore \<Rightarrow> (string \<Rightarrow> string) \<Rightarrow> string \<Rightarrow> string \<Rightarrow> string \<Rightarrow> string \<Rightarrow> time \<Rightarrow> 'b \<times> Store
     \<Rightarrow> (error, Artifact, 'b \<times> Store) outcome" where
  "ServicePutArtifact bs sha missionID producedBy schemaRef content now bst =
     (case bst of (b, s) \<Rightarrow>
      let hash = sha content in
      case bs_Put bs hash content b of
        (Inl e, b) \<Rightarrow> (Inl e, (b, s))
      | (Inr _, b) \<Rightarrow>
          let a = \<lparr>art_ID = ''art_'' @ take 20 hash, art_SHA256 = hash, art_MissionID = missionID, art_ProducedBy = producedBy,
                art_SchemaRef = schemaRef, art_Size = int (length content), art_CreatedAt = zero_time\<rparr>
          in (case PutArtifact a now s of
                (Inl e, s) \<Rightarrow> (Inl e, (b, s))
              | (Inr _, s) \<Rightarrow> (Inr a, (b, s))))"

definition ServiceGetArtifact :: "string \<Rightarrow> Store \<Rightarrow> error + Artifact" where
  "ServiceGetArtifact ident s = GetArtifact ident s"

definition GetArtifactContent :: "'b BlobStore \<Rightarrow> string \<Rightarrow> 'b \<Rightarrow> Store \<Rightarrow> error + string \<times> Artifact" where
  "GetArtifactContent bs ident b s =
     (case GetArtifact ident s of
        Inl e \<Rightarrow> Inl e
      | Inr a \<Rightarrow> (case bs_Get bs (art_SHA256 a) b of Inl e \<Rightarrow> Inl e | Inr dat \<Rightarrow> Inr (dat, a)))"

section \<open>Verification\<close>

definition qualityFailureClasses :: "string list" where
  "qualityFailureClasses = [''schema_invalid'', ''fact_conflict'', ''incomplete'', ''style'', ''policy_violation'', ''judge_rejected'']"

record VerifyArtifactInput =
  vi_Layers :: "(string, QualityLayer) fmap"
  vi_Score :: float64
  vi_Confidence :: float64
  vi_Verdict :: string
  vi_FailureClass :: string
  vi_Rubric :: string
  vi_ContextHash :: string

definition unit_range :: "float64 \<Rightarrow> bool" where
  "unit_range v \<longleftrightarrow> \<not> (v < 0) \<and> \<not> (v > 1)"

text \<open>The checks before the artifact is read.\<close>

definition input_valid :: "VerifyArtifactInput \<Rightarrow> Actor \<Rightarrow> bool" where
  "input_valid inp verifier \<longleftrightarrow>
     \<not> (ac_ID verifier = '''' \<or> ac_Kind verifier = '''')
     \<and> unit_range (vi_Score inp) \<and> unit_range (vi_Confidence inp)
     \<and> vi_Verdict inp \<in> set [QualityAccepted, QualityRework, QualityRejected]
     \<and> \<not> (vi_Verdict inp = QualityAccepted \<and> vi_FailureClass inp \<noteq> '''')
     \<and> \<not> (vi_Verdict inp \<noteq> QualityAccepted \<and> vi_FailureClass inp \<notin> set qualityFailureClasses)"

definition layer_valid :: "string \<Rightarrow> QualityLayer \<Rightarrow> bool" where
  "layer_valid nm layer \<longleftrightarrow> nm \<in> set [''L1'', ''L2'', ''L3'']
     \<and> (case ql_Score layer of None \<Rightarrow> True | Some v \<Rightarrow> unit_range v)
     \<and> (case ql_Confidence layer of None \<Rightarrow> True | Some v \<Rightarrow> unit_range v)"

definition l0_layer :: "Artifact \<Rightarrow> QualityLayer" where
  "l0_layer a = \<lparr>ql_Pass = True, ql_Score = None, ql_Confidence = None, ql_Violations = [],
     ql_Evidence = fmap_of_list [(''sha256'', VStr (art_SHA256 a)), (''size'', VInt64 (art_Size a))]\<rparr>"

definition quality_signal :: "VerifyArtifactInput \<Rightarrow> Artifact \<Rightarrow> string \<Rightarrow> string \<Rightarrow> ReputationSignal" where
  "quality_signal inp a agentID skill =
     \<lparr>sig_ID = ''quality:'' @ art_ID a @ '':'' @ skill, sig_AgentID = agentID, sig_Skill = skill,
      sig_Success = Some (vi_Verdict inp = QualityAccepted), sig_Quality = Some (fmul (vi_Score inp) (vi_Confidence inp)),
      sig_Reliable = None, sig_LatencyMS = 0, sig_CostCredits = 0, sig_Weight = 1, sig_EventRef = ''artifact:'' @ art_ID a\<rparr>"

text \<open>The record and the signals for the producer; the producer is looked up when the artifact names a subtask.\<close>

definition quality_record :: "VerifyArtifactInput \<Rightarrow> Actor \<Rightarrow> Artifact \<Rightarrow> Subtask option \<Rightarrow> Store \<Rightarrow> QualityRecord" where
  "quality_record inp verifier a producer s =
     (let agentID = (case producer of None \<Rightarrow> '''' | Some x \<Rightarrow> st_Assignee x) in
      \<lparr>q_ArtifactID = art_ID a, q_MissionID = art_MissionID a, q_SubtaskID = art_ProducedBy a,
       q_ProducerAgentID = agentID,
       q_ProducerPlatform = (if agentID = '''' then '''' else case GetAgent agentID s of Inl _ \<Rightarrow> '''' | Inr ag \<Rightarrow> a_Platform ag),
       q_Attempt = (case producer of None \<Rightarrow> 0 | Some x \<Rightarrow> st_Attempt x),
       q_Layers = fmupd ''L0'' (l0_layer a) (vi_Layers inp), q_Score = vi_Score inp, q_Confidence = vi_Confidence inp,
       q_Verdict = vi_Verdict inp, q_FailureClass = vi_FailureClass inp, q_Rubric = vi_Rubric inp,
       q_ContextHash = vi_ContextHash inp, q_VerifiedBy = [verifier], q_CreatedAt = zero_time\<rparr>)"

definition quality_signals :: "VerifyArtifactInput \<Rightarrow> Artifact \<Rightarrow> Subtask option \<Rightarrow> ReputationSignal list" where
  "quality_signals inp a producer =
     (case producer of
        None \<Rightarrow> []
      | Some x \<Rightarrow> if st_Assignee x = '''' then []
          else map (quality_signal inp a (st_Assignee x)) (reputationSkills (st_RequiredSkills x)))"

definition VerifyArtifact ::
  "'b BlobStore \<Rightarrow> (string \<Rightarrow> string) \<Rightarrow> string \<Rightarrow> VerifyArtifactInput \<Rightarrow> Actor \<Rightarrow> time \<Rightarrow> 'b \<Rightarrow> Service
     \<Rightarrow> (error, QualityRecord, Service) outcome" where
  "VerifyArtifact bs sha artifactID inp verifier now b sv =
     (let s = sv_st sv in
      if \<not> input_valid inp verifier then (Inl ErrInvalidQuality, sv)
      else case GetArtifactContent bs artifactID b s of
          Inl e \<Rightarrow> (Inl e, sv)
        | Inr (content, a) \<Rightarrow>
            if \<not> (int (length content) = art_Size a \<and> sha content = art_SHA256 a) then (Inl ErrInvalidQuality, sv)
            else if \<not> fmpred layer_valid (vi_Layers inp) then (Inl ErrInvalidQuality, sv)
            else case (if art_ProducedBy a = '''' then Inr None
                       else map_sum (\<lambda>e. e) Some (GetSubtask (art_ProducedBy a) s)) of
                Inl e \<Rightarrow> (Inl e, sv)
              | Inr producer \<Rightarrow>
                  let record = quality_record inp verifier a producer s in
                  if ac_Kind verifier = ''agent'' \<and> ac_ID verifier = q_ProducerAgentID record then (Inl ErrForbidden, sv)
                  else and_then (on_store (RecordQuality record (quality_signals inp a producer) verifier now) sv)
                         (\<lambda>record sv. (Inr record, invalidateReputation (q_ProducerAgentID record) sv)))"

definition ServiceGetQuality :: "string \<Rightarrow> Store \<Rightarrow> error + QualityRecord" where
  "ServiceGetQuality artifactID s = GetQuality artifactID s"

definition GetReputations :: "order \<Rightarrow> string \<Rightarrow> Store \<Rightarrow> error + ReputationRecord list" where
  "GetReputations ord agentID s = ListReputations ord agentID s"

section \<open>Usage reports\<close>

record UsageReport =
  ur_MissionID :: string
  ur_Records :: "MeterRecord list"
  ur_ByResource :: "(string, float64) fmap"
  ur_ByTrust :: "(string, float64) fmap"
  ur_Credits :: float64

text \<open>\<open>m[k] += v\<close>: an absent key counts as 0.\<close>

definition bump :: "string \<Rightarrow> float64 \<Rightarrow> (string, float64) fmap \<Rightarrow> (string, float64) fmap" where
  "bump k v m = fmupd k (fadd (case fmlookup m k of None \<Rightarrow> 0 | Some x \<Rightarrow> x) v) m"

definition add_usage :: "MeterRecord \<Rightarrow> UsageReport \<Rightarrow> UsageReport" where
  "add_usage m r = r\<lparr>ur_ByResource := bump (mt_Resource m) (mt_Quantity m) (ur_ByResource r),
     ur_ByTrust := bump (mt_Trust m) (mt_Credits m) (ur_ByTrust r), ur_Credits := fadd (ur_Credits r) (mt_Credits m)\<rparr>"

definition GetUsageReport :: "order \<Rightarrow> string \<Rightarrow> Store \<Rightarrow> error + UsageReport" where
  "GetUsageReport ord missionID s =
     (case ListMeterRecords ord missionID s of
        Inl e \<Rightarrow> Inl e
      | Inr records \<Rightarrow> Inr (fold add_usage records \<lparr>ur_MissionID = missionID, ur_Records = records,
          ur_ByResource = fmempty, ur_ByTrust = fmempty, ur_Credits = 0\<rparr>))"

end
