(* ===== verification/CoreProduct.thy ===== *)
theory CoreProduct
  imports CoreQuality "HOL-Library.Word"
begin

text \<open>
  The product operations of \<open>internal/core/product.go\<close> (simulation, marketplace, canary, appeals, gateway metering) and the
  operational snapshot of \<open>internal/core/observability.go\<close>.

  The generator of the simulation works on 64-bit words. The other integers of the simulation stay far below \<open>2 ^ 63\<close>
  (at most 100000 tasks of at most 3000 milliseconds) and are \<open>int\<close>. The hash of the canonical report is a parameter.
\<close>

unbundle bit_operations_syntax

section \<open>The generator\<close>

definition xorshift_next :: "64 word \<Rightarrow> 64 word" where
  "xorshift_next x =
     (let x = x XOR push_bit 13 x;
          x = x XOR drop_bit 7 x;
          x = x XOR push_bit 17 x
      in x)"

text \<open>\<open>int(rng.next() % n)\<close> of a drawn word.\<close>

definition residue :: "64 word \<Rightarrow> int \<Rightarrow> int" where
  "residue x n = uint (x mod word_of_int n)"

section \<open>Statistics\<close>

definition percentile :: "int list \<Rightarrow> float64 \<Rightarrow> int" where
  "percentile v p = v ! nat (\<lceil>fmul (float_of_int (int (length v))) p\<rceil> - 1)"

text \<open>\<open>math.Round\<close>: half away from zero.\<close>

definition round_away :: "float64 \<Rightarrow> int" where
  "round_away v = (if v < 0 then - \<lfloor>- v + 1 / 2\<rfloor> else \<lfloor>v + 1 / 2\<rfloor>)"

definition round6 :: "float64 \<Rightarrow> float64" where
  "round6 v = fdiv (of_int (round_away (fmul v 1000000))) 1000000"

fun gini_sums :: "int list \<Rightarrow> int \<Rightarrow> float64 \<Rightarrow> float64 \<Rightarrow> float64 \<times> float64" where
  "gini_sums [] i acc weighted = (acc, weighted)"
| "gini_sums (n # ns) i acc weighted =
     gini_sums ns (i + 1) (fadd acc (float_of_int n)) (fadd weighted (float_of_int ((i + 1) * n)))"

definition gini :: "int list \<Rightarrow> float64" where
  "gini values =
     (if values = [] then 0
      else let len = int (length values); (acc, weighted) = gini_sums (sort values) 0 0 0
           in if acc = 0 then 0
              else fsub (fdiv (fmul 2 weighted) (fmul (float_of_int len) acc)) (fdiv (float_of_int (len + 1)) (float_of_int len)))"

section \<open>Simulation\<close>

record SimulationInput =
  si_Scenario :: string
  si_Seed :: "64 word"
  si_Tasks :: int
  si_Agents :: int
  si_FailureRate :: float64
  si_ChaosRate :: float64
  si_ExpectedCost :: float64

record SimulationReport =
  sr_Scenario :: string
  sr_Seed :: "64 word"
  sr_Tasks :: int
  sr_Agents :: int
  sr_Succeeded :: int
  sr_Failed :: int
  sr_SuccessRate :: float64
  sr_P50LatencyMS :: int
  sr_P95LatencyMS :: int
  sr_LeaseExpirations :: int
  sr_MeanRecoveryMS :: float64
  sr_ActualCost :: float64
  sr_CostDeviation :: float64
  sr_LoadGini :: float64
  sr_StateHash :: string

text \<open>The local variables of the loop.\<close>

record SimState =
  ss_rng :: "64 word"
  ss_latencies :: "int list"
  ss_loads :: "int list"
  ss_recovery :: int
  ss_cost :: float64
  ss_LeaseExpirations :: int
  ss_Succeeded :: int
  ss_Failed :: int

text \<open>A draw below the rate: \<open>float64(rng.next()%1000000)/1000000 < rate\<close>.\<close>

definition hits :: "64 word \<Rightarrow> float64 \<Rightarrow> bool" where
  "hits x rate \<longleftrightarrow> fdiv (float_of_int (residue x 1000000)) 1000000 < rate"

text \<open>The body of the loop in three parts: the draws, the recovery from a lost lease, and the bookkeeping.\<close>

definition sim_recover :: "SimulationInput \<Rightarrow> bool \<Rightarrow> int \<Rightarrow> SimState \<Rightarrow> int \<times> SimState" where
  "sim_recover inp chaos latency st =
     (if si_Scenario inp = ''chaos'' \<and> chaos then
        let x = xorshift_next (ss_rng st); delta = 250 + residue x 1751
        in (latency + delta, st\<lparr>ss_rng := x, ss_LeaseExpirations := ss_LeaseExpirations st + 1,
              ss_recovery := ss_recovery st + delta\<rparr>)
      else (latency, st))"

definition sim_finish :: "nat \<Rightarrow> bool \<Rightarrow> int \<Rightarrow> SimState \<Rightarrow> SimState" where
  "sim_finish i failed latency st =
     (let x = xorshift_next (ss_rng st)
      in st\<lparr>ss_latencies := (ss_latencies st)[i := latency], ss_rng := x, ss_cost := fadd (ss_cost st)
             (fadd (fmul (float_of_int latency) (fl (1 / 1000000))) (fmul (float_of_int (200 + residue x 1801)) (fl (2 / 1000000)))),
           ss_Failed := (if failed then ss_Failed st + 1 else ss_Failed st),
           ss_Succeeded := (if failed then ss_Succeeded st else ss_Succeeded st + 1)\<rparr>)"

definition sim_task :: "SimulationInput \<Rightarrow> nat \<Rightarrow> SimState \<Rightarrow> SimState" where
  "sim_task inp i st =
     (let x1 = xorshift_next (ss_rng st);
          agent = nat (residue x1 (si_Agents inp));
          x2 = xorshift_next x1;
          x3 = xorshift_next x2;
          x4 = xorshift_next x3;
          (latency, st) = sim_recover inp (hits x3 (si_ChaosRate inp)) (40 + residue x2 961)
            (st\<lparr>ss_rng := x4, ss_loads := (ss_loads st)[agent := ss_loads st ! agent + 1]\<rparr>)
      in sim_finish i (hits x4 (si_FailureRate inp)) latency st)"

definition sim_start :: "SimulationInput \<Rightarrow> SimState" where
  "sim_start inp = \<lparr>ss_rng = si_Seed inp, ss_latencies = replicate (nat (si_Tasks inp)) 0, ss_loads = replicate (nat (si_Agents inp)) 0,
     ss_recovery = 0, ss_cost = 0, ss_LeaseExpirations = 0, ss_Succeeded = 0, ss_Failed = 0\<rparr>"

definition sim_run :: "SimulationInput \<Rightarrow> SimState" where
  "sim_run inp = fold (sim_task inp) [0..<nat (si_Tasks inp)] (sim_start inp)"

record SimCanonical =
  sc_Input :: SimulationInput
  sc_Success :: int
  sc_Failure :: int
  sc_Latencies :: "int list"
  sc_Loads :: "int list"
  sc_Expired :: int

definition sim_defaults :: "SimulationInput \<Rightarrow> SimulationInput" where
  "sim_defaults inp = (let inp = (if si_Scenario inp = '''' then inp\<lparr>si_Scenario := ''harness''\<rparr> else inp)
     in if si_Seed inp = 0 then inp\<lparr>si_Seed := 1\<rparr> else inp)"

definition sim_invalid :: "SimulationInput \<Rightarrow> bool" where
  "sim_invalid inp \<longleftrightarrow> si_Tasks inp < 1 \<or> si_Tasks inp > 100000 \<or> si_Agents inp < 1 \<or> si_Agents inp > 10000
     \<or> si_FailureRate inp < 0 \<or> si_FailureRate inp > 1 \<or> si_ChaosRate inp < 0 \<or> si_ChaosRate inp > 1 \<or> si_ExpectedCost inp < 0"

text \<open>The defaults of the code are filled in one before and one after the range check, which reads neither.\<close>

definition RunSimulation :: "(SimCanonical \<Rightarrow> string) \<Rightarrow> SimulationInput \<Rightarrow> error + SimulationReport" where
  "RunSimulation dg inp =
     (let inp = sim_defaults inp in
      if si_Scenario inp \<notin> set [''harness'', ''shadow'', ''load'', ''chaos''] then Inl ErrInvalidProductInput
      else if sim_invalid inp then Inl ErrInvalidProductInput
      else
        let st = sim_run inp; latencies = sort (ss_latencies st); cost = round6 (ss_cost st)
        in Inr \<lparr>sr_Scenario = si_Scenario inp, sr_Seed = si_Seed inp, sr_Tasks = si_Tasks inp, sr_Agents = si_Agents inp,
             sr_Succeeded = ss_Succeeded st, sr_Failed = ss_Failed st,
             sr_SuccessRate = fdiv (float_of_int (ss_Succeeded st)) (float_of_int (si_Tasks inp)),
             sr_P50LatencyMS = percentile latencies (fl (1 / 2)), sr_P95LatencyMS = percentile latencies (fl (95 / 100)),
             sr_LeaseExpirations = ss_LeaseExpirations st,
             sr_MeanRecoveryMS = (if ss_LeaseExpirations st > 0
               then fdiv (float_of_int (ss_recovery st)) (float_of_int (ss_LeaseExpirations st)) else 0),
             sr_ActualCost = cost,
             sr_CostDeviation = (if si_ExpectedCost inp > 0
               then round6 (fdiv (fsub cost (si_ExpectedCost inp)) (si_ExpectedCost inp)) else 0),
             sr_LoadGini = round6 (gini (ss_loads st)),
             sr_StateHash = dg \<lparr>sc_Input = inp, sc_Success = ss_Succeeded st, sc_Failure = ss_Failed st, sc_Latencies = latencies,
               sc_Loads = ss_loads st, sc_Expired = ss_LeaseExpirations st\<rparr>\<rparr>)"


section \<open>Marketplace\<close>

record MarketplaceQuery =
  mq_Skill :: string
  mq_Platform :: string
  mq_HealthyOnly :: bool
  mq_MinReputation :: float64

text \<open>The highest level of the capabilities that count for the skill, and whether there is one. An empty skill matches all.\<close>

fun skill_level :: "string \<Rightarrow> Capability list \<Rightarrow> float64 \<times> bool \<Rightarrow> float64 \<times> bool" where
  "skill_level skill [] acc = acc"
| "skill_level skill (c # cs) (level, matched) =
     skill_level skill cs
       (if skill = '''' \<or> c_Skill c = skill then (if c_Level c > level then c_Level c else level, True) else (level, matched))"

definition best_reputation :: "string \<Rightarrow> ReputationRecord \<Rightarrow> float64 \<Rightarrow> float64" where
  "best_reputation skill rep score =
     (if r_Skill rep = skill \<or> skill = '''' \<and> CompositeScore rep > score then CompositeScore rep else score)"

text \<open>One agent of the listing: whether it is kept, with the reputations filled in.\<close>

definition discover :: "order \<Rightarrow> MarketplaceQuery \<Rightarrow> Agent \<Rightarrow> Store \<Rightarrow> error + Agent option" where
  "discover ord q a s =
     (if mq_Platform q \<noteq> '''' \<and> a_Platform a \<noteq> mq_Platform q \<or> mq_HealthyOnly q \<and> a_Health a \<noteq> ''healthy'' then Inr None
      else let (level, matched) = skill_level (mq_Skill q) (a_Capabilities a) (0, mq_Skill q = '''') in
        if \<not> matched then Inr None
        else case ListReputations ord (a_ID a) s of
            Inl e \<Rightarrow> Inl e
          | Inr reps \<Rightarrow>
              let a = a\<lparr>a_Reputation := fold (\<lambda>rep. fmupd (r_Skill rep) rep) reps fmempty\<rparr>;
                  score = fold (best_reputation (mq_Skill q)) reps (fl (1 / 2))
              in if mq_MinReputation q > 0 \<and> score < mq_MinReputation q then Inr None
                 else if mq_Skill q \<noteq> '''' \<and> level = 0 then Inr None
                 else Inr (Some a))"

fun discover_all :: "order \<Rightarrow> MarketplaceQuery \<Rightarrow> Agent list \<Rightarrow> Store \<Rightarrow> error + Agent list" where
  "discover_all ord q [] s = Inr []"
| "discover_all ord q (a # as) s =
     (case discover ord q a s of
        Inl e \<Rightarrow> Inl e
      | Inr x \<Rightarrow> (case discover_all ord q as s of
            Inl e \<Rightarrow> Inl e
          | Inr out \<Rightarrow> Inr ((case x of None \<Rightarrow> [] | Some a \<Rightarrow> [a]) @ out)))"

text \<open>The loop over the reputation map runs in an unspecified order.\<close>

definition marketplaceScore :: "order \<Rightarrow> Agent \<Rightarrow> string \<Rightarrow> float64" where
  "marketplaceScore ord a skill =
     (let capScore = fold (\<lambda>c capScore. if skill = '''' \<or> c_Skill c = skill then max capScore (c_Level c) else capScore)
            (a_Capabilities a) 0;
          rep = fold (\<lambda>k rep. case fmlookup (a_Reputation a) k of None \<Rightarrow> rep
              | Some r \<Rightarrow> if k = skill \<or> skill = '''' \<and> CompositeScore r > rep then CompositeScore r else rep)
            (ord (fmdom (a_Reputation a))) (fl (1 / 2))
      in fadd (fmul (fl (6 / 10)) capScore) (fmul (fl (4 / 10)) rep))"

definition market_less :: "order \<Rightarrow> string \<Rightarrow> Agent \<Rightarrow> Agent \<Rightarrow> bool" where
  "market_less ord skill a b \<longleftrightarrow>
     (let si = marketplaceScore ord a skill; sj = marketplaceScore ord b skill
      in if si = sj then a_ID a < a_ID b else si > sj)"

definition DiscoverAgents :: "order \<Rightarrow> MarketplaceQuery \<Rightarrow> Store \<Rightarrow> error + Agent list" where
  "DiscoverAgents ord q s =
     (if mq_MinReputation q < 0 \<or> mq_MinReputation q > 1 then Inl ErrInvalidProductInput
      else case discover_all ord q (ListAgents ord s) s of
          Inl e \<Rightarrow> Inl e
        | Inr out \<Rightarrow> Inr (sort_slice (market_less ord (mq_Skill q)) out))"

section \<open>Canaries and appeals\<close>

text \<open>Whether \<open>strings.TrimSpace\<close> leaves nothing: only white space, in UTF-8.\<close>

definition ascii_space :: "char \<Rightarrow> bool" where
  "ascii_space c \<longleftrightarrow> of_char c \<in> {9, 10, 11, 12, 13, 32 :: nat}"

definition wide_space :: "char \<Rightarrow> char \<Rightarrow> char \<Rightarrow> bool" where
  "wide_space a b c \<longleftrightarrow>
     (let x = of_char a :: nat; y = of_char b :: nat; z = of_char c :: nat in
      (x = 0xE1 \<and> y = 0x9A \<and> z = 0x80) \<or> (x = 0xE2 \<and> y = 0x80 \<and> (0x80 \<le> z \<and> z \<le> 0x8A \<or> z \<in> {0xA8, 0xA9, 0xAF}))
      \<or> (x = 0xE2 \<and> y = 0x81 \<and> z = 0x9F) \<or> (x = 0xE3 \<and> y = 0x80 \<and> z = 0x80))"

fun blank :: "string \<Rightarrow> bool" where
  "blank [] = True"
| "blank [a] = ascii_space a"
| "blank [a, b] = (if ascii_space a then blank [b] else of_char a = (0xC2 :: nat) \<and> of_char b \<in> {0x85, 0xA0 :: nat})"
| "blank (a # b # c # t) =
     (if ascii_space a then blank (b # c # t)
      else if of_char a = (0xC2 :: nat) \<and> of_char b \<in> {0x85, 0xA0 :: nat} then blank (c # t)
      else wide_space a b c \<and> blank t)"

record CanaryInput =
  cn_ID :: string
  cn_VerifierAgentID :: string
  cn_Skill :: string
  cn_ExpectedVerdict :: string
  cn_ActualVerdict :: string
  cn_ExpectedScore :: float64
  cn_ActualScore :: float64

record CanaryResult =
  cr_ID :: string
  cr_Match :: bool
  cr_ScoreDelta :: float64
  cr_SignalID :: string

definition canary_match :: "CanaryInput \<Rightarrow> bool" where
  "canary_match inp \<longleftrightarrow> cn_ExpectedVerdict inp = cn_ActualVerdict inp
     \<and> \<bar>fsub (cn_ExpectedScore inp) (cn_ActualScore inp)\<bar> \<le> fl (1 / 10)"

definition canary_signal :: "CanaryInput \<Rightarrow> ReputationSignal" where
  "canary_signal inp =
     \<lparr>sig_ID = ''canary:'' @ cn_ID inp @ '':'' @ cn_VerifierAgentID inp, sig_AgentID = cn_VerifierAgentID inp,
      sig_Skill = (if cn_Skill inp = '''' then ''verify'' else cn_Skill inp), sig_Success = Some (canary_match inp),
      sig_Quality = Some (fsub 1 (min 1 \<bar>fsub (cn_ExpectedScore inp) (cn_ActualScore inp)\<bar>)),
      sig_Reliable = Some (canary_match inp), sig_LatencyMS = 0, sig_CostCredits = 0, sig_Weight = fl (1 / 10),
      sig_EventRef = ''canary:'' @ cn_ID inp\<rparr>"

definition EvaluateCanary :: "CanaryInput \<Rightarrow> time \<Rightarrow> Service \<Rightarrow> (error, CanaryResult, Service) outcome" where
  "EvaluateCanary inp now sv =
     (if blank (cn_ID inp) \<or> blank (cn_VerifierAgentID inp) \<or> cn_ExpectedScore inp < 0 \<or> cn_ExpectedScore inp > 1
         \<or> cn_ActualScore inp < 0 \<or> cn_ActualScore inp > 1
      then (Inl ErrInvalidProductInput, sv)
      else
        let res = \<lparr>cr_ID = cn_ID inp, cr_Match = canary_match inp,
              cr_ScoreDelta = round6 (fsub (cn_ActualScore inp) (cn_ExpectedScore inp)), cr_SignalID = sig_ID (canary_signal inp)\<rparr>
        in case on_store (StoreApplyReputationSignal (canary_signal inp) now) sv of
             (Inl e, sv) \<Rightarrow> if e \<noteq> ErrDuplicate then (Inl e, sv) else (Inr res, invalidateReputation (cn_VerifierAgentID inp) sv)
           | (Inr _, sv) \<Rightarrow> (Inr res, invalidateReputation (cn_VerifierAgentID inp) sv))"

definition ServiceCreateQualityAppeal ::
  "string \<Rightarrow> string \<Rightarrow> string \<Rightarrow> string \<Rightarrow> string list \<Rightarrow> Actor \<Rightarrow> time \<Rightarrow> Store \<Rightarrow> QualityAppeal result" where
  "ServiceCreateQualityAppeal newid artifactID appellantID reason refs actor now s =
     (if blank appellantID \<or> blank reason then (Inl ErrInvalidProductInput, s)
      else CreateQualityAppeal \<lparr>ap_ID = newid, ap_ArtifactID = artifactID, ap_MissionID = '''', ap_AppellantID = appellantID,
        ap_Reason = reason, ap_EvidenceRefs = refs, ap_Status = '''', ap_Resolution = '''', ap_ReviewerID = '''',
        ap_CorrectionSignal = '''', ap_CreatedAt = zero_time, ap_ResolvedAt = None\<rparr> actor now s)"

definition ServiceListQualityAppeals :: "order \<Rightarrow> string \<Rightarrow> bool \<Rightarrow> Store \<Rightarrow> QualityAppeal list" where
  "ServiceListQualityAppeals ord missionID pendingOnly s = ListQualityAppeals ord missionID pendingOnly s"

definition appeal_signal :: "string \<Rightarrow> string \<Rightarrow> string \<Rightarrow> ReputationSignal" where
  "appeal_signal ident agentID skill =
     \<lparr>sig_ID = ''appeal:'' @ ident @ '':'' @ skill, sig_AgentID = agentID, sig_Skill = skill, sig_Success = Some True,
      sig_Quality = Some 1, sig_Reliable = Some True, sig_LatencyMS = 0, sig_CostCredits = 0, sig_Weight = 1,
      sig_EventRef = ''appeal:'' @ ident\<rparr>"

definition apply_ignored :: "time \<Rightarrow> ReputationSignal \<Rightarrow> Service \<Rightarrow> Service" where
  "apply_ignored now sig sv = snd (on_store (StoreApplyReputationSignal sig now) sv)"

definition ServiceResolveQualityAppeal ::
  "string \<Rightarrow> string \<Rightarrow> string \<Rightarrow> string \<Rightarrow> Actor \<Rightarrow> time \<Rightarrow> Service \<Rightarrow> (error, QualityAppeal, Service) outcome" where
  "ServiceResolveQualityAppeal ident status resolution reviewer actor now sv =
     (if status \<noteq> AppealUpheld \<and> status \<noteq> AppealOverturned \<or> blank reviewer \<or> blank resolution
      then (Inl ErrInvalidProductInput, sv)
      else and_then (on_store (StoreResolveQualityAppeal ident status resolution reviewer actor now) sv) (\<lambda>a sv.
        if status \<noteq> AppealOverturned then (Inr a, sv)
        else case GetQuality (ap_ArtifactID a) (sv_st sv) of
            Inl _ \<Rightarrow> (Inr a, sv)
          | Inr q \<Rightarrow>
              if q_ProducerAgentID q = '''' then (Inr a, sv)
              else
                let skills = (case GetSubtask (q_SubtaskID q) (sv_st sv) of
                      Inl _ \<Rightarrow> [''*''] | Inr sub \<Rightarrow> reputationSkills (st_RequiredSkills sub))
                in (Inr a, invalidateReputation (q_ProducerAgentID q)
                     (fold (\<lambda>skill. apply_ignored now (appeal_signal (ap_ID a) (q_ProducerAgentID q) skill)) skills sv))))"

section \<open>Gateway metering\<close>

record GatewayUsage =
  gu_ID :: string
  gu_MissionID :: string
  gu_SubtaskID :: string
  gu_AgentID :: string
  gu_Provider :: string
  gu_Model :: string
  gu_InputTokens :: int
  gu_OutputTokens :: int

definition gateway_meter :: "GatewayUsage \<Rightarrow> string \<Rightarrow> int \<Rightarrow> MeterRecord" where
  "gateway_meter inp dir quantity = zero_meter
     \<lparr>mt_ID := ''gateway:'' @ gu_ID inp @ '':'' @ dir, mt_MissionID := gu_MissionID inp, mt_SubtaskID := gu_SubtaskID inp,
      mt_AgentID := gu_AgentID inp, mt_Resource := ''token.'' @ dir, mt_Quantity := float_of_int quantity,
      mt_Trust := MeterAuthoritative,
      mt_Metadata := fmap_of_list [(''provider'', VStr (gu_Provider inp)), (''model'', VStr (gu_Model inp))]\<rparr>"

text \<open>The first error ends the loop; the records before it stay.\<close>

fun put_gateway :: "time \<Rightarrow> MeterRecord list \<Rightarrow> MeterRecord list \<Rightarrow> Store \<Rightarrow> MeterRecord list result" where
  "put_gateway now [] records s = (Inr records, s)"
| "put_gateway now (r # rs) records s =
     (if mt_Quantity r = 0 then put_gateway now rs records s
      else and_then (PutMeterRecord r now s) (\<lambda>_ s. put_gateway now rs (records @ [r]) s))"

definition RecordGatewayUsage :: "GatewayUsage \<Rightarrow> time \<Rightarrow> Store \<Rightarrow> MeterRecord list result" where
  "RecordGatewayUsage inp now s =
     (if blank (gu_ID inp) \<or> blank (gu_MissionID inp) \<or> gu_InputTokens inp < 0 \<or> gu_OutputTokens inp < 0
         \<or> wrap64 (gu_InputTokens inp + gu_OutputTokens inp) = 0
      then (Inl ErrInvalidProductInput, s)
      else put_gateway now [gateway_meter inp ''input'' (gu_InputTokens inp), gateway_meter inp ''output'' (gu_OutputTokens inp)] [] s)"

section \<open>Operational snapshot\<close>

record OperationalSnapshot =
  os_Subtasks :: "State \<Rightarrow> int option"
  os_AgentsByHealth :: "(string, int) fmap"
  os_PendingDecisions :: int
  os_CapturedAt :: time

definition snapshot_states :: "State list" where
  "snapshot_states = [StatePending, StateReady, StateOffered, StateLeased, StateRunning, StateWaiting, StateBlocked,
     StateSucceeded, StateFailed, StateCancelled]"

definition count_health :: "Agent \<Rightarrow> (string, int) fmap \<Rightarrow> (string, int) fmap" where
  "count_health a m =
     (let health = (if a_Health a = '''' then ''unknown'' else a_Health a)
      in fmupd health ((case fmlookup m health of None \<Rightarrow> 0 | Some n \<Rightarrow> n) + 1) m)"

definition ObservabilitySnapshot :: "order \<Rightarrow> time \<Rightarrow> Store \<Rightarrow> OperationalSnapshot" where
  "ObservabilitySnapshot ord now s =
     \<lparr>os_Subtasks = fold (\<lambda>st m. m(st \<mapsto> int (length (ListSubtasksByState ord st s)))) snapshot_states Map.empty,
      os_AgentsByHealth = fold count_health (ListAgents ord s) fmempty,
      os_PendingDecisions = int (length (ListDecisions ord '''' True s)), os_CapturedAt = now\<rparr>"

end
