(* ===== verification/CoreQuery.thy ===== *)
theory CoreQuery
  imports CoreProduct
begin

text \<open>
  The operations of the service that pass a call on to the store (\<open>internal/core/service.go\<close>, \<open>hitl.go\<close>) and creation
  without a budget.
\<close>

definition ServiceCreateMission :: "order \<Rightarrow> string \<Rightarrow> string \<Rightarrow> string \<Rightarrow> TaskSpec list \<Rightarrow> time \<Rightarrow> Store \<Rightarrow> Mission result" where
  "ServiceCreateMission ord newid owner goal tasks now s = CreateMissionWithBudget ord newid owner goal 0 tasks now s"

definition ServiceGetMission :: "string \<Rightarrow> Store \<Rightarrow> error + Mission" where
  "ServiceGetMission ident s = GetMission ident s"

definition ServiceListSubtasks :: "order \<Rightarrow> string \<Rightarrow> Store \<Rightarrow> Subtask list" where
  "ServiceListSubtasks ord missionID s = ListSubtasks ord missionID s"

definition ServiceListMissionEvents :: "string \<Rightarrow> int \<Rightarrow> int \<Rightarrow> Store \<Rightarrow> Event list" where
  "ServiceListMissionEvents missionID afterSeq limit s = ListMissionEvents missionID afterSeq limit s"

definition ServiceListAgents :: "order \<Rightarrow> Store \<Rightarrow> Agent list" where
  "ServiceListAgents ord s = ListAgents ord s"

definition ServiceGetAgent :: "string \<Rightarrow> Store \<Rightarrow> error + Agent" where
  "ServiceGetAgent ident s = GetAgent ident s"

definition ServiceGetSubtask :: "string \<Rightarrow> Store \<Rightarrow> error + Subtask" where
  "ServiceGetSubtask ident s = GetSubtask ident s"

definition ServiceGetLease :: "string \<Rightarrow> Store \<Rightarrow> error + Lease" where
  "ServiceGetLease ident s = GetLease ident s"

definition ServiceGetContextPackage :: "string \<Rightarrow> Store \<Rightarrow> error + ContextPackage" where
  "ServiceGetContextPackage lid s = GetContextPackage lid s"

definition ServiceGetDecision :: "string \<Rightarrow> Store \<Rightarrow> error + Decision" where
  "ServiceGetDecision ident s = GetDecision ident s"

definition ServiceListDecisions :: "order \<Rightarrow> string \<Rightarrow> bool \<Rightarrow> Store \<Rightarrow> Decision list" where
  "ServiceListDecisions ord missionID pendingOnly s = ListDecisions ord missionID pendingOnly s"

end
