(* ===== verification/CelProps.thy ===== *)
theory CelProps
  imports Cel
begin

text \<open>
  What the static references of a condition are good for. An evaluator that follows the CEL specification (a predicate on
  the parameter: identifiers come from the environment, selection and index read a map, everything else is a function of
  the values of its parts) cannot tell two boards apart that agree on the referenced entries and have the same namespaces.
  With it, the filter of \<open>BoardPut\<close> is exact up to the creation of a namespace, where it is not.
\<close>

section \<open>Evaluators\<close>

type_synonym cel_env = "string \<Rightarrow> (string + goval) option"
type_synonym cel_eval = "cel_env \<Rightarrow> CelExpr \<Rightarrow> string + goval"

text \<open>The laws of the CEL specification the extraction relies on. \<open>nokey\<close> is the error message of a missing key.\<close>

definition select_laws :: "(string \<Rightarrow> string) \<Rightarrow> cel_eval \<Rightarrow> bool" where
  "select_laws nokey ev \<longleftrightarrow>
     (\<forall>r x v. r x = Some v \<longrightarrow> ev r (EIdent x) = v)
   \<and> (\<forall>r e f m. ev r e = Inr (VObj m) \<longrightarrow>
        ev r (ESelect e f False) = (case fmlookup m f of None \<Rightarrow> Inl (nokey f) | Some v \<Rightarrow> Inr v))
   \<and> (\<forall>r e f m. ev r e = Inr (VObj m) \<longrightarrow> ev r (ESelect e f True) = Inr (VBool (f |\<in>| fmdom m)))
   \<and> (\<forall>r e f m. ev r e = Inr (VObj m) \<longrightarrow>
        ev r (ECall ''_[_]'' None [e, EConst (VStr f)]) = (case fmlookup m f of None \<Rightarrow> Inl (nokey f) | Some v \<Rightarrow> Inr v))"

definition entry_agrees :: "cel_eval \<Rightarrow> cel_env \<Rightarrow> cel_env \<Rightarrow> CelEntry \<Rightarrow> bool" where
  "entry_agrees ev r1 r2 en = (case en of EField _ v \<Rightarrow> ev r1 v = ev r2 v
     | EMapEntry k v \<Rightarrow> ev r1 k = ev r2 k \<and> ev r1 v = ev r2 v)"

definition law_atoms :: "cel_eval \<Rightarrow> bool" where
  "law_atoms ev \<longleftrightarrow> (\<forall>r1 r2 c. ev r1 (EConst c) = ev r2 (EConst c))
     \<and> (\<forall>r1 r2 x. r1 x = r2 x \<longrightarrow> ev r1 (EIdent x) = ev r2 (EIdent x))
     \<and> (\<forall>r1 r2 e f t. ev r1 e = ev r2 e \<longrightarrow> ev r1 (ESelect e f t) = ev r2 (ESelect e f t))"

definition law_call :: "cel_eval \<Rightarrow> bool" where
  "law_call ev \<longleftrightarrow> (\<forall>r1 r2 f tgt es. (\<forall>e \<in> set es. ev r1 e = ev r2 e) \<longrightarrow> (\<forall>e. tgt = Some e \<longrightarrow> ev r1 e = ev r2 e)
     \<longrightarrow> ev r1 (ECall f tgt es) = ev r2 (ECall f tgt es))"

definition law_list :: "cel_eval \<Rightarrow> bool" where
  "law_list ev \<longleftrightarrow> (\<forall>r1 r2 es. (\<forall>e \<in> set es. ev r1 e = ev r2 e) \<longrightarrow> ev r1 (EList es) = ev r2 (EList es))"

definition law_struct :: "cel_eval \<Rightarrow> bool" where
  "law_struct ev \<longleftrightarrow> (\<forall>r1 r2 nm ens. (\<forall>en \<in> set ens. entry_agrees ev r1 r2 en)
     \<longrightarrow> ev r1 (EStruct nm ens) = ev r2 (EStruct nm ens))"

definition law_comp :: "cel_eval \<Rightarrow> bool" where
  "law_comp ev \<longleftrightarrow> (\<forall>r1 r2 iv rng av ini cnd stp res. ev r1 rng = ev r2 rng \<longrightarrow> ev r1 ini = ev r2 ini
     \<longrightarrow> (\<forall>i a. ev (r1(iv := i, av := a)) cnd = ev (r2(iv := i, av := a)) cnd
           \<and> ev (r1(iv := i, av := a)) stp = ev (r2(iv := i, av := a)) stp)
     \<longrightarrow> (\<forall>a. ev (r1(av := a)) res = ev (r2(av := a)) res)
     \<longrightarrow> ev r1 (EComp iv rng av ini cnd stp res) = ev r2 (EComp iv rng av ini cnd stp res))"

text \<open>An error of the operand is the error of the selection.\<close>

definition law_strict :: "cel_eval \<Rightarrow> bool" where
  "law_strict ev \<longleftrightarrow> (\<forall>r e f t msg. ev r e = Inl msg \<longrightarrow> ev r (ESelect e f t) = Inl msg)"

definition cel_semantics :: "(string \<Rightarrow> string) \<Rightarrow> cel_eval \<Rightarrow> bool" where
  "cel_semantics nokey ev \<longleftrightarrow>
     select_laws nokey ev \<and> law_atoms ev \<and> law_call ev \<and> law_list ev \<and> law_struct ev \<and> law_comp ev \<and> law_strict ev"

text \<open>Index calls have no target, as the parser produces them.\<close>

fun index_global :: "CelExpr \<Rightarrow> bool" where
  "index_global (EConst _) = True"
| "index_global (EIdent _) = True"
| "index_global (ESelect e _ _) = index_global e"
| "index_global (ECall f tgt es) = ((f = ''_[_]'' \<longrightarrow> tgt = None) \<and> list_all index_global es
     \<and> (case tgt of None \<Rightarrow> True | Some t \<Rightarrow> index_global t))"
| "index_global (EList es) = list_all index_global es"
| "index_global (EStruct _ ens) = list_all (\<lambda>en. case en of EField _ v \<Rightarrow> index_global v
     | EMapEntry k v \<Rightarrow> index_global k \<and> index_global v) ens"
| "index_global (EComp _ rng _ ini cnd stp res) \<longleftrightarrow> index_global rng \<and> index_global ini \<and> index_global cnd
     \<and> index_global stp \<and> index_global res"

section \<open>Boards that agree on references\<close>

definition view_at :: "string \<Rightarrow> string \<Rightarrow> boardView \<Rightarrow> goval option" where
  "view_at ns k B = (case fmlookup B ns of None \<Rightarrow> None | Some g \<Rightarrow> fmlookup g k)"

definition covers :: "string list \<Rightarrow> string \<Rightarrow> string \<Rightarrow> bool" where
  "covers refs ns k \<longleftrightarrow> ns @ ''/'' @ k \<in> set refs \<or> ns @ ''/*'' \<in> set refs"

definition boards_agree :: "string list \<Rightarrow> boardView \<Rightarrow> boardView \<Rightarrow> bool" where
  "boards_agree refs B1 B2 \<longleftrightarrow> fmdom B1 = fmdom B2 \<and> (\<forall>ns k. covers refs ns k \<longrightarrow> view_at ns k B1 = view_at ns k B2)"

definition board_value :: "boardView \<Rightarrow> goval" where
  "board_value B = VObj (fmmap VObj B)"

text \<open>Environments that differ at most in the board.\<close>

definition env_pair :: "boardView \<Rightarrow> boardView \<Rightarrow> cel_env \<Rightarrow> cel_env \<Rightarrow> bool" where
  "env_pair B1 B2 r1 r2 \<longleftrightarrow> (\<forall>x. x \<noteq> ''board'' \<longrightarrow> r1 x = r2 x)
     \<and> (r1 ''board'' = r2 ''board'' \<or> r1 ''board'' = Some (Inr (board_value B1)) \<and> r2 ''board'' = Some (Inr (board_value B2)))"

lemma env_pair_upd: "env_pair B1 B2 r1 r2 \<Longrightarrow> env_pair B1 B2 (r1(x := v)) (r2(x := v))"
  by (auto simp: env_pair_def)

section \<open>The extractor only adds\<close>

definition extends :: "refExtractor \<Rightarrow> refExtractor \<Rightarrow> bool" where
  "extends x y \<longleftrightarrow> (x_wildcard x \<longrightarrow> x_wildcard y) \<and> set (x_refs x) \<subseteq> set (x_refs y)
     \<and> (fset (x_seen x) = set (x_refs x) \<longrightarrow> fset (x_seen y) = set (x_refs y))"

lemma extends_refl [simp]: "extends x x"
  by (simp add: extends_def)

lemma extends_trans [trans]: "extends x y \<Longrightarrow> extends y z \<Longrightarrow> extends x z"
  by (auto simp: extends_def)

lemma extends_record [simp]: "extends x (record_ref segs d x)"
  by (auto simp: extends_def record_ref_def ref_add_def)

lemma walk_extends:
  "extends x (walk e x)" "extends x (walk_list es x)" "extends x (walk_entries ens x)"
proof (induction e x and es x and ens x rule: walk_walk_list_walk_entries.induct)
  case (3 e f t x)
  then show ?case by (cases "boardChain (ESelect e f t)") (auto simp del: boardChain.simps)
next
  case (4 f tgt es x)
  obtain segs d ok where b: "boardChain (ECall f tgt es) = (segs, d, ok)" by (metis prod_cases3)
  show ?case
  proof (cases "x_wildcard x \<or> f = ''_[_]'' \<and> ok")
    case True
    then show ?thesis by (auto simp: b simp del: boardChain.simps)
  next
    case False
    then have nw: "\<not> x_wildcard x" and nc: "\<not> (f = ''_[_]'' \<and> ok)" by auto
    show ?thesis
      using 4(1) [OF nw b [symmetric] refl refl nc] 4(2) [OF nw b [symmetric] refl refl nc] nw nc
      by (auto simp: b simp del: boardChain.simps split: option.splits intro: extends_trans)
  qed
next
  case (7 iv rng av ini cnd stp res x)
  then show ?case by simp (meson extends_refl extends_trans)
qed (auto intro: extends_trans)

section \<open>The extraction is sound\<close>

text \<open>A chain without a dynamic segment has the same value for both boards when its reference does.\<close>

definition consistent :: "refExtractor \<Rightarrow> bool" where
  "consistent x \<longleftrightarrow> fset (x_seen x) = set (x_refs x)"

lemma consistent_extends: "consistent x \<Longrightarrow> extends x y \<Longrightarrow> consistent y"
  by (simp add: consistent_def extends_def)

lemma record_covers:
  assumes "\<not> x_wildcard (record_ref segs d x)" "consistent x"
  shows "\<not> d" "segs \<noteq> []" "if length segs = 1 then segs ! 0 @ ''/*'' \<in> set (x_refs (record_ref segs d x))
    else segs ! 0 @ ''/'' @ segs ! 1 \<in> set (x_refs (record_ref segs d x))"
  using assms by (auto simp: record_ref_def ref_add_def consistent_def split: if_splits)

lemma chain_step:
  assumes "boardChain e = (segs, False, True)" "segs \<noteq> []" "index_global e"
  obtains e' k where "boardChain e' = (butlast segs, False, True)" "segs = butlast segs @ [k]" "index_global e'"
    "e = ESelect e' k False \<or> e = ESelect e' k True \<or> e = ECall ''_[_]'' None [e', EConst (VStr k)]"
proof -
  from assms(1,2) consider (sel) e' k t where "e = ESelect e' k t" | (ix) f tgt e' i where "e = ECall f tgt [e', i]"
    by (cases e rule: boardChain.cases) auto
  then show ?thesis
  proof cases
    case sel
    with assms show ?thesis by (intro that [of e' k]) (auto split: prod.splits if_splits)
  next
    case ix
    with assms show ?thesis
      by (cases "boardChain e'"; cases i rule: CelExpr.exhaust; cases "\<exists>k. i = EConst (VStr k)")
        (auto split: if_splits goval.splits intro!: that)
  qed
qed

text \<open>The laws in rule form.\<close>

lemma cel_semanticsD:
  assumes "cel_semantics nokey ev"
  shows "select_laws nokey ev" "law_atoms ev" "law_call ev" "law_list ev" "law_struct ev" "law_comp ev" "law_strict ev"
  using assms by (simp_all only: cel_semantics_def)

lemmas cel_ident = cel_semanticsD(1) [unfolded select_laws_def, THEN conjunct1, rule_format]
lemmas cel_select = cel_semanticsD(1) [unfolded select_laws_def, THEN conjunct2, THEN conjunct1, rule_format]
lemmas cel_has = cel_semanticsD(1) [unfolded select_laws_def, THEN conjunct2, THEN conjunct2, THEN conjunct1, rule_format]
lemmas cel_index = cel_semanticsD(1) [unfolded select_laws_def, THEN conjunct2, THEN conjunct2, THEN conjunct2, rule_format]
lemmas cel_part_const = cel_semanticsD(2) [unfolded law_atoms_def, THEN conjunct1, rule_format]
lemmas cel_part_ident = cel_semanticsD(2) [unfolded law_atoms_def, THEN conjunct2, THEN conjunct1, rule_format]
lemmas cel_part_select = cel_semanticsD(2) [unfolded law_atoms_def, THEN conjunct2, THEN conjunct2, rule_format]
lemmas cel_part_call = cel_semanticsD(3) [unfolded law_call_def, rule_format]
lemmas cel_part_list = cel_semanticsD(4) [unfolded law_list_def, rule_format]
lemmas cel_part_struct = cel_semanticsD(5) [unfolded law_struct_def, rule_format]
lemmas cel_strict = cel_semanticsD(7) [unfolded law_strict_def, rule_format]
lemmas cel_part_comp = cel_semanticsD(6) [unfolded law_comp_def, rule_format]

lemma chain_root: "boardChain e = ([], False, True) \<Longrightarrow> e = EIdent ''board''"
  by (cases e rule: boardChain.cases) (auto split: prod.splits if_splits CelExpr.splits goval.splits)

lemma same_namespaces:
  assumes "boards_agree R B1 B2"
  shows "fmlookup B1 ns = None \<longleftrightarrow> fmlookup B2 ns = None"
proof -
  have "ns |\<in>| fmdom B1 \<longleftrightarrow> ns |\<in>| fmdom B2" using assms by (simp add: boards_agree_def)
  then show ?thesis by (cases "fmlookup B1 ns"; cases "fmlookup B2 ns") (simp_all add: fmlookup_dom_iff)
qed

lemma namespace_agrees:
  assumes "boards_agree R B1 B2" "ns @ ''/*'' \<in> set R"
  shows "fmlookup B1 ns = fmlookup B2 ns"
proof -
  have "view_at ns k B1 = view_at ns k B2" for k using assms by (auto simp: boards_agree_def covers_def)
  with same_namespaces [OF assms(1), of ns] show ?thesis
    by (cases "fmlookup B1 ns"; cases "fmlookup B2 ns") (auto simp: view_at_def intro: fmap_ext)
qed

text \<open>One selection step, in the three forms a chain has.\<close>

definition step_of :: "CelExpr \<Rightarrow> string \<Rightarrow> CelExpr \<Rightarrow> bool" where
  "step_of e' k e \<longleftrightarrow> e = ESelect e' k False \<or> e = ESelect e' k True \<or> e = ECall ''_[_]'' None [e', EConst (VStr k)]"

lemma step_part:
  assumes sem: "cel_semantics nokey ev" and "step_of e' k e" and eq: "ev r1 e' = ev r2 e'"
  shows "ev r1 e = ev r2 e"
proof -
  have "ev r1 (ECall ''_[_]'' None [e', EConst (VStr k)]) = ev r2 (ECall ''_[_]'' None [e', EConst (VStr k)])"
    by (rule cel_part_call [OF sem]) (auto simp: eq intro: cel_part_const [OF sem])
  moreover have "ev r1 (ESelect e' k t) = ev r2 (ESelect e' k t)" for t by (rule cel_part_select [OF sem eq])
  ultimately show ?thesis using assms(2) by (auto simp only: step_of_def)
qed

lemma step_lookup:
  assumes sem: "cel_semantics nokey ev" and "step_of e' k e" and m: "ev r1 e' = Inr (VObj m1)" "ev r2 e' = Inr (VObj m2)"
    and k: "fmlookup m1 k = fmlookup m2 k"
  shows "ev r1 e = ev r2 e"
proof -
  have "k |\<in>| fmdom m1 \<longleftrightarrow> k |\<in>| fmdom m2" using k by (simp add: fmlookup_dom_iff)
  then show ?thesis
    using assms(2) cel_select [OF sem m(1), of k] cel_select [OF sem m(2), of k] cel_has [OF sem m(1), of k]
      cel_has [OF sem m(2), of k] cel_index [OF sem m(1), of k] cel_index [OF sem m(2), of k] k
    by (auto simp only: step_of_def)
qed

lemma chain_agrees:
  assumes sem: "cel_semantics nokey ev" and agree: "boards_agree R B1 B2"
    and env: "r1 ''board'' = Some (Inr (board_value B1))" "r2 ''board'' = Some (Inr (board_value B2))"
  shows "boardChain e = (segs, False, True) \<Longrightarrow> segs \<noteq> [] \<Longrightarrow> index_global e
    \<Longrightarrow> (if length segs = 1 then segs ! 0 @ ''/*'' \<in> set R else segs ! 0 @ ''/'' @ segs ! 1 \<in> set R)
    \<Longrightarrow> ev r1 e = ev r2 e"
proof (induction segs arbitrary: e rule: rev_induct)
  case (snoc k ss)
  from chain_step [OF snoc.prems(1-3)] obtain e' where
    e': "boardChain e' = (ss, False, True)" "index_global e'" "step_of e' k e"
    unfolding step_of_def by (metis butlast_snoc last_snoc)
  have root: "ev r1 (EIdent ''board'') = Inr (VObj (fmmap VObj B1))" "ev r2 (EIdent ''board'') = Inr (VObj (fmmap VObj B2))"
    using cel_ident [where r = r1, OF sem env(1)] cel_ident [where r = r2, OF sem env(2)] by (simp_all add: board_value_def)
  consider "ss = []" | ns where "ss = [ns]" | "length ss \<ge> 2" by (cases ss; cases "tl ss") auto
  then show ?case
  proof cases
    case 1
    with snoc.prems(4) namespace_agrees [OF agree, of k] chain_root e'(1) root show ?thesis
      by (intro step_lookup [OF sem e'(3), of r1 "fmmap VObj B1" r2 "fmmap VObj B2"]) auto
  next
    case 2
    with snoc.prems(4) have k: "view_at ns k B1 = view_at ns k B2"
      using agree by (auto simp: boards_agree_def covers_def)
    from chain_step [OF e'(1) _ e'(2)] 2 obtain e0 where e0: "boardChain e0 = ([], False, True)" "step_of e0 ns e'"
      unfolding step_of_def by (metis butlast.simps(2) append_Nil list.distinct(1) list.inject)
    note [simp] = chain_root [OF e0(1)]
    show ?thesis
    proof (cases "fmlookup B1 ns")
      case None
      then have "fmlookup (fmmap VObj B1) ns = fmlookup (fmmap VObj B2) ns" using same_namespaces [OF agree, of ns] by simp
      then have "ev r1 e' = ev r2 e'" using root by (intro step_lookup [OF sem e0(2), of r1 "fmmap VObj B1" r2 "fmmap VObj B2"]) simp_all
      then show ?thesis by (rule step_part [OF sem e'(3)])
    next
      case (Some g1)
      then obtain g2 where g2: "fmlookup B2 ns = Some g2" using same_namespaces [OF agree, of ns] by auto
      with k Some have g: "fmlookup g1 k = fmlookup g2 k" by (simp add: view_at_def)
      show ?thesis
      proof (cases "e' = ESelect e0 ns True")
        case True
        with Some g2 show ?thesis
          by (intro step_part [OF sem e'(3)]) (simp add: cel_has [OF sem root(1)] cel_has [OF sem root(2)] fmlookup_dom_iff)
      next
        case False
        then have "e' = ESelect (EIdent ''board'') ns False \<or> e' = ECall ''_[_]'' None [EIdent ''board'', EConst (VStr ns)]"
          using e0(2) by (auto simp: step_of_def)
        then have "ev r1 e' = Inr (VObj g1)" "ev r2 e' = Inr (VObj g2)"
          using cel_select [OF sem root(1), of ns] cel_select [OF sem root(2), of ns] cel_index [OF sem root(1), of ns]
            cel_index [OF sem root(2), of ns] by (auto simp only: fmlookup_map Some g2 option.map option.case)
        then show ?thesis using g by (intro step_lookup [OF sem e'(3)])
      qed
    qed
  next
    case 3
    then have "(ss @ [k]) ! 0 = ss ! 0" "(ss @ [k]) ! 1 = ss ! 1" "ss \<noteq> []" by (auto simp: nth_append)
    with 3 snoc.prems(4) have "ev r1 e' = ev r2 e'" by (intro snoc.IH [OF e'(1) _ e'(2)]) auto
    then show ?thesis by (rule step_part [OF sem e'(3)])
  qed
qed simp

text \<open>What the walk of an expression has to establish: if it ends without a wildcard and all its references are in \<open>R\<close>, the
  expression has the same value for both boards.\<close>

definition agree_on :: "cel_eval \<Rightarrow> boardView \<Rightarrow> boardView \<Rightarrow> string list \<Rightarrow> CelExpr \<Rightarrow> refExtractor \<Rightarrow> bool" where
  "agree_on ev B1 B2 R e y \<longleftrightarrow> (\<not> x_wildcard y \<longrightarrow> set (x_refs y) \<subseteq> set R \<longrightarrow> index_global e
     \<longrightarrow> (\<forall>r1 r2. env_pair B1 B2 r1 r2 \<longrightarrow> ev r1 e = ev r2 e))"

lemma agree_on_mono: "agree_on ev B1 B2 R e y \<Longrightarrow> extends y z \<Longrightarrow> agree_on ev B1 B2 R e z"
  by (auto simp: agree_on_def extends_def)

lemma env_pair_cases:
  assumes "env_pair B1 B2 r1 r2"
  obtains "r1 = r2" | "r1 ''board'' = Some (Inr (board_value B1))" "r2 ''board'' = Some (Inr (board_value B2))"
proof (cases "r1 ''board'' = r2 ''board''")
  case True
  with assms have "r1 x = r2 x" for x by (cases "x = ''board''") (simp_all add: env_pair_def)
  then show ?thesis by (intro that(1)) (rule ext)
next
  case False
  with assms show ?thesis by (intro that(2)) (auto simp: env_pair_def)
qed

lemma agree_chain:
  assumes sem: "cel_semantics nokey ev" and agree: "boards_agree R B1 B2" and x: "consistent x"
    and chain: "boardChain e = (segs, d, True)"
  shows "agree_on ev B1 B2 R e (record_ref segs d x)"
  unfolding agree_on_def
proof (intro impI allI)
  fix r1 r2
  assume w: "\<not> x_wildcard (record_ref segs d x)" and R: "set (x_refs (record_ref segs d x)) \<subseteq> set R"
    and g: "index_global e" and env: "env_pair B1 B2 r1 r2"
  note rc = record_covers [OF w x]
  from env show "ev r1 e = ev r2 e"
  proof (cases rule: env_pair_cases)
    case 2
    show ?thesis
      by (rule chain_agrees [of nokey ev R B1 B2 r1 r2 e segs, OF sem agree 2]) (use rc R g chain in \<open>auto split: if_splits\<close>)
  qed simp
qed

lemma walk_agrees:
  assumes sem: "cel_semantics nokey ev" and agree: "boards_agree R B1 B2"
  shows "consistent x \<Longrightarrow> agree_on ev B1 B2 R e (walk e x)"
    and "consistent x \<Longrightarrow> (\<forall>e \<in> set es. agree_on ev B1 B2 R e (walk_list es x))"
    and "consistent x \<Longrightarrow> (\<forall>en \<in> set ens. case en of EField _ v \<Rightarrow> agree_on ev B1 B2 R v (walk_entries ens x)
        | EMapEntry k v \<Rightarrow> agree_on ev B1 B2 R k (walk_entries ens x) \<and> agree_on ev B1 B2 R v (walk_entries ens x))"
proof (induction e x and es x and ens x rule: walk_walk_list_walk_entries.induct)
  case (1 c x)
  show ?case by (simp add: agree_on_def cel_part_const [OF sem])
next
  case (2 v x)
  show ?case
    by (auto simp: agree_on_def record_ref_def env_pair_def intro!: cel_part_ident [OF sem])
next
  case (3 e f t x)
  obtain segs d ok where b: "boardChain (ESelect e f t) = (segs, d, ok)" by (metis prod_cases3)
  show ?case
  proof (cases "x_wildcard x")
    case False
    show ?thesis
    proof (cases ok)
      case True
      with agree_chain [OF sem agree 3(2)] b False show ?thesis by (simp del: boardChain.simps)
    next
      case no: False
      with 3 b False have "agree_on ev B1 B2 R e (walk e x)" by (auto simp del: boardChain.simps)
      then show ?thesis
        using no b False by (auto simp: agree_on_def simp del: boardChain.simps intro!: cel_part_select [OF sem])
    qed
  qed (simp add: agree_on_def)
next
  case (4 f tgt es x)
  obtain segs d ok where b: "boardChain (ECall f tgt es) = (segs, d, ok)" by (metis prod_cases3)
  let ?y = "case tgt of None \<Rightarrow> x | Some t \<Rightarrow> walk t x"
  consider "x_wildcard x" | "\<not> x_wildcard x" "f = ''_[_]'' \<and> ok" | "\<not> x_wildcard x" "\<not> (f = ''_[_]'' \<and> ok)" by blast
  then show ?case
  proof cases
    case 2
    with agree_chain [OF sem agree 4(3)] b show ?thesis by (simp del: boardChain.simps)
  next
    case 3
    have ext: "extends x ?y" by (cases tgt) (simp_all add: walk_extends)
    have es: "\<forall>e \<in> set es. agree_on ev B1 B2 R e (walk_list es ?y)"
      using 4(2) [OF 3(1) b [symmetric] refl refl 3(2)] consistent_extends [OF 4(3) ext] by simp
    have tgt: "agree_on ev B1 B2 R t (walk_list es ?y)" if "tgt = Some t" for t
      using 4(1) [OF 3(1) b [symmetric] refl refl 3(2) that 4(3)] that
      by (simp add: agree_on_mono [OF _ walk_extends(2)])
    have y: "walk (ECall f tgt es) x = walk_list es ?y" using 3 b by (auto simp del: boardChain.simps)
    show ?thesis
      unfolding y unfolding agree_on_def
    proof (intro impI allI)
      fix r1 r2
      assume a: "\<not> x_wildcard (walk_list es ?y)" "set (x_refs (walk_list es ?y)) \<subseteq> set R" "index_global (ECall f tgt es)"
        "env_pair B1 B2 r1 r2"
      show "ev r1 (ECall f tgt es) = ev r2 (ECall f tgt es)"
      proof (rule cel_part_call [OF sem])
        show "ev r1 e = ev r2 e" if "e \<in> set es" for e
          using es that a by (auto simp: agree_on_def list_all_iff)
        show "ev r1 e = ev r2 e" if "tgt = Some e" for e
          using tgt [OF that] that a by (auto simp: agree_on_def)
      qed
    qed
  qed (simp add: agree_on_def)
next
  case (5 es x)
  then show ?case
    by (auto simp: agree_on_def list_all_iff intro!: cel_part_list [OF sem])
next
  case (6 nm ens x)
  show ?case
  proof (cases "x_wildcard x")
    case False
    show ?thesis
      unfolding agree_on_def
    proof (intro impI allI)
      fix r1 r2
      assume a: "\<not> x_wildcard (walk (EStruct nm ens) x)" "set (x_refs (walk (EStruct nm ens) x)) \<subseteq> set R"
        "index_global (EStruct nm ens)" "env_pair B1 B2 r1 r2"
      show "ev r1 (EStruct nm ens) = ev r2 (EStruct nm ens)"
        by (rule cel_part_struct [OF sem])
          (use 6 a False in \<open>fastforce simp: entry_agrees_def agree_on_def list_all_iff split: CelEntry.splits\<close>)
    qed
  qed (simp add: agree_on_def)
next
  case (7 iv rng av ini cnd stp res x)
  show ?case
  proof (cases "x_wildcard x")
    case False
    let ?a = "walk rng x" let ?b = "walk ini ?a" let ?c = "walk cnd ?b" let ?d = "walk stp ?c" let ?e = "walk res ?d"
    have c: "consistent ?a" "consistent ?b" "consistent ?c" "consistent ?d"
      using 7(6) by (meson consistent_extends walk_extends(1))+
    have ext: "extends ?a ?e" "extends ?b ?e" "extends ?c ?e" "extends ?d ?e"
      by (meson extends_trans walk_extends(1))+
    have parts: "agree_on ev B1 B2 R rng ?e" "agree_on ev B1 B2 R ini ?e" "agree_on ev B1 B2 R cnd ?e"
      "agree_on ev B1 B2 R stp ?e" "agree_on ev B1 B2 R res ?e"
      using 7(1) [OF False 7(6)] 7(2) [OF False c(1)] 7(3) [OF False c(2)] 7(4) [OF False c(3)] 7(5) [OF False c(4)]
        agree_on_mono ext by blast+
    have y: "walk (EComp iv rng av ini cnd stp res) x = ?e" using False by simp
    show ?thesis
      unfolding y unfolding agree_on_def
    proof (intro impI allI)
      fix r1 r2
      assume a: "\<not> x_wildcard ?e" "set (x_refs ?e) \<subseteq> set R" "index_global (EComp iv rng av ini cnd stp res)"
        "env_pair B1 B2 r1 r2"
      then have g: "index_global rng" "index_global ini" "index_global cnd" "index_global stp" "index_global res" by auto
      have eq: "\<forall>r1 r2. env_pair B1 B2 r1 r2 \<longrightarrow> ev r1 rng = ev r2 rng \<and> ev r1 ini = ev r2 ini \<and> ev r1 cnd = ev r2 cnd
          \<and> ev r1 stp = ev r2 stp \<and> ev r1 res = ev r2 res"
        using parts a(1,2) g unfolding agree_on_def by blast
      show "ev r1 (EComp iv rng av ini cnd stp res) = ev r2 (EComp iv rng av ini cnd stp res)"
        by (rule cel_part_comp [OF sem]) (use eq a(4) env_pair_upd in blast)+
    qed
  qed (simp add: agree_on_def)
next
  case (9 e es x)
  then show ?case
    using consistent_extends [OF 9(3) walk_extends(1)] by (auto intro: agree_on_mono [OF _ walk_extends(2)])
next
  case (11 nm v ens x)
  then show ?case
    using consistent_extends [OF 11(3) walk_extends(1)] by (auto split: CelEntry.splits intro: agree_on_mono [OF _ walk_extends(3)])
next
  case (12 k v ens x)
  then have c: "consistent (walk k x)" "consistent (walk v (walk k x))" by (meson consistent_extends walk_extends(1))+
  have "agree_on ev B1 B2 R k (walk v (walk k x))" by (rule agree_on_mono [OF 12(1) [OF 12(4)] walk_extends(1)])
  with 12 c show ?case by (auto split: CelEntry.splits intro: agree_on_mono [OF _ walk_extends(3)])
qed simp_all

end
