(* ===== verification/TriggerProps.thy ===== *)
theory TriggerProps
  imports CoreTrigger CelProps
begin

text \<open>
  The wake evaluators: the paged event scan finds exactly the matching events, an event sweep wakes every subtask whose
  event has arrived and no other, suspending and waking is a round trip, and the incremental filter of a board write is
  exact except for the creation of a namespace.
\<close>

section \<open>Waking as a relation\<close>

definition woken :: "Subtask \<Rightarrow> Subtask" where
  "woken x = (let y = clear_wake (x\<lparr>st_State := StateReady\<rparr>) in y\<lparr>st_Version := st_Version y + 1\<rparr>)"

lemma woken_fields [simp]:
  "st_State (woken x) = StateReady" "st_ID (woken x) = st_ID x" "st_Version (woken x) = st_Version x + 1"
  by (simp_all add: woken_def clear_wake_def Let_def)

text \<open>From \<open>u\<close> to \<open>v\<close> the log has only grown and some waiting subtasks have been woken.\<close>

definition woke :: "Store \<Rightarrow> Store \<Rightarrow> bool" where
  "woke u v \<longleftrightarrow> set (events u) \<subseteq> set (events v)
     \<and> (\<forall>k. fmlookup (subtasks v) k = fmlookup (subtasks u) k
          \<or> (\<exists>x. fmlookup (subtasks u) k = Some x \<and> st_State x = StateWaiting \<and> fmlookup (subtasks v) k = Some (woken x)))"

lemma woke_refl: "woke u u"
  by (simp add: woke_def)

lemma woke_stays:
  assumes "woke u v" "fmlookup (subtasks u) k = Some y" "st_State y \<noteq> StateWaiting"
  shows "fmlookup (subtasks v) k = Some y"
  using assms unfolding woke_def by (metis option.inject)

lemma woke_trans: "woke u v \<Longrightarrow> woke v w \<Longrightarrow> woke u w"
  unfolding woke_def by (smt (verit) State.distinct option.inject order_trans woken_fields(1))

lemma WakeSubtask_effect:
  "WakeSubtask ident v actor now s = (Inl e, t) \<Longrightarrow> t = s"
  "WakeSubtask ident v actor now s = (Inr y, t) \<Longrightarrow> \<exists>x. fmlookup (subtasks s) ident = Some x \<and> st_Version x = v
     \<and> st_State x = StateWaiting \<and> (\<forall>d. st_WakeDeadline x = Some d \<longrightarrow> time_after d now) \<and> y = woken x \<and> subtasks t = fmupd ident (woken x) (subtasks s)
     \<and> set (events s) \<subseteq> set (events t)"
proof -
  have w: "Apply st EvWoken = Inr n \<Longrightarrow> st = StateWaiting" for st n
    by (cases st) (simp_all add: Apply_def)
  show "WakeSubtask ident v actor now s = (Inl e, t) \<Longrightarrow> t = s"
    by (auto simp: WakeSubtask_def Let_def split: option.splits if_splits sum.splits)
  show "WakeSubtask ident v actor now s = (Inr y, t) \<Longrightarrow> \<exists>x. fmlookup (subtasks s) ident = Some x \<and> st_Version x = v
     \<and> st_State x = StateWaiting \<and> (\<forall>d. st_WakeDeadline x = Some d \<longrightarrow> time_after d now) \<and> y = woken x \<and> subtasks t = fmupd ident (woken x) (subtasks s)
     \<and> set (events s) \<subseteq> set (events t)"
    by (auto simp: WakeSubtask_def Let_def woken_def clear_wake_def appendEventLocked_def dest: w
        split: option.splits if_splits sum.splits)
qed

lemma woke_wake: "woke u (snd (WakeSubtask ident v actor now u))"
proof (cases "WakeSubtask ident v actor now u")
  case (Pair r t)
  show ?thesis
  proof (cases r)
    case (Inl e)
    with Pair have "t = u" using WakeSubtask_effect(1) by blast
    with Pair show ?thesis by (simp add: woke_refl)
  next
    case (Inr y)
    with Pair obtain x where "fmlookup (subtasks u) ident = Some x" "st_State x = StateWaiting"
      "subtasks t = fmupd ident (woken x) (subtasks u)" "set (events u) \<subseteq> set (events t)"
      using WakeSubtask_effect(2) by blast
    with Pair show ?thesis by (simp add: woke_def)
  qed
qed

lemma WakeSubtask_wakes:
  assumes "fmlookup (subtasks s) ident = Some x" "st_State x = StateWaiting"
    and "\<forall>d. st_WakeDeadline x = Some d \<longrightarrow> time_after d now"
  shows "fmlookup (subtasks (snd (WakeSubtask ident (st_Version x) actor now s))) ident = Some (woken x)"
proof -
  have d: "\<not> (case st_WakeDeadline x of None \<Rightarrow> False | Some d \<Rightarrow> \<not> time_after d now)"
    using assms(3) by (auto split: option.splits)
  show ?thesis
    unfolding WakeSubtask_def using assms(1,2) d by (simp add: Let_def woken_def Apply_def del: not_Some_eq)
qed

section \<open>The event scan\<close>

lemma list_ex_take: "list_ex P (take n xs) \<Longrightarrow> list_ex P xs"
  by (auto simp: list_ex_iff dest: in_set_takeD)

lemma scan_events_iff:
  assumes "sorted_wrt (\<lambda>a b. e_Seq a < e_Seq b) (events s)"
  shows "scan_events P m after s \<longleftrightarrow> (\<exists>e \<in> set (events s). e_MissionID e = m \<and> e_Seq e > after \<and> P e)"
  using assms
proof (induction P m after s rule: scan_events.induct)
  case (1 P m after s)
  let ?all = "filter (\<lambda>e. e_MissionID e = m \<and> e_Seq e > after) (events s)"
  let ?evs = "ListMissionEvents m after 200 s"
  have page: "?evs = take 200 ?all" by (simp add: ListMissionEvents_take)
  have all: "(\<exists>e \<in> set (events s). e_MissionID e = m \<and> e_Seq e > after \<and> P e) \<longleftrightarrow> list_ex P ?all"
    by (auto simp: list_ex_iff)
  show ?case
  proof (cases "list_ex P ?evs \<or> length ?evs < 200")
    case True
    have "list_ex P ?evs \<longrightarrow> list_ex P ?all" by (metis page list_ex_take)
    moreover have "length ?evs < 200 \<longrightarrow> ?evs = ?all" by (auto simp: page min_def split: if_splits)
    ultimately show ?thesis
      using True unfolding all by (subst scan_events.simps) (auto simp: Let_def)
  next
    case False
    then have ne: "?evs \<noteq> []" by auto
    from 1(2) have "sorted_wrt (<) (map e_Seq (events s))" by (simp add: sorted_wrt_map)
    from page_rest [OF this _ ne] have rest: "filter (\<lambda>e. e_MissionID e = m \<and> e_Seq e > e_Seq (last ?evs)) (events s) = drop 200 ?all"
      by simp
    have "list_ex P ?all \<longleftrightarrow> list_ex P ?evs \<or> list_ex P (drop 200 ?all)"
      using list_ex_append [of P "take 200 ?all" "drop 200 ?all"] by (simp only: append_take_drop_id page)
    with False have "list_ex P ?all \<longleftrightarrow> list_ex P (filter (\<lambda>e. e_MissionID e = m \<and> e_Seq e > e_Seq (last ?evs)) (events s))"
      by (simp add: rest)
    moreover have "scan_events P m after s \<longleftrightarrow> scan_events P m (e_Seq (last ?evs)) s"
      using False by (subst scan_events.simps) (simp add: Let_def)
    moreover have "scan_events P m (e_Seq (last ?evs)) s
        \<longleftrightarrow> (\<exists>e \<in> set (events s). e_MissionID e = m \<and> e_Seq e > e_Seq (last ?evs) \<and> P e)"
      by (rule 1(1) [OF refl _ _ 1(2)]) (use False in auto)
    moreover have "\<dots> \<longleftrightarrow> list_ex P (filter (\<lambda>e. e_MissionID e = m \<and> e_Seq e > e_Seq (last ?evs)) (events s))"
      by (auto simp: list_ex_iff)
    ultimately show ?thesis unfolding all by argo
  qed
qed

section \<open>The event sweep\<close>

definition waits_event :: "time \<Rightarrow> Subtask \<Rightarrow> bool" where
  "waits_event now x \<longleftrightarrow> st_State x = StateWaiting \<and> st_WakeKind x = WakeEvent
     \<and> (\<forall>d. st_WakeDeadline x = Some d \<longrightarrow> time_after d now) \<and> (\<forall>w. st_WakeSpec x = Some w \<longrightarrow> \<not> wake_lapsed w now)"

text \<open>An event the registration asks for is in the log behind its watermark.\<close>

definition event_arrived :: "Subtask \<Rightarrow> Store \<Rightarrow> bool" where
  "event_arrived x s \<longleftrightarrow> (\<exists>w m. st_WakeSpec x = Some w \<and> w_Event w = Some m
     \<and> (\<exists>e \<in> set (events s). e_MissionID e = st_MissionID x \<and> e_Seq e > em_AfterSeq m \<and> event_matches m e))"

lemma event_arrived_mono: "event_arrived x u \<Longrightarrow> woke u v \<Longrightarrow> event_arrived x v"
  by (fastforce simp: event_arrived_def woke_def)

text \<open>Only subtasks whose event has arrived were woken since \<open>s\<close>.\<close>

definition woken_by_event :: "time \<Rightarrow> Store \<Rightarrow> Store \<Rightarrow> bool" where
  "woken_by_event now s u \<longleftrightarrow> (\<forall>k. fmlookup (subtasks u) k = fmlookup (subtasks s) k
     \<or> (\<exists>x. fmlookup (subtasks s) k = Some x \<and> waits_event now x \<and> event_arrived x u
          \<and> fmlookup (subtasks u) k = Some (woken x)))"

lemma reachable_sorted: "reachable s \<Longrightarrow> sorted_wrt (\<lambda>a b. e_Seq a < e_Seq b) (events s)"
  using reachable_wf [of s] by (simp add: store_wf_def log_wf_def sorted_wrt_map [of "(<)" e_Seq, symmetric])

lemma eval_event_wake_step:
  assumes x: "fmlookup (subtasks s) (st_ID x) = Some x" "st_State x = StateWaiting" "st_WakeKind x = WakeEvent"
    and u: "reachable u" "woken_by_event now s u"
  shows "\<exists>t. eval_event_wake now x u = (Inr (), t) \<and> woke u t \<and> woken_by_event now s t
    \<and> (waits_event now x \<longrightarrow> event_arrived x u \<longrightarrow> fmlookup (subtasks t) (st_ID x) = Some (woken x))"
proof -
  have cur: "fmlookup (subtasks u) (st_ID x) = Some x \<or> fmlookup (subtasks u) (st_ID x) = Some (woken x)"
    using u(2) x(1) by (metis option.inject woken_by_event_def)
  let ?wake = "WakeSubtask (st_ID x) (st_Version x) (system_actor ''trigger'') now u"
  have scan: "scan_events (event_matches m) (st_MissionID x) (em_AfterSeq m) u \<longleftrightarrow> event_arrived x u"
    if "st_WakeSpec x = Some w" "w_Event w = Some m" for w m
    using that by (simp add: scan_events_iff [OF reachable_sorted [OF u(1)]] event_arrived_def)
  have wakes: "fmlookup (subtasks (snd ?wake)) (st_ID x) = Some (woken x)" if "waits_event now x"
    using cur
  proof
    assume "fmlookup (subtasks u) (st_ID x) = Some x"
    then show ?thesis using that by (intro WakeSubtask_wakes) (auto simp: waits_event_def)
  next
    assume w: "fmlookup (subtasks u) (st_ID x) = Some (woken x)"
    show ?thesis by (rule woke_stays [OF woke_wake w]) simp
  qed
  have sound: "woken_by_event now s (snd ?wake)" if lapse: "\<forall>w. st_WakeSpec x = Some w \<longrightarrow> \<not> wake_lapsed w now"
    and arr: "event_arrived x u"
  proof (cases ?wake)
    case (Pair r t)
    show ?thesis
    proof (cases r)
      case (Inl e)
      with Pair have "t = u" using WakeSubtask_effect(1) by blast
      with Pair u(2) show ?thesis by simp
    next
      case (Inr y)
      with Pair obtain z where z: "fmlookup (subtasks u) (st_ID x) = Some z" "st_State z = StateWaiting"
        "\<forall>d. st_WakeDeadline z = Some d \<longrightarrow> time_after d now" "subtasks t = fmupd (st_ID x) (woken z) (subtasks u)"
        using WakeSubtask_effect(2) by blast
      with cur have "z = x" by auto
      with z x lapse have "waits_event now x" by (simp add: waits_event_def)
      moreover have t: "woke u t" using woke_wake [of u "st_ID x" "st_Version x" "system_actor ''trigger''" now] Pair by simp
      moreover have "event_arrived y t" if "event_arrived y u" for y using that t by (rule event_arrived_mono)
      ultimately show ?thesis
        using u(2) x(1) z(4) arr \<open>z = x\<close> Pair by (auto simp: woken_by_event_def)
    qed
  qed
  show ?thesis
  proof (cases "\<exists>w m. st_WakeSpec x = Some w \<and> w_Event w = Some m \<and> \<not> wake_lapsed w now")
    case True
    then obtain w m where w: "st_WakeSpec x = Some w" "w_Event w = Some m" "\<not> wake_lapsed w now" by blast
    show ?thesis
    proof (cases "event_arrived x u")
      case True
      then have "eval_event_wake now x u = (Inr (), snd ?wake)"
        using w scan by (simp add: eval_event_wake_def wakeSpecOf_def)
      with True w sound wakes woke_wake show ?thesis by auto
    next
      case False
      then have "eval_event_wake now x u = (Inr (), u)"
        using w scan by (simp add: eval_event_wake_def wakeSpecOf_def)
      with False u(2) woke_refl show ?thesis by simp
    qed
  next
    case False
    then have "eval_event_wake now x u = (Inr (), u)"
      by (auto simp: eval_event_wake_def wakeSpecOf_def split: option.splits)
    moreover have "\<not> (waits_event now x \<and> event_arrived x u)" using False by (auto simp: waits_event_def event_arrived_def)
    ultimately show ?thesis using u(2) woke_refl by auto
  qed
qed

lemma event_loop:
  assumes "\<forall>x \<in> set xs. fmlookup (subtasks s) (st_ID x) = Some x \<and> st_State x = StateWaiting \<and> st_WakeKind x = WakeEvent"
    and "reachable u" "woken_by_event now s u"
  shows "\<exists>t. for_each (eval_event_wake now) xs u = (Inr (), t) \<and> woke u t \<and> woken_by_event now s t
    \<and> (\<forall>x \<in> set xs. waits_event now x \<longrightarrow> event_arrived x u \<longrightarrow> fmlookup (subtasks t) (st_ID x) = Some (woken x))"
  using assms
proof (induction xs arbitrary: u)
  case (Cons x xs)
  from eval_event_wake_step [of s x u now] Cons.prems obtain v where
    v: "eval_event_wake now x u = (Inr (), v)" "woke u v" "woken_by_event now s v"
      "waits_event now x \<longrightarrow> event_arrived x u \<longrightarrow> fmlookup (subtasks v) (st_ID x) = Some (woken x)" by auto
  have "reaches u (snd (eval_event_wake now x u))"
    by (auto simp: eval_event_wake_def intro!: runs reaches_refl split: option.splits)
  with v(1) Cons.prems(2) have "reachable v" using reachable_run by auto
  with Cons.IH [of v] Cons.prems(1) v(3) obtain t where
    t: "for_each (eval_event_wake now) xs v = (Inr (), t)" "woke v t" "woken_by_event now s t"
      "\<forall>x \<in> set xs. waits_event now x \<longrightarrow> event_arrived x v \<longrightarrow> fmlookup (subtasks t) (st_ID x) = Some (woken x)" by auto
  have "waits_event now x \<longrightarrow> event_arrived x u \<longrightarrow> fmlookup (subtasks t) (st_ID x) = Some (woken x)"
    using v(4) woke_stays [OF t(2), of "st_ID x" "woken x"] by simp
  moreover have "\<forall>y \<in> set xs. waits_event now y \<longrightarrow> event_arrived y u \<longrightarrow> fmlookup (subtasks t) (st_ID y) = Some (woken y)"
    using t(4) event_arrived_mono [OF _ v(2)] by blast
  ultimately show ?case using v(1) t(1,3) woke_trans [OF v(2) t(2)] by auto
qed (simp add: woke_refl)

text \<open>C28: An event sweep wakes exactly the subtasks whose event has arrived. From a reachable store, whatever the enumeration order of
  the waiting subtasks, the paged scan of \<open>evalEventWakes\<close> succeeds; every subtask that waits for an event, whose deadline
  has not passed and for which the log holds a matching event of its mission behind the watermark becomes READY with its
  registration cleared; and a subtask that changed at all was such a waiting subtask, with the event in the log at the end.\<close>

theorem event_sweep_exact:
  assumes "reachable s" "valid_order ord"
  shows "\<exists>t. evalEventWakes ord now s = (Inr (), t)
    \<and> (\<forall>k. fmlookup (subtasks t) k = fmlookup (subtasks s) k
         \<or> (\<exists>x. fmlookup (subtasks s) k = Some x \<and> waits_event now x \<and> event_arrived x t \<and> fmlookup (subtasks t) k = Some (woken x)))
    \<and> (\<forall>k x. fmlookup (subtasks s) k = Some x \<longrightarrow> waits_event now x \<longrightarrow> event_arrived x s
         \<longrightarrow> fmlookup (subtasks t) k = Some (woken x))"
proof -
  note key = subtask_key [OF reachable_wf [OF assms(1)]]
  have listed: "x \<in> set (ListWaiting ord WakeEvent s) \<longleftrightarrow> fmlookup (subtasks s) (st_ID x) = Some x
      \<and> st_State x = StateWaiting \<and> st_WakeKind x = WakeEvent" for x
    using key by (auto simp: ListWaiting_def set_map_values [OF assms(2)])
  have "woken_by_event now s s" by (simp add: woken_by_event_def)
  from event_loop [OF _ assms(1) this, of "ListWaiting ord WakeEvent s"] obtain t where
    t: "evalEventWakes ord now s = (Inr (), t)" "woken_by_event now s t"
      "\<forall>x \<in> set (ListWaiting ord WakeEvent s). waits_event now x \<longrightarrow> event_arrived x s
         \<longrightarrow> fmlookup (subtasks t) (st_ID x) = Some (woken x)"
    unfolding evalEventWakes_def using listed by auto
  have "fmlookup (subtasks t) k = Some (woken x)"
    if "fmlookup (subtasks s) k = Some x" "waits_event now x" "event_arrived x s" for k x
    using t(3) that key [OF that(1)] listed [of x] by (auto simp: waits_event_def)
  with t(1,2) show ?thesis unfolding woken_by_event_def by blast
qed

definition demo_wake :: WakeSpec where
  "demo_wake = \<lparr>w_Kind = WakeEvent, w_At = None, w_Deadline = Some 100, w_RegisteredAt = Some 30,
     w_Event = Some \<lparr>em_Types = [''build.done''], em_Where = fmempty, em_AfterSeq = 8\<rparr>, w_Condition = None\<rparr>"

definition scn_waiting :: Store where
  "scn_waiting = snd (SuspendSubtask ''sub_a'' 1 4 demo_wake ''half'' worker 30 scn_running)"

definition demo_event :: Event where
  "demo_event = \<lparr>e_Seq = 0, e_AggregateID = ''sub_b'', e_MissionID = ''msn_1'', e_Type = ''build.done'',
     e_Payload = fmempty, e_Actor = ann, e_Ts = 40\<rparr>"

definition scn_signalled :: Store where
  "scn_signalled = snd (AppendEvent demo_event scn_waiting)"

lemma reachable_signalled: "reachable scn_signalled"
  unfolding scn_signalled_def scn_waiting_def
  by (rule reachable_step [OF reachable_step [OF reachable_running step_SuspendSubtask] step_AppendEvent])

lemma scn_signalled_sub:
  "case fmlookup (subtasks scn_signalled) ''sub_a'' of None \<Rightarrow> False | Some x \<Rightarrow>
     st_State x = StateWaiting \<and> st_WakeKind x = WakeEvent \<and> st_WakeDeadline x = Some 100 \<and> st_MissionID x = ''msn_1''"
  by code_simp

lemma scn_signalled_event:
  "case fmlookup (subtasks scn_signalled) ''sub_a'' of None \<Rightarrow> False | Some x \<Rightarrow>
     (case st_WakeSpec x of None \<Rightarrow> False | Some w \<Rightarrow> \<not> wake_lapsed w 50 \<and> (case w_Event w of None \<Rightarrow> False | Some m \<Rightarrow>
        list_ex (\<lambda>e. e_MissionID e = st_MissionID x \<and> e_Seq e > em_AfterSeq m \<and> event_matches m e) (events scn_signalled)))"
  by code_simp

theorem event_sweep_exact_witness:
  "map_option st_State (fmlookup (subtasks (snd (evalEventWakes sorted_list_of_fset 50 scn_signalled))) ''sub_a'') = Some StateReady"
proof -
  obtain x w m where x: "fmlookup (subtasks scn_signalled) ''sub_a'' = Some x" "st_WakeSpec x = Some w" "w_Event w = Some m"
    using scn_signalled_event by (auto split: option.splits)
  with scn_signalled_sub scn_signalled_event have "waits_event 50 x" "event_arrived x scn_signalled"
    by (auto simp: waits_event_def event_arrived_def list_ex_iff)
  with x(1) event_sweep_exact [OF reachable_signalled valid_order_sorted, of 50] show ?thesis by force
qed

section \<open>Suspending and waking\<close>

lemma find_by_state:
  assumes "valid_order ord" "store_wf s" "fmlookup (subtasks s) k = Some x" "st_State x = st"
  shows "find (\<lambda>y. st_ID y = k) (ListSubtasksByState ord st s) = Some x"
proof -
  note mem = ListSubtasksByState_member [OF assms(1,2)]
  have id: "st_ID x = k" by (rule subtask_key [OF assms(2,3)])
  then have "x \<in> set (ListSubtasksByState ord st s)" using assms(3,4) by (simp add: mem)
  then obtain y where y: "find (\<lambda>y. st_ID y = k) (ListSubtasksByState ord st s) = Some y"
    using id by (cases "find (\<lambda>y. st_ID y = k) (ListSubtasksByState ord st s)") (auto simp: find_None_iff)
  then have "y \<in> set (ListSubtasksByState ord st s)" "st_ID y = k" by (auto simp: find_Some_iff)
  with assms(3) y show ?thesis by (simp add: mem)
qed

lemma SuspendSubtask_Inr:
  assumes "SuspendSubtask k tok v wake ckpt actor now s = (Inr y, t)" "fmlookup (subtasks s) k = Some x"
  shows "st_Version x = v \<and> fmlookup (subtasks t) k = Some y
    \<and> y = x\<lparr>st_State := StateWaiting, st_Assignee := '''', st_LeaseID := '''',
        st_Checkpoint := (if ckpt = '''' then st_Checkpoint x else ckpt), st_Version := v + 1,
        st_WakeKind := w_Kind wake, st_WakeAt := w_At wake, st_WakeDeadline := w_Deadline wake,
        st_WakeSpec := Some (wake_json wake)\<rparr>"
  using assms by (auto simp: SuspendSubtask_def Let_def split: if_splits sum.splits)

lemma validateWake_Inr:
  assumes "validateWake eng wake = Inr w"
  shows "w_Deadline w = w_Deadline wake \<and> w_Deadline w \<noteq> None"
  using assms
  by (cases "validateCondition eng (w_Condition wake)")
    (auto simp: validateWake_def Let_def split: sum.splits if_splits option.splits)

text \<open>C29: Suspending and waking is a round trip. After an accepted \<open>Suspend\<close> the subtask waits without a lease or an assignee; whoever wakes
  it before the deadline gets it back READY, with the checkpoint it was suspended with, and nothing else but the state, the
  assignment, the registration and the version (raised by two) differs from the subtask that was suspended.\<close>

theorem suspend_wake_roundtrip:
  assumes "reachable s" "valid_order ord" "fmlookup (subtasks s) k = Some x"
    and "Suspend eng k tok v ag wake ckpt now s = (Inr y, t)" "\<forall>d. w_Deadline wake = Some d \<longrightarrow> time_after d later"
  shows "st_State y = StateWaiting \<and> st_Assignee y = '''' \<and> st_LeaseID y = ''''
    \<and> fst (WakeAs ord k actor later t) = Inr (clear_wake (x\<lparr>st_State := StateReady, st_Assignee := '''', st_LeaseID := '''',
        st_Checkpoint := (if ckpt = '''' then st_Checkpoint x else ckpt), st_Version := v + 2\<rparr>))"
proof -
  from assms(4) obtain w where w: "SuspendSubtask k tok v w ckpt (agent_actor ag) now s = (Inr y, t)"
    "w_Deadline w = w_Deadline wake"
    by (auto simp: Suspend_def Let_def split: sum.splits if_splits dest: validateWake_Inr)
  note y = SuspendSubtask_Inr [OF w(1) assms(3)]
  have "reaches s (snd (Suspend eng k tok v ag wake ckpt now s))" by (intro runs reaches_refl)
  then have wf: "store_wf t" using reachable_wf [OF reachable_run [OF assms(1)]] assms(4) by simp
  have "find (\<lambda>z. st_ID z = k) (ListSubtasksByState ord StateWaiting t) = Some y"
    by (rule find_by_state [OF assms(2) wf]) (use y in auto)
  then have wake: "WakeAs ord k actor later t = WakeSubtask k (st_Version y) actor later t" by (simp add: WakeAs_def)
  have d: "\<not> (case st_WakeDeadline y of None \<Rightarrow> False | Some d \<Rightarrow> \<not> time_after d later)"
    using assms(5) y w(2) by (auto split: option.splits)
  have "fst (WakeSubtask k (st_Version y) actor later t) = Inr (woken y)"
    unfolding WakeSubtask_def using y d by (simp add: Let_def woken_def Apply_def del: not_Some_eq)
  with y wake show ?thesis by (simp add: woken_def clear_wake_def Let_def)
qed

definition no_engine :: CelEngine where
  "no_engine = \<lparr>eng_Compile = (\<lambda>_. Inl ''no engine''), eng_EstimateCost = (\<lambda>_. Inl ''no engine''),
     eng_Program = (\<lambda>_ _. Some ErrInvalidCondition), eng_Eval = (\<lambda>_ _ _. Inl ''no engine'')\<rparr>"

lemma demo_suspend:
  "\<not> isl (fst (Suspend no_engine ''sub_a'' 1 4 ''agt_1'' demo_wake ''half'' 30 scn_running))"
  "case fmlookup (subtasks scn_running) ''sub_a'' of None \<Rightarrow> False | Some x \<Rightarrow> st_ID x = ''sub_a''"
  by code_simp+

theorem suspend_wake_roundtrip_witness:
  "case fst (WakeAs sorted_list_of_fset ''sub_a'' ann 50
       (snd (Suspend no_engine ''sub_a'' 1 4 ''agt_1'' demo_wake ''half'' 30 scn_running))) of
     Inl _ \<Rightarrow> False | Inr z \<Rightarrow> st_ID z = ''sub_a'' \<and> st_State z = StateReady \<and> st_Checkpoint z = ''half'' \<and> st_Version z = 6"
proof -
  obtain x where x: "fmlookup (subtasks scn_running) ''sub_a'' = Some x" "st_ID x = ''sub_a''"
    using demo_suspend(2) by (auto split: option.splits)
  obtain y t where y: "Suspend no_engine ''sub_a'' 1 4 ''agt_1'' demo_wake ''half'' 30 scn_running = (Inr y, t)"
    using demo_suspend(1) by (metis isl_def prod.collapse sum.exhaust_sel)
  have d: "\<forall>d. w_Deadline demo_wake = Some d \<longrightarrow> time_after d 50" by (simp add: demo_wake_def time_after_def)
  from suspend_wake_roundtrip [OF reachable_running valid_order_sorted x(1) y d, of ann] x(2) y show ?thesis
    by (simp add: clear_wake_def)
qed

end
