(* ===== verification/FilterProps.thy ===== *)
theory FilterProps
  imports TriggerProps
begin

text \<open>
  The incremental filter of a board write. Writing an entry that a registered condition does not reference cannot change
  the value of the condition, as long as the write does not create or remove a namespace the condition sees; creating one
  can, and then the filter misses the change.
\<close>

section \<open>The environment of an evaluation\<close>

definition act_env :: "Activation \<Rightarrow> cel_env" where
  "act_env act = [''board'' \<mapsto> Inr (board_value (act_board act)), ''mission'' \<mapsto> Inr (VObj (act_mission act)),
     ''subtask'' \<mapsto> Inr (VObj (act_subtask act))]"

text \<open>
  The engine runs the compiled condition as the evaluator \<open>ev\<close> does, under the two durations the clock functions return;
  that is, the cost limit does not cut the evaluation short.
\<close>

definition runs_as :: "CelEngine \<Rightarrow> (duration \<Rightarrow> duration \<Rightarrow> cel_eval) \<Rightarrow> compiledCondition \<Rightarrow> bool" where
  "runs_as eng ev cc \<longleftrightarrow> (\<forall>e. ast_Checked (cc_ast cc) = Some e \<longrightarrow> index_global e
     \<and> (\<forall>act. eng_Eval eng (cc_ast cc) MaxConditionRuntimeCost act = ev (act_elapsed act) (act_deadline_in act) (act_env act) e))"

definition follows_spec :: "(string \<Rightarrow> string) \<Rightarrow> (duration \<Rightarrow> duration \<Rightarrow> cel_eval) \<Rightarrow> CelEngine \<Rightarrow> string \<Rightarrow> bool" where
  "follows_spec nokey ev eng expr \<longleftrightarrow> (\<forall>d1 d2. cel_semantics nokey (ev d1 d2))
     \<and> (\<forall>cc. compileConditionExpr eng expr = Inr cc \<longrightarrow> runs_as eng ev cc)"

section \<open>What the data view contains\<close>

text \<open>Every board entry sits at the key of its fields, and mission ids contain no slash.\<close>

definition board_wf :: "string \<Rightarrow> Store \<Rightarrow> bool" where
  "board_wf m s \<longleftrightarrow> CHR ''/'' \<notin> set m
     \<and> fmpred (\<lambda>k e. k = boardKey (b_MissionID e) (b_Namespace e) (b_Key e) \<and> CHR ''/'' \<notin> set (b_MissionID e)) (board s)"

text \<open>The keys a list of namespaces makes \<open>BoardList\<close> enumerate.\<close>

definition listed_key :: "string \<Rightarrow> string \<Rightarrow> string \<Rightarrow> bool" where
  "listed_key m ns k \<longleftrightarrow> (let pre = m @ ''/''; pre = (if ns \<noteq> '''' then pre @ ns @ ''/'' else pre)
     in length k > length pre \<and> take (length pre) k = pre)"

lemma set_BoardList:
  assumes "valid_order ord"
  shows "e \<in> set (BoardList ord m ns s) \<longleftrightarrow> (\<exists>k. listed_key m ns k \<and> fmlookup (board s) k = Some e)"
  unfolding BoardList_def listed_key_def Let_def set_sort_slice set_map_filter_iff set_filter valid_orderD(2) [OF assms]
  by (auto simp: fmlookup_dom_iff)

definition view_entries :: "order \<Rightarrow> string \<Rightarrow> compiledCondition \<Rightarrow> Store \<Rightarrow> BoardEntry list" where
  "view_entries ord m cc s = concat (map (\<lambda>ns. BoardList ord m ns s) (ord (fset_of_list (map ref_namespace (cc_refs cc)))))"

lemma celBoardView_entries:
  "\<not> cc_wildcard cc \<Longrightarrow> celBoardView js ord m cc s = fold (put_entry js) (view_entries ord m cc s) fmempty"
proof -
  have "fold (\<lambda>ns. fold (put_entry js) (f ns)) nss v = fold (put_entry js) (concat (map f nss)) v" for f nss and v :: boardView
    by (induction nss arbitrary: v) simp_all
  then show "\<not> cc_wildcard cc \<Longrightarrow> celBoardView js ord m cc s = fold (put_entry js) (view_entries ord m cc s) fmempty"
    by (simp add: celBoardView_def view_entries_def)
qed

lemma view_at_put:
  "view_at ns k (put_entry js e v) = (if b_Namespace e = ns \<and> b_Key e = k then Some (jsonToCEL js (b_Value e)) else view_at ns k v)"
  by (auto simp: put_entry_def view_at_def Let_def split: option.splits)

lemma view_at_fold:
  assumes "\<forall>x \<in> set es. \<forall>y \<in> set es. b_Namespace x = ns \<longrightarrow> b_Key x = k \<longrightarrow> b_Namespace y = ns \<longrightarrow> b_Key y = k \<longrightarrow> x = y"
  shows "view_at ns k (fold (put_entry js) es v) = Some w \<longleftrightarrow>
     (\<exists>x \<in> set es. b_Namespace x = ns \<and> b_Key x = k \<and> w = jsonToCEL js (b_Value x))
     \<or> (\<forall>x \<in> set es. \<not> (b_Namespace x = ns \<and> b_Key x = k)) \<and> view_at ns k v = Some w"
  using assms
proof (induction es arbitrary: v)
  case (Cons e es)
  then have IH: "view_at ns k (fold (put_entry js) es (put_entry js e v)) = Some w \<longleftrightarrow>
     (\<exists>x \<in> set es. b_Namespace x = ns \<and> b_Key x = k \<and> w = jsonToCEL js (b_Value x))
     \<or> (\<forall>x \<in> set es. \<not> (b_Namespace x = ns \<and> b_Key x = k)) \<and> view_at ns k (put_entry js e v) = Some w" by simp
  have "x = e" if "x \<in> set es" "b_Namespace x = ns" "b_Key x = k" "b_Namespace e = ns" "b_Key e = k" for x
    using Cons.prems that by simp
  then show ?case using IH by (auto simp: view_at_put)
qed simp

lemma slash_prefix:
  assumes "CHR ''/'' \<notin> set m" "CHR ''/'' \<notin> set m'" "m @ ''/'' @ a = m' @ ''/'' @ b"
  shows "m = m' \<and> a = b"
proof -
  have "takeWhile (\<lambda>c. c \<noteq> CHR ''/'') (m @ ''/'' @ a) = m" "takeWhile (\<lambda>c. c \<noteq> CHR ''/'') (m' @ ''/'' @ b) = m'"
    using assms(1,2) by (auto simp: takeWhile_append takeWhile_eq_all_conv)
  with assms(3) show ?thesis by (metis append_Cons append_Nil append_same_eq same_append_eq list.inject)
qed

lemma listed_mission:
  assumes "board_wf m s" "fmlookup (board s) k = Some e" "listed_key m ns k"
  shows "b_MissionID e = m \<and> k = boardKey m (b_Namespace e) (b_Key e)"
proof -
  from assms(1,2) have k: "k = boardKey (b_MissionID e) (b_Namespace e) (b_Key e)" "CHR ''/'' \<notin> set (b_MissionID e)"
    "CHR ''/'' \<notin> set m" by (auto simp: board_wf_def)
  from assms(3) obtain rest where "k = m @ ''/'' @ rest"
    unfolding listed_key_def Let_def by (metis append.assoc append_take_drop_id)
  with k slash_prefix [of m "b_MissionID e" rest] show ?thesis by (auto simp: boardKey_def)
qed

lemma view_entries_at:
  assumes "valid_order ord" "board_wf m s"
  shows "e \<in> set (view_entries ord m cc s) \<and> b_Namespace e = ns \<and> b_Key e = k \<longleftrightarrow>
     (\<exists>nsx \<in> ref_namespace ` set (cc_refs cc). listed_key m nsx (boardKey m ns k))
     \<and> fmlookup (board s) (boardKey m ns k) = Some e \<and> b_Namespace e = ns \<and> b_Key e = k"
proof -
  have "e \<in> set (view_entries ord m cc s) \<longleftrightarrow>
      (\<exists>nsx \<in> ref_namespace ` set (cc_refs cc). \<exists>k. listed_key m nsx k \<and> fmlookup (board s) k = Some e)"
    by (auto simp: view_entries_def set_BoardList [OF assms(1)] valid_orderD(2) [OF assms(1)] fset_of_list.rep_eq)
  with listed_mission [OF assms(2)] show ?thesis by blast
qed

lemma view_at_celBoardView:
  assumes "valid_order ord" "board_wf m s" "\<not> cc_wildcard cc"
  shows "view_at ns k (celBoardView js ord m cc s) = Some w \<longleftrightarrow>
     (\<exists>nsx \<in> ref_namespace ` set (cc_refs cc). listed_key m nsx (boardKey m ns k))
     \<and> (\<exists>e. fmlookup (board s) (boardKey m ns k) = Some e \<and> b_Namespace e = ns \<and> b_Key e = k \<and> w = jsonToCEL js (b_Value e))"
proof -
  note at = view_entries_at [OF assms(1,2), where ns = ns and k = k and cc = cc]
  have "\<forall>x \<in> set (view_entries ord m cc s). \<forall>y \<in> set (view_entries ord m cc s).
      b_Namespace x = ns \<longrightarrow> b_Key x = k \<longrightarrow> b_Namespace y = ns \<longrightarrow> b_Key y = k \<longrightarrow> x = y"
    using at by (metis option.inject)
  from view_at_fold [OF this, of js fmempty w] at show ?thesis
    by (simp add: celBoardView_entries [OF assms(3)] view_at_def) blast
qed

text \<open>What the write of an entry does to the board.\<close>

lemma BoardPut_board:
  assumes "BoardPut e v now s = (Inr c, t)"
  shows "board t = fmupd (boardKey (b_MissionID e) (b_Namespace e) (b_Key e)) c (board s) \<and> missions t = missions s
    \<and> b_MissionID c = b_MissionID e \<and> b_Namespace c = b_Namespace e \<and> b_Key c = b_Key e"
  using assms by (auto simp: BoardPut_def Let_def split: if_splits)

lemma board_wf_put:
  assumes "board_wf m s" "BoardPut e v now s = (Inr c, t)" "b_MissionID e = m"
  shows "board_wf m t"
  using assms(1,3) BoardPut_board [OF assms(2)] by (auto simp: board_wf_def)

lemma unreferenced:
  assumes "\<not> referencesBoard cc (ns @ ''/'' @ key)" "covers (cc_refs cc) ns' k'"
  shows "boardKey m ns' k' \<noteq> boardKey m ns key"
proof
  assume "boardKey m ns' k' = boardKey m ns key"
  then have same: "ns @ ''/'' @ key = ns' @ ''/'' @ k'" by (simp add: boardKey_def)
  from assms(2) consider "ns' @ ''/'' @ k' \<in> set (cc_refs cc)" | "ns' @ ''/*'' \<in> set (cc_refs cc)"
    by (auto simp: covers_def)
  then show False
  proof cases
    case 1
    with assms(1) same show False by (auto simp: referencesBoard_def list_ex_iff)
  next
    case 2
    then have "referencesBoard cc (ns' @ ''/'' @ k')"
      unfolding referencesBoard_def list_ex_iff by (intro disjI2 bexI [of _ "ns' @ ''/*''"]) auto
    with assms(1) same show False by simp
  qed
qed

lemma boards_agree_put:
  assumes "valid_order ord" "board_wf m s" "\<not> cc_wildcard cc" "BoardPut e v now s = (Inr c, t)"
    and "b_MissionID e = m" "\<not> referencesBoard cc (b_Namespace e @ ''/'' @ b_Key e)"
    and "fmdom (celBoardView js ord m cc t) = fmdom (celBoardView js ord m cc s)"
  shows "boards_agree (cc_refs cc) (celBoardView js ord m cc t) (celBoardView js ord m cc s)"
proof -
  have "view_at ns k (celBoardView js ord m cc t) = view_at ns k (celBoardView js ord m cc s)"
    if "covers (cc_refs cc) ns k" for ns k
  proof -
    have "fmlookup (board t) (boardKey m ns k) = fmlookup (board s) (boardKey m ns k)"
      using unreferenced [OF assms(6) that, of m] BoardPut_board [OF assms(4)] assms(5) by auto
    then have "view_at ns k (celBoardView js ord m cc t) = Some w \<longleftrightarrow> view_at ns k (celBoardView js ord m cc s) = Some w" for w
      by (simp add: view_at_celBoardView [OF assms(1) _ assms(3)] board_wf_put [OF assms(2,4,5)] assms(2))
    then show ?thesis by (metis option.exhaust)
  qed
  with assms(7) show ?thesis by (simp add: boards_agree_def)
qed

section \<open>The filter\<close>

lemma compile_refs:
  assumes "compileConditionExpr eng expr = Inr cc" "\<not> cc_wildcard cc"
  obtains e where "ast_Checked (cc_ast cc) = Some e"
    "cc_refs cc = x_refs (walk e \<lparr>x_refs = [], x_seen = {||}, x_wildcard = False\<rparr>)"
    "\<not> x_wildcard (walk e \<lparr>x_refs = [], x_seen = {||}, x_wildcard = False\<rparr>)"
  using assms
  by (auto simp: compileConditionExpr_def extractBoardRefs_def Let_def split: sum.splits if_splits option.splits prod.splits)

lemma expr_unchanged:
  assumes spec: "follows_spec nokey ev eng (bc_Expr c)" and ord: "valid_order ord" and wf: "board_wf m s"
    and unref: "compileConditionExpr eng (bc_Expr c) = Inr cc" "\<not> referencesBoard cc (b_Namespace e @ ''/'' @ b_Key e)"
    and put: "BoardPut e v now0 s = (Inr en, t)" "b_MissionID e = m" "st_MissionID sub = m"
    and dom: "fmdom (celBoardView js ord m cc t) = fmdom (celBoardView js ord m cc s)"
  shows "evalConditionExpr eng js ord sub w c now t = evalConditionExpr eng js ord sub w c now s"
proof -
  have nw: "\<not> cc_wildcard cc" using unref(2) by (auto simp: referencesBoard_def)
  from compile_refs [OF unref(1) nw] obtain a where a: "ast_Checked (cc_ast cc) = Some a"
    "cc_refs cc = x_refs (walk a \<lparr>x_refs = [], x_seen = {||}, x_wildcard = False\<rparr>)"
    "\<not> x_wildcard (walk a \<lparr>x_refs = [], x_seen = {||}, x_wildcard = False\<rparr>)" by blast
  have run: "index_global a" "eng_Eval eng (cc_ast cc) MaxConditionRuntimeCost act = ev (act_elapsed act) (act_deadline_in act) (act_env act) a"
    "cel_semantics nokey (ev d1 d2)" for act d1 d2
    using spec unref(1) a(1) by (auto simp: follows_spec_def runs_as_def)
  note agree = boards_agree_put [OF ord wf nw put(1,2) unref(2) dom]
  have "agree_on (ev d1 d2) (celBoardView js ord m cc t) (celBoardView js ord m cc s) (cc_refs cc) a
      (walk a \<lparr>x_refs = [], x_seen = {||}, x_wildcard = False\<rparr>)" for d1 d2
    by (rule walk_agrees(1) [OF run(3) agree]) (simp add: consistent_def)
  then have same: "ev d1 d2 r1 a = ev d1 d2 r2 a"
    if "env_pair (celBoardView js ord m cc t) (celBoardView js ord m cc s) r1 r2" for d1 d2 r1 r2
    using a(2,3) run(1) that by (auto simp: agree_on_def)
  have "eng_Eval eng (cc_ast cc) MaxConditionRuntimeCost \<lparr>act_board = celBoardView js ord m cc t, act_mission = mi,
        act_subtask = su, act_elapsed = d1, act_deadline_in = d2\<rparr>
      = eng_Eval eng (cc_ast cc) MaxConditionRuntimeCost \<lparr>act_board = celBoardView js ord m cc s, act_mission = mi,
        act_subtask = su, act_elapsed = d1, act_deadline_in = d2\<rparr>" for mi su d1 d2
    unfolding run(2) by (simp, rule same) (simp add: env_pair_def act_env_def)
  moreover have "GetMission x t = GetMission x s" for x
    using BoardPut_board [OF put(1)] by (simp add: GetMission_def)
  ultimately show ?thesis by (simp add: evalConditionExpr_def unref(1) put(3) split: sum.splits option.splits)
qed

lemma structured_unchanged:
  assumes "validateCondition eng (Some c0) = Inr c" "bc_Expr c = ''''" "bc_Board c \<noteq> b_Namespace e @ ''/'' @ b_Key e"
    and "BoardPut e v now0 s = (Inr en, t)" "b_MissionID e = m"
  shows "evalStructuredCondition js m c t = evalStructuredCondition js m c s"
proof -
  obtain a b where ab: "split_slash (bc_Board c) = (a, Some b)"
    using assms(1,2) by (cases "split_slash (bc_Board c)") (auto simp: validateCondition_def Let_def split: if_splits sum.splits)
  let ?d = "dropWhile (\<lambda>ch. ch \<noteq> CHR ''/'') (bc_Board c)"
  have "?d \<noteq> []" "a = takeWhile (\<lambda>ch. ch \<noteq> CHR ''/'') (bc_Board c)" "b = tl ?d"
    using ab by (auto simp: split_slash_def Let_def split: if_splits)
  moreover from this(1) have "?d = CHR ''/'' # tl ?d" using hd_dropWhile [of "\<lambda>ch. ch \<noteq> CHR ''/''" "bc_Board c"]
    by (metis list.collapse)
  ultimately have "bc_Board c = a @ ''/'' @ b" by (metis append_Cons append_Nil takeWhile_dropWhile_id)
  with assms(3) have "boardKey m a b \<noteq> boardKey m (b_Namespace e) (b_Key e)" by (auto simp: boardKey_def)
  then have "BoardGet m a b t = BoardGet m a b s"
    using BoardPut_board [OF assms(4)] assms(5) by (auto simp: BoardGet_def)
  with ab show ?thesis by (simp add: evalStructuredCondition_def)
qed

section \<open>A small engine\<close>

text \<open>An evaluator with constants, selection, index and negation, and an engine for two conditions, to instantiate the
  hypotheses.\<close>

definition lookup_key :: "string + goval \<Rightarrow> string \<Rightarrow> string + goval" where
  "lookup_key v k = (case v of
     Inr (VObj m) \<Rightarrow> (case fmlookup m k of None \<Rightarrow> Inl (''no such key: '' @ k) | Some w \<Rightarrow> Inr w)
   | Inr _ \<Rightarrow> Inl ''no such overload'' | Inl msg \<Rightarrow> Inl msg)"

definition has_key :: "string + goval \<Rightarrow> string \<Rightarrow> string + goval" where
  "has_key v k = (case v of
     Inr (VObj m) \<Rightarrow> Inr (VBool (k |\<in>| fmdom m)) | Inr _ \<Rightarrow> Inl ''no such overload'' | Inl msg \<Rightarrow> Inl msg)"

definition negate :: "string + goval \<Rightarrow> string + goval" where
  "negate v = (case v of Inr (VBool b) \<Rightarrow> Inr (VBool (\<not> b)) | Inr _ \<Rightarrow> Inl ''no such overload'' | Inl msg \<Rightarrow> Inl msg)"

fun demo_eval :: cel_eval where
  "demo_eval r (EConst c) = Inr c"
| "demo_eval r (EIdent x) = (case r x of None \<Rightarrow> Inl ''undeclared reference'' | Some v \<Rightarrow> v)"
| "demo_eval r (ESelect e f t) = (if t then has_key (demo_eval r e) f else lookup_key (demo_eval r e) f)"
| "demo_eval r (ECall f tgt [e]) = (if f = ''!_'' then negate (demo_eval r e) else Inl ''unsupported'')"
| "demo_eval r (ECall f tgt [e, EConst (VStr k)]) = (if f = ''_[_]'' then lookup_key (demo_eval r e) k else Inl ''unsupported'')"
| "demo_eval r _ = Inl ''unsupported''"

definition demo_nokey :: "string \<Rightarrow> string" where "demo_nokey k = ''no such key: '' @ k"

lemma demo_eval_semantics: "cel_semantics demo_nokey demo_eval"
proof -
  have "law_call demo_eval"
    unfolding law_call_def
  proof (intro allI impI)
    fix r1 r2 f tgt es
    assume "\<forall>e \<in> set es. demo_eval r1 e = demo_eval r2 e" "\<forall>e. tgt = Some e \<longrightarrow> demo_eval r1 e = demo_eval r2 e"
    then show "demo_eval r1 (ECall f tgt es) = demo_eval r2 (ECall f tgt es)"
      by (cases "(r1, ECall f tgt es)" rule: demo_eval.cases) auto
  qed
  then show ?thesis
    by (simp add: cel_semantics_def select_laws_def law_atoms_def law_list_def law_struct_def law_comp_def law_strict_def lookup_key_def
        has_key_def demo_nokey_def split: option.splits)
qed

text \<open>\<open>has(board.ci.green)\<close> and its negation.\<close>

definition has_green :: CelExpr where
  "has_green = ESelect (ESelect (EIdent ''board'') ''ci'' False) ''green'' True"

definition not_green :: CelExpr where "not_green = ECall ''!_'' None [has_green]"

definition demo_engine :: CelEngine where
  "demo_engine = \<lparr>
     eng_Compile = (\<lambda>expr. if expr = ''has(board.ci.green)''
         then Inr \<lparr>ast_Source = expr, ast_ResultType = TypeBool, ast_Checked = Some has_green\<rparr>
       else if expr = ''!has(board.ci.green)''
         then Inr \<lparr>ast_Source = expr, ast_ResultType = TypeBool, ast_Checked = Some not_green\<rparr> else Inl ''syntax error''),
     eng_EstimateCost = (\<lambda>_. Inr 5), eng_Program = (\<lambda>_ _. None),
     eng_Eval = (\<lambda>ast _ act. case ast_Checked ast of None \<Rightarrow> Inl ''unchecked'' | Some e \<Rightarrow> demo_eval (act_env act) e)\<rparr>"

definition demo_json :: JSON where
  "demo_json = \<lparr>json_Unmarshal = (\<lambda>raw. if raw = ''true'' then Some (VBool True) else None),
     json_Marshal = (\<lambda>v. Inr (if v = VBool True then ''true'' else ''null''))\<rparr>"

lemma demo_refs:
  "extractBoardRefs \<lparr>ast_Source = x, ast_ResultType = TypeBool, ast_Checked = Some has_green\<rparr> = ([''ci/green''], False)"
  "extractBoardRefs \<lparr>ast_Source = x, ast_ResultType = TypeBool, ast_Checked = Some not_green\<rparr> = ([''ci/green''], False)"
  by (simp_all add: extractBoardRefs_def not_green_def has_green_def record_ref_def ref_add_def Let_def)

lemma demo_compile:
  "compileConditionExpr demo_engine expr =
     (if expr = ''has(board.ci.green)'' then Inr \<lparr>cc_ast = \<lparr>ast_Source = expr, ast_ResultType = TypeBool,
          ast_Checked = Some has_green\<rparr>, cc_refs = [''ci/green''], cc_wildcard = False\<rparr>
      else if expr = ''!has(board.ci.green)'' then Inr \<lparr>cc_ast = \<lparr>ast_Source = expr, ast_ResultType = TypeBool,
          ast_Checked = Some not_green\<rparr>, cc_refs = [''ci/green''], cc_wildcard = False\<rparr>
      else Inl ErrInvalidCondition)"
  by (simp add: compileConditionExpr_def demo_engine_def MaxConditionStaticCost_def demo_refs)

lemma demo_run: "eng_Eval demo_engine ast limit act = (case ast_Checked ast of None \<Rightarrow> Inl ''unchecked'' | Some e \<Rightarrow> demo_eval (act_env act) e)"
  by (simp add: demo_engine_def)

lemma demo_follows_spec: "follows_spec demo_nokey (\<lambda>_ _. demo_eval) demo_engine expr"
  by (auto simp: follows_spec_def demo_eval_semantics demo_compile runs_as_def demo_run has_green_def not_green_def
      split: if_splits)

section \<open>The two properties\<close>

text \<open>C27: The incremental filter skips nothing that matters, as long as no namespace appears or disappears. Let a condition be
  registered and the engine follow the CEL specification on it without hitting its cost limit. If \<open>conditionRefsChanged\<close>
  answers no for the address of a board write, and the namespaces the condition sees are the same before and after,
  evaluating the condition after the write gives what it gave before, errors included: skipping it is right. This covers the
  static extraction of references from the syntax tree, the two notations of a reference, whole-namespace references, and
  storage keys that coincide for different addresses.\<close>

theorem incremental_filter_sound:
  assumes "follows_spec nokey ev eng (bc_Expr c)" "validateCondition eng (Some c0) = Inr c"
    and "valid_order ord" "board_wf (st_MissionID sub) s"
    and "BoardPut \<lparr>b_MissionID = st_MissionID sub, b_Namespace = ns, b_Key = key, b_Value = val, b_Version = 0,
           b_UpdatedAt = zero_time\<rparr> v now0 s = (Inr en, t)"
    and "\<not> conditionRefsChanged eng c (ns @ ''/'' @ key)"
    and "\<forall>cc. compileConditionExpr eng (bc_Expr c) = Inr cc \<longrightarrow>
           fmdom (celBoardView js ord (st_MissionID sub) cc t) = fmdom (celBoardView js ord (st_MissionID sub) cc s)"
  shows "evalCondition eng js ord sub w c now t = evalCondition eng js ord sub w c now s"
proof (cases "bc_Expr c = ''''")
  case True
  with assms(6) structured_unchanged [OF assms(2) True _ assms(5)] show ?thesis
    by (simp add: evalCondition_def conditionRefsChanged_def)
next
  case False
  with assms(6) obtain cc where cc: "compileConditionExpr eng (bc_Expr c) = Inr cc" "\<not> referencesBoard cc (ns @ ''/'' @ key)"
    by (auto simp: conditionRefsChanged_def split: sum.splits)
  with False expr_unchanged [OF assms(1,3,4) cc(1) _ assms(5)] assms(7) show ?thesis by (simp add: evalCondition_def)
qed

definition board_scene :: Store where
  "board_scene = snd (BoardPut \<lparr>b_MissionID = ''msn_1'', b_Namespace = ''ci'', b_Key = ''green'', b_Value = ''true'', b_Version = 0,
     b_UpdatedAt = zero_time\<rparr> (-1) 7 (New\<lparr>missions := fmap_of_list [(''msn_1'', demo_mission)]\<rparr>))"

definition green_condition :: BoardCondition where
  "green_condition = \<lparr>bc_Board = '''', bc_Op = '''', bc_Value = VNil, bc_Expr = ''has(board.ci.green)'',
     bc_Refs = [''ci/green''], bc_RefsWildcard = False\<rparr>"

definition red_write :: "Store \<Rightarrow> BoardEntry result" where
  "red_write s = BoardPut \<lparr>b_MissionID = ''msn_1'', b_Namespace = ''ci'', b_Key = ''red'', b_Value = ''true'', b_Version = 0,
     b_UpdatedAt = zero_time\<rparr> (-1) 8 s"

definition green_cc :: compiledCondition where
  "green_cc = \<lparr>cc_ast = \<lparr>ast_Source = ''has(board.ci.green)'', ast_ResultType = TypeBool, ast_Checked = Some has_green\<rparr>,
     cc_refs = [''ci/green''], cc_wildcard = False\<rparr>"

lemma board_scene_wf: "board_wf ''msn_1'' board_scene"
  by (auto simp: board_wf_def board_scene_def BoardPut_def New_def boardKey_def Let_def intro!: fmpred_upd)

lemma green_view:
  "fmdom (celBoardView demo_json sorted_list_of_fset ''msn_1'' green_cc (snd (red_write board_scene)))
     = fmdom (celBoardView demo_json sorted_list_of_fset ''msn_1'' green_cc board_scene)"
  by code_simp

theorem incremental_filter_sound_witness:
  "evalCondition demo_engine demo_json sorted_list_of_fset demo_task demo_wake green_condition 50 (snd (red_write board_scene))
     = evalCondition demo_engine demo_json sorted_list_of_fset demo_task demo_wake green_condition 50 board_scene"
proof -
  have m: "st_MissionID demo_task = ''msn_1''" by (simp add: demo_task_def)
  have compiled: "compileConditionExpr demo_engine (bc_Expr green_condition) = Inr green_cc"
    by (simp add: green_condition_def green_cc_def demo_compile)
  have valid: "validateCondition demo_engine (Some green_condition) = Inr green_condition"
    using compiled by (simp add: validateCondition_def green_condition_def green_cc_def Let_def)
  obtain en where put: "BoardPut \<lparr>b_MissionID = st_MissionID demo_task, b_Namespace = ''ci'', b_Key = ''red'', b_Value = ''true'',
      b_Version = 0, b_UpdatedAt = zero_time\<rparr> (-1) 8 board_scene = (Inr en, snd (red_write board_scene))"
    by (simp add: red_write_def m BoardPut_def Let_def)
  have skip: "\<not> conditionRefsChanged demo_engine green_condition (''ci'' @ ''/'' @ ''red'')"
    using compiled by (simp add: conditionRefsChanged_def referencesBoard_def green_cc_def green_condition_def)
  show ?thesis
    by (rule incremental_filter_sound [OF demo_follows_spec valid valid_order_sorted _ put skip])
      (use board_scene_wf green_view compiled m in simp_all)
qed

text \<open>The value of \<open>has(board.ci.green)\<close>, by what the board has in the namespace.\<close>

lemma has_green_value:
  assumes "cel_semantics nokey ev" "r ''board'' = Some (Inr (board_value B))"
  shows "ev r has_green = (case fmlookup B ''ci'' of None \<Rightarrow> Inl (nokey ''ci'') | Some g \<Rightarrow> Inr (VBool (''green'' |\<in>| fmdom g)))"
proof -
  have root: "ev r (EIdent ''board'') = Inr (VObj (fmmap VObj B))"
    using cel_ident [of nokey ev r, OF assms] by (simp add: board_value_def)
  show ?thesis
  proof (cases "fmlookup B ''ci''")
    case None
    with cel_select [OF assms(1) root, of "''ci''"] have "ev r (ESelect (EIdent ''board'') ''ci'' False) = Inl (nokey ''ci'')" by simp
    from cel_strict [OF assms(1) this] None show ?thesis by (simp add: has_green_def)
  next
    case (Some g)
    with cel_select [OF assms(1) root, of "''ci''"] have "ev r (ESelect (EIdent ''board'') ''ci'' False) = Inr (VObj g)" by simp
    from cel_has [OF assms(1) this, of "''green''"] Some show ?thesis by (simp add: has_green_def)
  qed
qed

lemma not_green_refs:
  assumes "compileConditionExpr eng expr = Inr cc" "ast_Checked (cc_ast cc) = Some not_green"
  shows "cc_refs cc = [''ci/green'']" "\<not> cc_wildcard cc"
proof -
  have "extractBoardRefs ast = ([''ci/green''], False)" if "ast_Checked ast = Some not_green" for ast
    using that demo_refs(2) [of "''''"] by (simp add: extractBoardRefs_def)
  with assms show "cc_refs cc = [''ci/green'']" "\<not> cc_wildcard cc"
    by (auto simp: compileConditionExpr_def split: sum.splits if_splits prod.splits)
qed

lemma red_only_view:
  assumes "valid_order ord" "CHR ''/'' \<notin> set m" "board s = fmempty" "cc_refs cc = [''ci/green'']" "\<not> cc_wildcard cc"
    and "BoardPut \<lparr>b_MissionID = m, b_Namespace = ''ci'', b_Key = ''red'', b_Value = val, b_Version = 0,
           b_UpdatedAt = zero_time\<rparr> v now s = (Inr en, t)"
  shows "fmlookup (celBoardView js ord m cc s) ''ci'' = None"
    and "\<exists>g. fmlookup (celBoardView js ord m cc t) ''ci'' = Some g \<and> fmlookup g ''green'' = None"
proof -
  have wf: "board_wf m s" using assms(2,3) by (simp add: board_wf_def)
  have "BoardList ord m x s = []" for x
    using set_BoardList [OF assms(1), of _ m x s] assms(3) by (cases "BoardList ord m x s") auto
  then have "view_entries ord m cc s = []" by (simp add: view_entries_def)
  then show "fmlookup (celBoardView js ord m cc s) ''ci'' = None" by (simp add: celBoardView_entries [OF assms(5)])
  have wft: "board_wf m t" by (rule board_wf_put [OF wf assms(6)]) simp
  have b: "board t = fmupd (boardKey m ''ci'' ''red'') en fmempty" "b_Namespace en = ''ci''" "b_Key en = ''red''"
    using BoardPut_board [OF assms(6)] assms(3) by simp_all
  have "listed_key m ''ci'' (boardKey m ''ci'' ''red'')" by (simp add: listed_key_def boardKey_def Let_def)
  moreover have "ref_namespace ''ci/green'' = ''ci''" by (simp add: ref_namespace_def)
  ultimately have "view_at ''ci'' ''red'' (celBoardView js ord m cc t) = Some (jsonToCEL js (b_Value en))"
    using b by (simp add: view_at_celBoardView [OF assms(1) wft assms(5)] assms(4))
  moreover have "view_at ''ci'' ''green'' (celBoardView js ord m cc t) \<noteq> Some x" for x
    using b by (simp add: view_at_celBoardView [OF assms(1) wft assms(5)] boardKey_def)
  ultimately show "\<exists>g. fmlookup (celBoardView js ord m cc t) ''ci'' = Some g \<and> fmlookup g ''green'' = None"
    by (auto simp: view_at_def split: option.splits)
qed

text \<open>Creating a namespace escapes the filter. The condition \<open>!has(board.ci.green)\<close> is registered while the mission has no entry in
  the namespace \<open>ci\<close>: it evaluates to false, because the selection fails. Writing \<open>ci/red\<close> makes it true, and yet
  \<open>conditionRefsChanged\<close> answers that the write cannot affect it, for every engine that follows the CEL specification and
  compiles the text to this tree; the waiting subtask is only woken by the next sweep.\<close>

theorem incremental_filter_gap:
  assumes "follows_spec nokey ev eng (bc_Expr c)" "\<forall>d1 d2 r e. ev d1 d2 r (ECall ''!_'' None [e]) = negate (ev d1 d2 r e)"
    and "\<not> contains ''cost limit'' (nokey ''ci'')"
    and "bc_Expr c \<noteq> ''''" "compileConditionExpr eng (bc_Expr c) = Inr cc" "ast_Checked (cc_ast cc) = Some not_green"
    and "eng_Program eng (cc_ast cc) MaxConditionRuntimeCost = None"
    and "valid_order ord" "fmlookup (missions s) (st_MissionID sub) = Some m" "board s = fmempty" "CHR ''/'' \<notin> set (st_MissionID sub)"
    and "BoardPut \<lparr>b_MissionID = st_MissionID sub, b_Namespace = ''ci'', b_Key = ''red'', b_Value = val, b_Version = 0,
           b_UpdatedAt = zero_time\<rparr> v now0 s = (Inr en, t)"
  shows "evalCondition eng js ord sub w c now s = Inr False \<and> evalCondition eng js ord sub w c now t = Inr True
    \<and> \<not> conditionRefsChanged eng c ''ci/red''"
proof -
  note refs = not_green_refs [OF assms(5,6)]
  note views = red_only_view [OF assms(8,11,10) refs assms(12), of js]
  have run: "eng_Eval eng (cc_ast cc) MaxConditionRuntimeCost act =
      negate (ev (act_elapsed act) (act_deadline_in act) (act_env act) has_green)"
    "cel_semantics nokey (ev d1 d2)" for act d1 d2
    using assms(1,2,5,6) by (auto simp: follows_spec_def runs_as_def not_green_def)
  have env: "act_env act ''board'' = Some (Inr (board_value (act_board act)))" for act by (simp add: act_env_def)
  have eval: "eng_Eval eng (cc_ast cc) MaxConditionRuntimeCost act = negate (case fmlookup (act_board act) ''ci'' of
      None \<Rightarrow> Inl (nokey ''ci'') | Some g \<Rightarrow> Inr (VBool (''green'' |\<in>| fmdom g)))" for act
    by (simp add: run(1) has_green_value [where r = "act_env act" and B = "act_board act", OF run(2) env])
  have gm: "GetMission (st_MissionID sub) s = Inr m" "GetMission (st_MissionID sub) t = Inr m"
    using BoardPut_board [OF assms(12)] assms(9) by (simp_all add: GetMission_def)
  have "evalCondition eng js ord sub w c now s = Inr False"
    using views(1) assms(3,4,5,7) gm by (simp add: evalCondition_def evalConditionExpr_def eval negate_def)
  moreover have "evalCondition eng js ord sub w c now t = Inr True"
    using views(2) assms(4,5,7) gm by (auto simp: evalCondition_def evalConditionExpr_def eval negate_def fmlookup_dom_iff)
  moreover have "\<not> conditionRefsChanged eng c ''ci/red''"
    using assms(4,5) refs by (simp add: conditionRefsChanged_def referencesBoard_def)
  ultimately show ?thesis by simp
qed

definition gap_condition :: BoardCondition where
  "gap_condition = green_condition\<lparr>bc_Expr := ''!has(board.ci.green)''\<rparr>"

definition gap_cc :: compiledCondition where
  "gap_cc = \<lparr>cc_ast = \<lparr>ast_Source = ''!has(board.ci.green)'', ast_ResultType = TypeBool, ast_Checked = Some not_green\<rparr>,
     cc_refs = [''ci/green''], cc_wildcard = False\<rparr>"

definition bare_scene :: Store where
  "bare_scene = New\<lparr>missions := fmap_of_list [(''msn_1'', demo_mission)]\<rparr>"

theorem incremental_filter_gap_witness:
  "evalCondition demo_engine demo_json sorted_list_of_fset demo_task demo_wake gap_condition 50 bare_scene = Inr False
   \<and> evalCondition demo_engine demo_json sorted_list_of_fset demo_task demo_wake gap_condition 50 (snd (red_write bare_scene)) = Inr True
   \<and> \<not> conditionRefsChanged demo_engine gap_condition ''ci/red''"
proof -
  have m: "st_MissionID demo_task = ''msn_1''" by (simp add: demo_task_def)
  have e: "bc_Expr gap_condition = ''!has(board.ci.green)''" by (simp add: gap_condition_def)
  have neg: "\<forall>d1 d2 r e. demo_eval r (ECall ''!_'' None [e]) = negate (demo_eval r e)" by simp
  have quiet: "\<not> contains ''cost limit'' (demo_nokey ''ci'')" by code_simp
  have prog: "eng_Program demo_engine a n = None" for a n by (simp add: demo_engine_def)
  obtain en where put: "BoardPut \<lparr>b_MissionID = st_MissionID demo_task, b_Namespace = ''ci'', b_Key = ''red'', b_Value = ''true'',
      b_Version = 0, b_UpdatedAt = zero_time\<rparr> (-1) 8 bare_scene = (Inr en, snd (red_write bare_scene))"
    by (simp add: red_write_def m BoardPut_def Let_def)
  show ?thesis
    by (rule incremental_filter_gap [where cc = gap_cc and m = demo_mission,
          OF demo_follows_spec neg quiet _ _ _ prog valid_order_sorted _ _ _ put])
      (simp_all add: e demo_compile m gap_cc_def bare_scene_def New_def)
qed

end
