(* ===== verification/RecoveryProps.thy ===== *)
theory RecoveryProps
  imports CoreSweep FilterProps
begin

text \<open>
  The repair steps of the sweeper: after them nothing that could run is left PENDING, whatever an interruption cut short.
\<close>

section \<open>Releases\<close>

text \<open>Some PENDING subtasks have become READY, nothing else.\<close>

definition releases :: "Store \<Rightarrow> Store \<Rightarrow> bool" where
  "releases s u \<longleftrightarrow> (\<forall>k. fmlookup (subtasks u) k = fmlookup (subtasks s) k
     \<or> (\<exists>x. fmlookup (subtasks s) k = Some x \<and> st_State x = StatePending \<and> fmlookup (subtasks u) k = Some (released x)))"

lemma released_fields [simp]:
  "st_State (released x) = StateReady" "st_ID (released x) = st_ID x" "st_MissionID (released x) = st_MissionID x"
  by (simp_all add: released_def)

lemma released_neq [simp]: "released x \<noteq> x" "x \<noteq> released x"
proof -
  have "st_Version (released x) \<noteq> st_Version x" by (simp add: released_def)
  then show "released x \<noteq> x" "x \<noteq> released x" by metis+
qed

lemma releases_refl: "releases s s"
  by (simp add: releases_def)

lemma releases_stays:
  assumes "releases s u" "fmlookup (subtasks s) k = Some x" "st_State x \<noteq> StatePending"
  shows "fmlookup (subtasks u) k = Some x"
  using assms unfolding releases_def by (metis option.inject)

lemma releases_back:
  assumes "releases s u" "fmlookup (subtasks u) k = Some x" "st_State x \<noteq> StateReady"
  shows "fmlookup (subtasks s) k = Some x"
  using assms unfolding releases_def by (metis option.inject released_fields(1))

lemma releases_trans:
  assumes "releases s u" "releases u v"
  shows "releases s v"
  unfolding releases_def
proof
  fix k
  from assms(2) consider "fmlookup (subtasks v) k = fmlookup (subtasks u) k"
    | x where "fmlookup (subtasks u) k = Some x" "st_State x = StatePending" "fmlookup (subtasks v) k = Some (released x)"
    unfolding releases_def by blast
  then show "fmlookup (subtasks v) k = fmlookup (subtasks s) k
     \<or> (\<exists>x. fmlookup (subtasks s) k = Some x \<and> st_State x = StatePending \<and> fmlookup (subtasks v) k = Some (released x))"
  proof cases
    case 1
    with assms(1) show ?thesis unfolding releases_def by metis
  next
    case 2
    with releases_back [OF assms(1) 2(1)] show ?thesis by auto
  qed
qed

lemma releases_succeeded:
  assumes "releases s u"
  shows "fmlookup (subtasks u) k = Some x \<and> st_State x = StateSucceeded \<longleftrightarrow> fmlookup (subtasks s) k = Some x \<and> st_State x = StateSucceeded"
  using releases_back [OF assms, of k x] releases_stays [OF assms, of k x] by auto

lemma releases_releasable:
  assumes "releases s u"
  shows "releasable u m x \<longleftrightarrow> releasable s m x"
  unfolding releasable_def using releases_succeeded [OF assms] by metis

definition missions_known :: "Store \<Rightarrow> bool" where
  "missions_known s \<longleftrightarrow> fmpred (\<lambda>k x. fmlookup (missions s) (st_MissionID x) \<noteq> None) (subtasks s)"

section \<open>Roots\<close>

lemma activate_pending_exact:
  assumes "fmlookup (subtasks u) (st_ID x) = Some x" "st_State x = StatePending"
  shows "\<exists>u'. activate_pending now x u = (Inr (), u') \<and> missions u' = missions u
    \<and> (\<forall>k. fmlookup (subtasks u') k = (if k = st_ID x
          then Some (if st_DependsOn x = [] then released x else x) else fmlookup (subtasks u) k))"
proof (cases "st_DependsOn x = []")
  case True
  have "Apply (st_State x) EvDepsSatisfied = Inr StateReady" using assms(2) by (simp add: Apply_def)
  from TransitionSubtask_exact [OF assms(1) refl this, of "system_actor ''reconciler''" None now] True show ?thesis
    by (auto simp: activate_pending_def tolerate_conflict_def released_def)
next
  case False
  then show ?thesis using assms by (auto simp: activate_pending_def)
qed

lemma reconcile_roots:
  assumes "reachable s" "valid_order ord"
  shows "\<exists>t. reconcilePendingRoots ord now s = (Inr (), t) \<and> releases s t \<and> missions t = missions s \<and> reachable t
    \<and> (\<forall>k x. fmlookup (subtasks t) k = Some x \<longrightarrow> st_State x = StatePending \<longrightarrow> st_DependsOn x \<noteq> [])"
proof -
  note wf = reachable_wf [OF assms(1)]
  note mem = ListSubtasksByState_member [OF assms(2) wf]
  let ?xs = "ListSubtasksByState ord StatePending s" and ?g = "\<lambda>x. if st_DependsOn x = [] then released x else x"
  have "\<exists>t. for_each (activate_pending now) ?xs s = (Inr (), t) \<and> missions t = missions s
    \<and> (\<forall>x \<in> set ?xs. fmlookup (subtasks t) (st_ID x) = Some (?g x))
    \<and> (\<forall>k. k \<notin> st_ID ` set ?xs \<longrightarrow> fmlookup (subtasks t) k = fmlookup (subtasks s) k)"
  proof (rule for_each_entries)
    fix x :: Subtask and u :: Store
    assume x: "x \<in> set ?xs" and a: "missions u = missions s" and b: "fmlookup (subtasks u) (st_ID x) = Some x"
    from x have "st_State x = StatePending" by (simp add: mem)
    from activate_pending_exact [OF b this, of now]
    show "\<exists>u'. activate_pending now x u = (Inr (), u') \<and> missions u' = missions s
      \<and> (\<forall>k. fmlookup (subtasks u') k = (if k = st_ID x then Some (?g x) else fmlookup (subtasks u) k))"
      unfolding a .
  qed (simp_all add: mem ListSubtasksByState_distinct [OF assms(2) wf])
  then obtain t where t: "reconcilePendingRoots ord now s = (Inr (), t)" "missions t = missions s"
    "\<forall>x \<in> set ?xs. fmlookup (subtasks t) (st_ID x) = Some (?g x)"
    "\<forall>k. k \<notin> st_ID ` set ?xs \<longrightarrow> fmlookup (subtasks t) k = fmlookup (subtasks s) k"
    unfolding reconcilePendingRoots_def by blast
  have entry: "fmlookup (subtasks t) k = map_option (\<lambda>x. if st_State x = StatePending then ?g x else x) (fmlookup (subtasks s) k)" for k
  proof (cases "k \<in> st_ID ` set ?xs")
    case True
    then obtain x where "x \<in> set ?xs" "st_ID x = k" by blast
    with t(3) show ?thesis by (auto simp: mem)
  next
    case False
    then have "st_State x \<noteq> StatePending" if "fmlookup (subtasks s) k = Some x" for x
      using that subtask_key [OF wf that] by (auto simp: image_iff mem)
    moreover have "fmlookup (subtasks t) k = fmlookup (subtasks s) k" using t(4) False by blast
    ultimately show ?thesis by (cases "fmlookup (subtasks s) k") auto
  qed
  have "releases s t" unfolding releases_def
  proof
    fix k
    show "fmlookup (subtasks t) k = fmlookup (subtasks s) k \<or> (\<exists>x. fmlookup (subtasks s) k = Some x
        \<and> st_State x = StatePending \<and> fmlookup (subtasks t) k = Some (released x))"
      by (cases "fmlookup (subtasks s) k") (auto simp: entry)
  qed
  moreover have "st_DependsOn x \<noteq> []" if "fmlookup (subtasks t) k = Some x" "st_State x = StatePending" for k x
    using that by (auto simp: entry split: if_splits)
  moreover have "reachable t"
    using run_reconcile_roots [OF reaches_refl, of s ord now] reachable_run [OF assms(1)] t(1) by simp
  ultimately show ?thesis using t(1,2) by blast
qed

section \<open>Propagation\<close>

lemma repropagate_step:
  assumes "reachable u" "valid_order ord" "fmlookup (missions u) (st_MissionID x) = Some m"
  shows "\<exists>t. repropagate ord now x u = (Inr (), t) \<and> releases u t \<and> reachable t
    \<and> (\<forall>k y. fmlookup (subtasks t) k = Some y \<longrightarrow> \<not> releasable t (st_MissionID x) y)
    \<and> (\<forall>i. fmlookup (missions u) i \<noteq> None \<longrightarrow> fmlookup (missions t) i \<noteq> None)"
proof -
  from propagate_exact [OF assms, of "system_actor ''reconciler''" now] obtain t where
    t: "repropagate ord now x u = (Inr (), t)" "\<forall>k. fmlookup (subtasks t) k =
         map_option (\<lambda>sub. if releasable u (st_MissionID x) sub then released sub else sub) (fmlookup (subtasks u) k)"
    unfolding repropagate_def by blast
  have rel: "releases u t" unfolding releases_def
  proof
    fix k
    show "fmlookup (subtasks t) k = fmlookup (subtasks u) k \<or> (\<exists>x. fmlookup (subtasks u) k = Some x
        \<and> st_State x = StatePending \<and> fmlookup (subtasks t) k = Some (released x))"
      using t(2) by (cases "fmlookup (subtasks u) k") (auto simp: releasable_def)
  qed
  have "reaches u (snd (repropagate ord now x u))" unfolding repropagate_def by (intro runs reaches_refl)
  then have run: "reaches u t" using t(1) by simp
  have "\<not> releasable t (st_MissionID x) y" if "fmlookup (subtasks t) k = Some y" for k y
    using that t(2) unfolding releases_releasable [OF rel] by (auto simp: releasable_def split: if_splits)
  moreover have "fmlookup (missions t) i \<noteq> None" if "fmlookup (missions u) i \<noteq> None" for i
    using that reachable_history [OF assms(1) run] by (auto simp: history_def dest: evolvesD)
  ultimately show ?thesis using t(1) rel reachable_run [OF assms(1) run] by blast
qed

lemma repropagate_loop:
  assumes "valid_order ord" "\<forall>x \<in> set xs. fmlookup (missions u) (st_MissionID x) \<noteq> None" "reachable u"
  shows "\<exists>t. for_each (repropagate ord now) xs u = (Inr (), t) \<and> releases u t \<and> reachable t
    \<and> (\<forall>x \<in> set xs. \<forall>k y. fmlookup (subtasks t) k = Some y \<longrightarrow> \<not> releasable t (st_MissionID x) y)"
  using assms(2,3)
proof (induction xs arbitrary: u)
  case (Cons x xs)
  from Cons.prems(1) obtain m where "fmlookup (missions u) (st_MissionID x) = Some m" by auto
  from repropagate_step [OF Cons.prems(2) assms(1) this, of now] obtain v where
    v: "repropagate ord now x u = (Inr (), v)" "releases u v" "reachable v"
      "\<forall>k y. fmlookup (subtasks v) k = Some y \<longrightarrow> \<not> releasable v (st_MissionID x) y"
      "\<forall>i. fmlookup (missions u) i \<noteq> None \<longrightarrow> fmlookup (missions v) i \<noteq> None" by blast
  with Cons.IH [of v] Cons.prems(1) obtain t where
    t: "for_each (repropagate ord now) xs v = (Inr (), t)" "releases v t" "reachable t"
      "\<forall>x \<in> set xs. \<forall>k y. fmlookup (subtasks t) k = Some y \<longrightarrow> \<not> releasable t (st_MissionID x) y" by auto
  have "\<not> releasable t (st_MissionID x) y" if "fmlookup (subtasks t) k = Some y" for k y
  proof
    assume r: "releasable t (st_MissionID x) y"
    then have "fmlookup (subtasks v) k = Some y" using releases_back [OF t(2) that] by (simp add: releasable_def)
    with v(4) r releases_releasable [OF t(2)] show False by blast
  qed
  with v(1) t(1,3,4) releases_trans [OF v(2) t(2)] show ?case by auto
qed (simp add: releases_refl)

text \<open>C26: The sweeper leaves nothing runnable behind. From a reachable store in which every subtask has its mission, the two repair
  steps \<open>reconcilePendingRoots\<close> and \<open>reconcileSucceeded\<close> succeed; they only turn PENDING subtasks READY, and afterwards every
  PENDING subtask has a dependency that is not a SUCCEEDED subtask of its mission. Whatever point an activation or a
  propagation was interrupted at, one sweep completes it.\<close>

theorem sweep_recovers:
  assumes "reachable s" "valid_order ord" "missions_known s"
  shows "\<exists>t. and_then (reconcilePendingRoots ord now s) (\<lambda>_. reconcileSucceeded ord now) = (Inr (), t) \<and> releases s t
    \<and> (\<forall>k x. fmlookup (subtasks t) k = Some x \<longrightarrow> st_State x = StatePending \<longrightarrow>
         (\<exists>dep \<in> set (st_DependsOn x). \<forall>y. fmlookup (subtasks t) dep = Some y \<longrightarrow>
            st_MissionID y \<noteq> st_MissionID x \<or> st_State y \<noteq> StateSucceeded))"
proof -
  from reconcile_roots [OF assms(1,2), of now] obtain u where
    u: "reconcilePendingRoots ord now s = (Inr (), u)" "releases s u" "missions u = missions s" "reachable u"
      "\<forall>k x. fmlookup (subtasks u) k = Some x \<longrightarrow> st_State x = StatePending \<longrightarrow> st_DependsOn x \<noteq> []" by blast
  let ?xs = "ListSubtasksByState ord StateSucceeded u"
  note mem = ListSubtasksByState_member [OF assms(2) reachable_wf [OF u(4)]]
  have known: "fmlookup (missions u) (st_MissionID x) \<noteq> None" if "x \<in> set ?xs" for x
  proof -
    have "fmlookup (subtasks s) (st_ID x) = Some x" using that releases_back [OF u(2)] by (auto simp: mem)
    with assms(3) u(3) show ?thesis by (auto simp: missions_known_def dest: fmpredD)
  qed
  from repropagate_loop [OF assms(2) _ u(4), of ?xs now] known obtain t where
    t: "reconcileSucceeded ord now u = (Inr (), t)" "releases u t" "reachable t"
      "\<forall>x \<in> set ?xs. \<forall>k y. fmlookup (subtasks t) k = Some y \<longrightarrow> \<not> releasable t (st_MissionID x) y"
    unfolding reconcileSucceeded_def by auto
  have "\<exists>dep \<in> set (st_DependsOn x). \<forall>y. fmlookup (subtasks t) dep = Some y \<longrightarrow>
      st_MissionID y \<noteq> st_MissionID x \<or> st_State y \<noteq> StateSucceeded"
    if x: "fmlookup (subtasks t) k = Some x" "st_State x = StatePending" for k x
  proof (rule ccontr)
    assume neg: "\<not> ?thesis"
    then have r: "releasable t (st_MissionID x) x" using x(2) by (auto simp: releasable_def)
    from releases_back [OF t(2) x(1)] x(2) u(5) obtain dep where "dep \<in> set (st_DependsOn x)"
      by (metis State.distinct(1) last_in_set)
    with neg obtain y where y: "fmlookup (subtasks t) dep = Some y" "st_MissionID y = st_MissionID x" "st_State y = StateSucceeded" by blast
    then have "fmlookup (subtasks u) dep = Some y" using releases_back [OF t(2)] by auto
    then have "y \<in> set ?xs" using y(3) subtask_key [OF reachable_wf [OF u(4)]] by (auto simp: mem)
    with t(4) x(1) r y(2) show False by metis
  qed
  with u(1) t(1) releases_trans [OF u(2) t(2)] show ?thesis by auto
qed

theorem sweep_recovers_witness:
  "\<exists>t. and_then (reconcilePendingRoots sorted_list_of_fset 30 core_done) (\<lambda>_. reconcileSucceeded sorted_list_of_fset 30) = (Inr (), t)
     \<and> map_option st_State (fmlookup (subtasks t) ''sub_9_b'') = Some StateReady"
proof -
  have "missions_known core_done" unfolding missions_known_def by code_simp
  from sweep_recovers [OF reachable_core_done valid_order_sorted this, of 30] obtain t where
    t: "and_then (reconcilePendingRoots sorted_list_of_fset 30 core_done) (\<lambda>_. reconcileSucceeded sorted_list_of_fset 30) = (Inr (), t)"
    "releases core_done t" "\<forall>k x. fmlookup (subtasks t) k = Some x \<longrightarrow> st_State x = StatePending \<longrightarrow>
         (\<exists>dep \<in> set (st_DependsOn x). \<forall>y. fmlookup (subtasks t) dep = Some y \<longrightarrow>
            st_MissionID y \<noteq> st_MissionID x \<or> st_State y \<noteq> StateSucceeded)" by blast
  from core_states(1,2,3) obtain a b where a: "fmlookup (subtasks core_done) ''sub_9_a'' = Some a" "st_State a = StateSucceeded"
      "st_MissionID a = ''msn_9''"
    and b: "fmlookup (subtasks core_done) ''sub_9_b'' = Some b" "st_State b = StatePending" "st_MissionID b = ''msn_9''"
      "st_DependsOn b = [''sub_9_a'']" by auto
  have "fmlookup (subtasks t) ''sub_9_a'' = Some a" using releases_stays [OF t(2) a(1)] a(2) by simp
  with t(3) a b have "fmlookup (subtasks t) ''sub_9_b'' \<noteq> Some b" by fastforce
  with t(2) b(1) have "fmlookup (subtasks t) ''sub_9_b'' = Some (released b)" unfolding releases_def by (metis option.inject)
  with t(1) show ?thesis by auto
qed

end
