(* ===== verification/HitlProps.thy ===== *)
theory HitlProps
  imports RecoveryProps
begin

text \<open>
  What a human verdict does: the whole effect of \<open>ResolveDecision\<close> on the subtask table, for both verdicts and both kinds of
  node, and the two places where the code goes further or less far than it means to (a lease that outlives a rejection, an
  old verdict that the sweeper applies to a new question).
\<close>

section \<open>The verdict\<close>

definition resolved :: "string \<Rightarrow> string \<Rightarrow> string \<Rightarrow> time \<Rightarrow> Decision \<Rightarrow> Decision" where
  "resolved choice rationale deciderID now d = d\<lparr>d_Status := DecisionResolved, d_Choice := choice, d_Rationale := rationale,
     d_DeciderID := deciderID, d_ResolvedAt := Some now\<rparr>"

definition rejected :: "Subtask \<Rightarrow> Subtask" where
  "rejected x = x\<lparr>st_State := StateFailed, st_Version := st_Version x + 1\<rparr>"

definition approved :: "Decision \<Rightarrow> Subtask \<Rightarrow> Subtask" where
  "approved d x = (if isHumanKind (st_Kind x)
     then x\<lparr>st_State := StateSucceeded, st_ResultRef := ''decision://'' @ d_ID d, st_Version := st_Version x + 2\<rparr>
     else x\<lparr>st_State := StateRunning, st_Version := st_Version x + 1\<rparr>)"

lemma approved_fields [simp]: "st_ID (approved d x) = st_ID x" "st_MissionID (approved d x) = st_MissionID x"
  by (simp_all add: approved_def)

lemma rejected_fields [simp]: "st_ID (rejected x) = st_ID x" "st_MissionID (rejected x) = st_MissionID x" "st_State (rejected x) = StateFailed"
  by (simp_all add: rejected_def)

lemma find_unique:
  assumes "x \<in> set xs" "P x" "\<And>y. y \<in> set xs \<Longrightarrow> P y \<Longrightarrow> y = x"
  shows "find P xs = Some x"
proof (cases "find P xs")
  case None
  with assms(1,2) show ?thesis by (simp add: find_None_iff)
next
  case (Some y)
  then have "y \<in> set xs \<and> P y" by (metis find_Some_iff nth_mem)
  with Some assms(3) show ?thesis by blast
qed

lemma find_subtask:
  assumes "valid_order ord" "store_wf s" "fmlookup (subtasks s) k = Some x"
  shows "find (\<lambda>y. st_ID y = k) (ListSubtasks ord (st_MissionID x) s) = Some x"
  using assms(3) subtask_key [OF assms(2,3)]
  by (intro find_unique) (simp_all add: ListSubtasks_member [OF assms(1,2)])

lemma doomed_other:
  assumes "\<forall>k. k \<noteq> f \<longrightarrow> fmlookup (subtasks u) k = fmlookup (subtasks s) k"
  shows "doomed s m f k \<Longrightarrow> doomed u m f k"
proof (induction rule: doomed.induct)
  case (doomed_dep k sub dep)
  show ?case
  proof (cases "k = f")
    case True
    then show ?thesis by (simp add: doomed_root)
  next
    case False
    with doomed_dep assms show ?thesis by (auto intro: doomed.doomed_dep)
  qed
qed (rule doomed_root)

section \<open>Rejection\<close>

lemma reject_outcome:
  assumes "reachable s" "valid_order ord" "fmlookup (subtasks s) k = Some x" "st_State x = StateBlocked"
    and "d_SubtaskID d = k" "d_MissionID d = st_MissionID x" "d_Choice d = RejectChoice"
    and "fmlookup (missions s) (st_MissionID x) \<noteq> None"
  shows "\<exists>t. applyDecisionOutcome ord d now s = (Inr (), t) \<and> (\<forall>i. fmlookup (subtasks t) i =
    (if i = k then Some (rejected x) else map_option (\<lambda>y. if st_MissionID y = st_MissionID x \<and> st_State y = StatePending
        \<and> doomed s (st_MissionID x) k i then cancelled_pending y else y) (fmlookup (subtasks s) i)))"
proof -
  note wf = reachable_wf [OF assms(1)]
  note key = subtask_key [OF wf assms(3)]
  let ?actor = "\<lparr>ac_Kind = ''human'', ac_ID = d_DeciderID d\<rparr>"
  have "Apply (st_State x) EvDecisionRejected = Inr StateFailed" using assms(4) by (simp add: Apply_def)
  from TransitionSubtask_exact [OF assms(3) refl this, of ?actor "Some (verdict_payload d)" now] obtain u where
    u: "TransitionSubtask k EvDecisionRejected (st_Version x) ?actor (Some (verdict_payload d)) now None s = (Inr (rejected x), u)"
      "subtasks u = fmupd k (rejected x) (subtasks s)" "missions u = missions s"
    unfolding rejected_def by blast
  have "reaches s (snd (TransitionSubtask k EvDecisionRejected (st_Version x) ?actor (Some (verdict_payload d)) now None s))"
    by (intro runs reaches_refl mutate_ok_None)
  then have ru: "reachable u" using reachable_run [OF assms(1)] u(1) by simp
  from cancelUnreachable_exact [OF ru assms(2), of "rejected x" ?actor now] obtain v where
    v: "cancelUnreachable ord (rejected x) ?actor now u = (Inr (), v)" "\<forall>i. fmlookup (subtasks v) i =
    map_option (\<lambda>sub. if i \<noteq> k \<and> st_MissionID sub = st_MissionID x \<and> st_State sub = StatePending
        \<and> doomed u (st_MissionID x) k i then cancelled_pending sub else sub) (fmlookup (subtasks u) i)"
    unfolding rejected_fields key by blast
  have "reaches u (snd (cancelUnreachable ord (rejected x) ?actor now u))" by (intro runs reaches_refl)
  then have rv: "reaches u v" using v(1) by simp
  have "fmlookup (missions u) (st_MissionID x) \<noteq> None" using assms(8) u(3) by simp
  then obtain m where "fmlookup (missions v) (st_MissionID x) = Some m"
    using reachable_history [OF ru rv] by (auto simp: history_def dest: evolvesD)
  moreover from this have "m_ID m = st_MissionID x"
    using reachable_wf [OF reachable_run [OF ru rv]] by (auto simp: store_wf_def dest: keys_wfD)
  ultimately obtain t where t: "deriveMissionStatus ord (st_MissionID x) now v = (Inr (), t)" "subtasks t = subtasks v"
    using derive_exact by blast
  have "doomed u (st_MissionID x) k i = doomed s (st_MissionID x) k i" for i
    using doomed_other [of k u s] doomed_other [of k s u] u(2) by auto
  then have "\<forall>i. fmlookup (subtasks t) i =
    (if i = k then Some (rejected x) else map_option (\<lambda>y. if st_MissionID y = st_MissionID x \<and> st_State y = StatePending
        \<and> doomed s (st_MissionID x) k i then cancelled_pending y else y) (fmlookup (subtasks s) i))"
    using t(2) v(2) u(2) by (auto simp: option.map_ident cong: option.map_cong)
  moreover have "applyDecisionOutcome ord d now s = (Inr (), t)"
    using find_subtask [OF assms(2) wf assms(3)] assms(4-7) u(1) v(1) t(1) key
    by (simp add: applyDecisionOutcome_def Let_def)
  ultimately show ?thesis by blast
qed


section \<open>Approval\<close>

lemma releasable_cong:
  assumes "subtasks u = subtasks v"
  shows "releasable u m y \<longleftrightarrow> releasable v m y"
  using assms by (simp add: releasable_def)

text \<open>The store after the verdict itself, before the dependents are released.\<close>

abbreviation approve_in :: "Decision \<Rightarrow> Subtask \<Rightarrow> Store \<Rightarrow> Store" where
  "approve_in d x s \<equiv> s\<lparr>subtasks := fmupd (st_ID x) (approved d x) (subtasks s)\<rparr>"

lemma approve_outcome:
  assumes "reachable s" "valid_order ord" "fmlookup (subtasks s) k = Some x" "st_State x = StateBlocked"
    and "d_SubtaskID d = k" "d_MissionID d = st_MissionID x" "d_Choice d \<noteq> RejectChoice"
    and "fmlookup (missions s) (st_MissionID x) \<noteq> None"
  shows "\<exists>t. applyDecisionOutcome ord d now s = (Inr (), t) \<and> (\<forall>i. fmlookup (subtasks t) i =
    (if i = k then Some (approved d x) else map_option (\<lambda>y. if isHumanKind (st_Kind x)
        \<and> releasable (approve_in d x s) (st_MissionID x) y then released y else y) (fmlookup (subtasks s) i)))"
proof -
  note wf = reachable_wf [OF assms(1)]
  note key = subtask_key [OF wf assms(3)]
  note found = find_subtask [OF assms(2) wf assms(3)]
  let ?actor = "\<lparr>ac_Kind = ''human'', ac_ID = d_DeciderID d\<rparr>" and ?r = "x\<lparr>st_State := StateRunning, st_Version := st_Version x + 1\<rparr>"
  have "Apply (st_State x) EvDecisionApproved = Inr StateRunning" using assms(4) by (simp add: Apply_def)
  from TransitionSubtask_exact [OF assms(3) refl this, of ?actor "Some (verdict_payload d)" now] obtain u where
    u: "TransitionSubtask k EvDecisionApproved (st_Version x) ?actor (Some (verdict_payload d)) now None s = (Inr ?r, u)"
      "subtasks u = fmupd k ?r (subtasks s)" "missions u = missions s" by blast
  show ?thesis
  proof (cases "isHumanKind (st_Kind x)")
    case False
    then have "applyDecisionOutcome ord d now s = (Inr (), u)"
      using found assms(4-7) u(1) key by (simp add: applyDecisionOutcome_def Let_def)
    with u(2) False show ?thesis by (auto simp: approved_def option.map_ident)
  next
    case True
    let ?pl = "Some (fmap_of_list [(''via'', VStr ''human_decision'')])"
    have "fmlookup (subtasks u) k = Some ?r" using u(2) by simp
    then obtain v where v: "TransitionSubtask k EvCompleted (st_Version ?r) ?actor ?pl now (Some (decision_mutate d)) u
        = (Inr (approved d x), v)" "subtasks v = fmupd k (approved d x) (subtasks u)" "missions v = missions u"
      using True by (simp add: TransitionSubtask_def Apply_def Let_def decision_mutate_def approved_def add.commute)
    have "reaches s (snd (TransitionSubtask k EvDecisionApproved (st_Version x) ?actor (Some (verdict_payload d)) now None s))"
      by (intro runs reaches_refl mutate_ok_None)
    then have "reachable u" using reachable_run [OF assms(1)] u(1) by simp
    moreover have "reaches u (snd (TransitionSubtask k EvCompleted (st_Version ?r) ?actor ?pl now (Some (decision_mutate d)) u))"
      by (intro runs reaches_refl mutate_ok_decision)
    ultimately have rv: "reachable v" using reachable_run v(1) by fastforce
    from assms(8) u(3) v(3) obtain m where "fmlookup (missions v) (st_MissionID (approved d x)) = Some m" by auto
    from propagate_exact [OF rv assms(2) this, of ?actor now] obtain t where
      t: "propagate ord (approved d x) ?actor now v = (Inr (), t)" "\<forall>i. fmlookup (subtasks t) i =
         map_option (\<lambda>y. if releasable v (st_MissionID x) y then released y else y) (fmlookup (subtasks v) i)" by auto
    have "\<not> releasable v (st_MissionID x) (approved d x)" using True by (simp add: releasable_def approved_def)
    moreover have "releasable v m y \<longleftrightarrow> releasable (approve_in d x s) m y" for m y
      by (rule releasable_cong) (simp add: v(2) u(2) key)
    ultimately have "\<forall>i. fmlookup (subtasks t) i =
      (if i = k then Some (approved d x) else map_option (\<lambda>y. if isHumanKind (st_Kind x)
        \<and> releasable (approve_in d x s) (st_MissionID x) y then released y else y) (fmlookup (subtasks s) i))"
      using t(2) v(2) u(2) True by simp
    moreover have "applyDecisionOutcome ord d now s = (Inr (), t)"
      using found assms(4-7) u(1) v(1) t(1) key True by (simp add: applyDecisionOutcome_def Let_def)
    ultimately show ?thesis by blast
  qed
qed

text \<open>C15: A verdict has exactly the effect it stands for. In a reachable state, resolving a pending ticket whose subtask is BLOCKED in a
  stored mission succeeds, returns the ticket as RESOLVED with the choice and the decider, and changes the subtask table as
  follows. The one veto value turns the subtask FAILED and cancels exactly the PENDING subtasks of the mission that
  transitively depend on it. Any other choice completes a human node, with the ticket as its result, and releases exactly
  the subtasks whose dependencies are SUCCEEDED thereby; it puts a node of an agent back to RUNNING. Nothing else changes.\<close>

theorem decision_decides:
  assumes "reachable s" "valid_order ord" "fmlookup (decisions s) did = Some d" "d_Status d = DecisionPending"
    and "fmlookup (subtasks s) (d_SubtaskID d) = Some x" "st_State x = StateBlocked" "st_MissionID x = d_MissionID d"
    and "fmlookup (missions s) (d_MissionID d) \<noteq> None"
  shows "\<exists>t. ServiceResolveDecision ord did choice rationale who now s = (Inr (resolved choice rationale who now d), t)
    \<and> (\<forall>i. fmlookup (subtasks t) i =
        (if choice = RejectChoice then
           (if i = d_SubtaskID d then Some (rejected x)
            else map_option (\<lambda>y. if st_MissionID y = st_MissionID x \<and> st_State y = StatePending
                  \<and> doomed s (st_MissionID x) (st_ID x) i then cancelled_pending y else y) (fmlookup (subtasks s) i))
         else
           (if i = d_SubtaskID d then Some (approved d x)
            else map_option (\<lambda>y. if isHumanKind (st_Kind x) \<and> releasable (approve_in d x s) (st_MissionID x) y
                  then released y else y) (fmlookup (subtasks s) i))))"
proof -
  let ?d = "resolved choice rationale who now d" and ?k = "d_SubtaskID d"
  obtain u where u: "ResolveDecision did choice rationale who now s = (Inr ?d, u)" "subtasks u = subtasks s" "missions u = missions s"
    using assms(3,4) by (simp add: ResolveDecision_def resolved_def Let_def)
  have "reaches s (snd (ResolveDecision did choice rationale who now s))" by (intro runs reaches_refl)
  then have ru: "reachable u" using reachable_run [OF assms(1)] u(1) by simp
  have d: "d_SubtaskID ?d = ?k" "d_MissionID ?d = st_MissionID x" "d_Choice ?d = choice" "d_ID ?d = d_ID d"
    using assms(7) by (simp_all add: resolved_def)
  have x: "fmlookup (subtasks u) ?k = Some x" "fmlookup (missions u) (st_MissionID x) \<noteq> None" using assms(5,7,8) u(2,3) by simp_all
  have doom: "doomed u m f i = doomed s m f i" for m f i
    using doomed_other [of f u s] doomed_other [of f s u] u(2) by auto
  have rel: "releasable (u\<lparr>subtasks := fmupd (st_ID x) (approved d x) (subtasks s)\<rparr>) m y = releasable (approve_in d x s) m y" for m y
    by (rule releasable_cong) simp
  have app: "approved ?d x = approved d x" by (simp add: approved_def d(4))
  have out: "applyDecisionOutcome ord ?d now u = (Inr (), t) \<Longrightarrow>
      ServiceResolveDecision ord did choice rationale who now s = (Inr ?d, t)" for t
    using u(1) by (simp add: ServiceResolveDecision_def)
  note key = subtask_key [OF reachable_wf [OF assms(1)] assms(5)]
  show ?thesis
  proof (cases "choice = RejectChoice")
    case True
    with d(3) have c: "d_Choice ?d = RejectChoice" by simp
    from reject_outcome [OF ru assms(2) x(1) assms(6) d(1,2) c x(2), of now] out show ?thesis
      using True u(2) by (auto simp: doom key)
  next
    case False
    with d(3) have c: "d_Choice ?d \<noteq> RejectChoice" by simp
    from approve_outcome [OF ru assms(2) x(1) assms(6) d(1,2) c x(2), of now] out show ?thesis
      using False u(2) by (auto simp: rel app)
  qed
qed


section \<open>Witness\<close>

text \<open>A sign-off by a human, and a subtask that waits for it.\<close>

definition signoff_tasks :: "TaskSpec list" where
  "signoff_tasks = (case demo_tasks of [a, b, c] \<Rightarrow> [a\<lparr>t_Kind := KindHumanApproval\<rparr>, b] | _ \<Rightarrow> [])"

definition signoff_open :: Store where
  "signoff_open = snd (OpenHumanDecisions sorted_list_of_fset (\<lambda>i. ''dec_1'') 11
     (snd (createMission sorted_list_of_fset ''msn_9'' ann ''ann'' ''ship'' 0 signoff_tasks 10 New)))"

lemma reachable_signoff: "reachable signoff_open"
proof -
  have "in_int64 0" by (simp add: in_int64_def)
  then show ?thesis
    unfolding signoff_open_def reachable_def by (intro runs run_create reaches_refl fresh_New)
qed

lemma signoff_facts:
  "map_option (\<lambda>d. (d_Status d, d_SubtaskID d, d_MissionID d)) (fmlookup (decisions signoff_open) ''dec_1'')
     = Some (DecisionPending, ''sub_9_a'', ''msn_9'')"
  "map_option (\<lambda>x. (st_ID x, st_State x, st_MissionID x, st_Kind x)) (fmlookup (subtasks signoff_open) ''sub_9_a'')
     = Some (''sub_9_a'', StateBlocked, ''msn_9'', KindHumanApproval)"
  "map_option (\<lambda>x. (st_ID x, st_State x, st_MissionID x, st_DependsOn x)) (fmlookup (subtasks signoff_open) ''sub_9_b'')
     = Some (''sub_9_b'', StatePending, ''msn_9'', [''sub_9_a''])"
  "fmlookup (missions signoff_open) ''msn_9'' \<noteq> None"
  by code_simp+

theorem decision_decides_witness:
  "\<exists>d t. ServiceResolveDecision sorted_list_of_fset ''dec_1'' ''approve'' ''fine'' ''ann'' 20 signoff_open = (Inr d, t)
     \<and> map_option st_State (fmlookup (subtasks t) ''sub_9_a'') = Some StateSucceeded
     \<and> map_option st_State (fmlookup (subtasks t) ''sub_9_b'') = Some StateReady"
proof -
  from signoff_facts obtain d a b where
    d: "fmlookup (decisions signoff_open) ''dec_1'' = Some d" "d_Status d = DecisionPending" "d_SubtaskID d = ''sub_9_a''"
      "d_MissionID d = ''msn_9''"
    and a: "fmlookup (subtasks signoff_open) ''sub_9_a'' = Some a" "st_ID a = ''sub_9_a''" "st_State a = StateBlocked"
      "st_MissionID a = ''msn_9''" "st_Kind a = KindHumanApproval"
    and b: "fmlookup (subtasks signoff_open) ''sub_9_b'' = Some b" "st_State b = StatePending" "st_MissionID b = ''msn_9''"
      "st_DependsOn b = [''sub_9_a'']" by auto
  have h: "isHumanKind (st_Kind a)" using a(5) by (simp add: isHumanKind_def)
  then have "releasable (approve_in d a signoff_open) ''msn_9'' b"
    using a b by (simp add: releasable_def approved_def)
  moreover have "''approve'' \<noteq> RejectChoice" by (simp add: RejectChoice_def)
  ultimately show ?thesis
    using decision_decides [OF reachable_signoff valid_order_sorted d(1,2), unfolded d(3,4), OF a(1,3,4) signoff_facts(4),
      of "''approve''" "''fine''" "''ann''" 20] a b h
    by (auto simp: approved_def)
qed

section \<open>Old verdicts\<close>

text \<open>An agent asks twice. The first question is answered, the subtask runs on and blocks on the second one.\<close>

definition asked_once :: Store where
  "asked_once = snd (RequestDecision sorted_list_of_fset ''dec_1'' ''sub_a'' 1 4 ''agt_1'' ''format?'' [] 27 scn_running)"

definition asked_twice :: Store where
  "asked_twice = snd (RequestDecision sorted_list_of_fset ''dec_2'' ''sub_a'' 1 6 ''agt_1'' ''drop the table?'' [] 29
     (snd (ServiceResolveDecision sorted_list_of_fset ''dec_1'' ''approve'' '''' ''ann'' 28 asked_once)))"

text \<open>The sweeper answers a new question with an old verdict. An agent asks, is answered, asks a second question and is BLOCKED
  until a human decides. \<open>reconcileResolvedDecisions\<close> replays every verdict that was ever resolved, finds the subtask BLOCKED
  and applies the first verdict again: the subtask runs on although its second ticket is still pending.\<close>

theorem stale_verdict_replayed:
  "map_option st_State (fmlookup (subtasks asked_twice) ''sub_a'') = Some StateBlocked
   \<and> map_option d_Status (fmlookup (decisions asked_twice) ''dec_2'') = Some DecisionPending
   \<and> (case reconcileResolvedDecisions sorted_list_of_fset 40 asked_twice of (r, t) \<Rightarrow>
        r = Inr () \<and> map_option st_State (fmlookup (subtasks t) ''sub_a'') = Some StateRunning
        \<and> map_option d_Status (fmlookup (decisions t) ''dec_2'') = Some DecisionPending)"
  by code_simp


section \<open>A lease that outlives its subtask\<close>

text \<open>A rejected question of an agent fails the subtask and leaves the lease ACTIVE and the agent's slot taken; the expiry sweep
  looks at OFFERED and LEASED subtasks only, so no later sweep gives them back either.\<close>

lemma rejection_keeps_lease:
  "(case ServiceResolveDecision sorted_list_of_fset ''dec_1'' ''reject'' '''' ''ann'' 28 asked_once of (r, t) \<Rightarrow>
     case ExpireLeases sorted_list_of_fset 1000 t of (r', u) \<Rightarrow>
       map_option st_State (fmlookup (subtasks u) ''sub_a'') = Some StateFailed
       \<and> map_option l_State (fmlookup (leases u) (leaseID 1)) = Some LeaseActive
       \<and> map_option a_Running (fmlookup (agents u) ''agt_1'') = Some 1)"
  by code_simp

end
