(* ===== verification/ProductProps.thy ===== *)
theory ProductProps
  imports CoreProduct HitlProps
begin

text \<open>
  The generator and the report of the simulation.
\<close>

unbundle bit_operations_syntax

section \<open>The generator\<close>

lemma xor_push_inj:
  fixes x y :: "'a::len word"
  assumes "x XOR push_bit k x = y XOR push_bit k y" "0 < k"
  shows "x = y"
proof (rule bit_word_eqI)
  fix n
  show "n < LENGTH('a) \<Longrightarrow> bit x n = bit y n"
  proof (induction n rule: less_induct)
    case (less n)
    have "bit (x XOR push_bit k x) n = bit (y XOR push_bit k y) n" using assms(1) by simp
    then have "(bit x n \<noteq> (k \<le> n \<and> bit x (n - k))) = (bit y n \<noteq> (k \<le> n \<and> bit y (n - k)))"
      using less.prems by (simp add: bit_simps)
    moreover have "k \<le> n \<Longrightarrow> bit x (n - k) = bit y (n - k)" using less assms(2) by simp
    ultimately show ?case by auto
  qed
qed

lemma xor_drop_inj:
  fixes x y :: "'a::len word"
  assumes "x XOR drop_bit k x = y XOR drop_bit k y" "0 < k"
  shows "x = y"
proof (rule bit_word_eqI)
  fix n
  assume "n < LENGTH('a)"
  then show "bit x n = bit y n"
  proof (induction "LENGTH('a) - n" arbitrary: n rule: less_induct)
    case less
    have "bit (x XOR drop_bit k x) n = bit (y XOR drop_bit k y) n" using assms(1) by simp
    then have "(bit x n \<noteq> bit x (k + n)) = (bit y n \<noteq> bit y (k + n))" by (simp add: bit_simps)
    moreover have "bit x (k + n) = bit y (k + n)"
    proof (cases "k + n < LENGTH('a)")
      case True
      with less.hyps [of "k + n"] less.prems assms(2) show ?thesis by simp
    next
      case False
      then show ?thesis by (metis bit_imp_le_length not_less)
    qed
    ultimately show ?case by auto
  qed
qed

lemma xorshift_inj: "inj xorshift_next"
proof (rule injI)
  fix x y
  assume "xorshift_next x = xorshift_next y"
  from xor_push_inj [OF this [unfolded xorshift_next_def Let_def]]
  have "(x XOR push_bit 13 x) XOR drop_bit 7 (x XOR push_bit 13 x) = (y XOR push_bit 13 y) XOR drop_bit 7 (y XOR push_bit 13 y)" by simp
  from xor_drop_inj [OF this] have "x XOR push_bit 13 x = y XOR push_bit 13 y" by simp
  from xor_push_inj [OF this] show "x = y" by simp
qed

text \<open>The generator of the simulation never gets stuck. A step permutes the 64-bit words, maps only 0 to 0, and every
  seed comes back after finitely many steps; so from the seed the code uses (0 is replaced by 1) no draw is ever 0 and no
  state before the seed is repeated without it.\<close>

theorem xorshift_permutes:
  "bij xorshift_next \<and> (xorshift_next x = 0 \<longleftrightarrow> x = 0) \<and> (\<exists>n>0. (xorshift_next ^^ n) x = x)"
proof -
  have b: "bij xorshift_next" using xorshift_inj by (simp add: finite_UNIV_inj_surj bij_def)
  have z: "xorshift_next 0 = 0" by (simp add: xorshift_next_def)
  then have "xorshift_next x = 0 \<longleftrightarrow> x = 0" using injD [OF xorshift_inj, of x 0] by auto
  moreover have "\<exists>n>0. (xorshift_next ^^ n) x = x"
  proof -
    have "\<not> inj (\<lambda>n. (xorshift_next ^^ n) x)" using finite_imageD [of "\<lambda>n. (xorshift_next ^^ n) x" UNIV] by auto
    then obtain i j where ij: "i < j" "(xorshift_next ^^ i) x = (xorshift_next ^^ j) x"
      unfolding inj_def by (metis linorder_neqE_nat)
    have "xorshift_next ^^ (i + (j - i)) = xorshift_next ^^ i \<circ> xorshift_next ^^ (j - i)" by (rule funpow_add)
    with ij have "(xorshift_next ^^ i) ((xorshift_next ^^ (j - i)) x) = (xorshift_next ^^ i) x"
      by (metis comp_apply le_add_diff_inverse less_imp_le)
    moreover have "inj (xorshift_next ^^ i)" by (rule inj_fn [OF xorshift_inj])
    ultimately have "(xorshift_next ^^ (j - i)) x = x" by (metis injD)
    with ij(1) show ?thesis by (intro exI [of _ "j - i"]) simp
  qed
  ultimately show ?thesis using b by blast
qed


section \<open>The report\<close>

lemma fl_dyadic:
  assumes "\<bar>m\<bar> \<le> 2 ^ 53" "k \<le> 1074"
  shows "fl (of_int m / 2 ^ k) = of_int m / 2 ^ k"
proof -
  have "of_int m / 2 ^ k * scale = of_int m * 2 ^ (1074 - k)" unfolding scale_split [OF assms(2)] by simp
  then have "fl (of_int m / 2 ^ k) = of_int m * 2 ^ (1074 - k) / scale"
    using round_scaled_multiple [OF assms(1), of "1074 - k"] by (simp only: fl_scaled)
  then show ?thesis unfolding scale_split [OF assms(2)] by simp
qed

lemma fl_half: "fl (1 / 2) = 1 / 2"
  using fl_dyadic [of 1 1] by simp

lemma fl_95: "1 / 2 \<le> fl (95 / 100) \<and> fl (95 / 100) \<le> 1"
  using fl_mono [of "1 / 2" "95 / 100"] by (simp add: fl_half fl_le_1)

lemma fl_between:
  assumes "of_int a \<le> x" "x \<le> of_int b" "\<bar>a\<bar> < 2 ^ 53" "\<bar>b\<bar> < 2 ^ 53"
  shows "of_int a \<le> fl x \<and> fl x \<le> of_int b"
  using fl_mono [OF assms(1)] fl_mono [OF assms(2)] fl_of_int [of a] fl_of_int [of b] assms(3,4) by simp

lemma float_of_int_small: "\<bar>i\<bar> < 2 ^ 53 \<Longrightarrow> float_of_int i = of_int i"
  by (simp add: float_of_int_def fl_of_int)

definition rank :: "int \<Rightarrow> float64 \<Rightarrow> int" where
  "rank n p = \<lceil>fmul (float_of_int n) p\<rceil>"

lemma rank_bounds:
  assumes "1 \<le> n" "n \<le> 100000" "1 / 2 \<le> p" "p \<le> 1"
  shows "1 \<le> rank n p \<and> rank n p \<le> n"
proof -
  have f: "float_of_int n = of_int n" using assms by (intro float_of_int_small) simp
  have "1 / 2 * 1 \<le> p * of_int n" using assms by (intro mult_mono) auto
  then have "fl (1 / 2) \<le> fl (of_int n * p)" by (intro fl_mono) (simp add: mult.commute)
  then have "0 < fl (of_int n * p)" unfolding fl_half by linarith
  moreover have "of_int n * p \<le> of_int n * 1" using assms by (intro mult_left_mono) auto
  then have "fl (of_int n * p) \<le> of_int n" using fl_mono [of "of_int n * p" "of_int n"] fl_of_int [of n] assms by simp
  ultimately show ?thesis by (simp add: rank_def fmul_def f ceiling_le_iff)
qed

lemma rank_mono: "p \<le> q \<Longrightarrow> 0 \<le> n \<Longrightarrow> \<bar>n\<bar> < 2 ^ 53 \<Longrightarrow> rank n p \<le> rank n q"
  by (simp add: rank_def fmul_def float_of_int_small) (intro ceiling_mono fl_mono mult_left_mono, simp_all)

lemma percentile_bounds:
  assumes "v \<noteq> []" "length v \<le> 100000" "\<forall>x \<in> set v. lo \<le> x \<and> x \<le> hi" "1 / 2 \<le> p" "p \<le> q" "q \<le> 1" "sorted v"
  shows "lo \<le> percentile v p \<and> percentile v p \<le> percentile v q \<and> percentile v q \<le> hi"
proof -
  let ?n = "int (length v)"
  have n: "1 \<le> ?n" "?n \<le> 100000" using assms(1,2) by (cases v; simp)+
  have r: "1 \<le> rank ?n p" "rank ?n p \<le> rank ?n q" "rank ?n q \<le> ?n"
    using rank_bounds [OF n, of p] rank_bounds [OF n, of q] rank_mono [OF assms(5), of ?n] n assms(4-6) by auto
  let ?i = "nat (rank ?n p - 1)" and ?j = "nat (rank ?n q - 1)"
  from r have ij: "?i \<le> ?j" "?j < length v" by linarith+
  then have "v ! ?i \<le> v ! ?j" using assms(7) by (simp add: sorted_iff_nth_mono)
  moreover have "v ! ?i \<in> set v" "v ! ?j \<in> set v" using ij by auto
  ultimately show ?thesis using assms(3) by (simp add: percentile_def rank_def)
qed

lemma residue_bounds:
  assumes "0 < n" "n < 2 ^ 64"
  shows "0 \<le> residue x n \<and> residue x n < n"
proof -
  have "uint (word_of_int n :: 64 word) = n" using assms by (simp add: uint_word_of_int)
  then show ?thesis using assms(1) by (simp add: residue_def uint_mod)
qed

text \<open>What holds after \<open>i\<close> tasks.\<close>

definition sim_inv :: "SimulationInput \<Rightarrow> nat \<Rightarrow> SimState \<Rightarrow> bool" where
  "sim_inv inp i st \<longleftrightarrow>
     length (ss_latencies st) = nat (si_Tasks inp) \<and> (\<forall>j<i. 40 \<le> ss_latencies st ! j \<and> ss_latencies st ! j \<le> 3000)
     \<and> length (ss_loads st) = nat (si_Agents inp) \<and> sum_list (ss_loads st) = int i \<and> (\<forall>x \<in> set (ss_loads st). 0 \<le> x)
     \<and> ss_Succeeded st + ss_Failed st = int i \<and> 0 \<le> ss_Succeeded st \<and> 0 \<le> ss_Failed st
     \<and> 0 \<le> ss_LeaseExpirations st \<and> ss_LeaseExpirations st \<le> int i
     \<and> 250 * ss_LeaseExpirations st \<le> ss_recovery st \<and> ss_recovery st \<le> 2000 * ss_LeaseExpirations st
     \<and> (si_Scenario inp \<noteq> ''chaos'' \<longrightarrow> ss_LeaseExpirations st = 0)"

lemma sim_start_inv: "sim_inv inp 0 (sim_start inp)"
  by (simp add: sim_inv_def sim_start_def sum_list_replicate)

lemma sum_list_incr: "k < length xs \<Longrightarrow> sum_list (xs[k := xs ! k + 1]) = sum_list xs + (1 :: int)"
  by (induction xs arbitrary: k) (auto split: nat.splits)

text \<open>One task, as far as the report sees it: an agent \<open>k\<close>, a latency \<open>l\<close>, a recovery \<open>d\<close> (0 without a lease expiry) and the result.\<close>

lemma sim_recover_cases:
  assumes "sim_recover inp chaos l st = (l', st')"
  obtains "l' = l" "st' = st"
  | d where "250 \<le> d" "d \<le> 2000" "si_Scenario inp = ''chaos''" "l' = l + d" "ss_recovery st' = ss_recovery st + d"
    "ss_LeaseExpirations st' = ss_LeaseExpirations st + 1" "ss_loads st' = ss_loads st" "ss_latencies st' = ss_latencies st"
    "ss_Succeeded st' = ss_Succeeded st" "ss_Failed st' = ss_Failed st"
proof (cases "si_Scenario inp = ''chaos'' \<and> chaos")
  case False
  with assms have "l' = l" "st' = st" by (simp_all add: sim_recover_def)
  then show ?thesis by (rule that(1))
next
  case True
  let ?d = "250 + residue (xorshift_next (ss_rng st)) 1751"
  have "0 \<le> residue (xorshift_next (ss_rng st)) 1751 \<and> residue (xorshift_next (ss_rng st)) 1751 < 1751"
    by (rule residue_bounds) simp_all
  then have "250 \<le> ?d" "?d \<le> 2000" by simp_all
  with assms True show ?thesis by (intro that(2) [of ?d]) (auto simp: sim_recover_def Let_def)
qed

lemma sim_finish_fields [simp]:
  "ss_latencies (sim_finish i failed l st) = (ss_latencies st)[i := l]" "ss_loads (sim_finish i failed l st) = ss_loads st"
  "ss_recovery (sim_finish i failed l st) = ss_recovery st" "ss_LeaseExpirations (sim_finish i failed l st) = ss_LeaseExpirations st"
  "ss_Failed (sim_finish i failed l st) = (if failed then ss_Failed st + 1 else ss_Failed st)"
  "ss_Succeeded (sim_finish i failed l st) = (if failed then ss_Succeeded st else ss_Succeeded st + 1)"
  by (simp_all add: sim_finish_def Let_def)

lemma sim_task_split:
  assumes "\<not> sim_invalid inp"
  obtains k l x chaos failed l' st' where "k < nat (si_Agents inp)" "40 \<le> l" "l \<le> 1000"
    "sim_recover inp chaos l (st\<lparr>ss_rng := x, ss_loads := (ss_loads st)[k := ss_loads st ! k + 1]\<rparr>) = (l', st')"
    "sim_task inp i st = sim_finish i failed l' st'"
proof -
  let ?x1 = "xorshift_next (ss_rng st)"
  let ?x2 = "xorshift_next ?x1"
  let ?x3 = "xorshift_next ?x2"
  let ?k = "nat (residue ?x1 (si_Agents inp))" and ?l = "40 + residue ?x2 961"
  have "0 < si_Agents inp" "si_Agents inp < 2 ^ 64" using assms by (simp_all add: sim_invalid_def)
  from residue_bounds [OF this, of ?x1] have k: "?k < nat (si_Agents inp)" by simp
  have l: "40 \<le> ?l" "?l \<le> 1000" using residue_bounds [of 961 ?x2] by simp_all
  obtain l' st' where r: "sim_recover inp (hits ?x3 (si_ChaosRate inp)) ?l
      (st\<lparr>ss_rng := xorshift_next ?x3, ss_loads := (ss_loads st)[?k := ss_loads st ! ?k + 1]\<rparr>) = (l', st')" by fastforce
  then have "sim_task inp i st = sim_finish i (hits (xorshift_next ?x3) (si_FailureRate inp)) l' st'"
    by (simp add: sim_task_def Let_def)
  from that [OF k l r this] show ?thesis .
qed

lemma sim_task_inv:
  assumes "sim_inv inp i st" "i < nat (si_Tasks inp)" "\<not> sim_invalid inp"
  shows "sim_inv inp (Suc i) (sim_task inp i st)"
proof -
  obtain k l x chaos failed l' st' where k: "k < nat (si_Agents inp)" and l: "40 \<le> l" "l \<le> 1000"
    and rec: "sim_recover inp chaos l (st\<lparr>ss_rng := x, ss_loads := (ss_loads st)[k := ss_loads st ! k + 1]\<rparr>) = (l', st')"
    and fin: "sim_task inp i st = sim_finish i failed l' st'" by (rule sim_task_split [OF assms(3)])
  note inv = assms(1) [unfolded sim_inv_def]
  have kl: "k < length (ss_loads st)" using inv k by simp
  have sum: "sum_list ((ss_loads st)[k := ss_loads st ! k + 1]) = int (Suc i)" using sum_list_incr [OF kl] inv by simp
  have pos: "\<forall>x \<in> set ((ss_loads st)[k := ss_loads st ! k + 1]). 0 \<le> x"
    using set_update_subset_insert [of "ss_loads st" k "ss_loads st ! k + 1"] kl inv by auto
  have lats: "\<forall>j<Suc i. 40 \<le> (ss_latencies st)[i := l'] ! j \<and> (ss_latencies st)[i := l'] ! j \<le> 3000"
    if "40 \<le> l'" "l' \<le> 3000" using that inv assms(2) by (auto simp: nth_list_update less_Suc_eq)
  from rec show ?thesis
  proof (cases rule: sim_recover_cases)
    case 1
    with lats l show ?thesis using inv sum pos unfolding fin sim_inv_def by auto
  next
    case (2 d)
    then have "40 \<le> l'" "l' \<le> 3000" using l by simp_all
    with 2 lats show ?thesis using inv sum pos unfolding fin sim_inv_def by auto
  qed
qed

lemma sim_run_inv:
  assumes "\<not> sim_invalid inp"
  shows "sim_inv inp (nat (si_Tasks inp)) (sim_run inp)"
proof -
  have "sim_inv inp n (fold (sim_task inp) [0..<n] (sim_start inp))" if "n \<le> nat (si_Tasks inp)" for n
    using that
  proof (induction n)
    case (Suc n)
    then show ?case using sim_task_inv [OF _ _ assms, of n] by simp
  qed (simp add: sim_start_inv)
  then show ?thesis by (simp add: sim_run_def)
qed

text \<open>A simulation report adds up. When \<open>RunSimulation\<close> accepts its input, the succeeded and failed tasks are all the tasks, at most
  all of them lost a lease, and none did outside the chaos scenario; the percentile indices stay inside the slice and
  40 <= P50 <= P95 <= 3000 milliseconds; the success rate is in [0,1]; and the mean recovery is 0 without a lost lease and
  between 250 and 2000 milliseconds with one. All in the float arithmetic of the code.\<close>

theorem simulation_adds_up:
  assumes "RunSimulation dg inp = Inr r"
  shows "sr_Succeeded r + sr_Failed r = si_Tasks inp \<and> 0 \<le> sr_Succeeded r \<and> 0 \<le> sr_Failed r
    \<and> 0 \<le> sr_LeaseExpirations r \<and> sr_LeaseExpirations r \<le> si_Tasks inp
    \<and> (sr_Scenario r = ''chaos'' \<or> sr_LeaseExpirations r = 0)
    \<and> 40 \<le> sr_P50LatencyMS r \<and> sr_P50LatencyMS r \<le> sr_P95LatencyMS r \<and> sr_P95LatencyMS r \<le> 3000
    \<and> 0 \<le> sr_SuccessRate r \<and> sr_SuccessRate r \<le> 1
    \<and> (if sr_LeaseExpirations r = 0 then sr_MeanRecoveryMS r = 0 else 250 \<le> sr_MeanRecoveryMS r \<and> sr_MeanRecoveryMS r \<le> 2000)"
proof -
  let ?inp = "sim_defaults inp"
  let ?st = "sim_run ?inp" and ?n = "nat (si_Tasks ?inp)"
  from assms have ok: "\<not> sim_invalid ?inp" by (auto simp: RunSimulation_def Let_def split: if_splits)
  then have n: "1 \<le> si_Tasks ?inp" "si_Tasks ?inp \<le> 100000" by (simp_all add: sim_invalid_def)
  note inv = sim_run_inv [OF ok, unfolded sim_inv_def]
  have tasks: "si_Tasks ?inp = si_Tasks inp" by (simp add: sim_defaults_def Let_def)
  let ?v = "sort (ss_latencies ?st)"
  have len: "length (ss_latencies ?st) = ?n" and lats: "\<forall>j<?n. 40 \<le> ss_latencies ?st ! j \<and> ss_latencies ?st ! j \<le> 3000"
    using inv by blast+
  have "length ?v \<noteq> 0" "length ?v \<le> 100000" unfolding length_sort len using n by simp_all
  moreover have "\<forall>x \<in> set ?v. 40 \<le> x \<and> x \<le> 3000" unfolding set_sort using lats len by (metis in_set_conv_nth)
  ultimately have v: "?v \<noteq> []" "length ?v \<le> 100000" "\<forall>x \<in> set ?v. 40 \<le> x \<and> x \<le> 3000"
    by (blast dest: arg_cong [of _ "[]" length, unfolded list.size(3)])+
  have p: "40 \<le> percentile ?v (fl (1 / 2)) \<and> percentile ?v (fl (1 / 2)) \<le> percentile ?v (fl (95 / 100))
      \<and> percentile ?v (fl (95 / 100)) \<le> 3000"
    by (rule percentile_bounds [OF v]) (use fl_95 in \<open>simp_all add: fl_half\<close>)
  have counts: "ss_Succeeded ?st + ss_Failed ?st = si_Tasks inp" "0 \<le> ss_Succeeded ?st" "0 \<le> ss_Failed ?st"
    "0 \<le> ss_LeaseExpirations ?st" "ss_LeaseExpirations ?st \<le> si_Tasks inp"
    "si_Scenario ?inp = ''chaos'' \<or> ss_LeaseExpirations ?st = 0"
    using inv n tasks by auto
  have small: "\<bar>ss_Succeeded ?st\<bar> < 2 ^ 53" "\<bar>si_Tasks inp\<bar> < 2 ^ 53" "\<bar>ss_LeaseExpirations ?st\<bar> < 2 ^ 53" "\<bar>ss_recovery ?st\<bar> < 2 ^ 53"
    using inv n tasks by simp_all
  have rate: "0 \<le> fdiv (float_of_int (ss_Succeeded ?st)) (float_of_int (si_Tasks inp))
      \<and> fdiv (float_of_int (ss_Succeeded ?st)) (float_of_int (si_Tasks inp)) \<le> 1"
    using counts n tasks by (simp add: fdiv_def float_of_int_small [OF small(1)] float_of_int_small [OF small(2)] fl_nonneg fl_le_1)
  have mean: "250 \<le> fdiv (float_of_int (ss_recovery ?st)) (float_of_int (ss_LeaseExpirations ?st))
      \<and> fdiv (float_of_int (ss_recovery ?st)) (float_of_int (ss_LeaseExpirations ?st)) \<le> 2000" if "0 < ss_LeaseExpirations ?st"
  proof -
    have "real_of_int (250 * ss_LeaseExpirations ?st) \<le> real_of_int (ss_recovery ?st)"
      "real_of_int (ss_recovery ?st) \<le> real_of_int (2000 * ss_LeaseExpirations ?st)" using inv by (simp_all only: of_int_le_iff)
    then have "real_of_int 250 \<le> of_int (ss_recovery ?st) / of_int (ss_LeaseExpirations ?st)"
      "of_int (ss_recovery ?st) / of_int (ss_LeaseExpirations ?st) \<le> real_of_int 2000" using that by (simp_all add: field_simps)
    from fl_between [OF this] show ?thesis by (simp add: fdiv_def float_of_int_small [OF small(3)] float_of_int_small [OF small(4)])
  qed
  show ?thesis
    using assms counts tasks p rate mean by (auto simp: RunSimulation_def Let_def split: if_splits)
qed

definition demo_simulation :: SimulationInput where
  "demo_simulation = \<lparr>si_Scenario = ''load'', si_Seed = 0, si_Tasks = 3, si_Agents = 2, si_FailureRate = 0, si_ChaosRate = 0,
     si_ExpectedCost = 0\<rparr>"

theorem simulation_adds_up_witness:
  "\<exists>r. RunSimulation (\<lambda>_. ''h'') demo_simulation = Inr r \<and> sr_Succeeded r + sr_Failed r = 3 \<and> sr_LeaseExpirations r = 0"
proof -
  obtain r where r: "RunSimulation (\<lambda>_. ''h'') demo_simulation = Inr r" "sr_Scenario r = ''load''"
    by (simp add: RunSimulation_def Let_def demo_simulation_def sim_defaults_def sim_invalid_def)
  from simulation_adds_up [OF r(1)] r show ?thesis by (auto simp: demo_simulation_def)
qed

end
