(* ===== verification/QualityProps.thy ===== *)
theory QualityProps
  imports ProductProps
begin

text \<open>
  Artifacts and their verification: an uploaded artifact reads back, and a verification is recorded once, with everything
  checked, or leaves the service as it was.
\<close>

section \<open>Blob stores\<close>

text \<open>The contract of a blob store: a successful write is read back, and a write under one hash leaves the others alone.\<close>

locale blob_store =
  fixes put :: "string \<Rightarrow> string \<Rightarrow> 'b \<Rightarrow> (error, unit, 'b) outcome" and get :: "string \<Rightarrow> 'b \<Rightarrow> error + string"
  assumes get_put: "put h x b = (Inr (), b') \<Longrightarrow> get h b' = Inr x"
    and get_other: "h' \<noteq> h \<Longrightarrow> get h' (snd (put h x b)) = get h' b"
    and put_total: "fst (put h x b) = Inr ()"
begin

text \<open>Later uploads of content that does not collide keep what was read.\<close>

lemma kept:
  assumes "get (sha c) b = Inr c" "\<forall>x \<in> set xs. sha x = sha c \<longrightarrow> x = c"
  shows "get (sha c) (fold (\<lambda>x b. snd (put (sha x) x b)) xs b) = Inr c"
  using assms
proof (induction xs arbitrary: b)
  case (Cons x xs)
  have "get (sha c) (snd (put (sha x) x b)) = Inr c"
  proof (cases "sha x = sha c")
    case True
    with Cons.prems(2) have "x = c" by simp
    then show ?thesis using get_put [of "sha x" x b] put_total [of "sha x" x b] by (cases "put (sha x) x b") simp
  next
    case False
    then show ?thesis using get_other [of "sha c" "sha x" x b] Cons.prems(1) by simp
  qed
  with Cons show ?case by simp
qed simp

end

interpretation mem_blobs: blob_store MemBlobPut MemBlobGet
  by unfold_locales (auto simp: MemBlobPut_def MemBlobGet_def split: option.splits)

lemma mem_blob_simps [simp]: "bs_Put mem_blob = MemBlobPut" "bs_Get mem_blob = MemBlobGet"
  by (simp_all add: mem_blob_def)

lemma PutArtifact_Inr:
  assumes "PutArtifact a now s = (Inr (), t)"
  shows "fmlookup (artifacts s) (art_ID a) = None \<and> artifacts t = fmupd (art_ID a) (a\<lparr>art_CreatedAt := now\<rparr>) (artifacts s)"
  using assms by (auto simp: PutArtifact_def Let_def split: option.splits)

text \<open>C32: An uploaded artifact reads back. Once \<open>PutArtifact\<close> has returned an artifact, \<open>GetArtifactContent\<close> of its id returns the
  content that was uploaded together with the registered record, in every later state of the store and after any later uploads
  to the in-memory blob store, unless one of them is a different content with the same SHA-256. The record has the hash and the
  length of the content.\<close>

theorem artifact_roundtrip:
  assumes "reachable s" "ServicePutArtifact mem_blob sha mid by schema content now (b, s) = (Inr a, (b', t))"
    and "reaches t u" "\<forall>x \<in> set later. sha x = sha content \<longrightarrow> x = content"
  shows "GetArtifactContent mem_blob (art_ID a) (fold (\<lambda>x b. snd (MemBlobPut (sha x) x b)) later b') u
      = Inr (content, a\<lparr>art_CreatedAt := now\<rparr>)
    \<and> art_SHA256 a = sha content \<and> art_Size a = int (length content)"
proof -
  from assms(2) have put: "PutArtifact a now s = (Inr (), t)" "art_SHA256 a = sha content" "art_Size a = int (length content)"
    "b' = snd (MemBlobPut (sha content) content b)"
    by (auto simp: ServicePutArtifact_def Let_def split: prod.splits sum.splits)
  have "reaches s (snd (PutArtifact a now s))" by (rule reaches_step [OF reaches_refl step_PutArtifact])
  then have "reachable t" using reachable_run [OF assms(1)] put(1) by simp
  then have "evolves (=) (artifacts t) (artifacts u)" using reachable_history [OF _ assms(3)] by (simp add: history_def)
  moreover have "fmlookup (artifacts t) (art_ID a) = Some (a\<lparr>art_CreatedAt := now\<rparr>)" using PutArtifact_Inr [OF put(1)] by simp
  ultimately have "fmlookup (artifacts u) (art_ID a) = Some (a\<lparr>art_CreatedAt := now\<rparr>)" by (auto dest: evolvesD)
  moreover have "MemBlobGet (sha content) b' = Inr content" using put(4) by (simp add: MemBlobPut_def MemBlobGet_def)
  then have "MemBlobGet (sha content) (fold (\<lambda>x b. snd (MemBlobPut (sha x) x b)) later b') = Inr content"
    by (rule mem_blobs.kept [OF _ assms(4)])
  ultimately show ?thesis using put(2,3) by (simp add: GetArtifactContent_def GetArtifact_def)
qed

definition demo_sha :: "string \<Rightarrow> string" where "demo_sha c = ''sha256:0123456789abcdef:'' @ c"

definition scn_artifact :: "(error, Artifact, MemBlob \<times> Store) outcome" where
  "scn_artifact = ServicePutArtifact mem_blob demo_sha ''msn_1'' '''' ''s'' ''report'' 12 (NewMemBlob, New)"

theorem artifact_roundtrip_witness:
  "\<exists>a b t. scn_artifact = (Inr a, (b, t))
     \<and> GetArtifactContent mem_blob (art_ID a) (snd (MemBlobPut (demo_sha ''other'') ''other'' b)) t = Inr (''report'', a\<lparr>art_CreatedAt := 12\<rparr>)"
proof -
  obtain a b t where r: "scn_artifact = (Inr a, (b, t))"
    by (simp add: scn_artifact_def ServicePutArtifact_def PutArtifact_def MemBlobPut_def New_def Let_def)
  from artifact_roundtrip [OF reachable_New r [unfolded scn_artifact_def] reaches_refl, of "[''other'']"]
  show ?thesis using r by (auto simp: demo_sha_def)
qed


section \<open>Verification\<close>

lemma apply_signal_ok:
  assumes "fmlookup (agents s) (sig_AgentID sig) \<noteq> None"
  shows "\<exists>t. apply_signal now sig s = (Inr (), t) \<and> agents t = agents s \<and> quality t = quality s"
  using assms by (auto simp: apply_signal_def applyReputationSignalLocked_def Let_def)

lemma apply_signals_ok:
  assumes "\<forall>sig \<in> set sigs. fmlookup (agents s) (sig_AgentID sig) \<noteq> None"
  shows "\<exists>t. for_each (apply_signal now) sigs s = (Inr (), t) \<and> quality t = quality s"
  using assms
proof (induction sigs arbitrary: s)
  case (Cons sig sigs)
  then obtain u where "apply_signal now sig s = (Inr (), u)" "agents u = agents s" "quality u = quality s"
    using apply_signal_ok [of s sig now] by auto
  with Cons.IH [of u] Cons.prems show ?case by auto
qed simp

lemma RecordQuality_cases:
  assumes "RecordQuality q sigs actor now s = (r, t)"
  obtains (refused) e where "r = Inl e" "t = s"
  | (recorded) "r = Inr (q\<lparr>q_CreatedAt := now\<rparr>)" "fmlookup (quality s) (q_ArtifactID q) = None"
      "quality t = fmupd (q_ArtifactID q) (q\<lparr>q_CreatedAt := now\<rparr>) (quality s)"
proof (cases "fmlookup (artifacts s) (q_ArtifactID q) = None \<or> fmlookup (quality s) (q_ArtifactID q) \<noteq> None
    \<or> list_ex (\<lambda>sig. fmlookup (agents s) (sig_AgentID sig) = None) sigs")
  case True
  with assms have "t = s \<and> (\<exists>e. r = Inl e)" by (auto simp: RecordQuality_def split: if_splits)
  with that(1) show ?thesis by blast
next
  case False
  let ?q = "q\<lparr>q_CreatedAt := now\<rparr>" and ?s = "s\<lparr>quality := fmupd (q_ArtifactID q) (q\<lparr>q_CreatedAt := now\<rparr>) (quality s)\<rparr>"
  have "\<forall>sig \<in> set sigs. fmlookup (agents ?s) (sig_AgentID sig) \<noteq> None" using False by (auto simp: list_ex_iff)
  from apply_signals_ok [OF this, of now] obtain u where "for_each (apply_signal now) sigs ?s = (Inr (), u)" "quality u = quality ?s" by blast
  with assms False show ?thesis by (intro that(2)) (auto simp: RecordQuality_def Let_def)
qed

text \<open>What an accepted verification went through.\<close>

definition verified_input :: "'b BlobStore \<Rightarrow> (string \<Rightarrow> string) \<Rightarrow> string \<Rightarrow> VerifyArtifactInput \<Rightarrow> Actor \<Rightarrow> 'b \<Rightarrow> Store \<Rightarrow> QualityRecord \<Rightarrow> bool" where
  "verified_input bs sha ident inp verifier b s q \<longleftrightarrow>
     (\<exists>a content. fmlookup (artifacts s) ident = Some a \<and> bs_Get bs (art_SHA256 a) b = Inr content
        \<and> sha content = art_SHA256 a \<and> int (length content) = art_Size a \<and> q_ArtifactID q = art_ID a
        \<and> (art_ProducedBy a \<noteq> '''' \<longrightarrow> (\<exists>x. fmlookup (subtasks s) (art_ProducedBy a) = Some x \<and> q_ProducerAgentID q = st_Assignee x))
        \<and> q_Layers q = fmupd ''L0'' (l0_layer a) (vi_Layers inp))
     \<and> (\<forall>nm layer. fmlookup (vi_Layers inp) nm = Some layer \<longrightarrow> nm \<in> {''L1'', ''L2'', ''L3''}
          \<and> (\<forall>v. ql_Score layer = Some v \<longrightarrow> 0 \<le> v \<and> v \<le> 1) \<and> (\<forall>v. ql_Confidence layer = Some v \<longrightarrow> 0 \<le> v \<and> v \<le> 1))
     \<and> q_Score q = vi_Score inp \<and> q_Confidence q = vi_Confidence inp \<and> q_Verdict q = vi_Verdict inp \<and> q_FailureClass q = vi_FailureClass inp
     \<and> ac_ID verifier \<noteq> '''' \<and> ac_Kind verifier \<noteq> '''' \<and> q_VerifiedBy q = [verifier] \<and> \<not> (ac_Kind verifier = ''agent'' \<and> ac_ID verifier = q_ProducerAgentID q)
     \<and> 0 \<le> q_Score q \<and> q_Score q \<le> 1 \<and> 0 \<le> q_Confidence q \<and> q_Confidence q \<le> 1
     \<and> q_Verdict q \<in> {QualityAccepted, QualityRework, QualityRejected}
     \<and> (if q_Verdict q = QualityAccepted then q_FailureClass q = ''''
         else q_FailureClass q \<in> {''schema_invalid'', ''fact_conflict'', ''incomplete'', ''style'', ''policy_violation'', ''judge_rejected''})"

lemma VerifyArtifact_cases:
  assumes "VerifyArtifact bs sha ident inp verifier now b sv = (r, sv')"
  obtains (refused) e where "r = Inl e" "sv' = sv"
  | (recorded) q where "r = Inr q" "verified_input bs sha ident inp verifier b (sv_st sv) q"
      "fmlookup (quality (sv_st sv)) (q_ArtifactID q) = None"
      "quality (sv_st sv') = fmupd (q_ArtifactID q) q (quality (sv_st sv))"
proof (cases "\<exists>e. r = Inl e \<and> sv' = sv")
  case True
  with that(1) show ?thesis by blast
next
  case False
  let ?s = "sv_st sv"
  from assms False obtain content a producer where
    v: "input_valid inp verifier" "GetArtifactContent bs ident b ?s = Inr (content, a)"
      "int (length content) = art_Size a" "sha content = art_SHA256 a" and lay: "fmpred layer_valid (vi_Layers inp)" and
    p: "(if art_ProducedBy a = '''' then Inr None else map_sum (\<lambda>e. e) Some (GetSubtask (art_ProducedBy a) ?s)) = Inr producer" and
    own: "\<not> (ac_Kind verifier = ''agent'' \<and> ac_ID verifier = q_ProducerAgentID (quality_record inp verifier a producer ?s))" and
    rec: "and_then (on_store (RecordQuality (quality_record inp verifier a producer ?s) (quality_signals inp a producer) verifier now) sv)
        (\<lambda>record sv. (Inr record, invalidateReputation (q_ProducerAgentID record) sv)) = (r, sv')"
    unfolding VerifyArtifact_def Let_def by (auto split: if_splits sum.splits prod.splits)
  let ?q = "quality_record inp verifier a producer ?s"
  obtain r0 t where rt: "RecordQuality ?q (quality_signals inp a producer) verifier now ?s = (r0, t)" by fastforce
  then show ?thesis
  proof (cases rule: RecordQuality_cases)
    case (refused e)
    with rec rt False show ?thesis by (auto simp: on_store_def)
  next
    case recorded
    let ?r = "?q\<lparr>q_CreatedAt := now\<rparr>"
    have "r = Inr ?r" "quality (sv_st sv') = fmupd (q_ArtifactID ?q) ?r (quality ?s)"
      using rec rt recorded by (auto simp: on_store_def invalidateReputation_def)
    moreover have "verified_input bs sha ident inp verifier b ?s ?r"
    proof -
      have a: "fmlookup (artifacts ?s) ident = Some a" "bs_Get bs (art_SHA256 a) b = Inr content"
        using v(2) by (auto simp: GetArtifactContent_def GetArtifact_def split: sum.splits option.splits)
      have "q_ProducerAgentID ?q = (case producer of None \<Rightarrow> '''' | Some x \<Rightarrow> st_Assignee x)" by (simp add: quality_record_def Let_def)
      then have prod: "\<exists>x. fmlookup (subtasks ?s) (art_ProducedBy a) = Some x \<and> q_ProducerAgentID ?q = st_Assignee x"
        if "art_ProducedBy a \<noteq> ''''"
        using p that by (auto simp: GetSubtask_def split: option.splits)
      have art: "q_ArtifactID ?q = art_ID a" "q_Layers ?q = fmupd ''L0'' (l0_layer a) (vi_Layers inp)" "q_VerifiedBy ?q = [verifier]"
        and rec: "q_Score ?q = vi_Score inp" "q_Confidence ?q = vi_Confidence inp" "q_Verdict ?q = vi_Verdict inp"
          "q_FailureClass ?q = vi_FailureClass inp"
        by (simp_all add: quality_record_def Let_def)
      have layers: "nm \<in> {''L1'', ''L2'', ''L3''} \<and> (\<forall>v. ql_Score l = Some v \<longrightarrow> 0 \<le> v \<and> v \<le> 1)
          \<and> (\<forall>v. ql_Confidence l = Some v \<longrightarrow> 0 \<le> v \<and> v \<le> 1)" if "fmlookup (vi_Layers inp) nm = Some l" for nm l
        using fmpredD [OF lay that] by (auto simp: layer_valid_def unit_range_def not_less)
      show ?thesis
        unfolding verified_input_def
        using a prod art rec layers v(1,3,4) own by (auto simp: input_valid_def unit_range_def qualityFailureClasses_def not_less)
    qed
    ultimately show ?thesis using recorded by (intro that(2) [of ?r]) simp_all
  qed
qed

lemma invalidate_st [simp]: "sv_st (invalidateReputation ident sv) = sv_st sv"
  by (simp add: invalidateReputation_def)

lemma run_verify:
  assumes "reaches s (sv_st sv)"
  shows "reaches s (sv_st (snd (VerifyArtifact bs sha ident inp verifier now b sv)))"
proof -
  have "reaches s (snd (RecordQuality q sigs actor now (sv_st sv)))" for q sigs actor
    by (rule reaches_step [OF assms step_RecordQuality])
  then have "reaches s (sv_st (snd (and_then (on_store (RecordQuality q sigs actor now) sv)
      (\<lambda>record sv. (Inr record, invalidateReputation (q_ProducerAgentID record) sv)))))" for q sigs actor
    by (intro and_then_inv [where I = "\<lambda>sv :: Service. reaches s (sv_st sv)"]) simp_all
  with assms show ?thesis unfolding VerifyArtifact_def Let_def by (auto split: sum.splits)
qed

text \<open>C31: A verification is recorded once and only when everything checks out. If \<open>VerifyArtifact\<close> answers with an error the service,
  cache and reputation included, is unchanged. If it answers with a record, the blob has the registered hash and size, the
  verifier is named and is not the agent the producing subtask is assigned to at that moment (which is not always the agent that
  produced the artifact: after a retry the subtask has another assignee, or none, and the first agent passes this check); every
  layer of the input is L1, L2 or L3 with score and confidence in [0,1], the layers recorded are these and the L0 layer; the overall
  score and confidence are in [0,1], a verdict other than acceptance names one of the six failure classes and an acceptance none, and
  the record carries what the input says; the artifact had no record, and the record is stored; in every later state another
  verification of that artifact, whatever it claims, is refused and changes nothing.\<close>

theorem verification_gate:
  assumes "VerifyArtifact bs sha ident inp verifier now b sv = (r, sv')" "reachable (sv_st sv)"
  shows "case r of Inl e \<Rightarrow> sv' = sv
    | Inr q \<Rightarrow> verified_input bs sha ident inp verifier b (sv_st sv) q
        \<and> GetQuality ident (sv_st sv) = Inl ErrNotFound \<and> GetQuality ident (sv_st sv') = Inr q
        \<and> (\<forall>sv2 inp2 verifier2 now2 b2. reaches (sv_st sv') (sv_st sv2) \<longrightarrow>
             (\<exists>e. VerifyArtifact bs sha ident inp2 verifier2 now2 b2 sv2 = (Inl e, sv2)))"
  using assms(1)
proof (cases rule: VerifyArtifact_cases)
  case (refused e)
  then show ?thesis by simp
next
  case (recorded q)
  have key: "art_ID a = ident" if "fmlookup (artifacts s) ident = Some a" "reachable s" for s a
    using that reachable_wf [OF that(2)] by (auto simp: store_wf_def keys_wf_def dest: keyed_byD)
  have q: "q_ArtifactID q = ident" using recorded(2) key [OF _ assms(2)] by (auto simp: verified_input_def)
  then have stored: "fmlookup (quality (sv_st sv')) ident = Some q" using recorded(4) by simp
  have "reaches (sv_st sv) (sv_st (snd (VerifyArtifact bs sha ident inp verifier now b sv)))"
    by (rule run_verify [OF reaches_refl])
  then have reach: "reachable (sv_st sv')" using assms reachable_run by simp
  have "\<exists>e. VerifyArtifact bs sha ident inp2 verifier2 now2 b2 sv2 = (Inl e, sv2)"
    if "reaches (sv_st sv') (sv_st sv2)" for sv2 inp2 verifier2 now2 b2
  proof -
    have "evolves (=) (quality (sv_st sv')) (quality (sv_st sv2))" using reachable_history [OF reach that] by (simp add: history_def)
    with stored have still: "fmlookup (quality (sv_st sv2)) ident = Some q" by (auto dest: evolvesD)
    obtain r2 sv3 where "VerifyArtifact bs sha ident inp2 verifier2 now2 b2 sv2 = (r2, sv3)" by fastforce
    then show ?thesis
    proof (cases rule: VerifyArtifact_cases)
      case refused
      then show ?thesis using \<open>VerifyArtifact bs sha ident inp2 verifier2 now2 b2 sv2 = (r2, sv3)\<close> by simp
    next
      case (recorded q2)
      then have "q_ArtifactID q2 = ident" using key [OF _ reachable_run [OF reach that]] by (auto simp: verified_input_def)
      with recorded(3) still show ?thesis by simp
    qed
  qed
  with recorded(1-3) q stored show ?thesis by (simp add: GetQuality_def)
qed


definition demo_verdict :: VerifyArtifactInput where
  "demo_verdict = \<lparr>vi_Layers = fmempty, vi_Score = 1, vi_Confidence = 1, vi_Verdict = QualityAccepted, vi_FailureClass = '''',
     vi_Rubric = '''', vi_ContextHash = ''''\<rparr>"

theorem verification_gate_witness:
  "\<exists>a b t q sv. scn_artifact = (Inr a, (b, t))
     \<and> VerifyArtifact mem_blob demo_sha (art_ID a) demo_verdict ann 13 b (NewService t DefaultConfig) = (Inr q, sv)
     \<and> q_Verdict q = QualityAccepted
     \<and> (\<exists>e. VerifyArtifact mem_blob demo_sha (art_ID a) demo_verdict ann 14 b sv = (Inl e, sv))"
proof -
  let ?id = "''art_'' @ take 20 (demo_sha ''report'')"
  obtain a b t where r: "scn_artifact = (Inr a, (b, t))" "art_ID a = ?id" "art_SHA256 a = demo_sha ''report''" "art_Size a = 6"
    "art_ProducedBy a = ''''" "MemBlobGet (demo_sha ''report'') b = Inr ''report''"
    "artifacts t = fmupd ?id (a\<lparr>art_CreatedAt := 12\<rparr>) fmempty" "quality t = fmempty"
    by (simp add: scn_artifact_def ServicePutArtifact_def PutArtifact_def MemBlobPut_def MemBlobGet_def New_def Let_def
        putMeterLocked_def)
  have "reaches New (snd (PutArtifact x 12 New))" for x by (rule reaches_step [OF reaches_refl step_PutArtifact])
  then have reach: "reachable t"
    using r(1) by (auto simp: scn_artifact_def ServicePutArtifact_def reachable_def Let_def split: prod.splits sum.splits) (metis snd_conv)
  have ok: "input_valid demo_verdict ann"
    by (simp add: input_valid_def demo_verdict_def ann_def unit_range_def)
  obtain q sv where v: "VerifyArtifact mem_blob demo_sha ?id demo_verdict ann 13 b (NewService t DefaultConfig) = (Inr q, sv)"
    "q_Verdict q = QualityAccepted"
    using ok r by (simp add: VerifyArtifact_def Let_def GetArtifactContent_def GetArtifact_def NewService_def demo_verdict_def
        quality_record_def quality_signals_def RecordQuality_def on_store_def ann_def)
  have "reachable (sv_st (NewService t DefaultConfig))" using reach by (simp add: NewService_def)
  from verification_gate [OF v(1) this] have "\<exists>e. VerifyArtifact mem_blob demo_sha ?id demo_verdict ann 14 b sv = (Inl e, sv)"
    by (simp add: reaches_refl)
  with r(1,2) v show ?thesis by metis
qed

end
