(* ===== verification/CoreIntent.thy ===== *)
theory CoreIntent
  imports CoreTrigger
begin

text \<open>
  The admission pipeline of \<open>internal/core/intent.go\<close>: one entry for humans and agents that authorises, validates,
  deduplicates and executes an intent. The ids \<open>newID\<close> draws are arguments. A delegate intent can loop for ever in
  \<open>checkDelegateLimits\<close>, so the result is an option.
\<close>

definition IntentCreateMission :: string where "IntentCreateMission = ''create_mission''"
definition IntentWake :: string where "IntentWake = ''wake''"
definition IntentDelegate :: string where "IntentDelegate = ''delegate''"

definition ScopeCreateMission :: string where "ScopeCreateMission = ''trigger.create_mission''"
definition ScopeWake :: string where "ScopeWake = ''trigger.wake''"
definition ScopeSpawnSubtask :: string where "ScopeSpawnSubtask = ''trigger.spawn_subtask''"

definition authorizeAgentTrigger :: "string \<Rightarrow> string \<Rightarrow> Store \<Rightarrow> error + unit" where
  "authorizeAgentTrigger agentID scope s =
     (case GetAgent agentID s of
        Inl e \<Rightarrow> Inl (if e = ErrNotFound then ErrForbidden else e)
      | Inr a \<Rightarrow> if scope \<in> set (a_TriggerScopes a) then Inr () else Inl ErrForbidden)"

text \<open>A resubmission repairs a mission whose creation was interrupted after the key was taken.\<close>

definition intentCreateMission :: "order \<Rightarrow> string \<Rightarrow> Intent \<Rightarrow> time \<Rightarrow> Store \<Rightarrow> IntentResult result" where
  "intentCreateMission ord newid inp now s =
     (if in_IdempotencyKey inp = '''' then (Inl (ErrPlain ''core: create_mission intent requires idempotency_key''), s)
      else if in_Owner inp = '''' \<or> in_Goal inp = '''' \<or> in_Tasks inp = [] then (Inl (ErrPlain ''core: owner/goal/tasks required''), s)
      else if in_BudgetTokens inp < 0 then (Inl ErrInvalidBudget, s)
      else case validateDAG (in_Tasks inp) of
          Inl e \<Rightarrow> (Inl e, s)
        | Inr _ \<Rightarrow>
            let create = (\<lambda>ident. createMission ord ident (in_Source inp) (in_Owner inp) (in_Goal inp) (in_BudgetTokens inp)
                  (in_Tasks inp) now)
            in (case PutIdempotent (''intent-'' @ in_IdempotencyKey inp) newid s of
                  (Inl (e, existing), s) \<Rightarrow>
                    if e = ErrDuplicate then
                      and_then
                        (case GetMission existing s of
                           Inr _ \<Rightarrow> (Inr (), s)
                         | Inl e \<Rightarrow>
                             if e = ErrNotFound then
                               (case create existing s of
                                  (Inr _, s) \<Rightarrow> (Inr (), s)
                                | (Inl createErr, s) \<Rightarrow>
                                    (case GetMission existing s of Inl _ \<Rightarrow> (Inl createErr, s) | Inr _ \<Rightarrow> (Inr (), s)))
                             else (Inl e, s))
                        (\<lambda>_ s. and_then (activateMissionRoots ord existing (in_Source inp) now s)
                          (\<lambda>_ s. (Inr \<lparr>ir_MissionID = existing, ir_SubtaskID = '''', ir_Deduplicated = True\<rparr>, s)))
                    else (Inl e, s)
                | (Inr _, s) \<Rightarrow>
                    and_then (create newid s)
                      (\<lambda>_ s. (Inr \<lparr>ir_MissionID = newid, ir_SubtaskID = '''', ir_Deduplicated = False\<rparr>, s))))"

definition intent_scope :: "string \<Rightarrow> string option" where
  "intent_scope action =
     (if action = IntentCreateMission then Some ScopeCreateMission
      else if action = IntentWake then Some ScopeWake
      else if action = IntentDelegate then Some ScopeSpawnSubtask
      else None)"

definition SubmitIntent ::
  "Config \<Rightarrow> order \<Rightarrow> string \<Rightarrow> string \<Rightarrow> Intent \<Rightarrow> time \<Rightarrow> Store \<Rightarrow> IntentResult result option" where
  "SubmitIntent cfg ord newMission newSub inp now s =
     (if ac_ID (in_Source inp) = '''' \<or> ac_Kind (in_Source inp) = ''''
      then Some (Inl (ErrPlain ''core: intent source (kind/id) required''), s)
      else case intent_scope (in_Action inp) of
          None \<Rightarrow> Some (Inl (ErrPlain ''core: unsupported intent action''), s)
        | Some need \<Rightarrow>
           (case (if ac_Kind (in_Source inp) = ''agent'' then authorizeAgentTrigger (ac_ID (in_Source inp)) need s else Inr ()) of
              Inl e \<Rightarrow> Some (Inl e, s)
            | Inr _ \<Rightarrow>
                if in_Action inp = IntentCreateMission then Some (intentCreateMission ord newMission inp now s)
                else if in_Action inp = IntentWake then
                  Some (if in_SubtaskID inp = '''' then (Inl (ErrPlain ''core: wake intent requires subtask_id''), s)
                        else and_then (Wake ord (in_SubtaskID inp) (ac_ID (in_Source inp)) now s)
                          (\<lambda>_ s. (Inr \<lparr>ir_MissionID = '''', ir_SubtaskID = in_SubtaskID inp, ir_Deduplicated = False\<rparr>, s)))
                else intentDelegate cfg ord newSub inp now s))"

end
