(* ===== verification/AdmissionProps.thy ===== *)
theory AdmissionProps
  imports CoreIntent FilterProps
begin

text \<open>
  The admission pipeline: authorisation comes before everything else, a resubmitted creation creates nothing, and a
  delegation is possible only from a live lease inside the authority and the limits of its parent, with a check that always
  ends.
\<close>

section \<open>Authorisation\<close>

definition may_trigger :: "string \<Rightarrow> string \<Rightarrow> Store \<Rightarrow> bool" where
  "may_trigger agentID scope s \<longleftrightarrow> (\<exists>a. fmlookup (agents s) agentID = Some a \<and> scope \<in> set (a_TriggerScopes a))"

lemma authorizeAgentTrigger_eq:
  "authorizeAgentTrigger agentID scope s = (if may_trigger agentID scope s then Inr () else Inl ErrForbidden)"
  by (auto simp: authorizeAgentTrigger_def GetAgent_def may_trigger_def split: option.splits)

text \<open>Authorisation comes first. An intent of an agent that is not registered, or registered without the scope its action needs, is
  refused with \<open>ErrForbidden\<close> before anything is looked at or written: the answer does not depend on the rest of the intent
  and the store is untouched, so neither an idempotency key is consumed nor the existence of a mission shown. An action
  outside the three is refused for every source.\<close>

theorem intent_authorised:
  assumes "ac_ID (in_Source inp) \<noteq> ''''" "ac_Kind (in_Source inp) = ''agent''"
  shows "case intent_scope (in_Action inp) of
      None \<Rightarrow> SubmitIntent cfg ord nm ns inp now s = Some (Inl (ErrPlain ''core: unsupported intent action''), s)
    | Some need \<Rightarrow>
        if may_trigger (ac_ID (in_Source inp)) need s then True
        else SubmitIntent cfg ord nm ns inp now s = Some (Inl ErrForbidden, s)"
  using assms by (simp add: SubmitIntent_def authorizeAgentTrigger_eq split: option.splits)

definition demo_intent :: Intent where
  "demo_intent = \<lparr>in_Source = worker, in_Action = ''create_mission'', in_IdempotencyKey = ''k1'', in_Owner = ''ann'',
     in_Goal = ''ship'', in_Tasks = demo_tasks, in_BudgetTokens = 0, in_SubtaskID = '''', in_ParentSubtaskID = '''',
     in_FencingToken = 0, in_ParentVersion = 0, in_Task = None\<rparr>"

theorem intent_authorised_witness:
  "SubmitIntent DefaultConfig sorted_list_of_fset ''msn_7'' ''sub_7'' demo_intent 50 scn_running = Some (Inl ErrForbidden, scn_running)"
proof -
  have "case fmlookup (agents scn_running) ''agt_1'' of None \<Rightarrow> True | Some a \<Rightarrow> ''trigger.create_mission'' \<notin> set (a_TriggerScopes a)"
    by code_simp
  then have "\<not> may_trigger (ac_ID (in_Source demo_intent)) ScopeCreateMission scn_running"
    by (auto simp: may_trigger_def demo_intent_def worker_def ScopeCreateMission_def)
  with intent_authorised [of demo_intent DefaultConfig sorted_list_of_fset "''msn_7''" "''sub_7''" 50 scn_running] show ?thesis
    by (simp add: demo_intent_def worker_def intent_scope_def IntentCreateMission_def)
qed

section \<open>Idempotent creation\<close>

lemma fold_created_idem: "idem (fold (created_subtask m actor now) subs s) = idem s"
  by (induction subs arbitrary: s) (simp_all add: created_subtask_def)

lemma CreateMission_tables:
  "CreateMission m subs actor now s = (Inr r, t) \<Longrightarrow> missions t = fmupd (m_ID m) m (missions s)"
  "idem (snd (CreateMission m subs actor now s)) = idem s"
  by (auto simp: CreateMission_def Let_def fold_created_subtasks fold_created_idem split: option.splits)

lemma activate_frames:
  "idem (snd (activateMissionRoots ord i actor now u)) = idem u"
  "missions (snd (activateMissionRoots ord i actor now u)) = missions u"
  unfolding activateMissionRoots_def
  by (rule for_each_inv [where I = "\<lambda>v. idem v = idem u"] for_each_inv [where I = "\<lambda>v. missions v = missions u"];
      auto simp: activate_root_def tolerate_conflict_def TransitionSubtask_def Let_def split: prod.splits sum.splits option.splits)+

lemma activate_missions:
  assumes "valid_order ord" "store_wf s"
  shows "\<exists>s'. activateMissionRoots ord ident actor now s = (Inr (), s') \<and> missions s' = missions s
    \<and> fmdom (subtasks s') = fmdom (subtasks s) \<and> idem s' = idem s"
proof -
  let ?g = "\<lambda>x. if st_State x = StatePending \<and> st_DependsOn x = [] then released x else x"
  have "\<exists>s'. for_each (activate_root actor now) (ListSubtasks ord ident s) s = (Inr (), s') \<and> missions s' = missions s
    \<and> (\<forall>k. fmlookup (subtasks s') k = map_option (\<lambda>sub. if st_MissionID sub = ident then ?g sub else sub) (fmlookup (subtasks s) k))"
  proof (rule listing_loop [OF assms])
    fix x :: Subtask and u :: Store
    assume a: "missions u = missions s" and b: "fmlookup (subtasks u) (st_ID x) = Some x"
    from activate_root_exact [OF b, of actor now]
    show "\<exists>u'. activate_root actor now x u = (Inr (), u') \<and> missions u' = missions s
      \<and> (\<forall>k. fmlookup (subtasks u') k = (if k = st_ID x then Some (?g x) else fmlookup (subtasks u) k))"
      unfolding a .
  qed simp
  then obtain s' where s': "activateMissionRoots ord ident actor now s = (Inr (), s')"
    "\<forall>k. fmlookup (subtasks s') k = map_option (\<lambda>sub. if st_MissionID sub = ident then ?g sub else sub) (fmlookup (subtasks s) k)"
    unfolding activateMissionRoots_def by blast
  have "k |\<in>| fmdom (subtasks s') \<longleftrightarrow> k |\<in>| fmdom (subtasks s)" for k by (simp add: fmlookup_dom_iff s'(2))
  then have "fmdom (subtasks s') = fmdom (subtasks s)" by (intro fset_eqI)
  with s'(1) activate_frames [of ord ident actor now s] show ?thesis by simp
qed

lemma createMission_mission:
  assumes "createMission ord ident actor owner goal b tasks now s = (Inr m, t)"
  shows "fmlookup (missions t) ident = Some m"
proof -
  from assms obtain r u v where u: "CreateMission m (map (mission_subtask ident) tasks) actor now s = (Inr r, u)" "m_ID m = ident"
    "activateMissionRoots ord ident actor now u = (Inr v, t)"
    by (auto simp: createMission_def Let_def and_then_Inr split: if_splits sum.splits)
  with CreateMission_tables(1) [OF u(1)] activate_frames(2) [of ord ident actor now u] show ?thesis by simp
qed

lemma createMission_idem: "idem (snd (createMission ord ident actor owner goal b tasks now s)) = idem s"
proof -
  let ?m = "\<lparr>m_ID = ident, m_Owner = owner, m_Goal = goal, m_BudgetTokens = b, m_Status = MissionActive, m_Version = 0\<rparr>"
  have "idem (snd (and_then (CreateMission ?m (map (mission_subtask ident) tasks) actor now s) (\<lambda>_ s.
      and_then (activateMissionRoots ord ident actor now s) (\<lambda>_ s. (Inr ?m, s))))) = idem s"
    by (intro and_then_inv [where I = "\<lambda>u :: Store. idem u = idem s"]) (simp_all add: CreateMission_tables(2) activate_frames(1))
  then show ?thesis by (simp add: createMission_def Let_def split: sum.splits)
qed

lemma intentCreateMission_Inr:
  assumes "intentCreateMission ord newid inp now s = (Inr r, t)"
  shows "in_IdempotencyKey inp \<noteq> '''' \<and> fmlookup (idem t) (''intent-'' @ in_IdempotencyKey inp) = Some (ir_MissionID r)
    \<and> (\<exists>m. fmlookup (missions t) (ir_MissionID r) = Some m)"
proof -
  let ?key = "''intent-'' @ in_IdempotencyKey inp"
  let ?create = "\<lambda>ident. createMission ord ident (in_Source inp) (in_Owner inp) (in_Goal inp) (in_BudgetTokens inp) (in_Tasks inp) now"
  have ne: "in_IdempotencyKey inp \<noteq> ''''" using assms by (auto simp: intentCreateMission_def split: if_splits)
  show ?thesis
  proof (cases "fmlookup (idem s) ?key")
    case None
    let ?s = "s\<lparr>idem := fmupd ?key newid (idem s)\<rparr>"
    from assms None obtain m where c: "?create newid ?s = (Inr m, t)" "ir_MissionID r = newid"
      by (auto simp: intentCreateMission_def PutIdempotent_def Let_def and_then_Inr split: if_splits sum.splits)
    with createMission_mission [OF c(1)] createMission_idem [of ord newid "in_Source inp" "in_Owner inp" "in_Goal inp"
        "in_BudgetTokens inp" "in_Tasks inp" now ?s] ne show ?thesis by simp
  next
    case (Some existing)
    let ?fix = "case GetMission existing s of
        Inr _ \<Rightarrow> (Inr (), s)
      | Inl e \<Rightarrow> if e = ErrNotFound then
          (case ?create existing s of (Inr _, s) \<Rightarrow> (Inr (), s)
           | (Inl createErr, s) \<Rightarrow> (case GetMission existing s of Inl _ \<Rightarrow> (Inl createErr, s) | Inr _ \<Rightarrow> (Inr (), s)))
        else (Inl e, s)"
    from assms Some obtain u where u: "?fix = (Inr (), u)" "activateMissionRoots ord existing (in_Source inp) now u = (Inr (), t)"
      "ir_MissionID r = existing"
      by (auto simp: intentCreateMission_def PutIdempotent_def Let_def and_then_Inr split: if_splits sum.splits)
    have "idem (snd ?fix) = idem s"
      using createMission_idem [of ord existing "in_Source inp" "in_Owner inp" "in_Goal inp" "in_BudgetTokens inp" "in_Tasks inp" now s]
      by (auto split: sum.splits prod.splits)
    moreover have "\<exists>m. fmlookup (missions u) existing = Some m"
      using u(1) createMission_mission [of ord existing "in_Source inp" "in_Owner inp" "in_Goal inp" "in_BudgetTokens inp" "in_Tasks inp" now s]
      by (auto simp: GetMission_def split: sum.splits prod.splits option.splits if_splits)
    ultimately show ?thesis
      using u activate_frames [of ord existing "in_Source inp" now u] Some ne by simp
  qed
qed

text \<open>Resubmitting a creation creates nothing. Once a create intent has succeeded, any later intent with the same idempotency key
  that passes validation, whatever it asks for and whatever has happened in between, is answered with the id of that first
  mission and marked as a duplicate; no mission and no subtask is added, and the key table is unchanged.\<close>

theorem create_intent_idempotent:
  assumes "intentCreateMission ord newid inp now s = (Inr r, t)" "reachable t" "reaches t u" "valid_order ord"
    and "in_IdempotencyKey inp2 = in_IdempotencyKey inp" "in_Owner inp2 \<noteq> ''''" "in_Goal inp2 \<noteq> ''''" "in_Tasks inp2 \<noteq> []"
    and "0 \<le> in_BudgetTokens inp2" "validateDAG (in_Tasks inp2) = Inr ()"
  shows "\<exists>u'. intentCreateMission ord newid2 inp2 now2 u =
      (Inr \<lparr>ir_MissionID = ir_MissionID r, ir_SubtaskID = '''', ir_Deduplicated = True\<rparr>, u')
    \<and> missions u' = missions u \<and> fmdom (subtasks u') = fmdom (subtasks u) \<and> idem u' = idem u"
proof -
  let ?key = "''intent-'' @ in_IdempotencyKey inp"
  have first: "in_IdempotencyKey inp \<noteq> ''''" "fmlookup (idem t) ?key = Some (ir_MissionID r)"
    "\<exists>m. fmlookup (missions t) (ir_MissionID r) = Some m"
    using intentCreateMission_Inr [OF assms(1)] by simp_all
  note hist = reachable_history [OF assms(2,3)]
  from hist first(2) have key: "fmlookup (idem u) ?key = Some (ir_MissionID r)"
    by (auto simp: history_def dest: evolvesD)
  from hist first(3) obtain m where m: "fmlookup (missions u) (ir_MissionID r) = Some m"
    by (auto simp: history_def dest: evolvesD)
  have "store_wf u" by (rule reachable_wf [OF reachable_run [OF assms(2,3)]])
  from activate_missions [OF assms(4) this] obtain u' where
    "activateMissionRoots ord (ir_MissionID r) (in_Source inp2) now2 u = (Inr (), u')" "missions u' = missions u"
    "fmdom (subtasks u') = fmdom (subtasks u)" "idem u' = idem u" by blast
  with key m assms(5-10) first(1) show ?thesis
    by (simp add: intentCreateMission_def PutIdempotent_def GetMission_def Let_def)
qed

definition human_intent :: Intent where
  "human_intent = demo_intent\<lparr>in_Source := ann\<rparr>"

definition intent_done :: Store where
  "intent_done = snd (intentCreateMission sorted_list_of_fset ''msn_7'' human_intent 10 New)"

lemma intent_done_ok: "\<not> isl (fst (intentCreateMission sorted_list_of_fset ''msn_7'' human_intent 10 New))"
  "validateDAG demo_tasks = Inr ()" "demo_tasks \<noteq> []"
  by code_simp+

lemma reachable_intent_done: "reachable intent_done"
proof -
  let ?s = "snd (PutIdempotent ''intent-k1'' ''msn_7'' New)"
  have "reachable ?s" by (rule reachable_step [OF reachable_New step_PutIdempotent])
  moreover have "fresh_mission ident tasks ?s" for ident tasks
    by (simp add: fresh_mission_def PutIdempotent_def New_def)
  ultimately have "reaches New (snd (createMission sorted_list_of_fset ''msn_7'' ann ''ann'' ''ship'' 0 demo_tasks 10 ?s))"
    unfolding reachable_def by (intro run_create) (simp_all add: in_int64_def)
  moreover have "intent_done = snd (createMission sorted_list_of_fset ''msn_7'' ann ''ann'' ''ship'' 0 demo_tasks 10 ?s)"
    using intent_done_ok(2,3)
    by (simp add: intent_done_def intentCreateMission_def human_intent_def demo_intent_def PutIdempotent_def New_def Let_def
        and_then_def split: prod.splits sum.splits)
  ultimately show ?thesis by (simp add: reachable_def)
qed

theorem create_intent_idempotent_witness:
  "\<exists>r u'. fst (intentCreateMission sorted_list_of_fset ''msn_7'' human_intent 10 New) = Inr r
     \<and> intentCreateMission sorted_list_of_fset ''msn_8'' human_intent 20 intent_done =
         (Inr \<lparr>ir_MissionID = ir_MissionID r, ir_SubtaskID = '''', ir_Deduplicated = True\<rparr>, u')
     \<and> missions u' = missions intent_done"
proof -
  obtain r where r: "intentCreateMission sorted_list_of_fset ''msn_7'' human_intent 10 New = (Inr r, intent_done)"
    using intent_done_ok(1) unfolding intent_done_def by (metis isl_def prod.collapse sum.exhaust_sel)
  from create_intent_idempotent [OF r reachable_intent_done reaches_refl valid_order_sorted refl, of "''msn_8''" 20] intent_done_ok r
  show ?thesis by (auto simp: human_intent_def demo_intent_def)
qed

section \<open>Key spaces\<close>

lemma createMission_ok:
  assumes "reachable s" "valid_order ord" "fresh_mission ident tasks s" "in_int64 b" "0 \<le> b" "validateDAG tasks = Inr ()"
    and "fmlookup (missions s) ident = None"
  shows "\<exists>m t. createMission ord ident actor owner goal b tasks now s = (Inr m, t) \<and> reachable t
    \<and> fmlookup (missions t) ident = Some m \<and> m_Goal m = goal"
proof -
  let ?m = "\<lparr>m_ID = ident, m_Owner = owner, m_Goal = goal, m_BudgetTokens = b, m_Status = MissionActive, m_Version = 0\<rparr>"
  let ?new = "map (mission_subtask ident) tasks"
  obtain u where u: "CreateMission ?m ?new actor now s = (Inr (), u)"
    using assms(7) by (auto simp: CreateMission_def Let_def)
  have "mem_step s u"
    using step_CreateMission [OF fresh_mission_subtasks [OF assms(3) validateDAG_distinct [OF assms(6)]], of owner goal b
        MissionActive 0 actor now] assms(4) u by simp
  then have "reachable u" by (rule reachable_step [OF assms(1)])
  from activate_missions [OF assms(2) reachable_wf [OF this], of ident actor now] obtain t where
    t: "activateMissionRoots ord ident actor now u = (Inr (), t)" "missions t = missions u" by blast
  have "createMission ord ident actor owner goal b tasks now s = (Inr ?m, t)"
    using assms(5,6) u t(1) by (simp add: createMission_def Let_def)
  moreover have "reachable t"
    using run_create [of New s ident tasks b ord actor owner goal now] assms(1,3,4) calculation by (simp add: reachable_def)
  moreover have "fmlookup (missions t) ident = Some ?m" using CreateMission_tables(1) [OF u] t(2) by simp
  ultimately show ?thesis by auto
qed

text \<open>The key space of delegations is not separate from that of creations, although the prefix \<open>intent-delegate-\<close> is meant to make
  it so: a create intent with the key \<open>delegate-Y\<close> and a delegation with the key \<open>Y\<close> use the same entry. After the delegation
  has taken it for its child \<open>c\<close>, the create intent takes \<open>c\<close> for its own mission, finds no mission of that id, and creates
  one whose id is the id of a subtask.\<close>

theorem delegate_key_collides:
  assumes "reachable s" "valid_order ord" "fmlookup (idem s) (''intent-delegate-'' @ y) = Some c"
    and "fmlookup (missions s) c = None" "fresh_mission c (in_Tasks inp) s"
    and "in_IdempotencyKey inp = ''delegate-'' @ y" "in_Owner inp \<noteq> ''''" "in_Goal inp \<noteq> ''''" "in_Tasks inp \<noteq> []"
    and "0 \<le> in_BudgetTokens inp" "in_int64 (in_BudgetTokens inp)" "validateDAG (in_Tasks inp) = Inr ()"
  shows "\<exists>t m. intentCreateMission ord newid inp now s = (Inr \<lparr>ir_MissionID = c, ir_SubtaskID = '''', ir_Deduplicated = True\<rparr>, t)
    \<and> fmlookup (missions t) c = Some m \<and> m_Goal m = in_Goal inp"
proof -
  from createMission_ok [OF assms(1,2,5,11,10,12,4), of "in_Source inp" "in_Owner inp" "in_Goal inp" now] obtain m u where
    u: "createMission ord c (in_Source inp) (in_Owner inp) (in_Goal inp) (in_BudgetTokens inp) (in_Tasks inp) now s = (Inr m, u)"
    "reachable u" "fmlookup (missions u) c = Some m" "m_Goal m = in_Goal inp" by blast
  from activate_missions [OF assms(2) reachable_wf [OF u(2)], of c "in_Source inp" now] obtain t where
    t: "activateMissionRoots ord c (in_Source inp) now u = (Inr (), t)" "missions t = missions u" by blast
  have "intentCreateMission ord newid inp now s = (Inr \<lparr>ir_MissionID = c, ir_SubtaskID = '''', ir_Deduplicated = True\<rparr>, t)"
    using assms(3,4,6-10,12) u(1) t(1) by (simp add: intentCreateMission_def PutIdempotent_def GetMission_def Let_def)
  with t(2) u(3,4) show ?thesis by auto
qed

definition collide_intent :: Intent where
  "collide_intent = human_intent\<lparr>in_IdempotencyKey := ''delegate-k''\<rparr>"

definition scn_delegated :: Store where
  "scn_delegated = snd (SpawnSubtask ''intent-delegate-k'' ''sub_a'' 1 4 demo_child worker 27 scn_running)"

lemma reachable_delegated: "reachable scn_delegated"
  unfolding scn_delegated_def
  by (rule reachable_step [OF reachable_running step_SpawnSubtask]) (simp_all add: demo_child_def zero_subtask_def in_int64_def)

lemma scn_delegated_facts:
  "fmlookup (idem scn_delegated) ''intent-delegate-k'' = Some ''sub_c''"
  "fmlookup (missions scn_delegated) ''sub_c'' = None"
  "fmpred (\<lambda>k x. st_MissionID x \<noteq> ''sub_c'') (subtasks scn_delegated)"
  "list_all (\<lambda>t. fmlookup (subtasks scn_delegated) (subID ''sub_c'' (t_Name t)) = None) demo_tasks"
  by code_simp+

theorem delegate_key_collides_witness:
  "\<exists>t m. intentCreateMission sorted_list_of_fset ''msn_8'' collide_intent 50 scn_delegated =
      (Inr \<lparr>ir_MissionID = ''sub_c'', ir_SubtaskID = '''', ir_Deduplicated = True\<rparr>, t)
    \<and> fmlookup (missions t) ''sub_c'' = Some m \<and> m_Goal m = ''ship''"
proof -
  have "fresh_mission ''sub_c'' (in_Tasks collide_intent) scn_delegated"
    using scn_delegated_facts(3,4)
    by (auto simp: fresh_mission_def collide_intent_def human_intent_def demo_intent_def list_all_iff)
  from delegate_key_collides [OF reachable_delegated valid_order_sorted _ scn_delegated_facts(2) this, of "''k''" "''msn_8''" 50]
    scn_delegated_facts(1) intent_done_ok show ?thesis
    by (simp add: collide_intent_def human_intent_def demo_intent_def in_int64_def)
qed

end
