(* ===== verification/DelegateProps.thy ===== *)
theory DelegateProps
  imports AdmissionProps
begin

text \<open>
  Delegation: the limits check ends on every forest of rework links, and an accepted delegation adds one subtask under
  the authority of its parent and within the depth and fan-out limits.
\<close>

section \<open>Rework chains\<close>

text \<open>Every rework link leads to a stored subtask of smaller rank.\<close>

definition rework_ranked :: "(string \<Rightarrow> nat) \<Rightarrow> Store \<Rightarrow> bool" where
  "rework_ranked rank s \<longleftrightarrow> (\<forall>k x. fmlookup (subtasks s) k = Some x \<longrightarrow> st_ReworkOf x \<noteq> ''''
     \<longrightarrow> fmlookup (subtasks s) (st_ReworkOf x) \<noteq> None \<and> rank (st_ReworkOf x) < rank k)"

definition rework_wf :: "Store \<Rightarrow> bool" where
  "rework_wf s \<longleftrightarrow> (\<exists>rank. rework_ranked rank s)"

lemma by_ids_Some:
  "by_ids subs k = Some x \<Longrightarrow> x \<in> set subs \<and> st_ID x = k"
  by (auto simp: by_ids_def dest!: map_of_SomeD)

lemma by_ids_stored:
  assumes "valid_order ord" "store_wf s" "by_ids (ListSubtasks ord m s) k = Some x"
  shows "fmlookup (subtasks s) k = Some x"
  using by_ids_Some [OF assms(3)] by (auto simp: ListSubtasks_member [OF assms(1,2)])

lemma rework_chain_ends:
  assumes "valid_order ord" "store_wf s" "rework_ranked rank s"
  shows "fmlookup (subtasks s) (st_ID x) = Some x \<Longrightarrow> \<exists>n. rework_chain (by_ids (ListSubtasks ord m s)) x c = Some n"
proof (induction "rank (st_ID x)" arbitrary: x c rule: less_induct)
  case less
  let ?by = "by_ids (ListSubtasks ord m s)"
  show ?case
  proof (cases "st_ReworkOf x = ''''")
    case True
    then show ?thesis by (simp add: rework_chain.simps)
  next
    case False
    show ?thesis
    proof (cases "?by (st_ReworkOf x)")
      case None
      with False show ?thesis by (simp add: rework_chain.simps)
    next
      case (Some y)
      from by_ids_stored [OF assms(1,2) Some] by_ids_Some [OF Some]
      have y: "fmlookup (subtasks s) (st_ID y) = Some y" "st_ID y = st_ReworkOf x" by simp_all
      have "rank (st_ReworkOf x) < rank (st_ID x)" using assms(3) less.prems False by (simp add: rework_ranked_def)
      with y less.hyps [of y "c + 1"] obtain n where "rework_chain ?by y (c + 1) = Some n" by auto
      with False Some show ?thesis by (subst rework_chain.simps) simp
    qed
  qed
qed

lemma limits_end:
  assumes "valid_order ord" "store_wf s" "rework_wf s"
  shows "\<exists>r. checkDelegateLimits cfg ord parent task (ListSubtasks ord m s) s = Some r"
proof -
  obtain rank where rank: "rework_ranked rank s" using assms(3) by (auto simp: rework_wf_def)
  have "\<exists>n. rework_chain (by_ids (ListSubtasks ord m s)) y c = Some n"
    if "by_ids (ListSubtasks ord m s) k = Some y" for k y c
    using rework_chain_ends [OF assms(1,2) rank] by_ids_stored [OF assms(1,2) that] by_ids_Some [OF that] by auto
  then show ?thesis
    by (auto simp: checkDelegateLimits_def Let_def split: option.splits)
qed

section \<open>Accepted delegations\<close>

lemma SpawnSubtask_Inl: "SpawnSubtask key pid tok ver child actor now s = (Inl e, t) \<Longrightarrow> t = s"
  by (auto simp: SpawnSubtask_def Let_def split: option.splits sum.splits if_splits)

lemma SpawnSubtask_Inr:
  assumes "SpawnSubtask key pid tok ver child actor now s = (Inr r, t)"
  shows "\<exists>parent lease. fmlookup (subtasks s) pid = Some parent \<and> st_Version parent = ver \<and> st_State parent = StateRunning
    \<and> checkFencingLocked parent tok s = Inr lease \<and> l_AgentID lease = ac_ID actor \<and> time_after (l_ExpiresAt lease) now
    \<and> PermissionEnvelopeSubset (st_Grants parent) (st_Grants child) \<and> fmlookup (subtasks s) (st_ID child) = None
    \<and> subtasks t = fmupd (st_ID child) (child\<lparr>st_State := StateReady, st_Version := 1\<rparr>) (subtasks s)"
  using assms by (auto simp: SpawnSubtask_def Let_def split: option.splits sum.splits if_splits)

lemma findRunning_Inr:
  assumes "valid_order ord" "store_wf s" "findRunning ord k s = Inr x"
  shows "fmlookup (subtasks s) k = Some x \<and> st_State x = StateRunning \<and> st_ID x = k"
proof -
  from assms(3) have "find (\<lambda>x. st_ID x = k) (ListSubtasksByState ord StateRunning s) = Some x"
    by (auto simp: findRunning_def split: option.splits)
  then have "x \<in> set (ListSubtasksByState ord StateRunning s)" "st_ID x = k" by (auto simp: find_Some_iff)
  then show ?thesis by (auto simp: ListSubtasksByState_member [OF assms(1,2)])
qed

text \<open>What every answer of a delegate intent amounts to.\<close>

definition delegation :: "Config \<Rightarrow> order \<Rightarrow> string \<Rightarrow> Intent \<Rightarrow> time \<Rightarrow> Store \<Rightarrow> Subtask \<Rightarrow> DelegateSpec \<Rightarrow> Store \<Rightarrow> bool" where
  "delegation cfg ord newid inp now s parent task t \<longleftrightarrow>
     in_Task inp = Some task \<and> fmlookup (subtasks s) (in_ParentSubtaskID inp) = Some parent \<and> st_State parent = StateRunning
     \<and> ac_Kind (in_Source inp) = ''agent''
     \<and> (\<exists>m. fmlookup (missions s) (st_MissionID parent) = Some m \<and> m_Status m = MissionActive)
     \<and> (\<exists>grants r. checkDelegateLimits cfg ord parent task (ListSubtasks ord (st_MissionID parent) s) s = Some (Inr ())
          \<and> SpawnSubtask (''intent-delegate-'' @ in_IdempotencyKey inp) (st_ID parent) (in_FencingToken inp) (in_ParentVersion inp)
              (delegated_child newid parent task grants) \<lparr>ac_Kind = ac_Kind (in_Source inp), ac_ID = ac_ID (in_Source inp)\<rparr> now s
            = (Inr r, t))"

lemma intentDelegate_cases:
  assumes "valid_order ord" "store_wf s" "intentDelegate cfg ord newid inp now s = Some (r, t)"
  shows "t = s \<and> (\<forall>x. r = Inr x \<longrightarrow> ir_Deduplicated x)
    \<or> (\<exists>parent task. delegation cfg ord newid inp now s parent task t
         \<and> (\<exists>x. r = Inr x \<and> ir_MissionID x = st_MissionID parent \<and> \<not> ir_Deduplicated x
              \<and> ir_SubtaskID x = st_ID (delegated_child newid parent task (ds_Grants task))))"
proof -
  have child_id: "st_ID (delegated_child newid parent task g) = st_ID (delegated_child newid parent task g')" for parent task g g'
    by (simp add: delegated_child_def)
  from assms(3) show ?thesis
    unfolding intentDelegate_def Let_def
    by (auto simp: delegation_def GetMission_def dest!: findRunning_Inr [OF assms(1,2)] SpawnSubtask_Inl
        split: if_splits option.splits sum.splits prod.splits intro: child_id)
qed

lemma delegated_child_simps [simp]:
  "st_ReworkOf (delegated_child newid parent task g) = ds_ReworkOf task"
  "st_ParentID (delegated_child newid parent task g) = st_ID parent"
  "st_MissionID (delegated_child newid parent task g) = st_MissionID parent"
  "st_Grants (delegated_child newid parent task g) = g"
  "BudgetTokens (st_Scheduling (delegated_child newid parent task g)) = ds_BudgetTokens task"
  by (simp_all add: delegated_child_def zero_subtask_def)

lemma limits_origin:
  assumes "valid_order ord" "store_wf s" "checkDelegateLimits cfg ord parent task (ListSubtasks ord m s) s = Some (Inr ())"
    and "ds_ReworkOf task \<noteq> ''''"
  shows "\<exists>y. fmlookup (subtasks s) (ds_ReworkOf task) = Some y \<and> st_ParentID y = st_ID parent"
proof -
  obtain y where "by_ids (ListSubtasks ord m s) (ds_ReworkOf task) = Some y" "st_ParentID y = st_ID parent"
    using assms(3,4) by (auto simp: checkDelegateLimits_def Let_def split: if_splits option.splits)
  with by_ids_stored [OF assms(1,2)] show ?thesis by blast
qed

lemma rework_wf_spawn:
  assumes "rework_wf s" "fmlookup (subtasks s) k = None" "subtasks t = fmupd k c (subtasks s)"
    and "st_ReworkOf c \<noteq> '''' \<Longrightarrow> fmlookup (subtasks s) (st_ReworkOf c) \<noteq> None"
  shows "rework_wf t"
proof -
  obtain rank where rank: "rework_ranked rank s" using assms(1) by (auto simp: rework_wf_def)
  have "rework_ranked (rank(k := Suc (rank (st_ReworkOf c)))) t"
    unfolding rework_ranked_def
  proof (intro allI impI)
    fix k' x
    assume a: "fmlookup (subtasks t) k' = Some x" "st_ReworkOf x \<noteq> ''''"
    show "fmlookup (subtasks t) (st_ReworkOf x) \<noteq> None
      \<and> (rank(k := Suc (rank (st_ReworkOf c)))) (st_ReworkOf x) < (rank(k := Suc (rank (st_ReworkOf c)))) k'"
    proof (cases "k' = k")
      case True
      with a assms have "x = c" "fmlookup (subtasks s) (st_ReworkOf c) \<noteq> None" by auto
      moreover from this assms(2) have "st_ReworkOf c \<noteq> k" by auto
      ultimately show ?thesis using True assms(3) by simp
    next
      case False
      with a assms(3) have old: "fmlookup (subtasks s) k' = Some x" by simp
      with rank a(2) have "fmlookup (subtasks s) (st_ReworkOf x) \<noteq> None" "rank (st_ReworkOf x) < rank k'"
        by (auto simp: rework_ranked_def)
      moreover from this(1) assms(2) have "st_ReworkOf x \<noteq> k" by auto
      ultimately show ?thesis using False assms(3) by simp
    qed
  qed
  then show ?thesis unfolding rework_wf_def by blast
qed

text \<open>The delegate pipeline always returns. The loop along the rework chain has no bound in the code; from a reachable store whose
  rework links form a forest, \<open>intentDelegate\<close> terminates for every intent, and the store it leaves has a forest of rework
  links again, so it never runs into a cycle however often it is called: a child can only rework a subtask that exists, and a
  child id that exists is refused.\<close>

theorem delegate_terminates:
  assumes "reachable s" "valid_order ord" "rework_wf s"
  shows "\<exists>r t. intentDelegate cfg ord newid inp now s = Some (r, t) \<and> rework_wf t"
proof -
  note wf = reachable_wf [OF assms(1)]
  have total: "\<exists>x. intentDelegate cfg ord newid inp now s = Some x"
  proof -
    have "checkDelegateLimits cfg ord parent task (ListSubtasks ord m s) s = None \<longleftrightarrow> False" for parent task m
      using limits_end [OF assms(2) wf assms(3)] by (metis option.distinct(1))
    then show ?thesis by (auto simp: intentDelegate_def Let_def simp del: not_None_eq split: option.splits sum.splits)
  qed
  then obtain r t where rt: "intentDelegate cfg ord newid inp now s = Some (r, t)" by (metis surj_pair)
  from intentDelegate_cases [OF assms(2) wf rt] have "rework_wf t"
  proof
    assume "\<exists>parent task. delegation cfg ord newid inp now s parent task t
         \<and> (\<exists>x. r = Inr x \<and> ir_MissionID x = st_MissionID parent \<and> \<not> ir_Deduplicated x
              \<and> ir_SubtaskID x = st_ID (delegated_child newid parent task (ds_Grants task)))"
    then obtain parent task grants r' where
      l: "checkDelegateLimits cfg ord parent task (ListSubtasks ord (st_MissionID parent) s) s = Some (Inr ())" and
      sp: "SpawnSubtask (''intent-delegate-'' @ in_IdempotencyKey inp) (st_ID parent) (in_FencingToken inp) (in_ParentVersion inp)
        (delegated_child newid parent task grants) \<lparr>ac_Kind = ac_Kind (in_Source inp), ac_ID = ac_ID (in_Source inp)\<rparr> now s
        = (Inr r', t)"
      by (auto simp: delegation_def)
    from SpawnSubtask_Inr [OF sp] limits_origin [OF assms(2) wf l] show ?thesis
      by (auto intro!: rework_wf_spawn [OF assms(3)])
  qed (use assms(3) in simp)
  with rt show ?thesis by blast
qed

definition delegate_intent :: Intent where
  "delegate_intent = demo_intent\<lparr>in_Action := ''delegate'', in_ParentSubtaskID := ''sub_a'', in_FencingToken := 1, in_ParentVersion := 4,
     in_Task := Some \<lparr>ds_Name = '''', ds_RequiredSkills = [], ds_Input = fmempty, ds_Priority = 0, ds_Deadline = None,
       ds_MaxAttempts = 1, ds_BudgetTokens = 30, ds_Grants = zero_grants, ds_ReworkOf = '''', ds_Feedback = ''''\<rparr>\<rparr>"

lemma rework_wf_running: "rework_wf scn_running"
proof -
  have "fmpred (\<lambda>k x. st_ReworkOf x = '''') (subtasks scn_running)" by code_simp
  then have "rework_ranked (\<lambda>_. 0) scn_running" by (fastforce simp: rework_ranked_def)
  then show ?thesis unfolding rework_wf_def by blast
qed

theorem delegate_terminates_witness:
  "\<exists>r t. intentDelegate DefaultConfig sorted_list_of_fset ''sub_7'' delegate_intent 28 scn_running = Some (r, t) \<and> rework_wf t"
  by (rule delegate_terminates [OF reachable_running valid_order_sorted rework_wf_running])

section \<open>Authority and limits\<close>

text \<open>The parent chain of a subtask inside its mission has at most \<open>n\<close> links.\<close>

fun chain_within :: "(string \<Rightarrow> Subtask option) \<Rightarrow> nat \<Rightarrow> Subtask \<Rightarrow> bool" where
  "chain_within byID 0 sub \<longleftrightarrow> st_ParentID sub = ''''"
| "chain_within byID (Suc n) sub \<longleftrightarrow> st_ParentID sub = ''''
     \<or> (case byID (st_ParentID sub) of None \<Rightarrow> True | Some p \<Rightarrow> chain_within byID n p)"

lemma climb_ge: "depth \<le> climb n byID sub depth"
  by (induction n byID sub depth rule: climb.induct) (auto split: option.splits)

lemma climb_within:
  "climb n byID sub depth \<le> depth + int k \<Longrightarrow> k < n \<Longrightarrow> chain_within byID k sub"
proof (induction k arbitrary: n sub depth)
  case 0
  then obtain n' where "n = Suc n'" by (cases n) auto
  show ?case
  proof (rule ccontr)
    assume "\<not> chain_within byID 0 sub"
    then have "depth + 1 \<le> climb n byID sub depth"
      using \<open>n = Suc n'\<close> climb_ge [of "depth + 1" n' byID] by (auto split: option.splits)
    with 0 show False by simp
  qed
next
  case (Suc k)
  then obtain n' where n: "n = Suc n'" "k < n'" by (cases n) auto
  show ?case
  proof (cases "st_ParentID sub = ''''")
    case False
    show ?thesis
    proof (cases "byID (st_ParentID sub)")
      case (Some p)
      with Suc.prems(1) False n have "climb n' byID p (depth + 1) \<le> depth + 1 + int k" by simp
      from Suc.IH [OF this n(2)] Some show ?thesis by simp
    qed simp
  qed simp
qed

text \<open>The rework chain from a subtask has at most \<open>n\<close> links.\<close>

fun rework_within :: "(string \<Rightarrow> Subtask option) \<Rightarrow> nat \<Rightarrow> Subtask \<Rightarrow> bool" where
  "rework_within byID 0 sub \<longleftrightarrow> st_ReworkOf sub = '''' \<or> byID (st_ReworkOf sub) = None"
| "rework_within byID (Suc n) sub \<longleftrightarrow> st_ReworkOf sub = ''''
     \<or> (case byID (st_ReworkOf sub) of None \<Rightarrow> True | Some x \<Rightarrow> rework_within byID n x)"

lemma rework_chain_counts:
  assumes "rework_chain byID sub chain = Some c"
  shows "chain \<le> c \<and> rework_within byID (nat (c - chain)) sub"
proof (rule rework_chain.raw_induct [where P = "\<lambda>byID sub chain c. chain \<le> c \<and> rework_within byID (nat (c - chain)) sub", OF _ assms])
  fix rework :: "(string \<Rightarrow> Subtask option) \<Rightarrow> Subtask \<Rightarrow> int \<Rightarrow> int option" and byID :: "string \<Rightarrow> Subtask option"
    and sub :: Subtask and chain c :: int
  assume IH: "\<And>byID sub chain c. rework byID sub chain = Some c \<Longrightarrow> chain \<le> c \<and> rework_within byID (nat (c - chain)) sub"
    and c: "(if st_ReworkOf sub = '''' then Some chain
       else case byID (st_ReworkOf sub) of None \<Rightarrow> Some chain | Some prev \<Rightarrow> rework byID prev (chain + 1)) = Some c"
  show "chain \<le> c \<and> rework_within byID (nat (c - chain)) sub"
  proof (cases "st_ReworkOf sub = '''' \<or> byID (st_ReworkOf sub) = None")
    case True
    with c have "c = chain" by (auto split: if_splits)
    with True show ?thesis by simp
  next
    case False
    then obtain x where x: "byID (st_ReworkOf sub) = Some x" by blast
    with False c have "rework byID x (chain + 1) = Some c" by simp
    from IH [OF this] have le: "chain + 1 \<le> c" and "rework_within byID (nat (c - (chain + 1))) x" by simp_all
    moreover have "nat (c - chain) = Suc (nat (c - (chain + 1)))" using le by simp
    ultimately show ?thesis using x by simp
  qed
qed

lemma rework_within_mono: "rework_within byID m sub \<Longrightarrow> m \<le> n \<Longrightarrow> rework_within byID n sub"
proof (induction byID m sub arbitrary: n rule: rework_within.induct)
  case (1 byID sub)
  then show ?case by (cases n) auto
next
  case (2 byID m sub)
  from 2(3) obtain n' where "n = Suc n'" "m \<le> n'" by (cases n) auto
  with 2 show ?case by (auto split: option.splits)
qed

lemma limits_rework:
  assumes "valid_order ord" "store_wf s" "checkDelegateLimits cfg ord parent task (ListSubtasks ord m s) s = Some (Inr ())"
    and "ds_ReworkOf task \<noteq> ''''"
  shows "\<exists>y. fmlookup (subtasks s) (ds_ReworkOf task) = Some y \<and> st_ParentID y = st_ID parent
    \<and> 1 \<le> MaxRework cfg \<and> rework_within (by_ids (ListSubtasks ord m s)) (nat (MaxRework cfg - 1)) y"
proof -
  let ?ids = "by_ids (ListSubtasks ord m s)"
  obtain y c where y: "?ids (ds_ReworkOf task) = Some y" "st_ParentID y = st_ID parent" "rework_chain ?ids y 1 = Some c" "c \<le> MaxRework cfg"
    using assms(3,4) by (auto simp: checkDelegateLimits_def Let_def not_less split: if_splits option.splits)
  from rework_chain_counts [OF y(3)] have c: "1 \<le> c" "rework_within ?ids (nat (c - 1)) y" by simp_all
  have "rework_within ?ids (nat (MaxRework cfg - 1)) y" by (rule rework_within_mono [OF c(2)]) (use y(4) in simp)
  with by_ids_stored [OF assms(1,2) y(1)] y(2,4) c(1) show ?thesis by auto
qed

text \<open>C30: An accepted delegation adds one subtask under its parent's authority. From a reachable store, a delegate intent that is
  answered with a new subtask comes from an agent that holds the ACTIVE, unexpired lease of the RUNNING parent with the token
  it presented, in a mission that is still ACTIVE; the child is new, READY, in the parent's mission, carries permissions
  inside the parent's envelope, and is the only subtask that changes; the parent chain has fewer links than the depth limit, the
  parent had fewer children than the fan-out limit, and a reworked subtask is a child of the same parent whose own rework
  chain leaves room for one more link under the rework limit: the chain from the new subtask has at most \<open>MaxRework\<close> links.\<close>

theorem delegate_intent_safe:
  assumes "reachable s" "valid_order ord" "intentDelegate cfg ord newid inp now s = Some (Inr x, t)" "\<not> ir_Deduplicated x"
    and "1 \<le> MaxDelegateDepth cfg"
  shows "\<exists>parent lease child. fmlookup (subtasks s) (in_ParentSubtaskID inp) = Some parent \<and> st_State parent = StateRunning
    \<and> fmlookup (leases s) (st_LeaseID parent) = Some lease \<and> l_State lease = LeaseActive
    \<and> l_FencingToken lease = in_FencingToken inp \<and> l_AgentID lease = ac_ID (in_Source inp) \<and> time_after (l_ExpiresAt lease) now
    \<and> (\<exists>m. fmlookup (missions s) (st_MissionID parent) = Some m \<and> m_Status m = MissionActive)
    \<and> fmlookup (subtasks s) (ir_SubtaskID x) = None \<and> subtasks t = fmupd (ir_SubtaskID x) child (subtasks s)
    \<and> st_State child = StateReady \<and> st_ParentID child = st_ID parent \<and> st_MissionID child = st_MissionID parent
    \<and> PermissionEnvelopeSubset (st_Grants parent) (st_Grants child)
    \<and> chain_within (by_ids (ListSubtasks ord (st_MissionID parent) s)) (nat (MaxDelegateDepth cfg - 1)) parent
    \<and> CountChildren ord (st_ID parent) s < MaxDelegateFanout cfg
    \<and> (st_ReworkOf child = '''' \<or> (\<exists>y. fmlookup (subtasks s) (st_ReworkOf child) = Some y \<and> st_ParentID y = st_ID parent
          \<and> 1 \<le> MaxRework cfg \<and> rework_within (by_ids (ListSubtasks ord (st_MissionID parent) s)) (nat (MaxRework cfg - 1)) y))"
proof -
  note wf = reachable_wf [OF assms(1)]
  from intentDelegate_cases [OF assms(2) wf assms(3)] assms(4) obtain parent task grants r' where
    d: "fmlookup (subtasks s) (in_ParentSubtaskID inp) = Some parent" "st_State parent = StateRunning"
      "\<exists>m. fmlookup (missions s) (st_MissionID parent) = Some m \<and> m_Status m = MissionActive"
      "checkDelegateLimits cfg ord parent task (ListSubtasks ord (st_MissionID parent) s) s = Some (Inr ())"
      "ir_SubtaskID x = st_ID (delegated_child newid parent task (ds_Grants task))" and
    sp: "SpawnSubtask (''intent-delegate-'' @ in_IdempotencyKey inp) (st_ID parent) (in_FencingToken inp) (in_ParentVersion inp)
        (delegated_child newid parent task grants) \<lparr>ac_Kind = ac_Kind (in_Source inp), ac_ID = ac_ID (in_Source inp)\<rparr> now s
        = (Inr r', t)"
    by (auto simp: delegation_def)
  let ?child = "delegated_child newid parent task grants"
  have id: "ir_SubtaskID x = st_ID ?child" using d(5) by (simp add: delegated_child_def)
  from SpawnSubtask_Inr [OF sp] subtask_key [OF wf d(1)] d(1) obtain lease where
    s: "checkFencingLocked parent (in_FencingToken inp) s = Inr lease" "l_AgentID lease = ac_ID (in_Source inp)"
      "time_after (l_ExpiresAt lease) now" "PermissionEnvelopeSubset (st_Grants parent) grants"
      "fmlookup (subtasks s) (st_ID ?child) = None" "subtasks t = fmupd (st_ID ?child) (?child\<lparr>st_State := StateReady, st_Version := 1\<rparr>) (subtasks s)"
    by auto
  have lease: "fmlookup (leases s) (st_LeaseID parent) = Some lease" "l_State lease = LeaseActive"
    "l_FencingToken lease = in_FencingToken inp"
    using s(1) by (auto simp: checkFencingLocked_def split: option.splits if_splits)
  have lim: "climb (nat (MaxDelegateDepth cfg + 2)) (by_ids (ListSubtasks ord (st_MissionID parent) s)) parent 1 \<le> MaxDelegateDepth cfg"
    "CountChildren ord (st_ID parent) s < MaxDelegateFanout cfg"
    using d(4) by (auto simp: checkDelegateLimits_def Let_def not_less split: if_splits)
  have "chain_within (by_ids (ListSubtasks ord (st_MissionID parent) s)) (nat (MaxDelegateDepth cfg - 1)) parent"
    by (rule climb_within [where depth = 1 and n = "nat (MaxDelegateDepth cfg + 2)"]) (use lim(1) assms(5) in simp_all)
  moreover have "ds_ReworkOf task = '''' \<or> (\<exists>y. fmlookup (subtasks s) (ds_ReworkOf task) = Some y \<and> st_ParentID y = st_ID parent
      \<and> 1 \<le> MaxRework cfg \<and> rework_within (by_ids (ListSubtasks ord (st_MissionID parent) s)) (nat (MaxRework cfg - 1)) y)"
    using limits_rework [OF assms(2) wf d(4)] by blast
  ultimately show ?thesis
    using d(1-3) id s lease lim(2)
    by (intro exI [of _ parent] exI [of _ lease] exI [of _ "?child\<lparr>st_State := StateReady, st_Version := 1\<rparr>"]) simp
qed

lemma delegate_accepted:
  "case intentDelegate DefaultConfig sorted_list_of_fset ''sub_7'' delegate_intent 28 scn_running of
     Some (Inr x, _) \<Rightarrow> \<not> ir_Deduplicated x \<and> ir_SubtaskID x = ''sub_7'' | _ \<Rightarrow> False"
  by code_simp

theorem delegate_intent_safe_witness:
  "\<exists>x t child. intentDelegate DefaultConfig sorted_list_of_fset ''sub_7'' delegate_intent 28 scn_running = Some (Inr x, t)
     \<and> fmlookup (subtasks t) ''sub_7'' = Some child \<and> st_State child = StateReady \<and> st_ParentID child = ''sub_a''"
proof -
  obtain x t where xt: "intentDelegate DefaultConfig sorted_list_of_fset ''sub_7'' delegate_intent 28 scn_running = Some (Inr x, t)"
    "\<not> ir_Deduplicated x" "ir_SubtaskID x = ''sub_7''"
    using delegate_accepted by (auto split: option.splits sum.splits prod.splits)
  have "1 \<le> MaxDelegateDepth DefaultConfig" by (simp add: DefaultConfig_def)
  from delegate_intent_safe [OF reachable_running valid_order_sorted xt(1,2) this] xt subtask_key [OF reachable_wf [OF reachable_running]]
  show ?thesis by (fastforce simp: delegate_intent_def)
qed

end
