(* ===== verification/ServiceRuns.thy ===== *)
theory ServiceRuns
  imports CoreQuery QualityProps DelegateProps
begin

text \<open>
  The service as a state machine: \<open>service_step\<close> has one rule per operation the service exports that can change its state,
  for any arguments. The premises of a rule are what the environment guarantees: the ids \<open>newID\<close> draws are new, amounts
  are 64-bit integers, and the ids of leases have not run out.
\<close>

section \<open>Store runs of the remaining operations\<close>

abbreviation srun :: "Store \<Rightarrow> Service \<Rightarrow> bool" where
  "srun s sv \<equiv> reaches s (sv_st sv)"

lemma run_more_ops [runs]:
  "reaches s u \<Longrightarrow> reaches s (snd (PutArtifact a now u))"
  "reaches s u \<Longrightarrow> reaches s (snd (CreateQualityAppeal ap actor now u))"
  "reaches s u \<Longrightarrow> reaches s (snd (StoreResolveQualityAppeal ident status res rvw actor now u))"
  "reaches s u \<Longrightarrow> reaches s (snd (PutMeterRecord mt now u))"
  "reaches s u \<Longrightarrow> reaches s (snd (IngestLeadInbox item lead tok v mode actor now u))"
  "reaches s u \<Longrightarrow> reaches s (snd (SaveLeadSnapshot lead tok v val ttl actor now u))"
  "reaches s u \<Longrightarrow> reaches s (snd (PutIdempotent key res u))"
  by (erule reaches_step, rule mem_step.intros)+

lemma run_on_store: "reaches s (snd (f (sv_st sv))) \<Longrightarrow> srun s (snd (on_store f sv))"
  by simp

lemma run_gateway: "reaches s u \<Longrightarrow> reaches s (snd (put_gateway now rs records u))"
proof (induction now rs records u rule: put_gateway.induct)
  case (2 now r rs records u)
  show ?case
  proof (cases "mt_Quantity r = 0")
    case False
    then show ?thesis using 2 by (auto intro!: runs)
  qed (use 2 in simp)
qed simp

lemma run_outcome_record: "srun s sv \<Longrightarrow> srun s (recordOutcome sub ok ag lat now sv)"
  unfolding recordOutcome_def by (auto intro!: fold_inv [where I = "srun s"] run_record_signal)

lemma srun_and_then:
  assumes "srun s (snd r)" "\<And>a sv. r = (Inr a, sv) \<Longrightarrow> srun s sv \<Longrightarrow> srun s (snd (f a sv))"
  shows "srun s (snd (and_then r f))"
  by (rule and_then_inv [where I = "srun s"]) (use assms in auto)

lemma srun_on_store_case:
  assumes "on_store f sv = (r, sv')" "reaches s (snd (f (sv_st sv)))"
  shows "srun s sv'"
  using assms by (auto simp: on_store_def split: prod.splits)

section \<open>Execution callbacks\<close>

lemma run_accept: "reaches s u \<Longrightarrow> reaches s (snd (ServiceAcceptLease lid tok v ag now u))"
  by (auto simp: ServiceAcceptLease_def intro!: runs split: sum.splits)

lemma run_start: "reaches s u \<Longrightarrow> reaches s (snd (ServiceStartSubtask ident tok v ag now u))"
  by (auto simp: ServiceStartSubtask_def intro!: runs split: sum.splits)

lemma run_complete:
  assumes "srun s sv" "in_int64 usage"
  shows "srun s (snd (ServiceCompleteSubtaskWithUsage ord ident tok key ref usage v ag now sv))"
proof -
  have st: "reaches s (snd (CompleteSubtaskWithUsage ident tok key ref usage v (agent_actor ag) now (sv_st sv)))"
    by (intro runs assms)
  show ?thesis
  proof (cases "usage < 0 \<or> (\<exists>e. authorizeSubtaskLeaseOwner ident tok ag False (sv_st sv) = Inl e)")
    case True
    then show ?thesis using assms(1) by (auto simp: ServiceCompleteSubtaskWithUsage_def)
  next
    case False
    then obtain cur where cur: "authorizeSubtaskLeaseOwner ident tok ag False (sv_st sv) = Inr cur"
      by (cases "authorizeSubtaskLeaseOwner ident tok ag False (sv_st sv)") auto
    let ?lat = "lease_latency (st_LeaseID cur) now (sv_st sv)"
    obtain r sv1 where r: "on_store (CompleteSubtaskWithUsage ident tok key ref usage v (agent_actor ag) now) sv = (r, sv1)" by fastforce
    note s1 = srun_on_store_case [OF r st]
    have prp: "srun s (snd (on_store (propagate ord sub (agent_actor ag) now) sv2))" if "srun s sv2" for sub sv2
      using that by (auto intro!: runs)
    show ?thesis
    proof (cases r)
      case (Inr sub)
      obtain r2 sv2 where r2: "on_store (propagate ord sub (agent_actor ag) now) sv1 = (r2, sv2)" by fastforce
      with prp [OF s1, of sub] have "srun s sv2" by simp
      with r r2 Inr cur False show ?thesis
        by (cases r2) (auto simp: ServiceCompleteSubtaskWithUsage_def Let_def intro!: run_outcome_record)
    next
      case (Inl eo)
      obtain e osub where eo: "eo = (e, osub)" by fastforce
      show ?thesis
      proof (cases "\<exists>sub. osub = Some sub \<and> e = ErrDuplicate \<and> st_State sub = StateSucceeded")
        case True
        then obtain sub where sub: "osub = Some sub" "e = ErrDuplicate" "st_State sub = StateSucceeded" by blast
        obtain r2 sv2 where r2: "on_store (propagate ord sub (agent_actor ag) now) (recordOutcome sub True ag ?lat now sv1) = (r2, sv2)"
          by fastforce
        with prp [OF run_outcome_record [OF s1], of sub sub True ag ?lat now] have "srun s sv2" by simp
        with r r2 Inl eo sub cur False show ?thesis
          by (cases r2) (auto simp: ServiceCompleteSubtaskWithUsage_def Let_def)
      next
        case no: False
        with r Inl eo cur False s1 show ?thesis
          by (cases osub) (auto simp: ServiceCompleteSubtaskWithUsage_def Let_def)
      qed
    qed
  qed
qed

lemma run_fail:
  assumes "srun s sv"
  shows "srun s (snd (ServiceFailSubtask ord ident tok reason v ag now sv))"
proof (cases "authorizeSubtaskLeaseOwner ident tok ag True (sv_st sv)")
  case (Inl e)
  then show ?thesis using assms by (simp add: ServiceFailSubtask_def)
next
  case cur: (Inr cur)
  obtain r sv1 where r: "on_store (FailSubtask ident tok reason v (agent_actor ag) now) sv = (r, sv1)" by fastforce
  have "reaches s (snd (FailSubtask ident tok reason v (agent_actor ag) now (sv_st sv)))" by (intro runs assms)
  note s1 = srun_on_store_case [OF r this]
  show ?thesis
  proof (cases r)
    case (Inl e)
    with r cur s1 show ?thesis by (simp add: ServiceFailSubtask_def Let_def)
  next
    case (Inr sub)
    let ?sv = "recordOutcome sub False ag (lease_latency (st_LeaseID cur) now (sv_st sv)) now sv1"
    note s2 = run_outcome_record [OF s1, of sub False ag "lease_latency (st_LeaseID cur) now (sv_st sv)" now]
    let ?rt = "on_store (TransitionSubtask (st_ID sub) EvRetried (st_Version sub) (system_actor ''orchestrator'')
        (Some (fmap_of_list [(''reason'', VStr reason)])) now (Some retry_mutate)) ?sv"
    let ?cu = "on_store (cancelUnreachable ord sub (agent_actor ag) now) ?sv"
    let ?dr = "on_store (deriveMissionStatus ord (st_MissionID sub) now)"
    have rt: "srun s (snd ?rt)" using s2 by (auto intro!: runs simp: mutate_ok_def retry_mutate_def)
    have cu: "srun s (snd ?cu)" using s2 by (auto intro!: runs)
    have dr: "srun s (snd (?dr sv2))" if "srun s sv2" for sv2 using that by (auto intro!: runs)
    have "snd (ServiceFailSubtask ord ident tok reason v ag now sv) =
        (if st_Attempt sub < MaxAttempts (st_Retry sub) then snd ?rt
         else case fst ?cu of Inl _ \<Rightarrow> snd ?cu | Inr _ \<Rightarrow> snd (?dr (snd ?cu)))"
      using r cur Inr by (auto simp: ServiceFailSubtask_def Let_def simp del: on_store_fst split: prod.splits sum.splits)
    then show ?thesis using rt cu dr by (auto simp del: on_store_st on_store_fst split: sum.splits)
  qed
qed

section \<open>Scheduling\<close>

lemma run_load: "sv_st (snd (load_reputations ord now ags sv)) = sv_st sv"
proof (induction ord now ags sv rule: load_reputations.induct)
  case (2 ord now a ags sv)
  have c: "sv_st (snd (cachedReputations ord (a_ID a) now sv)) = sv_st sv"
    by (auto simp: cachedReputations_def Let_def split: option.splits sum.splits)
  then show ?case using 2 by (cases "cachedReputations ord (a_ID a) now sv"; cases "fst (cachedReputations ord (a_ID a) now sv)")
    (auto simp: and_then_def split: prod.splits sum.splits, (metis snd_conv)+)
qed simp

lemma OfferLease_seq: "leaseSeq (snd (OfferLease ord dg ident ag v ttl actor now s)) \<le> leaseSeq s + 1"
  by (auto simp: OfferLease_def Let_def split: option.splits sum.splits)

lemma run_place:
  assumes "srun s sv" "leaseSeq (sv_st sv) + int (length ready) < lease_ids"
  shows "srun s (snd (place_all ord dg now ready ags placed sv))"
  using assms
proof (induction ready arbitrary: ags placed sv)
  case (Cons sub ready)
  show ?case
  proof (cases "isHumanKind (st_Kind sub) \<or> pickAgent (sv_strategy sv) ags sub now = None")
    case True
    with Cons show ?thesis by auto
  next
    case False
    then obtain best where best: "pickAgent (sv_strategy sv) ags sub now = Some best" by blast
    let ?o = "OfferLease ord dg (st_ID sub) (a_ID best) (st_Version sub) (OfferTTL (sv_cfg sv)) (system_actor ''scheduler'') now"
    obtain r sv1 where r: "on_store ?o sv = (r, sv1)" by fastforce
    have "reaches s (snd (?o (sv_st sv)))"
      by (rule reaches_step [OF Cons.prems(1) step_OfferLease]) (use Cons.prems(2) in simp)
    note s1 = srun_on_store_case [OF r this]
    have "sv_st sv1 = snd (?o (sv_st sv))" using r by (auto simp: on_store_def split: prod.splits)
    then have "leaseSeq (sv_st sv1) + int (length ready) < lease_ids"
      using OfferLease_seq [of ord dg "st_ID sub" "a_ID best" "st_Version sub" "OfferTTL (sv_cfg sv)" "system_actor ''scheduler''" now "sv_st sv"]
        Cons.prems(2) by simp
    with Cons.IH s1 r best False show ?thesis by (cases r) simp_all
  qed
qed simp

lemma run_schedule:
  assumes "srun s sv" "leaseSeq (sv_st sv) + int (length (DequeueReady ord (ScheduleBatch (sv_cfg sv)) (sv_st sv))) < lease_ids"
  shows "srun s (snd (ScheduleOnce ord dg now sv))"
proof -
  let ?ready = "DequeueReady ord (ScheduleBatch (sv_cfg sv)) (sv_st sv)"
  let ?load = "load_reputations ord now (ListAgents ord (sv_st sv)) sv"
  have st: "sv_st (snd ?load) = sv_st sv" by (rule run_load)
  have "srun s (snd (place_all ord dg now ?ready ags 0 (snd ?load)))" for ags
    by (rule run_place) (use assms in \<open>simp_all only: st\<close>)
  then show ?thesis
    using assms(1) st unfolding ScheduleOnce_def Let_def
    by (cases ?load) (auto simp: and_then_def split: prod.splits sum.splits, (metis snd_conv)+)
qed

section \<open>Intents\<close>

text \<open>The mission id an intent may create is new: the drawn one, or the one a previous, interrupted submission reserved.\<close>

definition fresh_for :: "string \<Rightarrow> Intent \<Rightarrow> Store \<Rightarrow> bool" where
  "fresh_for newid inp s \<longleftrightarrow> fresh_mission newid (in_Tasks inp) s
     \<and> (\<forall>ident. fmlookup (idem s) (''intent-'' @ in_IdempotencyKey inp) = Some ident \<longrightarrow> fmlookup (missions s) ident = None
          \<longrightarrow> fresh_mission ident (in_Tasks inp) s)"

lemma run_create_intent:
  assumes "reaches s u" "fresh_for newid inp u" "in_int64 (in_BudgetTokens inp)"
  shows "reaches s (snd (intentCreateMission ord newid inp now u))"
proof (cases "in_IdempotencyKey inp = '''' \<or> in_Owner inp = '''' \<or> in_Goal inp = '''' \<or> in_Tasks inp = [] \<or> in_BudgetTokens inp < 0
    \<or> (\<exists>e. validateDAG (in_Tasks inp) = Inl e)")
  case True
  then show ?thesis using assms(1) by (auto simp: intentCreateMission_def)
next
  case False
  then obtain x where ok: "validateDAG (in_Tasks inp) = Inr x" by (cases "validateDAG (in_Tasks inp)") auto
  let ?key = "''intent-'' @ in_IdempotencyKey inp"
  let ?create = "\<lambda>ident. createMission ord ident (in_Source inp) (in_Owner inp) (in_Goal inp) (in_BudgetTokens inp) (in_Tasks inp) now"
  show ?thesis
  proof (cases "fmlookup (idem u) ?key")
    case None
    let ?u = "snd (PutIdempotent ?key newid u)"
    have "reaches s ?u" by (intro runs assms)
    moreover have "fresh_mission newid (in_Tasks inp) ?u" using assms(2) None by (simp add: fresh_for_def fresh_mission_def PutIdempotent_def)
    ultimately have "reaches s (snd (?create newid ?u))" by (intro run_create assms(3))
    then show ?thesis using False ok None
      by (auto simp: intentCreateMission_def PutIdempotent_def Let_def and_then_def split: prod.splits sum.splits)
  next
    case (Some ident)
    have act: "reaches s v \<Longrightarrow> reaches s (snd (activateMissionRoots ord ident (in_Source inp) now v))" for v by (intro runs)
    show ?thesis
    proof (cases "fmlookup (missions u) ident")
      case m: (Some m)
      have "snd (intentCreateMission ord newid inp now u) = snd (activateMissionRoots ord ident (in_Source inp) now u)"
        using False ok Some m by (auto simp: intentCreateMission_def PutIdempotent_def GetMission_def Let_def and_then_def split: prod.splits sum.splits)
      with act [OF assms(1)] show ?thesis by simp
    next
      case m: None
      have "fresh_mission ident (in_Tasks inp) u" using assms(2) Some m by (simp add: fresh_for_def)
      then have c: "reaches s (snd (?create ident u))" by (intro run_create assms)
      obtain r v where rv: "?create ident u = (r, v)" by fastforce
      have "snd (intentCreateMission ord newid inp now u) = v \<or>
          snd (intentCreateMission ord newid inp now u) = snd (activateMissionRoots ord ident (in_Source inp) now v)"
        using False ok Some m rv by (cases r) (auto simp: intentCreateMission_def PutIdempotent_def GetMission_def Let_def and_then_def
            split: prod.splits sum.splits option.splits)
      with act [of v] c rv show ?thesis by auto
    qed
  qed
qed

lemma run_delegate:
  assumes "reaches s u" "intentDelegate cfg ord newid inp now u = Some (r, t)"
    and "\<And>task. in_Task inp = Some task \<Longrightarrow> in_int64 (ds_BudgetTokens task)"
  shows "reaches s t"
proof (cases "t = u")
  case True
  then show ?thesis using assms(1) by simp
next
  case False
  with assms(2) obtain task parent grants where task: "in_Task inp = Some task" and
    t: "t = snd (SpawnSubtask (''intent-delegate-'' @ in_IdempotencyKey inp) (st_ID parent) (in_FencingToken inp) (in_ParentVersion inp)
      (delegated_child newid parent task grants) \<lparr>ac_Kind = ac_Kind (in_Source inp), ac_ID = ac_ID (in_Source inp)\<rparr> now u)"
    unfolding intentDelegate_def Let_def
    by (auto split: if_splits option.splits sum.splits prod.splits) (metis snd_conv)+
  have "st_LeaseID (delegated_child newid parent task grants) = ''''"
    "BudgetTokens (st_Scheduling (delegated_child newid parent task grants)) = ds_BudgetTokens task"
    by (simp_all add: delegated_child_def zero_subtask_def)
  with assms(3) [OF task] show ?thesis unfolding t by (intro reaches_step [OF assms(1) step_SpawnSubtask]) simp_all
qed

lemma run_submit:
  assumes "reaches s u" "SubmitIntent cfg ord newMission newSub inp now u = Some (r, t)" "fresh_for newMission inp u"
    and "in_int64 (in_BudgetTokens inp)" "\<And>task. in_Task inp = Some task \<Longrightarrow> in_int64 (ds_BudgetTokens task)"
  shows "reaches s t"
proof -
  have c: "reaches s (snd (intentCreateMission ord newMission inp now u))" by (rule run_create_intent [OF assms(1,3,4)])
  have "reaches s (snd (and_then (Wake ord (in_SubtaskID inp) (ac_ID (in_Source inp)) now u)
      (\<lambda>_ s. (Inr \<lparr>ir_MissionID = '''', ir_SubtaskID = in_SubtaskID inp, ir_Deduplicated = False\<rparr>, s))))"
    using assms(1) by (auto simp: Wake_def intro!: runs)
  with c assms(1,2) run_delegate [OF assms(1) _ assms(5)] show ?thesis
    unfolding SubmitIntent_def Let_def
    by (auto split: if_splits option.splits sum.splits dest: arg_cong [of _ _ snd])
qed

section \<open>The remaining operations\<close>

lemma run_renew: "reaches s u \<Longrightarrow> reaches s (snd (ServiceRenewLease cfg lid tok now u))"
  by (simp add: ServiceRenewLease_def runs)

lemma run_lead:
  "reaches s u \<Longrightarrow> reaches s (snd (ServiceIngestLeadInbox lead item ag tok v mode now u))"
  "reaches s u \<Longrightarrow> reaches s (snd (ServiceSaveLeadSnapshot cfg vj lead ag tok v snap now u))"
  by (auto simp: ServiceIngestLeadInbox_def ServiceSaveLeadSnapshot_def intro!: runs split: sum.splits)

lemma run_put_artifact:
  "reaches s u \<Longrightarrow> reaches s (snd (snd (ServicePutArtifact bs sha mid by schema content now (b, u))))"
  using run_more_ops(1) by (auto simp: ServicePutArtifact_def Let_def split: prod.splits sum.splits) (metis snd_conv)+

lemma run_canary: "srun s sv \<Longrightarrow> srun s (snd (EvaluateCanary inp now sv))"
  using run_store_ops(11) [of s "sv_st sv" "canary_signal inp" now]
  by (auto simp: EvaluateCanary_def Let_def on_store_def split: prod.splits sum.splits)

lemma run_create_appeal: "reaches s u \<Longrightarrow> reaches s (snd (ServiceCreateQualityAppeal newid art app reason refs actor now u))"
  by (auto simp: ServiceCreateQualityAppeal_def intro!: runs)

lemma run_resolve_appeal:
  assumes "srun s sv"
  shows "srun s (snd (ServiceResolveQualityAppeal ident status res rvw actor now sv))"
proof -
  have sig: "srun s (apply_ignored now sig sv)" if "srun s sv" for sig sv
    using that by (simp add: apply_ignored_def runs)
  have "srun s (fold (\<lambda>skill. apply_ignored now (appeal_signal a ag skill)) skills sv)" if "srun s sv" for a ag skills sv
    using that by (auto intro!: fold_inv [where I = "srun s"] sig)
  with assms show ?thesis
    unfolding ServiceResolveQualityAppeal_def
    by (auto simp: Let_def intro!: srun_and_then runs split: sum.splits)
qed

lemma run_gateway_usage: "reaches s u \<Longrightarrow> reaches s (snd (RecordGatewayUsage inp now u))"
  by (auto simp: RecordGatewayUsage_def simp del: put_gateway.simps intro!: run_gateway)

section \<open>The steps of the service\<close>

inductive service_step :: "Service \<Rightarrow> Service \<Rightarrow> bool" where
  ss_Create: "fresh_mission newid tasks (sv_st sv) \<Longrightarrow> in_int64 budget
    \<Longrightarrow> service_step sv (snd (on_store (CreateMissionWithBudgetAs ord newid actor owner goal budget tasks now) sv))"
| ss_Submit: "SubmitIntent (sv_cfg sv) ord newMission newSub inp now (sv_st sv) = Some (r, t) \<Longrightarrow> fresh_for newMission inp (sv_st sv)
    \<Longrightarrow> in_int64 (in_BudgetTokens inp) \<Longrightarrow> (\<And>task. in_Task inp = Some task \<Longrightarrow> in_int64 (ds_BudgetTokens task))
    \<Longrightarrow> service_step sv (sv\<lparr>sv_st := t\<rparr>)"
| ss_Cancel: "service_step sv (snd (on_store (CancelMissionAs ord ident actor now) sv))"
| ss_Register: "service_step sv (snd (on_store (RegisterAgent ord newid a now) sv))"
| ss_Heartbeat: "service_step sv (snd (on_store (Heartbeat ag now) sv))"
| ss_Schedule: "leaseSeq (sv_st sv) + int (length (DequeueReady ord (ScheduleBatch (sv_cfg sv)) (sv_st sv))) < lease_ids
    \<Longrightarrow> service_step sv (snd (ScheduleOnce ord dg now sv))"
| ss_Accept: "service_step sv (snd (on_store (ServiceAcceptLease lid tok v ag now) sv))"
| ss_Start: "service_step sv (snd (on_store (ServiceStartSubtask ident tok v ag now) sv))"
| ss_Renew: "service_step sv (snd (on_store (ServiceRenewLease (sv_cfg sv) lid tok now) sv))"
| ss_Complete: "in_int64 usage
    \<Longrightarrow> service_step sv (snd (ServiceCompleteSubtaskWithUsage ord ident tok key ref usage v ag now sv))"
| ss_Fail: "service_step sv (snd (ServiceFailSubtask ord ident tok reason v ag now sv))"
| ss_Suspend: "service_step sv (snd (on_store (Suspend eng ident tok v ag wake ckpt now) sv))"
| ss_Wake: "service_step sv (snd (on_store (WakeAs ord ident actor now) sv))"
| ss_Progress: "service_step sv (snd (on_store (Progress (sv_cfg sv) ident lid tok ag ckpt now) sv))"
| ss_OpenDecisions: "service_step sv (snd (on_store (OpenHumanDecisions ord ids now) sv))"
| ss_RequestDecision: "service_step sv (snd (on_store (RequestDecision ord newid ident tok v ag question options now) sv))"
| ss_ResolveDecision: "service_step sv (snd (on_store (ServiceResolveDecision ord did choice rationale decider now) sv))"
| ss_BoardPut: "service_step sv (snd (on_store (ServiceBoardPut eng js ord mid ns key val v now) sv))"
| ss_IngestLead: "service_step sv (snd (on_store (ServiceIngestLeadInbox lead item ag tok v mode now) sv))"
| ss_SaveLead: "service_step sv (snd (on_store (ServiceSaveLeadSnapshot (sv_cfg sv) vj lead ag tok v snap now) sv))"
| ss_PutArtifact: "service_step sv (sv\<lparr>sv_st := snd (snd (ServicePutArtifact (bs :: MemBlob BlobStore) sha mid by schema content now (b, sv_st sv)))\<rparr>)"
| ss_Verify: "service_step sv (snd (VerifyArtifact (bs :: MemBlob BlobStore) sha art inp verifier now b sv))"
| ss_Canary: "service_step sv (snd (EvaluateCanary canary now sv))"
| ss_CreateAppeal: "service_step sv (snd (on_store (ServiceCreateQualityAppeal newid art app reason refs actor now) sv))"
| ss_ResolveAppeal: "service_step sv (snd (ServiceResolveQualityAppeal ident status res rvw actor now sv))"
| ss_Gateway: "service_step sv (snd (on_store (RecordGatewayUsage usage_in now) sv))"
| ss_Sweep: "service_step sv (snd (SweepOnce eng js ord now sv))"
| ss_Strategy: "service_step sv (WithStrategy ps sv)"

inductive service_runs :: "Service \<Rightarrow> Service \<Rightarrow> bool" where
  sr_refl: "service_runs sv sv"
| sr_step: "service_runs sv sv1 \<Longrightarrow> service_step sv1 sv2 \<Longrightarrow> service_runs sv sv2"

lemma service_step_run:
  assumes "service_step sv sv'"
  shows "reaches (sv_st sv) (sv_st sv')"
  using assms
proof cases
  case (ss_Create newid tasks budget ord actor owner goal now)
  then show ?thesis by (auto simp: CreateMissionWithBudgetAs_def intro!: runs reaches_refl)
next
  case (ss_Submit ord newMission newSub inp now r t)
  from run_submit [OF reaches_refl this(2-5)] this(1) show ?thesis by simp
next
  case (ss_Schedule ord dg now)
  from run_schedule [OF reaches_refl this(2)] this(1) show ?thesis by simp
next
  case (ss_Complete usage ord ident tok key ref v ag now)
  from run_complete [OF reaches_refl this(2)] this(1) show ?thesis by simp
qed (auto simp: Heartbeat_def WithStrategy_def
    intro!: runs reaches_refl run_accept run_start run_renew run_fail run_lead run_put_artifact run_verify run_canary run_create_appeal
      run_resolve_appeal run_gateway_usage run_sweep)

lemma reaches_compose:
  assumes "reaches t u" "reaches s t"
  shows "reaches s u"
  using assms by (induction rule: reaches.induct) (auto intro: reaches_step)

lemma service_runs_run:
  assumes "service_runs sv sv'"
  shows "reaches (sv_st sv) (sv_st sv')"
  using assms by (induction rule: service_runs.induct) (auto intro: reaches_refl reaches_compose service_step_run)

end
