(* ===== verification/Base64.thy ===== *)
theory Base64
  imports CoreProduct
begin

text \<open>
  The string functions of Go's library the HTTP edge relies on: \<open>strings.Split\<close> and
  \<open>strings.Trim\<close>, \<open>strings.TrimSpace\<close> and \<open>strings.Fields\<close> over UTF-8 bytes, and the raw
  URL alphabet of \<open>encoding/base64\<close>, whose decoder skips line breaks and ignores the unused low bits of
  the last character.
\<close>

section \<open>Splitting and joining\<close>

lemma split_on_Nil [simp]: "split_on c [] = [[]]"
  by (simp add: split_on_def)

lemma split_on_Cons [simp]:
  "split_on c (x # t) = (if x = c then [] # split_on c t else (x # hd (split_on c t)) # tl (split_on c t))"
  by (simp add: split_on_def)

lemma split_on_ne [simp]: "split_on c t \<noteq> []"
  by (induction t) auto

lemma split_on_free: "c \<notin> set a \<Longrightarrow> split_on c a = [a]"
  by (induction a) auto

lemma split_on_sep: "c \<notin> set a \<Longrightarrow> split_on c (a @ c # t) = a # split_on c t"
  by (induction a) auto

lemma split_on_parts: "\<forall>p \<in> set (split_on c t). c \<notin> set p"
proof (induction t)
  case (Cons x t)
  then have "c \<notin> set (hd (split_on c t))" and "\<forall>p \<in> set (tl (split_on c t)). c \<notin> set p"
    by (metis hd_in_set split_on_ne, metis list.set_sel(2) split_on_ne)
  with Cons show ?case by auto
qed simp

lemma join_Cons_head: "ps \<noteq> [] \<Longrightarrow> join sep ((x # hd ps) # tl ps) = x # join sep ps"
  by (cases ps; cases "tl ps") auto

lemma join_split_on: "join [c] (split_on c t) = t"
proof (induction t)
  case (Cons x t)
  have "join [c] ([] # split_on c t) = c # join [c] (split_on c t)"
    by (cases "split_on c t") auto
  with Cons show ?case by (simp add: join_Cons_head)
qed simp

definition trim_char :: "char \<Rightarrow> string \<Rightarrow> string" where
  "trim_char c t = rev (dropWhile (\<lambda>x. x = c) (rev (dropWhile (\<lambda>x. x = c) t)))"

definition has_prefix :: "string \<Rightarrow> string \<Rightarrow> bool" where
  "has_prefix p t \<longleftrightarrow> take (length p) t = p"

definition has_suffix :: "string \<Rightarrow> string \<Rightarrow> bool" where
  "has_suffix p t \<longleftrightarrow> has_prefix (rev p) (rev t)"

lemma has_prefix_append: "has_prefix p t \<longleftrightarrow> (\<exists>u. t = p @ u)"
  by (auto simp: has_prefix_def) (metis append_take_drop_id)

lemma has_suffix_append: "has_suffix p t \<longleftrightarrow> (\<exists>u. t = u @ p)"
proof -
  have "(\<exists>u. rev t = rev p @ u) \<longleftrightarrow> (\<exists>u. t = u @ p)"
    by (metis rev_append rev_rev_ident)
  then show ?thesis by (simp add: has_suffix_def has_prefix_append)
qed

section \<open>White space\<close>

text \<open>The number of bytes of the white-space rune a string starts with, and of the one it ends with (on the reversed string).\<close>

definition nbsp :: "char \<Rightarrow> char \<Rightarrow> bool" where
  "nbsp a b \<longleftrightarrow> of_char a = (0xC2 :: nat) \<and> of_char b \<in> {0x85, 0xA0 :: nat}"

fun space_head :: "string \<Rightarrow> nat" where
  "space_head [] = 0"
| "space_head [a] = (if ascii_space a then 1 else 0)"
| "space_head [a, b] = (if ascii_space a then 1 else if nbsp a b then 2 else 0)"
| "space_head (a # b # c # t) = (if ascii_space a then 1 else if nbsp a b then 2 else if wide_space a b c then 3 else 0)"

fun space_last :: "string \<Rightarrow> nat" where
  "space_last [] = 0"
| "space_last [a] = (if ascii_space a then 1 else 0)"
| "space_last [b, a] = (if ascii_space b then 1 else if nbsp a b then 2 else 0)"
| "space_last (c # b # a # t) = (if ascii_space c then 1 else if nbsp b c then 2 else if wide_space a b c then 3 else 0)"

function trim_with :: "(string \<Rightarrow> nat) \<Rightarrow> string \<Rightarrow> string" where
  "trim_with f t = (if f t = 0 \<or> t = [] then t else trim_with f (drop (f t) t))"
  by pat_completeness auto
termination by (relation "measure (\<lambda>(f, t). length t)") auto

declare trim_with.simps [simp del]

definition TrimSpace :: "string \<Rightarrow> string" where
  "TrimSpace t = rev (trim_with space_last (rev (trim_with space_head t)))"

lemma trim_with_stop: "f t = 0 \<Longrightarrow> trim_with f t = t"
  by (simp add: trim_with.simps)

lemma trim_with_fix: "trim_with f (trim_with f t) = trim_with f t"
proof (induction f t rule: trim_with.induct)
  case (1 f t)
  then show ?case by (cases "f t = 0 \<or> t = []") (simp_all add: trim_with.simps [of f t])
qed

fun split_word :: "string \<Rightarrow> string \<times> string" where
  "split_word [] = ([], [])"
| "split_word (c # t) = (if space_head (c # t) > 0 then ([], c # t) else case split_word t of (w, r) \<Rightarrow> (c # w, r))"

lemma split_word_length: "split_word t = (w, r) \<Longrightarrow> length w + length r = length t"
  by (induction t arbitrary: w r) (auto split: if_splits prod.splits)

lemma trim_with_length: "length (trim_with f t) \<le> length t"
  by (induction f t rule: trim_with.induct) (subst trim_with.simps, auto)

lemma trim_with_head: "trim_with f t = [] \<or> f (trim_with f t) = 0"
  by (induction f t rule: trim_with.induct) (subst (2) trim_with.simps, subst trim_with.simps, auto)

lemma split_word_step: "trim_with space_head t = c # u \<Longrightarrow> length (snd (split_word (c # u))) < length t"
  using trim_with_head [of space_head t] trim_with_length [of space_head t]
  by (cases "split_word u") (auto dest: split_word_length)

function Fields :: "string \<Rightarrow> string list" where
  "Fields t = (case trim_with space_head t of [] \<Rightarrow> []
     | c # u \<Rightarrow> fst (split_word (c # u)) # Fields (snd (split_word (c # u))))"
  by pat_completeness auto
termination by (relation "measure length") (auto intro: split_word_step simp del: split_word.simps)

declare Fields.simps [simp del]

section \<open>Base64, URL alphabet, no padding\<close>

definition b64_char :: "nat \<Rightarrow> char" where
  "b64_char n = (if n < 26 then char_of (65 + n) else if n < 52 then char_of (71 + n)
     else if n < 62 then char_of (n - 4) else if n = 62 then CHR ''-'' else CHR ''_'')"

definition b64_val :: "char \<Rightarrow> nat option" where
  "b64_val ch = (let n = of_char ch :: nat in
     if 65 \<le> n \<and> n \<le> 90 then Some (n - 65) else if 97 \<le> n \<and> n \<le> 122 then Some (n - 71)
     else if 48 \<le> n \<and> n \<le> 57 then Some (n + 4) else if n = 45 then Some 62 else if n = 95 then Some 63 else None)"

fun b64_group :: "nat list \<Rightarrow> nat list" where
  "b64_group [] = []"
| "b64_group [a] = [a div 4, (a mod 4) * 16]"
| "b64_group [a, b] = [a div 4, (a mod 4) * 16 + b div 16, (b mod 16) * 4]"
| "b64_group (a # b # c # t) = a div 4 # ((a mod 4) * 16 + b div 16) # ((b mod 16) * 4 + c div 64) # c mod 64 # b64_group t"

fun b64_ungroup :: "nat list \<Rightarrow> nat list option" where
  "b64_ungroup [] = Some []"
| "b64_ungroup [p] = None"
| "b64_ungroup [p, q] = Some [p * 4 + q div 16]"
| "b64_ungroup [p, q, r] = Some [p * 4 + q div 16, (q mod 16) * 16 + r div 4]"
| "b64_ungroup (p # q # r # s # t) =
     (case b64_ungroup t of None \<Rightarrow> None
      | Some u \<Rightarrow> Some ((p * 4 + q div 16) # ((q mod 16) * 16 + r div 4) # ((r mod 4) * 64 + s) # u))"

definition b64_encode :: "string \<Rightarrow> string" where
  "b64_encode t = map b64_char (b64_group (map of_char t))"

definition b64_decode :: "string \<Rightarrow> string option" where
  "b64_decode t =
     (case those (map b64_val (filter (\<lambda>ch. of_char ch \<notin> {10, 13 :: nat}) t)) of
        None \<Rightarrow> None
      | Some vs \<Rightarrow> map_option (map char_of) (b64_ungroup vs))"

text \<open>
  On an error \<open>DecodeString\<close> also returns the bytes it decoded before the quantum that failed;
  \<open>b64_partial\<close> are the bytes it returns in both cases.
\<close>

fun b64_quanta :: "nat option list \<Rightarrow> nat list" where
  "b64_quanta [Some p, Some q] = [p * 4 + q div 16]"
| "b64_quanta [Some p, Some q, Some r] = [p * 4 + q div 16, (q mod 16) * 16 + r div 4]"
| "b64_quanta (Some p # Some q # Some r # Some s # t) =
     (p * 4 + q div 16) # ((q mod 16) * 16 + r div 4) # ((r mod 4) * 64 + s) # b64_quanta t"
| "b64_quanta _ = []"

definition b64_partial :: "string \<Rightarrow> string" where
  "b64_partial t = map char_of (b64_quanta (map b64_val (filter (\<lambda>ch. of_char ch \<notin> {10, 13 :: nat}) t)))"

lemma those_SomeD: "those xs = Some ys \<Longrightarrow> xs = map Some ys"
  by (induction xs arbitrary: ys) (auto split: option.splits)

lemma b64_quanta_ungroup: "b64_ungroup vs = Some bs \<Longrightarrow> b64_quanta (map Some vs) = bs"
  by (induction vs arbitrary: bs rule: b64_ungroup.induct) (auto split: option.splits)

lemma b64_partial_decode: "b64_decode t = Some u \<Longrightarrow> b64_partial t = u"
  by (auto simp: b64_decode_def b64_partial_def b64_quanta_ungroup dest!: those_SomeD split: option.splits)

lemma b64_group_small: "\<forall>a \<in> set bs. a < 256 \<Longrightarrow> \<forall>v \<in> set (b64_group bs). v < 64"
  by (induction bs rule: b64_group.induct) auto

lemma b64_ungroup_group: "\<forall>a \<in> set bs. a < 256 \<Longrightarrow> b64_ungroup (b64_group bs) = Some bs"
proof (induction bs rule: b64_group.induct)
  case (4 a b c t)
  then have "a < 256" "b < 256" "c < 256" by auto
  with 4 show ?case by simp
qed auto

lemma b64_char_code:
  assumes "n < 64"
  shows "(of_char (b64_char n) :: nat) =
    (if n < 26 then 65 + n else if n < 52 then 71 + n else if n < 62 then n - 4 else if n = 62 then 45 else 95)"
  using assms by (simp add: b64_char_def)

lemma b64_char_table:
  assumes "n < 64"
  shows "b64_val (b64_char n) = Some n" and "(of_char (b64_char n) :: nat) \<notin> {10, 13, 46}"
  using assms by (auto simp: b64_val_def Let_def b64_char_code)

lemma those_map_Some: "(\<And>x. x \<in> set xs \<Longrightarrow> f x = Some (g x)) \<Longrightarrow> those (map f xs) = Some (map g xs)"
  by (induction xs) auto

lemma b64_roundtrip: "b64_decode (b64_encode t) = Some t"
proof -
  let ?bs = "map of_char t :: nat list"
  have bs: "\<forall>a \<in> set ?bs. a < 256" by auto
  have vs: "\<And>v. v \<in> set (b64_group ?bs) \<Longrightarrow> b64_val (b64_char v) = Some v \<and> (of_char (b64_char v) :: nat) \<notin> {10, 13, 46}"
    using b64_group_small [OF bs] b64_char_table by meson
  have f: "filter (\<lambda>ch. of_char ch \<notin> {10, 13 :: nat}) (b64_encode t) = b64_encode t"
    using vs by (auto simp: b64_encode_def filter_id_conv)
  have "those (map b64_val (b64_encode t)) = Some (b64_group ?bs)"
    using those_map_Some [of "b64_group ?bs" "b64_val \<circ> b64_char" "\<lambda>v. v"] vs by (simp add: b64_encode_def)
  then show ?thesis unfolding b64_decode_def f by (simp add: b64_ungroup_group [OF bs] comp_def)
qed

lemma b64_no_dot: "CHR ''.'' \<notin> set (b64_encode t)"
proof
  assume "CHR ''.'' \<in> set (b64_encode t)"
  then obtain v where v: "v \<in> set (b64_group (map of_char t))" "b64_char v = CHR ''.''" by (auto simp: b64_encode_def)
  with b64_group_small [of "map of_char t"] have "v < 64" by force
  with b64_char_table(2) [of v] v(2) show False by simp
qed

lemma b64_encode_inj: "b64_encode t = b64_encode u \<Longrightarrow> t = u"
  by (metis b64_roundtrip option.inject)

end
