(* ===== verification/AuthTokens.thy ===== *)
theory AuthTokens
  imports Base64
begin

text \<open>
  \<open>internal/auth/auth.go\<close> and \<open>internal/auth/oidc.go\<close>: platform tokens, signed artifact URLs and the
  verifier of external access tokens. A token is the string
  \<open>base64(header).base64(claims).base64(mac)\<close>; the clock is read once per operation and passed
  as \<open>now\<close>. HMAC-SHA256, the JSON decoders, RSA verification and the HTTP client that fetches the key
  set are the fields of \<open>AuthEnv\<close>.
\<close>

section \<open>Identities and the environment\<close>

datatype auth_error = AuthMissingToken | AuthInvalidToken | AuthExpiredToken | AuthForbidden | AuthPlain string

record Identity =
  id_Subject :: string
  id_Kind :: string
  id_Scopes :: "string list"
  id_Issued :: int
  id_Expires :: int

record RSAKey =
  rk_N :: nat
  rk_E :: nat

record JWK =
  jw_Kid :: string
  jw_Kty :: string
  jw_Alg :: string
  jw_N :: string
  jw_E :: string

record OIDCClaims =
  oc_Sub :: string
  oc_Iss :: string
  oc_Kind :: string
  oc_Aud :: goval
  oc_Scope :: string
  oc_Scopes :: "string list"
  oc_Iat :: int
  oc_Exp :: int

text \<open>
  \<open>ae_get url force\<close> is the answer to the request for the key set: nothing when it fails, else status
  code and body. The decoders return nothing on a decoding error.
\<close>

record AuthEnv =
  ae_mac :: "string \<Rightarrow> string \<Rightarrow> string"
  ae_enc_claims :: "Identity \<Rightarrow> string"
  ae_header :: "string \<Rightarrow> (string, string) fmap option"
  ae_claims :: "string \<Rightarrow> Identity option"
  ae_sha :: "string \<Rightarrow> string"
  ae_rsa :: "RSAKey \<Rightarrow> string \<Rightarrow> string \<Rightarrow> bool"
  ae_get :: "string \<Rightarrow> bool \<Rightarrow> (int \<times> string) option"
  ae_jwks :: "string \<Rightarrow> JWK list option"
  ae_jwt_header :: "string \<Rightarrow> (string \<times> string) option"
  ae_jwt_claims :: "string \<Rightarrow> OIDCClaims option"

definition HasScope :: "Identity \<Rightarrow> string \<Rightarrow> bool" where
  "HasScope i scope \<longleftrightarrow> list_ex (\<lambda>current. current = ''*'' \<or> current = scope) (id_Scopes i)"

definition Privileged :: "Identity \<Rightarrow> bool" where
  "Privileged i \<longleftrightarrow> id_Kind i = ''human'' \<or> id_Kind i = ''service''"

definition known_kind :: "string \<Rightarrow> bool" where
  "known_kind k \<longleftrightarrow> k \<in> set [''human'', ''agent'', ''service'']"

definition scope_step :: "string \<Rightarrow> string list \<Rightarrow> string list" where
  "scope_step scope out = (let scope = TrimSpace scope in if scope \<noteq> '''' \<and> scope \<notin> set out then out @ [scope] else out)"

definition normalizeScopes :: "string list \<Rightarrow> string list" where
  "normalizeScopes scopes = fold scope_step scopes []"

text \<open>Seconds since 1970 of a time counted in nanoseconds from year 1.\<close>

definition Unix :: "time \<Rightarrow> int" where
  "Unix t = t div 1000000000 - 62135596800"

section \<open>External access tokens\<close>

record OIDCVerifier =
  ov_Issuer :: string
  ov_Audience :: string
  ov_JWKSURL :: string
  ov_CacheTTL :: duration
  ov_keys :: "(string, RSAKey) fmap"
  ov_expires :: time

definition trim_right_char :: "char \<Rightarrow> string \<Rightarrow> string" where
  "trim_right_char c t = rev (dropWhile (\<lambda>x. x = c) (rev t))"

definition NewOIDCVerifier :: "string \<Rightarrow> string \<Rightarrow> string \<Rightarrow> auth_error + OIDCVerifier" where
  "NewOIDCVerifier issuer audience jwksURL =
     (if trim_right_char (CHR ''/'') issuer = '''' \<or> audience = '''' \<or> jwksURL = ''''
      then Inl (AuthPlain ''auth: OIDC issuer, audience, JWKS URL and clock required'')
      else Inr \<lparr>ov_Issuer = trim_right_char (CHR ''/'') issuer, ov_Audience = audience, ov_JWKSURL = jwksURL, ov_CacheTTL = hour,
             ov_keys = fmempty, ov_expires = zero_time\<rparr>)"

definition big_endian :: "string \<Rightarrow> nat" where
  "big_endian t = fold (\<lambda>c n. 256 * n + of_char c) t 0"

definition decodeRSA :: "string \<Rightarrow> string \<Rightarrow> (nat \<times> nat) option" where
  "decodeRSA nRaw eRaw =
     (case (b64_decode nRaw, b64_decode eRaw) of
        (Some nBytes, Some eBytes) \<Rightarrow>
          (if eBytes = [] \<or> length eBytes > 4 then None else Some (big_endian nBytes, big_endian eBytes))
      | _ \<Rightarrow> None)"

definition jwk_step :: "JWK \<Rightarrow> (string, RSAKey) fmap \<Rightarrow> (string, RSAKey) fmap" where
  "jwk_step jwk keys =
     (if jw_Kty jwk \<noteq> ''RSA'' \<or> jw_Alg jwk \<noteq> ''RS256'' then keys
      else case decodeRSA (jw_N jwk) (jw_E jwk) of
          None \<Rightarrow> keys
        | Some (n, e) \<Rightarrow> if e > 0 then fmupd (jw_Kid jwk) \<lparr>rk_N = n, rk_E = e\<rparr> keys else keys)"

definition key_lookup :: "(string, RSAKey) fmap \<Rightarrow> string \<Rightarrow> auth_error + RSAKey" where
  "key_lookup keys kid = (case fmlookup keys kid of None \<Rightarrow> Inl AuthInvalidToken | Some k \<Rightarrow> Inr k)"

definition fetch_keys :: "AuthEnv \<Rightarrow> string \<Rightarrow> bool \<Rightarrow> time \<Rightarrow> OIDCVerifier \<Rightarrow> (auth_error + RSAKey) \<times> OIDCVerifier" where
  "fetch_keys env kid force now v =
     (case ae_get env (ov_JWKSURL v) force of
        None \<Rightarrow> (Inl (AuthPlain ''http''), v)
      | Some (status, body) \<Rightarrow>
          if status \<noteq> 200 then (Inl AuthInvalidToken, v)
          else case ae_jwks env body of
              None \<Rightarrow> (Inl AuthInvalidToken, v)
            | Some jwks \<Rightarrow>
                let keys = fold jwk_step jwks fmempty
                in (key_lookup keys kid, v\<lparr>ov_keys := keys, ov_expires := time_add now (ov_CacheTTL v)\<rparr>))"

definition oidc_key :: "AuthEnv \<Rightarrow> string \<Rightarrow> bool \<Rightarrow> time \<Rightarrow> OIDCVerifier \<Rightarrow> (auth_error + RSAKey) \<times> OIDCVerifier" where
  "oidc_key env kid force now v =
     (if \<not> force \<and> time_before now (ov_expires v)
      then case fmlookup (ov_keys v) kid of Some k \<Rightarrow> (Inr k, v) | None \<Rightarrow> fetch_keys env kid force now v
      else fetch_keys env kid force now v)"

definition decodeJWT :: "(string \<Rightarrow> 'a option) \<Rightarrow> string \<Rightarrow> 'a option" where
  "decodeJWT dec part = Option.bind (b64_decode part) dec"

fun audienceContains :: "goval \<Rightarrow> string \<Rightarrow> bool" where
  "audienceContains (VStr value) want \<longleftrightarrow> value = want"
| "audienceContains (VArr items) want \<longleftrightarrow> list_ex (\<lambda>item. item = VStr want) items"
| "audienceContains _ want \<longleftrightarrow> False"

text \<open>
  The signature is tried with the cached key, then once with a key fetched anew. The second attempt does not
  look at the decoding error again: it verifies whatever bytes were decoded.
\<close>

definition check_signature ::
  "AuthEnv \<Rightarrow> string \<Rightarrow> string \<Rightarrow> string \<Rightarrow> time \<Rightarrow> OIDCVerifier \<Rightarrow> (auth_error + unit) \<times> OIDCVerifier" where
  "check_signature env kid hash part now v =
     (case oidc_key env kid False now v of
        (Inl _, v) \<Rightarrow> (Inl AuthInvalidToken, v)
      | (Inr k, v) \<Rightarrow>
          if b64_decode part \<noteq> None \<and> ae_rsa env k hash (b64_partial part) then (Inr (), v)
          else case oidc_key env kid True now v of
              (Inl _, v) \<Rightarrow> (Inl AuthInvalidToken, v)
            | (Inr k, v) \<Rightarrow> if ae_rsa env k hash (b64_partial part) then (Inr (), v) else (Inl AuthInvalidToken, v))"

definition oidc_identity :: "OIDCVerifier \<Rightarrow> OIDCClaims option \<Rightarrow> time \<Rightarrow> auth_error + Identity" where
  "oidc_identity v claims now =
     (case claims of
        None \<Rightarrow> Inl AuthInvalidToken
      | Some c \<Rightarrow>
          if oc_Sub c = '''' \<or> oc_Iss c \<noteq> ov_Issuer v \<or> \<not> audienceContains (oc_Aud c) (ov_Audience v) \<or> oc_Exp c \<le> oc_Iat c
          then Inl AuthInvalidToken
          else if Unix now \<ge> oc_Exp c then Inl AuthExpiredToken
          else let kind = (if oc_Kind c = '''' then ''human'' else oc_Kind c) in
            if \<not> known_kind kind then Inl AuthInvalidToken
            else Inr \<lparr>id_Subject = oc_Sub c, id_Kind = kind, id_Scopes = normalizeScopes (oc_Scopes c @ Fields (oc_Scope c)),
                   id_Issued = oc_Iat c, id_Expires = oc_Exp c\<rparr>)"

definition OIDCVerify :: "AuthEnv \<Rightarrow> string \<Rightarrow> time \<Rightarrow> OIDCVerifier \<Rightarrow> (auth_error + Identity) \<times> OIDCVerifier" where
  "OIDCVerify env token now v =
     (case split_on (CHR ''.'') token of
        [h, p, s] \<Rightarrow>
          (case decodeJWT (ae_jwt_header env) h of
             None \<Rightarrow> (Inl AuthInvalidToken, v)
           | Some (alg, kid) \<Rightarrow>
               if alg \<noteq> ''RS256'' \<or> kid = '''' then (Inl AuthInvalidToken, v)
               else case check_signature env kid (ae_sha env (h @ ''.'' @ p)) s now v of
                   (Inl e, v) \<Rightarrow> (Inl e, v)
                 | (Inr _, v) \<Rightarrow> (oidc_identity v (decodeJWT (ae_jwt_claims env) p) now, v))
      | _ \<Rightarrow> (Inl AuthInvalidToken, v))"

section \<open>Platform tokens\<close>

record Manager =
  m_secret :: string
  m_oidc :: "OIDCVerifier option"

definition maxTokenTTL :: duration where "maxTokenTTL = 24 * hour"

definition WithOIDC :: "Manager \<Rightarrow> OIDCVerifier \<Rightarrow> Manager" where
  "WithOIDC m verifier = m\<lparr>m_oidc := Some verifier\<rparr>"

definition NewManager :: "string \<Rightarrow> auth_error + Manager" where
  "NewManager secret =
     (if length secret < 32 then Inl (AuthPlain ''auth: TROOP_AUTH_SECRET must contain at least 32 bytes'')
      else Inr \<lparr>m_secret = secret, m_oidc = None\<rparr>)"

definition mac :: "AuthEnv \<Rightarrow> Manager \<Rightarrow> string \<Rightarrow> string" where
  "mac env m msg = ae_mac env (m_secret m) msg"

definition token_header :: string where
  "token_header = ''{\"alg\":\"HS256\",\"typ\":\"TROOP\"}''"

definition Issue :: "AuthEnv \<Rightarrow> Manager \<Rightarrow> string \<Rightarrow> string \<Rightarrow> string list \<Rightarrow> duration \<Rightarrow> time \<Rightarrow> auth_error + string" where
  "Issue env m subject kind scopes ttl now =
     (if TrimSpace subject = '''' then Inl (AuthPlain ''auth: subject required'')
      else if \<not> known_kind kind then Inl (AuthPlain ''auth: kind must be human, agent or service'')
      else if ttl \<le> 0 \<or> ttl > maxTokenTTL then Inl (AuthPlain ''auth: ttl must be between 1s and 24h0m0s'')
      else let claims = \<lparr>id_Subject = subject, id_Kind = kind, id_Scopes = normalizeScopes scopes,
                 id_Issued = Unix now, id_Expires = Unix (time_add now ttl)\<rparr>;
               unsigned = b64_encode token_header @ ''.'' @ b64_encode (ae_enc_claims env claims)
           in Inr (unsigned @ ''.'' @ b64_encode (mac env m unsigned)))"

text \<open>A missing key of a Go map reads as the empty string.\<close>

definition header_get :: "(string, string) fmap \<Rightarrow> string \<Rightarrow> string" where
  "header_get h k = (case fmlookup h k of None \<Rightarrow> '''' | Some v \<Rightarrow> v)"

definition platform_identity :: "Identity option \<Rightarrow> time \<Rightarrow> auth_error + Identity" where
  "platform_identity claims now =
     (case claims of
        None \<Rightarrow> Inl AuthInvalidToken
      | Some c \<Rightarrow>
          if id_Subject c = '''' \<or> id_Expires c \<le> id_Issued c then Inl AuthInvalidToken
          else if \<not> known_kind (id_Kind c) then Inl AuthInvalidToken
          else if Unix now \<ge> id_Expires c then Inl AuthExpiredToken
          else Inr (c\<lparr>id_Scopes := normalizeScopes (id_Scopes c)\<rparr>))"

definition verify_platform ::
  "AuthEnv \<Rightarrow> Manager \<Rightarrow> (string, string) fmap \<Rightarrow> string \<Rightarrow> string \<Rightarrow> string \<Rightarrow> time \<Rightarrow> auth_error + Identity" where
  "verify_platform env m header h p s now =
     (if b64_decode s \<noteq> Some (mac env m (h @ ''.'' @ p)) then Inl AuthInvalidToken
      else if header_get header ''alg'' \<noteq> ''HS256'' \<or> header_get header ''typ'' \<noteq> ''TROOP'' then Inl AuthInvalidToken
      else platform_identity (Option.bind (b64_decode p) (ae_claims env)) now)"

definition Verify :: "AuthEnv \<Rightarrow> Manager \<Rightarrow> string \<Rightarrow> time \<Rightarrow> (auth_error + Identity) \<times> Manager" where
  "Verify env m token now =
     (case split_on (CHR ''.'') token of
        [h, p, s] \<Rightarrow>
          (case Option.bind (b64_decode h) (ae_header env) of
             None \<Rightarrow> (Inl AuthInvalidToken, m)
           | Some header \<Rightarrow>
               (case (header_get header ''alg'' = ''RS256'', m_oidc m) of
                  (True, Some v) \<Rightarrow> (case OIDCVerify env token now v of (r, v) \<Rightarrow> (r, m\<lparr>m_oidc := Some v\<rparr>))
                | _ \<Rightarrow> (verify_platform env m header h p s now, m)))
      | _ \<Rightarrow> (Inl AuthInvalidToken, m))"

text \<open>\<open>FromRequest\<close> on the value of the \<open>Authorization\<close> header.\<close>

definition FromRequest :: "AuthEnv \<Rightarrow> Manager \<Rightarrow> string \<Rightarrow> time \<Rightarrow> (auth_error + Identity) \<times> Manager" where
  "FromRequest env m header now =
     (let token = TrimSpace (drop 7 header) in
      if \<not> has_prefix ''Bearer '' header \<or> token = '''' then (Inl AuthMissingToken, m)
      else Verify env m token now)"

definition CheckBootstrap :: "Manager \<Rightarrow> string \<Rightarrow> bool" where
  "CheckBootstrap m candidate \<longleftrightarrow> candidate = m_secret m"

section \<open>Signed artifact URLs\<close>

definition artifactMessage :: "string \<Rightarrow> string \<Rightarrow> string \<Rightarrow> int \<Rightarrow> string" where
  "artifactMessage artifactID subject lid expires =
     ''artifact'' @ [CHR 0x0A] @ artifactID @ [CHR 0x0A] @ subject @ [CHR 0x0A] @ lid @ [CHR 0x0A] @ itoa expires"

definition SignArtifact :: "AuthEnv \<Rightarrow> Manager \<Rightarrow> string \<Rightarrow> string \<Rightarrow> string \<Rightarrow> time \<Rightarrow> string" where
  "SignArtifact env m artifactID subject lid expires =
     b64_encode (mac env m (artifactMessage artifactID subject lid (Unix expires)))"

text \<open>\<open>strconv.ParseInt(s, 10, 64)\<close>: an optional sign and decimal digits, refused when out of range.\<close>

definition digit_val :: "char \<Rightarrow> nat option" where
  "digit_val c = (let n = of_char c :: nat in if 48 \<le> n \<and> n \<le> 57 then Some (n - 48) else None)"

definition parse_digits :: "string \<Rightarrow> nat option" where
  "parse_digits t = (if t = '''' then None
     else map_option (\<lambda>ds. fold (\<lambda>d n. 10 * n + d) ds 0) (those (map digit_val t)))"

definition ParseInt :: "string \<Rightarrow> int option" where
  "ParseInt t =
     (let i = (case t of
           c # u \<Rightarrow> (if c = CHR ''-'' then map_option (\<lambda>n. - int n) (parse_digits u)
                     else if c = CHR ''+'' then map_option int (parse_digits u) else map_option int (parse_digits t))
         | [] \<Rightarrow> None)
      in case i of None \<Rightarrow> None | Some v \<Rightarrow> if in_int64 v then Some v else None)"

definition VerifyArtifactURL ::
  "AuthEnv \<Rightarrow> Manager \<Rightarrow> string \<Rightarrow> string \<Rightarrow> string \<Rightarrow> string \<Rightarrow> string \<Rightarrow> time \<Rightarrow> auth_error + unit" where
  "VerifyArtifactURL env m artifactID subject lid expiresRaw signature now =
     (case ParseInt expiresRaw of
        None \<Rightarrow> Inl AuthExpiredToken
      | Some expires \<Rightarrow>
          if expires \<le> Unix now then Inl AuthExpiredToken
          else if b64_decode signature \<noteq> Some (mac env m (artifactMessage artifactID subject lid expires)) then Inl AuthInvalidToken
          else Inr ())"

end
