(* ===== verification/AuthProps.thy ===== *)
theory AuthProps
  imports AuthTokens
begin

text \<open>
  Lemmas on \<open>AuthTokens\<close>: trimming and scope normalisation are idempotent, decimal integers read back,
  the messages an artifact signature covers, and the properties of tokens and signatures.
\<close>

section \<open>Trimming\<close>

lemma space_head_prefix: "space_head u > 0 \<Longrightarrow> space_head (u @ w) > 0"
  by (cases u rule: space_head.cases; cases w rule: space_head.cases) (auto split: if_splits)

lemma trim_with_suffix: "\<exists>u. t = u @ trim_with f t"
proof (induction f t rule: trim_with.induct)
  case (1 f t)
  show ?case
  proof (cases "f t = 0 \<or> t = []")
    case False
    then obtain u where "drop (f t) t = u @ trim_with f (drop (f t) t)" using 1 by blast
    then have "t = (take (f t) t @ u) @ trim_with f t"
      using False by (metis append.assoc append_take_drop_id trim_with.simps)
    then show ?thesis by blast
  qed (auto simp: trim_with.simps [of f t])
qed

lemma TrimSpace_idem [simp]: "TrimSpace (TrimSpace t) = TrimSpace t"
proof -
  let ?L = "trim_with space_head t" and ?R = "TrimSpace t"
  have R: "rev ?R = trim_with space_last (rev ?L)" by (simp add: TrimSpace_def)
  obtain u where "rev ?L = u @ rev ?R"
    unfolding R using trim_with_suffix [of "rev ?L" space_last] by blast
  then have L: "?L = ?R @ rev u" by (metis rev_append rev_rev_ident)
  have "?R = [] \<or> space_head ?R = 0"
    using trim_with_head [of space_head t] space_head_prefix [of ?R "rev u"] unfolding L by fastforce
  then have "trim_with space_head ?R = ?R" by (auto simp: trim_with.simps [of space_head ?R])
  then have "TrimSpace ?R = rev (trim_with space_last (rev ?R))" by (simp add: TrimSpace_def [of ?R])
  also have "\<dots> = ?R" unfolding R trim_with_fix by (metis R rev_rev_ident)
  finally show ?thesis .
qed

definition plain_char :: "char \<Rightarrow> bool" where
  "plain_char c \<longleftrightarrow> 32 < (of_char c :: nat) \<and> (of_char c :: nat) < 128"

lemma space_head_plain: "plain_char c \<Longrightarrow> space_head (c # t) = 0"
  by (cases t rule: space_head.cases) (auto simp: plain_char_def ascii_space_def nbsp_def wide_space_def Let_def)

lemma space_last_plain: "plain_char c \<Longrightarrow> space_last (c # t) = 0"
  by (cases t rule: space_last.cases) (auto simp: plain_char_def ascii_space_def nbsp_def wide_space_def Let_def)

lemma TrimSpace_plain:
  assumes "list_all plain_char t"
  shows "TrimSpace t = t"
proof -
  have "trim_with space_head t = t"
    using assms by (cases t) (auto simp: trim_with.simps space_head_plain)
  moreover have "trim_with space_last (rev t) = rev t"
    using assms by (cases t rule: rev_cases) (auto simp: trim_with.simps space_last_plain)
  ultimately show ?thesis by (simp add: TrimSpace_def)
qed

lemma b64_plain: "list_all plain_char (b64_encode t)"
proof -
  have "plain_char (b64_char n)" if "n < 64" for n
    using that by (auto simp: plain_char_def b64_char_code)
  then show ?thesis
    using b64_group_small [of "map of_char t"] by (auto simp: b64_encode_def list_all_iff)
qed

section \<open>Scopes\<close>

definition normal_scopes :: "string list \<Rightarrow> bool" where
  "normal_scopes out \<longleftrightarrow> distinct out \<and> (\<forall>x \<in> set out. x \<noteq> '''' \<and> TrimSpace x = x)"

lemma scope_step_normal: "normal_scopes out \<Longrightarrow> normal_scopes (scope_step scope out)"
  by (auto simp: scope_step_def normal_scopes_def Let_def)

lemma normalizeScopes_normal: "normal_scopes (normalizeScopes scopes)"
  unfolding normalizeScopes_def
  by (rule fold_inv [where I = normal_scopes]) (auto simp: scope_step_normal, simp add: normal_scopes_def)

lemma fold_scope_step_id: "normal_scopes (out @ xs) \<Longrightarrow> fold scope_step xs out = out @ xs"
  by (induction xs arbitrary: out) (auto simp: scope_step_def normal_scopes_def)

lemma normalizeScopes_id: "normal_scopes xs \<Longrightarrow> normalizeScopes xs = xs"
  using fold_scope_step_id [of "[]" xs] by (simp add: normalizeScopes_def)

lemma normalizeScopes_idem [simp]: "normalizeScopes (normalizeScopes xs) = normalizeScopes xs"
  by (rule normalizeScopes_id [OF normalizeScopes_normal])

section \<open>Decimal integers\<close>

lemma digits10_step: "n \<ge> 10 \<Longrightarrow> digits10 n = digits10 (n div 10) @ [char_of (48 + n mod 10)]"
  by (subst digits10.simps) simp

lemma digits10_one: "n < 10 \<Longrightarrow> digits10 n = [char_of (48 + n)]"
  by (subst digits10.simps) simp

lemma digit_val_char: "d < 10 \<Longrightarrow> digit_val (char_of (48 + d)) = Some d"
  by (simp add: digit_val_def Let_def)

lemma those_append: "those (xs @ ys) = (case those xs of None \<Rightarrow> None | Some a \<Rightarrow> map_option ((@) a) (those ys))"
proof (induction xs)
  case (Cons x xs)
  then show ?case by (cases x; cases "those xs"; cases "those ys") auto
qed (cases "those ys", auto)

lemma digits10_digits: "\<exists>ds. those (map digit_val (digits10 n)) = Some ds \<and> fold (\<lambda>d n. 10 * n + d) ds 0 = n"
proof (induction n rule: less_induct)
  case (less n)
  show ?case
  proof (cases "n < 10")
    case False
    with less [of "n div 10"] obtain ds where
      "those (map digit_val (digits10 (n div 10))) = Some ds" "fold (\<lambda>d n. 10 * n + d) ds 0 = n div 10" by auto
    then show ?thesis using False by (auto simp: digits10_step those_append digit_val_char)
  qed (simp add: digits10_one digit_val_char)
qed

lemma digits10_head: "digits10 n \<noteq> [] \<and> 48 \<le> (of_char (hd (digits10 n)) :: nat)"
proof (induction n rule: less_induct)
  case (less n)
  then show ?case by (cases "n < 10") (auto simp: digits10_one digits10_step)
qed

lemma parse_digits_digits10: "parse_digits (digits10 n) = Some n"
  using digits10_digits [of n] digits10_head [of n] by (auto simp: parse_digits_def)

lemma ParseInt_itoa:
  assumes "in_int64 i"
  shows "ParseInt (itoa i) = Some i"
proof (cases "i < 0")
  case True
  then show ?thesis using assms by (simp add: ParseInt_def itoa_def parse_digits_digits10)
next
  case False
  then obtain c u where d: "digits10 (nat i) = c # u" "48 \<le> (of_char c :: nat)"
    using digits10_head [of "nat i"] by (cases "digits10 (nat i)") auto
  then have "c \<noteq> CHR ''-''" "c \<noteq> CHR ''+''" by auto
  with d False assms parse_digits_digits10 [of "nat i"] show ?thesis by (simp add: ParseInt_def itoa_def)
qed

section \<open>Tokens\<close>

definition HS256_header :: "(string, string) fmap" where
  "HS256_header = fmap_of_list [(''alg'', ''HS256''), (''typ'', ''TROOP'')]"

lemma split_token:
  "split_on (CHR ''.'') (b64_encode a @ ''.'' @ b64_encode b @ ''.'' @ b64_encode c) = [b64_encode a, b64_encode b, b64_encode c]"
  by (simp add: split_on_sep split_on_free b64_no_dot del: split_on_Cons)

lemma Issue_Inr:
  "Issue env m subject kind scopes ttl now = Inr tok \<longleftrightarrow>
     TrimSpace subject \<noteq> '''' \<and> known_kind kind \<and> 0 < ttl \<and> ttl \<le> maxTokenTTL
     \<and> tok = (let unsigned = b64_encode token_header @ ''.'' @ b64_encode (ae_enc_claims env
           \<lparr>id_Subject = subject, id_Kind = kind, id_Scopes = normalizeScopes scopes, id_Issued = Unix now, id_Expires = Unix (time_add now ttl)\<rparr>)
         in unsigned @ ''.'' @ b64_encode (mac env m unsigned))"
  by (auto simp: Issue_def Let_def)

lemma Unix_later: "second \<le> ttl \<Longrightarrow> Unix now < Unix (time_add now ttl)"
  by (simp add: Unix_def time_add_def second_def)

lemma token_plain:
  assumes "Issue env m subject kind scopes ttl now = Inr tok"
  shows "list_all plain_char tok" and "tok \<noteq> ''''"
  using assms b64_plain by (auto simp: Issue_Inr Let_def plain_char_def list_all_iff)

lemma FromRequest_Bearer:
  assumes "list_all plain_char tok" "tok \<noteq> ''''"
  shows "FromRequest env m (''Bearer '' @ tok) now = Verify env m tok now"
  using assms by (simp add: FromRequest_def TrimSpace_plain has_prefix_def)

lemma verify_issued:
  assumes hdr: "ae_header env token_header = Some HS256_header"
    and c: "c = \<lparr>id_Subject = subject, id_Kind = kind, id_Scopes = normalizeScopes scopes, id_Issued = Unix now,
      id_Expires = Unix (time_add now ttl)\<rparr>"
    and law: "ae_claims env (ae_enc_claims env c) = Some c"
    and tok: "Issue env m subject kind scopes ttl now = Inr tok" and ttl: "second \<le> ttl"
  shows "Verify env m tok t = (if Unix t < Unix (time_add now ttl) then Inr c else Inl AuthExpiredToken, m)"
proof -
  have "subject \<noteq> ''''" using tok by (auto simp: Issue_Inr TrimSpace_def trim_with.simps)
  then have "platform_identity (Some c) t = (if Unix t < Unix (time_add now ttl) then Inr c else Inl AuthExpiredToken)"
    using tok Unix_later [OF ttl, of now] by (auto simp: platform_identity_def c Issue_Inr)
  moreover have "tok = b64_encode token_header @ ''.'' @ b64_encode (ae_enc_claims env c) @ ''.''
      @ b64_encode (mac env m (b64_encode token_header @ ''.'' @ b64_encode (ae_enc_claims env c)))"
    using tok unfolding Issue_Inr Let_def c by simp
  moreover have "header_get HS256_header ''alg'' = ''HS256''" "header_get HS256_header ''typ'' = ''TROOP''"
    by (simp_all add: HS256_header_def header_get_def)
  ultimately show ?thesis
    unfolding Verify_def by (simp add: split_token [simplified] b64_roundtrip hdr law verify_platform_def del: split_on_Cons)
qed

text \<open>C35: A platform token reads back. The token \<open>Issue\<close> makes for a subject, a kind and a lifetime of at least a second, sent as a
  bearer token, authenticates exactly that subject and kind with the normalised scopes until it expires, and is refused as
  expired ever after; the manager does not change.\<close>

theorem token_roundtrip:
  assumes "ae_header env token_header = Some HS256_header"
    and c: "c = \<lparr>id_Subject = subject, id_Kind = kind, id_Scopes = normalizeScopes scopes, id_Issued = Unix now,
      id_Expires = Unix (time_add now ttl)\<rparr>"
    and "ae_claims env (ae_enc_claims env c) = Some c"
    and tok: "Issue env m subject kind scopes ttl now = Inr tok" and "second \<le> ttl"
  shows "FromRequest env m (''Bearer '' @ tok) t = (if Unix t < Unix (time_add now ttl) then Inr c else Inl AuthExpiredToken, m)"
  unfolding FromRequest_Bearer [OF token_plain [OF tok]] by (rule verify_issued [OF assms])

text \<open>An environment for the witnesses: the code of a claim is its subject, and the MAC concatenates secret and message.\<close>

definition demo_identity :: Identity where
  "demo_identity = \<lparr>id_Subject = ''runtime'', id_Kind = ''agent'', id_Scopes = [''tasks''], id_Issued = Unix 0, id_Expires = Unix (60 * second)\<rparr>"

definition demo_auth :: AuthEnv where
  "demo_auth = \<lparr>ae_mac = (@), ae_enc_claims = id_Subject,
     ae_header = (\<lambda>t. if t = token_header then Some HS256_header else None),
     ae_claims = (\<lambda>t. if t = ''runtime'' then Some demo_identity else None),
     ae_sha = (\<lambda>t. t), ae_rsa = (\<lambda>k hash sig. sig = ''abc''),
     ae_get = (\<lambda>url force. Some (200, '''')),
     ae_jwks = (\<lambda>body. Some [\<lparr>jw_Kid = ''k'', jw_Kty = ''RSA'', jw_Alg = ''RS256'', jw_N = ''AQAB'', jw_E = ''AQAB''\<rparr>]),
     ae_jwt_header = (\<lambda>t. None), ae_jwt_claims = (\<lambda>t. None)\<rparr>"

definition demo_manager :: Manager where
  "demo_manager = \<lparr>m_secret = ''0123456789abcdef0123456789abcdef'', m_oidc = None\<rparr>"

lemma demo_Issue:
  obtains tok where "Issue demo_auth demo_manager ''runtime'' ''agent'' [''tasks''] (60 * second) 0 = Inr tok"
    and "\<lparr>id_Subject = ''runtime'', id_Kind = ''agent'', id_Scopes = normalizeScopes [''tasks''], id_Issued = Unix 0,
      id_Expires = Unix (time_add 0 (60 * second))\<rparr> = demo_identity"
proof -
  have "TrimSpace ''tasks'' = ''tasks''" "TrimSpace ''runtime'' = ''runtime''"
    by (rule TrimSpace_plain, simp add: plain_char_def)+
  then show ?thesis
    by (intro that) (auto simp: Issue_Inr known_kind_def second_def hour_def maxTokenTTL_def demo_identity_def normalizeScopes_def
        scope_step_def time_add_def)
qed

theorem token_roundtrip_witness:
  "\<exists>tok. Issue demo_auth demo_manager ''runtime'' ''agent'' [''tasks''] (60 * second) 0 = Inr tok
     \<and> FromRequest demo_auth demo_manager (''Bearer '' @ tok) (59 * second) = (Inr demo_identity, demo_manager)
     \<and> FromRequest demo_auth demo_manager (''Bearer '' @ tok) (60 * second) = (Inl AuthExpiredToken, demo_manager)"
proof -
  obtain tok where tok: "Issue demo_auth demo_manager ''runtime'' ''agent'' [''tasks''] (60 * second) 0 = Inr tok"
    and c: "\<lparr>id_Subject = ''runtime'', id_Kind = ''agent'', id_Scopes = normalizeScopes [''tasks''], id_Issued = Unix 0,
      id_Expires = Unix (time_add 0 (60 * second))\<rparr> = demo_identity" by (rule demo_Issue)
  have "ae_claims demo_auth (ae_enc_claims demo_auth demo_identity) = Some demo_identity" "ae_header demo_auth token_header = Some HS256_header"
    by (simp_all add: demo_auth_def demo_identity_def)
  note r = token_roundtrip [OF this(2) c [symmetric] this(1) tok]
  have "Unix (59 * second) < Unix (time_add 0 (60 * second))" "\<not> Unix (60 * second) < Unix (time_add 0 (60 * second))"
    by (simp_all add: Unix_def second_def time_add_def)
  with r [of "59 * second"] r [of "60 * second"] tok show ?thesis by (auto simp: second_def)
qed

text \<open>C34: Only the secret makes platform tokens. Without an external verifier a string is accepted exactly when it has three parts,
  its third part decodes to the MAC of the first two under the secret of the manager, its header is that of a platform
  token, and its claims name a subject, a known kind and a lifetime that has not ended. Changing one bit of a header or of the claims needs
  a new MAC.\<close>

theorem token_accepted_iff:
  assumes "m_oidc m = None"
  shows "Verify env m tok now = (Inr i, m) \<longleftrightarrow>
    (\<exists>h p s hdr c. split_on (CHR ''.'') tok = [h, p, s] \<and> b64_decode s = Some (mac env m (h @ ''.'' @ p))
       \<and> Option.bind (b64_decode h) (ae_header env) = Some hdr \<and> header_get hdr ''alg'' = ''HS256'' \<and> header_get hdr ''typ'' = ''TROOP''
       \<and> Option.bind (b64_decode p) (ae_claims env) = Some c \<and> id_Subject c \<noteq> '''' \<and> known_kind (id_Kind c)
       \<and> id_Issued c < id_Expires c \<and> Unix now < id_Expires c
       \<and> i = c\<lparr>id_Scopes := normalizeScopes (id_Scopes c)\<rparr>)"
proof (cases "\<exists>h p s. split_on (CHR ''.'') tok = [h, p, s]")
  case False
  then show ?thesis by (auto simp: Verify_def split: list.splits)
next
  case True
  then obtain h p s where parts: "split_on (CHR ''.'') tok = [h, p, s]" by blast
  show ?thesis
  proof (cases "Option.bind (b64_decode h) (ae_header env)")
    case (Some hdr)
    have "platform_identity cl now = Inr i \<longleftrightarrow> (\<exists>c. cl = Some c \<and> id_Subject c \<noteq> '''' \<and> known_kind (id_Kind c)
        \<and> id_Issued c < id_Expires c \<and> Unix now < id_Expires c \<and> i = c\<lparr>id_Scopes := normalizeScopes (id_Scopes c)\<rparr>)" for cl
      by (cases cl) (auto simp: platform_identity_def)
    then show ?thesis using parts Some assms by (auto simp: Verify_def verify_platform_def split: bool.splits if_splits)
  qed (use parts assms in \<open>simp add: Verify_def\<close>)
qed

theorem token_accepted_iff_witness:
  "\<exists>tok h p s. Verify demo_auth demo_manager tok 0 = (Inr demo_identity, demo_manager)
     \<and> split_on (CHR ''.'') tok = [h, p, s] \<and> b64_decode s = Some (mac demo_auth demo_manager (h @ ''.'' @ p))"
proof -
  obtain tok where tok: "Issue demo_auth demo_manager ''runtime'' ''agent'' [''tasks''] (60 * second) 0 = Inr tok"
    and c: "\<lparr>id_Subject = ''runtime'', id_Kind = ''agent'', id_Scopes = normalizeScopes [''tasks''], id_Issued = Unix 0,
      id_Expires = Unix (time_add 0 (60 * second))\<rparr> = demo_identity" by (rule demo_Issue)
  have "ae_claims demo_auth (ae_enc_claims demo_auth demo_identity) = Some demo_identity" "ae_header demo_auth token_header = Some HS256_header"
    by (simp_all add: demo_auth_def demo_identity_def)
  from verify_issued [OF this(2) c [symmetric] this(1) tok, of 0]
  have ok: "Verify demo_auth demo_manager tok 0 = (Inr demo_identity, demo_manager)"
    by (simp add: second_def Unix_def time_add_def split: if_splits)
  have "m_oidc demo_manager = None" by (simp add: demo_manager_def)
  from ok [unfolded token_accepted_iff [OF this]] ok show ?thesis by blast
qed

section \<open>External tokens\<close>

lemma filter_breaks_append_bang:
  "filter (\<lambda>ch. of_char ch \<notin> {10, 13 :: nat}) (t @ ''!'') = filter (\<lambda>ch. of_char ch \<notin> {10, 13 :: nat}) t @ ''!''"
  by simp

lemma b64_bang: "b64_decode (t @ ''!'') = None"
  unfolding b64_decode_def filter_breaks_append_bang by (simp add: those_append b64_val_def split: option.splits)

lemma four_dvd_step: "4 dvd Suc (Suc (Suc (Suc n))) \<longleftrightarrow> 4 dvd n"
  by presburger

lemma ungroup_length: "b64_ungroup vs = Some bs \<Longrightarrow> length bs mod 3 = 0 \<Longrightarrow> 4 dvd length vs"
proof (induction vs arbitrary: bs rule: b64_ungroup.induct)
  case (5 p q r s t)
  then obtain u where u: "b64_ungroup t = Some u" "length bs = length u + 3" by (auto split: option.splits)
  then have "length u mod 3 = 0" using 5(3) by simp
  with 5 u show ?case by (simp add: four_dvd_step)
qed auto

lemma quanta_None:
  "4 dvd length vs \<Longrightarrow> b64_quanta (map Some vs @ [None]) = b64_quanta (map Some vs)"
proof (induction vs rule: b64_ungroup.induct)
  case (5 p q r s t)
  then have "4 dvd length t" by (simp add: four_dvd_step)
  with 5 show ?case by simp
qed (auto dest: dvd_imp_le)

lemma b64_partial_bang:
  assumes "b64_decode t = Some u" "length u mod 3 = 0"
  shows "b64_partial (t @ ''!'') = u"
proof -
  let ?f = "filter (\<lambda>ch. of_char ch \<notin> {10, 13 :: nat})"
  from assms(1) obtain vs bs where vs: "map b64_val (?f t) = map Some vs" and bs: "b64_ungroup vs = Some bs" "u = map char_of bs"
    by (auto simp: b64_decode_def dest!: those_SomeD split: option.splits)
  have "4 dvd length vs" by (rule ungroup_length [OF bs(1)]) (use assms(2) bs(2) in simp)
  then show ?thesis
    using vs bs unfolding b64_partial_def filter_breaks_append_bang
    by (simp add: quanta_None b64_quanta_ungroup b64_val_def)
qed

text \<open>C40: A malformed signature is accepted. When the signature of an external token decodes to a number of bytes divisible by three (the 384 bytes of a
  3072-bit RSA key) and verifies, the same token with a character outside the alphabet appended is accepted too, although its
  signature part does not decode: the second attempt verifies the bytes that came before the decoding error.\<close>

theorem oidc_malformed_signature_accepted:
  assumes "b64_decode s = Some u" "length u mod 3 = 0"
    and "fst (oidc_key env kid False now v) = Inr k1" and "fst (oidc_key env kid True now (snd (oidc_key env kid False now v))) = Inr k"
    and "ae_rsa env k hash u"
  shows "b64_decode (s @ ''!'') = None \<and> fst (check_signature env kid hash (s @ ''!'') now v) = Inr ()"
  using assms b64_bang [of s] b64_partial_bang [OF assms(1,2)]
  by (auto simp: check_signature_def split: prod.splits)

lemma decodeRSA_demo: "decodeRSA ''AQAB'' ''AQAB'' = Some (65537, 65537)"
  by (simp add: decodeRSA_def b64_decode_def b64_val_def big_endian_def Let_def)

lemma demo_oidc_key:
  "fst (oidc_key demo_auth ''k'' force now v) = Inr \<lparr>rk_N = 65537, rk_E = 65537\<rparr>" if "ov_keys v = fmempty \<or> force"
proof -
  have "fst (fetch_keys demo_auth ''k'' force now v) = Inr \<lparr>rk_N = 65537, rk_E = 65537\<rparr>"
    by (simp add: fetch_keys_def demo_auth_def jwk_step_def key_lookup_def decodeRSA_demo)
  with that show ?thesis by (auto simp: oidc_key_def)
qed

definition demo_oidc :: OIDCVerifier where
  "demo_oidc = \<lparr>ov_Issuer = ''https://idp'', ov_Audience = ''troop'', ov_JWKSURL = ''https://idp/keys'', ov_CacheTTL = hour,
     ov_keys = fmempty, ov_expires = zero_time\<rparr>"

theorem oidc_malformed_signature_accepted_witness:
  "b64_decode ''YWJj!'' = None \<and> fst (check_signature demo_auth ''k'' ''hash'' ''YWJj!'' 0 demo_oidc) = Inr ()"
proof -
  have s: "b64_decode ''YWJj'' = Some ''abc''" by code_simp
  have "fst (oidc_key demo_auth ''k'' False 0 demo_oidc) = Inr \<lparr>rk_N = 65537, rk_E = 65537\<rparr>"
    by (rule demo_oidc_key) (simp add: demo_oidc_def)
  from oidc_malformed_signature_accepted [OF s _ this demo_oidc_key, of "''hash''"] show ?thesis
    by (simp add: demo_auth_def)
qed

section \<open>Artifact signatures\<close>

lemma sep_inj:
  assumes "a @ c # t = a' @ c # t'" "c \<notin> set a" "c \<notin> set a'"
  shows "a = a' \<and> t = t'"
  using assms
proof (induction a arbitrary: a')
  case Nil
  then show ?case by (cases a') auto
next
  case (Cons x a)
  then show ?case by (cases a') auto
qed

definition one_line :: "string \<Rightarrow> bool" where
  "one_line t \<longleftrightarrow> CHR 0x0A \<notin> set t"

lemma artifactMessage_inj:
  assumes eq: "artifactMessage a s l e = artifactMessage a' s' l' e'" and e: "in_int64 e" "in_int64 e'"
    and o: "list_all one_line [a, a', s, s', l, l']"
  shows "a = a' \<and> s = s' \<and> l = l' \<and> e = e'"
proof -
  have o: "CHR 0x0A \<notin> set a" "CHR 0x0A \<notin> set a'" "CHR 0x0A \<notin> set s" "CHR 0x0A \<notin> set s'" "CHR 0x0A \<notin> set l" "CHR 0x0A \<notin> set l'"
    using o by (simp_all add: one_line_def)
  have "a @ CHR 0x0A # s @ CHR 0x0A # l @ CHR 0x0A # itoa e = a' @ CHR 0x0A # s' @ CHR 0x0A # l' @ CHR 0x0A # itoa e'"
    using eq unfolding artifactMessage_def by (simp only: append_Cons append_Nil same_append_eq list.inject)
  note 1 = sep_inj [OF this o(1,2)]
  note 2 = sep_inj [OF conjunct2 [OF 1] o(3,4)]
  note 3 = sep_inj [OF conjunct2 [OF 2] o(5,6)]
  have "ParseInt (itoa e) = ParseInt (itoa e')" using conjunct2 [OF 3] by (rule arg_cong)
  then have "e = e'" unfolding ParseInt_itoa [OF e(1)] ParseInt_itoa [OF e(2)] by (rule option.inject [THEN iffD1])
  then show ?thesis using 1 2 3 by blast
qed

text \<open>With a line break in an identifier the message is ambiguous: two different triples have the same signature.\<close>

lemma artifact_signature_ambiguous:
  "SignArtifact env m a (s @ [CHR 0x0A] @ x) l e = SignArtifact env m a s (x @ [CHR 0x0A] @ l) e"
  by (simp add: SignArtifact_def artifactMessage_def)

text \<open>C36: A signed URL opens one artifact, once signed, until it expires. For identifiers without line breaks and a MAC without collision on the two
  messages, the signature made for one artifact, subject, lease and expiry verifies exactly for the same four, and only
  before the expiry. The condition on line breaks is needed, because the message joins its parts with line breaks and escapes
  nothing: whatever the secret, a subject that contains one has the signature of another subject and lease.\<close>

theorem artifact_url_bound:
  assumes "in_int64 (Unix e)" "in_int64 (Unix e')" "list_all one_line [a', a, s', s, l', l]"
    and "mac env m (artifactMessage a' s' l' (Unix e')) = mac env m (artifactMessage a s l (Unix e)) \<Longrightarrow>
      artifactMessage a' s' l' (Unix e') = artifactMessage a s l (Unix e)"
  shows "(VerifyArtifactURL env m a' s' l' (itoa (Unix e')) (SignArtifact env m a s l e) now = Inr ()
      \<longleftrightarrow> a' = a \<and> s' = s \<and> l' = l \<and> Unix e' = Unix e \<and> Unix now < Unix e)
    \<and> SignArtifact env m a (s @ [CHR 0x0A] @ x) l e = SignArtifact env m a s (x @ [CHR 0x0A] @ l) e"
proof -
  have "mac env m (artifactMessage a' s' l' (Unix e')) = mac env m (artifactMessage a s l (Unix e))
      \<longleftrightarrow> a' = a \<and> s' = s \<and> l' = l \<and> Unix e' = Unix e"
    using artifactMessage_inj [OF assms(4) assms(2,1,3)] by auto
  moreover have "VerifyArtifactURL env m a' s' l' (itoa (Unix e')) (SignArtifact env m a s l e) now = Inr ()
      \<longleftrightarrow> Unix now < Unix e' \<and> mac env m (artifactMessage a' s' l' (Unix e')) = mac env m (artifactMessage a s l (Unix e))"
    by (auto simp: VerifyArtifactURL_def SignArtifact_def ParseInt_itoa [OF assms(2)] b64_roundtrip)
  ultimately have "VerifyArtifactURL env m a' s' l' (itoa (Unix e')) (SignArtifact env m a s l e) now = Inr ()
      \<longleftrightarrow> a' = a \<and> s' = s \<and> l' = l \<and> Unix e' = Unix e \<and> Unix now < Unix e" by auto
  then show ?thesis using artifact_signature_ambiguous by (rule conjI)
qed

theorem artifact_url_bound_witness:
  "VerifyArtifactURL demo_auth demo_manager ''art'' ''ops'' ''lse'' (itoa (Unix (60 * second)))
       (SignArtifact demo_auth demo_manager ''art'' ''ops'' ''lse'' (60 * second)) 0 = Inr ()
   \<and> VerifyArtifactURL demo_auth demo_manager ''art2'' ''ops'' ''lse'' (itoa (Unix (60 * second)))
       (SignArtifact demo_auth demo_manager ''art'' ''ops'' ''lse'' (60 * second)) 0 \<noteq> Inr ()"
proof -
  have law: "mac demo_auth demo_manager x = mac demo_auth demo_manager y \<Longrightarrow> x = y" for x y
    by (simp add: mac_def demo_auth_def)
  have e: "in_int64 (Unix (60 * second))" by (simp add: in_int64_def Unix_def second_def)
  have o: "list_all one_line [x, ''art'', ''ops'', ''ops'', ''lse'', ''lse'']" if "x = ''art'' \<or> x = ''art2''" for x
    using that by (auto simp: one_line_def)
  have "Unix 0 < Unix (60 * second)" by (simp add: Unix_def second_def)
  then have "VerifyArtifactURL demo_auth demo_manager x ''ops'' ''lse'' (itoa (Unix (60 * second)))
       (SignArtifact demo_auth demo_manager ''art'' ''ops'' ''lse'' (60 * second)) 0 = Inr () \<longleftrightarrow> x = ''art''"
    if "x = ''art'' \<or> x = ''art2''" for x
    using artifact_url_bound [OF e e o [OF that] law] by auto
  from this [of "''art''"] this [of "''art2''"] show ?thesis by simp
qed

end
