(* ===== verification/ApiHttp.thy ===== *)
theory ApiHttp
  imports AuthTokens
begin

text \<open>
  The HTTP edge: requests and responses, \<open>internal/api/router.go\<close>, the route table and the error mapping of
  \<open>internal/api/http.go\<close>, the access policy of \<open>internal/api/auth.go\<close>, and the tracing and metrics
  middleware of \<open>internal/api/m9.go\<close>.

  A request carries its body as the bytes that arrive and the transport error after them, if any; its
  context holds the path values and the identity the middleware put there. A handler that writes nothing
  answers with status 200 and no body, as \<open>net/http\<close> does.
\<close>

section \<open>Requests\<close>

record Request =
  rq_Method :: string
  rq_Path :: string
  rq_Header :: "string \<Rightarrow> string"
  rq_Query :: "string \<Rightarrow> string"
  rq_Body :: string
  rq_BodyErr :: "string option"
  rq_Host :: string
  rq_TLS :: bool
  rq_Identity :: "Identity option"
  rq_PathValues :: "(string, string) fmap"

definition pv :: "Request \<Rightarrow> string \<Rightarrow> string" where
  "pv rq name = header_get (rq_PathValues rq) name"

section \<open>Responses\<close>

record OfferView =
  of_Subtask :: Subtask
  of_LeaseID :: string
  of_FencingToken :: int
  of_ContextPackage :: ContextPackage

record AgentCard =
  ac_URL :: string
  ac_Bearer :: bool

record MetricRow =
  mr_Method :: string
  mr_Route :: string
  mr_Status :: string
  mr_Count :: "64 word"
  mr_DurationSec :: float64

text \<open>\<open>BErr p e\<close> is the object whose field \<open>error\<close> is \<open>p\<close> followed by the text of the error.\<close>

datatype ErrorBody = EMsg string | EErr string error | EAuth auth_error | EDecode string

text \<open>JSON-RPC results.\<close>

record A2ATask =
  at_ID :: string
  at_State :: string
  at_Metadata :: "(Mission \<times> Subtask list) option"

datatype ToolValue = TMission Mission | TProjection Mission "Subtask list" | TCancelled string | TSubtask Subtask

datatype RpcResult =
    RTask A2ATask | RBareTask A2ATask
  | RDiscover | RInitialize string | RPong | RTools | RResources | RTemplates
  | RContents string Mission "Subtask list" | RToolValue ToolValue | RToolError ErrorBody

record RpcError =
  re_Code :: int
  re_Message :: ErrorBody

datatype Body =
    BNone | BError ErrorBody | BStatus string | BReady string
  | BMission Mission | BMissionView Mission "Subtask list" | BBudget BudgetAccount "BudgetHold list"
  | BAgent Agent | BOffers "OfferView list" | BContext ContextPackage | BSubtask Subtask
  | BDeduplicated "Subtask option" | BInbox "LeadInboxItem list" | BInboxItem LeadInboxItem
  | BSnapshot LeadSnapshot | BLeadContext LeadContext | BDecisions "Decision list" | BDecision Decision
  | BIntent IntentResult | BEntries "BoardEntry list" | BEntry BoardEntry | BArtifact Artifact
  | BContent string string | BQuality QualityRecord | BReputations string "ReputationRecord list"
  | BUsage UsageReport | BOperational OperationalSnapshot | BMetrics OperationalSnapshot "MetricRow list"
  | BSimulation SimulationReport | BAgents "Agent list" | BCanary CanaryResult
  | BAppeal QualityAppeal | BAppeals "QualityAppeal list" | BRecords "MeterRecord list"
  | BToken string int | BSignedURL string time | BCard AgentCard | BConsole
  | BEvents "Event list" | BRpc "string" "RpcResult option" "RpcError option"

record Response =
  rs_Status :: int
  rs_Body :: Body

definition writeJSON :: "int \<Rightarrow> Body \<Rightarrow> Response" where
  "writeJSON code v = \<lparr>rs_Status = code, rs_Body = v\<rparr>"

definition writeErr :: "error \<Rightarrow> Response" where
  "writeErr err =
     (case err of
        ErrNotFound \<Rightarrow> writeJSON 404 (BError (EErr '''' err))
      | ErrConflict \<Rightarrow> writeJSON 409 (BError (EErr ''conflict: '' err))
      | ErrFenced \<Rightarrow> writeJSON 409 (BError (EMsg ''fenced: stale fencing token''))
      | ErrInvalidDAG \<Rightarrow> writeJSON 400 (BError (EErr '''' err))
      | ErrInvalidQuality \<Rightarrow> writeJSON 400 (BError (EErr '''' err))
      | ErrInvalidProductInput \<Rightarrow> writeJSON 400 (BError (EErr '''' err))
      | ErrDuplicate \<Rightarrow> writeJSON 409 (BError (EErr ''duplicate: '' err))
      | ErrInvalidCondition \<Rightarrow> writeJSON 400 (BError (EErr '''' err))
      | ErrInvalidLeadInput \<Rightarrow> writeJSON 400 (BError (EErr '''' err))
      | ErrInvalidBudget \<Rightarrow> writeJSON 400 (BError (EErr '''' err))
      | ErrBudgetRequired \<Rightarrow> writeJSON 400 (BError (EErr '''' err))
      | ErrInvalidPermission \<Rightarrow> writeJSON 400 (BError (EErr '''' err))
      | ErrPermissionExceeded \<Rightarrow> writeJSON 400 (BError (EErr '''' err))
      | ErrBudgetExceeded \<Rightarrow> writeJSON 409 (BError (EErr '''' err))
      | ErrForbidden \<Rightarrow> writeJSON 403 (BError (EErr '''' err))
      | _ \<Rightarrow> writeJSON 500 (BError (EErr '''' err)))"

definition forbidden :: Response where
  "forbidden = writeJSON 403 (BError (EAuth AuthForbidden))"

section \<open>Bodies\<close>

text \<open>
  A decoder returns the value it filled in and the text of the error, if any: \<open>json.Decoder.Decode\<close> reads the
  first value of the stream, \<open>json.Unmarshal\<close> the whole text.
\<close>

type_synonym 'a stream_decoder = "string \<Rightarrow> string option \<Rightarrow> 'a \<times> string option"
type_synonym 'a text_decoder = "string \<Rightarrow> 'a \<times> string option"

definition decode :: "'a stream_decoder \<Rightarrow> Request \<Rightarrow> Response + 'a" where
  "decode dec rq =
     (case dec (rq_Body rq) (rq_BodyErr rq) of
        (_, Some err) \<Rightarrow> Inl (writeJSON 400 (BError (EDecode err)))
      | (v, None) \<Rightarrow> Inr v)"

definition readBodyLimited :: "Request \<Rightarrow> int \<Rightarrow> Response + string" where
  "readBodyLimited rq limit =
     (if int (length (rq_Body rq)) > limit then Inl (writeJSON 413 (BError (EMsg ''request body too large'')))
      else case rq_BodyErr rq of
          Some err \<Rightarrow> Inl (writeJSON 400 (BError (EMsg err)))
        | None \<Rightarrow> Inr (rq_Body rq))"

definition decodeLimited :: "'a text_decoder \<Rightarrow> Request \<Rightarrow> int \<Rightarrow> Response + 'a" where
  "decodeLimited dec rq limit =
     (case readBodyLimited rq limit of
        Inl r \<Rightarrow> Inl r
      | Inr body \<Rightarrow> (case dec body of (_, Some err) \<Rightarrow> Inl (writeJSON 400 (BError (EDecode err))) | (v, None) \<Rightarrow> Inr v))"

section \<open>The router\<close>

text \<open>The handler methods of the server.\<close>

datatype Handler =
    h_healthz | h_readyz | h_agentCard | h_a2aJSONRPC | h_mcpJSONRPC | h_issueToken
  | h_createMission | h_getMission | h_getMissionBudget | h_getUsage | h_cancelMission | h_missionEventsSSE
  | h_registerAgent | h_heartbeat | h_listOffers | h_getReputation
  | h_acceptLease | h_getLeaseContext | h_startSubtask | h_progress | h_completeSubtask | h_failSubtask | h_suspend | h_wake
  | h_listLeadInbox | h_ingestLeadInbox | h_leadHeartbeat | h_leadContext
  | h_listDecisions | h_resolveDecision | h_requestDecision
  | h_boardList | h_boardGet | h_boardPut
  | h_putArtifact | h_getArtifact | h_getArtifactContent | h_signArtifactURL | h_verifyArtifact | h_getQuality
  | h_observabilitySnapshot | h_prometheusMetrics
  | h_runSimulation | h_evaluateCanary | h_marketplaceAgents | h_createAppeal | h_listAppeals | h_resolveAppeal | h_gatewayMeter
  | h_submitIntent | h_console

record Route =
  rt_method :: string
  rt_segs :: "string list"
  rt_h :: Handler

definition path_segs :: "string \<Rightarrow> string list" where
  "path_segs path = (let path = trim_char (CHR ''/'') path in if path = '''' then [] else split_on (CHR ''/'') path)"

text \<open>\<open>handle\<close> on a pattern with its method.\<close>

definition handle :: "string \<times> string \<times> Handler \<Rightarrow> Route" where
  "handle p = (case p of (meth, path, h) \<Rightarrow> \<lparr>rt_method = meth, rt_segs = path_segs path, rt_h = h\<rparr>)"

definition is_param :: "string \<Rightarrow> bool" where
  "is_param seg \<longleftrightarrow> has_prefix ''{'' seg \<and> has_suffix ''}'' seg"

definition param_name :: "string \<Rightarrow> string" where
  "param_name seg = take (length seg - 2) (drop 1 seg)"

fun match_segs :: "string list \<Rightarrow> string list \<Rightarrow> (string, string) fmap \<Rightarrow> (string, string) fmap option" where
  "match_segs (seg # pat) (x # segs) vals =
     (if is_param seg then match_segs pat segs (fmupd (param_name seg) x vals)
      else if seg \<noteq> x then None else match_segs pat segs vals)"
| "match_segs _ _ vals = Some vals"

fun find_route :: "Route list \<Rightarrow> string \<Rightarrow> string list \<Rightarrow> (Handler \<times> (string, string) fmap) option" where
  "find_route [] meth segs = None"
| "find_route (ro # routes) meth segs =
     (if rt_method ro \<noteq> meth \<or> length (rt_segs ro) \<noteq> length segs then find_route routes meth segs
      else case match_segs (rt_segs ro) segs fmempty of
          Some vals \<Rightarrow> Some (rt_h ro, vals)
        | None \<Rightarrow> find_route routes meth segs)"

definition patterns :: "bool \<Rightarrow> (string \<times> string \<times> Handler) list" where
  "patterns authenticated =
    [(''GET'', ''/healthz'', h_healthz),
     (''GET'', ''/readyz'', h_readyz),
     (''GET'', ''/.well-known/agent-card.json'', h_agentCard),
     (''POST'', ''/a2a'', h_a2aJSONRPC),
     (''POST'', ''/mcp'', h_mcpJSONRPC)]
    @ (if authenticated then [(''POST'', ''/v1/auth/tokens'', h_issueToken)] else []) @
    [(''POST'', ''/v1/missions'', h_createMission),
     (''GET'', ''/v1/missions/{id}'', h_getMission),
     (''GET'', ''/v1/missions/{id}/budget'', h_getMissionBudget),
     (''GET'', ''/v1/missions/{id}/usage'', h_getUsage),
     (''POST'', ''/v1/missions/{id}/cancel'', h_cancelMission),
     (''GET'', ''/v1/missions/{id}/events'', h_missionEventsSSE),
     (''POST'', ''/v1/agents/register'', h_registerAgent),
     (''POST'', ''/v1/agents/{id}/heartbeat'', h_heartbeat),
     (''GET'', ''/v1/agents/{id}/offers'', h_listOffers),
     (''GET'', ''/v1/agents/{id}/reputation'', h_getReputation),
     (''POST'', ''/v1/leases/{id}/accept'', h_acceptLease),
     (''GET'', ''/v1/leases/{id}/context'', h_getLeaseContext),
     (''POST'', ''/v1/subtasks/{id}/start'', h_startSubtask),
     (''POST'', ''/v1/subtasks/{id}/progress'', h_progress),
     (''POST'', ''/v1/subtasks/{id}/complete'', h_completeSubtask),
     (''POST'', ''/v1/subtasks/{id}/fail'', h_failSubtask),
     (''POST'', ''/v1/subtasks/{id}/suspend'', h_suspend),
     (''POST'', ''/v1/subtasks/{id}/wake'', h_wake),
     (''GET'', ''/v1/subtasks/{id}/lead/inbox'', h_listLeadInbox),
     (''POST'', ''/v1/subtasks/{id}/lead/inbox/{item}/ingest'', h_ingestLeadInbox),
     (''POST'', ''/v1/subtasks/{id}/lead/heartbeat'', h_leadHeartbeat),
     (''GET'', ''/v1/subtasks/{id}/lead/context'', h_leadContext),
     (''GET'', ''/v1/decisions'', h_listDecisions),
     (''POST'', ''/v1/decisions/{id}/resolve'', h_resolveDecision),
     (''POST'', ''/v1/subtasks/{id}/request_decision'', h_requestDecision),
     (''GET'', ''/v1/missions/{id}/board/{ns}'', h_boardList),
     (''GET'', ''/v1/missions/{id}/board/{ns}/{key}'', h_boardGet),
     (''PUT'', ''/v1/missions/{id}/board/{ns}/{key}'', h_boardPut),
     (''POST'', ''/v1/artifacts'', h_putArtifact),
     (''GET'', ''/v1/artifacts/{id}'', h_getArtifact),
     (''GET'', ''/v1/artifacts/{id}/content'', h_getArtifactContent),
     (''POST'', ''/v1/artifacts/{id}/signed-url'', h_signArtifactURL),
     (''POST'', ''/v1/artifacts/{id}/verify'', h_verifyArtifact),
     (''GET'', ''/v1/artifacts/{id}/quality'', h_getQuality),
     (''GET'', ''/v1/observability/snapshot'', h_observabilitySnapshot),
     (''GET'', ''/metrics'', h_prometheusMetrics),
     (''POST'', ''/v1/simulations/run'', h_runSimulation),
     (''POST'', ''/v1/canaries/evaluate'', h_evaluateCanary),
     (''GET'', ''/v1/marketplace/agents'', h_marketplaceAgents),
     (''POST'', ''/v1/artifacts/{id}/appeals'', h_createAppeal),
     (''GET'', ''/v1/appeals'', h_listAppeals),
     (''POST'', ''/v1/appeals/{id}/resolve'', h_resolveAppeal),
     (''POST'', ''/v1/metering/gateway'', h_gatewayMeter),
     (''POST'', ''/v1/intents'', h_submitIntent),
     (''GET'', ''/'', h_console)]"

definition routes :: "bool \<Rightarrow> Route list" where
  "routes authenticated = map handle (patterns authenticated)"

definition route_of :: "bool \<Rightarrow> Request \<Rightarrow> (Handler \<times> (string, string) fmap) option" where
  "route_of authenticated rq = find_route (routes authenticated) (rq_Method rq) (path_segs (rq_Path rq))"

section \<open>The access policy\<close>

definition publicRoute :: "Request \<Rightarrow> bool" where
  "publicRoute rq \<longleftrightarrow>
     rq_Method rq = ''GET'' \<and> rq_Path rq \<in> set [''/'', ''/healthz'', ''/readyz'', ''/.well-known/agent-card.json'']
     \<or> rq_Method rq = ''POST'' \<and> rq_Path rq = ''/v1/auth/tokens''
     \<or> rq_Method rq = ''GET'' \<and> has_prefix ''/v1/artifacts/'' (rq_Path rq) \<and> has_suffix ''/content'' (rq_Path rq)"

definition routeAllowed :: "Identity \<Rightarrow> Request \<Rightarrow> bool" where
  "routeAllowed identity rq =
     (let p = rq_Path rq in
      if Privileged identity then True
      else if id_Kind identity \<noteq> ''agent'' then False
      else if p = ''/v1/agents/register'' \<or> has_suffix ''/wake'' p then False
      else if has_prefix ''/v1/artifacts/'' p \<and> has_suffix ''/verify'' p then True
      else has_prefix ''/v1/agents/'' p \<or> has_prefix ''/v1/leases/'' p \<or> has_prefix ''/v1/subtasks/'' p
        \<or> p = ''/v1/intents'' \<or> p = ''/v1/artifacts'' \<or> has_suffix ''/signed-url'' p)"

definition requestActor :: "Request \<Rightarrow> Actor \<Rightarrow> Actor" where
  "requestActor rq fallback =
     (case rq_Identity rq of Some i \<Rightarrow> \<lparr>ac_Kind = id_Kind i, ac_ID = id_Subject i\<rparr> | None \<Rightarrow> fallback)"

text \<open>A handler that finds no identity in the context works with the zero identity.\<close>

definition identity_or_zero :: "Request \<Rightarrow> Identity" where
  "identity_or_zero rq = (case rq_Identity rq of Some i \<Rightarrow> i
     | None \<Rightarrow> \<lparr>id_Subject = '''', id_Kind = '''', id_Scopes = [], id_Issued = 0, id_Expires = 0\<rparr>)"

section \<open>Tracing and metrics\<close>

definition is_hex :: "char \<Rightarrow> bool" where
  "is_hex c \<longleftrightarrow> (let n = of_char c :: nat in 48 \<le> n \<and> n \<le> 57 \<or> 97 \<le> n \<and> n \<le> 102 \<or> 65 \<le> n \<and> n \<le> 70)"

text \<open>\<open>traceID\<close> and \<open>spanID\<close> are the hexadecimal form of the random bytes.\<close>

definition ensureTraceparent :: "string \<Rightarrow> string \<Rightarrow> string \<Rightarrow> string \<times> string" where
  "ensureTraceparent traceID spanID value =
     (let fresh = (''00-'' @ traceID @ ''-'' @ spanID @ ''-01'', traceID) in
      case split_on (CHR ''-'') value of
        [p0, p1, p2, p3] \<Rightarrow>
          if p0 = ''00'' \<and> length p1 = 32 \<and> length p2 = 16 \<and> length p3 = 2 \<and> list_all is_hex (p1 @ p2 @ p3)
             \<and> p1 \<noteq> replicate 32 (CHR ''0'') \<and> p2 \<noteq> replicate 16 (CHR ''0'')
          then (value, p1) else fresh
      | _ \<Rightarrow> fresh)"

definition metricPath :: "string \<Rightarrow> string" where
  "metricPath path =
     (let parts = split_on (CHR ''/'') (trim_char (CHR ''/'') path);
          parts = (if length parts \<ge> 3 \<and> parts ! 0 = ''v1''
                     \<and> parts ! 1 \<in> set [''missions'', ''agents'', ''leases'', ''subtasks'', ''decisions'', ''artifacts'']
                   then parts[2 := '':id''] else parts)
      in ''/'' @ join ''/'' parts)"

record requestMetric =
  rm_Count :: "64 word"
  rm_DurationSec :: float64

text \<open>\<open>Duration.Seconds\<close>: whole seconds plus the fraction of the rest.\<close>

definition Seconds :: "duration \<Rightarrow> float64" where
  "Seconds d = fadd (float_of_int (go_quot d second)) (fdiv (float_of_int (d - go_quot d second * second)) 1000000000)"

definition metric_key :: "Request \<Rightarrow> int \<Rightarrow> string" where
  "metric_key rq status = rq_Method rq @ NUL @ metricPath (rq_Path rq) @ NUL @ itoa status"

definition count_request :: "string \<Rightarrow> time \<Rightarrow> time \<Rightarrow> (string, requestMetric) fmap \<Rightarrow> (string, requestMetric) fmap" where
  "count_request key start stop requests =
     (let metric = (case fmlookup requests key of None \<Rightarrow> \<lparr>rm_Count = 0, rm_DurationSec = 0\<rparr> | Some m \<Rightarrow> m)
      in fmupd key \<lparr>rm_Count = rm_Count metric + 1,
           rm_DurationSec = fadd (rm_DurationSec metric) (Seconds (time_sub stop start))\<rparr> requests)"

definition metric_row :: "string \<times> requestMetric \<Rightarrow> MetricRow" where
  "metric_row e = (case e of (key, m) \<Rightarrow>
     let parts = split_on (hd NUL) key
     in \<lparr>mr_Method = parts ! 0, mr_Route = parts ! 1, mr_Status = parts ! 2, mr_Count = rm_Count m, mr_DurationSec = rm_DurationSec m\<rparr>)"

definition writePrometheus :: "(string, requestMetric) fmap \<Rightarrow> MetricRow list" where
  "writePrometheus requests = map metric_row (map (\<lambda>k. (k, the (fmlookup requests k))) (sorted_list_of_fset (fmdom requests)))"

end
