(* ===== verification/ApiServer.thy ===== *)
theory ApiServer
  imports ApiHttp CoreQuery CoreSweep CoreQuality
begin

text \<open>
  The server of \<open>internal/api\<close>: its state, the parameters of a request, the identity checks of
  \<open>internal/api/auth.go\<close> and the handlers of \<open>internal/api/http.go\<close>. A handler takes the parameters, the
  request and the server and returns the response it wrote, if any, and the server it leaves.
\<close>

section \<open>Request bodies\<close>

record createMissionReq =
  cm_Owner :: string
  cm_Goal :: string
  cm_BudgetTokens :: int
  cm_Tasks :: "TaskSpec list"

record registerAgentReq =
  ra_ID :: string
  ra_Name :: string
  ra_Platform :: string
  ra_Endpoint :: "(string, string) fmap"
  ra_Capabilities :: "Capability list"
  ra_MaxConcurrency :: int
  ra_TriggerScopes :: "string list"
  ra_AuthSubject :: string

record acceptReq =
  aq_AgentID :: string
  aq_FencingToken :: int
  aq_SubtaskVersion :: int

record fencedReq =
  fq_AgentID :: string
  fq_FencingToken :: int
  fq_Version :: int

record progressReq =
  pq_AgentID :: string
  pq_LeaseID :: string
  pq_FencingToken :: int
  pq_Checkpoint :: string

record ingestLeadInboxReq =
  iq_AgentID :: string
  iq_FencingToken :: int
  iq_ExpectedVersion :: int
  iq_Mode :: string

record leadHeartbeatReq =
  lq_AgentID :: string
  lq_FencingToken :: int
  lq_ExpectedVersion :: "int option"
  lq_Snapshot :: string

record suspendReq =
  sq_AgentID :: string
  sq_FencingToken :: int
  sq_Version :: int
  sq_WakeOn :: WakeSpec
  sq_Checkpoint :: string

record completeReq =
  cq_AgentID :: string
  cq_FencingToken :: int
  cq_Version :: int
  cq_IdempotencyKey :: string
  cq_ResultRef :: string
  cq_UsageTokens :: int

record failReq =
  flq_AgentID :: string
  flq_FencingToken :: int
  flq_Version :: int
  flq_Reason :: string

record resolveReq =
  rq_Choice :: string
  rq_Rationale :: string
  rq_DeciderID :: string

record requestDecisionReq =
  dq_AgentID :: string
  dq_FencingToken :: int
  dq_Version :: int
  dq_Question :: string
  dq_Options :: "string list"

record verifyArtifactRequest =
  vr_Input :: VerifyArtifactInput
  vr_VerifierAgentID :: string

record tokenRequest =
  tq_Subject :: string
  tq_Kind :: string
  tq_Scopes :: "string list"
  tq_TTLSeconds :: int

record signArtifactRequest =
  sg_AgentID :: string
  sg_LeaseID :: string
  sg_ExpiresIn :: int

record appealReq =
  al_AppellantID :: string
  al_Reason :: string
  al_EvidenceRefs :: "string list"

record resolveAppealReq =
  rl_Status :: string
  rl_Resolution :: string
  rl_ReviewerID :: string

record jsonRPCRequest =
  jr_JSONRPC :: string
  jr_ID :: string
  jr_Method :: string
  jr_Params :: string

record A2APart =
  pt_Kind :: string
  pt_Text :: string

type_synonym a2aMessage = "A2APart list"

section \<open>Parameters of a request\<close>

text \<open>
  The decoders of \<open>encoding/json\<close>, one per request type. \<open>cd_mcpVersion\<close> and \<open>cd_mcpName\<close> read a
  string out of the parameters of an MCP call (empty when it is missing or not a string), \<open>cd_url\<close> is
  \<open>url.Parse\<close> (scheme, host, path), \<open>cd_float\<close> is \<open>strconv.ParseFloat\<close> on finite numbers and
  \<open>cd_message\<close> the input a message becomes.
\<close>

record Codec =
  cd_createMission :: "createMissionReq stream_decoder"
  cd_owner :: "string stream_decoder"
  cd_register :: "registerAgentReq stream_decoder"
  cd_accept :: "acceptReq stream_decoder"
  cd_fenced :: "fencedReq stream_decoder"
  cd_progress :: "progressReq stream_decoder"
  cd_ingest :: "ingestLeadInboxReq stream_decoder"
  cd_leadHeartbeat :: "leadHeartbeatReq stream_decoder"
  cd_suspend :: "suspendReq stream_decoder"
  cd_actor :: "string stream_decoder"
  cd_complete :: "completeReq stream_decoder"
  cd_fail :: "failReq stream_decoder"
  cd_resolve :: "resolveReq stream_decoder"
  cd_decision :: "requestDecisionReq stream_decoder"
  cd_intent :: "Intent stream_decoder"
  cd_verify :: "verifyArtifactRequest text_decoder"
  cd_token :: "tokenRequest text_decoder"
  cd_sign :: "signArtifactRequest text_decoder"
  cd_simulation :: "SimulationInput text_decoder"
  cd_canary :: "CanaryInput text_decoder"
  cd_appeal :: "appealReq text_decoder"
  cd_resolveAppeal :: "resolveAppealReq text_decoder"
  cd_gateway :: "GatewayUsage text_decoder"
  cd_rpc :: "jsonRPCRequest text_decoder"
  cd_a2aMessage :: "a2aMessage text_decoder"
  cd_message :: "string \<Rightarrow> goval"
  cd_id :: "string text_decoder"
  cd_protocolVersion :: "string text_decoder"
  cd_uri :: "string text_decoder"
  cd_tool :: "(string \<times> string) text_decoder"
  cd_toolMission :: "createMissionReq text_decoder"
  cd_subtaskID :: "string text_decoder"
  cd_mcpVersion :: "string \<Rightarrow> string"
  cd_mcpName :: "string \<Rightarrow> string \<Rightarrow> string"
  cd_url :: "string \<Rightarrow> (string \<times> string \<times> string) option"
  cd_float :: "string \<Rightarrow> float64 option"

text \<open>
  What a request draws from its surroundings: the enumeration order of maps, the condition engine and JSON,
  hashing, the blob store, new ids, the clock (\<open>ev_now\<close>, and \<open>ev_stop\<close> when the response is
  complete), random trace ids, whether the client has gone, and how many ticks an event stream lives.
\<close>

record 'b ApiEnv =
  ev_ord :: order
  ev_eng :: CelEngine
  ev_js :: JSON
  ev_sha :: "string \<Rightarrow> string"
  ev_simDigest :: "SimCanonical \<Rightarrow> string"
  ev_bs :: "'b BlobStore"
  ev_validJSON :: "string \<Rightarrow> bool"
  ev_newID :: string
  ev_newSubID :: string
  ev_now :: time
  ev_stop :: time
  ev_trace :: string
  ev_span :: string
  ev_gone :: "error option"
  ev_ticks :: nat
  ev_auth :: AuthEnv
  ev_codec :: Codec

record 'b Srv =
  sr_svc :: Service
  sr_blob :: 'b
  sr_auth :: "Manager option"
  sr_metrics :: "(string, requestMetric) fmap"

definition NewServer :: "Service \<Rightarrow> 'b \<Rightarrow> 'b Srv" where
  "NewServer svc b = \<lparr>sr_svc = svc, sr_blob = b, sr_auth = None, sr_metrics = fmempty\<rparr>"

definition NewAuthenticated :: "Service \<Rightarrow> 'b \<Rightarrow> Manager \<Rightarrow> 'b Srv" where
  "NewAuthenticated svc b m = \<lparr>sr_svc = svc, sr_blob = b, sr_auth = Some m, sr_metrics = fmempty\<rparr>"

type_synonym 'b handled = "Response option \<times> 'b Srv"

abbreviation srv_store :: "'b Srv \<Rightarrow> Store" where
  "srv_store srv \<equiv> sv_st (sr_svc srv)"

section \<open>The shapes handlers share\<close>

text \<open>Decode the request or answer with the error; stop with a refusal; call the service and write its result or its error.\<close>

definition with_req :: "Response + 'a \<Rightarrow> ('a \<Rightarrow> 'b handled) \<Rightarrow> 'b Srv \<Rightarrow> 'b handled" where
  "with_req d k srv = (case d of Inl r \<Rightarrow> (Some r, srv) | Inr req \<Rightarrow> k req)"

definition guarded :: "Response option \<Rightarrow> 'b handled \<Rightarrow> 'b Srv \<Rightarrow> 'b handled" where
  "guarded refusal k srv = (case refusal of Some r \<Rightarrow> (Some r, srv) | None \<Rightarrow> k)"

definition reply :: "int \<Rightarrow> ('a \<Rightarrow> Body) \<Rightarrow> (error, 'a, Service) outcome \<Rightarrow> 'b Srv \<Rightarrow> 'b handled" where
  "reply code body r srv =
     (case r of
        (Inl e, svc) \<Rightarrow> (Some (writeErr e), srv\<lparr>sr_svc := svc\<rparr>)
      | (Inr v, svc) \<Rightarrow> (Some (writeJSON code (body v)), srv\<lparr>sr_svc := svc\<rparr>))"

definition respond :: "int \<Rightarrow> ('a \<Rightarrow> Body) \<Rightarrow> error + 'a \<Rightarrow> 'b Srv \<Rightarrow> 'b handled" where
  "respond code body r srv =
     (case r of Inl e \<Rightarrow> (Some (writeErr e), srv) | Inr v \<Rightarrow> (Some (writeJSON code (body v)), srv))"

definition bad_request :: "string \<Rightarrow> Response" where
  "bad_request msg = writeJSON 400 (BError (EMsg msg))"

section \<open>Identity checks\<close>

definition requireAgentIdentity :: "'b Srv \<Rightarrow> Request \<Rightarrow> string \<Rightarrow> Response option" where
  "requireAgentIdentity srv rq agentID =
     (if sr_auth srv = None then None
      else case rq_Identity rq of
          None \<Rightarrow> Some forbidden
        | Some identity \<Rightarrow>
            if id_Kind identity \<noteq> ''agent'' \<or> agentID = '''' then Some forbidden
            else case ServiceGetAgent agentID (srv_store srv) of
                Inl e \<Rightarrow> Some (writeErr e)
              | Inr agent \<Rightarrow>
                  let expected = (if a_AuthSubject agent = '''' then a_ID agent else a_AuthSubject agent) in
                  if id_Subject identity \<noteq> expected
                  then Some (writeJSON 403 (BError (EMsg ''authenticated subject does not own agent''))) else None)"

definition has_privilege :: "Request \<Rightarrow> bool" where
  "has_privilege rq \<longleftrightarrow> (case rq_Identity rq of None \<Rightarrow> False | Some i \<Rightarrow> Privileged i)"

definition requireAgentOrPrivileged :: "'b Srv \<Rightarrow> Request \<Rightarrow> string \<Rightarrow> Response option" where
  "requireAgentOrPrivileged srv rq agentID =
     (if sr_auth srv = None \<or> has_privilege rq then None else requireAgentIdentity srv rq agentID)"

definition requireSubtaskIdentity :: "'b Srv \<Rightarrow> Request \<Rightarrow> string \<Rightarrow> Response option" where
  "requireSubtaskIdentity srv rq subtaskID =
     (if sr_auth srv = None then None
      else case ServiceGetSubtask subtaskID (srv_store srv) of
          Inl e \<Rightarrow> Some (writeErr e)
        | Inr sub \<Rightarrow> requireAgentIdentity srv rq (st_Assignee sub))"

definition requireSubtaskOrPrivileged :: "'b Srv \<Rightarrow> Request \<Rightarrow> string \<Rightarrow> Response option" where
  "requireSubtaskOrPrivileged srv rq subtaskID =
     (if sr_auth srv = None \<or> has_privilege rq then None else requireSubtaskIdentity srv rq subtaskID)"

end
