(* ===== verification/ApiHandlers.thy ===== *)
theory ApiHandlers
  imports ApiServer CoreIntent
begin

text \<open>The handlers of \<open>internal/api/http.go\<close>, in the order of the file.\<close>

section \<open>Health\<close>

definition healthz :: "'b Srv \<Rightarrow> 'b handled" where
  "healthz srv = (Some (writeJSON 200 (BStatus ''ok'')), srv)"

text \<open>\<open>Ready\<close> asks the store, whose \<open>Ping\<close> only reports a cancelled context.\<close>

definition Ready :: "'b ApiEnv \<Rightarrow> error + unit" where
  "Ready env = (case ev_gone env of Some e \<Rightarrow> Inl e | None \<Rightarrow> Inr ())"

definition readyz :: "'b ApiEnv \<Rightarrow> 'b Srv \<Rightarrow> 'b handled" where
  "readyz env srv =
     (case Ready env of
        Inl _ \<Rightarrow> (Some (writeJSON 503 (BReady ''not_ready'')), srv)
      | Inr _ \<Rightarrow> (Some (writeJSON 200 (BReady ''ready'')), srv))"

section \<open>Missions\<close>

definition human_actor :: "string \<Rightarrow> Actor" where
  "human_actor ident = \<lparr>ac_Kind = ''human'', ac_ID = ident\<rparr>"

definition createMissionHandler :: "'b ApiEnv \<Rightarrow> Request \<Rightarrow> 'b Srv \<Rightarrow> 'b handled" where
  "createMissionHandler env rq srv =
     with_req (decode (cd_createMission (ev_codec env)) rq) (\<lambda>req.
       if cm_Owner req = '''' \<or> cm_Goal req = '''' \<or> cm_Tasks req = []
       then (Some (bad_request ''owner/goal/tasks required''), srv)
       else reply 201 BMission
         (on_store (CreateMissionWithBudgetAs (ev_ord env) (ev_newID env) (requestActor rq (human_actor (cm_Owner req)))
            (cm_Owner req) (cm_Goal req) (cm_BudgetTokens req) (cm_Tasks req) (ev_now env)) (sr_svc srv)) srv) srv"

definition getMission :: "'b ApiEnv \<Rightarrow> Request \<Rightarrow> 'b Srv \<Rightarrow> 'b handled" where
  "getMission env rq srv =
     respond 200 (\<lambda>m. BMissionView m (ServiceListSubtasks (ev_ord env) (pv rq ''id'') (srv_store srv)))
       (ServiceGetMission (pv rq ''id'') (srv_store srv)) srv"

definition getMissionBudget :: "'b ApiEnv \<Rightarrow> Request \<Rightarrow> 'b Srv \<Rightarrow> 'b handled" where
  "getMissionBudget env rq srv =
     respond 200 (\<lambda>(account, holds). BBudget account holds) (ServiceGetMissionBudget (ev_ord env) (pv rq ''id'') (srv_store srv)) srv"

text \<open>The error of the decoder is ignored: whatever it filled in is used.\<close>

definition cancelMission :: "'b ApiEnv \<Rightarrow> Request \<Rightarrow> 'b Srv \<Rightarrow> 'b handled" where
  "cancelMission env rq srv =
     (let body = fst (cd_owner (ev_codec env) (rq_Body rq) (rq_BodyErr rq));
          owner = (if body = '''' then ''anonymous'' else body)
      in reply 200 (\<lambda>_. BStatus ''cancelled'')
           (on_store (CancelMissionAs (ev_ord env) (pv rq ''id'') (requestActor rq (human_actor owner)) (ev_now env)) (sr_svc srv)) srv)"

section \<open>The event stream\<close>

text \<open>\<open>ParseInt\<close> with its error ignored: 0 on a syntax error, the nearest 64-bit integer when out of range.\<close>

definition parse_int_value :: "string \<Rightarrow> int" where
  "parse_int_value t =
     (case ParseInt t of
        Some v \<Rightarrow> v
      | None \<Rightarrow> (case t of
          [] \<Rightarrow> 0
        | c # u \<Rightarrow>
            if c = CHR ''-'' then (if parse_digits u = None then 0 else - (2 ^ 63))
            else if parse_digits (if c = CHR ''+'' then u else t) = None then 0 else 2 ^ 63 - 1))"

text \<open>One element per tick: the events written, and the position the next tick reads from.\<close>

fun sse_stream :: "string \<Rightarrow> int \<Rightarrow> Store list \<Rightarrow> Event list" where
  "sse_stream ident after [] = []"
| "sse_stream ident after (s # ticks) =
     (let evs = ServiceListMissionEvents ident after 200 s;
          after = (if evs = [] then after else e_Seq (last evs))
      in evs @ sse_stream ident after ticks)"

definition missionEventsSSE :: "'b ApiEnv \<Rightarrow> Request \<Rightarrow> 'b Srv \<Rightarrow> 'b handled" where
  "missionEventsSSE env rq srv =
     (let v = rq_Query rq ''after_seq''; after = (if v \<noteq> '''' then parse_int_value v else 0)
      in (Some (writeJSON 200 (BEvents (sse_stream (pv rq ''id'') after (replicate (ev_ticks env) (srv_store srv))))), srv))"

section \<open>Agents\<close>

definition new_agent :: "registerAgentReq \<Rightarrow> Agent" where
  "new_agent req = \<lparr>a_ID = ra_ID req, a_Name = ra_Name req, a_Platform = ra_Platform req, a_Endpoint = ra_Endpoint req,
     a_Capabilities = ra_Capabilities req, a_MaxConcurrency = ra_MaxConcurrency req, a_Health = '''', a_LastHeartbeat = zero_time,
     a_Running = 0, a_TriggerScopes = ra_TriggerScopes req, a_AuthSubject = ra_AuthSubject req, a_Reputation = fmempty\<rparr>"

definition registerAgent :: "'b ApiEnv \<Rightarrow> Request \<Rightarrow> 'b Srv \<Rightarrow> 'b handled" where
  "registerAgent env rq srv =
     with_req (decode (cd_register (ev_codec env)) rq) (\<lambda>req.
       if ra_Name req = '''' \<or> ra_Platform req = '''' then (Some (bad_request ''name/platform required''), srv)
       else reply 200 BAgent (on_store (RegisterAgent (ev_ord env) (ev_newID env) (new_agent req) (ev_now env)) (sr_svc srv)) srv) srv"

definition heartbeat :: "'b ApiEnv \<Rightarrow> Request \<Rightarrow> 'b Srv \<Rightarrow> 'b handled" where
  "heartbeat env rq srv =
     guarded (requireAgentIdentity srv rq (pv rq ''id''))
       (reply 200 (\<lambda>_. BStatus ''ok'') (on_store (Heartbeat (pv rq ''id'') (ev_now env)) (sr_svc srv)) srv) srv"

definition offer_view :: "Store \<Rightarrow> Subtask \<Rightarrow> OfferView option" where
  "offer_view s sub =
     (case ServiceGetLease (st_LeaseID sub) s of
        Inl _ \<Rightarrow> None
      | Inr l \<Rightarrow>
         (case ServiceGetContextPackage (l_ID l) s of
            Inl _ \<Rightarrow> None
          | Inr pkg \<Rightarrow> Some \<lparr>of_Subtask = sub, of_LeaseID = l_ID l, of_FencingToken = l_FencingToken l, of_ContextPackage = pkg\<rparr>))"

definition listOffers :: "'b ApiEnv \<Rightarrow> Request \<Rightarrow> 'b Srv \<Rightarrow> 'b handled" where
  "listOffers env rq srv =
     guarded (requireAgentIdentity srv rq (pv rq ''id''))
       (Some (writeJSON 200 (BOffers (List.map_filter (offer_view (srv_store srv))
          (ListOffers (ev_ord env) (pv rq ''id'') (srv_store srv))))), srv) srv"

definition getLeaseContext :: "Request \<Rightarrow> 'b Srv \<Rightarrow> 'b handled" where
  "getLeaseContext rq srv =
     (let pkg = respond 200 BContext (ServiceGetContextPackage (pv rq ''id'') (srv_store srv)) srv in
      if sr_auth srv = None then pkg
      else case ServiceGetLease (pv rq ''id'') (srv_store srv) of
          Inl e \<Rightarrow> (Some (writeErr e), srv)
        | Inr lease \<Rightarrow> guarded (requireAgentOrPrivileged srv rq (l_AgentID lease)) pkg srv)"

section \<open>Execution\<close>

definition acceptLease :: "'b ApiEnv \<Rightarrow> Request \<Rightarrow> 'b Srv \<Rightarrow> 'b handled" where
  "acceptLease env rq srv =
     with_req (decode (cd_accept (ev_codec env)) rq) (\<lambda>req.
       guarded (requireAgentIdentity srv rq (aq_AgentID req))
         (reply 200 BSubtask (on_store (ServiceAcceptLease (pv rq ''id'') (aq_FencingToken req) (aq_SubtaskVersion req)
            (aq_AgentID req) (ev_now env)) (sr_svc srv)) srv) srv) srv"

definition startSubtask :: "'b ApiEnv \<Rightarrow> Request \<Rightarrow> 'b Srv \<Rightarrow> 'b handled" where
  "startSubtask env rq srv =
     with_req (decode (cd_fenced (ev_codec env)) rq) (\<lambda>req.
       guarded (requireAgentIdentity srv rq (fq_AgentID req))
         (reply 200 BSubtask (on_store (ServiceStartSubtask (pv rq ''id'') (fq_FencingToken req) (fq_Version req)
            (fq_AgentID req) (ev_now env)) (sr_svc srv)) srv) srv) srv"

definition progress :: "'b ApiEnv \<Rightarrow> Request \<Rightarrow> 'b Srv \<Rightarrow> 'b handled" where
  "progress env rq srv =
     with_req (decode (cd_progress (ev_codec env)) rq) (\<lambda>req.
       guarded (requireAgentIdentity srv rq (pq_AgentID req))
         (reply 200 (\<lambda>_. BStatus ''renewed'') (on_store (Progress (sv_cfg (sr_svc srv)) (pv rq ''id'') (pq_LeaseID req)
            (pq_FencingToken req) (pq_AgentID req) (pq_Checkpoint req) (ev_now env)) (sr_svc srv)) srv) srv) srv"

definition listLeadInbox :: "'b ApiEnv \<Rightarrow> Request \<Rightarrow> 'b Srv \<Rightarrow> 'b handled" where
  "listLeadInbox env rq srv =
     guarded (requireSubtaskOrPrivileged srv rq (pv rq ''id''))
       (let status = (if rq_Query rq ''status'' = '''' then ''pending'' else rq_Query rq ''status'') in
        if status \<noteq> ''pending'' \<and> status \<noteq> ''all'' then (Some (bad_request ''status must be pending or all''), srv)
        else respond 200 BInbox (ServiceListLeadInbox (ev_ord env) (pv rq ''id'') (status = ''pending'') (srv_store srv)) srv) srv"

definition ingestLeadInbox :: "'b ApiEnv \<Rightarrow> Request \<Rightarrow> 'b Srv \<Rightarrow> 'b handled" where
  "ingestLeadInbox env rq srv =
     with_req (decode (cd_ingest (ev_codec env)) rq) (\<lambda>req.
       guarded (requireAgentIdentity srv rq (iq_AgentID req))
         (reply 200 BInboxItem (on_store (ServiceIngestLeadInbox (pv rq ''id'') (pv rq ''item'') (iq_AgentID req)
            (iq_FencingToken req) (iq_ExpectedVersion req) (iq_Mode req) (ev_now env)) (sr_svc srv)) srv) srv) srv"

definition leadHeartbeat :: "'b ApiEnv \<Rightarrow> Request \<Rightarrow> 'b Srv \<Rightarrow> 'b handled" where
  "leadHeartbeat env rq srv =
     with_req (decode (cd_leadHeartbeat (ev_codec env)) rq) (\<lambda>req.
       guarded (requireAgentIdentity srv rq (lq_AgentID req))
         (case lq_ExpectedVersion req of
            None \<Rightarrow> (Some (bad_request ''expected_version required''), srv)
          | Some version \<Rightarrow>
              reply 200 BSnapshot (on_store (ServiceSaveLeadSnapshot (sv_cfg (sr_svc srv)) (ev_validJSON env) (pv rq ''id'')
                (lq_AgentID req) (lq_FencingToken req) version (lq_Snapshot req) (ev_now env)) (sr_svc srv)) srv) srv) srv"

definition leadContext :: "'b ApiEnv \<Rightarrow> Request \<Rightarrow> 'b Srv \<Rightarrow> 'b handled" where
  "leadContext env rq srv =
     guarded (requireSubtaskOrPrivileged srv rq (pv rq ''id''))
       (respond 200 BLeadContext (GetLeadContext (ev_ord env) (pv rq ''id'') (srv_store srv)) srv) srv"

definition suspend :: "'b ApiEnv \<Rightarrow> Request \<Rightarrow> 'b Srv \<Rightarrow> 'b handled" where
  "suspend env rq srv =
     with_req (decode (cd_suspend (ev_codec env)) rq) (\<lambda>req.
       guarded (requireAgentIdentity srv rq (sq_AgentID req))
         (reply 200 BSubtask (on_store (Suspend (ev_eng env) (pv rq ''id'') (sq_FencingToken req) (sq_Version req)
            (sq_AgentID req) (sq_WakeOn req) (sq_Checkpoint req) (ev_now env)) (sr_svc srv)) srv) srv) srv"

definition wake :: "'b ApiEnv \<Rightarrow> Request \<Rightarrow> 'b Srv \<Rightarrow> 'b handled" where
  "wake env rq srv =
     (let body = fst (cd_actor (ev_codec env) (rq_Body rq) (rq_BodyErr rq));
          actorID = (if body = '''' then ''anonymous'' else body)
      in reply 200 BSubtask
           (on_store (WakeAs (ev_ord env) (pv rq ''id'') (requestActor rq (human_actor actorID)) (ev_now env)) (sr_svc srv)) srv)"

text \<open>A replayed completion answers 200 with the subtask as it is.\<close>

definition completeSubtaskHandler :: "'b ApiEnv \<Rightarrow> Request \<Rightarrow> 'b Srv \<Rightarrow> 'b handled" where
  "completeSubtaskHandler env rq srv =
     with_req (decode (cd_complete (ev_codec env)) rq) (\<lambda>req.
       guarded (requireAgentIdentity srv rq (cq_AgentID req))
         (case ServiceCompleteSubtaskWithUsage (ev_ord env) (pv rq ''id'') (cq_FencingToken req) (cq_IdempotencyKey req)
             (cq_ResultRef req) (cq_UsageTokens req) (cq_Version req) (cq_AgentID req) (ev_now env) (sr_svc srv) of
            (Inl (e, sub), svc) \<Rightarrow>
              (if e = ErrDuplicate then (Some (writeJSON 200 (BDeduplicated sub)), srv\<lparr>sr_svc := svc\<rparr>)
               else (Some (writeErr e), srv\<lparr>sr_svc := svc\<rparr>))
          | (Inr sub, svc) \<Rightarrow> (Some (writeJSON 200 (BSubtask sub)), srv\<lparr>sr_svc := svc\<rparr>)) srv) srv"

text \<open>The operations that return a value beside their error.\<close>

definition drop_value :: "(error \<times> 'c, 'a, 's) outcome \<Rightarrow> (error, 'a, 's) outcome" where
  "drop_value r = (case r of (Inl (e, _), s) \<Rightarrow> (Inl e, s) | (Inr v, s) \<Rightarrow> (Inr v, s))"

definition failSubtaskHandler :: "'b ApiEnv \<Rightarrow> Request \<Rightarrow> 'b Srv \<Rightarrow> 'b handled" where
  "failSubtaskHandler env rq srv =
     with_req (decode (cd_fail (ev_codec env)) rq) (\<lambda>req.
       guarded (requireAgentIdentity srv rq (flq_AgentID req))
         (reply 200 BSubtask (drop_value (ServiceFailSubtask (ev_ord env) (pv rq ''id'') (flq_FencingToken req) (flq_Reason req)
            (flq_Version req) (flq_AgentID req) (ev_now env) (sr_svc srv))) srv) srv) srv"

section \<open>Decisions\<close>

definition listDecisions :: "'b ApiEnv \<Rightarrow> Request \<Rightarrow> 'b Srv \<Rightarrow> 'b handled" where
  "listDecisions env rq srv =
     (Some (writeJSON 200 (BDecisions (ServiceListDecisions (ev_ord env) (rq_Query rq ''mission_id'')
        (rq_Query rq ''status'' = ''pending'') (srv_store srv)))), srv)"

definition resolveDecision :: "'b ApiEnv \<Rightarrow> Request \<Rightarrow> 'b Srv \<Rightarrow> 'b handled" where
  "resolveDecision env rq srv =
     with_req (decode (cd_resolve (ev_codec env)) rq) (\<lambda>req.
       let decider = (case rq_Identity rq of Some i \<Rightarrow> id_Subject i | None \<Rightarrow> rq_DeciderID req) in
       if rq_Choice req = '''' \<or> decider = '''' then (Some (bad_request ''choice/decider_id required''), srv)
       else reply 200 BDecision (drop_value (on_store (ServiceResolveDecision (ev_ord env) (pv rq ''id'') (rq_Choice req)
              (rq_Rationale req) decider (ev_now env)) (sr_svc srv))) srv) srv"

definition requestDecision :: "'b ApiEnv \<Rightarrow> Request \<Rightarrow> 'b Srv \<Rightarrow> 'b handled" where
  "requestDecision env rq srv =
     with_req (decode (cd_decision (ev_codec env)) rq) (\<lambda>req.
       guarded (requireAgentIdentity srv rq (dq_AgentID req))
         (if dq_Question req = '''' then (Some (bad_request ''question required''), srv)
          else reply 200 BDecision (on_store (RequestDecision (ev_ord env) (ev_newID env) (pv rq ''id'') (dq_FencingToken req)
                 (dq_Version req) (dq_AgentID req) (dq_Question req) (dq_Options req) (ev_now env)) (sr_svc srv)) srv) srv) srv"

section \<open>Intents\<close>

text \<open>The only handler that may not return: the walk over the rework chain of a delegation.\<close>

definition submitIntent :: "'b ApiEnv \<Rightarrow> Request \<Rightarrow> 'b Srv \<Rightarrow> 'b handled option" where
  "submitIntent env rq srv =
     (case decode (cd_intent (ev_codec env)) rq of
        Inl r \<Rightarrow> Some (Some r, srv)
      | Inr inp \<Rightarrow>
          let submit = map_option (\<lambda>(r, s). reply 200 BIntent (r, (sr_svc srv)\<lparr>sv_st := s\<rparr>) srv)
                (SubmitIntent (sv_cfg (sr_svc srv)) (ev_ord env) (ev_newID env) (ev_newSubID env) inp (ev_now env) (srv_store srv))
          in if sr_auth srv = None then submit
             else if id_Kind (identity_or_zero rq) = ''agent'' \<and> ac_Kind (in_Source inp) \<noteq> ''agent''
             then Some (Some (writeJSON 403 (BError (EMsg ''agent token cannot claim a non-agent source''))), srv)
             else if ac_Kind (in_Source inp) = ''agent''
             then (case requireAgentIdentity srv rq (ac_ID (in_Source inp)) of Some r \<Rightarrow> Some (Some r, srv) | None \<Rightarrow> submit)
             else submit)"

section \<open>Blackboard\<close>

definition boardList :: "'b ApiEnv \<Rightarrow> Request \<Rightarrow> 'b Srv \<Rightarrow> 'b handled" where
  "boardList env rq srv =
     (Some (writeJSON 200 (BEntries (ServiceBoardList (ev_ord env) (pv rq ''id'') (pv rq ''ns'') (srv_store srv)))), srv)"

definition boardGet :: "Request \<Rightarrow> 'b Srv \<Rightarrow> 'b handled" where
  "boardGet rq srv = respond 200 BEntry (ServiceBoardGet (pv rq ''id'') (pv rq ''ns'') (pv rq ''key'') (srv_store srv)) srv"

definition boardPut :: "'b ApiEnv \<Rightarrow> Request \<Rightarrow> 'b Srv \<Rightarrow> 'b handled" where
  "boardPut env rq srv =
     with_req (readBodyLimited rq (2 ^ 20)) (\<lambda>body.
       case (if rq_Header rq ''X-Expected-Version'' = '''' then Some (-1) else ParseInt (rq_Header rq ''X-Expected-Version'')) of
         None \<Rightarrow> (Some (bad_request ''bad X-Expected-Version''), srv)
       | Some expected \<Rightarrow>
           reply 200 BEntry (on_store (ServiceBoardPut (ev_eng env) (ev_js env) (ev_ord env) (pv rq ''id'') (pv rq ''ns'') (pv rq ''key'')
             body expected (ev_now env)) (sr_svc srv)) srv) srv"

section \<open>Artifacts\<close>

definition putArtifact :: "'b ApiEnv \<Rightarrow> Request \<Rightarrow> 'b Srv \<Rightarrow> 'b handled" where
  "putArtifact env rq srv =
     (let missionID = rq_Header rq ''X-Mission-ID'' in
      if missionID = '''' then (Some (bad_request ''X-Mission-ID required''), srv)
      else guarded (if sr_auth srv \<noteq> None \<and> id_Kind (identity_or_zero rq) = ''agent''
                    then requireSubtaskIdentity srv rq (rq_Header rq ''X-Produced-By'') else None)
        (with_req (readBodyLimited rq (64 * 2 ^ 20)) (\<lambda>body.
           case ServicePutArtifact (ev_bs env) (ev_sha env) missionID (rq_Header rq ''X-Produced-By'') (rq_Header rq ''X-Schema-Ref'')
               body (ev_now env) (sr_blob srv, srv_store srv) of
             (r, (b, s)) \<Rightarrow> reply 201 BArtifact (r, (sr_svc srv)\<lparr>sv_st := s\<rparr>) (srv\<lparr>sr_blob := b\<rparr>)) srv) srv)"

definition getArtifact :: "Request \<Rightarrow> 'b Srv \<Rightarrow> 'b handled" where
  "getArtifact rq srv = respond 200 BArtifact (ServiceGetArtifact (pv rq ''id'') (srv_store srv)) srv"

text \<open>Downloads are authorised in the handler: by a signed URL or by a privileged token.\<close>

definition authorizeArtifactDownload :: "'b ApiEnv \<Rightarrow> Request \<Rightarrow> string \<Rightarrow> 'b Srv \<Rightarrow> Response option \<times> 'b Srv" where
  "authorizeArtifactDownload env rq artifactID srv =
     (case sr_auth srv of
        None \<Rightarrow> (None, srv)
      | Some m \<Rightarrow>
          if rq_Query rq ''sig'' \<noteq> '''' then
            (case VerifyArtifactURL (ev_auth env) m artifactID (rq_Query rq ''subject'') (rq_Query rq ''lease_id'')
                (rq_Query rq ''expires'') (rq_Query rq ''sig'') (ev_now env) of
               Inl e \<Rightarrow> (Some (writeJSON 401 (BError (EAuth e))), srv)
             | Inr _ \<Rightarrow> (None, srv))
          else
            (case FromRequest (ev_auth env) m (rq_Header rq ''Authorization'') (ev_now env) of
               (Inl e, m) \<Rightarrow> (Some (writeJSON 401 (BError (EAuth e))), srv\<lparr>sr_auth := Some m\<rparr>)
             | (Inr identity, m) \<Rightarrow>
                 (if Privileged identity then None else Some forbidden, srv\<lparr>sr_auth := Some m\<rparr>)))"

definition getArtifactContent :: "'b ApiEnv \<Rightarrow> Request \<Rightarrow> 'b Srv \<Rightarrow> 'b handled" where
  "getArtifactContent env rq srv =
     (case authorizeArtifactDownload env rq (pv rq ''id'') srv of
        (Some r, srv) \<Rightarrow> (Some r, srv)
      | (None, srv) \<Rightarrow> respond 200 (\<lambda>(dat, a). BContent dat (art_SHA256 a))
          (GetArtifactContent (ev_bs env) (pv rq ''id'') (sr_blob srv) (srv_store srv)) srv)"

end
