(* ===== verification/ApiProtocol.thy ===== *)
theory ApiProtocol
  imports ApiHandlers
begin

text \<open>
  The remaining handlers: tokens and signed URLs (\<open>internal/api/auth.go\<close>), quality, usage and metrics
  (\<open>internal/api/m9.go\<close>), the product operations (\<open>internal/api/m10.go\<close>), and the A2A and MCP JSON-RPC
  boundaries (\<open>internal/api/protocol.go\<close>).
\<close>

section \<open>Tokens and signed URLs\<close>

definition maxArtifactURLTTL :: duration where "maxArtifactURLTTL = 15 * 60 * second"

text \<open>
  A duration given in seconds: the 64-bit product wraps. The route exists only on an authenticated server;
  without a manager the code would not get here.
\<close>

definition issueToken :: "'b ApiEnv \<Rightarrow> Request \<Rightarrow> 'b Srv \<Rightarrow> 'b handled" where
  "issueToken env rq srv =
     (case sr_auth srv of
        None \<Rightarrow> (None, srv)
      | Some m \<Rightarrow>
          if \<not> CheckBootstrap m (rq_Header rq ''X-Troop-Bootstrap-Token'')
          then (Some (writeJSON 401 (BError (EMsg ''invalid bootstrap token''))), srv)
          else with_req (decodeLimited (cd_token (ev_codec env)) rq (2 ^ 16)) (\<lambda>req.
            let secs = (if tq_TTLSeconds req = 0 then 3600 else tq_TTLSeconds req) in
            case Issue (ev_auth env) m (tq_Subject req) (tq_Kind req) (tq_Scopes req) (wrap64 (secs * second)) (ev_now env) of
              Inl e \<Rightarrow> (Some (writeJSON 400 (BError (EAuth e))), srv)
            | Inr token \<Rightarrow> (Some (writeJSON 201 (BToken token secs)), srv)) srv)"

text \<open>\<open>url.PathEscape\<close> and \<open>url.QueryEscape\<close>: bytes other than letters, digits and a few marks are written in hexadecimal.\<close>

definition unreserved :: "char \<Rightarrow> bool" where
  "unreserved c \<longleftrightarrow> c \<in> set ''abcdefghijklmnopqrstuvwxyzABCDEFGHIJKLMNOPQRSTUVWXYZ0123456789-_.~''"

definition percent :: "char \<Rightarrow> string" where
  "percent c = [CHR ''%'', ''0123456789ABCDEF'' ! (of_char c div 16), ''0123456789ABCDEF'' ! (of_char c mod 16)]"

definition PathEscape :: "string \<Rightarrow> string" where
  "PathEscape t = concat (map (\<lambda>c. if unreserved c \<or> c \<in> set ''$&+=:@'' then [c] else percent c) t)"

definition QueryEscape :: "string \<Rightarrow> string" where
  "QueryEscape t = concat (map (\<lambda>c. if unreserved c then [c] else if c = CHR '' '' then ''+'' else percent c) t)"

text \<open>\<open>Values.Encode\<close> sorts the keys.\<close>

definition artifact_url :: "string \<Rightarrow> int \<Rightarrow> string \<Rightarrow> string \<Rightarrow> string \<Rightarrow> string" where
  "artifact_url artifactID expires subject lid signature =
     ''/v1/artifacts/'' @ PathEscape artifactID @ ''/content?expires='' @ QueryEscape (itoa expires) @ ''&lease_id='' @ QueryEscape lid
       @ ''&sig='' @ QueryEscape signature @ ''&subject='' @ QueryEscape subject"

definition sign_refusal :: "'b Srv \<Rightarrow> Request \<Rightarrow> signArtifactRequest \<Rightarrow> Response option" where
  "sign_refusal srv rq req =
     (let identity = identity_or_zero rq in
      if id_Kind identity = ''agent'' then
        (case requireAgentIdentity srv rq (sg_AgentID req) of
           Some r \<Rightarrow> Some r
         | None \<Rightarrow>
             if sg_LeaseID req = '''' then Some (bad_request ''lease_id required for agent'')
             else case AuthorizeArtifactAccess (pv rq ''id'') (sg_LeaseID req) (sg_AgentID req) (srv_store srv) of
                 Inl e \<Rightarrow> Some (writeErr e)
               | Inr _ \<Rightarrow> None)
      else if \<not> Privileged identity then Some forbidden else None)"

definition signArtifactURL :: "'b ApiEnv \<Rightarrow> Request \<Rightarrow> 'b Srv \<Rightarrow> 'b handled" where
  "signArtifactURL env rq srv =
     (case sr_auth srv of
        None \<Rightarrow> (Some (bad_request ''artifact signing requires TROOP_AUTH_SECRET''), srv)
      | Some m \<Rightarrow>
          with_req (decodeLimited (cd_sign (ev_codec env)) rq (2 ^ 16)) (\<lambda>req.
            let ttl = wrap64 ((if sg_ExpiresIn req = 0 then 300 else sg_ExpiresIn req) * second) in
            if ttl \<le> 0 \<or> ttl > maxArtifactURLTTL
            then (Some (bad_request ''expires_in must be between 1 and 900 seconds''), srv)
            else guarded (sign_refusal srv rq req)
              (respond 200 (\<lambda>_.
                 let expires = time_add (ev_now env) ttl; subject = id_Subject (identity_or_zero rq)
                 in BSignedURL (artifact_url (pv rq ''id'') (Unix expires) subject (sg_LeaseID req)
                      (SignArtifact (ev_auth env) m (pv rq ''id'') subject (sg_LeaseID req) expires)) expires)
                 (ServiceGetArtifact (pv rq ''id'') (srv_store srv)) srv) srv) srv)"

section \<open>Quality, usage and metrics\<close>

definition service_actor :: "string \<Rightarrow> Actor" where
  "service_actor ident = \<lparr>ac_Kind = ''service'', ac_ID = ident\<rparr>"

text \<open>Errors of the service and of the authenticator look alike here: both kinds of \<open>ErrForbidden\<close> answer 403.\<close>

definition writeAuthOrCoreError :: "error \<Rightarrow> Response" where
  "writeAuthOrCoreError e = (if e = ErrForbidden then writeJSON 403 (BError (EErr '''' e)) else writeErr e)"

text \<open>An agent that does not name itself as the verifier gets no response at all: \<open>Inl None\<close>.\<close>

definition verifier_of :: "'b Srv \<Rightarrow> Request \<Rightarrow> string \<Rightarrow> Response option + Actor" where
  "verifier_of srv rq verifierID =
     (if sr_auth srv = None
      then Inr (if verifierID \<noteq> '''' then agent_actor verifierID else service_actor ''anonymous-verifier'')
      else let identity = identity_or_zero rq in
        if id_Kind identity = ''agent'' then
          (if verifierID = '''' then Inl None
           else case requireAgentIdentity srv rq verifierID of Some r \<Rightarrow> Inl (Some r) | None \<Rightarrow> Inr (agent_actor verifierID))
        else Inr \<lparr>ac_Kind = id_Kind identity, ac_ID = id_Subject identity\<rparr>)"

definition verifyArtifact :: "'b ApiEnv \<Rightarrow> Request \<Rightarrow> 'b Srv \<Rightarrow> 'b handled" where
  "verifyArtifact env rq srv =
     with_req (decodeLimited (cd_verify (ev_codec env)) rq (2 ^ 20)) (\<lambda>req.
       case verifier_of srv rq (vr_VerifierAgentID req) of
         Inl refusal \<Rightarrow> (refusal, srv)
       | Inr actor \<Rightarrow>
           (case VerifyArtifact (ev_bs env) (ev_sha env) (pv rq ''id'') (vr_Input req) actor (ev_now env) (sr_blob srv) (sr_svc srv) of
              (Inl e, svc) \<Rightarrow> (Some (writeAuthOrCoreError e), srv\<lparr>sr_svc := svc\<rparr>)
            | (Inr q, svc) \<Rightarrow> (Some (writeJSON 201 (BQuality q)), srv\<lparr>sr_svc := svc\<rparr>))) srv"

definition getQuality :: "Request \<Rightarrow> 'b Srv \<Rightarrow> 'b handled" where
  "getQuality rq srv = respond 200 BQuality (ServiceGetQuality (pv rq ''id'') (srv_store srv)) srv"

definition getReputation :: "'b ApiEnv \<Rightarrow> Request \<Rightarrow> 'b Srv \<Rightarrow> 'b handled" where
  "getReputation env rq srv =
     guarded (requireAgentOrPrivileged srv rq (pv rq ''id''))
       (respond 200 (BReputations (pv rq ''id'')) (GetReputations (ev_ord env) (pv rq ''id'') (srv_store srv)) srv) srv"

definition getUsage :: "'b ApiEnv \<Rightarrow> Request \<Rightarrow> 'b Srv \<Rightarrow> 'b handled" where
  "getUsage env rq srv = respond 200 BUsage (GetUsageReport (ev_ord env) (pv rq ''id'') (srv_store srv)) srv"

definition observabilitySnapshot :: "'b ApiEnv \<Rightarrow> 'b Srv \<Rightarrow> 'b handled" where
  "observabilitySnapshot env srv =
     (Some (writeJSON 200 (BOperational (ObservabilitySnapshot (ev_ord env) (ev_now env) (srv_store srv)))), srv)"

text \<open>The text format is left out: the values it prints and their order are kept.\<close>

definition prometheusMetrics :: "'b ApiEnv \<Rightarrow> 'b Srv \<Rightarrow> 'b handled" where
  "prometheusMetrics env srv =
     (Some (writeJSON 200 (BMetrics (ObservabilitySnapshot (ev_ord env) (ev_now env) (srv_store srv))
        (writePrometheus (sr_metrics srv)))), srv)"

section \<open>Product operations\<close>

definition runSimulation :: "'b ApiEnv \<Rightarrow> Request \<Rightarrow> 'b Srv \<Rightarrow> 'b handled" where
  "runSimulation env rq srv =
     with_req (decodeLimited (cd_simulation (ev_codec env)) rq (2 ^ 16)) (\<lambda>inp.
       respond 200 BSimulation (RunSimulation (ev_simDigest env) inp) srv) srv"

definition defaultValue :: "string \<Rightarrow> string \<Rightarrow> string" where
  "defaultValue v fallback = (if v = '''' then fallback else v)"

definition marketplaceAgents :: "'b ApiEnv \<Rightarrow> Request \<Rightarrow> 'b Srv \<Rightarrow> 'b handled" where
  "marketplaceAgents env rq srv =
     (case cd_float (ev_codec env) (defaultValue (rq_Query rq ''min_reputation'') ''0'') of
        None \<Rightarrow> (Some (bad_request ''bad min_reputation''), srv)
      | Some minRep \<Rightarrow>
          respond 200 BAgents (DiscoverAgents (ev_ord env) \<lparr>mq_Skill = rq_Query rq ''skill'', mq_Platform = rq_Query rq ''platform'',
            mq_HealthyOnly = (rq_Query rq ''healthy'' \<noteq> ''false''), mq_MinReputation = minRep\<rparr> (srv_store srv)) srv)"

definition evaluateCanary :: "'b ApiEnv \<Rightarrow> Request \<Rightarrow> 'b Srv \<Rightarrow> 'b handled" where
  "evaluateCanary env rq srv =
     with_req (decodeLimited (cd_canary (ev_codec env)) rq (2 ^ 16)) (\<lambda>inp.
       reply 200 BCanary (EvaluateCanary inp (ev_now env) (sr_svc srv)) srv) srv"

definition createAppeal :: "'b ApiEnv \<Rightarrow> Request \<Rightarrow> 'b Srv \<Rightarrow> 'b handled" where
  "createAppeal env rq srv =
     with_req (decodeLimited (cd_appeal (ev_codec env)) rq (2 ^ 16)) (\<lambda>inp.
       reply 201 BAppeal (on_store (ServiceCreateQualityAppeal (ev_newID env) (pv rq ''id'') (al_AppellantID inp) (al_Reason inp)
         (al_EvidenceRefs inp) (requestActor rq (human_actor (al_AppellantID inp))) (ev_now env)) (sr_svc srv)) srv) srv"

definition listAppeals :: "'b ApiEnv \<Rightarrow> Request \<Rightarrow> 'b Srv \<Rightarrow> 'b handled" where
  "listAppeals env rq srv =
     (Some (writeJSON 200 (BAppeals (ServiceListQualityAppeals (ev_ord env) (rq_Query rq ''mission_id'')
        (rq_Query rq ''pending'' = ''true'') (srv_store srv)))), srv)"

definition resolveAppeal :: "'b ApiEnv \<Rightarrow> Request \<Rightarrow> 'b Srv \<Rightarrow> 'b handled" where
  "resolveAppeal env rq srv =
     with_req (decodeLimited (cd_resolveAppeal (ev_codec env)) rq (2 ^ 16)) (\<lambda>inp.
       reply 200 BAppeal (ServiceResolveQualityAppeal (pv rq ''id'') (rl_Status inp) (rl_Resolution inp) (rl_ReviewerID inp)
         (requestActor rq (human_actor (rl_ReviewerID inp))) (ev_now env) (sr_svc srv)) srv) srv"

definition gatewayMeter :: "'b ApiEnv \<Rightarrow> Request \<Rightarrow> 'b Srv \<Rightarrow> 'b handled" where
  "gatewayMeter env rq srv =
     with_req (decodeLimited (cd_gateway (ev_codec env)) rq (2 ^ 16)) (\<lambda>inp.
       reply 201 BRecords (on_store (RecordGatewayUsage inp (ev_now env)) (sr_svc srv)) srv) srv"

section \<open>JSON-RPC\<close>

definition writeRPC :: "string \<Rightarrow> RpcResult option \<Rightarrow> RpcError option \<Rightarrow> Response" where
  "writeRPC ident result err = writeJSON 200 (BRpc ident result err)"

definition rpc_ok :: "string \<Rightarrow> RpcResult \<Rightarrow> Response" where
  "rpc_ok ident result = writeRPC ident (Some result) None"

definition rpc_fail :: "string \<Rightarrow> int \<Rightarrow> ErrorBody \<Rightarrow> Response" where
  "rpc_fail ident code msg = writeRPC ident None (Some \<lparr>re_Code = code, re_Message = msg\<rparr>)"

definition decodeRPC :: "'b ApiEnv \<Rightarrow> Request \<Rightarrow> Response + jsonRPCRequest" where
  "decodeRPC env rq =
     (case readBodyLimited rq (2 ^ 20) of
        Inl r \<Rightarrow> Inl r
      | Inr body \<Rightarrow>
         (case cd_rpc (ev_codec env) body of
            (req, err) \<Rightarrow> if err \<noteq> None \<or> jr_JSONRPC req \<noteq> ''2.0'' \<or> jr_Method req = ''''
              then Inl (rpc_fail '''' (-32600) (EMsg ''Invalid Request'')) else Inr req))"

definition identitySubject :: "Request \<Rightarrow> string" where
  "identitySubject rq = (case rq_Identity rq of Some i \<Rightarrow> id_Subject i | None \<Rightarrow> ''anonymous'')"

text \<open>The parts of the agent card that depend on the server and the request.\<close>

definition agentCard :: "Request \<Rightarrow> 'b Srv \<Rightarrow> 'b handled" where
  "agentCard rq srv =
     (let scheme = (if rq_TLS rq then ''https'' else ''http'');
          forwarded = rq_Header rq ''X-Forwarded-Proto'';
          scheme = (if forwarded = ''http'' \<or> forwarded = ''https'' then forwarded else scheme)
      in (Some (writeJSON 200 (BCard \<lparr>ac_URL = scheme @ ''://'' @ rq_Host rq @ ''/a2a'', ac_Bearer = (sr_auth srv \<noteq> None)\<rparr>)), srv))"

section \<open>A2A\<close>

definition a2aMessageText :: "a2aMessage \<Rightarrow> string" where
  "a2aMessageText message =
     join [CHR 0x0A] (List.map_filter (\<lambda>part.
       if (pt_Kind part = '''' \<or> pt_Kind part = ''text'') \<and> TrimSpace (pt_Text part) \<noteq> '''' then Some (TrimSpace (pt_Text part)) else None) message)"

definition a2aTask :: "Mission \<Rightarrow> Subtask list option \<Rightarrow> A2ATask" where
  "a2aTask m subs =
     \<lparr>at_ID = m_ID m,
      at_State = (case m_Status m of MissionSucceeded \<Rightarrow> ''TASK_STATE_COMPLETED'' | MissionFailed \<Rightarrow> ''TASK_STATE_FAILED''
        | MissionCancelled \<Rightarrow> ''TASK_STATE_CANCELED'' | MissionActive \<Rightarrow> ''TASK_STATE_WORKING''),
      at_Metadata = map_option (\<lambda>s. (m, s)) subs\<rparr>"

definition a2aRPCError :: "error \<Rightarrow> int" where
  "a2aRPCError err =
     (if err = ErrNotFound then -32001 else if err = ErrConflict then -32002
      else if err = ErrInvalidDAG \<or> err = ErrInvalidBudget then -32602 else -32603)"

definition a2a_task_spec :: "goval \<Rightarrow> TaskSpec" where
  "a2a_task_spec message = \<lparr>t_Name = ''a2a'', t_Kind = KindAgent, t_RequiredSkills = [], t_DependsOn = [],
     t_Input = fmap_of_list [(''a2a_message'', message)], t_Priority = 0, t_Deadline = None, t_MaxAttempts = 0, t_Grants = zero_grants,
     t_Question = '''', t_Options = [], t_OnTimeout = ''''\<rparr>"

definition a2a_send :: "'b ApiEnv \<Rightarrow> Request \<Rightarrow> jsonRPCRequest \<Rightarrow> 'b Srv \<Rightarrow> 'b handled" where
  "a2a_send env rq req srv =
     (case cd_a2aMessage (ev_codec env) (jr_Params req) of
        (_, Some _) \<Rightarrow> (Some (rpc_fail (jr_ID req) (-32602) (EMsg ''Invalid params'')), srv)
      | (message, None) \<Rightarrow>
          let goal = a2aMessageText message; owner = identitySubject rq in
          if goal = '''' then (Some (rpc_fail (jr_ID req) (-32602) (EMsg ''message must contain a text part'')), srv)
          else case on_store (CreateMissionWithBudgetAs (ev_ord env) (ev_newID env) (requestActor rq (human_actor owner)) owner goal 0
                 [a2a_task_spec (cd_message (ev_codec env) (jr_Params req))] (ev_now env)) (sr_svc srv) of
              (Inl e, svc) \<Rightarrow> (Some (rpc_fail (jr_ID req) (a2aRPCError e) (EErr '''' e)), srv\<lparr>sr_svc := svc\<rparr>)
            | (Inr m, svc) \<Rightarrow>
                (Some (rpc_ok (jr_ID req) (if jr_Method req = ''SendMessage'' then RTask (a2aTask m None) else RBareTask (a2aTask m None))),
                 srv\<lparr>sr_svc := svc\<rparr>))"

text \<open>The list of no subtasks is \<open>nil\<close>, which leaves the metadata out.\<close>

definition a2a_get :: "'b ApiEnv \<Rightarrow> jsonRPCRequest \<Rightarrow> 'b Srv \<Rightarrow> 'b handled" where
  "a2a_get env req srv =
     (case cd_id (ev_codec env) (jr_Params req) of
        (ident, err) \<Rightarrow>
          if err \<noteq> None \<or> ident = '''' then (Some (rpc_fail (jr_ID req) (-32602) (EMsg ''id required'')), srv)
          else case ServiceGetMission ident (srv_store srv) of
              Inl e \<Rightarrow> (Some (rpc_fail (jr_ID req) (a2aRPCError e) (EErr '''' e)), srv)
            | Inr m \<Rightarrow>
                let subs = ServiceListSubtasks (ev_ord env) ident (srv_store srv)
                in (Some (rpc_ok (jr_ID req) (RBareTask (a2aTask m (if subs = [] then None else Some subs)))), srv))"

text \<open>After a cancellation the mission exists: the error of the second read is ignored by the code.\<close>

definition a2a_cancel :: "'b ApiEnv \<Rightarrow> Request \<Rightarrow> jsonRPCRequest \<Rightarrow> 'b Srv \<Rightarrow> 'b handled" where
  "a2a_cancel env rq req srv =
     (case cd_id (ev_codec env) (jr_Params req) of
        (ident, err) \<Rightarrow>
          if err \<noteq> None \<or> ident = '''' then (Some (rpc_fail (jr_ID req) (-32602) (EMsg ''id required'')), srv)
          else case on_store (CancelMissionAs (ev_ord env) ident (requestActor rq (human_actor (identitySubject rq))) (ev_now env)) (sr_svc srv) of
              (Inl e, svc) \<Rightarrow> (Some (rpc_fail (jr_ID req) (a2aRPCError e) (EErr '''' e)), srv\<lparr>sr_svc := svc\<rparr>)
            | (Inr _, svc) \<Rightarrow>
                (case ServiceGetMission ident (sv_st svc) of
                   Inr m \<Rightarrow> (Some (rpc_ok (jr_ID req) (RBareTask (a2aTask m None))), srv\<lparr>sr_svc := svc\<rparr>)
                 | Inl _ \<Rightarrow> (None, srv\<lparr>sr_svc := svc\<rparr>)))"

definition a2aJSONRPC :: "'b ApiEnv \<Rightarrow> Request \<Rightarrow> 'b Srv \<Rightarrow> 'b handled" where
  "a2aJSONRPC env rq srv =
     with_req (decodeRPC env rq) (\<lambda>req.
       if jr_Method req = ''SendMessage'' \<or> jr_Method req = ''message/send'' then a2a_send env rq req srv
       else if jr_Method req = ''GetTask'' \<or> jr_Method req = ''tasks/get'' then a2a_get env req srv
       else if jr_Method req = ''CancelTask'' \<or> jr_Method req = ''tasks/cancel'' then a2a_cancel env rq req srv
       else (Some (rpc_fail (jr_ID req) (-32601) (EMsg ''Method not found'')), srv)) srv"

section \<open>MCP\<close>

definition supportedMCPVersions :: "string list" where
  "supportedMCPVersions = [''2026-07-28'', ''2025-11-25'', ''2025-06-18'', ''2025-03-26'']"

definition supportedMCPVersion :: "string \<Rightarrow> bool" where
  "supportedMCPVersion version \<longleftrightarrow> version \<in> set supportedMCPVersions"

text \<open>\<open>mcpRequestVersion\<close> and \<open>mcpRequestName\<close>: a string looked up in the decoded parameters.\<close>

definition mcpRequestName :: "'b ApiEnv \<Rightarrow> string \<Rightarrow> string \<Rightarrow> string" where
  "mcpRequestName env meth params =
     (if meth = ''tools/call'' \<or> meth = ''prompts/get'' then cd_mcpName (ev_codec env) ''name'' params
      else if meth = ''resources/read'' then cd_mcpName (ev_codec env) ''uri'' params else '''')"

definition mcpRPCError :: "error \<Rightarrow> int" where
  "mcpRPCError err = (if err = ErrNotFound \<or> err = ErrInvalidDAG \<or> err = ErrInvalidBudget then -32602 else -32603)"

definition missionProjection :: "'b ApiEnv \<Rightarrow> string \<Rightarrow> Store \<Rightarrow> error + Mission \<times> Subtask list" where
  "missionProjection env ident s =
     (if ident = '''' then Inl (ErrPlain ''id required'')
      else case ServiceGetMission ident s of
          Inl e \<Rightarrow> Inl e
        | Inr m \<Rightarrow> Inr (m, ServiceListSubtasks (ev_ord env) ident s))"

definition missionIDFromURI :: "Codec \<Rightarrow> string \<Rightarrow> string + string" where
  "missionIDFromURI c raw =
     (case cd_url c raw of
        None \<Rightarrow> Inl ''unsupported resource URI''
      | Some (scheme, host, path) \<Rightarrow>
          if scheme \<noteq> ''troop'' \<or> host \<noteq> ''missions'' then Inl ''unsupported resource URI''
          else let ident = (if has_prefix ''/'' path then drop 1 path else path) in
            if ident = '''' \<or> CHR ''/'' \<in> set ident then Inl ''mission id required'' else Inr ident)"

text \<open>A tool of the MCP server: its value or its error. Unknown tools are refused before.\<close>

definition tool_create :: "'b ApiEnv \<Rightarrow> Request \<Rightarrow> string \<Rightarrow> Service \<Rightarrow> (error, ToolValue, Service) outcome" where
  "tool_create env rq arguments svc =
     (case cd_toolMission (ev_codec env) arguments of
        (args, err) \<Rightarrow>
          if err \<noteq> None \<or> cm_Goal args = '''' \<or> cm_Tasks args = [] then (Inl (ErrPlain ''goal and tasks required''), svc)
          else let owner = (if cm_Owner args = '''' then identitySubject rq else cm_Owner args)
            in and_then (on_store (CreateMissionWithBudgetAs (ev_ord env) (ev_newID env) (requestActor rq (human_actor owner)) owner
                 (cm_Goal args) (cm_BudgetTokens args) (cm_Tasks args) (ev_now env)) svc) (\<lambda>m svc. (Inr (TMission m), svc)))"

definition mcp_tool :: "'b ApiEnv \<Rightarrow> Request \<Rightarrow> string \<Rightarrow> string \<Rightarrow> Service \<Rightarrow> (error, ToolValue, Service) outcome option" where
  "mcp_tool env rq name arguments svc =
     (let actor = requestActor rq (human_actor (identitySubject rq)) in
      if name = ''troop.create_mission'' then Some (tool_create env rq arguments svc)
      else if name = ''troop.get_mission'' then
        Some (case missionProjection env (fst (cd_id (ev_codec env) arguments)) (sv_st svc) of
                Inl e \<Rightarrow> (Inl e, svc) | Inr (m, subs) \<Rightarrow> (Inr (TProjection m subs), svc))
      else if name = ''troop.cancel_mission'' then
        let ident = fst (cd_id (ev_codec env) arguments)
        in Some (and_then (on_store (CancelMissionAs (ev_ord env) ident actor (ev_now env)) svc) (\<lambda>_ svc. (Inr (TCancelled ident), svc)))
      else if name = ''troop.wake_subtask'' then
        Some (and_then (on_store (WakeAs (ev_ord env) (fst (cd_subtaskID (ev_codec env) arguments)) actor (ev_now env)) svc)
          (\<lambda>sub svc. (Inr (TSubtask sub), svc)))
      else None)"

definition mcpCallTool :: "'b ApiEnv \<Rightarrow> Request \<Rightarrow> jsonRPCRequest \<Rightarrow> 'b Srv \<Rightarrow> 'b handled" where
  "mcpCallTool env rq req srv =
     (case cd_tool (ev_codec env) (jr_Params req) of
        ((name, arguments), err) \<Rightarrow>
          if err \<noteq> None \<or> name = '''' then (Some (rpc_fail (jr_ID req) (-32602) (EMsg ''Invalid params'')), srv)
          else case mcp_tool env rq name arguments (sr_svc srv) of
              None \<Rightarrow> (Some (rpc_fail (jr_ID req) (-32602) (EMsg ''Unknown tool'')), srv)
            | Some (Inl e, svc) \<Rightarrow> (Some (rpc_ok (jr_ID req) (RToolError (EErr '''' e))), srv\<lparr>sr_svc := svc\<rparr>)
            | Some (Inr v, svc) \<Rightarrow> (Some (rpc_ok (jr_ID req) (RToolValue v)), srv\<lparr>sr_svc := svc\<rparr>))"

definition mcp_initialize :: "'b ApiEnv \<Rightarrow> jsonRPCRequest \<Rightarrow> Response" where
  "mcp_initialize env req =
     (let version = fst (cd_protocolVersion (ev_codec env) (jr_Params req)) in
      if version \<noteq> '''' \<and> \<not> supportedMCPVersion version then rpc_fail (jr_ID req) (-32022) (EMsg ''Unsupported protocol version'')
      else rpc_ok (jr_ID req) (RInitialize (if version \<noteq> '''' then version else supportedMCPVersions ! 0)))"

definition mcp_read :: "'b ApiEnv \<Rightarrow> jsonRPCRequest \<Rightarrow> 'b Srv \<Rightarrow> Response" where
  "mcp_read env req srv =
     (case cd_uri (ev_codec env) (jr_Params req) of
        (_, Some _) \<Rightarrow> rpc_fail (jr_ID req) (-32602) (EMsg ''Invalid params'')
      | (uri, None) \<Rightarrow>
         (case missionIDFromURI (ev_codec env) uri of
            Inl msg \<Rightarrow> rpc_fail (jr_ID req) (-32602) (EMsg msg)
          | Inr ident \<Rightarrow>
             (case missionProjection env ident (srv_store srv) of
                Inl e \<Rightarrow> rpc_fail (jr_ID req) (mcpRPCError e) (EErr '''' e)
              | Inr (m, subs) \<Rightarrow> rpc_ok (jr_ID req) (RContents uri m subs))))"

definition mcp_refusal :: "'b ApiEnv \<Rightarrow> Request \<Rightarrow> jsonRPCRequest \<Rightarrow> Response option" where
  "mcp_refusal env rq req =
     (let version = cd_mcpVersion (ev_codec env) (jr_Params req);
          name = mcpRequestName env (jr_Method req) (jr_Params req) in
      if version \<noteq> '''' \<and> \<not> supportedMCPVersion version
      then Some (rpc_fail (jr_ID req) (-32022) (EMsg ''Unsupported protocol version''))
      else if version = ''2026-07-28'' \<and> rq_Header rq ''Mcp-Method'' \<noteq> jr_Method req
      then Some (rpc_fail (jr_ID req) (-32020) (EMsg ''Mcp-Method header mismatch''))
      else if version = ''2026-07-28'' \<and> name \<noteq> '''' \<and> rq_Header rq ''Mcp-Name'' \<noteq> name
      then Some (rpc_fail (jr_ID req) (-32020) (EMsg ''Mcp-Name header mismatch''))
      else None)"

definition mcpJSONRPC :: "'b ApiEnv \<Rightarrow> Request \<Rightarrow> 'b Srv \<Rightarrow> 'b handled" where
  "mcpJSONRPC env rq srv =
     with_req (decodeRPC env rq) (\<lambda>req.
       guarded (mcp_refusal env rq req)
         (let meth = jr_Method req; ok = (\<lambda>r. (Some (rpc_ok (jr_ID req) r), srv)) in
          if jr_ID req = '''' \<and> has_prefix ''notifications/'' meth then (Some (writeJSON 204 BNone), srv)
          else if meth = ''server/discover'' then ok RDiscover
          else if meth = ''initialize'' then (Some (mcp_initialize env req), srv)
          else if meth = ''ping'' then ok RPong
          else if meth = ''tools/list'' then ok RTools
          else if meth = ''tools/call'' then mcpCallTool env rq req srv
          else if meth = ''resources/list'' then ok RResources
          else if meth = ''resources/templates/list'' then ok RTemplates
          else if meth = ''resources/read'' then (Some (mcp_read env req srv), srv)
          else (Some (rpc_fail (jr_ID req) (-32601) (EMsg ''Method not found'')), srv)) srv) srv"

end
