(* ===== verification/ApiServe.thy ===== *)
theory ApiServe
  imports ApiProtocol
begin

text \<open>
  The request pipeline \<open>observe (authenticate mux)\<close> of \<open>Handler\<close>: tracing and metrics around the authentication
  middleware around the router around the handlers. \<open>None\<close> is a request whose handler does not return.
\<close>

definition dispatch :: "'b ApiEnv \<Rightarrow> Handler \<Rightarrow> Request \<Rightarrow> 'b Srv \<Rightarrow> 'b handled option" where
  "dispatch env h rq srv =
     (case h of
        h_healthz \<Rightarrow> Some (healthz srv)
      | h_readyz \<Rightarrow> Some (readyz env srv)
      | h_agentCard \<Rightarrow> Some (agentCard rq srv)
      | h_a2aJSONRPC \<Rightarrow> Some (a2aJSONRPC env rq srv)
      | h_mcpJSONRPC \<Rightarrow> Some (mcpJSONRPC env rq srv)
      | h_issueToken \<Rightarrow> Some (issueToken env rq srv)
      | h_createMission \<Rightarrow> Some (createMissionHandler env rq srv)
      | h_getMission \<Rightarrow> Some (getMission env rq srv)
      | h_getMissionBudget \<Rightarrow> Some (getMissionBudget env rq srv)
      | h_getUsage \<Rightarrow> Some (getUsage env rq srv)
      | h_cancelMission \<Rightarrow> Some (cancelMission env rq srv)
      | h_missionEventsSSE \<Rightarrow> Some (missionEventsSSE env rq srv)
      | h_registerAgent \<Rightarrow> Some (registerAgent env rq srv)
      | h_heartbeat \<Rightarrow> Some (heartbeat env rq srv)
      | h_listOffers \<Rightarrow> Some (listOffers env rq srv)
      | h_getReputation \<Rightarrow> Some (getReputation env rq srv)
      | h_acceptLease \<Rightarrow> Some (acceptLease env rq srv)
      | h_getLeaseContext \<Rightarrow> Some (getLeaseContext rq srv)
      | h_startSubtask \<Rightarrow> Some (startSubtask env rq srv)
      | h_progress \<Rightarrow> Some (progress env rq srv)
      | h_completeSubtask \<Rightarrow> Some (completeSubtaskHandler env rq srv)
      | h_failSubtask \<Rightarrow> Some (failSubtaskHandler env rq srv)
      | h_suspend \<Rightarrow> Some (suspend env rq srv)
      | h_wake \<Rightarrow> Some (wake env rq srv)
      | h_listLeadInbox \<Rightarrow> Some (listLeadInbox env rq srv)
      | h_ingestLeadInbox \<Rightarrow> Some (ingestLeadInbox env rq srv)
      | h_leadHeartbeat \<Rightarrow> Some (leadHeartbeat env rq srv)
      | h_leadContext \<Rightarrow> Some (leadContext env rq srv)
      | h_listDecisions \<Rightarrow> Some (listDecisions env rq srv)
      | h_resolveDecision \<Rightarrow> Some (resolveDecision env rq srv)
      | h_requestDecision \<Rightarrow> Some (requestDecision env rq srv)
      | h_boardList \<Rightarrow> Some (boardList env rq srv)
      | h_boardGet \<Rightarrow> Some (boardGet rq srv)
      | h_boardPut \<Rightarrow> Some (boardPut env rq srv)
      | h_putArtifact \<Rightarrow> Some (putArtifact env rq srv)
      | h_getArtifact \<Rightarrow> Some (getArtifact rq srv)
      | h_getArtifactContent \<Rightarrow> Some (getArtifactContent env rq srv)
      | h_signArtifactURL \<Rightarrow> Some (signArtifactURL env rq srv)
      | h_verifyArtifact \<Rightarrow> Some (verifyArtifact env rq srv)
      | h_getQuality \<Rightarrow> Some (getQuality rq srv)
      | h_observabilitySnapshot \<Rightarrow> Some (observabilitySnapshot env srv)
      | h_prometheusMetrics \<Rightarrow> Some (prometheusMetrics env srv)
      | h_runSimulation \<Rightarrow> Some (runSimulation env rq srv)
      | h_evaluateCanary \<Rightarrow> Some (evaluateCanary env rq srv)
      | h_marketplaceAgents \<Rightarrow> Some (marketplaceAgents env rq srv)
      | h_createAppeal \<Rightarrow> Some (createAppeal env rq srv)
      | h_listAppeals \<Rightarrow> Some (listAppeals env rq srv)
      | h_resolveAppeal \<Rightarrow> Some (resolveAppeal env rq srv)
      | h_gatewayMeter \<Rightarrow> Some (gatewayMeter env rq srv)
      | h_submitIntent \<Rightarrow> submitIntent env rq srv
      | h_console \<Rightarrow> Some (Some (writeJSON 200 BConsole), srv))"

text \<open>\<open>router.ServeHTTP\<close>: the first route that matches, its path values in the context.\<close>

definition route_request :: "'b ApiEnv \<Rightarrow> Request \<Rightarrow> 'b Srv \<Rightarrow> 'b handled option" where
  "route_request env rq srv =
     (case route_of (sr_auth srv \<noteq> None) rq of
        None \<Rightarrow> Some (Some (writeJSON 404 (BError (EMsg ''not found''))), srv)
      | Some (h, vals) \<Rightarrow> dispatch env h (rq\<lparr>rq_PathValues := vals\<rparr>) srv)"

definition authenticate :: "'b ApiEnv \<Rightarrow> Request \<Rightarrow> 'b Srv \<Rightarrow> 'b handled option" where
  "authenticate env rq srv =
     (case sr_auth srv of
        None \<Rightarrow> route_request env rq srv
      | Some m \<Rightarrow>
          if publicRoute rq then route_request env rq srv
          else case FromRequest (ev_auth env) m (rq_Header rq ''Authorization'') (ev_now env) of
              (Inl e, m) \<Rightarrow> Some (Some (writeJSON 401 (BError (EAuth e))), srv\<lparr>sr_auth := Some m\<rparr>)
            | (Inr identity, m) \<Rightarrow>
                let srv = srv\<lparr>sr_auth := Some m\<rparr> in
                if \<not> routeAllowed identity rq then Some (Some forbidden, srv)
                else route_request env (rq\<lparr>rq_Identity := Some identity\<rparr>) srv)"

text \<open>The status the metrics count: a handler that wrote nothing answers 200.\<close>

definition status_of :: "Response option \<Rightarrow> int" where
  "status_of r = (case r of None \<Rightarrow> 200 | Some resp \<Rightarrow> rs_Status resp)"

definition observe :: "'b ApiEnv \<Rightarrow> Request \<Rightarrow> 'b Srv \<Rightarrow> (string \<times> 'b handled) option" where
  "observe env rq srv =
     (let (traceparent, traceID) = ensureTraceparent (ev_trace env) (ev_span env) (rq_Header rq ''traceparent'');
          rq = rq\<lparr>rq_Header := (rq_Header rq)(''traceparent'' := traceparent)\<rparr>
      in map_option (\<lambda>(r, srv). (traceID, (r, srv\<lparr>sr_metrics :=
           count_request (metric_key rq (status_of r)) (ev_now env) (ev_stop env) (sr_metrics srv)\<rparr>)))
         (authenticate env rq srv))"

text \<open>A request as it arrives: nothing in its context.\<close>

definition serve :: "'b ApiEnv \<Rightarrow> Request \<Rightarrow> 'b Srv \<Rightarrow> 'b handled option" where
  "serve env rq srv = map_option snd (observe env (rq\<lparr>rq_Identity := None, rq_PathValues := fmempty\<rparr>) srv)"

end
