(* ===== verification/ApiRoutes.thy ===== *)
theory ApiRoutes
  imports ApiServe
begin

text \<open>
  The route table and the access policy: what a path can be routed to, which handlers only read, what an agent
  token reaches on a path without a trailing slash, and what it reaches with one.
\<close>

section \<open>Paths\<close>

lemma dropWhile_head: "t \<noteq> [] \<Longrightarrow> hd t \<noteq> c \<Longrightarrow> dropWhile (\<lambda>x. x = c) t = t"
  by (cases t) auto

lemma trim_char_inner:
  assumes "w \<noteq> []" "hd w \<noteq> c" "last w \<noteq> c"
  shows "trim_char c (c # w) = w" and "trim_char c (c # w @ [c]) = w"
  using assms by (simp_all add: trim_char_def dropWhile_head hd_rev)

lemma path_segs_inner:
  assumes "w \<noteq> []" "hd w \<noteq> CHR ''/''" "last w \<noteq> CHR ''/''"
  shows "path_segs (CHR ''/'' # w) = split_on (CHR ''/'') w"
    and "path_segs (CHR ''/'' # w @ ''/'') = split_on (CHR ''/'') w"
  using assms by (simp_all add: path_segs_def trim_char_inner)

text \<open>The segments give the path back.\<close>

lemma path_of_segs:
  assumes "p = CHR ''/'' # w" "w \<noteq> []" "hd w \<noteq> CHR ''/''" "last w \<noteq> CHR ''/''"
  shows "p = ''/'' @ join ''/'' (path_segs p)"
  using path_segs_inner(1) [OF assms(2-4)] join_split_on [of "CHR ''/''" w] by (simp add: assms(1))

lemma split_on_two: "split_on c (a @ c # b @ c # t) = a # b # split_on c t" if "c \<notin> set a" "c \<notin> set b"
  using that by (simp add: split_on_sep)

lemma last_split_on: "c \<notin> set b \<Longrightarrow> last (split_on c (a @ c # b)) = b"
proof (induction a)
  case Nil
  then show ?case by (simp add: split_on_free)
next
  case (Cons x a)
  have "tl (split_on c (a @ c # b)) \<noteq> []" by (induction a) auto
  with Cons show ?case by (cases "split_on c (a @ c # b)") auto
qed

section \<open>Matching\<close>

definition fits :: "string list \<Rightarrow> string list \<Rightarrow> bool" where
  "fits pat segs \<longleftrightarrow> list_all2 (\<lambda>seg x. is_param seg \<or> seg = x) pat segs"

lemma match_segs_fits: "match_segs pat segs vals \<noteq> None \<Longrightarrow> length pat = length segs \<Longrightarrow> fits pat segs"
  by (induction pat segs vals rule: match_segs.induct) (auto simp: fits_def split: if_splits)

lemma find_route_Some:
  assumes "find_route rs meth segs = Some (h, vals)"
  obtains ro where "ro \<in> set rs" "rt_method ro = meth" "fits (rt_segs ro) segs" "rt_h ro = h"
proof -
  from assms have "\<exists>ro \<in> set rs. rt_method ro = meth \<and> fits (rt_segs ro) segs \<and> rt_h ro = h"
    by (induction rs) (auto split: if_splits option.splits intro: match_segs_fits)
  then show ?thesis using that by blast
qed

text \<open>The table, evaluated.\<close>

definition route_list :: "bool \<Rightarrow> (string \<times> string list \<times> Handler) list" where
  "route_list authenticated = map (\<lambda>ro. (rt_method ro, rt_segs ro, rt_h ro)) (routes authenticated)"

lemma routed:
  assumes "route_of b rq = Some (h, vals)"
  obtains segs where "(rq_Method rq, segs, h) \<in> set (route_list b)" "fits segs (path_segs (rq_Path rq))"
proof -
  from assms obtain ro where "ro \<in> set (routes b)" "rt_method ro = rq_Method rq" "fits (rt_segs ro) (path_segs (rq_Path rq))" "rt_h ro = h"
    unfolding route_of_def by (rule find_route_Some)
  then show ?thesis using that [of "rt_segs ro"] by (force simp: route_list_def)
qed

lemma table_check:
  assumes "route_of b rq = Some (h, vals)" and "list_all P (route_list True)"
  obtains segs where "P (rq_Method rq, segs, h)" "fits segs (path_segs (rq_Path rq))"
proof -
  have "set (route_list b) \<subseteq> set (route_list True)"
    by (auto simp: route_list_def routes_def patterns_def)
  with routed [OF assms(1)] assms(2) that show ?thesis by (metis list_all_iff subsetD)
qed

section \<open>Reading handlers\<close>

definition reading_handlers :: "Handler list" where
  "reading_handlers =
    [h_healthz, h_readyz, h_agentCard, h_getMission, h_getMissionBudget, h_getUsage, h_missionEventsSSE, h_listOffers, h_getReputation,
     h_getLeaseContext, h_listLeadInbox, h_leadContext, h_listDecisions, h_boardList, h_boardGet, h_getArtifact, h_getArtifactContent,
     h_getQuality, h_observabilitySnapshot, h_prometheusMetrics, h_marketplaceAgents, h_listAppeals, h_console]"

lemma get_routes_read: "list_all (\<lambda>(meth, segs, h). meth = ''GET'' \<longrightarrow> h \<in> set reading_handlers) (route_list True)"
  by code_simp

lemma get_reads:
  assumes "rq_Method rq = ''GET''" "route_of b rq = Some (h, vals)"
  shows "h \<in> set reading_handlers"
  by (rule table_check [OF assms(2) get_routes_read]) (use assms(1) in simp)

section \<open>What an agent reaches\<close>

definition agent_handlers :: "Handler list" where
  "agent_handlers =
    [h_heartbeat, h_listOffers, h_getReputation, h_acceptLease, h_getLeaseContext, h_startSubtask, h_progress, h_completeSubtask,
     h_failSubtask, h_suspend, h_listLeadInbox, h_ingestLeadInbox, h_leadHeartbeat, h_leadContext, h_requestDecision,
     h_putArtifact, h_verifyArtifact, h_getArtifact, h_submitIntent]"

lemma literal_heads:
  "list_all (\<lambda>(meth, segs, h). case segs of a # b # _ \<Rightarrow> \<not> is_param a \<and> \<not> is_param b | _ \<Rightarrow> True) (route_list True)"
  by code_simp

lemma agent_table:
  "list_all (\<lambda>(meth, segs, h). case segs of a # b # _ \<Rightarrow>
       b \<in> set [''agents'', ''leases'', ''subtasks''] \<longrightarrow>
         h \<in> set agent_handlers \<or> segs = [''v1'', ''agents'', ''register''] \<or> segs = [''v1'', ''subtasks'', ''{id}'', ''wake'']
     | _ \<Rightarrow> True) (route_list True)"
  by code_simp

lemma single_table:
  "list_all (\<lambda>(meth, segs, h). fits segs [''v1'', ''intents''] \<longrightarrow> h = h_submitIntent) (route_list True)"
  "list_all (\<lambda>(meth, segs, h). fits segs [''v1'', ''artifacts''] \<longrightarrow> h = h_putArtifact) (route_list True)"
  by code_simp+

lemma verify_table:
  "list_all (\<lambda>(meth, segs, h). case segs of a # b # c # t \<Rightarrow>
       b = ''artifacts'' \<longrightarrow> is_param (last segs) \<or> last segs = ''verify'' \<longrightarrow> h \<in> set agent_handlers
     | _ \<Rightarrow> True) (route_list True)"
  by code_simp

definition canonical :: "string \<Rightarrow> bool" where
  "canonical p \<longleftrightarrow> p \<noteq> '''' \<and> last p \<noteq> CHR ''/''"

lemma canonical_below:
  assumes "has_prefix (''/'' @ a @ ''/'' @ b @ ''/'') p" "canonical p" "a \<noteq> ''''" "CHR ''/'' \<notin> set a" "CHR ''/'' \<notin> set b"
  obtains t where "path_segs p = a # b # t" "t \<noteq> []" "p = ''/'' @ join ''/'' (path_segs p)"
proof -
  from assms(1) obtain u where p: "p = CHR ''/'' # a @ CHR ''/'' # b @ CHR ''/'' # u" by (auto simp: has_prefix_append)
  let ?w = "a @ CHR ''/'' # b @ CHR ''/'' # u"
  have w: "?w \<noteq> []" "hd ?w \<noteq> CHR ''/''" "last ?w \<noteq> CHR ''/''"
    using assms(2-4) by (simp_all add: canonical_def p) (cases a, auto)
  note eq = path_segs_inner(1) [OF w]
  have "path_segs p = a # b # split_on (CHR ''/'') u"
    unfolding p eq by (rule split_on_two [OF assms(4,5)])
  moreover have "p = ''/'' @ join ''/'' (path_segs p)" by (rule path_of_segs [OF p w])
  ultimately show ?thesis using that by simp
qed

lemma fits_Cons: "fits (s # pat) segs \<longleftrightarrow> (\<exists>x xs. segs = x # xs \<and> (is_param s \<or> s = x) \<and> fits pat xs)"
  by (auto simp: fits_def list_all2_Cons1)

lemma fits_head2:
  assumes "fits pat (a # b # t)" "case pat of x # y # _ \<Rightarrow> \<not> is_param x \<and> \<not> is_param y | _ \<Rightarrow> True"
  obtains pt where "pat = a # b # pt" "fits pt t"
  using assms by (cases pat; cases "tl pat") (auto simp: fits_def)

lemma fits_last: "fits pat segs \<Longrightarrow> segs \<noteq> [] \<Longrightarrow> is_param (last pat) \<or> last pat = last segs"
  by (cases "pat = []") (auto simp: fits_def list_all2_conv_all_nth last_conv_nth)

text \<open>The table gives the literal head of the pattern a path below \<open>/a/b/\<close> was routed by.\<close>

lemma routed_below:
  assumes "route_of b rq = Some (h, vals)" "path_segs (rq_Path rq) = x # y # t" "list_all P (route_list True)"
  obtains pt where "P (rq_Method rq, x # y # pt, h)" "fits pt t"
proof -
  have "list_all (\<lambda>(meth, segs, h). (case segs of a # b # _ \<Rightarrow> \<not> is_param a \<and> \<not> is_param b | _ \<Rightarrow> True) \<and> P (meth, segs, h)) (route_list True)"
    using literal_heads assms(3) by (auto simp: list_all_iff)
  from table_check [OF assms(1) this] obtain segs where
    s: "case segs of a # b # _ \<Rightarrow> \<not> is_param a \<and> \<not> is_param b | _ \<Rightarrow> True" "P (rq_Method rq, segs, h)" "fits segs (path_segs (rq_Path rq))"
    by auto
  from fits_head2 [OF s(3) [unfolded assms(2)] s(1)] s(2) that show ?thesis by metis
qed

lemma no_params: "\<not> is_param ''register''" "\<not> is_param ''wake''"
  by code_simp+

lemma agent_below:
  assumes pre: "has_prefix (''/v1/'' @ y @ ''/'') (rq_Path rq)" and y: "y = ''agents'' \<or> y = ''leases'' \<or> y = ''subtasks''"
    and can: "canonical (rq_Path rq)" and route: "route_of b rq = Some (h, vals)"
    and pol: "rq_Path rq \<noteq> ''/v1/agents/register''" "\<not> has_suffix ''/wake'' (rq_Path rq)"
  shows "h \<in> set agent_handlers"
proof (rule ccontr)
  assume no: "h \<notin> set agent_handlers"
  have "CHR ''/'' \<notin> set y" using y by auto
  moreover have "has_prefix (''/'' @ ''v1'' @ ''/'' @ y @ ''/'') (rq_Path rq)" using pre by simp
  ultimately obtain t where
    t: "path_segs (rq_Path rq) = ''v1'' # y # t" "t \<noteq> []" "rq_Path rq = ''/'' @ join ''/'' (path_segs (rq_Path rq))"
    using canonical_below [of "''v1''" y "rq_Path rq"] can by auto
  obtain pt where pt: "y = ''agents'' \<and> pt = [''register''] \<or> y = ''subtasks'' \<and> pt = [''{id}'', ''wake'']" "fits pt t"
    by (rule routed_below [OF route t(1) agent_table]) (use y no in auto)
  from pt(1) show False
  proof (elim disjE conjE)
    assume "y = ''agents''" "pt = [''register'']"
    with pt(2) t(1,3) no_params have "rq_Path rq = ''/v1/agents/register''" by (auto simp: fits_def list_all2_Cons1)
    with pol(1) show False ..
  next
    assume s: "y = ''subtasks''" "pt = [''{id}'', ''wake'']"
    with pt(2) no_params obtain x where "t = [x, ''wake'']" by (auto simp: fits_def list_all2_Cons1)
    with t(1,3) s have "rq_Path rq = (''/v1/subtasks/'' @ x) @ ''/wake''" by simp
    then show False using pol(2) unfolding has_suffix_append by blast
  qed
qed

lemma agent_verify:
  assumes pre: "has_prefix ''/v1/artifacts/'' (rq_Path rq)" and suf: "has_suffix ''/verify'' (rq_Path rq)"
    and can: "canonical (rq_Path rq)" and route: "route_of b rq = Some (h, vals)"
  shows "h \<in> set agent_handlers"
proof -
  have "has_prefix (''/'' @ ''v1'' @ ''/'' @ ''artifacts'' @ ''/'') (rq_Path rq)" using pre by simp
  moreover have "''v1'' \<noteq> ''''" "CHR ''/'' \<notin> set ''v1''" "CHR ''/'' \<notin> set ''artifacts''" by simp_all
  ultimately obtain t where t: "path_segs (rq_Path rq) = ''v1'' # ''artifacts'' # t" "t \<noteq> []"
    using can by (metis canonical_below)
  from pre obtain x where "rq_Path rq = ''/v1/artifacts/'' @ x" by (auto simp: has_prefix_append)
  then obtain v where v: "rq_Path rq = CHR ''/'' # v" "v \<noteq> []" "hd v \<noteq> CHR ''/''" by simp
  then have segs: "path_segs (rq_Path rq) = split_on (CHR ''/'') v"
    using can path_segs_inner(1) [of v] by (simp add: canonical_def)
  obtain u where u: "rq_Path rq = u @ ''/verify''" using suf by (auto simp: has_suffix_append)
  obtain u' where "v = u' @ CHR ''/'' # ''verify''"
  proof (cases u)
    case Nil
    with u pre show ?thesis by (simp add: has_prefix_def)
  next
    case (Cons y w)
    with u v(1) that [of w] show ?thesis by simp
  qed
  then have "last (path_segs (rq_Path rq)) = ''verify''"
    unfolding segs by (simp add: last_split_on del: split_on_Cons)
  then have lt: "last t = ''verify''" using t by simp
  obtain pt where P: "case (''v1'' # ''artifacts'' # pt) of a # b # c # w \<Rightarrow> b = ''artifacts'' \<longrightarrow>
      is_param (last (''v1'' # ''artifacts'' # pt)) \<or> last (''v1'' # ''artifacts'' # pt) = ''verify'' \<longrightarrow> h \<in> set agent_handlers | _ \<Rightarrow> True"
    and pt: "fits pt t"
    by (rule routed_below [OF route t(1) verify_table]) (simp only: prod.case)
  have "pt \<noteq> []" using pt t(2) by (auto simp: fits_def)
  with P pt fits_last [OF pt t(2)] lt show ?thesis by (cases pt) (simp_all, blast)
qed

lemma agent_single:
  assumes "rq_Path rq = ''/v1/intents'' \<or> rq_Path rq = ''/v1/artifacts''" and route: "route_of b rq = Some (h, vals)"
  shows "h \<in> set agent_handlers"
proof -
  have p: "path_segs ''/v1/intents'' = [''v1'', ''intents'']" "path_segs ''/v1/artifacts'' = [''v1'', ''artifacts'']" by code_simp+
  from assms(1) show ?thesis
  proof
    assume "rq_Path rq = ''/v1/intents''"
    with p(1) have segs: "path_segs (rq_Path rq) = [''v1'', ''intents'']" by simp
    have "h = h_submitIntent" by (rule table_check [OF route single_table(1)]) (simp add: segs)
    then show ?thesis by (simp add: agent_handlers_def)
  next
    assume "rq_Path rq = ''/v1/artifacts''"
    with p(2) have segs: "path_segs (rq_Path rq) = [''v1'', ''artifacts'']" by simp
    have "h = h_putArtifact" by (rule table_check [OF route single_table(2)]) (simp add: segs)
    then show ?thesis by (simp add: agent_handlers_def)
  qed
qed

lemma agent_routes:
  assumes "routeAllowed i rq" "id_Kind i = ''agent''" and can: "canonical (rq_Path rq)"
    and "\<not> has_suffix ''/signed-url'' (rq_Path rq)" and route: "route_of b rq = Some (h, vals)"
  shows "h \<in> set agent_handlers"
proof -
  let ?p = "rq_Path rq"
  have pol: "?p \<noteq> ''/v1/agents/register''" "\<not> has_suffix ''/wake'' ?p"
    using assms(1,2) by (auto simp: routeAllowed_def Privileged_def Let_def split: if_splits)
  have "has_prefix ''/v1/artifacts/'' ?p \<and> has_suffix ''/verify'' ?p
      \<or> has_prefix (''/v1/'' @ ''agents'' @ ''/'') ?p \<or> has_prefix (''/v1/'' @ ''leases'' @ ''/'') ?p \<or> has_prefix (''/v1/'' @ ''subtasks'' @ ''/'') ?p
      \<or> ?p = ''/v1/intents'' \<or> ?p = ''/v1/artifacts''"
    using assms(1,2,4) by (auto simp: routeAllowed_def Privileged_def Let_def split: if_splits)
  then show ?thesis
    using agent_below [OF _ _ can route pol] agent_verify [OF _ _ can route] agent_single [OF _ route] by metis
qed

text \<open>An agent token reaches only the agent handlers. On a path without a trailing slash that does not end in \<open>/signed-url\<close> the policy
  lets an agent token through only to handlers that act for an agent: never to creating or cancelling missions, registering
  agents, waking subtasks, resolving decisions or appeals, the blackboard, metering, metrics, A2A or MCP.\<close>

theorem agent_confined:
  assumes "routeAllowed i rq" "id_Kind i = ''agent''" "canonical (rq_Path rq)"
    and "\<not> has_suffix ''/signed-url'' (rq_Path rq)" "route_of b rq = Some (h, vals)"
  shows "h \<in> set agent_handlers"
  using assms by (rule agent_routes)

definition demo_request :: "string \<Rightarrow> string \<Rightarrow> Request" where
  "demo_request meth path = \<lparr>rq_Method = meth, rq_Path = path, rq_Header = (\<lambda>h. ''''), rq_Query = (\<lambda>q. ''''), rq_Body = '''',
     rq_BodyErr = None, rq_Host = ''localhost'', rq_TLS = False, rq_Identity = None, rq_PathValues = fmempty\<rparr>"

definition demo_agent_identity :: Identity where
  "demo_agent_identity = \<lparr>id_Subject = ''runtime-a'', id_Kind = ''agent'', id_Scopes = [], id_Issued = 0, id_Expires = 60\<rparr>"

lemma demo_accept_route:
  "route_of True (demo_request ''POST'' ''/v1/leases/lse_1/accept'') = Some (h_acceptLease, fmupd ''id'' ''lse_1'' fmempty)"
  by code_simp

theorem agent_confined_witness:
  "h_acceptLease \<in> set agent_handlers"
proof -
  let ?rq = "demo_request ''POST'' ''/v1/leases/lse_1/accept''"
  have "routeAllowed demo_agent_identity ?rq \<and> id_Kind demo_agent_identity = ''agent'' \<and> canonical (rq_Path ?rq)
      \<and> \<not> has_suffix ''/signed-url'' (rq_Path ?rq)" by code_simp
  with agent_confined [of demo_agent_identity ?rq True] demo_accept_route show ?thesis by blast
qed

section \<open>What an agent reaches with a trailing slash\<close>

lemma segs_wake:
  assumes "x \<noteq> ''''" "CHR ''/'' \<notin> set x"
  shows "path_segs (''/v1/subtasks/'' @ x @ ''/wake/'') = [''v1'', ''subtasks'', x, ''wake'']"
proof -
  have "split_on (CHR ''/'') (''v1/subtasks/'' @ x @ ''/wake'') = ''v1'' # ''subtasks'' # split_on (CHR ''/'') (x @ CHR ''/'' # ''wake'')" by simp
  also have "\<dots> = [''v1'', ''subtasks'', x, ''wake'']" by (simp only: split_on_sep [OF assms(2)]) simp
  finally show ?thesis using path_segs_inner(2) [of "''v1/subtasks/'' @ x @ ''/wake''"] by simp
qed

lemma prefix_free_routes:
  "find_route (routes True) ''POST'' [''v1'', ''subtasks'', x, ''wake''] = Some (h_wake, fmupd ''id'' x fmempty)"
  by code_simp

end
