(* ===== verification/ApiDemo.thy ===== *)
theory ApiDemo
  imports ApiRoutes AuthProps TriggerProps FilterProps AdmissionProps QualityProps ProductProps
begin

text \<open>
  A concrete server and a concrete environment, on which the properties of the HTTP edge are evaluated: decoders that
  know one body each, a platform token of the agent \<open>runtime\<close>, and a store with a waiting subtask.
\<close>

definition one_body :: "'a \<Rightarrow> 'a stream_decoder" where
  "one_body v = (\<lambda>body err. (v, err))"

definition one_text :: "'a \<Rightarrow> 'a text_decoder" where
  "one_text v = (\<lambda>body. (v, None))"

definition demo_mission_req :: createMissionReq where
  "demo_mission_req = \<lparr>cm_Owner = ''ann'', cm_Goal = ''ship'', cm_BudgetTokens = 0, cm_Tasks = [demo_spec ''a'' []]\<rparr>"

definition demo_codec :: Codec where
  "demo_codec = \<lparr>cd_createMission = one_body demo_mission_req, cd_owner = one_body ''ann'',
     cd_register = one_body \<lparr>ra_ID = ''agt_1'', ra_Name = ''w'', ra_Platform = ''custom'', ra_Endpoint = fmempty, ra_Capabilities = [],
       ra_MaxConcurrency = 1, ra_TriggerScopes = [], ra_AuthSubject = ''runtime''\<rparr>,
     cd_accept = one_body \<lparr>aq_AgentID = ''agt_1'', aq_FencingToken = 1, aq_SubtaskVersion = 2\<rparr>,
     cd_fenced = one_body \<lparr>fq_AgentID = ''agt_1'', fq_FencingToken = 1, fq_Version = 3\<rparr>,
     cd_progress = one_body \<lparr>pq_AgentID = ''agt_1'', pq_LeaseID = leaseID 1, pq_FencingToken = 1, pq_Checkpoint = ''''\<rparr>,
     cd_ingest = one_body \<lparr>iq_AgentID = ''agt_1'', iq_FencingToken = 1, iq_ExpectedVersion = 1, iq_Mode = ''full''\<rparr>,
     cd_leadHeartbeat = one_body \<lparr>lq_AgentID = ''agt_1'', lq_FencingToken = 1, lq_ExpectedVersion = None, lq_Snapshot = ''{}''\<rparr>,
     cd_suspend = one_body \<lparr>sq_AgentID = ''agt_1'', sq_FencingToken = 1, sq_Version = 4, sq_WakeOn = TriggerProps.demo_wake, sq_Checkpoint = ''''\<rparr>,
     cd_actor = one_body '''',
     cd_complete = one_body \<lparr>cq_AgentID = ''agt_1'', cq_FencingToken = 1, cq_Version = 4, cq_IdempotencyKey = ''k'', cq_ResultRef = ''art_1'', cq_UsageTokens = 0\<rparr>,
     cd_fail = one_body \<lparr>flq_AgentID = ''agt_1'', flq_FencingToken = 1, flq_Version = 4, flq_Reason = ''oom''\<rparr>,
     cd_resolve = one_body \<lparr>rq_Choice = ''approve'', rq_Rationale = '''', rq_DeciderID = ''ann''\<rparr>,
     cd_decision = one_body \<lparr>dq_AgentID = ''agt_1'', dq_FencingToken = 1, dq_Version = 4, dq_Question = ''ok?'', dq_Options = []\<rparr>,
     cd_intent = one_body demo_intent,
     cd_verify = one_text \<lparr>vr_Input = demo_verdict, vr_VerifierAgentID = ''''\<rparr>,
     cd_token = one_text \<lparr>tq_Subject = ''runtime'', tq_Kind = ''agent'', tq_Scopes = [], tq_TTLSeconds = 60\<rparr>,
     cd_sign = one_text \<lparr>sg_AgentID = ''agt_1'', sg_LeaseID = leaseID 1, sg_ExpiresIn = 60\<rparr>,
     cd_simulation = one_text demo_simulation,
     cd_canary = one_text \<lparr>cn_ID = ''c'', cn_VerifierAgentID = ''agt_1'', cn_Skill = ''verify'', cn_ExpectedVerdict = ''accepted'',
       cn_ActualVerdict = ''accepted'', cn_ExpectedScore = 1, cn_ActualScore = 1\<rparr>,
     cd_appeal = one_text \<lparr>al_AppellantID = ''ann'', al_Reason = ''wrong'', al_EvidenceRefs = []\<rparr>,
     cd_resolveAppeal = one_text \<lparr>rl_Status = ''upheld'', rl_Resolution = ''fine'', rl_ReviewerID = ''bob''\<rparr>,
     cd_gateway = one_text \<lparr>gu_ID = ''g'', gu_MissionID = ''msn_1'', gu_SubtaskID = '''', gu_AgentID = '''', gu_Provider = '''', gu_Model = '''',
       gu_InputTokens = 1, gu_OutputTokens = 1\<rparr>,
     cd_rpc = one_text \<lparr>jr_JSONRPC = ''2.0'', jr_ID = ''1'', jr_Method = ''tasks/get'', jr_Params = ''''\<rparr>,
     cd_a2aMessage = one_text [\<lparr>pt_Kind = ''text'', pt_Text = ''ship''\<rparr>], cd_message = VStr,
     cd_id = one_text ''msn_1'', cd_protocolVersion = one_text '''', cd_uri = one_text ''troop://missions/msn_1'',
     cd_tool = one_text (''troop.get_mission'', ''''), cd_toolMission = one_text demo_mission_req, cd_subtaskID = one_text ''sub_a'',
     cd_mcpVersion = (\<lambda>params. ''''), cd_mcpName = (\<lambda>field params. ''''),
     cd_url = (\<lambda>uri. Some (''troop'', ''missions'', ''/msn_1'')), cd_float = (\<lambda>t. Some 0)\<rparr>"

definition demo_env :: "MemBlob ApiEnv" where
  "demo_env = \<lparr>ev_ord = sorted_list_of_fset, ev_eng = demo_engine, ev_js = demo_json, ev_sha = demo_sha, ev_simDigest = (\<lambda>_. ''digest''),
     ev_bs = mem_blob, ev_validJSON = (\<lambda>t. t \<noteq> ''''), ev_newID = ''msn_9'', ev_newSubID = ''sub_9'', ev_now = 0, ev_stop = 1,
     ev_trace = replicate 32 (CHR ''1''), ev_span = replicate 16 (CHR ''1''), ev_gone = None, ev_ticks = 1,
     ev_auth = demo_auth, ev_codec = demo_codec\<rparr>"

text \<open>The scenario with its running subtask suspended, behind an authenticated server.\<close>

definition scn_waiting :: Store where
  "scn_waiting = snd (Suspend no_engine ''sub_a'' 1 4 ''agt_1'' TriggerProps.demo_wake ''half'' 30 scn_running)"

definition demo_srv :: "Store \<Rightarrow> MemBlob Srv" where
  "demo_srv s = NewAuthenticated (NewService s DefaultConfig) NewMemBlob demo_manager"

lemma demo_srv_simps [simp]:
  "sr_auth (demo_srv s) = Some demo_manager" "sr_svc (demo_srv s) = NewService s DefaultConfig" "sr_blob (demo_srv s) = NewMemBlob"
  by (simp_all add: demo_srv_def NewAuthenticated_def)

definition demo_token :: string where
  "demo_token = (case Issue demo_auth demo_manager ''runtime'' ''agent'' [''tasks''] (60 * second) 0 of Inl _ \<Rightarrow> '''' | Inr tok \<Rightarrow> tok)"

definition with_token :: "Request \<Rightarrow> Request" where
  "with_token rq = rq\<lparr>rq_Header := (rq_Header rq)(''Authorization'' := ''Bearer '' @ demo_token)\<rparr>"

lemma with_token_simps [simp]: "rq_Method (with_token rq) = rq_Method rq" "rq_Path (with_token rq) = rq_Path rq"
  by (simp_all add: with_token_def)

lemma demo_request_simps [simp]:
  "rq_Method (demo_request meth path) = meth" "rq_Path (demo_request meth path) = path" "rq_Header (demo_request meth path) k = ''''"
  by (simp_all add: demo_request_def)

lemma demo_env_simps [simp]: "ev_auth demo_env = demo_auth" "ev_now demo_env = 0" "ev_ord demo_env = sorted_list_of_fset"
    "ev_codec demo_env = demo_codec" "ev_newID demo_env = ''msn_9''" "ev_bs demo_env = mem_blob"
  by (simp_all add: demo_env_def)

lemma demo_FromRequest:
  "FromRequest demo_auth demo_manager (rq_Header (with_token rq) ''Authorization'') 0 = (Inr demo_identity, demo_manager)"
proof -
  obtain tok where tok: "Issue demo_auth demo_manager ''runtime'' ''agent'' [''tasks''] (60 * second) 0 = Inr tok"
    and c: "\<lparr>id_Subject = ''runtime'', id_Kind = ''agent'', id_Scopes = normalizeScopes [''tasks''], id_Issued = Unix 0,
      id_Expires = Unix (time_add 0 (60 * second))\<rparr> = demo_identity" by (rule demo_Issue)
  have "ae_claims demo_auth (ae_enc_claims demo_auth demo_identity) = Some demo_identity" "ae_header demo_auth token_header = Some HS256_header"
    by (simp_all add: demo_auth_def demo_identity_def)
  from verify_issued [OF this(2) c [symmetric] this(1) tok, of 0]
  have "Verify demo_auth demo_manager tok 0 = (Inr demo_identity, demo_manager)"
    by (simp add: second_def Unix_def time_add_def split: if_splits)
  moreover have "demo_token = tok" using tok by (simp add: demo_token_def)
  ultimately show ?thesis using FromRequest_Bearer [OF token_plain [OF tok]] by (simp add: with_token_def)
qed

lemma demo_identity_simps [simp]: "id_Kind demo_identity = ''agent''" "id_Subject demo_identity = ''runtime''"
  by (simp_all add: demo_identity_def)

definition subtask_state :: "Store \<Rightarrow> string \<Rightarrow> State option" where
  "subtask_state s ident = map_option st_State (fmlookup (subtasks s) ident)"


lemma waiting_subtask:
  "case fmlookup (subtasks scn_waiting) ''sub_a'' of None \<Rightarrow> False
   | Some x \<Rightarrow> st_State x = StateWaiting \<and> st_ID x = ''sub_a'' \<and> (case st_WakeDeadline x of None \<Rightarrow> True | Some d \<Rightarrow> time_after d 0)"
  by code_simp

lemma waiting_wakes:
  "subtask_state scn_waiting ''sub_a'' = Some StateWaiting"
  "subtask_state (snd (WakeAs sorted_list_of_fset ''sub_a'' actor 0 scn_waiting)) ''sub_a'' = Some StateReady"
proof -
  from waiting_subtask obtain x where x: "fmlookup (subtasks scn_waiting) ''sub_a'' = Some x" "st_State x = StateWaiting"
    "st_ID x = ''sub_a''" "\<forall>d. st_WakeDeadline x = Some d \<longrightarrow> time_after d 0"
    by (auto split: option.splits)
  show "subtask_state scn_waiting ''sub_a'' = Some StateWaiting" using x by (simp add: subtask_state_def)
  have "reaches scn_running scn_waiting" unfolding scn_waiting_def by (intro runs reaches_refl)
  then have "store_wf scn_waiting" by (rule reachable_wf [OF reachable_run [OF reachable_running]])
  then have "find (\<lambda>z. st_ID z = ''sub_a'') (ListSubtasksByState sorted_list_of_fset StateWaiting scn_waiting) = Some x"
    by (rule find_by_state [OF valid_order_sorted]) (use x in auto)
  then have "WakeAs sorted_list_of_fset ''sub_a'' actor 0 scn_waiting = WakeSubtask ''sub_a'' (st_Version x) actor 0 scn_waiting"
    by (simp add: WakeAs_def)
  with WakeSubtask_wakes [OF x(1,2,4), of actor] show
    "subtask_state (snd (WakeAs sorted_list_of_fset ''sub_a'' actor 0 scn_waiting)) ''sub_a'' = Some StateReady"
    by (simp add: subtask_state_def woken_def clear_wake_def)
qed

end
