(* ===== verification/ApiAccess.thy ===== *)
theory ApiAccess
  imports ApiDemo
begin

text \<open>
  Who may change what over HTTP: reads change nothing, a request without a valid token changes nothing, an agent
  token acts only for an agent its subject owns \<dash> and the hole in the policy, a trailing slash.
\<close>

section \<open>Handlers that leave the service alone\<close>

definition same :: "'b Srv \<Rightarrow> 'b Srv \<Rightarrow> bool" where
  "same srv srv' \<longleftrightarrow> sr_svc srv' = sr_svc srv \<and> sr_blob srv' = sr_blob srv"

named_theorems same_intros

lemma same_refl [same_intros]: "same srv srv" by (simp add: same_def)

lemma same_auth [same_intros]: "same srv t \<Longrightarrow> same srv (t\<lparr>sr_auth := a\<rparr>)" by (simp add: same_def)

lemma same_from_auth: "same (srv\<lparr>sr_auth := a\<rparr>) t \<Longrightarrow> same srv t" by (simp add: same_def)

lemma same_respond [same_intros]: "same srv t \<Longrightarrow> same srv (snd (respond code body r t))"
  by (simp add: respond_def split: sum.splits)

lemma same_guarded [same_intros]: "same srv t \<Longrightarrow> (g = None \<Longrightarrow> same srv (snd k)) \<Longrightarrow> same srv (snd (guarded g k t))"
  by (simp add: guarded_def split: option.splits)

lemma same_with_req [same_intros]: "same srv t \<Longrightarrow> (\<And>req. same srv (snd (k req))) \<Longrightarrow> same srv (snd (with_req d k t))"
  by (simp add: with_req_def split: sum.splits)

lemma same_if [same_intros]: "(b \<Longrightarrow> same srv (snd x)) \<Longrightarrow> (\<not> b \<Longrightarrow> same srv (snd y)) \<Longrightarrow> same srv (snd (if b then x else y))"
  by simp

lemma same_pair [same_intros]: "same srv t \<Longrightarrow> same srv (snd (r, t))" by simp

lemma same_download: "same srv (snd (authorizeArtifactDownload env rq a srv))"
  by (auto simp: authorizeArtifactDownload_def same_def split: option.splits sum.splits prod.splits)

lemma same_content: "same srv (snd (getArtifactContent env rq srv))"
proof -
  obtain g t where gt: "authorizeArtifactDownload env rq (pv rq ''id'') srv = (g, t)" by fastforce
  with same_download [of srv env rq "pv rq ''id''"] have t: "same srv t" by simp
  show ?thesis by (cases g) (auto simp: getArtifactContent_def gt intro!: same_intros t)
qed

lemma reading_same:
  assumes "h \<in> set reading_handlers"
  shows "\<exists>r t. dispatch env h rq srv = Some (r, t) \<and> same srv t"
proof -
  have "dispatch env h rq srv \<noteq> None \<and> same srv (snd (the (dispatch env h rq srv)))"
    using assms
    by (auto simp: reading_handlers_def dispatch_def healthz_def readyz_def agentCard_def getMission_def getMissionBudget_def getUsage_def
        missionEventsSSE_def listOffers_def getReputation_def getLeaseContext_def listLeadInbox_def leadContext_def listDecisions_def
        boardList_def boardGet_def getArtifact_def getQuality_def observabilitySnapshot_def prometheusMetrics_def marketplaceAgents_def
        listAppeals_def Let_def intro!: same_intros same_content split: option.split sum.split)
  then show ?thesis by (cases "dispatch env h rq srv") auto
qed

section \<open>The pipeline\<close>

text \<open>The request the router sees, with the trace header of the middleware and nothing in its context.\<close>

definition arriving :: "'b ApiEnv \<Rightarrow> Request \<Rightarrow> Request" where
  "arriving env rq = rq\<lparr>rq_Identity := None, rq_PathValues := fmempty, rq_Header := (rq_Header rq)
     (''traceparent'' := fst (ensureTraceparent (ev_trace env) (ev_span env) (rq_Header rq ''traceparent'')))\<rparr>"

lemma arriving_simps [simp]:
  "rq_Method (arriving env rq) = rq_Method rq" "rq_Path (arriving env rq) = rq_Path rq" "rq_Identity (arriving env rq) = None"
  "rq_Query (arriving env rq) = rq_Query rq" "rq_Body (arriving env rq) = rq_Body rq" "rq_BodyErr (arriving env rq) = rq_BodyErr rq"
  "k \<noteq> ''traceparent'' \<Longrightarrow> rq_Header (arriving env rq) k = rq_Header rq k"
  by (simp_all add: arriving_def)

lemma serve_eq:
  "serve env rq srv = map_option (\<lambda>(r, t). (r, t\<lparr>sr_metrics :=
     count_request (metric_key (arriving env rq) (status_of r)) (ev_now env) (ev_stop env) (sr_metrics t)\<rparr>)) (authenticate env (arriving env rq) srv)"
proof (cases "authenticate env (arriving env rq) srv")
  case None
  then show ?thesis by (auto simp: serve_def observe_def arriving_def Let_def split: prod.splits)
next
  case (Some x)
  then show ?thesis by (cases x) (auto simp: serve_def observe_def arriving_def Let_def split: prod.splits)
qed

lemma serve_Some:
  assumes "serve env rq srv = Some (r, srv')"
  obtains t where "authenticate env (arriving env rq) srv = Some (r, t)" "sr_svc srv' = sr_svc t" "sr_blob srv' = sr_blob t" "sr_auth srv' = sr_auth t"
  using assms unfolding serve_eq by auto

lemma publicRoute_arriving [simp]: "publicRoute (arriving env rq) = publicRoute rq"
  by (simp add: publicRoute_def)

lemma routeAllowed_arriving [simp]: "routeAllowed i (arriving env rq) = routeAllowed i rq"
  by (simp add: routeAllowed_def)

lemma route_of_cong: "rq_Method rq = rq_Method rq' \<Longrightarrow> rq_Path rq = rq_Path rq' \<Longrightarrow> route_of b rq = route_of b rq'"
  by (simp add: route_of_def)

lemma get_same:
  assumes "rq_Method rq = ''GET''"
  shows "\<exists>r t. route_request env rq srv = Some (r, t) \<and> same srv t"
proof (cases "route_of (sr_auth srv \<noteq> None) rq")
  case None
  then show ?thesis by (simp add: route_request_def same_refl)
next
  case (Some hv)
  obtain h vals where hv: "hv = (h, vals)" by fastforce
  from get_reads [OF assms Some [unfolded hv]] show ?thesis
    using reading_same [of h env "rq\<lparr>rq_PathValues := vals\<rparr>" srv] Some hv by (auto simp: route_request_def)
qed

text \<open>C11: Reading over HTTP changes nothing. A GET request, with or without a token, always returns, and leaves the service and the blobs as they
  were.\<close>

theorem http_get_reads_only:
  assumes "rq_Method rq = ''GET''"
  shows "\<exists>r srv'. serve env rq srv = Some (r, srv') \<and> same srv srv'"
proof -
  have "\<exists>r t. authenticate env (arriving env rq) srv = Some (r, t) \<and> same srv t"
  proof (cases "sr_auth srv")
    case None
    from assms have "rq_Method (arriving env rq) = ''GET''" by simp
    from get_same [OF this, of env srv] None show ?thesis by (auto simp: authenticate_def)
  next
    case (Some m)
    obtain res m' where f: "FromRequest (ev_auth env) m (rq_Header rq ''Authorization'') (ev_now env) = (res, m')" by fastforce
    have g: "\<exists>r t. route_request env (arriving env rq\<lparr>rq_Identity := i\<rparr>) (srv\<lparr>sr_auth := a\<rparr>) = Some (r, t) \<and> same srv t" for i a
      using get_same [of "arriving env rq\<lparr>rq_Identity := i\<rparr>" env "srv\<lparr>sr_auth := a\<rparr>"] assms same_from_auth by fastforce
    have g0: "\<exists>r t. route_request env (arriving env rq) srv = Some (r, t) \<and> same srv t"
      using get_same [of "arriving env rq" env srv] assms by fastforce
    show ?thesis using Some f g g0 by (cases res) (auto simp: authenticate_def Let_def intro!: same_intros)
  qed
  then show ?thesis by (auto simp: serve_eq same_def)
qed

theorem http_get_reads_only_witness:
  "\<exists>r srv'. serve demo_env (demo_request ''GET'' ''/v1/decisions'') (demo_srv New) = Some (r, srv') \<and> same (demo_srv New) srv'"
  by (rule http_get_reads_only) simp

section \<open>Requests without a token\<close>

lemma issue_same: "same srv (snd (issueToken env rq srv))"
  by (auto simp: issueToken_def Let_def intro!: same_intros split: option.split sum.split)

lemma token_route: "route_of True rq = Some (h_issueToken, fmempty)" if "rq_Method rq = ''POST''" "rq_Path rq = ''/v1/auth/tokens''"
proof -
  have "find_route (routes True) ''POST'' (path_segs ''/v1/auth/tokens'') = Some (h_issueToken, fmempty)" by code_simp
  with that show ?thesis by (simp add: route_of_def)
qed

lemma public_same:
  assumes "publicRoute rq" "sr_auth srv \<noteq> None"
  shows "\<exists>r t. route_request env rq srv = Some (r, t) \<and> same srv t"
proof (cases "rq_Method rq = ''GET''")
  case True
  then show ?thesis by (rule get_same)
next
  case False
  then have "rq_Method rq = ''POST''" "rq_Path rq = ''/v1/auth/tokens''" using assms(1) by (auto simp: publicRoute_def)
  from token_route [OF this] have "route_request env rq srv = Some (issueToken env (rq\<lparr>rq_PathValues := fmempty\<rparr>) srv)"
    using assms(2) by (simp add: route_request_def dispatch_def)
  with issue_same show ?thesis by (metis prod.collapse)
qed

text \<open>C10: Without a valid token nothing changes. On an authenticated server a request whose token is missing, invalid or expired leaves the service and the
  blobs as they were, and unless its route is public the answer is 401 with the reason.\<close>

theorem http_unauthenticated_harmless:
  assumes "sr_auth srv = Some m" "FromRequest (ev_auth env) m (rq_Header rq ''Authorization'') (ev_now env) = (Inl e, m')"
  shows "\<exists>r srv'. serve env rq srv = Some (r, srv') \<and> same srv srv' \<and> (\<not> publicRoute rq \<longrightarrow> r = Some (writeJSON 401 (BError (EAuth e))))"
proof -
  have "\<exists>r t. authenticate env (arriving env rq) srv = Some (r, t) \<and> same srv t
      \<and> (\<not> publicRoute rq \<longrightarrow> r = Some (writeJSON 401 (BError (EAuth e))))"
    using public_same [of "arriving env rq" srv env] assms by (auto simp: authenticate_def same_def)
  then show ?thesis by (auto simp: serve_eq same_def)
qed

theorem http_unauthenticated_harmless_witness:
  "\<exists>r srv'. serve demo_env (demo_request ''POST'' ''/v1/missions'') (demo_srv New) = Some (r, srv')
     \<and> same (demo_srv New) srv' \<and> r = Some (writeJSON 401 (BError (EAuth AuthMissingToken)))"
proof -
  let ?rq = "demo_request ''POST'' ''/v1/missions''"
  have "FromRequest (ev_auth demo_env) demo_manager (rq_Header ?rq ''Authorization'') (ev_now demo_env) = (Inl AuthMissingToken, demo_manager)"
    by (simp add: FromRequest_def has_prefix_def)
  moreover have "\<not> publicRoute ?rq" by (simp add: publicRoute_def)
  ultimately show ?thesis using http_unauthenticated_harmless [of "demo_srv New" demo_manager demo_env ?rq AuthMissingToken demo_manager] by auto
qed

section \<open>Agents act as themselves\<close>

text \<open>The subject that may act for a registered agent.\<close>

definition owner_of :: "Agent \<Rightarrow> string" where
  "owner_of a = (if a_AuthSubject a = '''' then a_ID a else a_AuthSubject a)"

definition owns_agent :: "Store \<Rightarrow> string \<Rightarrow> bool" where
  "owns_agent s subject \<longleftrightarrow> (\<exists>k a. GetAgent k s = Inr a \<and> owner_of a = subject)"

text \<open>An agent request whose subject owns no registered agent.\<close>

definition stranger :: "'b Srv \<Rightarrow> Request \<Rightarrow> bool" where
  "stranger srv rq \<longleftrightarrow> sr_auth srv \<noteq> None
     \<and> (\<exists>i. rq_Identity rq = Some i \<and> id_Kind i = ''agent'' \<and> \<not> owns_agent (srv_store srv) (id_Subject i))"

lemma stranger_refused:
  assumes "stranger srv rq"
  shows "requireAgentIdentity srv rq k \<noteq> None" and "requireSubtaskIdentity srv rq k \<noteq> None"
proof -
  show 1: "requireAgentIdentity srv rq k \<noteq> None" for k
  proof (cases "GetAgent k (srv_store srv)")
    case (Inl e)
    then show ?thesis using assms by (auto simp: stranger_def requireAgentIdentity_def ServiceGetAgent_def)
  next
    case (Inr a)
    obtain i where i: "sr_auth srv \<noteq> None" "rq_Identity rq = Some i" "\<not> owns_agent (srv_store srv) (id_Subject i)"
      using assms by (auto simp: stranger_def)
    then have "owner_of a \<noteq> id_Subject i" using Inr by (auto simp: owns_agent_def)
    then show ?thesis using i Inr by (auto simp: requireAgentIdentity_def ServiceGetAgent_def Let_def owner_of_def)
  qed
  show "requireSubtaskIdentity srv rq k \<noteq> None"
    using assms 1 by (auto simp: requireSubtaskIdentity_def stranger_def split: sum.splits)
qed

lemma guarded_refused: "g \<noteq> None \<Longrightarrow> snd (guarded g k srv) = srv"
  by (auto simp: guarded_def)

lemma same_guarded_refused: "g \<noteq> None \<Longrightarrow> same srv (snd (guarded g k srv))"
  by (simp add: guarded_refused same_refl)

lemma stranger_kind: "stranger srv rq \<Longrightarrow> sr_auth srv \<noteq> None \<and> id_Kind (identity_or_zero rq) = ''agent''"
  by (auto simp: stranger_def identity_or_zero_def)

lemma stranger_verify: "stranger srv rq \<Longrightarrow> same srv (snd (verifyArtifact env rq srv))"
  using stranger_refused(1) [of srv rq] stranger_kind [of srv rq]
  by (auto simp: verifyArtifact_def verifier_of_def Let_def intro!: same_intros split: sum.split option.split) (metis option.distinct(1))+

lemma stranger_put: "stranger srv rq \<Longrightarrow> same srv (snd (putArtifact env rq srv))"
  using stranger_refused(2) [of srv rq] stranger_kind [of srv rq]
  by (auto simp: putArtifact_def Let_def intro!: same_intros same_guarded_refused)

lemma stranger_submit:
  assumes "stranger srv rq"
  shows "\<exists>r t. submitIntent env rq srv = Some (r, t) \<and> same srv t"
proof (cases "decode (cd_intent (ev_codec env)) rq")
  case (Inl r)
  then show ?thesis by (simp add: submitIntent_def same_refl)
next
  case (Inr inp)
  obtain g where "requireAgentIdentity srv rq (ac_ID (in_Source inp)) = Some g" using stranger_refused(1) [OF assms] by blast
  then show ?thesis using Inr stranger_kind [OF assms] by (auto simp: submitIntent_def same_refl Let_def)
qed

lemma stranger_same:
  assumes "stranger srv rq" "h \<in> set agent_handlers"
  shows "\<exists>r t. dispatch env h rq srv = Some (r, t) \<and> same srv t"
proof (cases "h \<in> set reading_handlers \<or> h = h_submitIntent")
  case True
  then show ?thesis using reading_same stranger_submit [OF assms(1)] by (auto simp: dispatch_def)
next
  case False
  note ref = stranger_refused(1) [OF assms(1)]
  have "dispatch env h rq srv \<noteq> None \<and> same srv (snd (the (dispatch env h rq srv)))"
    using False assms(2) ref
    by (auto simp: agent_handlers_def reading_handlers_def dispatch_def heartbeat_def acceptLease_def startSubtask_def progress_def
        completeSubtaskHandler_def failSubtaskHandler_def suspend_def ingestLeadInbox_def leadHeartbeat_def requestDecision_def
        intro!: same_with_req same_refl same_guarded_refused stranger_put [OF assms(1)] stranger_verify [OF assms(1)])
  then show ?thesis by (cases "dispatch env h rq srv") auto
qed

text \<open>C9: An agent acts for itself only. On an authenticated server, on a path without a trailing slash that does not end in
  \<open>/signed-url\<close>, a request with an agent token whose subject owns no registered agent always returns and leaves the service
  and the blobs as they were, whatever its body claims.\<close>

theorem agent_acts_for_its_own:
  assumes auth: "sr_auth srv = Some m" "FromRequest (ev_auth env) m (rq_Header rq ''Authorization'') (ev_now env) = (Inr i, m')"
    and i: "id_Kind i = ''agent''" "\<not> owns_agent (srv_store srv) (id_Subject i)"
    and path: "canonical (rq_Path rq)" "\<not> has_suffix ''/signed-url'' (rq_Path rq)"
  shows "\<exists>r srv'. serve env rq srv = Some (r, srv') \<and> same srv srv'"
proof -
  let ?srv = "srv\<lparr>sr_auth := Some m'\<rparr>" and ?rq = "arriving env rq\<lparr>rq_Identity := Some i\<rparr>"
  have inner: "\<exists>r t. route_request env ?rq ?srv = Some (r, t) \<and> same srv t" if ok: "routeAllowed i rq"
  proof (cases "route_of True ?rq")
    case None
    then show ?thesis by (simp add: route_request_def same_def)
  next
    case (Some hv)
    obtain h vals where hv: "hv = (h, vals)" by fastforce
    have "route_of True rq = Some (h, vals)" using Some hv by (simp add: route_of_def)
    from agent_routes [OF ok i(1) path this] have h: "h \<in> set agent_handlers" .
    have "stranger ?srv (?rq\<lparr>rq_PathValues := vals\<rparr>)" using i by (simp add: stranger_def)
    from stranger_same [OF this h, of env] obtain r t where
      "dispatch env h (?rq\<lparr>rq_PathValues := vals\<rparr>) ?srv = Some (r, t)" "same ?srv t" by blast
    then show ?thesis using Some hv by (auto simp: route_request_def same_def)
  qed
  have "\<exists>r t. authenticate env (arriving env rq) srv = Some (r, t) \<and> same srv t"
    using public_same [of "arriving env rq" srv env] inner auth by (auto simp: authenticate_def same_def Let_def)
  then show ?thesis by (auto simp: serve_eq same_def)
qed

theorem agent_acts_for_its_own_witness:
  "\<exists>r srv'. serve demo_env (with_token (demo_request ''POST'' ''/v1/leases/lse_1/accept'')) (demo_srv New) = Some (r, srv')
     \<and> same (demo_srv New) srv'"
  by (rule agent_acts_for_its_own [where m = demo_manager and i = demo_identity and m' = demo_manager])
    (simp_all add: demo_FromRequest NewService_def owns_agent_def GetAgent_def New_def canonical_def has_suffix_def has_prefix_def)

section \<open>The trailing slash\<close>

text \<open>C37: A trailing slash defeats the access policy. The policy looks at the path as sent, the router at the path without its slashes: with an agent
  token, \<open>POST /v1/subtasks/<id>/wake/\<close> wakes any waiting subtask, owned or not, although waking is closed to agents.\<close>

theorem agent_wakes_with_slash:
  assumes auth: "sr_auth srv = Some m" "FromRequest (ev_auth env) m (rq_Header rq ''Authorization'') (ev_now env) = (Inr i, m')"
    and i: "id_Kind i = ''agent''" and x: "x \<noteq> ''''" "CHR ''/'' \<notin> set x"
    and rq: "rq_Method rq = ''POST''" "rq_Path rq = ''/v1/subtasks/'' @ x @ ''/wake/''"
  shows "\<not> routeAllowed i (rq\<lparr>rq_Path := ''/v1/subtasks/'' @ x @ ''/wake''\<rparr>)
    \<and> (\<exists>r srv'. serve env rq srv = Some (r, srv')
        \<and> sr_svc srv' = snd (on_store (WakeAs (ev_ord env) x \<lparr>ac_Kind = ''agent'', ac_ID = id_Subject i\<rparr> (ev_now env)) (sr_svc srv)))"
proof
  have "has_suffix ''/wake'' (''/v1/subtasks/'' @ x @ ''/wake'')" by (simp add: has_suffix_def has_prefix_def)
  then show "\<not> routeAllowed i (rq\<lparr>rq_Path := ''/v1/subtasks/'' @ x @ ''/wake''\<rparr>)"
    using i by (simp add: routeAllowed_def Privileged_def)
next
  let ?srv = "srv\<lparr>sr_auth := Some m'\<rparr>" and ?rq = "arriving env rq\<lparr>rq_Identity := Some i, rq_PathValues := fmupd ''id'' x fmempty\<rparr>"
  have allowed: "routeAllowed i rq"
    using i rq(2) by (simp add: routeAllowed_def Privileged_def has_suffix_def has_prefix_def Let_def)
  have "route_of True (arriving env rq\<lparr>rq_Identity := Some i\<rparr>) = Some (h_wake, fmupd ''id'' x fmempty)"
    using segs_wake [OF x] prefix_free_routes rq by (simp add: route_of_def)
  moreover have "\<not> publicRoute rq" using rq by (simp add: publicRoute_def)
  ultimately have "authenticate env (arriving env rq) srv = Some (wake env ?rq ?srv)"
    using auth allowed by (simp add: authenticate_def route_request_def dispatch_def)
  moreover have "sr_svc (snd (wake env ?rq ?srv)) =
      snd (on_store (WakeAs (ev_ord env) x \<lparr>ac_Kind = ''agent'', ac_ID = id_Subject i\<rparr> (ev_now env)) (sr_svc srv))"
    using i by (auto simp: wake_def Let_def reply_def pv_def header_get_def requestActor_def split: prod.split sum.split)
  ultimately show "\<exists>r srv'. serve env rq srv = Some (r, srv')
      \<and> sr_svc srv' = snd (on_store (WakeAs (ev_ord env) x \<lparr>ac_Kind = ''agent'', ac_ID = id_Subject i\<rparr> (ev_now env)) (sr_svc srv))"
    by (auto simp: serve_eq split: prod.split)
qed

theorem agent_wakes_with_slash_witness:
  "\<exists>r srv'. serve demo_env (with_token (demo_request ''POST'' ''/v1/subtasks/sub_a/wake/'')) (demo_srv scn_waiting) = Some (r, srv')
     \<and> subtask_state scn_waiting ''sub_a'' = Some StateWaiting \<and> subtask_state (sv_st (sr_svc srv')) ''sub_a'' = Some StateReady"
proof -
  let ?rq = "with_token (demo_request ''POST'' ''/v1/subtasks/sub_a/wake/'')"
  have "FromRequest (ev_auth demo_env) demo_manager (rq_Header ?rq ''Authorization'') (ev_now demo_env) = (Inr demo_identity, demo_manager)"
    by (simp add: demo_FromRequest)
  from agent_wakes_with_slash [OF _ this, of "demo_srv scn_waiting" "''sub_a''"] obtain r srv' where
    "serve demo_env ?rq (demo_srv scn_waiting) = Some (r, srv')"
    "sr_svc srv' = snd (on_store (WakeAs sorted_list_of_fset ''sub_a'' \<lparr>ac_Kind = ''agent'', ac_ID = ''runtime''\<rparr> 0) (NewService scn_waiting DefaultConfig))"
    by auto
  with waiting_wakes show ?thesis by (auto simp: NewService_def)
qed

text \<open>The same holds of registration, and the suffix \<open>/signed-url\<close> opens every other route whose last segment is free, such as
  writing the blackboard of any mission under the key \<open>signed-url\<close>.\<close>

lemma agent_register_hole:
  assumes "id_Kind i = ''agent''" "rq_Method rq = ''POST''" "rq_Path rq = ''/v1/agents/register/''"
  shows "routeAllowed i rq \<and> route_of True rq = Some (h_registerAgent, fmempty)"
proof -
  have "find_route (routes True) ''POST'' (path_segs ''/v1/agents/register/'') = Some (h_registerAgent, fmempty)" by code_simp
  then show ?thesis using assms by (simp add: route_of_def routeAllowed_def Privileged_def has_suffix_def has_prefix_def Let_def)
qed

lemma board_hole_route:
  "find_route (routes True) ''PUT'' [''v1'', ''missions'', m, ''board'', ns, ''signed-url'']
     = Some (h_boardPut, fmupd ''key'' ''signed-url'' (fmupd ''ns'' ns (fmupd ''id'' m fmempty)))"
  by code_simp

lemma agent_board_hole:
  assumes "id_Kind i = ''agent''" "rq_Method rq = ''PUT''" "rq_Path rq = ''/v1/missions/'' @ m @ ''/board/'' @ ns @ ''/signed-url''"
    and "m \<noteq> ''''" "CHR ''/'' \<notin> set m" "CHR ''/'' \<notin> set ns"
  shows "routeAllowed i rq
    \<and> route_of True rq = Some (h_boardPut, fmupd ''key'' ''signed-url'' (fmupd ''ns'' ns (fmupd ''id'' m fmempty)))"
proof -
  have "split_on (CHR ''/'') (''v1/missions/'' @ m @ CHR ''/'' # ''board/'' @ ns @ CHR ''/'' # ''signed-url'')
      = ''v1'' # ''missions'' # split_on (CHR ''/'') (m @ CHR ''/'' # ''board/'' @ ns @ CHR ''/'' # ''signed-url'')" by simp
  also have "\<dots> = ''v1'' # ''missions'' # m # ''board'' # split_on (CHR ''/'') (ns @ CHR ''/'' # ''signed-url'')"
    by (simp only: split_on_sep [OF assms(5)]) simp
  also have "\<dots> = [''v1'', ''missions'', m, ''board'', ns, ''signed-url'']" by (simp only: split_on_sep [OF assms(6)]) simp
  finally have "path_segs (rq_Path rq) = [''v1'', ''missions'', m, ''board'', ns, ''signed-url'']"
    using path_segs_inner(1) [of "''v1/missions/'' @ m @ ''/board/'' @ ns @ ''/signed-url''"] assms(3) by simp
  moreover have "has_suffix ''/signed-url'' (rq_Path rq)" "\<not> has_suffix ''/wake'' (rq_Path rq)"
    unfolding assms(3) by (simp_all add: has_suffix_def has_prefix_def)
  ultimately show ?thesis using assms(1,2,3) board_hole_route by (simp add: route_of_def routeAllowed_def Privileged_def Let_def)
qed

end
