(* ===== verification/ApiRuns.thy ===== *)
theory ApiRuns
  imports ApiAccess ServiceRuns
begin

text \<open>
  Every request is a step of the service or none: the handlers refine the operations of the service, so what holds
  of every run of the service holds of every sequence of requests.
\<close>

text \<open>
  What the surroundings of a request guarantee: \<open>newID\<close> draws a new mission id, and \<open>encoding/json\<close> refuses
  integers that do not fit 64 bits.
\<close>

definition request_ok :: "MemBlob ApiEnv \<Rightarrow> Store \<Rightarrow> bool" where
  "request_ok env s \<longleftrightarrow>
     (\<forall>tasks. fresh_mission (ev_newID env) tasks s)
     \<and> (\<forall>body err. in_int64 (cm_BudgetTokens (fst (cd_createMission (ev_codec env) body err))))
     \<and> (\<forall>body. in_int64 (cm_BudgetTokens (fst (cd_toolMission (ev_codec env) body))))
     \<and> (\<forall>body err. in_int64 (cq_UsageTokens (fst (cd_complete (ev_codec env) body err))))
     \<and> (\<forall>body err. let inp = fst (cd_intent (ev_codec env) body err) in fresh_for (ev_newID env) inp s
          \<and> in_int64 (in_BudgetTokens inp) \<and> (\<forall>task. in_Task inp = Some task \<longrightarrow> in_int64 (ds_BudgetTokens task)))"

section \<open>One step at most\<close>

definition step01 :: "Service \<Rightarrow> Service \<Rightarrow> bool" where
  "step01 sv sv' \<longleftrightarrow> sv' = sv \<or> service_step sv sv'"

named_theorems steps01

lemma step01_refl [steps01]: "step01 sv sv" by (simp add: step01_def)

lemma step01_step: "service_step sv sv' \<Longrightarrow> step01 sv sv'" by (simp add: step01_def)

lemma step01_respond [steps01]: "step01 sv (sr_svc t) \<Longrightarrow> step01 sv (sr_svc (snd (respond code body r t)))"
  by (simp add: respond_def split: sum.splits)

lemma reply_svc [simp]: "sr_svc (snd (reply code body r t)) = snd r"
  by (cases r) (auto simp: reply_def split: sum.splits)

lemma reply_svcD: "reply code body r t = (x, t') \<Longrightarrow> sr_svc t' = snd r"
  using reply_svc [of code body r t] by simp

lemma step01_reply [steps01]: "step01 sv (snd r) \<Longrightarrow> step01 sv (sr_svc (snd (reply code body r t)))"
  by simp

lemmas op_steps = service_step.intros [THEN step01_step]

lemma step01_guarded [steps01]: "step01 sv (sr_svc t) \<Longrightarrow> step01 sv (sr_svc (snd k)) \<Longrightarrow> step01 sv (sr_svc (snd (guarded g k t)))"
  by (simp add: guarded_def split: option.splits)

lemma step01_with_req [steps01]:
  "step01 sv (sr_svc t) \<Longrightarrow> (\<And>req. d = Inr req \<Longrightarrow> step01 sv (sr_svc (snd (k req)))) \<Longrightarrow> step01 sv (sr_svc (snd (with_req d k t)))"
  by (simp add: with_req_def split: sum.splits)

lemma step01_pair [steps01]: "step01 sv (sr_svc t) \<Longrightarrow> step01 sv (sr_svc (snd (r, t)))" by simp

lemma snd_drop_value [simp]: "snd (drop_value r) = snd r"
  by (cases r) (auto simp: drop_value_def split: sum.splits prod.splits)

lemma snd_and_then_value [simp]: "snd (and_then r (\<lambda>v s. (Inr (f v), s))) = snd r"
  by (cases r) (auto simp: and_then_def split: sum.splits)

lemma decode_fst: "decode dec rq = Inr req \<Longrightarrow> req = fst (dec (rq_Body rq) (rq_BodyErr rq))"
  by (auto simp: decode_def split: prod.splits option.splits)

section \<open>The handlers that write\<close>

lemma step_create:
  assumes "request_ok env (sv_st sv)" "in_int64 budget"
  shows "step01 sv (snd (on_store (CreateMissionWithBudgetAs (ev_ord env) (ev_newID env) actor owner goal budget tasks now) sv))"
  using assms by (intro step01_step ss_Create) (simp_all add: request_ok_def)

lemma in_int64_0: "in_int64 0" by (simp add: in_int64_def)

lemma step_createMission: "request_ok env (srv_store srv) \<Longrightarrow> step01 (sr_svc srv) (sr_svc (snd (createMissionHandler env rq srv)))"
  unfolding createMissionHandler_def
  by (intro steps01) (auto dest!: decode_fst intro!: steps01 step_create simp: request_ok_def)

lemma step_complete: 
  assumes "request_ok env (srv_store srv)"
  shows "step01 (sr_svc srv) (sr_svc (snd (completeSubtaskHandler env rq srv)))"
  unfolding completeSubtaskHandler_def
proof (intro steps01)
  fix req assume "decode (cd_complete (ev_codec env)) rq = Inr req"
  then have "in_int64 (cq_UsageTokens req)" using assms by (auto dest!: decode_fst simp: request_ok_def)
  from ss_Complete [OF this]
  have step: "service_step (sr_svc srv) (snd (ServiceCompleteSubtaskWithUsage (ev_ord env) (pv rq ''id'') (cq_FencingToken req)
      (cq_IdempotencyKey req) (cq_ResultRef req) (cq_UsageTokens req) (cq_Version req) (cq_AgentID req) (ev_now env) (sr_svc srv)))" .
  then show "step01 (sr_svc srv) (sr_svc (snd (case ServiceCompleteSubtaskWithUsage (ev_ord env) (pv rq ''id'') (cq_FencingToken req)
      (cq_IdempotencyKey req) (cq_ResultRef req) (cq_UsageTokens req) (cq_Version req) (cq_AgentID req) (ev_now env) (sr_svc srv) of
        (Inl (e, sub), svc) \<Rightarrow>
          (if e = ErrDuplicate then (Some (writeJSON 200 (BDeduplicated sub)), srv\<lparr>sr_svc := svc\<rparr>)
           else (Some (writeErr e), srv\<lparr>sr_svc := svc\<rparr>))
      | (Inr sub, svc) \<Rightarrow> (Some (writeJSON 200 (BSubtask sub)), srv\<lparr>sr_svc := svc\<rparr>))))"
    by (auto simp: step01_def split: prod.split sum.split)
qed

lemma step_put: "step01 (sr_svc srv) (sr_svc (snd (putArtifact (env :: MemBlob ApiEnv) rq srv)))"
proof -
  have "step01 (sr_svc srv) (sr_svc (snd (case ServicePutArtifact (ev_bs env) (ev_sha env) m p c body (ev_now env) (sr_blob srv, srv_store srv) of
      (r, (b, s)) \<Rightarrow> reply 201 BArtifact (r, (sr_svc srv)\<lparr>sv_st := s\<rparr>) (srv\<lparr>sr_blob := b\<rparr>))))" for m p c body
    using ss_PutArtifact [of "sr_svc srv" "ev_bs env" "ev_sha env" m p c body "ev_now env" "sr_blob srv"]
    by (auto simp: step01_def split: prod.split)
  then show ?thesis unfolding putArtifact_def Let_def by (auto intro!: steps01)
qed

lemma step_verify: "step01 (sr_svc srv) (sr_svc (snd (verifyArtifact (env :: MemBlob ApiEnv) rq srv)))"
proof -
  have "step01 (sr_svc srv) (sr_svc (snd (case VerifyArtifact (ev_bs env) (ev_sha env) art inp actor (ev_now env) (sr_blob srv) (sr_svc srv) of
      (Inl e, svc) \<Rightarrow> (Some (writeAuthOrCoreError e), srv\<lparr>sr_svc := svc\<rparr>)
    | (Inr q, svc) \<Rightarrow> (Some (writeJSON 201 (BQuality q)), srv\<lparr>sr_svc := svc\<rparr>))))" for art inp actor
    using ss_Verify [of "sr_svc srv" "ev_bs env" "ev_sha env" art inp actor "ev_now env" "sr_blob srv"]
    by (auto simp: step01_def split: prod.split sum.split)
  then show ?thesis unfolding verifyArtifact_def by (auto intro!: steps01 split: sum.split)
qed

lemma step_submit:
  assumes "request_ok env (srv_store srv)" "submitIntent env rq srv = Some (r, t)"
  shows "step01 (sr_svc srv) (sr_svc t)"
proof (cases "decode (cd_intent (ev_codec env)) rq")
  case (Inl x)
  then show ?thesis using assms(2) by (simp add: submitIntent_def step01_refl)
next
  case (Inr inp)
  let ?sub = "SubmitIntent (sv_cfg (sr_svc srv)) (ev_ord env) (ev_newID env) (ev_newSubID env) inp (ev_now env) (srv_store srv)"
  have inp: "fresh_for (ev_newID env) inp (srv_store srv)" "in_int64 (in_BudgetTokens inp)"
      "\<And>task. in_Task inp = Some task \<Longrightarrow> in_int64 (ds_BudgetTokens task)"
    using assms(1) Inr by (auto dest!: decode_fst simp: request_ok_def Let_def)
  have "step01 (sr_svc srv) ((sr_svc srv)\<lparr>sv_st := s\<rparr>)" if "?sub = Some (q, s)" for q s
    by (rule step01_step, rule ss_Submit [OF that inp])
  then have "?sub = Some (q, s) \<Longrightarrow> step01 (sr_svc srv) (sr_svc (snd (reply 200 BIntent (q, (sr_svc srv)\<lparr>sv_st := s\<rparr>) srv)))" for q s
    by (intro step01_reply) simp
  then show ?thesis
    using assms(2) Inr by (auto simp: submitIntent_def Let_def step01_refl dest!: reply_svcD split: if_splits option.splits)
qed

lemma step_a2a: "request_ok env (srv_store srv) \<Longrightarrow> step01 (sr_svc srv) (sr_svc (snd (a2aJSONRPC env rq srv)))"
proof -
  assume ok: "request_ok env (srv_store srv)"
  have "step01 (sr_svc srv) (sr_svc (snd (a2a_send env rq req srv)))" for req
    using step_create [OF ok in_int64_0]
    by (auto simp: a2a_send_def Let_def step01_refl split: prod.split sum.split option.split) (metis snd_conv)+
  moreover have "step01 (sr_svc srv) (sr_svc (snd (a2a_cancel env rq req srv)))" for req
    using step01_step [OF ss_Cancel]
    by (auto simp: a2a_cancel_def Let_def step01_refl split: prod.split sum.split) (metis snd_conv)+
  moreover have "step01 (sr_svc srv) (sr_svc (snd (a2a_get env req srv)))" for req
    by (auto simp: a2a_get_def step01_refl Let_def split: prod.split sum.split)
  ultimately show ?thesis unfolding a2aJSONRPC_def by (auto intro!: steps01)
qed

lemma step_tool:
  assumes "request_ok env (sv_st sv)" "mcp_tool env rq name arguments sv = Some (r, sv')"
  shows "step01 sv sv'"
proof -
  have "step01 sv (snd (tool_create env rq arguments sv))"
    using step_create [OF assms(1)] assms(1)
    by (auto simp: tool_create_def Let_def step01_refl request_ok_def split: prod.split) (metis fst_conv)+
  then show ?thesis
    using assms(2) step01_step [OF ss_Cancel] step01_step [OF ss_Wake]
    by (auto simp: mcp_tool_def Let_def step01_refl split: if_splits sum.splits prod.splits dest!: arg_cong [of _ _ snd])
qed

lemma step_mcp: "request_ok env (srv_store srv) \<Longrightarrow> step01 (sr_svc srv) (sr_svc (snd (mcpJSONRPC env rq srv)))"
proof -
  assume ok: "request_ok env (srv_store srv)"
  have "step01 (sr_svc srv) (sr_svc (snd (mcpCallTool env rq req srv)))" for req
    using step_tool [OF ok] by (auto simp: mcpCallTool_def step01_refl split: prod.split sum.split option.split)
  then show ?thesis unfolding mcpJSONRPC_def Let_def by (auto intro!: steps01)
qed

lemma step_dispatch:
  assumes ok: "request_ok env (srv_store srv)" and run: "dispatch env h rq srv = Some (r, t)"
  shows "step01 (sr_svc srv) (sr_svc t)"
proof (cases "h \<in> set reading_handlers \<or> h = h_submitIntent \<or> h = h_issueToken")
  case True
  then show ?thesis
    using reading_same [of h env rq srv] step_submit [OF ok] run issue_same [of srv env rq]
    by (auto simp: dispatch_def same_def step01_refl)
next
  case False
  have "step01 (sr_svc srv) (sr_svc (snd (the (dispatch env h rq srv))))"
    using False
    by (cases h; simp add: dispatch_def reading_handlers_def step_createMission [OF ok] step_complete [OF ok] step_put step_verify
        step_a2a [OF ok] step_mcp [OF ok] step01_refl)
      (auto simp: cancelMission_def registerAgent_def heartbeat_def acceptLease_def startSubtask_def progress_def
        failSubtaskHandler_def suspend_def wake_def ingestLeadInbox_def leadHeartbeat_def resolveDecision_def requestDecision_def
        boardPut_def signArtifactURL_def runSimulation_def evaluateCanary_def createAppeal_def resolveAppeal_def gatewayMeter_def Let_def
        intro!: steps01 op_steps split: option.split)
  with run show ?thesis by simp
qed

section \<open>Serving\<close>

lemma step01_trans_eq: "sr_svc t = sr_svc u \<Longrightarrow> step01 sv (sr_svc u) \<Longrightarrow> step01 sv (sr_svc t)" by simp

lemma step_route:
  assumes "request_ok env (srv_store srv)" "route_request env rq srv = Some (r, t)"
  shows "step01 (sr_svc srv) (sr_svc t)"
  using assms step_dispatch [OF assms(1)] by (auto simp: route_request_def step01_refl split: option.splits prod.splits)

lemma step_authenticate:
  assumes "request_ok env (srv_store srv)" "authenticate env rq srv = Some (r, t)"
  shows "step01 (sr_svc srv) (sr_svc t)"
proof -
  have "step01 (sr_svc srv) (sr_svc u)" if "route_request env q (srv\<lparr>sr_auth := a\<rparr>) = Some (x, u)" for q a x u
    using step_route [of env "srv\<lparr>sr_auth := a\<rparr>", OF _ that] assms(1) by simp
  then show ?thesis
    using assms(2) step_route [OF assms(1)]
    by (auto simp: authenticate_def Let_def step01_refl split: option.splits if_splits prod.splits sum.splits)
qed

text \<open>A server at work: requests arrive one after the other, and between them the background loops of the service run.\<close>

inductive server_runs :: "MemBlob Srv \<Rightarrow> MemBlob Srv \<Rightarrow> bool" where
  server_refl: "server_runs srv srv"
| server_request: "server_runs srv a \<Longrightarrow> request_ok env (srv_store a) \<Longrightarrow> serve env rq a = Some (r, b) \<Longrightarrow> server_runs srv b"
| server_background: "server_runs srv a \<Longrightarrow> service_step (sr_svc a) sv \<Longrightarrow> server_runs srv (a\<lparr>sr_svc := sv\<rparr>)"

text \<open>C7: The HTTP edge refines the service. A served request is one step of the service or none, so whatever requests a server
  answers, in whatever order and between whatever rounds of its background loops, its service is in a state that a run of
  the service reaches. On a server that started with an empty store the tables are therefore well formed after every request,
  and later requests only extend the event log and move records forward.\<close>

theorem http_refines_service:
  assumes "server_runs a b" "server_runs b c"
  shows "service_runs (sr_svc a) (sr_svc b)
    \<and> (request_ok env (srv_store b) \<longrightarrow> serve env rq b = Some (r, d) \<longrightarrow> sr_svc d = sr_svc b \<or> service_step (sr_svc b) (sr_svc d))
    \<and> (srv_store a = New \<longrightarrow> store_wf (srv_store b) \<and> history (srv_store b) (srv_store c))"
proof -
  have one: "sr_svc y = sr_svc x \<or> service_step (sr_svc x) (sr_svc y)"
    if "request_ok e (srv_store x)" "serve e q x = Some (z, y)" for e q x y z
  proof -
    from that(2) obtain t where t: "authenticate e (arriving e q) x = Some (z, t)" "sr_svc y = sr_svc t" by (rule serve_Some)
    with step_authenticate [OF that(1) t(1)] show ?thesis by (simp add: step01_def)
  qed
  have run: "service_runs (sr_svc x) (sr_svc y)" if "server_runs x y" for x y
    using that
  proof induction
    case (server_request srv x e q z y)
    with one [OF server_request.hyps(2,3)] show ?case by (auto intro: sr_step)
  qed (auto intro: service_runs.intros)
  have "store_wf (srv_store b) \<and> history (srv_store b) (srv_store c)" if "srv_store a = New"
  proof -
    have "reachable (srv_store b)" using service_runs_run [OF run [OF assms(1)]] that by (simp add: reachable_def)
    with reachable_wf reachable_history [OF _ service_runs_run [OF run [OF assms(2)]]] show ?thesis by blast
  qed
  with one run [OF assms(1)] show ?thesis by blast
qed

lemma demo_request_ok: "request_ok demo_env New"
proof -
  have "fresh_mission i tasks New" for i tasks by (simp add: fresh_mission_def New_def)
  moreover have "fresh_for i inp New" for i inp by (simp add: fresh_for_def fresh_mission_def New_def)
  ultimately show ?thesis
    by (simp add: request_ok_def demo_codec_def one_body_def one_text_def demo_mission_req_def demo_intent_def in_int64_def Let_def)
qed

text \<open>An unauthenticated request to create a mission, refused, and a second server without authentication that serves it.\<close>

theorem http_refines_service_witness:
  "\<exists>r d. serve demo_env (demo_request ''POST'' ''/v1/missions'') (NewServer (NewService New DefaultConfig) NewMemBlob) = Some (r, d)
     \<and> service_runs (NewService New DefaultConfig) (sr_svc d) \<and> store_wf (srv_store d)"
proof -
  let ?srv = "NewServer (NewService New DefaultConfig) NewMemBlob" and ?rq = "demo_request ''POST'' ''/v1/missions''"
  have New: "srv_store ?srv = New" "sr_svc ?srv = NewService New DefaultConfig" by (simp_all add: NewServer_def NewService_def)
  have "find_route (routes False) ''POST'' (path_segs ''/v1/missions'') = Some (h_createMission, fmempty)" by code_simp
  then have "\<exists>y. serve demo_env ?rq ?srv = Some y"
    by (simp add: serve_eq authenticate_def route_request_def route_of_def dispatch_def NewServer_def)
  then obtain r d where d: "serve demo_env ?rq ?srv = Some (r, d)" by auto
  have ok: "request_ok demo_env (srv_store ?srv)" using New demo_request_ok by simp
  from server_request [OF server_refl ok d] have run: "server_runs ?srv d" .
  from http_refines_service [OF run server_refl] New d show ?thesis by simp
qed

end
