(* ===== verification/ApiStream.thy ===== *)
theory ApiStream
  imports ApiServe StoreProps
begin

text \<open>
  The event stream of \<open>missionEventsSSE\<close>: the ticks of one connection over the states of a run of the store deliver the
  events of the mission in order, each once, and all of them as soon as the log rests long enough.
\<close>

lemma sse_stream_polled: "sse_stream m after ticks = polled (\<lambda>after. ListMissionEvents m after 200) after ticks"
  by (induction ticks arbitrary: after) (simp_all add: ServiceListMissionEvents_def Let_def)

text \<open>C25: The event stream loses and repeats nothing. Over the ticks of a connection, each in a state that leads to the last one,
  the events written are the first events of the mission after the start position, in the order of the log; and once the
  log rests for a tick per 200 events, they are all of them.\<close>

theorem event_stream_exact:
  assumes "\<forall>s \<in> set ticks. reachable s \<and> reaches s t" "reachable t"
  shows "\<exists>left. mission_events m after t = sse_stream m after ticks @ left
    \<and> (length left \<le> 200 * n \<longrightarrow> sse_stream m after (ticks @ replicate n t) = mission_events m after t)"
  using mem_log.poll_exact [of ticks t m after n] assms reaches_refl
  by (simp add: sse_stream_polled mem_log.left_def)

text \<open>Four ticks of a connection that opened before the mission of the scenario spawned its child.\<close>

theorem event_stream_exact_witness:
  "sse_stream ''msn_1'' 3 [scn_running, scn_running, scn_spawned, scn_spawned] = mission_events ''msn_1'' 3 scn_spawned"
proof -
  have run: "reaches scn_running scn_spawned" by (rule reaches_step [OF reaches_refl step_spawned])
  have "case scn_spawned of s \<Rightarrow> length (events s) \<le> 400" by code_simp
  then have len: "length left \<le> 400" if "mission_events ''msn_1'' 3 scn_spawned = xs @ left" for xs left
  proof -
    have "length left \<le> length (mission_events ''msn_1'' 3 scn_spawned)" unfolding that by simp
    also have "\<dots> \<le> length (events scn_spawned)" by simp
    finally show ?thesis using \<open>case scn_spawned of s \<Rightarrow> length (events s) \<le> 400\<close> by simp
  qed
  have "\<forall>s \<in> set [scn_running, scn_running]. reachable s \<and> reaches s scn_spawned" using reachable_running run by simp
  from event_stream_exact [OF this reachable_spawned, of "''msn_1''" 3 2] len show ?thesis by (auto simp: numeral_2_eq_2)
qed

section \<open>Answers that do not say what happened\<close>

text \<open>
  Two answers of the HTTP edge that do not say what happened: a token life time that wraps around, and a verification
  request of an agent that is refused with an empty success.
\<close>

text \<open>
  \<open>time.Duration(TTLSeconds) * time.Second\<close> is a 64-bit product. A life time of 18446744074 seconds wraps to 0.29
  seconds, which passes the check of the maximum; the answer still promises 18446744074.
\<close>

lemma issue_ttl_wraps:
  assumes "sr_auth srv = Some m" "CheckBootstrap m (rq_Header rq ''X-Troop-Bootstrap-Token'')"
    and "decodeLimited (cd_token (ev_codec env)) rq (2 ^ 16) = Inr req" "tq_TTLSeconds req = 18446744074"
    and "TrimSpace (tq_Subject req) \<noteq> ''''" "known_kind (tq_Kind req)"
  shows "\<exists>token. Issue (ev_auth env) m (tq_Subject req) (tq_Kind req) (tq_Scopes req) 290448384 (ev_now env) = Inr token
    \<and> issueToken env rq srv = (Some (writeJSON 201 (BToken token 18446744074)), srv)"
proof -
  have wrap: "wrap64 (18446744074 * second) = 290448384" by code_simp
  have "\<not> 290448384 > maxTokenTTL" by code_simp
  then obtain token where "Issue (ev_auth env) m (tq_Subject req) (tq_Kind req) (tq_Scopes req) 290448384 (ev_now env) = Inr token"
    using assms(5,6) by (auto simp: Issue_def Let_def)
  with assms wrap show ?thesis by (simp add: issueToken_def with_req_def Let_def)
qed

text \<open>\<open>verifyArtifact\<close> returns without writing when an agent leaves out \<open>verifier_agent_id\<close>: \<open>net/http\<close> answers 200.\<close>

lemma verify_silently_refused:
  assumes "sr_auth srv \<noteq> None" "rq_Identity rq = Some i" "id_Kind i = ''agent''"
    and "decodeLimited (cd_verify (ev_codec env)) rq (2 ^ 20) = Inr req" "vr_VerifierAgentID req = ''''"
  shows "verifyArtifact env rq srv = (None, srv) \<and> status_of (fst (verifyArtifact env rq srv)) = 200"
  using assms by (auto simp: verifyArtifact_def verifier_of_def with_req_def identity_or_zero_def status_of_def Let_def)

end
