(* ===== verification/PgState.thy ===== *)
theory PgState
  imports MemBoard "HOL-Library.Product_Lexorder"
begin

text \<open>
  The PostgreSQL store (\<open>internal/store/pg/pg.go\<close>): the tables of \<open>migrations/\<close>, the constraints the
  statements run into, transactions, and the statements the methods share. A row is kept as the record that the
  scan functions read it back as; columns no statement reads (\<open>created_at\<close> of most tables, \<open>updated_at\<close>) are left out.

  A statement that violates a constraint fails; the transaction is then rolled back, which gives back the tables
  but not the numbers drawn from sequences. Times are stored in microseconds, dynamic JSON values come back with
  every number a \<open>float64\<close>, and text stored as \<open>jsonb\<close> comes back normalised by the server (\<open>jb\<close>; \<open>None\<close>
  for text that is not JSON).
\<close>

type_synonym jsonb = "string \<Rightarrow> string option"

record Db =
  db_missions :: "Mission table"
  db_budgets :: "BudgetAccount table"
  db_subtasks :: "Subtask table"
  db_agents :: "Agent table"
  db_leases :: "Lease table"
  db_events :: "Event list"
  db_idem :: "string table"
  db_decisions :: "Decision table"
  db_board :: "(string \<times> string \<times> string, BoardEntry) fmap"
  db_artifacts :: "Artifact table"
  db_inbox :: "LeadInboxItem table"
  db_holds :: "BudgetHold table"
  db_contexts :: "ContextPackage table"
  db_quality :: "QualityRecord table"
  db_appeals :: "QualityAppeal table"
  db_signals :: "string fset"
  db_reputations :: "(string \<times> string, ReputationRecord) fmap"
  db_meters :: "MeterRecord table"
  db_event_seq :: int
  db_fencing_seq :: int

text \<open>The migrated, empty database.\<close>

definition pg_empty :: Db where
  "pg_empty = \<lparr>db_missions = fmempty, db_budgets = fmempty, db_subtasks = fmempty, db_agents = fmempty, db_leases = fmempty,
     db_events = [], db_idem = fmempty, db_decisions = fmempty, db_board = fmempty, db_artifacts = fmempty, db_inbox = fmempty,
     db_holds = fmempty, db_contexts = fmempty, db_quality = fmempty, db_appeals = fmempty, db_signals = {||},
     db_reputations = fmempty, db_meters = fmempty, db_event_seq = 0, db_fencing_seq = 0\<rparr>"

type_synonym 'a sql = "(error, 'a, Db) outcome"
type_synonym 'a sql2 = "(error \<times> 'a, 'a, Db) outcome"

section \<open>Transactions\<close>

text \<open>A rollback restores the tables; sequences do not roll back.\<close>

definition rollback :: "Db \<Rightarrow> Db \<Rightarrow> Db" where
  "rollback db db' = db\<lparr>db_event_seq := db_event_seq db', db_fencing_seq := db_fencing_seq db'\<rparr>"

text \<open>
  \<open>Begin\<close>, the statements, \<open>Commit\<close>; \<open>defer tx.Rollback\<close> ends the transaction of every return before the commit. The rows a
  method decides on are locked (\<open>FOR UPDATE\<close>), so its statements are taken as one step here; what interleaving
  transactions can do to the event log is the subject of \<open>PgStream\<close>.
\<close>

definition tx :: "(Db \<Rightarrow> ('e, 'a, Db) outcome) \<Rightarrow> Db \<Rightarrow> ('e, 'a, Db) outcome" where
  "tx body db = (case body db of (Inr v, db') \<Rightarrow> (Inr v, db') | (Inl e, db') \<Rightarrow> (Inl e, rollback db db'))"

definition sql_error :: error where
  \<comment> \<open>an error of the driver or the server that the store passes on\<close>
  "sql_error = ErrPlain ''pg''"

text \<open>An error of one statement replaced by an error of the store.\<close>

definition on_error :: "(error \<Rightarrow> error) \<Rightarrow> 'a sql \<Rightarrow> 'a sql" where
  "on_error f r = (case r of (Inl e, db) \<Rightarrow> (Inl (f e), db) | ok \<Rightarrow> ok)"

text \<open>\<open>TIMESTAMPTZ\<close> holds microseconds.\<close>

definition pg_time :: "time \<Rightarrow> time" where
  "pg_time t = t div 1000 * 1000"

text \<open>A foreign key whose column is \<open>NULL\<close> (the empty string here) is satisfied.\<close>

definition refers :: "'v table \<Rightarrow> string \<Rightarrow> bool" where
  "refers t k \<longleftrightarrow> fmlookup t k \<noteq> None"

definition refers_null :: "'v table \<Rightarrow> string \<Rightarrow> bool" where
  "refers_null t k \<longleftrightarrow> k = '''' \<or> refers t k"

text \<open>An inner query with one row, or \<open>ErrNoRows\<close> as the given error.\<close>

definition one_row :: "'v option \<Rightarrow> 'e \<Rightarrow> ('v \<Rightarrow> Db \<Rightarrow> ('e, 'a, Db) outcome) \<Rightarrow> Db \<Rightarrow> ('e, 'a, Db) outcome" where
  "one_row r e k db = (case r of None \<Rightarrow> (Inl e, db) | Some v \<Rightarrow> k v db)"

section \<open>Events\<close>

definition pg_appendEvent :: "string \<Rightarrow> string \<Rightarrow> string \<Rightarrow> payload \<Rightarrow> Actor \<Rightarrow> time \<Rightarrow> Db \<Rightarrow> Db" where
  "pg_appendEvent aggregateID missionID typ payload actor now db =
     db\<lparr>db_event_seq := db_event_seq db + 1,
        db_events := db_events db @
          [\<lparr>e_Seq = db_event_seq db + 1, e_AggregateID = aggregateID, e_MissionID = missionID, e_Type = typ,
            e_Payload = fmmap json_value payload, e_Actor = actor, e_Ts = pg_time now\<rparr>]\<rparr>"

definition pg_AppendEvent :: "Event \<Rightarrow> Db \<Rightarrow> unit sql" where
  "pg_AppendEvent e = tx (\<lambda>db. (Inr (), pg_appendEvent (e_AggregateID e) (e_MissionID e) (e_Type e) (e_Payload e)
     (e_Actor e) (e_Ts e) db))"

definition pg_ListMissionEvents :: "string \<Rightarrow> int \<Rightarrow> int \<Rightarrow> Db \<Rightarrow> Event list" where
  "pg_ListMissionEvents missionID afterSeq limit db =
     take (nat limit) (sort_key e_Seq (filter (\<lambda>e. e_MissionID e = missionID \<and> e_Seq e > afterSeq) (db_events db)))"

definition pg_MaxEventSeq :: "Db \<Rightarrow> int" where
  "pg_MaxEventSeq db = fold max (map e_Seq (db_events db)) 0"

section \<open>Subtask rows\<close>

text \<open>
  \<open>marshalSpec\<close>, \<open>scheduling\<close> and \<open>retry\<close> are JSON columns: the row holds what \<open>scanSubtask\<close> makes of them. \<open>NULLIF\<close> and the
  nil checks of \<open>scanSubtask\<close> map the empty string to \<open>NULL\<close> and back.
\<close>

definition json_payload :: "payload \<Rightarrow> payload" where
  "json_payload p = fmmap json_value p"

text \<open>A checkpoint column: no bytes are \<open>NULL\<close>, other text has to be JSON.\<close>

definition checkpoint_column :: "jsonb \<Rightarrow> string \<Rightarrow> string option" where
  "checkpoint_column jb t = (if t = '''' then Some '''' else jb t)"

definition updated_row :: "Subtask \<Rightarrow> Subtask \<Rightarrow> string \<Rightarrow> Subtask" where
  "updated_row row sub ckpt =
     row\<lparr>st_State := st_State sub, st_Assignee := st_Assignee sub, st_LeaseID := st_LeaseID sub, st_Attempt := st_Attempt sub,
        st_ResultRef := st_ResultRef sub, st_RequiredSkills := st_RequiredSkills sub, st_Question := st_Question sub,
        st_Options := st_Options sub, st_OnTimeout := st_OnTimeout sub, st_Input := json_payload (st_Input sub),
        st_ReworkOf := st_ReworkOf sub, st_Grants := st_Grants sub, st_Scheduling := st_Scheduling sub, st_Retry := st_Retry sub,
        st_Checkpoint := ckpt, st_WakeKind := st_WakeKind sub, st_WakeAt := map_option pg_time (st_WakeAt sub),
        st_WakeDeadline := map_option pg_time (st_WakeDeadline sub), st_WakeSpec := st_WakeSpec sub,
        st_Version := st_Version row + 1\<rparr>"

definition updateSubtask :: "jsonb \<Rightarrow> Subtask \<Rightarrow> int \<Rightarrow> Db \<Rightarrow> unit sql" where
  "updateSubtask jb sub expectedVersion db =
     (case checkpoint_column jb (st_Checkpoint sub) of
        None \<Rightarrow> (Inl sql_error, db)
      | Some ckpt \<Rightarrow>
         (case fmlookup (db_subtasks db) (st_ID sub) of
            None \<Rightarrow> (Inl ErrConflict, db)
          | Some row \<Rightarrow>
              if st_Version row \<noteq> expectedVersion then (Inl ErrConflict, db)
              else (Inr (), db\<lparr>db_subtasks := fmupd (st_ID sub) (updated_row row sub ckpt) (db_subtasks db)\<rparr>)))"

text \<open>The columns an insertion fills in; the others start as \<open>NULL\<close> or their default.\<close>

definition inserted_row :: "Subtask \<Rightarrow> string \<Rightarrow> string list \<Rightarrow> int \<Rightarrow> int \<Rightarrow> Subtask" where
  "inserted_row sub parent deps attempt version =
     sub\<lparr>st_ParentID := parent, st_DependsOn := deps, st_Attempt := attempt, st_Version := version, st_Assignee := '''',
       st_LeaseID := '''', st_ResultRef := '''', st_Input := json_payload (st_Input sub), st_Checkpoint := '''', st_WakeKind := '''',
       st_WakeAt := None, st_WakeDeadline := None, st_WakeSpec := None\<rparr>"

definition insert_subtask :: "Subtask \<Rightarrow> Db \<Rightarrow> unit sql" where
  "insert_subtask row db =
     (if refers (db_subtasks db) (st_ID row) \<or> \<not> refers (db_missions db) (st_MissionID row)
         \<or> \<not> refers_null (fmupd (st_ID row) row (db_subtasks db)) (st_ParentID row)
      then (Inl sql_error, db)
      else (Inr (), db\<lparr>db_subtasks := fmupd (st_ID row) row (db_subtasks db)\<rparr>))"

section \<open>Fencing\<close>

definition loadActiveLease :: "Subtask \<Rightarrow> int \<Rightarrow> Db \<Rightarrow> error option" where
  "loadActiveLease sub fencingToken db =
     (if st_LeaseID sub = '''' then Some ErrFenced
      else case fmlookup (db_leases db) (st_LeaseID sub) of
          None \<Rightarrow> Some ErrFenced
        | Some l \<Rightarrow> if l_State l \<noteq> LeaseActive \<or> l_FencingToken l \<noteq> fencingToken then Some ErrFenced else None)"

text \<open>The expiry is compared in the client, against a time of nanoseconds.\<close>

definition loadOwnedActiveLease :: "Subtask \<Rightarrow> int \<Rightarrow> string \<Rightarrow> time \<Rightarrow> Db \<Rightarrow> error option" where
  "loadOwnedActiveLease sub fencingToken agentID now db =
     (if st_LeaseID sub = '''' then Some ErrFenced
      else case fmlookup (db_leases db) (st_LeaseID sub) of
          None \<Rightarrow> Some ErrFenced
        | Some l \<Rightarrow>
            if l_State l \<noteq> LeaseActive \<or> l_FencingToken l \<noteq> fencingToken \<or> l_AgentID l \<noteq> agentID \<or> \<not> time_after (l_ExpiresAt l) now
            then Some ErrFenced else None)"

definition releaseLease :: "string \<Rightarrow> Db \<Rightarrow> Db" where
  "releaseLease lid db =
     (case fmlookup (db_leases db) lid of
        None \<Rightarrow> db
      | Some l \<Rightarrow> db\<lparr>db_leases := fmupd lid (l\<lparr>l_State := LeaseReleased\<rparr>) (db_leases db)\<rparr>)"

section \<open>Meters\<close>

text \<open>\<open>ON CONFLICT (id) DO NOTHING\<close>: the number of inserted rows. Checks come before the conflict, foreign keys after it.\<close>

definition insert_meter :: "MeterRecord \<Rightarrow> time \<Rightarrow> Db \<Rightarrow> nat sql" where
  "insert_meter m now db =
     (let m = PriceMeter m in
      if mt_Quantity m < 0 \<or> mt_UnitPrice m < 0 \<or> mt_Credits m < 0 \<or> (mt_Trust m \<noteq> MeterAuthoritative \<and> mt_Trust m \<noteq> MeterSelfReported)
      then (Inl sql_error, db)
      else if refers (db_meters db) (mt_ID m) then (Inr 0, db)
      else if \<not> refers (db_missions db) (mt_MissionID m) \<or> \<not> refers_null (db_subtasks db) (mt_SubtaskID m)
              \<or> \<not> refers_null (db_agents db) (mt_AgentID m)
      then (Inl sql_error, db)
      else (Inr 1, db\<lparr>db_meters := fmupd (mt_ID m)
             (m\<lparr>mt_Metadata := json_payload (mt_Metadata m), mt_RecordedAt := pg_time now\<rparr>) (db_meters db)\<rparr>))"

definition putMeterTx :: "MeterRecord \<Rightarrow> time \<Rightarrow> Db \<Rightarrow> unit sql" where
  "putMeterTx m now db = and_then (insert_meter m now db) (\<lambda>_ db. (Inr (), db))"

definition pg_PutMeterRecord :: "MeterRecord \<Rightarrow> time \<Rightarrow> Db \<Rightarrow> unit sql" where
  "pg_PutMeterRecord m now = tx (\<lambda>db. and_then (insert_meter m now db) (\<lambda>n db.
     if n = 0 then (Inl ErrDuplicate, db) else (Inr (), db)))"

definition recordLeaseMeter :: "Subtask \<Rightarrow> string \<Rightarrow> time \<Rightarrow> Db \<Rightarrow> unit sql" where
  "recordLeaseMeter sub agentID now db =
     one_row (fmlookup (db_leases db) (st_LeaseID sub)) sql_error (\<lambda>l db.
       let quantity = float_of_int (milliseconds (time_sub now (l_CreatedAt l)));
           quantity = (if quantity < 0 then 0 else quantity)
       in putMeterTx (zero_meter\<lparr>mt_ID := ''meter:lease:'' @ st_LeaseID sub, mt_MissionID := st_MissionID sub,
            mt_SubtaskID := st_ID sub, mt_AgentID := agentID, mt_Resource := ''lease.wall_ms'', mt_Quantity := quantity,
            mt_Trust := MeterAuthoritative\<rparr>) now db) db"

definition pg_ListMeterRecords :: "string \<Rightarrow> Db \<Rightarrow> error + MeterRecord list" where
  "pg_ListMeterRecords missionID db =
     (if \<not> refers (db_missions db) missionID then Inl ErrNotFound
      else Inr (sort_slice (created_less mt_RecordedAt mt_ID)
        (filter (\<lambda>m. mt_MissionID m = missionID) (map_values sorted_list_of_fset (db_meters db)))))"

end
