(* ===== verification/PgTasks.thy ===== *)
theory PgTasks
  imports PgState
begin

text \<open>
  Missions, subtasks, the generic transition, the ready queue, the agent registry, idempotency keys and reputation in
  \<open>internal/store/pg/pg.go\<close>. Text is ordered by bytes, as in the C collation.
\<close>

section \<open>Missions\<close>

definition insert_mission :: "Mission \<Rightarrow> Db \<Rightarrow> unit sql" where
  "insert_mission m db =
     (if refers (db_missions db) (m_ID m) then (Inl ErrConflict, db)
      else (Inr (), db\<lparr>db_missions := fmupd (m_ID m) (m\<lparr>m_BudgetTokens := 0, m_Version := 0\<rparr>) (db_missions db)\<rparr>))"

definition insert_budget :: "Mission \<Rightarrow> time \<Rightarrow> Db \<Rightarrow> unit sql" where
  "insert_budget m now db =
     (if refers (db_budgets db) (m_ID m) then (Inl sql_error, db)
      else (Inr (), db\<lparr>db_budgets := fmupd (m_ID m) \<lparr>ba_MissionID = m_ID m, ba_Metered = True, ba_Total = m_BudgetTokens m,
        ba_Held = 0, ba_Spent = 0, ba_Available = 0, ba_Version = 0, ba_UpdatedAt = pg_time now\<rparr> (db_budgets db)\<rparr>))"

definition pg_created_subtask :: "Actor \<Rightarrow> time \<Rightarrow> Subtask \<Rightarrow> Db \<Rightarrow> unit sql" where
  "pg_created_subtask actor now sub db =
     and_then (insert_subtask (inserted_row sub (st_ParentID sub) (st_DependsOn sub) (st_Attempt sub) 0) db) (\<lambda>_ db.
       (Inr (), pg_appendEvent (st_ID sub) (st_MissionID sub) (event_string EvCreated)
         (fmap_of_list [(''kind'', VStr (st_Kind sub))]) actor now db))"

definition pg_CreateMission :: "Mission \<Rightarrow> Subtask list \<Rightarrow> Actor \<Rightarrow> time \<Rightarrow> Db \<Rightarrow> unit sql" where
  "pg_CreateMission m subs actor now = tx (\<lambda>db.
     and_then (insert_mission m db) (\<lambda>_ db.
     and_then (if m_BudgetTokens m > 0 then insert_budget m now db else (Inr (), db)) (\<lambda>_ db.
       let db = pg_appendEvent (m_ID m) (m_ID m) ''mission.created''
         (fmap_of_list [(''goal'', VStr (m_Goal m)), (''owner'', VStr (m_Owner m)), (''budget_tokens'', VInt64 (m_BudgetTokens m))])
         actor now db
       in for_each (pg_created_subtask actor now) subs db)))"

text \<open>The budget columns come from a \<open>LEFT JOIN\<close>.\<close>

definition pg_GetMission :: "string \<Rightarrow> Db \<Rightarrow> error + Mission" where
  "pg_GetMission ident db =
     (case fmlookup (db_missions db) ident of
        None \<Rightarrow> Inl ErrNotFound
      | Some m \<Rightarrow> Inr (m\<lparr>m_BudgetTokens := (case fmlookup (db_budgets db) ident of None \<Rightarrow> 0 | Some b \<Rightarrow> ba_Total b)\<rparr>))"

definition pg_available :: "BudgetAccount \<Rightarrow> int" where
  "pg_available b = wrap64 (wrap64 (ba_Total b - ba_Held b) - ba_Spent b)"

definition pg_GetMissionBudget :: "string \<Rightarrow> Db \<Rightarrow> error + BudgetAccount" where
  "pg_GetMissionBudget missionID db =
     (case fmlookup (db_missions db) missionID of
        None \<Rightarrow> Inl ErrNotFound
      | Some _ \<Rightarrow>
         (case fmlookup (db_budgets db) missionID of
            None \<Rightarrow> Inr (zero_account missionID)
          | Some b \<Rightarrow> Inr (b\<lparr>ba_Metered := True, ba_Available := pg_available b\<rparr>)))"

definition pg_ListBudgetHolds :: "string \<Rightarrow> Db \<Rightarrow> error + BudgetHold list" where
  "pg_ListBudgetHolds missionID db =
     (case pg_GetMissionBudget missionID db of
        Inl e \<Rightarrow> Inl e
      | Inr _ \<Rightarrow> Inr (sort_slice (created_less h_CreatedAt h_ID)
          (filter (\<lambda>h. h_MissionID h = missionID) (map_values sorted_list_of_fset (db_holds db)))))"

definition pg_SetMissionStatus :: "string \<Rightarrow> MissionStatus \<Rightarrow> int \<Rightarrow> Actor \<Rightarrow> time \<Rightarrow> Db \<Rightarrow> unit sql" where
  "pg_SetMissionStatus ident st expectedVersion actor now = tx (\<lambda>db.
     case fmlookup (db_missions db) ident of
       None \<Rightarrow> (Inl ErrConflict, db)
     | Some m \<Rightarrow>
         if m_Version m \<noteq> expectedVersion then (Inl ErrConflict, db)
         else (Inr (), pg_appendEvent ident ident ''mission.state_changed''
           (fmap_of_list [(''status'', VStr (mission_status_string st))]) actor now
           (db\<lparr>db_missions := fmupd ident (m\<lparr>m_Status := st, m_Version := m_Version m + 1\<rparr>) (db_missions db)\<rparr>)))"

section \<open>Subtasks\<close>

definition rows_by_id :: "(Subtask \<Rightarrow> bool) \<Rightarrow> Db \<Rightarrow> Subtask list" where
  "rows_by_id P db = sort_slice by_id (filter P (map_values sorted_list_of_fset (db_subtasks db)))"

definition pg_GetSubtask :: "string \<Rightarrow> Db \<Rightarrow> error + Subtask" where
  "pg_GetSubtask ident db = (case fmlookup (db_subtasks db) ident of None \<Rightarrow> Inl ErrNotFound | Some sub \<Rightarrow> Inr sub)"

definition pg_ListSubtasks :: "string \<Rightarrow> Db \<Rightarrow> Subtask list" where
  "pg_ListSubtasks missionID db = rows_by_id (\<lambda>sub. st_MissionID sub = missionID) db"

definition pg_ListSubtasksByState :: "State \<Rightarrow> Db \<Rightarrow> Subtask list" where
  "pg_ListSubtasksByState st db = rows_by_id (\<lambda>sub. st_State sub = st) db"

definition pg_CountChildren :: "string \<Rightarrow> Db \<Rightarrow> int" where
  "pg_CountChildren parentID db =
     (if parentID = '''' then 0
      else int (length (filter (\<lambda>sub. st_ParentID sub = parentID) (map_values sorted_list_of_fset (db_subtasks db)))))"

text \<open>
  The statements \<open>TransitionSubtask\<close> and \<open>fencedTransition\<close> share once the row is locked and its version checked. The
  version of the result is the caller's copy, bumped.
\<close>

definition apply_transition ::
  "jsonb \<Rightarrow> Subtask \<Rightarrow> EventType \<Rightarrow> int \<Rightarrow> Actor \<Rightarrow> payload option \<Rightarrow> time
     \<Rightarrow> (Subtask \<Rightarrow> error option \<times> Subtask) option \<Rightarrow> Db \<Rightarrow> Subtask sql" where
  "apply_transition jb sub ev expectedVersion actor payload now mutate db =
     (case Apply (st_State sub) ev of
        Inl _ \<Rightarrow> (Inl ErrConflict, db)
      | Inr nxt \<Rightarrow>
          let sub = sub\<lparr>st_State := nxt\<rparr>;
              (err, sub) = (case mutate of None \<Rightarrow> (None, sub) | Some f \<Rightarrow> f sub)
          in case err of
               Some e \<Rightarrow> (Inl e, db)
             | None \<Rightarrow>
                 and_then (updateSubtask jb sub expectedVersion db) (\<lambda>_ db.
                   let payload = fmupd ''state'' (VStr (state_string nxt)) (case payload of None \<Rightarrow> fmempty | Some p \<Rightarrow> p)
                   in (Inr (sub\<lparr>st_Version := st_Version sub + 1\<rparr>),
                       pg_appendEvent (st_ID sub) (st_MissionID sub) (event_string ev) payload actor now db)))"

definition pg_TransitionSubtask ::
  "jsonb \<Rightarrow> string \<Rightarrow> EventType \<Rightarrow> int \<Rightarrow> Actor \<Rightarrow> payload option \<Rightarrow> time
     \<Rightarrow> (Subtask \<Rightarrow> error option \<times> Subtask) option \<Rightarrow> Db \<Rightarrow> Subtask sql" where
  "pg_TransitionSubtask jb ident ev expectedVersion actor payload now mutate = tx (\<lambda>db.
     one_row (fmlookup (db_subtasks db) ident) ErrNotFound (\<lambda>sub db.
       if st_Version sub \<noteq> expectedVersion then (Inl ErrConflict, db)
       else apply_transition jb sub ev expectedVersion actor payload now mutate db) db)"

text \<open>\<open>ORDER BY priority DESC, deadline ASC NULLS LAST, id LIMIT\<close>: the order of the in-memory queue.\<close>

definition pg_DequeueReady :: "int \<Rightarrow> Db \<Rightarrow> Subtask list" where
  "pg_DequeueReady limit db =
     take (nat limit) (sort_slice ready_less (filter (\<lambda>sub. st_State sub = StateReady) (map_values sorted_list_of_fset (db_subtasks db))))"

section \<open>Agents\<close>

text \<open>\<open>agentCols\<close> counts the ACTIVE leases of the agent; the row does not hold the load.\<close>

definition running_leases :: "string \<Rightarrow> Db \<Rightarrow> int" where
  "running_leases ident db =
     int (length (filter (\<lambda>l. l_AgentID l = ident \<and> l_State l = LeaseActive) (map_values sorted_list_of_fset (db_leases db))))"

definition scanAgent :: "Agent \<Rightarrow> Db \<Rightarrow> Agent" where
  "scanAgent row db = row\<lparr>a_Running := running_leases (a_ID row) db\<rparr>"

text \<open>
  The insertion, or the update of the row with the same id; a subject another agent has violates the unique index.
  The columns \<open>capabilities\<close>, \<open>endpoint\<close> and \<open>trigger_scopes\<close> hold the argument's; the reputation column is never written.
\<close>

definition agent_row :: "Agent \<Rightarrow> time \<Rightarrow> Agent" where
  "agent_row a now = a\<lparr>a_Health := (if a_Health a = '''' then ''healthy'' else a_Health a), a_LastHeartbeat := now, a_Running := 0,
     a_Reputation := fmempty\<rparr>"

definition pg_UpsertAgent :: "Agent \<Rightarrow> time \<Rightarrow> Db \<Rightarrow> unit sql" where
  "pg_UpsertAgent a now db =
     (if a_AuthSubject a \<noteq> '''' \<and> any_value (\<lambda>b. a_AuthSubject b = a_AuthSubject a \<and> a_ID b \<noteq> a_ID a) (db_agents db)
      then (Inl ErrConflict, db)
      else (Inr (), db\<lparr>db_agents := fmupd (a_ID a) (agent_row a now) (db_agents db)\<rparr>))"

definition pg_GetAgent :: "string \<Rightarrow> Db \<Rightarrow> error + Agent" where
  "pg_GetAgent ident db =
     (case fmlookup (db_agents db) ident of None \<Rightarrow> Inl ErrNotFound | Some a \<Rightarrow> Inr (scanAgent a db))"

definition pg_ListAgents :: "Db \<Rightarrow> Agent list" where
  "pg_ListAgents db = sort_slice (\<lambda>a b. a_ID a < a_ID b) (map (\<lambda>a. scanAgent a db) (map_values sorted_list_of_fset (db_agents db)))"

text \<open>The heartbeat written by the server has microseconds; the one of \<open>UpsertAgent\<close> is text in nanoseconds.\<close>

definition heartbeat_row :: "Agent \<Rightarrow> time \<Rightarrow> Agent" where
  "heartbeat_row a now = a\<lparr>a_LastHeartbeat := pg_time now,
     a_Health := (if a_Health a = ''suspect'' then ''healthy'' else a_Health a)\<rparr>"

definition pg_HeartbeatAgent :: "string \<Rightarrow> time \<Rightarrow> Db \<Rightarrow> unit sql" where
  "pg_HeartbeatAgent ident now db =
     (case fmlookup (db_agents db) ident of
        None \<Rightarrow> (Inl ErrNotFound, db)
      | Some a \<Rightarrow> (Inr (), db\<lparr>db_agents := fmupd ident (heartbeat_row a now) (db_agents db)\<rparr>))"

definition pg_MarkAgentHealth :: "string \<Rightarrow> string \<Rightarrow> Db \<Rightarrow> unit sql" where
  "pg_MarkAgentHealth ident health db =
     (case fmlookup (db_agents db) ident of
        None \<Rightarrow> (Inl ErrNotFound, db)
      | Some a \<Rightarrow> (Inr (), db\<lparr>db_agents := fmupd ident (a\<lparr>a_Health := health\<rparr>) (db_agents db)\<rparr>))"

section \<open>Reputation\<close>

definition pg_ListReputations :: "string \<Rightarrow> Db \<Rightarrow> error + ReputationRecord list" where
  "pg_ListReputations agentID db =
     (if \<not> refers (db_agents db) agentID then Inl ErrNotFound
      else Inr (map RefreshScores (List.map_filter (fmlookup (db_reputations db))
        (filter (\<lambda>k. fst k = agentID) (sorted_list_of_fset (fmdom (db_reputations db)))))))"

text \<open>The three scores are not columns: \<open>scanReputation\<close> computes them. The time is written in microseconds.\<close>

definition reputation_row :: "ReputationRecord \<Rightarrow> ReputationRecord" where
  "reputation_row r = r\<lparr>r_UpdatedAt := pg_time (r_UpdatedAt r)\<rparr>"

definition applyReputationSignalTx :: "ReputationSignal \<Rightarrow> time \<Rightarrow> Db \<Rightarrow> unit sql" where
  "applyReputationSignalTx sig now db =
     (if sig_ID sig |\<in>| db_signals db then (Inl ErrDuplicate, db)
      else if \<not> refers (db_agents db) (sig_AgentID sig) then (Inl sql_error, db)
      else
        let k = (sig_AgentID sig, sig_Skill sig);
            r = (case fmlookup (db_reputations db) k of
                   None \<Rightarrow> NewReputation (sig_AgentID sig) (sig_Skill sig) | Some r \<Rightarrow> RefreshScores r)
        in (Inr (), db\<lparr>db_signals := finsert (sig_ID sig) (db_signals db),
              db_reputations := fmupd k (reputation_row (ApplyReputationSignal r sig now)) (db_reputations db)\<rparr>))"

definition pg_ApplyReputationSignal :: "ReputationSignal \<Rightarrow> time \<Rightarrow> Db \<Rightarrow> unit sql" where
  "pg_ApplyReputationSignal sig now = tx (applyReputationSignalTx sig now)"

section \<open>Idempotency keys\<close>

definition pg_PutIdempotent :: "string \<Rightarrow> string \<Rightarrow> Db \<Rightarrow> string sql2" where
  "pg_PutIdempotent key result db =
     (case fmlookup (db_idem db) key of
        Some existing \<Rightarrow> (Inl (ErrDuplicate, existing), db)
      | None \<Rightarrow> (Inr '''', db\<lparr>db_idem := fmupd key result (db_idem db)\<rparr>))"

end
