(* ===== verification/PgLeases.thy ===== *)
theory PgLeases
  imports PgTasks
begin

text \<open>
  Offers with their context packages, the fenced transitions and the expiry sweep of \<open>internal/store/pg/pg.go\<close>.
\<close>

section \<open>Context packages\<close>

text \<open>
  SQL conditions have three values; \<open>WHERE\<close> keeps the rows for which the condition is true. A nil slice is sent as \<open>NULL\<close>,
  and an empty key list comes back from its JSON column as a nil slice (\<open>omitempty\<close>).
\<close>

definition or3 :: "bool option \<Rightarrow> bool option \<Rightarrow> bool option" where
  "or3 a b = (if a = Some True \<or> b = Some True then Some True else if a = None \<or> b = None then None else Some False)"

definition sql_array :: "string list \<Rightarrow> string list option" where
  "sql_array xs = (if xs = [] then None else Some xs)"

definition key_granted :: "string \<Rightarrow> string list option \<Rightarrow> bool option" where
  "key_granted key keys = or3 (map_option (\<lambda>ks. ks = []) keys) (map_option (\<lambda>ks. key \<in> set ks) keys)"

definition pg_view_entry :: "BoardGrant \<Rightarrow> BoardEntry \<Rightarrow> ContextBoardEntry table \<Rightarrow> ContextBoardEntry table" where
  "pg_view_entry grant e views =
     (let view = \<lparr>cb_Namespace = b_Namespace e, cb_Key = b_Key e, cb_Value = b_Value e, cb_Version = b_Version e, cb_Mode = g_Mode grant\<rparr>;
          key = b_Namespace e @ NUL @ b_Key e
      in case fmlookup views key of
           None \<Rightarrow> fmupd key view views
         | Some current \<Rightarrow>
             if cb_Mode current = BoardModeReadOnly \<and> g_Mode grant = BoardModeReadWrite then fmupd key view views else views)"

definition board_rows :: "Db \<Rightarrow> BoardEntry list" where
  "board_rows db = List.map_filter (fmlookup (db_board db)) (sorted_list_of_fset (fmdom (db_board db)))"

definition granted_rows :: "string \<Rightarrow> BoardGrant \<Rightarrow> Db \<Rightarrow> BoardEntry list" where
  "granted_rows missionID grant db =
     filter (\<lambda>e. b_MissionID e = missionID \<and> b_Namespace e = g_Namespace grant
       \<and> key_granted (b_Key e) (sql_array (g_Keys grant)) = Some True) (board_rows db)"

definition pg_board_views :: "Subtask \<Rightarrow> Db \<Rightarrow> ContextBoardEntry table" where
  "pg_board_views sub db =
     fold (\<lambda>grant. fold (pg_view_entry grant) (granted_rows (st_MissionID sub) grant db)) (BoardViews (st_Grants sub)) fmempty"

definition buildContextPackageTx :: "digest \<Rightarrow> string \<Rightarrow> Subtask \<Rightarrow> time \<Rightarrow> Db \<Rightarrow> error + ContextPackage" where
  "buildContextPackageTx dg lid sub now db =
     (let arts = filter (\<lambda>a. art_ID a \<in> set (ArtifactRefs (st_Grants sub)) \<and> art_MissionID a = st_MissionID sub)
            (map_values sorted_list_of_fset (db_artifacts db));
          board = map_values sorted_list_of_fset (pg_board_views sub db);
          decs = filter (\<lambda>d. d_SubtaskID d = st_ID sub) (map_values sorted_list_of_fset (db_decisions db));
          budget = map_option (\<lambda>b. b\<lparr>ba_Metered := True, ba_Available := pg_available b\<rparr>) (fmlookup (db_budgets db) (st_MissionID sub))
      in BuildContextPackage dg lid sub (map Some arts) board (map Some decs) budget now)"

section \<open>Offers\<close>

definition pg_lease_id :: "int \<Rightarrow> string" where
  "pg_lease_id fence = ''les_'' @ replicate (12 - length (itoa fence)) (CHR ''0'') @ itoa fence"

text \<open>Primary key, foreign keys, and the unique index of one ACTIVE lease per subtask.\<close>

definition insert_lease :: "Lease \<Rightarrow> Db \<Rightarrow> unit sql" where
  "insert_lease l db =
     (if refers (db_leases db) (l_ID l) \<or> \<not> refers (db_subtasks db) (l_SubtaskID l) \<or> \<not> refers (db_agents db) (l_AgentID l)
         \<or> any_value (\<lambda>k. l_SubtaskID k = l_SubtaskID l \<and> l_State k = LeaseActive) (db_leases db)
      then (Inl sql_error, db)
      else (Inr (), db\<lparr>db_leases := fmupd (l_ID l) (l\<lparr>l_ExpiresAt := pg_time (l_ExpiresAt l), l_CreatedAt := pg_time (l_CreatedAt l)\<rparr>)
             (db_leases db)\<rparr>))"

definition insert_context :: "ContextPackage \<Rightarrow> string \<Rightarrow> Db \<Rightarrow> unit sql" where
  "insert_context pkg lid db =
     (if refers (db_contexts db) lid then (Inl sql_error, db)
      else (Inr (), db\<lparr>db_contexts := fmupd lid pkg (db_contexts db)\<rparr>))"

definition pg_OfferLease ::
  "jsonb \<Rightarrow> digest \<Rightarrow> string \<Rightarrow> string \<Rightarrow> int \<Rightarrow> duration \<Rightarrow> Actor \<Rightarrow> time \<Rightarrow> Db \<Rightarrow> Lease sql" where
  "pg_OfferLease jb dg subtaskID agentID expectedVersion ttl actor now = tx (\<lambda>db.
     one_row (fmlookup (db_subtasks db) subtaskID) ErrNotFound (\<lambda>sub db.
       if st_Version sub \<noteq> expectedVersion then (Inl ErrConflict, db)
       else case Apply (st_State sub) EvLeaseOffered of
           Inl _ \<Rightarrow> (Inl ErrConflict, db)
         | Inr _ \<Rightarrow>
             let fence = db_fencing_seq db + 1;
                 db = db\<lparr>db_fencing_seq := fence\<rparr>;
                 lease = \<lparr>l_ID = pg_lease_id fence, l_SubtaskID = subtaskID, l_AgentID = agentID, l_FencingToken = fence,
                   l_ExpiresAt = time_add now ttl, l_State = LeaseActive, l_CreatedAt = now\<rparr>
             in and_then (on_error (\<lambda>_. ErrConflict) (insert_lease lease db)) (\<lambda>_ db.
                let sub = sub\<lparr>st_State := StateOffered, st_Assignee := agentID, st_LeaseID := l_ID lease\<rparr>
                in and_then (updateSubtask jb sub expectedVersion db) (\<lambda>_ db.
                   case buildContextPackageTx dg (l_ID lease) sub now db of
                     Inl e \<Rightarrow> (Inl e, db)
                   | Inr pkg \<Rightarrow>
                       and_then (insert_context pkg (l_ID lease) db) (\<lambda>_ db.
                         let db = pg_appendEvent subtaskID (st_MissionID sub) (event_string EvLeaseOffered)
                               (fmap_of_list [(''state'', VStr (state_string StateOffered)), (''agent_id'', VStr agentID),
                                 (''lease_id'', VStr (l_ID lease)), (''fencing_token'', VInt64 fence)]) actor now db;
                             db = pg_appendEvent subtaskID (st_MissionID sub) ''context.materialized''
                               (fmap_of_list [(''context_package_id'', VStr (cp_ID pkg)), (''lease_id'', VStr (l_ID lease)),
                                 (''snapshot_hash'', VStr (cp_SnapshotHash pkg))]) (system_actor ''context-builder'') now db
                         in (Inr lease, db))))) db)"

section \<open>Fenced transitions\<close>

definition fencedTransition ::
  "jsonb \<Rightarrow> string \<Rightarrow> int \<Rightarrow> int \<Rightarrow> EventType \<Rightarrow> payload option \<Rightarrow> Actor \<Rightarrow> time
     \<Rightarrow> (Subtask \<Rightarrow> error option \<times> Subtask) option \<Rightarrow> Db \<Rightarrow> Subtask sql" where
  "fencedTransition jb ident fencingToken expectedVersion ev payload actor now mutate = tx (\<lambda>db.
     one_row (fmlookup (db_subtasks db) ident) ErrNotFound (\<lambda>sub db.
       if st_Version sub \<noteq> expectedVersion then (Inl ErrConflict, db)
       else case loadActiveLease sub fencingToken db of
           Some e \<Rightarrow> (Inl e, db)
         | None \<Rightarrow> apply_transition jb sub ev expectedVersion actor payload now mutate db) db)"

text \<open>The lease only leads to its subtask; the fencing check is on the lease the subtask has now.\<close>

definition pg_AcceptLease :: "jsonb \<Rightarrow> string \<Rightarrow> int \<Rightarrow> int \<Rightarrow> Actor \<Rightarrow> time \<Rightarrow> Db \<Rightarrow> Subtask sql" where
  "pg_AcceptLease jb lid fencingToken expectedSubVersion actor now db =
     (case fmlookup (db_leases db) lid of
        None \<Rightarrow> (Inl ErrNotFound, db)
      | Some l \<Rightarrow> fencedTransition jb (l_SubtaskID l) fencingToken expectedSubVersion EvLeaseAccepted
          (Some (fmap_of_list [(''lease_id'', VStr lid)])) actor now None db)"

definition pg_StartSubtask :: "jsonb \<Rightarrow> string \<Rightarrow> int \<Rightarrow> int \<Rightarrow> Actor \<Rightarrow> time \<Rightarrow> Db \<Rightarrow> Subtask sql" where
  "pg_StartSubtask jb ident fencingToken expectedVersion actor now =
     fencedTransition jb ident fencingToken expectedVersion EvStarted (Some fmempty) actor now None"

definition pg_BlockSubtask :: "jsonb \<Rightarrow> string \<Rightarrow> int \<Rightarrow> int \<Rightarrow> Actor \<Rightarrow> time \<Rightarrow> Db \<Rightarrow> Subtask sql" where
  "pg_BlockSubtask jb ident fencingToken expectedVersion actor now =
     fencedTransition jb ident fencingToken expectedVersion EvBlocked (Some fmempty) actor now None"

definition pg_GetLease :: "string \<Rightarrow> Db \<Rightarrow> error + Lease" where
  "pg_GetLease ident db = (case fmlookup (db_leases db) ident of None \<Rightarrow> Inl ErrNotFound | Some l \<Rightarrow> Inr l)"

definition pg_GetContextPackage :: "string \<Rightarrow> Db \<Rightarrow> error + ContextPackage" where
  "pg_GetContextPackage lid db = (case fmlookup (db_contexts db) lid of None \<Rightarrow> Inl ErrNotFound | Some pkg \<Rightarrow> Inr pkg)"

definition pg_RenewLease :: "string \<Rightarrow> int \<Rightarrow> duration \<Rightarrow> time \<Rightarrow> Db \<Rightarrow> unit sql" where
  "pg_RenewLease lid fencingToken ttl now db =
     (case fmlookup (db_leases db) lid of
        None \<Rightarrow> (Inl ErrFenced, db)
      | Some l \<Rightarrow>
          if l_FencingToken l \<noteq> fencingToken \<or> l_State l \<noteq> LeaseActive then (Inl ErrFenced, db)
          else (Inr (), db\<lparr>db_leases := fmupd lid (l\<lparr>l_ExpiresAt := pg_time (time_add now ttl)\<rparr>) (db_leases db)\<rparr>))"

section \<open>The expiry sweep\<close>

text \<open>The parameter \<open>now\<close> reaches the server in microseconds.\<close>

definition lease_due :: "time \<Rightarrow> Db \<Rightarrow> Lease \<Rightarrow> bool" where
  "lease_due now db l \<longleftrightarrow> l_State l = LeaseActive \<and> l_ExpiresAt l \<le> pg_time now
     \<and> (case fmlookup (db_subtasks db) (l_SubtaskID l) of None \<Rightarrow> False
        | Some sub \<Rightarrow> st_State sub = StateOffered \<or> st_State sub = StateLeased)"

definition pg_expire_lease :: "time \<Rightarrow> Lease \<Rightarrow> int \<times> Db \<Rightarrow> int \<times> Db" where
  "pg_expire_lease now l nd = (case nd of (n, db) \<Rightarrow>
     let db = db\<lparr>db_leases := fmupd (l_ID l) (l\<lparr>l_State := LeaseExpired\<rparr>) (db_leases db)\<rparr>
     in case fmlookup (db_subtasks db) (l_SubtaskID l) of
          None \<Rightarrow> (n, db)
        | Some sub \<Rightarrow>
            if st_State sub \<noteq> StateOffered \<and> st_State sub \<noteq> StateLeased then (n, db)
            else
              let row = sub\<lparr>st_State := StateReady, st_Assignee := '''', st_LeaseID := '''', st_Version := st_Version sub + 1\<rparr>
              in (n + 1, pg_appendEvent (l_SubtaskID l) (st_MissionID sub) (event_string EvLeaseExpired)
                    (fmap_of_list [(''state'', VStr (state_string StateReady)), (''lease_id'', VStr (l_ID l))])
                    (system_actor ''lease-sweeper'') now
                    (db\<lparr>db_subtasks := fmupd (l_SubtaskID l) row (db_subtasks db)\<rparr>)))"

text \<open>The rows come in no particular order.\<close>

definition pg_ExpireLeases :: "order \<Rightarrow> time \<Rightarrow> Db \<Rightarrow> int sql" where
  "pg_ExpireLeases ord now = tx (\<lambda>db.
     case fold (pg_expire_lease now) (filter (lease_due now db) (map_values ord (db_leases db))) (0, db) of (n, db) \<Rightarrow> (Inr n, db))"

end
