(* ===== verification/PgExec.thy ===== *)
theory PgExec
  imports PgLeases
begin

text \<open>
  The execution callbacks with the budget of \<open>internal/store/pg/pg.go\<close>: completion, failure, cancellation.
\<close>

section \<open>Budget holds\<close>

text \<open>\<open>budget_holds\<close> is unique per subtask, so the row of a subtask is found under its key.\<close>

definition hold_of :: "string \<Rightarrow> Db \<Rightarrow> BudgetHold option" where
  "hold_of subtaskID db = find (\<lambda>h. h_SubtaskID h = subtaskID) (map_values sorted_list_of_fset (db_holds db))"

text \<open>The checks of \<open>mission_budgets\<close>; the server adds 64-bit integers without wrapping.\<close>

definition budget_checks :: "int \<Rightarrow> int \<Rightarrow> int \<Rightarrow> bool" where
  "budget_checks tot held spent \<longleftrightarrow> 0 \<le> held \<and> 0 \<le> spent \<and> held + spent \<le> tot"

definition update_budget :: "string \<Rightarrow> int \<Rightarrow> int \<Rightarrow> time \<Rightarrow> Db \<Rightarrow> unit sql" where
  "update_budget missionID held spent now db =
     (case fmlookup (db_budgets db) missionID of
        None \<Rightarrow> (Inr (), db)
      | Some b \<Rightarrow>
          if \<not> budget_checks (ba_Total b) held spent then (Inl sql_error, db)
          else (Inr (), db\<lparr>db_budgets := fmupd missionID (b\<lparr>ba_Held := held, ba_Spent := spent, ba_Version := ba_Version b + 1,
                 ba_UpdatedAt := pg_time now\<rparr>) (db_budgets db)\<rparr>))"

definition update_hold :: "string \<Rightarrow> (BudgetHold \<Rightarrow> BudgetHold) \<Rightarrow> Db \<Rightarrow> Db" where
  "update_hold ident f db =
     (case fmlookup (db_holds db) ident of None \<Rightarrow> db | Some h \<Rightarrow> db\<lparr>db_holds := fmupd ident (f h) (db_holds db)\<rparr>)"

definition settleBudgetHold :: "Subtask \<Rightarrow> int \<Rightarrow> Actor \<Rightarrow> time \<Rightarrow> Db \<Rightarrow> unit sql" where
  "settleBudgetHold sub usageTokens actor now db =
     (case hold_of (st_ID sub) db of
        None \<Rightarrow> (Inr (), db)
      | Some hold \<Rightarrow>
          if h_Status hold \<noteq> BudgetHoldHeld then (Inr (), db)
          else if usageTokens < 0 then (Inl ErrBudgetExceeded, db)
          else one_row (fmlookup (db_budgets db) (st_MissionID sub)) sql_error (\<lambda>b db.
            let otherHeld = wrap64 (ba_Held b - h_Amount hold) in
            if otherHeld < 0 \<or> usageTokens > wrap64 (wrap64 (ba_Total b - ba_Spent b) - otherHeld) then (Inl ErrBudgetExceeded, db)
            else and_then (update_budget (st_MissionID sub) otherHeld (wrap64 (ba_Spent b + usageTokens)) now db) (\<lambda>_ db.
              let db = update_hold (h_ID hold) (\<lambda>h. h\<lparr>h_Actual := usageTokens, h_Status := BudgetHoldSettled,
                    h_SettledAt := Some (pg_time now)\<rparr>) db
              in (Inr (), pg_appendEvent (st_ID sub) (st_MissionID sub) ''budget.settled''
                   (fmap_of_list [(''hold_id'', VStr (h_ID hold)), (''reserved_tokens'', VInt64 (h_Amount hold)),
                     (''actual_tokens'', VInt64 usageTokens),
                     (''available_tokens'', VInt64 (wrap64 (wrap64 (wrap64 (ba_Total b - otherHeld) - ba_Spent b) - usageTokens)))])
                   actor now db))) db)"

definition releaseBudgetHold :: "Subtask \<Rightarrow> string \<Rightarrow> Actor \<Rightarrow> time \<Rightarrow> Db \<Rightarrow> unit sql" where
  "releaseBudgetHold sub reason actor now db =
     (case hold_of (st_ID sub) db of
        None \<Rightarrow> (Inr (), db)
      | Some hold \<Rightarrow>
          if h_Status hold \<noteq> BudgetHoldHeld then (Inr (), db)
          else one_row (fmlookup (db_budgets db) (st_MissionID sub)) sql_error (\<lambda>b db.
            if ba_Held b < h_Amount hold then (Inl ErrConflict, db)
            else and_then (update_budget (st_MissionID sub) (ba_Held b - h_Amount hold) (ba_Spent b) now db) (\<lambda>_ db.
              let db = update_hold (h_ID hold) (\<lambda>h. h\<lparr>h_Status := BudgetHoldReleased, h_SettledAt := Some (pg_time now)\<rparr>) db
              in (Inr (), pg_appendEvent (st_ID sub) (st_MissionID sub) ''budget.released''
                   (fmap_of_list [(''hold_id'', VStr (h_ID hold)), (''amount_tokens'', VInt64 (h_Amount hold)),
                     (''reason'', VStr reason),
                     (''available_tokens'', VInt64 (wrap64 (wrap64 (ba_Total b - wrap64 (ba_Held b - h_Amount hold)) - ba_Spent b)))])
                   actor now db))) db)"

section \<open>Completion\<close>

definition insert_idem :: "string \<Rightarrow> string \<Rightarrow> Db \<Rightarrow> unit sql" where
  "insert_idem key result db =
     (if refers (db_idem db) key then (Inl sql_error, db) else (Inr (), db\<lparr>db_idem := fmupd key result (db_idem db)\<rparr>))"

text \<open>\<open>ON CONFLICT (source_subtask_id) DO NOTHING\<close>; the id is derived from the source.\<close>

definition enqueue_inbox :: "Subtask \<Rightarrow> string \<Rightarrow> time \<Rightarrow> Db \<Rightarrow> unit sql" where
  "enqueue_inbox sub resultRef now db =
     (let itemID = LeadInboxID (st_ID sub) in
      if any_value (\<lambda>i. i_SourceSubtaskID i = st_ID sub) (db_inbox db) then (Inr (), db)
      else if refers (db_inbox db) itemID \<or> \<not> refers (db_missions db) (st_MissionID sub)
              \<or> \<not> refers (db_subtasks db) (st_ParentID sub) \<or> \<not> refers (db_subtasks db) (st_ID sub)
      then (Inl sql_error, db)
      else
        let item = \<lparr>i_ID = itemID, i_MissionID = st_MissionID sub, i_LeadSubtaskID = st_ParentID sub, i_SourceSubtaskID = st_ID sub,
              i_Kind = ''result'', i_ResultRef = resultRef, i_Status = LeadInboxPending, i_IngestMode = '''', i_IngestedBy = '''',
              i_Version = 0, i_CreatedAt = pg_time now, i_IngestedAt = None\<rparr>
        in (Inr (), pg_appendEvent (st_ParentID sub) (st_MissionID sub) ''lead.inbox.enqueued''
             (fmap_of_list [(''item_id'', VStr itemID), (''source_subtask_id'', VStr (st_ID sub)), (''result_ref'', VStr resultRef)])
             (system_actor ''lead-inbox'') now (db\<lparr>db_inbox := fmupd itemID item (db_inbox db)\<rparr>)))"

definition lift_error :: "'a sql \<Rightarrow> (error \<times> 'b option, 'a, Db) outcome" where
  "lift_error r = (case r of (Inl e, db) \<Rightarrow> (Inl (e, None), db) | (Inr v, db) \<Rightarrow> (Inr v, db))"

definition complete_rest :: "jsonb \<Rightarrow> Subtask \<Rightarrow> string \<Rightarrow> string \<Rightarrow> int \<Rightarrow> int \<Rightarrow> Actor \<Rightarrow> time \<Rightarrow> Db \<Rightarrow> Subtask sql" where
  \<comment> \<open>the statements from the settlement on\<close>
  "complete_rest jb sub idemKey resultRef usageTokens expectedVersion actor now db =
     and_then (settleBudgetHold sub usageTokens actor now db) (\<lambda>_ db.
     let sub = sub\<lparr>st_State := StateSucceeded, st_ResultRef := resultRef\<rparr> in
     and_then (updateSubtask jb sub expectedVersion db) (\<lambda>_ db.
     and_then (insert_idem idemKey resultRef db) (\<lambda>_ db.
     and_then (recordLeaseMeter sub (ac_ID actor) now db) (\<lambda>_ db.
     and_then (if usageTokens > 0
               then putMeterTx (zero_meter\<lparr>mt_ID := ''meter:token:'' @ st_ID sub @ '':'' @ idemKey, mt_MissionID := st_MissionID sub,
                  mt_SubtaskID := st_ID sub, mt_AgentID := ac_ID actor, mt_Resource := ''token.reported'',
                  mt_Quantity := float_of_int usageTokens, mt_Trust := MeterSelfReported\<rparr>) now db
               else (Inr (), db)) (\<lambda>_ db.
     let db = releaseLease (st_LeaseID sub) db;
         db = pg_appendEvent (st_ID sub) (st_MissionID sub) (event_string EvCompleted)
           (fmap_of_list [(''state'', VStr (state_string StateSucceeded)), (''subtask_id'', VStr (st_ID sub)),
             (''result_ref'', VStr resultRef)]) actor now db
     in and_then (if st_ParentID sub \<noteq> '''' then enqueue_inbox sub resultRef now db else (Inr (), db)) (\<lambda>_ db.
     (Inr (sub\<lparr>st_Version := st_Version sub + 1\<rparr>), db)))))))"

definition pg_CompleteSubtaskWithUsage ::
  "jsonb \<Rightarrow> string \<Rightarrow> int \<Rightarrow> string \<Rightarrow> string \<Rightarrow> int \<Rightarrow> int \<Rightarrow> Actor \<Rightarrow> time \<Rightarrow> Db
     \<Rightarrow> (error \<times> Subtask option, Subtask, Db) outcome" where
  "pg_CompleteSubtaskWithUsage jb ident fencingToken idemKey resultRef usageTokens expectedVersion actor now = tx (\<lambda>db.
     if refers (db_idem db) idemKey then
       (case fmlookup (db_subtasks db) ident of
          None \<Rightarrow> (Inl (sql_error, None), db)
        | Some sub \<Rightarrow> (Inl (ErrDuplicate, Some sub), db))
     else one_row (fmlookup (db_subtasks db) ident) (ErrNotFound, None) (\<lambda>sub db.
       if st_Version sub \<noteq> expectedVersion then (Inl (ErrConflict, None), db)
       else case loadActiveLease sub fencingToken db of
           Some e \<Rightarrow> (Inl (e, None), db)
         | None \<Rightarrow>
            (case Apply (st_State sub) EvCompleted of
               Inl _ \<Rightarrow> (Inl (ErrConflict, None), db)
             | Inr _ \<Rightarrow> lift_error (complete_rest jb sub idemKey resultRef usageTokens expectedVersion actor now db))) db)"

definition pg_CompleteSubtask ::
  "jsonb \<Rightarrow> string \<Rightarrow> int \<Rightarrow> string \<Rightarrow> string \<Rightarrow> int \<Rightarrow> Actor \<Rightarrow> time \<Rightarrow> Db
     \<Rightarrow> (error \<times> Subtask option, Subtask, Db) outcome" where
  "pg_CompleteSubtask jb ident fencingToken idemKey resultRef expectedVersion actor now =
     pg_CompleteSubtaskWithUsage jb ident fencingToken idemKey resultRef 0 expectedVersion actor now"

section \<open>Failure and cancellation\<close>

definition pg_FailSubtask :: "jsonb \<Rightarrow> string \<Rightarrow> int \<Rightarrow> string \<Rightarrow> int \<Rightarrow> Actor \<Rightarrow> time \<Rightarrow> Db \<Rightarrow> Subtask sql" where
  "pg_FailSubtask jb ident fencingToken reason expectedVersion actor now = tx (\<lambda>db.
     one_row (fmlookup (db_subtasks db) ident) ErrNotFound (\<lambda>sub db.
       if st_Version sub \<noteq> expectedVersion then (Inl ErrConflict, db)
       else case loadActiveLease sub fencingToken db of
           Some e \<Rightarrow> (Inl e, db)
         | None \<Rightarrow>
            (case Apply (st_State sub) EvFailed of
               Inl _ \<Rightarrow> (Inl ErrConflict, db)
             | Inr _ \<Rightarrow>
                 let sub = sub\<lparr>st_State := StateFailed\<rparr> in
                 and_then (updateSubtask jb sub expectedVersion db) (\<lambda>_ db.
                 and_then (recordLeaseMeter sub (ac_ID actor) now db) (\<lambda>_ db.
                 let db = releaseLease (st_LeaseID sub) db in
                 and_then (if st_Attempt sub \<ge> MaxAttempts (st_Retry sub)
                           then releaseBudgetHold sub ''final_failure'' actor now db else (Inr (), db)) (\<lambda>_ db.
                 (Inr (sub\<lparr>st_Version := st_Version sub + 1\<rparr>),
                  pg_appendEvent (st_ID sub) (st_MissionID sub) (event_string EvFailed)
                    (fmap_of_list [(''state'', VStr (state_string StateFailed)), (''reason'', VStr reason)]) actor now db)))))) db)"

definition pg_CancelSubtask :: "jsonb \<Rightarrow> string \<Rightarrow> int \<Rightarrow> Actor \<Rightarrow> time \<Rightarrow> Db \<Rightarrow> Subtask sql" where
  "pg_CancelSubtask jb ident expectedVersion actor now = tx (\<lambda>db.
     one_row (fmlookup (db_subtasks db) ident) ErrNotFound (\<lambda>sub db.
       if st_Version sub \<noteq> expectedVersion then (Inl ErrConflict, db)
       else case Apply (st_State sub) EvCancelled of
           Inl _ \<Rightarrow> (Inl ErrConflict, db)
         | Inr _ \<Rightarrow>
             let lid = st_LeaseID sub;
                 sub = sub\<lparr>st_State := StateCancelled, st_Assignee := '''', st_LeaseID := ''''\<rparr> in
             and_then (updateSubtask jb sub expectedVersion db) (\<lambda>_ db.
             let db = (if lid \<noteq> '''' then releaseLease lid db else db) in
             and_then (releaseBudgetHold sub ''cancelled'' actor now db) (\<lambda>_ db.
             (Inr (sub\<lparr>st_Version := st_Version sub + 1\<rparr>),
              pg_appendEvent (st_ID sub) (st_MissionID sub) (event_string EvCancelled)
                (fmap_of_list [(''state'', VStr (state_string StateCancelled))]) actor now db)))) db)"

end
