(* ===== verification/PgDelegate.thy ===== *)
theory PgDelegate
  imports PgExec
begin

text \<open>
  Delegation, the Lead inbox, Lead snapshots and the takeover of stale Leads in \<open>internal/store/pg/pg.go\<close>.
\<close>

section \<open>Spawning a child\<close>

definition insert_hold :: "BudgetHold \<Rightarrow> Db \<Rightarrow> unit sql" where
  "insert_hold hold db =
     (if h_Amount hold \<le> 0 \<or> h_Actual hold < 0 \<or> refers (db_holds db) (h_ID hold) \<or> hold_of (h_SubtaskID hold) db \<noteq> None
         \<or> \<not> refers (db_missions db) (h_MissionID hold) \<or> \<not> refers (db_subtasks db) (h_SubtaskID hold)
      then (Inl sql_error, db)
      else (Inr (), db\<lparr>db_holds := fmupd (h_ID hold) hold (db_holds db)\<rparr>))"

definition pg_place_hold :: "BudgetAccount \<Rightarrow> Subtask \<Rightarrow> Actor \<Rightarrow> time \<Rightarrow> Db \<Rightarrow> unit sql" where
  "pg_place_hold b child actor now db =
     (let amount = BudgetTokens (st_Scheduling child); holdID = BudgetHoldID (st_ID child) in
      and_then (insert_hold \<lparr>h_ID = holdID, h_MissionID = st_MissionID child, h_SubtaskID = st_ID child, h_Attempt = st_Attempt child,
        h_Amount = amount, h_Actual = 0, h_Status = BudgetHoldHeld, h_CreatedAt = pg_time now, h_SettledAt = None\<rparr> db) (\<lambda>_ db.
      and_then (update_budget (st_MissionID child) (ba_Held b + amount) (ba_Spent b) now db) (\<lambda>_ db.
      (Inr (), pg_appendEvent (st_ID child) (st_MissionID child) ''budget.held''
         (fmap_of_list [(''hold_id'', VStr holdID), (''amount_tokens'', VInt64 amount),
           (''available_tokens'', VInt64 (wrap64 (pg_available b - amount)))]) actor now db))))"

definition spawn_rest :: "string \<Rightarrow> string \<Rightarrow> Subtask \<Rightarrow> Actor \<Rightarrow> time \<Rightarrow> Db \<Rightarrow> unit sql" where
  \<comment> \<open>the statements from the budget row on\<close>
  "spawn_rest idemKey parentID child actor now db =
     (let account = fmlookup (db_budgets db) (st_MissionID child); amount = BudgetTokens (st_Scheduling child) in
      if account \<noteq> None \<and> amount \<le> 0 then (Inl ErrBudgetRequired, db)
      else if account \<noteq> None \<and> pg_available (the account) < amount then (Inl ErrBudgetExceeded, db)
      else
        let child = child\<lparr>st_State := StateReady, st_Version := 1\<rparr> in
        and_then (on_error (\<lambda>_. ErrConflict) (insert_subtask (inserted_row child parentID [] 0 1) db)) (\<lambda>_ db.
        and_then (insert_idem idemKey (st_ID child) db) (\<lambda>_ db.
        and_then (case account of None \<Rightarrow> (Inr (), db) | Some b \<Rightarrow> pg_place_hold b child actor now db) (\<lambda>_ db.
        let db = pg_appendEvent (st_ID child) (st_MissionID child) (event_string EvCreated)
              (fmap_of_list [(''kind'', VStr (st_Kind child)), (''parent_subtask_id'', VStr parentID),
                (''rework_of'', VStr (st_ReworkOf child))]) actor now db
        in (Inr (), pg_appendEvent (st_ID child) (st_MissionID child) (event_string EvDepsSatisfied)
             (fmap_of_list [(''state'', VStr (state_string StateReady))]) (system_actor ''orchestrator'') now db)))))"

definition lift_error2 :: "unit sql \<Rightarrow> string sql2" where
  "lift_error2 r = (case r of (Inl e, db) \<Rightarrow> (Inl (e, ''''), db) | (Inr _, db) \<Rightarrow> (Inr '''', db))"

definition pg_SpawnSubtask :: "string \<Rightarrow> string \<Rightarrow> int \<Rightarrow> int \<Rightarrow> Subtask \<Rightarrow> Actor \<Rightarrow> time \<Rightarrow> Db \<Rightarrow> string sql2" where
  "pg_SpawnSubtask idemKey parentID fencingToken parentVersion child actor now = tx (\<lambda>db.
     case fmlookup (db_idem db) idemKey of
       Some existing \<Rightarrow> (Inl (ErrDuplicate, existing), db)
     | None \<Rightarrow> one_row (fmlookup (db_subtasks db) parentID) (ErrNotFound, '''') (\<lambda>parent db.
         if st_Version parent \<noteq> parentVersion then (Inl (ErrConflict, ''''), db)
         else case loadOwnedActiveLease parent fencingToken (ac_ID actor) now db of
             Some e \<Rightarrow> (Inl (e, ''''), db)
           | None \<Rightarrow>
               if st_State parent \<noteq> StateRunning then (Inl (ErrConflict, ''''), db)
               else if \<not> PermissionEnvelopeSubset (st_Grants parent) (st_Grants child) then (Inl (ErrPermissionExceeded, ''''), db)
               else lift_error2 (spawn_rest idemKey parentID child actor now db)) db)"

section \<open>The Lead inbox\<close>

definition pg_ListLeadInbox :: "string \<Rightarrow> bool \<Rightarrow> Db \<Rightarrow> LeadInboxItem list" where
  "pg_ListLeadInbox leadSubtaskID pendingOnly db =
     sort_slice (created_less i_CreatedAt i_ID)
       (filter (\<lambda>i. i_LeadSubtaskID i = leadSubtaskID \<and> (pendingOnly \<longrightarrow> i_Status i = LeadInboxPending))
         (map_values sorted_list_of_fset (db_inbox db)))"

text \<open>The running Lead with the lease the caller owns.\<close>

definition owned_lead :: "string \<Rightarrow> int \<Rightarrow> string \<Rightarrow> time \<Rightarrow> Db \<Rightarrow> error + Subtask" where
  "owned_lead leadSubtaskID fencingToken agentID now db =
     (case fmlookup (db_subtasks db) leadSubtaskID of
        None \<Rightarrow> Inl ErrNotFound
      | Some lead \<Rightarrow>
          if st_State lead \<noteq> StateRunning then Inl ErrConflict
          else case loadOwnedActiveLease lead fencingToken agentID now db of Some e \<Rightarrow> Inl e | None \<Rightarrow> Inr lead)"

definition pg_IngestLeadInbox ::
  "string \<Rightarrow> string \<Rightarrow> int \<Rightarrow> int \<Rightarrow> string \<Rightarrow> Actor \<Rightarrow> time \<Rightarrow> Db \<Rightarrow> LeadInboxItem sql" where
  "pg_IngestLeadInbox itemID leadSubtaskID fencingToken expectedVersion mode actor now = tx (\<lambda>db.
     one_row (fmlookup (db_inbox db) itemID) ErrNotFound (\<lambda>item db.
       if i_LeadSubtaskID item \<noteq> leadSubtaskID then (Inl ErrNotFound, db)
       else case owned_lead leadSubtaskID fencingToken (ac_ID actor) now db of
           Inl e \<Rightarrow> (Inl e, db)
         | Inr lead \<Rightarrow>
             if i_Status item \<noteq> LeadInboxPending \<or> i_Version item \<noteq> expectedVersion then (Inl ErrConflict, db)
             else
               let row = item\<lparr>i_Status := LeadInboxIngested, i_IngestMode := mode, i_IngestedBy := ac_ID actor,
                     i_IngestedAt := Some (pg_time now), i_Version := i_Version item + 1\<rparr>
               in (Inr (row\<lparr>i_IngestedAt := Some now\<rparr>),
                   pg_appendEvent (st_ID lead) (st_MissionID lead) ''lead.inbox.ingested''
                     (fmap_of_list [(''item_id'', VStr (i_ID item)), (''source_subtask_id'', VStr (i_SourceSubtaskID item)),
                       (''mode'', VStr mode)]) actor now (db\<lparr>db_inbox := fmupd itemID row (db_inbox db)\<rparr>))) db)"

section \<open>Lead snapshots\<close>

definition pg_SaveLeadSnapshot ::
  "jsonb \<Rightarrow> string \<Rightarrow> int \<Rightarrow> int \<Rightarrow> string \<Rightarrow> duration \<Rightarrow> Actor \<Rightarrow> time \<Rightarrow> Db \<Rightarrow> BoardEntry sql" where
  "pg_SaveLeadSnapshot jb leadSubtaskID fencingToken expectedVersion val leaseTTL actor now = tx (\<lambda>db.
     case owned_lead leadSubtaskID fencingToken (ac_ID actor) now db of
       Inl e \<Rightarrow> (Inl e, db)
     | Inr lead \<Rightarrow>
        (case jb val of
           None \<Rightarrow> (Inl sql_error, db)
         | Some text \<Rightarrow>
             let k = (st_MissionID lead, ''lead-plan'', st_ID lead);
                 cur = fmlookup (db_board db) k
             in if (if expectedVersion = -1 then cur \<noteq> None else cur = None \<or> b_Version (the cur) \<noteq> expectedVersion)
                then (Inl ErrConflict, db)
                else
                  let version = (case cur of None \<Rightarrow> 0 | Some c \<Rightarrow> b_Version c + 1);
                      entry = \<lparr>b_MissionID = st_MissionID lead, b_Namespace = ''lead-plan'', b_Key = st_ID lead, b_Value = text,
                        b_Version = version, b_UpdatedAt = pg_time now\<rparr>;
                      db = db\<lparr>db_board := fmupd k entry (db_board db)\<rparr>;
                      db = (case fmlookup (db_leases db) (st_LeaseID lead) of None \<Rightarrow> db
                            | Some l \<Rightarrow> db\<lparr>db_leases := fmupd (st_LeaseID lead) (l\<lparr>l_ExpiresAt := pg_time (time_add now leaseTTL)\<rparr>)
                                (db_leases db)\<rparr>);
                      db = (case fmlookup (db_agents db) (ac_ID actor) of None \<Rightarrow> db
                            | Some a \<Rightarrow> db\<lparr>db_agents := fmupd (ac_ID actor) (heartbeat_row a now) (db_agents db)\<rparr>)
                  in (Inr (entry\<lparr>b_Value := val, b_UpdatedAt := now\<rparr>),
                      pg_appendEvent (st_ID lead) (st_MissionID lead) ''lead.snapshot.saved''
                        (fmap_of_list [(''version'', VInt64 version)]) actor now db)))"

section \<open>Takeover\<close>

definition stale_lead :: "time \<Rightarrow> Db \<Rightarrow> Subtask \<Rightarrow> bool" where
  "stale_lead now db sub \<longleftrightarrow> st_State sub = StateRunning
     \<and> (case fmlookup (db_leases db) (st_LeaseID sub) of None \<Rightarrow> False
        | Some l \<Rightarrow> l_State l = LeaseActive \<and> l_ExpiresAt l \<le> pg_time now)
     \<and> (any_value (\<lambda>c. st_ParentID c = st_ID sub) (db_subtasks db)
        \<or> fmlookup (db_board db) (st_MissionID sub, ''lead-plan'', st_ID sub) \<noteq> None)"

definition pg_suspect :: "string \<Rightarrow> Db \<Rightarrow> Db" where
  "pg_suspect agentID db =
     (case fmlookup (db_agents db) agentID of
        None \<Rightarrow> db
      | Some a \<Rightarrow> db\<lparr>db_agents := fmupd agentID (a\<lparr>a_Health := (if a_Health a = ''down'' then ''down'' else ''suspect'')\<rparr>) (db_agents db)\<rparr>)"

definition fence_lease :: "string \<Rightarrow> Db \<Rightarrow> Db" where
  "fence_lease lid db =
     (case fmlookup (db_leases db) lid of
        None \<Rightarrow> db
      | Some l \<Rightarrow> if l_State l \<noteq> LeaseActive then db
          else db\<lparr>db_leases := fmupd lid (l\<lparr>l_State := LeaseFenced\<rparr>) (db_leases db)\<rparr>)"

fun takeover_rows :: "jsonb \<Rightarrow> time \<Rightarrow> string list \<Rightarrow> Subtask list \<Rightarrow> Db \<Rightarrow> Subtask list sql" where
  "takeover_rows jb now [] out db = (Inr out, db)"
| "takeover_rows jb now (k # ks) out db =
     one_row (fmlookup (db_subtasks db) k) sql_error (\<lambda>lead db.
       case Apply (st_State lead) EvTakeover of
         Inl _ \<Rightarrow> (Inl ErrConflict, db)
       | Inr _ \<Rightarrow>
           let oldAgent = st_Assignee lead; oldLease = st_LeaseID lead;
               db = pg_suspect oldAgent (fence_lease oldLease db);
               row = lead\<lparr>st_State := StateReady, st_Assignee := '''', st_LeaseID := ''''\<rparr>
           in and_then (updateSubtask jb row (st_Version lead) db) (\<lambda>_ db.
                let db = pg_appendEvent (st_ID lead) (st_MissionID lead) (event_string EvTakeover)
                      (fmap_of_list [(''state'', VStr (state_string StateReady)), (''fenced_lease_id'', VStr oldLease),
                        (''previous_agent_id'', VStr oldAgent)]) (system_actor ''lead-takeover'') now db
                in takeover_rows jb now ks (out @ [row\<lparr>st_Version := st_Version lead + 1\<rparr>]) db)) db"

definition pg_TakeoverStaleLeads :: "jsonb \<Rightarrow> time \<Rightarrow> Db \<Rightarrow> Subtask list sql" where
  "pg_TakeoverStaleLeads jb now = tx (\<lambda>db. takeover_rows jb now (map st_ID (rows_by_id (stale_lead now db) db)) [] db)"

end
