(* ===== verification/PgWake.thy ===== *)
theory PgWake
  imports PgDelegate
begin

text \<open>
  Suspension, wake-up, checkpoints and decisions in \<open>internal/store/pg/pg.go\<close>.
\<close>

section \<open>Suspension and wake-up\<close>

text \<open>The result carries the times of the caller; the row has them in microseconds.\<close>

definition suspended :: "WakeSpec \<Rightarrow> string \<Rightarrow> Subtask \<Rightarrow> Subtask" where
  "suspended wake checkpoint sub =
     (let sub = sub\<lparr>st_State := StateWaiting, st_WakeKind := w_Kind wake, st_WakeAt := w_At wake, st_WakeDeadline := w_Deadline wake,
            st_WakeSpec := Some (wake_json wake)\<rparr>;
          sub = (if checkpoint \<noteq> '''' then sub\<lparr>st_Checkpoint := checkpoint\<rparr> else sub)
      in sub\<lparr>st_Assignee := '''', st_LeaseID := ''''\<rparr>)"

definition pg_SuspendSubtask ::
  "jsonb \<Rightarrow> string \<Rightarrow> int \<Rightarrow> int \<Rightarrow> WakeSpec \<Rightarrow> string \<Rightarrow> Actor \<Rightarrow> time \<Rightarrow> Db \<Rightarrow> Subtask sql" where
  "pg_SuspendSubtask jb ident fencingToken expectedVersion wake checkpoint actor now = tx (\<lambda>db.
     one_row (fmlookup (db_subtasks db) ident) ErrNotFound (\<lambda>sub db.
       if st_Version sub \<noteq> expectedVersion then (Inl ErrConflict, db)
       else case loadActiveLease sub fencingToken db of
           Some e \<Rightarrow> (Inl e, db)
         | None \<Rightarrow>
            (case Apply (st_State sub) EvSuspended of
               Inl _ \<Rightarrow> (Inl ErrConflict, db)
             | Inr _ \<Rightarrow>
                 let lid = st_LeaseID sub; sub = suspended wake checkpoint sub in
                 and_then (updateSubtask jb sub expectedVersion db) (\<lambda>_ db.
                 (Inr (sub\<lparr>st_Version := st_Version sub + 1\<rparr>),
                  pg_appendEvent (st_ID sub) (st_MissionID sub) (event_string EvSuspended)
                    (fmap_of_list [(''state'', VStr (state_string StateWaiting)), (''wake_kind'', VStr (w_Kind wake))]) actor now
                    (releaseLease lid db))))) db)"

definition pg_wake_meter :: "Subtask \<Rightarrow> int \<Rightarrow> MeterRecord" where
  "pg_wake_meter sub version = zero_meter\<lparr>mt_ID := ''meter:wake:'' @ st_ID sub @ '':'' @ itoa version, mt_MissionID := st_MissionID sub,
     mt_SubtaskID := st_ID sub, mt_Resource := ''wake.fire'', mt_Quantity := 1, mt_Trust := MeterAuthoritative\<rparr>"

definition pg_WakeSubtask :: "jsonb \<Rightarrow> string \<Rightarrow> int \<Rightarrow> Actor \<Rightarrow> time \<Rightarrow> Db \<Rightarrow> Subtask sql" where
  "pg_WakeSubtask jb ident expectedVersion actor now = tx (\<lambda>db.
     one_row (fmlookup (db_subtasks db) ident) ErrNotFound (\<lambda>sub db.
       if st_Version sub \<noteq> expectedVersion then (Inl ErrConflict, db)
       else if (case st_WakeDeadline sub of None \<Rightarrow> False | Some d \<Rightarrow> \<not> time_after d now) then (Inl ErrConflict, db)
       else case Apply (st_State sub) EvWoken of
           Inl _ \<Rightarrow> (Inl ErrConflict, db)
         | Inr _ \<Rightarrow>
             let sub = clear_wake (sub\<lparr>st_State := StateReady\<rparr>) in
             and_then (updateSubtask jb sub expectedVersion db) (\<lambda>_ db.
             and_then (putMeterTx (pg_wake_meter sub (expectedVersion + 1)) now db) (\<lambda>_ db.
             (Inr (sub\<lparr>st_Version := st_Version sub + 1\<rparr>),
              pg_appendEvent (st_ID sub) (st_MissionID sub) (event_string EvWoken)
                (fmap_of_list [(''state'', VStr (state_string StateReady))]) actor now db)))) db)"

text \<open>\<open>ORDER BY wake_at\<close>; the server compares microseconds.\<close>

definition pg_timer_due :: "time \<Rightarrow> Subtask \<Rightarrow> bool" where
  "pg_timer_due now sub \<longleftrightarrow> st_State sub = StateWaiting \<and> st_WakeKind sub = WakeTimer
     \<and> (case st_WakeAt sub of None \<Rightarrow> False | Some t \<Rightarrow> t \<le> pg_time now)
     \<and> (case st_WakeDeadline sub of None \<Rightarrow> True | Some d \<Rightarrow> d > pg_time now)"

definition pg_ListWaitingDue :: "order \<Rightarrow> time \<Rightarrow> Db \<Rightarrow> Subtask list" where
  "pg_ListWaitingDue ord now db =
     sort_slice (\<lambda>a b. the (st_WakeAt a) < the (st_WakeAt b)) (filter (pg_timer_due now) (map_values ord (db_subtasks db)))"

definition pg_ListWaiting :: "string \<Rightarrow> Db \<Rightarrow> Subtask list" where
  "pg_ListWaiting wakeKind db = rows_by_id (\<lambda>sub. st_State sub = StateWaiting \<and> st_WakeKind sub = wakeKind) db"

definition wake_expired :: "time \<Rightarrow> Subtask \<Rightarrow> bool" where
  "wake_expired now sub \<longleftrightarrow> st_State sub = StateWaiting
     \<and> (case st_WakeDeadline sub of None \<Rightarrow> False | Some d \<Rightarrow> d \<le> pg_time now)"

fun expire_rows :: "jsonb \<Rightarrow> time \<Rightarrow> Subtask list \<Rightarrow> Subtask list \<Rightarrow> Db \<Rightarrow> Subtask list sql" where
  "expire_rows jb now [] out db = (Inr out, db)"
| "expire_rows jb now (sub # subs) out db =
     (let row = clear_wake (sub\<lparr>st_State := StateFailed\<rparr>) in
      and_then (updateSubtask jb row (st_Version sub) db) (\<lambda>_ db.
        let db = pg_appendEvent (st_ID sub) (st_MissionID sub) (event_string EvFailed)
              (fmap_of_list [(''state'', VStr (state_string StateFailed)), (''reason'', VStr ''wake_timeout'')])
              (system_actor ''sweeper'') now db
        in expire_rows jb now subs (out @ [row\<lparr>st_Version := st_Version sub + 1\<rparr>]) db))"

definition pg_ExpireWakes :: "jsonb \<Rightarrow> time \<Rightarrow> Db \<Rightarrow> Subtask list sql" where
  "pg_ExpireWakes jb now = tx (\<lambda>db. expire_rows jb now (rows_by_id (wake_expired now) db) [] db)"

definition pg_SaveCheckpoint :: "jsonb \<Rightarrow> string \<Rightarrow> int \<Rightarrow> string \<Rightarrow> Db \<Rightarrow> unit sql" where
  "pg_SaveCheckpoint jb ident fencingToken checkpoint = tx (\<lambda>db.
     one_row (fmlookup (db_subtasks db) ident) ErrNotFound (\<lambda>sub db.
       case loadActiveLease sub fencingToken db of
         Some e \<Rightarrow> (Inl e, db)
       | None \<Rightarrow>
           if st_State sub \<noteq> StateRunning \<and> st_State sub \<noteq> StateBlocked then (Inl ErrConflict, db)
           else case checkpoint_column jb checkpoint of
               None \<Rightarrow> (Inl sql_error, db)
             | Some text \<Rightarrow> (Inr (), db\<lparr>db_subtasks := fmupd ident (sub\<lparr>st_Checkpoint := text\<rparr>) (db_subtasks db)\<rparr>)) db)"

section \<open>Decisions\<close>

text \<open>The columns of an insertion; \<open>decider_id\<close>, \<open>choice\<close>, \<open>rationale\<close> and \<open>resolved_at\<close> start as \<open>NULL\<close>.\<close>

definition decision_row :: "Decision \<Rightarrow> time \<Rightarrow> Decision" where
  "decision_row d now = d\<lparr>d_Status := DecisionPending, d_Choice := '''', d_Rationale := '''', d_DeciderID := '''',
     d_Deadline := map_option pg_time (d_Deadline d), d_CreatedAt := pg_time now, d_ResolvedAt := None\<rparr>"

definition insert_decision :: "Decision \<Rightarrow> time \<Rightarrow> Db \<Rightarrow> unit sql" where
  "insert_decision d now db =
     (if refers (db_decisions db) (d_ID d) \<or> \<not> refers (db_missions db) (d_MissionID d) \<or> \<not> refers (db_subtasks db) (d_SubtaskID d)
      then (Inl sql_error, db)
      else (Inr (), db\<lparr>db_decisions := fmupd (d_ID d) (decision_row d now) (db_decisions db)\<rparr>))"

definition requested_event :: "Decision \<Rightarrow> Actor \<Rightarrow> time \<Rightarrow> Db \<Rightarrow> Db" where
  "requested_event d actor now db = pg_appendEvent (d_SubtaskID d) (d_MissionID d) ''decision.requested'' (decision_payload d) actor now db"

definition pg_CreateDecision :: "Decision \<Rightarrow> time \<Rightarrow> Db \<Rightarrow> unit sql" where
  "pg_CreateDecision d now = tx (\<lambda>db.
     and_then (on_error (\<lambda>_. ErrConflict) (insert_decision d now db)) (\<lambda>_ db.
     (Inr (), requested_event d (system_actor ''hitl'') now db)))"

definition pg_CreateDecisionAndBlock ::
  "jsonb \<Rightarrow> Decision \<Rightarrow> int \<Rightarrow> int option \<Rightarrow> Actor \<Rightarrow> time \<Rightarrow> Db \<Rightarrow> Subtask sql" where
  "pg_CreateDecisionAndBlock jb d expectedSubVersion fencingToken actor now = tx (\<lambda>db.
     one_row (fmlookup (db_subtasks db) (d_SubtaskID d)) ErrNotFound (\<lambda>sub db.
       if st_Version sub \<noteq> expectedSubVersion then (Inl ErrConflict, db)
       else case (case fencingToken of None \<Rightarrow> None | Some tok \<Rightarrow> loadActiveLease sub tok db) of
           Some e \<Rightarrow> (Inl e, db)
         | None \<Rightarrow>
            (case Apply (st_State sub) EvBlocked of
               Inl _ \<Rightarrow> (Inl ErrConflict, db)
             | Inr _ \<Rightarrow>
                 let sub = sub\<lparr>st_State := StateBlocked\<rparr> in
                 and_then (updateSubtask jb sub expectedSubVersion db) (\<lambda>_ db.
                 and_then (on_error (\<lambda>_. ErrConflict) (insert_decision d now db)) (\<lambda>_ db.
                 let db = pg_appendEvent (st_ID sub) (st_MissionID sub) (event_string EvBlocked)
                       (fmap_of_list [(''state'', VStr (state_string StateBlocked)), (''question'', VStr (d_Question d))]) actor now db
                 in (Inr (sub\<lparr>st_Version := st_Version sub + 1\<rparr>), requested_event d actor now db))))) db)"

definition pg_GetDecision :: "string \<Rightarrow> Db \<Rightarrow> error + Decision" where
  "pg_GetDecision ident db = (case fmlookup (db_decisions db) ident of None \<Rightarrow> Inl ErrNotFound | Some d \<Rightarrow> Inr d)"

definition pg_ListDecisions :: "order \<Rightarrow> string \<Rightarrow> bool \<Rightarrow> Db \<Rightarrow> Decision list" where
  "pg_ListDecisions ord missionID pendingOnly db =
     sort_slice (\<lambda>a b. d_CreatedAt a < d_CreatedAt b)
       (filter (\<lambda>d. (missionID = '''' \<or> d_MissionID d = missionID) \<and> (pendingOnly \<longrightarrow> d_Status d = DecisionPending))
         (map_values ord (db_decisions db)))"

definition pg_ResolveDecision :: "string \<Rightarrow> string \<Rightarrow> string \<Rightarrow> string \<Rightarrow> time \<Rightarrow> Db \<Rightarrow> Decision sql" where
  "pg_ResolveDecision ident choice rationale deciderID now = tx (\<lambda>db.
     case fmlookup (db_decisions db) ident of
       None \<Rightarrow> (Inl ErrConflict, db)
     | Some d \<Rightarrow>
         if d_Status d \<noteq> DecisionPending then (Inl ErrConflict, db)
         else
           let d = d\<lparr>d_Status := DecisionResolved, d_Choice := choice, d_Rationale := rationale, d_DeciderID := deciderID,
                 d_ResolvedAt := Some (pg_time now)\<rparr>
           in (Inr d, pg_appendEvent (d_SubtaskID d) (d_MissionID d) ''decision.resolved''
                (fmap_of_list [(''decision_id'', VStr (d_ID d)), (''choice'', VStr choice), (''decider'', VStr deciderID)])
                \<lparr>ac_Kind = ''human'', ac_ID = deciderID\<rparr> now (db\<lparr>db_decisions := fmupd ident d (db_decisions db)\<rparr>)))"

text \<open>The row of an automatic verdict also gets its decider and time; the returned ticket does not.\<close>

definition pg_expire_decision :: "time \<Rightarrow> Decision \<Rightarrow> Decision list \<times> Db \<Rightarrow> Decision list \<times> Db" where
  "pg_expire_decision now d od = (case od of (out, db) \<Rightarrow>
     let auto = d_OnTimeout d = ''auto_approve'' \<or> d_OnTimeout d = ''auto_reject'';
         choice = (if d_OnTimeout d = ''auto_reject'' then ''reject'' else ''approve'');
         row = (if auto then d\<lparr>d_Status := DecisionResolved, d_Choice := choice, d_DeciderID := ''system:timeout'',
                  d_ResolvedAt := Some (pg_time now)\<rparr> else d\<lparr>d_Status := DecisionExpired\<rparr>);
         ticket = (if auto then d\<lparr>d_Status := DecisionResolved, d_Choice := choice\<rparr> else d\<lparr>d_Status := DecisionExpired\<rparr>);
         db = pg_appendEvent (d_SubtaskID d) (d_MissionID d) ''decision.expired''
           (fmap_of_list [(''decision_id'', VStr (d_ID d)), (''on_timeout'', VStr (d_OnTimeout d)), (''choice'', VStr (d_Choice ticket))])
           (system_actor ''decision-sweeper'') now (db\<lparr>db_decisions := fmupd (d_ID d) row (db_decisions db)\<rparr>)
     in (out @ [ticket], db))"

definition decision_due :: "time \<Rightarrow> Decision \<Rightarrow> bool" where
  "decision_due now d \<longleftrightarrow> d_Status d = DecisionPending \<and> (case d_Deadline d of None \<Rightarrow> False | Some t \<Rightarrow> t \<le> pg_time now)"

definition pg_ExpireDecisions :: "order \<Rightarrow> time \<Rightarrow> Db \<Rightarrow> Decision list sql" where
  "pg_ExpireDecisions ord now = tx (\<lambda>db.
     case fold (pg_expire_decision now) (filter (decision_due now) (map_values ord (db_decisions db))) ([], db) of (out, db) \<Rightarrow> (Inr out, db))"

end
