(* ===== verification/PgBoard.thy ===== *)
theory PgBoard
  imports PgWake
begin

text \<open>
  The blackboard, artifacts, quality records and appeals in \<open>internal/store/pg/pg.go\<close>.
\<close>

section \<open>Blackboard\<close>

definition pg_BoardGet :: "string \<Rightarrow> string \<Rightarrow> string \<Rightarrow> Db \<Rightarrow> error + BoardEntry" where
  "pg_BoardGet missionID ns key db =
     (case fmlookup (db_board db) (missionID, ns, key) of None \<Rightarrow> Inl ErrNotFound | Some e \<Rightarrow> Inr e)"

text \<open>The write and the read that gives the result are two statements; nothing comes between them here.\<close>

definition pg_BoardPut :: "jsonb \<Rightarrow> BoardEntry \<Rightarrow> int \<Rightarrow> time \<Rightarrow> Db \<Rightarrow> BoardEntry sql" where
  "pg_BoardPut jb e expectedVersion now db =
     (case jb (b_Value e) of
        None \<Rightarrow> (Inl sql_error, db)
      | Some text \<Rightarrow>
          let k = (b_MissionID e, b_Namespace e, b_Key e);
              cur = fmlookup (db_board db) k;
              row = (\<lambda>version. e\<lparr>b_Value := text, b_Version := version, b_UpdatedAt := pg_time now\<rparr>);
              get = (\<lambda>db. (pg_BoardGet (b_MissionID e) (b_Namespace e) (b_Key e) db, db))
          in if expectedVersion \<ge> 0 then
               (case cur of
                  None \<Rightarrow> (Inl ErrConflict, db)
                | Some c \<Rightarrow>
                    if b_Version c \<noteq> expectedVersion then (Inl ErrConflict, db)
                    else get (db\<lparr>db_board := fmupd k (row (b_Version c + 1)) (db_board db)\<rparr>))
             else case cur of
                 Some c \<Rightarrow> get (db\<lparr>db_board := fmupd k (row (b_Version c + 1)) (db_board db)\<rparr>)
               | None \<Rightarrow>
                   if \<not> refers (db_missions db) (b_MissionID e) then (Inl sql_error, db)
                   else get (db\<lparr>db_board := fmupd k (row 0) (db_board db)\<rparr>))"

text \<open>The primary key orders the rows of a mission by namespace and key.\<close>

definition pg_BoardList :: "string \<Rightarrow> string \<Rightarrow> Db \<Rightarrow> BoardEntry list" where
  "pg_BoardList missionID ns db =
     filter (\<lambda>e. b_MissionID e = missionID \<and> (ns = '''' \<or> b_Namespace e = ns)) (board_rows db)"

section \<open>Artifacts\<close>

definition insert_artifact :: "Artifact \<Rightarrow> time \<Rightarrow> Db \<Rightarrow> unit sql" where
  "insert_artifact a now db =
     (if refers (db_artifacts db) (art_ID a) \<or> \<not> refers (db_missions db) (art_MissionID a) then (Inl ErrConflict, db)
      else (Inr (), db\<lparr>db_artifacts := fmupd (art_ID a) (a\<lparr>art_CreatedAt := pg_time now\<rparr>) (db_artifacts db)\<rparr>))"

definition pg_PutArtifact :: "Artifact \<Rightarrow> time \<Rightarrow> Db \<Rightarrow> unit sql" where
  "pg_PutArtifact a now = tx (\<lambda>db.
     and_then (insert_artifact a now db) (\<lambda>_ db.
     and_then (putMeterTx (artifact_meter a) now db) (\<lambda>_ db.
     (Inr (), pg_appendEvent (art_ProducedBy a) (art_MissionID a) ''artifact.produced''
        (fmap_of_list [(''artifact_id'', VStr (art_ID a)), (''sha256'', VStr (art_SHA256 a)), (''size'', VInt64 (art_Size a))])
        (system_actor ''artifact-store'') now db))))"

definition pg_GetArtifact :: "string \<Rightarrow> Db \<Rightarrow> error + Artifact" where
  "pg_GetArtifact ident db = (case fmlookup (db_artifacts db) ident of None \<Rightarrow> Inl ErrNotFound | Some a \<Rightarrow> Inr a)"

section \<open>Quality\<close>

definition json_layer :: "QualityLayer \<Rightarrow> QualityLayer" where
  "json_layer l = l\<lparr>ql_Violations := map json_payload (ql_Violations l), ql_Evidence := json_payload (ql_Evidence l)\<rparr>"

definition quality_row :: "QualityRecord \<Rightarrow> time \<Rightarrow> QualityRecord" where
  "quality_row q now = q\<lparr>q_Layers := fmmap json_layer (q_Layers q), q_CreatedAt := pg_time now\<rparr>"

text \<open>The checks of the table, its primary key (code 23505), its foreign keys.\<close>

definition insert_quality :: "QualityRecord \<Rightarrow> time \<Rightarrow> Db \<Rightarrow> unit sql" where
  "insert_quality q now db =
     (if \<not> (0 \<le> q_Score q \<and> q_Score q \<le> 1 \<and> 0 \<le> q_Confidence q \<and> q_Confidence q \<le> 1)
         \<or> \<not> (q_Verdict q = QualityAccepted \<or> q_Verdict q = QualityRework \<or> q_Verdict q = QualityRejected)
      then (Inl sql_error, db)
      else if refers (db_quality db) (q_ArtifactID q) then (Inl ErrDuplicate, db)
      else if \<not> refers (db_artifacts db) (q_ArtifactID q) \<or> \<not> refers (db_missions db) (q_MissionID q)
              \<or> \<not> refers_null (db_subtasks db) (q_SubtaskID q) \<or> \<not> refers_null (db_agents db) (q_ProducerAgentID q)
      then (Inl sql_error, db)
      else (Inr (), db\<lparr>db_quality := fmupd (q_ArtifactID q) (quality_row q now) (db_quality db)\<rparr>))"

definition pg_apply_signal :: "time \<Rightarrow> ReputationSignal \<Rightarrow> Db \<Rightarrow> unit sql" where
  "pg_apply_signal now sig db =
     (case applyReputationSignalTx sig now db of
        (Inl e, db') \<Rightarrow> if e = ErrDuplicate then (Inr (), db') else (Inl e, db')
      | (Inr _, db') \<Rightarrow> (Inr (), db'))"

definition pg_RecordQuality ::
  "QualityRecord \<Rightarrow> ReputationSignal list \<Rightarrow> Actor \<Rightarrow> time \<Rightarrow> Db \<Rightarrow> QualityRecord sql" where
  "pg_RecordQuality q signals actor now = tx (\<lambda>db.
     and_then (insert_quality q now db) (\<lambda>_ db.
     and_then (for_each (pg_apply_signal now) signals db) (\<lambda>_ db.
     and_then (putMeterTx (verify_meter q) now db) (\<lambda>_ db.
     (Inr (q\<lparr>q_CreatedAt := now\<rparr>),
      pg_appendEvent (q_ArtifactID q) (q_MissionID q) ''artifact.verified''
        (fmap_of_list [(''artifact_id'', VStr (q_ArtifactID q)), (''score'', VFloat (q_Score q)), (''confidence'', VFloat (q_Confidence q)),
          (''verdict'', VStr (q_Verdict q)), (''failure_class'', VStr (q_FailureClass q))]) actor now db)))))"

definition pg_GetQuality :: "string \<Rightarrow> Db \<Rightarrow> error + QualityRecord" where
  "pg_GetQuality artifactID db = (case fmlookup (db_quality db) artifactID of None \<Rightarrow> Inl ErrNotFound | Some q \<Rightarrow> Inr q)"

section \<open>Appeals\<close>

definition appeal_row :: "QualityAppeal \<Rightarrow> string \<Rightarrow> time \<Rightarrow> QualityAppeal" where
  "appeal_row a missionID now = a\<lparr>ap_MissionID := missionID, ap_Status := AppealPending, ap_Resolution := '''', ap_ReviewerID := '''',
     ap_CorrectionSignal := '''', ap_CreatedAt := pg_time now, ap_ResolvedAt := None\<rparr>"

definition pg_CreateQualityAppeal :: "QualityAppeal \<Rightarrow> Actor \<Rightarrow> time \<Rightarrow> Db \<Rightarrow> QualityAppeal sql" where
  "pg_CreateQualityAppeal a actor now = tx (\<lambda>db.
     one_row (fmlookup (db_quality db) (ap_ArtifactID a)) ErrNotFound (\<lambda>q db.
       if refers (db_appeals db) (ap_ID a) then (Inl ErrDuplicate, db)
       else
         let db = db\<lparr>db_appeals := fmupd (ap_ID a) (appeal_row a (q_MissionID q) now) (db_appeals db)\<rparr>;
             a = a\<lparr>ap_MissionID := q_MissionID q, ap_Status := AppealPending, ap_CreatedAt := now\<rparr>
         in (Inr a, pg_appendEvent (ap_ID a) (ap_MissionID a) ''quality.appeal.created''
              (fmap_of_list [(''appeal_id'', VStr (ap_ID a)), (''artifact_id'', VStr (ap_ArtifactID a)),
                (''appellant_id'', VStr (ap_AppellantID a))]) actor now db)) db)"

definition pg_ListQualityAppeals :: "string \<Rightarrow> bool \<Rightarrow> Db \<Rightarrow> QualityAppeal list" where
  "pg_ListQualityAppeals missionID pendingOnly db =
     sort_slice (created_less ap_CreatedAt ap_ID)
       (filter (\<lambda>a. (missionID = '''' \<or> ap_MissionID a = missionID) \<and> (pendingOnly \<longrightarrow> ap_Status a = AppealPending))
         (map_values sorted_list_of_fset (db_appeals db)))"

definition appeal_status_ok :: "string \<Rightarrow> bool" where
  "appeal_status_ok st \<longleftrightarrow> st = AppealPending \<or> st = AppealUpheld \<or> st = AppealOverturned"

definition pg_ResolveQualityAppeal ::
  "string \<Rightarrow> string \<Rightarrow> string \<Rightarrow> string \<Rightarrow> Actor \<Rightarrow> time \<Rightarrow> Db \<Rightarrow> QualityAppeal sql" where
  "pg_ResolveQualityAppeal ident status resolution reviewerID actor now = tx (\<lambda>db.
     case fmlookup (db_appeals db) ident of
       None \<Rightarrow> (Inl ErrNotFound, db)
     | Some a \<Rightarrow>
         if ap_Status a \<noteq> AppealPending then (Inl ErrConflict, db)
         else if \<not> appeal_status_ok status then (Inl sql_error, db)
         else
           let a = a\<lparr>ap_Status := status, ap_Resolution := resolution, ap_ReviewerID := reviewerID, ap_ResolvedAt := Some (pg_time now)\<rparr>
           in (Inr a, pg_appendEvent (ap_ID a) (ap_MissionID a) ''quality.appeal.resolved''
                (fmap_of_list [(''appeal_id'', VStr (ap_ID a)), (''artifact_id'', VStr (ap_ArtifactID a)), (''status'', VStr status)])
                actor now (db\<lparr>db_appeals := fmupd ident a (db_appeals db)\<rparr>)))"

end
