(* ===== verification/PgWf.thy ===== *)
theory PgWf
  imports PgBoard MemWf
begin

text \<open>
  Well-formed databases and what the database never takes back. \<open>pg_wf\<close> says that rows sit under their keys, the event numbers
  rise, a lease has the id of its token and an ACTIVE lease the newest token of its subtask, and the budget rows balance the
  holds; \<open>pg_history\<close> relates a database to a later one. The second half shows which writes keep both.
\<close>

section \<open>Well-formed databases\<close>

definition pg_keys :: "Db \<Rightarrow> bool" where
  "pg_keys db \<longleftrightarrow> keyed_by m_ID (db_missions db) \<and> keyed_by st_ID (db_subtasks db) \<and> keyed_by l_ID (db_leases db)
     \<and> keyed_by d_ID (db_decisions db) \<and> keyed_by i_ID (db_inbox db) \<and> keyed_by h_ID (db_holds db)"

definition pg_log :: "Db \<Rightarrow> bool" where
  "pg_log db \<longleftrightarrow> sorted_wrt (<) (map e_Seq (db_events db)) \<and> (\<forall>e \<in> set (db_events db). 1 \<le> e_Seq e \<and> e_Seq e \<le> db_event_seq db)
     \<and> 0 \<le> db_event_seq db"

text \<open>\<open>newest_wf\<close> of the in-memory store, and the ids and tokens of the rows.\<close>

definition pg_leases :: "Db \<Rightarrow> bool" where
  "pg_leases db \<longleftrightarrow> newest_wf (db_leases db) \<and> 0 \<le> db_fencing_seq db
     \<and> (\<forall>k l. fmlookup (db_leases db) k = Some l \<longrightarrow> k = pg_lease_id (l_FencingToken l)
          \<and> 1 \<le> l_FencingToken l \<and> l_FencingToken l \<le> db_fencing_seq db)"

definition pg_account :: "BudgetHold table \<Rightarrow> string \<Rightarrow> BudgetAccount \<Rightarrow> bool" where
  "pg_account H m b \<longleftrightarrow> in_int64 (ba_Total b) \<and> 0 \<le> ba_Spent b \<and> ba_Held b = held H m \<and> ba_Held b + ba_Spent b \<le> ba_Total b"

definition pg_hold :: "Db \<Rightarrow> BudgetHold \<Rightarrow> bool" where
  "pg_hold db h \<longleftrightarrow> 0 < h_Amount h \<and> fmlookup (db_budgets db) (h_MissionID h) \<noteq> None
     \<and> (case fmlookup (db_subtasks db) (h_SubtaskID h) of None \<Rightarrow> False | Some sub \<Rightarrow> st_MissionID sub = h_MissionID h)"

definition pg_budgets :: "Db \<Rightarrow> bool" where
  "pg_budgets db \<longleftrightarrow> (\<forall>k b. fmlookup (db_budgets db) k = Some b \<longrightarrow> pg_account (db_holds db) k b)
     \<and> (\<forall>k h. fmlookup (db_holds db) k = Some h \<longrightarrow> pg_hold db h)"

text \<open>A subtask points to one of its own leases or to none.\<close>

definition own_lease :: "Lease table \<Rightarrow> string \<Rightarrow> string \<Rightarrow> bool" where
  "own_lease L k lid \<longleftrightarrow> lid = [] \<or> (\<exists>l. fmlookup L lid = Some l \<and> l_SubtaskID l = k)"

definition pg_owners :: "Db \<Rightarrow> bool" where
  "pg_owners db \<longleftrightarrow> (\<forall>k sub. fmlookup (db_subtasks db) k = Some sub \<longrightarrow> own_lease (db_leases db) k (st_LeaseID sub))"

definition pg_wf :: "Db \<Rightarrow> bool" where
  "pg_wf db \<longleftrightarrow> pg_keys db \<and> pg_log db \<and> pg_leases db \<and> pg_owners db \<and> pg_budgets db"

section \<open>The history of a database\<close>

text \<open>A lease that is not ACTIVE stays so; a sweep may still change one final state of it into another.\<close>

definition pg_lease_le :: "Lease \<Rightarrow> Lease \<Rightarrow> bool" where
  "pg_lease_le a b \<longleftrightarrow> b = a\<lparr>l_State := l_State b, l_ExpiresAt := l_ExpiresAt b\<rparr> \<and> (l_State a \<noteq> LeaseActive \<longrightarrow> l_State b \<noteq> LeaseActive)"

definition pg_history :: "Db \<Rightarrow> Db \<Rightarrow> bool" where
  "pg_history a b \<longleftrightarrow> (\<exists>es. db_events b = db_events a @ es)
     \<and> evolves subtask_le (db_subtasks a) (db_subtasks b) \<and> evolves pg_lease_le (db_leases a) (db_leases b)
     \<and> evolves mission_le (db_missions a) (db_missions b) \<and> evolves decision_le (db_decisions a) (db_decisions b)
     \<and> evolves inbox_le (db_inbox a) (db_inbox b) \<and> evolves hold_le (db_holds a) (db_holds b)
     \<and> evolves account_le (db_budgets a) (db_budgets b) \<and> evolves (=) (db_idem a) (db_idem b)
     \<and> evolves (=) (db_artifacts a) (db_artifacts b) \<and> evolves (=) (db_quality a) (db_quality b)
     \<and> evolves (=) (db_meters a) (db_meters b) \<and> evolves (=) (db_contexts a) (db_contexts b)
     \<and> db_event_seq a \<le> db_event_seq b \<and> db_fencing_seq a \<le> db_fencing_seq b"

lemma pg_lease_le_refl [simp]: "pg_lease_le l l"
  by (simp add: pg_lease_le_def)

lemma pg_lease_le_trans: "pg_lease_le a b \<Longrightarrow> pg_lease_le b c \<Longrightarrow> pg_lease_le a c"
  by (cases a; cases b; cases c) (auto simp: pg_lease_le_def)

lemma pg_lease_le_state: "l_State l = LeaseActive \<or> x \<noteq> LeaseActive \<Longrightarrow> pg_lease_le l (l\<lparr>l_State := x\<rparr>)"
  by (auto simp: pg_lease_le_def)

lemma pg_lease_le_extend: "pg_lease_le l (l\<lparr>l_ExpiresAt := x\<rparr>)"
  by (simp add: pg_lease_le_def)

lemma pg_lease_le_fields:
  "pg_lease_le a b \<Longrightarrow> l_ID b = l_ID a \<and> l_SubtaskID b = l_SubtaskID a \<and> l_FencingToken b = l_FencingToken a
     \<and> l_AgentID b = l_AgentID a"
  by (cases a; cases b) (auto simp: pg_lease_le_def)

lemma pg_history_refl [simp]: "pg_history db db"
  by (simp add: pg_history_def evolves_refl)

lemma pg_history_trans: "pg_history a b \<Longrightarrow> pg_history b c \<Longrightarrow> pg_history a c"
  unfolding pg_history_def
  by (auto elim!: evolves_trans subtask_le_trans pg_lease_le_trans mission_le_trans decision_le_trans
      inbox_le_trans hold_le_trans account_le_trans)

lemma pg_history_rollback:
  "pg_history a u \<Longrightarrow> pg_history u v \<Longrightarrow> pg_history a (rollback u v)"
  by (auto simp: pg_history_def rollback_def)

section \<open>Databases a run can lead to\<close>

text \<open>\<open>pg_ok a u\<close>: both are well formed and \<open>u\<close> can follow \<open>a\<close>.\<close>

definition pg_ok :: "Db \<Rightarrow> Db \<Rightarrow> bool" where
  "pg_ok a u \<longleftrightarrow> pg_wf a \<and> pg_wf u \<and> pg_history a u"

lemma pg_okD: "pg_ok a u \<Longrightarrow> pg_wf u" "pg_ok a u \<Longrightarrow> pg_wf a" "pg_ok a u \<Longrightarrow> pg_history a u"
  by (simp_all add: pg_ok_def)

lemma pg_ok_refl: "pg_ok a u \<Longrightarrow> pg_ok u u"
  by (simp add: pg_ok_def)

lemma pg_ok_trans: "pg_ok a u \<Longrightarrow> pg_ok u v \<Longrightarrow> pg_ok a v"
  by (auto simp: pg_ok_def elim: pg_history_trans)

lemma pg_wf_rollback: "pg_wf u \<Longrightarrow> pg_history u v \<Longrightarrow> pg_wf (rollback u v)"
  by (fastforce simp: pg_wf_def pg_keys_def pg_log_def pg_leases_def pg_owners_def pg_budgets_def pg_hold_def rollback_def pg_history_def)

lemma pg_ok_rollback: "pg_ok a u \<Longrightarrow> pg_ok u v \<Longrightarrow> pg_ok a (rollback u v)"
  by (auto simp: pg_ok_def intro: pg_wf_rollback pg_history_rollback)

section \<open>Writes that keep a database well formed\<close>

lemma pg_ok_event: "pg_ok a u \<Longrightarrow> pg_ok a (pg_appendEvent ag mi ty pl ac now u)"
  by (fastforce simp: pg_ok_def pg_wf_def pg_keys_def pg_log_def pg_leases_def pg_owners_def pg_budgets_def pg_hold_def pg_history_def pg_appendEvent_def
      sorted_wrt_append)

lemma pg_ok_fence: "pg_ok a u \<Longrightarrow> pg_ok a (u\<lparr>db_fencing_seq := db_fencing_seq u + 1\<rparr>)"
  by (fastforce simp: pg_ok_def pg_wf_def pg_keys_def pg_log_def pg_leases_def pg_owners_def pg_budgets_def pg_hold_def pg_history_def)

lemma pg_ok_free:
  "pg_ok a u \<Longrightarrow> pg_ok a (u\<lparr>db_agents := A\<rparr>)" "pg_ok a u \<Longrightarrow> pg_ok a (u\<lparr>db_board := B\<rparr>)"
  "pg_ok a u \<Longrightarrow> pg_ok a (u\<lparr>db_appeals := V\<rparr>)" "pg_ok a u \<Longrightarrow> pg_ok a (u\<lparr>db_signals := G, db_reputations := R\<rparr>)"
  by (simp_all add: pg_ok_def pg_wf_def pg_keys_def pg_log_def pg_leases_def pg_owners_def pg_budgets_def pg_hold_def pg_history_def)

lemma pg_ok_once:
  "pg_ok a u \<Longrightarrow> fmlookup (db_idem u) k = None \<Longrightarrow> pg_ok a (u\<lparr>db_idem := fmupd k x (db_idem u)\<rparr>)"
  "pg_ok a u \<Longrightarrow> fmlookup (db_artifacts u) k = None \<Longrightarrow> pg_ok a (u\<lparr>db_artifacts := fmupd k art (db_artifacts u)\<rparr>)"
  "pg_ok a u \<Longrightarrow> fmlookup (db_quality u) k = None \<Longrightarrow> pg_ok a (u\<lparr>db_quality := fmupd k q (db_quality u)\<rparr>)"
  "pg_ok a u \<Longrightarrow> fmlookup (db_meters u) k = None \<Longrightarrow> pg_ok a (u\<lparr>db_meters := fmupd k m (db_meters u)\<rparr>)"
  "pg_ok a u \<Longrightarrow> fmlookup (db_contexts u) k = None \<Longrightarrow> pg_ok a (u\<lparr>db_contexts := fmupd k c (db_contexts u)\<rparr>)"
  by (auto simp: pg_ok_def pg_wf_def pg_keys_def pg_log_def pg_leases_def pg_owners_def pg_budgets_def pg_hold_def pg_history_def intro!: evolves_upd)

lemma pg_ok_subtask:
  assumes "pg_ok a u" "case fmlookup (db_subtasks u) k of None \<Rightarrow> st_ID v = k | Some old \<Rightarrow> subtask_le old v"
    "own_lease (db_leases u) k (st_LeaseID v)"
  shows "pg_ok a (u\<lparr>db_subtasks := fmupd k v (db_subtasks u)\<rparr>)"
proof -
  have "keyed_by st_ID (fmupd k v (db_subtasks u))"
    using assms by (intro keyed_by_upd)
      (auto simp: pg_ok_def pg_wf_def pg_keys_def subtask_le_def dest: keyed_byD split: option.splits)
  moreover have "evolves subtask_le (db_subtasks a) (fmupd k v (db_subtasks u))"
    using assms by (intro evolves_upd) (auto simp: pg_ok_def pg_history_def elim: subtask_le_trans)
  moreover have "pg_budgets (u\<lparr>db_subtasks := fmupd k v (db_subtasks u)\<rparr>)"
    unfolding pg_budgets_def
  proof (intro conjI allI impI)
    fix j h assume h: "fmlookup (db_holds (u\<lparr>db_subtasks := fmupd k v (db_subtasks u)\<rparr>)) j = Some h"
    then have "pg_hold u h" using assms(1) by (auto simp: pg_ok_def pg_wf_def pg_budgets_def)
    then show "pg_hold (u\<lparr>db_subtasks := fmupd k v (db_subtasks u)\<rparr>) h"
      using assms(2) by (auto simp: pg_hold_def subtask_le_def split: option.splits)
  qed (use assms(1) in \<open>auto simp: pg_ok_def pg_wf_def pg_budgets_def\<close>)
  moreover have "pg_owners (u\<lparr>db_subtasks := fmupd k v (db_subtasks u)\<rparr>)"
    using assms(1,3) by (auto simp: pg_ok_def pg_wf_def pg_owners_def)
  ultimately show ?thesis
    using assms(1) by (simp add: pg_ok_def pg_wf_def pg_keys_def pg_log_def pg_leases_def pg_history_def)
qed

lemma own_lease_upd:
  "own_lease L k lid \<Longrightarrow> (case fmlookup L j of None \<Rightarrow> True | Some old \<Rightarrow> l_SubtaskID l = l_SubtaskID old) \<Longrightarrow> own_lease (fmupd j l L) k lid"
  by (auto simp: own_lease_def)

lemma pg_ok_lease:
  assumes "pg_ok a u" "case fmlookup (db_leases u) k of None \<Rightarrow> False | Some old \<Rightarrow> pg_lease_le old l"
  shows "pg_ok a (u\<lparr>db_leases := fmupd k l (db_leases u)\<rparr>)"
proof -
  obtain old where old: "fmlookup (db_leases u) k = Some old" "pg_lease_le old l"
    using assms(2) by (auto split: option.splits)
  note f = pg_lease_le_fields [OF old(2)]
  have wf: "pg_wf u" and hist: "pg_history a u" using assms(1) by (auto simp: pg_ok_def)
  have "keyed_by l_ID (fmupd k l (db_leases u))"
    using wf f old by (intro keyed_by_upd) (auto simp: pg_wf_def pg_keys_def dest: keyed_byD)
  moreover have "pg_leases (u\<lparr>db_leases := fmupd k l (db_leases u)\<rparr>)"
    using wf f old by (fastforce simp: pg_wf_def pg_leases_def newest_wf_def pg_lease_le_def)
  moreover have "pg_owners (u\<lparr>db_leases := fmupd k l (db_leases u)\<rparr>)"
    using wf f old by (auto simp: pg_wf_def pg_owners_def intro!: own_lease_upd)
  moreover have "evolves pg_lease_le (db_leases a) (fmupd k l (db_leases u))"
    using hist old by (intro evolves_upd) (auto simp: pg_history_def elim: pg_lease_le_trans)
  ultimately show ?thesis
    using wf hist pg_okD(2) [OF assms(1)] by (simp add: pg_ok_def pg_wf_def pg_keys_def pg_log_def pg_budgets_def pg_hold_def pg_history_def)
qed

lemma pg_ok_lease_insert:
  assumes "pg_ok a u" "fmlookup (db_leases u) k = None" "l_ID l = k" "k = pg_lease_id (l_FencingToken l)"
    and "l_FencingToken l = db_fencing_seq u" "0 < db_fencing_seq u"
    and "\<And>j x. fmlookup (db_leases u) j = Some x \<Longrightarrow> l_SubtaskID x = l_SubtaskID l \<Longrightarrow> l_State x \<noteq> LeaseActive"
  shows "pg_ok a (u\<lparr>db_leases := fmupd k l (db_leases u)\<rparr>)"
proof -
  have wf: "pg_wf u" and hist: "pg_history a u" using assms(1) by (auto simp: pg_ok_def)
  have "pg_leases (u\<lparr>db_leases := fmupd k l (db_leases u)\<rparr>)"
    using wf assms(2-) by (fastforce simp: pg_wf_def pg_leases_def newest_wf_def)
  moreover have "pg_owners (u\<lparr>db_leases := fmupd k l (db_leases u)\<rparr>)"
    using wf assms(2) by (auto simp: pg_wf_def pg_owners_def intro!: own_lease_upd)
  moreover have "evolves pg_lease_le (db_leases a) (fmupd k l (db_leases u))"
    using hist assms(2) by (intro evolves_upd) (auto simp: pg_history_def elim: pg_lease_le_trans)
  ultimately show ?thesis
    using wf hist pg_okD(2) [OF assms(1)] assms(3)
    by (simp add: pg_ok_def pg_wf_def pg_keys_def pg_log_def pg_budgets_def pg_hold_def pg_history_def keyed_by_upd)
qed

lemma mission_le_ID: "mission_le a b \<Longrightarrow> m_ID b = m_ID a"
  by (cases a; cases b) (auto simp: mission_le_def)

lemma pg_ok_rows:
  "pg_ok a u \<Longrightarrow> (case fmlookup (db_missions u) k of None \<Rightarrow> m_ID m = k | Some old \<Rightarrow> mission_le old m)
     \<Longrightarrow> pg_ok a (u\<lparr>db_missions := fmupd k m (db_missions u)\<rparr>)"
  "pg_ok a u \<Longrightarrow> (case fmlookup (db_decisions u) k of None \<Rightarrow> d_ID d = k | Some old \<Rightarrow> decision_le old d)
     \<Longrightarrow> pg_ok a (u\<lparr>db_decisions := fmupd k d (db_decisions u)\<rparr>)"
  "pg_ok a u \<Longrightarrow> (case fmlookup (db_inbox u) k of None \<Rightarrow> i_ID i = k | Some old \<Rightarrow> inbox_le old i)
     \<Longrightarrow> pg_ok a (u\<lparr>db_inbox := fmupd k i (db_inbox u)\<rparr>)"
proof -
  assume "pg_ok a u" "case fmlookup (db_missions u) k of None \<Rightarrow> m_ID m = k | Some old \<Rightarrow> mission_le old m"
  then have "keyed_by m_ID (fmupd k m (db_missions u))" "evolves mission_le (db_missions a) (fmupd k m (db_missions u))"
    by (auto simp: pg_ok_def pg_wf_def pg_keys_def pg_history_def dest: keyed_byD mission_le_ID split: option.splits
        intro!: keyed_by_upd evolves_upd elim: mission_le_trans)
  with \<open>pg_ok a u\<close> show "pg_ok a (u\<lparr>db_missions := fmupd k m (db_missions u)\<rparr>)"
    by (simp add: pg_ok_def pg_wf_def pg_keys_def pg_log_def pg_leases_def pg_owners_def pg_budgets_def pg_hold_def pg_history_def)
next
  assume "pg_ok a u" "case fmlookup (db_decisions u) k of None \<Rightarrow> d_ID d = k | Some old \<Rightarrow> decision_le old d"
  then have "keyed_by d_ID (fmupd k d (db_decisions u))" "evolves decision_le (db_decisions a) (fmupd k d (db_decisions u))"
    by (auto simp: pg_ok_def pg_wf_def pg_keys_def pg_history_def decision_le_def dest: keyed_byD split: option.splits
        intro!: keyed_by_upd evolves_upd)
  with \<open>pg_ok a u\<close> show "pg_ok a (u\<lparr>db_decisions := fmupd k d (db_decisions u)\<rparr>)"
    by (simp add: pg_ok_def pg_wf_def pg_keys_def pg_log_def pg_leases_def pg_owners_def pg_budgets_def pg_hold_def pg_history_def)
next
  assume "pg_ok a u" "case fmlookup (db_inbox u) k of None \<Rightarrow> i_ID i = k | Some old \<Rightarrow> inbox_le old i"
  then have "keyed_by i_ID (fmupd k i (db_inbox u))" "evolves inbox_le (db_inbox a) (fmupd k i (db_inbox u))"
    by (auto simp: pg_ok_def pg_wf_def pg_keys_def pg_history_def inbox_le_def dest: keyed_byD split: option.splits
        intro!: keyed_by_upd evolves_upd)
  with \<open>pg_ok a u\<close> show "pg_ok a (u\<lparr>db_inbox := fmupd k i (db_inbox u)\<rparr>)"
    by (simp add: pg_ok_def pg_wf_def pg_keys_def pg_log_def pg_leases_def pg_owners_def pg_budgets_def pg_hold_def pg_history_def)
qed

text \<open>
  Budget rows and holds move together: opening an account, placing, settling and releasing a hold keep the sum of the HELD
  holds equal to the held column, and the 64-bit arithmetic of the client never wraps.
\<close>

section \<open>The sum of the holds\<close>

lemma pg_wf_account: "pg_wf u \<Longrightarrow> fmlookup (db_budgets u) k = Some b \<Longrightarrow> pg_account (db_holds u) k b"
  by (simp add: pg_wf_def pg_budgets_def)

lemma pg_wf_hold: "pg_wf u \<Longrightarrow> fmlookup (db_holds u) k = Some h \<Longrightarrow> pg_hold u h"
  by (simp add: pg_wf_def pg_budgets_def)

lemma pg_held_nonneg:
  assumes "pg_wf u"
  shows "0 \<le> held (db_holds u) m"
  unfolding held_def
  by (rule sum_nonneg) (use assms in \<open>auto simp: pg_wf_def pg_budgets_def pg_hold_def hold_part_def fmlookup_dom_iff less_imp_le\<close>)

lemma pg_held_ge:
  assumes "pg_wf u" "fmlookup (db_holds u) k = Some h" "h_Status h = BudgetHoldHeld" "h_MissionID h = m"
  shows "h_Amount h \<le> held (db_holds u) m"
proof -
  have "hold_part m (the (fmlookup (db_holds u) k)) \<le> held (db_holds u) m"
    unfolding held_def
    by (rule member_le_sum)
      (use assms in \<open>auto simp: pg_wf_def pg_budgets_def pg_hold_def hold_part_def fmlookup_dom_iff less_imp_le\<close>)
  with assms show ?thesis by (simp add: hold_part_def)
qed

lemma pg_held_none:
  assumes "pg_wf u" "fmlookup (db_budgets u) m = None"
  shows "held (db_holds u) m = 0"
  unfolding held_def
proof (rule sum.neutral, rule ballI)
  fix k assume "k \<in> fset (fmdom (db_holds u))"
  then obtain h where "fmlookup (db_holds u) k = Some h" by (auto simp: fmlookup_dom_iff)
  with assms pg_wf_hold [OF assms(1) this] show "hold_part m (the (fmlookup (db_holds u) k)) = 0"
    by (auto simp: pg_hold_def hold_part_def)
qed

lemma pg_account:
  assumes "pg_wf u" "fmlookup (db_budgets u) m = Some b"
  shows "in_int64 (ba_Total b)" "0 \<le> ba_Spent b" "0 \<le> ba_Held b" "ba_Held b = held (db_holds u) m"
    "ba_Held b + ba_Spent b \<le> ba_Total b"
  using pg_wf_account [OF assms] pg_held_nonneg [OF assms(1), of m] by (simp_all add: pg_account_def)

lemma pg_available_exact:
  assumes "pg_wf u" "fmlookup (db_budgets u) m = Some b"
  shows "pg_available b = ba_Total b - ba_Held b - ba_Spent b"
proof -
  note acc = pg_account [OF assms]
  have "in_int64 (ba_Total b - ba_Held b)" "in_int64 (ba_Total b - ba_Held b - ba_Spent b)"
    using acc by (auto simp: in_int64_def)
  then show ?thesis by (simp add: pg_available_def wrap64_id)
qed

section \<open>Writes\<close>

lemma pg_ok_open:
  assumes "pg_ok a u" "fmlookup (db_budgets u) m = None" "in_int64 (ba_Total b)" "0 < ba_Total b" "ba_Held b = 0" "ba_Spent b = 0"
  shows "pg_ok a (u\<lparr>db_budgets := fmupd m b (db_budgets u)\<rparr>)"
proof -
  have wf: "pg_wf u" and hist: "pg_history a u" using assms(1) by (auto simp: pg_ok_def)
  have "pg_account (db_holds u) k x" if "fmlookup (fmupd m b (db_budgets u)) k = Some x" for k x
    using that pg_wf_account [OF wf, of k x] pg_held_none [OF wf assms(2)] assms(3-) by (cases "k = m") (auto simp: pg_account_def)
  moreover have "pg_hold (u\<lparr>db_budgets := fmupd m b (db_budgets u)\<rparr>) h" if "fmlookup (db_holds u) k = Some h" for k h
    using pg_wf_hold [OF wf that] by (auto simp: pg_hold_def)
  ultimately have "pg_budgets (u\<lparr>db_budgets := fmupd m b (db_budgets u)\<rparr>)"
    by (simp add: pg_budgets_def)
  moreover have "evolves account_le (db_budgets a) (fmupd m b (db_budgets u))"
    using hist assms(2) by (intro evolves_upd) (auto simp: pg_history_def elim: account_le_trans)
  ultimately show ?thesis
    using wf hist pg_okD(2) [OF assms(1)] by (simp add: pg_ok_def pg_wf_def pg_keys_def pg_log_def pg_leases_def pg_owners_def pg_history_def)
qed

text \<open>An account and one hold of its mission change together.\<close>

lemma pg_ok_transfer:
  assumes ok: "pg_ok a u" and acc: "fmlookup (db_budgets u) m = Some b"
    and hold: "case fmlookup (db_holds u) k of None \<Rightarrow> h_ID h = k \<and> pg_hold u h
        | Some old \<Rightarrow> hold_le old h \<and> h_SubtaskID h = h_SubtaskID old" and hm: "h_MissionID h = m"
    and b': "account_le b b'" "ba_Total b' = ba_Total b"
      "ba_Held b' = ba_Held b + hold_part m h - (case fmlookup (db_holds u) k of None \<Rightarrow> 0 | Some old \<Rightarrow> hold_part m old)"
      "0 \<le> ba_Spent b'" "ba_Held b' + ba_Spent b' \<le> ba_Total b'"
  shows "pg_ok a (u\<lparr>db_budgets := fmupd m b' (db_budgets u), db_holds := fmupd k h (db_holds u)\<rparr>)"
proof -
  let ?u = "u\<lparr>db_budgets := fmupd m b' (db_budgets u), db_holds := fmupd k h (db_holds u)\<rparr>"
  have wf: "pg_wf u" and hist: "pg_history a u" using ok by (auto simp: pg_ok_def)
  have old: "h_MissionID x = m" if "fmlookup (db_holds u) k = Some x" for x
    using hold hm that by (auto simp: hold_le_def)
  have other: "held (fmupd k h (db_holds u)) j = held (db_holds u) j" if "j \<noteq> m" for j
    using old hm that by (auto simp: held_upd hold_part_def split: option.splits)
  have mine: "held (fmupd k h (db_holds u)) m = ba_Held b'"
    using pg_account(4) [OF wf acc] b'(3) by (auto simp: held_upd split: option.splits)
  have "pg_budgets ?u"
    unfolding pg_budgets_def
  proof (intro conjI allI impI)
    fix j x assume j: "fmlookup (db_budgets ?u) j = Some x"
    then show "pg_account (db_holds ?u) j x"
      using pg_account [OF wf acc] b' mine other pg_wf_account [OF wf, of j x] by (cases "j = m") (auto simp: pg_account_def)
  next
    fix j x assume j: "fmlookup (db_holds ?u) j = Some x"
    have "pg_hold u x"
    proof (cases "j = k")
      case False
      then show ?thesis using j pg_wf_hold [OF wf] by auto
    next
      case True
      then have "x = h" using j by simp
      with hold wf hm show ?thesis
        using pg_wf_hold [OF wf, of k] by (cases "fmlookup (db_holds u) k") (auto simp: pg_hold_def hold_le_def split: option.splits)
    qed
    then show "pg_hold ?u x" by (auto simp: pg_hold_def)
  qed
  moreover have "keyed_by h_ID (fmupd k h (db_holds u))"
    using wf hold by (intro keyed_by_upd) (auto simp: pg_wf_def pg_keys_def hold_le_def dest: keyed_byD split: option.splits)
  moreover have "evolves hold_le (db_holds a) (fmupd k h (db_holds u))" "evolves account_le (db_budgets a) (fmupd m b' (db_budgets u))"
    using hist hold acc b'(1) by (auto simp: pg_history_def intro!: evolves_upd elim: hold_le_trans account_le_trans)
  ultimately show ?thesis
    using wf hist pg_okD(2) [OF ok] by (simp add: pg_ok_def pg_wf_def pg_keys_def pg_log_def pg_leases_def pg_owners_def pg_history_def)
qed

section \<open>The statements on holds\<close>

lemma hold_of_lookup:
  assumes "pg_wf u" "hold_of k u = Some h"
  shows "fmlookup (db_holds u) (h_ID h) = Some h" "h_SubtaskID h = k"
proof -
  have "h \<in> set (map_values sorted_list_of_fset (db_holds u))" "h_SubtaskID h = k"
    using assms(2) by (auto simp: hold_of_def find_Some_iff)
  then obtain j where "fmlookup (db_holds u) j = Some h" by (auto simp: set_map_values valid_order_sorted)
  moreover from this have "h_ID h = j" using assms(1) by (auto simp: pg_wf_def pg_keys_def dest: keyed_byD)
  ultimately show "fmlookup (db_holds u) (h_ID h) = Some h" by simp
  show "h_SubtaskID h = k" by fact
qed

text \<open>The mission of a row, in the database or in the caller's copy of the row.\<close>

definition row_of :: "Db \<Rightarrow> Subtask \<Rightarrow> bool" where
  "row_of u sub \<longleftrightarrow> (case fmlookup (db_subtasks u) (st_ID sub) of None \<Rightarrow> False | Some x \<Rightarrow> st_MissionID x = st_MissionID sub)"

lemma hold_of_mission:
  assumes "pg_wf u" "hold_of (st_ID sub) u = Some h" "row_of u sub"
  shows "h_MissionID h = st_MissionID sub"
  using assms hold_of_lookup [OF assms(1,2)]
  by (auto simp: pg_wf_def pg_budgets_def pg_hold_def row_of_def split: option.splits)

lemma pg_ok_settle:
  assumes ok: "pg_ok a u" and row: "row_of u sub"
  shows "pg_ok a (snd (settleBudgetHold sub usage actor now u))"
proof (cases "hold_of (st_ID sub) u")
  case None
  then show ?thesis using ok by (simp add: settleBudgetHold_def)
next
  case (Some h)
  show ?thesis
  proof (cases "h_Status h = BudgetHoldHeld \<and> 0 \<le> usage \<and> fmlookup (db_budgets u) (st_MissionID sub) \<noteq> None")
    case False
    then show ?thesis using ok Some by (auto simp: settleBudgetHold_def one_row_def split: option.split)
  next
    case True
    have wf: "pg_wf u" using ok by (simp add: pg_ok_def)
    obtain b where b: "fmlookup (db_budgets u) (st_MissionID sub) = Some b" using True by auto
    note look = hold_of_lookup [OF wf Some] and m = hold_of_mission [OF wf Some row] and acc = pg_account [OF wf b]
    have ge: "h_Amount h \<le> ba_Held b" using pg_held_ge [OF wf look(1) _ m] True acc by simp
    have pos: "0 < h_Amount h" using wf look by (auto simp: pg_wf_def pg_budgets_def pg_hold_def)
    have w: "wrap64 (ba_Held b - h_Amount h) = ba_Held b - h_Amount h"
      "wrap64 (ba_Total b - ba_Spent b) = ba_Total b - ba_Spent b"
      "wrap64 (ba_Total b - ba_Spent b - (ba_Held b - h_Amount h)) = ba_Total b - ba_Spent b - (ba_Held b - h_Amount h)"
      using acc ge pos by (auto intro!: wrap64_id simp: in_int64_def)
    have w2: "wrap64 (ba_Spent b + usage) = ba_Spent b + usage"
      if "usage \<le> ba_Total b - ba_Spent b - (ba_Held b - h_Amount h)"
      using acc ge pos that True by (intro wrap64_id) (auto simp: in_int64_def)
    let ?b = "b\<lparr>ba_Held := ba_Held b - h_Amount h, ba_Spent := ba_Spent b + usage, ba_Version := ba_Version b + 1,
      ba_UpdatedAt := pg_time now\<rparr>"
    let ?h = "h\<lparr>h_Actual := usage, h_Status := BudgetHoldSettled, h_SettledAt := Some (pg_time now)\<rparr>"
    have "pg_ok a (u\<lparr>db_budgets := fmupd (st_MissionID sub) ?b (db_budgets u), db_holds := fmupd (h_ID h) ?h (db_holds u)\<rparr>)"
      if "usage \<le> ba_Total b - ba_Spent b - (ba_Held b - h_Amount h)"
      by (rule pg_ok_transfer [OF ok b])
        (use look m True that acc in \<open>auto simp: hold_le_def account_le_def hold_part_def\<close>)
    then show ?thesis
      using ok Some b True ge acc(1-3,5) look
      by (auto simp: settleBudgetHold_def one_row_def Let_def w w2 update_budget_def budget_checks_def update_hold_def
          intro: pg_ok_event)
  qed
qed

lemma pg_ok_release:
  assumes ok: "pg_ok a u" and row: "row_of u sub"
  shows "pg_ok a (snd (releaseBudgetHold sub reason actor now u))"
proof (cases "hold_of (st_ID sub) u")
  case None
  then show ?thesis using ok by (simp add: releaseBudgetHold_def)
next
  case (Some h)
  show ?thesis
  proof (cases "h_Status h = BudgetHoldHeld \<and> fmlookup (db_budgets u) (st_MissionID sub) \<noteq> None")
    case False
    then show ?thesis using ok Some by (auto simp: releaseBudgetHold_def one_row_def split: option.split)
  next
    case True
    have wf: "pg_wf u" using ok by (simp add: pg_ok_def)
    obtain b where b: "fmlookup (db_budgets u) (st_MissionID sub) = Some b" using True by auto
    note look = hold_of_lookup [OF wf Some] and m = hold_of_mission [OF wf Some row] and acc = pg_account [OF wf b]
    have ge: "h_Amount h \<le> ba_Held b" using pg_held_ge [OF wf look(1) _ m] True acc by simp
    have pos: "0 < h_Amount h" using wf look by (auto simp: pg_wf_def pg_budgets_def pg_hold_def)
    let ?b = "b\<lparr>ba_Held := ba_Held b - h_Amount h, ba_Version := ba_Version b + 1, ba_UpdatedAt := pg_time now\<rparr>"
    let ?h = "h\<lparr>h_Status := BudgetHoldReleased, h_SettledAt := Some (pg_time now)\<rparr>"
    have "pg_ok a (u\<lparr>db_budgets := fmupd (st_MissionID sub) ?b (db_budgets u), db_holds := fmupd (h_ID h) ?h (db_holds u)\<rparr>)"
      by (rule pg_ok_transfer [OF ok b])
        (use look m True acc pos in \<open>auto simp: hold_le_def account_le_def hold_part_def\<close>)
    then show ?thesis
      using ok Some b True ge acc(1-3,5) look pos
      by (auto simp: releaseBudgetHold_def one_row_def Let_def update_budget_def budget_checks_def update_hold_def
          intro: pg_ok_event)
  qed
qed

lemma pg_ok_place:
  assumes ok: "pg_ok a u" and row: "row_of u child" and b: "fmlookup (db_budgets u) (st_MissionID child) = Some b"
    and amount: "BudgetTokens (st_Scheduling child) \<le> pg_available b"
  shows "pg_ok a (snd (pg_place_hold b child actor now u))"
proof -
  have wf: "pg_wf u" using ok by (simp add: pg_ok_def)
  note acc = pg_account [OF wf b] and av = pg_available_exact [OF wf b]
  let ?n = "BudgetTokens (st_Scheduling child)"
  let ?h = "\<lparr>h_ID = BudgetHoldID (st_ID child), h_MissionID = st_MissionID child, h_SubtaskID = st_ID child,
    h_Attempt = st_Attempt child, h_Amount = ?n, h_Actual = 0, h_Status = BudgetHoldHeld, h_CreatedAt = pg_time now, h_SettledAt = None\<rparr>"
  let ?b = "b\<lparr>ba_Held := ba_Held b + ?n, ba_Version := ba_Version b + 1, ba_UpdatedAt := pg_time now\<rparr>"
  have swap: "u\<lparr>db_holds := H, db_budgets := B\<rparr> = u\<lparr>db_budgets := B, db_holds := H\<rparr>" for H B by simp
  have "pg_ok a (u\<lparr>db_holds := fmupd (BudgetHoldID (st_ID child)) ?h (db_holds u), db_budgets := fmupd (st_MissionID child) ?b (db_budgets u)\<rparr>)"
    if "0 < ?n" "fmlookup (db_holds u) (BudgetHoldID (st_ID child)) = None"
    unfolding swap by (rule pg_ok_transfer [OF ok b])
      (use that row b acc av amount in \<open>auto simp: account_le_def hold_part_def pg_hold_def row_of_def split: option.splits\<close>)
  then show ?thesis
    using ok b amount acc av
    by (auto simp: pg_place_hold_def Let_def insert_hold_def update_budget_def budget_checks_def refers_def
        intro: pg_ok_event)
qed

end
