(* ===== verification/PgInvariants.thy ===== *)
theory PgInvariants
  imports PgWf
begin

text \<open>
  The contract between the statements of the PostgreSQL store and its methods. \<open>sql_writes\<close> lists the writes a relation between
  databases has to survive; inside it every method is shown, once, to keep any such relation. It is interpreted on \<open>pg_ok\<close>.
\<close>

section \<open>Steps and runs\<close>

text \<open>
  The runs of the PostgreSQL store: one rule per method that writes, committed one after the other, and what runs from the migrated
  database reach. The arguments are arbitrary where the constraints of the tables protect the rows; amounts are 64-bit integers,
  and the callback of a generic transition keeps the state and the id it was given, and the lease or gives it up.
\<close>

definition pg_mutate_ok :: "(Subtask \<Rightarrow> error option \<times> Subtask) option \<Rightarrow> bool" where
  "pg_mutate_ok mutate \<longleftrightarrow> (\<forall>f sub. mutate = Some f \<longrightarrow> st_ID (snd (f sub)) = st_ID sub \<and> st_State (snd (f sub)) = st_State sub
     \<and> st_LeaseID (snd (f sub)) \<in> {st_LeaseID sub, ''''})"

inductive pg_step :: "Db \<Rightarrow> Db \<Rightarrow> bool" where
  pg_AppendEvent: "pg_step db (snd (pg_AppendEvent e db))"
| pg_PutIdempotent: "pg_step db (snd (pg_PutIdempotent key result db))"
| pg_CreateMission: "in_int64 (m_BudgetTokens m) \<Longrightarrow> pg_step db (snd (pg_CreateMission m subs actor now db))"
| pg_SetMissionStatus: "pg_step db (snd (pg_SetMissionStatus ident st version actor now db))"
| pg_TransitionSubtask: "pg_mutate_ok mutate
    \<Longrightarrow> pg_step db (snd (pg_TransitionSubtask jb ident ev version actor pl now mutate db))"
| pg_UpsertAgent: "pg_step db (snd (pg_UpsertAgent ag now db))"
| pg_HeartbeatAgent: "pg_step db (snd (pg_HeartbeatAgent ident now db))"
| pg_MarkAgentHealth: "pg_step db (snd (pg_MarkAgentHealth ident health db))"
| pg_ApplyReputationSignal: "pg_step db (snd (pg_ApplyReputationSignal sig now db))"
| pg_PutMeterRecord: "pg_step db (snd (pg_PutMeterRecord mt now db))"
| pg_OfferLease: "pg_step db (snd (pg_OfferLease jb dg ident agentID version ttl actor now db))"
| pg_AcceptLease: "pg_step db (snd (pg_AcceptLease jb lid tok version actor now db))"
| pg_StartSubtask: "pg_step db (snd (pg_StartSubtask jb ident tok version actor now db))"
| pg_BlockSubtask: "pg_step db (snd (pg_BlockSubtask jb ident tok version actor now db))"
| pg_RenewLease: "pg_step db (snd (pg_RenewLease lid tok ttl now db))"
| pg_ExpireLeases: "valid_order ord \<Longrightarrow> pg_step db (snd (pg_ExpireLeases ord now db))"
| pg_CompleteSubtaskWithUsage: "pg_step db (snd (pg_CompleteSubtaskWithUsage jb ident tok key ref usage version actor now db))"
| pg_CompleteSubtask: "pg_step db (snd (pg_CompleteSubtask jb ident tok key ref version actor now db))"
| pg_FailSubtask: "pg_step db (snd (pg_FailSubtask jb ident tok reason version actor now db))"
| pg_CancelSubtask: "pg_step db (snd (pg_CancelSubtask jb ident version actor now db))"
| pg_SpawnSubtask: "pg_step db (snd (pg_SpawnSubtask key parentID tok version child actor now db))"
| pg_IngestLeadInbox: "pg_step db (snd (pg_IngestLeadInbox itemID lead tok version mode actor now db))"
| pg_SaveLeadSnapshot: "pg_step db (snd (pg_SaveLeadSnapshot jb lead tok version val ttl actor now db))"
| pg_TakeoverStaleLeads: "pg_step db (snd (pg_TakeoverStaleLeads jb now db))"
| pg_SuspendSubtask: "pg_step db (snd (pg_SuspendSubtask jb ident tok version wake ckpt actor now db))"
| pg_WakeSubtask: "pg_step db (snd (pg_WakeSubtask jb ident version actor now db))"
| pg_ExpireWakes: "pg_step db (snd (pg_ExpireWakes jb now db))"
| pg_SaveCheckpoint: "pg_step db (snd (pg_SaveCheckpoint jb ident tok ckpt db))"
| pg_CreateDecision: "pg_step db (snd (pg_CreateDecision d now db))"
| pg_CreateDecisionAndBlock: "pg_step db (snd (pg_CreateDecisionAndBlock jb d version otok actor now db))"
| pg_ResolveDecision: "pg_step db (snd (pg_ResolveDecision ident choice rationale decider now db))"
| pg_ExpireDecisions: "valid_order ord \<Longrightarrow> pg_step db (snd (pg_ExpireDecisions ord now db))"
| pg_BoardPut: "pg_step db (snd (pg_BoardPut jb e version now db))"
| pg_PutArtifact: "pg_step db (snd (pg_PutArtifact art now db))"
| pg_RecordQuality: "pg_step db (snd (pg_RecordQuality q sigs actor now db))"
| pg_CreateQualityAppeal: "pg_step db (snd (pg_CreateQualityAppeal ap actor now db))"
| pg_ResolveQualityAppeal: "pg_step db (snd (pg_ResolveQualityAppeal ident status resolution reviewer actor now db))"

inductive pg_reaches :: "Db \<Rightarrow> Db \<Rightarrow> bool" where
  pg_reaches_refl: "pg_reaches db db"
| pg_reaches_step: "pg_reaches db db' \<Longrightarrow> pg_step db' db'' \<Longrightarrow> pg_reaches db db''"

section \<open>The contract of the writes\<close>

locale sql_writes =
  fixes ok :: "Db \<Rightarrow> Db \<Rightarrow> bool"
  assumes ok_wf: "ok a u \<Longrightarrow> pg_wf u"
    and ok_history_wf: "ok a u \<Longrightarrow> pg_wf a"
    and ok_history: "ok a u \<Longrightarrow> pg_history a u"
    and ok_refl: "ok a u \<Longrightarrow> ok u u"
    and ok_trans: "ok a u \<Longrightarrow> ok u v \<Longrightarrow> ok a v"
    and ok_rollback: "ok a u \<Longrightarrow> ok u v \<Longrightarrow> ok a (rollback u v)"
    and ok_event: "ok a u \<Longrightarrow> ok a (pg_appendEvent ag mi ty pl ac now u)"
    and ok_fence: "ok a u \<Longrightarrow> ok a (u\<lparr>db_fencing_seq := db_fencing_seq u + 1\<rparr>)"
    and ok_free: "ok a u \<Longrightarrow> ok a (u\<lparr>db_agents := A\<rparr>)" "ok a u \<Longrightarrow> ok a (u\<lparr>db_board := B\<rparr>)"
      "ok a u \<Longrightarrow> ok a (u\<lparr>db_appeals := V\<rparr>)" "ok a u \<Longrightarrow> ok a (u\<lparr>db_signals := G, db_reputations := R\<rparr>)"
    and ok_once: "ok a u \<Longrightarrow> fmlookup (db_idem u) k = None \<Longrightarrow> ok a (u\<lparr>db_idem := fmupd k x (db_idem u)\<rparr>)"
      "ok a u \<Longrightarrow> fmlookup (db_artifacts u) k = None \<Longrightarrow> ok a (u\<lparr>db_artifacts := fmupd k art (db_artifacts u)\<rparr>)"
      "ok a u \<Longrightarrow> fmlookup (db_quality u) k = None \<Longrightarrow> ok a (u\<lparr>db_quality := fmupd k q (db_quality u)\<rparr>)"
      "ok a u \<Longrightarrow> fmlookup (db_meters u) k = None \<Longrightarrow> ok a (u\<lparr>db_meters := fmupd k mt (db_meters u)\<rparr>)"
      "ok a u \<Longrightarrow> fmlookup (db_contexts u) k = None \<Longrightarrow> ok a (u\<lparr>db_contexts := fmupd k c (db_contexts u)\<rparr>)"
    and ok_subtask: "ok a u \<Longrightarrow> (case fmlookup (db_subtasks u) k of None \<Rightarrow> st_ID s = k | Some old \<Rightarrow> subtask_le old s)
      \<Longrightarrow> own_lease (db_leases u) k (st_LeaseID s) \<Longrightarrow> ok a (u\<lparr>db_subtasks := fmupd k s (db_subtasks u)\<rparr>)"
    and ok_lease: "ok a u \<Longrightarrow> (case fmlookup (db_leases u) k of None \<Rightarrow> False | Some old \<Rightarrow> pg_lease_le old l)
      \<Longrightarrow> ok a (u\<lparr>db_leases := fmupd k l (db_leases u)\<rparr>)"
    and ok_lease_insert: "ok a u \<Longrightarrow> fmlookup (db_leases u) k = None \<Longrightarrow> l_ID l = k \<Longrightarrow> k = pg_lease_id (l_FencingToken l)
      \<Longrightarrow> l_FencingToken l = db_fencing_seq u \<Longrightarrow> 0 < db_fencing_seq u
      \<Longrightarrow> (\<And>j x. fmlookup (db_leases u) j = Some x \<Longrightarrow> l_SubtaskID x = l_SubtaskID l \<Longrightarrow> l_State x \<noteq> LeaseActive)
      \<Longrightarrow> ok a (u\<lparr>db_leases := fmupd k l (db_leases u)\<rparr>)"
    and ok_rows: "ok a u \<Longrightarrow> (case fmlookup (db_missions u) k of None \<Rightarrow> m_ID m = k | Some old \<Rightarrow> mission_le old m)
      \<Longrightarrow> ok a (u\<lparr>db_missions := fmupd k m (db_missions u)\<rparr>)"
      "ok a u \<Longrightarrow> (case fmlookup (db_decisions u) k of None \<Rightarrow> d_ID d = k | Some old \<Rightarrow> decision_le old d)
      \<Longrightarrow> ok a (u\<lparr>db_decisions := fmupd k d (db_decisions u)\<rparr>)"
      "ok a u \<Longrightarrow> (case fmlookup (db_inbox u) k of None \<Rightarrow> i_ID i = k | Some old \<Rightarrow> inbox_le old i)
      \<Longrightarrow> ok a (u\<lparr>db_inbox := fmupd k i (db_inbox u)\<rparr>)"
    and ok_open: "ok a u \<Longrightarrow> fmlookup (db_budgets u) k = None \<Longrightarrow> in_int64 (ba_Total b) \<Longrightarrow> 0 < ba_Total b \<Longrightarrow> ba_Held b = 0
      \<Longrightarrow> ba_Spent b = 0 \<Longrightarrow> ok a (u\<lparr>db_budgets := fmupd k b (db_budgets u)\<rparr>)"
    and ok_settle: "ok a u \<Longrightarrow> row_of u sub \<Longrightarrow> ok a (snd (settleBudgetHold sub usage ac now u))"
    and ok_release: "ok a u \<Longrightarrow> row_of u sub \<Longrightarrow> ok a (snd (releaseBudgetHold sub reason ac now u))"
    and ok_place: "ok a u \<Longrightarrow> row_of u sub \<Longrightarrow> fmlookup (db_budgets u) (st_MissionID sub) = Some b
      \<Longrightarrow> BudgetTokens (st_Scheduling sub) \<le> pg_available b \<Longrightarrow> ok a (snd (pg_place_hold b sub ac now u))"
begin

section \<open>Transactions and statements\<close>

lemma Apply_expired: "st = StateOffered \<or> st = StateLeased \<Longrightarrow> advances st StateReady \<and> \<not> absorbing st"
  by (auto simp: absorbing_def Apply_def intro!: advances_move [of _ EvLeaseExpired] table_move)

lemma tx_self:
  assumes "ok a u" "ok u (snd (body u))"
  shows "ok a (snd (tx body u))"
  using assms ok_trans [OF assms]
  by (cases "body u") (auto simp: tx_def ok_rollback split: sum.splits)

lemma tx_ok:
  assumes "ok a u" "\<And>b. ok b u \<Longrightarrow> ok b (snd (body u))"
  shows "ok a (snd (tx body u))"
  using assms(1) by (rule tx_self) (rule assms(2) [OF ok_refl [OF assms(1)]])

lemma and_then_ok:
  "ok a (snd r) \<Longrightarrow> (\<And>x u. r = (Inr x, u) \<Longrightarrow> ok a u \<Longrightarrow> ok a (snd (f x u))) \<Longrightarrow> ok a (snd (and_then r f))"
  by (rule and_then_inv)

lemma one_row_ok: "ok a u \<Longrightarrow> (\<And>v. r = Some v \<Longrightarrow> ok a u \<Longrightarrow> ok a (snd (k v u))) \<Longrightarrow> ok a (snd (one_row r e k u))"
  by (auto simp: one_row_def split: option.split)

lemma row_id: "ok a u \<Longrightarrow> fmlookup (db_subtasks u) k = Some sub \<Longrightarrow> st_ID sub = k"
  by (auto simp: pg_wf_def pg_keys_def dest!: ok_wf dest: keyed_byD)

lemma own_nil [simp]: "own_lease L k ''''"
  by (simp add: own_lease_def)

lemma owned: "ok a u \<Longrightarrow> fmlookup (db_subtasks u) k = Some sub \<Longrightarrow> own_lease (db_leases u) k (st_LeaseID sub)"
  by (auto simp: pg_wf_def pg_owners_def dest!: ok_wf)

lemma row_kept:
  assumes "ok a u" "fmlookup (db_subtasks a) k = Some sub"
  shows "\<exists>x. fmlookup (db_subtasks u) k = Some x \<and> subtask_le sub x"
  using ok_history [OF assms(1)] assms(2) by (auto simp: pg_history_def dest: evolvesD)

lemma own_kept:
  assumes "ok a u" "fmlookup (db_subtasks a) k = Some sub"
  shows "own_lease (db_leases u) k (st_LeaseID sub)"
proof -
  have own: "own_lease (db_leases a) k (st_LeaseID sub)"
    using ok_history_wf [OF assms(1)] assms(2) by (auto simp: pg_wf_def pg_owners_def)
  have evo: "evolves pg_lease_le (db_leases a) (db_leases u)"
    using ok_history [OF assms(1)] by (simp add: pg_history_def)
  show ?thesis
    using own evolvesD [OF evo, of "st_LeaseID sub"] pg_lease_le_fields unfolding own_lease_def by metis
qed

lemma update_ok:
  assumes "ok a u"
    and "\<And>old. fmlookup (db_subtasks u) (st_ID sub) = Some old \<Longrightarrow> st_Version old = v
      \<Longrightarrow> advances (st_State old) (st_State sub) \<and> \<not> absorbing (st_State old)"
    and "own_lease (db_leases u) (st_ID sub) (st_LeaseID sub)"
  shows "ok a (snd (updateSubtask jb sub v u))"
  using assms row_id [OF assms(1)]
  by (auto simp: updateSubtask_def updated_row_def subtask_le_def split: option.splits intro!: ok_subtask)

lemma insert_subtask_ok: "ok a u \<Longrightarrow> st_LeaseID row = '''' \<Longrightarrow> ok a (snd (insert_subtask row u))"
  by (auto simp: insert_subtask_def refers_def intro!: ok_subtask)

lemma inserted_lease [simp]: "st_LeaseID (inserted_row sub parent deps n v) = ''''"
  by (simp add: inserted_row_def)

lemma release_ok: "ok a u \<Longrightarrow> ok a (releaseLease lid u)"
  by (auto simp: releaseLease_def pg_lease_le_def intro!: ok_lease split: option.splits)

lemma meter_ok: "ok a u \<Longrightarrow> ok a (snd (insert_meter m now u))" "ok a u \<Longrightarrow> ok a (snd (putMeterTx m now u))"
  by (auto simp: insert_meter_def putMeterTx_def refers_def Let_def intro!: ok_once and_then_ok)

lemma lease_meter_ok: "ok a u \<Longrightarrow> ok a (snd (recordLeaseMeter sub ag now u))"
  by (auto simp: recordLeaseMeter_def Let_def intro!: one_row_ok meter_ok)

lemma insert_ok:
  "ok a u \<Longrightarrow> ok a (snd (insert_idem key x u))" "ok a u \<Longrightarrow> ok a (snd (insert_context pkg lid u))"
  "ok a u \<Longrightarrow> ok a (snd (enqueue_inbox sub ref now u))" "ok a u \<Longrightarrow> ok a (snd (insert_decision d now u))"
  "ok a u \<Longrightarrow> ok a (snd (insert_artifact art now u))" "ok a u \<Longrightarrow> ok a (snd (insert_quality q now u))"
  "ok a u \<Longrightarrow> ok a (snd (insert_mission m u))"
  by (auto simp: insert_idem_def insert_context_def enqueue_inbox_def insert_decision_def insert_artifact_def insert_quality_def
      insert_mission_def decision_row_def refers_def Let_def intro!: ok_once ok_event ok_rows)

lemma signal_ok: "ok a u \<Longrightarrow> ok a (snd (applyReputationSignalTx sig now u))" "ok a u \<Longrightarrow> ok a (snd (pg_apply_signal now sig u))"
proof -
  show one: "ok a (snd (applyReputationSignalTx sig now u))" if "ok a u"
    using that by (auto simp: applyReputationSignalTx_def Let_def intro!: ok_free)
  show "ok a (snd (pg_apply_signal now sig u))" if "ok a u"
    using one [OF that] by (auto simp: pg_apply_signal_def split: prod.splits sum.splits)
qed

lemma snd_on_error [simp]: "snd (on_error f r) = snd r" "snd (lift_error r) = snd r" "snd (lift_error2 q) = snd q"
  by (auto simp: on_error_def lift_error_def lift_error2_def split: prod.splits sum.splits)

lemma on_error_Inr: "on_error f r = (Inr x, u) \<longleftrightarrow> r = (Inr x, u)"
  by (auto simp: on_error_def split: prod.splits sum.splits)

lemma insert_lease_rows:
  "insert_lease l u = (Inr x, u') \<Longrightarrow> db_subtasks u' = db_subtasks u \<and> own_lease (db_leases u') (l_SubtaskID l) (l_ID l)"
  by (auto simp: insert_lease_def own_lease_def split: if_splits)

lemma row_of_row: "ok a u \<Longrightarrow> fmlookup (db_subtasks u) (st_ID sub) = Some x \<Longrightarrow> st_MissionID x = st_MissionID sub \<Longrightarrow> row_of u sub"
  by (simp add: row_of_def)

lemma releaseLease_rows [simp]: "db_subtasks (releaseLease lid u) = db_subtasks u" "row_of (releaseLease lid u) = row_of u"
  by (auto simp: releaseLease_def row_of_def fun_eq_iff split: option.splits)

lemma row_frames:
  "updateSubtask jb sub v u = (Inr x, u') \<Longrightarrow> row_of u' = row_of u"
  "recordLeaseMeter sub ag now u = (Inr x, u') \<Longrightarrow> row_of u' = row_of u"
  by (auto simp: updateSubtask_def updated_row_def recordLeaseMeter_def one_row_def putMeterTx_def insert_meter_def row_of_def fun_eq_iff Let_def
      and_then_Inr split: option.splits if_splits)

lemma settle_rows: "settleBudgetHold sub usage ac now u = (Inr x, u') \<Longrightarrow> db_subtasks u' = db_subtasks u \<and> db_leases u' = db_leases u"
  by (auto simp: settleBudgetHold_def one_row_def update_budget_def update_hold_def pg_appendEvent_def Let_def and_then_Inr
      split: option.splits if_splits)

lemma spawn_rows:
  "insert_subtask row u = (Inr x, u') \<Longrightarrow> db_budgets u' = db_budgets u \<and> db_subtasks u' = fmupd (st_ID row) row (db_subtasks u)"
  "insert_idem key r u = (Inr x, u') \<Longrightarrow> db_budgets u' = db_budgets u \<and> db_subtasks u' = db_subtasks u"
  by (auto simp: insert_subtask_def insert_idem_def split: if_splits)

lemma lease_write:
  "ok a u \<Longrightarrow> L = db_leases u \<Longrightarrow> fmlookup L k = Some old \<Longrightarrow> pg_lease_le old l \<Longrightarrow> ok a (u\<lparr>db_leases := fmupd k l L\<rparr>)"
  by (simp add: ok_lease)

lemma subtask_write:
  "ok a u \<Longrightarrow> T = db_subtasks u \<Longrightarrow> fmlookup T k = Some old \<Longrightarrow> subtask_le old s
     \<Longrightarrow> own_lease (db_leases u) k (st_LeaseID s) \<Longrightarrow> ok a (u\<lparr>db_subtasks := fmupd k s T\<rparr>)"
  by (simp add: ok_subtask)

lemmas statements = ok_event ok_free insert_subtask_ok release_ok meter_ok lease_meter_ok insert_ok signal_ok

section \<open>The methods\<close>

lemma tasks:
  assumes "ok a s"
  shows "ok a (snd (pg_AppendEvent e s))" "ok a (snd (pg_PutIdempotent key result s))" "ok a (snd (pg_UpsertAgent ag now s))"
    "ok a (snd (pg_HeartbeatAgent ident now s))" "ok a (snd (pg_MarkAgentHealth ident health s))"
    "ok a (snd (pg_ApplyReputationSignal sig now s))" "ok a (snd (pg_PutMeterRecord mt now s))"
  using assms
  by (auto simp: pg_AppendEvent_def pg_PutIdempotent_def pg_UpsertAgent_def pg_HeartbeatAgent_def pg_MarkAgentHealth_def
      pg_ApplyReputationSignal_def pg_PutMeterRecord_def intro!: tx_ok and_then_ok statements ok_once split: option.splits)

lemma SetMissionStatus: "ok a s \<Longrightarrow> ok a (snd (pg_SetMissionStatus ident st version actor now s))"
  by (auto simp: pg_SetMissionStatus_def mission_le_def intro!: tx_ok statements ok_rows split: option.splits)

lemma CreateMission:
  assumes "ok a s" "in_int64 (m_BudgetTokens m)"
  shows "ok a (snd (pg_CreateMission m subs actor now s))"
  unfolding pg_CreateMission_def
proof (rule tx_ok [OF assms(1)])
  fix b assume b: "ok b s"
  have subs: "ok b (snd (for_each (pg_created_subtask actor now) subs u))" if "ok b u" for u
    using that by (rule for_each_inv) (auto simp: pg_created_subtask_def intro!: and_then_ok statements)
  have budget: "ok b (snd (insert_budget m now u))" if "ok b u" "m_BudgetTokens m > 0" for u
    using that assms(2) by (auto simp: insert_budget_def refers_def intro!: ok_open)
  show "ok b (snd (and_then (insert_mission m s) (\<lambda>_ db.
     and_then (if m_BudgetTokens m > 0 then insert_budget m now db else (Inr (), db)) (\<lambda>_ db.
       let db = pg_appendEvent (m_ID m) (m_ID m) ''mission.created''
         (fmap_of_list [(''goal'', VStr (m_Goal m)), (''owner'', VStr (m_Owner m)), (''budget_tokens'', VInt64 (m_BudgetTokens m))])
         actor now db
       in for_each (pg_created_subtask actor now) subs db))))"
    using b by (auto simp: Let_def intro!: and_then_ok subs budget statements)
qed

lemma transition_ok:
  assumes "ok a u" "fmlookup (db_subtasks u) k = Some sub" "pg_mutate_ok mutate"
  shows "ok a (snd (apply_transition jb sub ev version actor pl now mutate u))"
proof (cases "Apply (st_State sub) ev")
  case (Inr nxt)
  have move: "advances (st_State sub) nxt \<and> \<not> absorbing (st_State sub)"
    using Inr by (auto intro: advances_move table_move dest: Apply_not_absorbing)
  have upd: "ok a (snd (updateSubtask jb y version u))" if "st_ID y = st_ID sub" "st_State y = nxt" "st_LeaseID y \<in> {st_LeaseID sub, ''''}" for y
    using assms(1) by (rule update_ok) (use that assms move row_id [OF assms(1,2)] owned [OF assms(1,2)] in auto)
  show ?thesis
  proof (cases mutate)
    case None
    then show ?thesis using Inr assms(1)
      by (auto simp: apply_transition_def Let_def intro!: and_then_ok upd statements)
  next
    case (Some f)
    then have "st_ID (snd (f x)) = st_ID x \<and> st_State (snd (f x)) = st_State x \<and> st_LeaseID (snd (f x)) \<in> {st_LeaseID x, ''''}" for x
      using assms(3) by (auto simp: pg_mutate_ok_def)
    from this [of "sub\<lparr>st_State := nxt\<rparr>"] show ?thesis using Inr Some assms(1)
      by (auto simp: apply_transition_def Let_def split_beta intro!: and_then_ok upd statements split: option.splits)
  qed
qed (use assms(1) in \<open>simp add: apply_transition_def\<close>)

lemma mutate_None [simp]: "pg_mutate_ok None"
  by (simp add: pg_mutate_ok_def)

lemma TransitionSubtask:
  "ok a s \<Longrightarrow> pg_mutate_ok mutate \<Longrightarrow> ok a (snd (pg_TransitionSubtask jb ident ev version actor pl now mutate s))"
  by (auto simp: pg_TransitionSubtask_def intro!: tx_ok one_row_ok transition_ok)

lemma fenced: "ok a s \<Longrightarrow> ok a (snd (fencedTransition jb ident tok version ev pl actor now None s))"
  by (auto simp: fencedTransition_def intro!: tx_ok one_row_ok transition_ok split: option.splits)

lemma callbacks:
  assumes "ok a s"
  shows "ok a (snd (pg_AcceptLease jb lid tok version actor now s))" "ok a (snd (pg_StartSubtask jb ident tok version actor now s))"
    "ok a (snd (pg_BlockSubtask jb ident tok version actor now s))" "ok a (snd (pg_RenewLease lid tok ttl now s))"
  using assms
  by (auto simp: pg_AcceptLease_def pg_StartSubtask_def pg_BlockSubtask_def pg_RenewLease_def pg_lease_le_extend
      intro!: fenced ok_lease split: option.splits)

lemma fence_nonneg: "ok a u \<Longrightarrow> 0 \<le> db_fencing_seq u"
  using ok_wf by (auto simp: pg_wf_def pg_leases_def)

lemma insert_lease_ok:
  assumes "ok a u" "l_FencingToken l = db_fencing_seq u" "0 < db_fencing_seq u" "l_ID l = pg_lease_id (db_fencing_seq u)"
  shows "ok a (snd (insert_lease l u))"
  using assms by (auto simp: insert_lease_def refers_def any_value_iff intro!: ok_lease_insert)

lemma OfferLease:
  assumes "ok a s"
  shows "ok a (snd (pg_OfferLease jb dg ident agentID version ttl actor now s))"
  using assms fence_nonneg [OF assms]
  by (auto simp: pg_OfferLease_def Let_def on_error_Inr row_id owned intro!: tx_ok one_row_ok and_then_ok insert_lease_ok
      ok_fence update_ok statements dest!: Apply_moves insert_lease_rows split: sum.splits)

lemma exec:
  assumes "ok a s"
  shows "ok a (snd (pg_FailSubtask jb ident tok reason version actor now s))"
    "ok a (snd (pg_CancelSubtask jb ident version actor now s))"
  using assms
  by (auto simp: pg_FailSubtask_def pg_CancelSubtask_def Let_def row_id owned row_of_row intro!: tx_ok one_row_ok and_then_ok update_ok
      statements ok_release dest!: Apply_moves row_frames split: option.splits sum.splits)

lemma complete:
  assumes "ok a s"
  shows "ok a (snd (pg_CompleteSubtaskWithUsage jb ident tok key ref usage version actor now s))"
    "ok a (snd (pg_CompleteSubtask jb ident tok key ref version actor now s))"
  using assms
  by (auto simp: pg_CompleteSubtaskWithUsage_def pg_CompleteSubtask_def complete_rest_def Let_def row_id owned row_of_row
      intro!: tx_ok one_row_ok and_then_ok update_ok statements ok_settle dest!: Apply_moves settle_rows split: option.splits sum.splits)

lemma spawn_rest_ok: "ok a u \<Longrightarrow> ok a (snd (spawn_rest key parentID child actor now u))"
  by (auto simp: spawn_rest_def Let_def on_error_Inr row_of_def inserted_row_def intro!: and_then_ok statements ok_place
      dest!: spawn_rows split: option.splits)

lemma SpawnSubtask: "ok a s \<Longrightarrow> ok a (snd (pg_SpawnSubtask key parentID tok version child actor now s))"
  by (auto simp: pg_SpawnSubtask_def intro!: tx_ok one_row_ok spawn_rest_ok split: option.splits)

lemma lead:
  assumes "ok a s"
  shows "ok a (snd (pg_IngestLeadInbox itemID lead tok version mode actor now s))"
    "ok a (snd (pg_SaveLeadSnapshot jb lead tok version val ttl actor now s))"
  using assms
  by (auto simp: pg_IngestLeadInbox_def pg_SaveLeadSnapshot_def Let_def inbox_le_def pg_lease_le_extend
      intro!: tx_ok one_row_ok statements lease_write ok_rows split: option.splits sum.splits)

lemma wakes:
  assumes "ok a s"
  shows "ok a (snd (pg_SuspendSubtask jb ident tok version wake ckpt actor now s))"
    "ok a (snd (pg_WakeSubtask jb ident version actor now s))"
  using assms
  by (auto simp: pg_SuspendSubtask_def pg_WakeSubtask_def suspended_def clear_wake_def Let_def row_id owned
      intro!: tx_ok one_row_ok and_then_ok update_ok statements dest!: Apply_moves split: option.splits sum.splits)

lemma SaveCheckpoint: "ok a s \<Longrightarrow> ok a (snd (pg_SaveCheckpoint jb ident tok ckpt s))"
  by (auto simp: pg_SaveCheckpoint_def subtask_le_def absorbing_def owned intro!: tx_ok one_row_ok ok_subtask split: option.splits)

lemma decisions:
  assumes "ok a s"
  shows "ok a (snd (pg_CreateDecision d now s))" "ok a (snd (pg_ResolveDecision ident choice rationale decider now s))"
    "ok a (snd (pg_CreateDecisionAndBlock jb d version otok actor now s))"
  using assms
  by (auto simp: pg_CreateDecision_def pg_ResolveDecision_def pg_CreateDecisionAndBlock_def requested_event_def decision_le_def Let_def row_id owned
      intro!: tx_ok one_row_ok and_then_ok update_ok statements ok_rows dest!: Apply_moves split: option.splits sum.splits)

lemma boards:
  assumes "ok a s"
  shows "ok a (snd (pg_BoardPut jb e version now s))" "ok a (snd (pg_PutArtifact art now s))"
    "ok a (snd (pg_CreateQualityAppeal ap actor now s))" "ok a (snd (pg_ResolveQualityAppeal ident status resolution reviewer actor now s))"
  using assms
  by (auto simp: pg_BoardPut_def pg_PutArtifact_def pg_CreateQualityAppeal_def pg_ResolveQualityAppeal_def Let_def
      intro!: tx_ok one_row_ok and_then_ok statements split: option.splits)

lemma RecordQuality: "ok a s \<Longrightarrow> ok a (snd (pg_RecordQuality q sigs actor now s))"
  by (auto simp: pg_RecordQuality_def intro!: tx_ok and_then_ok statements for_each_inv [where I = "ok b" for b])

section \<open>Sweeps\<close>

text \<open>A sweep works on the rows it has read when the transaction began.\<close>

lemma expire_lease_ok:
  assumes "ok s u" "fmlookup (db_leases s) (l_ID l) = Some l"
  shows "ok s (snd (pg_expire_lease now l (n, u)))"
proof -
  obtain x where x: "fmlookup (db_leases u) (l_ID l) = Some x" "pg_lease_le l x"
    using ok_history [OF assms(1)] assms(2) by (auto simp: pg_history_def dest: evolvesD)
  then have "pg_lease_le x (l\<lparr>l_State := LeaseExpired\<rparr>)"
    by (cases l; cases x) (auto simp: pg_lease_le_def)
  with assms(1) x show ?thesis
    by (auto simp: pg_expire_lease_def Let_def subtask_le_def Apply_expired intro!: ok_event subtask_write lease_write split: option.splits)
qed

lemma ExpireLeases:
  assumes "ok a s" "valid_order ord"
  shows "ok a (snd (pg_ExpireLeases ord now s))"
proof -
  have s: "ok s s" using assms(1) by (rule ok_refl)
  have mem: "fmlookup (db_leases s) (l_ID l) = Some l" if "l \<in> set (map_values ord (db_leases s))" for l
    using that ok_wf [OF s] by (auto simp: set_map_values [OF assms(2)] pg_wf_def pg_keys_def dest: keyed_byD)
  have "ok s (snd (fold (pg_expire_lease now) (filter (lease_due now s) (map_values ord (db_leases s))) (0, s)))"
    by (rule fold_inv [where I = "\<lambda>nd. ok s (snd nd)"]) (use s mem expire_lease_ok in \<open>auto simp: split_paired_all\<close>)
  then show ?thesis
    by (auto simp: pg_ExpireLeases_def split: prod.splits intro!: tx_self [OF assms(1)])
qed

lemma expire_decision_ok:
  assumes "ok b u" "fmlookup (db_decisions u) (d_ID d) = Some d" "d_Status d = DecisionPending"
  shows "ok b (snd (pg_expire_decision now d (out, u)))"
  unfolding pg_expire_decision_def Let_def
  by (simp, intro conjI impI) (auto intro!: ok_event ok_rows simp: assms decision_le_def)

lemma expire_decisions_ok:
  assumes "ok b u" "distinct (map d_ID ds)"
    and "\<And>d. d \<in> set ds \<Longrightarrow> fmlookup (db_decisions u) (d_ID d) = Some d \<and> d_Status d = DecisionPending"
  shows "ok b (snd (fold (pg_expire_decision now) ds (out, u)))"
  using assms
proof (induction ds arbitrary: u out)
  case (Cons d ds)
  obtain out' u' where step: "pg_expire_decision now d (out, u) = (out', u')" by fastforce
  have "ok b u'"
    using expire_decision_ok [OF Cons.prems(1), of d now out] Cons.prems(3) [of d] step by simp
  moreover have "fmlookup (db_decisions u') (d_ID e) = Some e \<and> d_Status e = DecisionPending" if "e \<in> set ds" for e
    using Cons.prems(2) Cons.prems(3) [of e] step that
    by (auto simp: pg_expire_decision_def Let_def pg_appendEvent_def image_iff)
  ultimately show ?case using Cons.IH [of u' out'] Cons.prems(2) step by simp
qed simp

lemma ExpireDecisions:
  assumes "ok a s" "valid_order ord"
  shows "ok a (snd (pg_ExpireDecisions ord now s))"
proof -
  let ?ds = "filter (decision_due now) (map_values ord (db_decisions s))"
  have s: "ok s s" using assms(1) by (rule ok_refl)
  have k: "keyed_by d_ID (db_decisions s)" using ok_wf [OF s] by (simp add: pg_wf_def pg_keys_def)
  have "ok s (snd (fold (pg_expire_decision now) ?ds ([], s)))"
  proof (rule expire_decisions_ok [OF s])
    show "distinct (map d_ID ?ds)" by (rule distinct_map_filter_key [OF distinct_map_key [OF assms(2) k]])
    fix d assume "d \<in> set ?ds"
    then obtain j where "fmlookup (db_decisions s) j = Some d" "d_Status d = DecisionPending"
      by (auto simp: set_map_values [OF assms(2)] decision_due_def)
    with keyed_byD [OF k] show "fmlookup (db_decisions s) (d_ID d) = Some d \<and> d_Status d = DecisionPending" by auto
  qed
  then show ?thesis
    by (auto simp: pg_ExpireDecisions_def split: prod.splits intro!: tx_self [OF assms(1)])
qed

lemma helper_rows [simp]: "db_subtasks (fence_lease lid u) = db_subtasks u" "db_subtasks (pg_suspect ag u) = db_subtasks u"
  by (simp_all add: fence_lease_def pg_suspect_def split: option.splits)

lemma helper_ok: "ok a u \<Longrightarrow> ok a (fence_lease lid u)" "ok a u \<Longrightarrow> ok a (pg_suspect ag u)"
  by (auto simp: fence_lease_def pg_suspect_def pg_lease_le_state intro!: lease_write statements split: option.splits)

lemma takeover_ok: "ok a u \<Longrightarrow> ok a (snd (takeover_rows jb now ks out u))"
  by (induction ks arbitrary: out u)
    (auto simp: Let_def row_id owned ok_event intro!: one_row_ok and_then_ok update_ok statements helper_ok dest!: Apply_moves split: sum.splits)

lemma TakeoverStaleLeads: "ok a s \<Longrightarrow> ok a (snd (pg_TakeoverStaleLeads jb now s))"
  by (auto simp: pg_TakeoverStaleLeads_def intro!: tx_ok takeover_ok)

lemma expire_rows_ok:
  assumes "ok s u" "\<And>x. x \<in> set subs \<Longrightarrow> fmlookup (db_subtasks s) (st_ID x) = Some x \<and> st_State x = StateWaiting"
  shows "ok s (snd (expire_rows jb now subs out u))"
  using assms
proof (induction subs arbitrary: out u)
  case (Cons x subs)
  have "st_State old = StateWaiting"
    if "fmlookup (db_subtasks u) (st_ID x) = Some old" "st_Version old = st_Version x" for old
    using row_kept [OF Cons.prems(1), of "st_ID x" x] Cons.prems(2) [of x] that by (auto simp: subtask_le_def)
  moreover have "own_lease (db_leases u) (st_ID x) (st_LeaseID x)"
    using own_kept [OF Cons.prems(1)] Cons.prems(2) [of x] by simp
  ultimately show ?case
    using Cons by (auto simp: Let_def clear_wake_def ok_event absorbing_def advances_move [OF wake_timeout]
        intro!: and_then_ok update_ok statements)
qed simp

lemma ExpireWakes:
  assumes "ok a s"
  shows "ok a (snd (pg_ExpireWakes jb now s))"
  unfolding pg_ExpireWakes_def
proof (rule tx_self [OF assms], rule expire_rows_ok)
  show "ok s s" using assms by (rule ok_refl)
  then have "keyed_by st_ID (db_subtasks s)" using ok_wf by (auto simp: pg_wf_def pg_keys_def)
  then show "fmlookup (db_subtasks s) (st_ID x) = Some x \<and> st_State x = StateWaiting" if "x \<in> set (rows_by_id (wake_expired now) s)" for x
    using that by (auto simp: rows_by_id_def wake_expired_def set_map_values valid_order_sorted dest: keyed_byD)
qed

lemmas methods = tasks SetMissionStatus CreateMission TransitionSubtask callbacks OfferLease exec complete SpawnSubtask lead wakes
  SaveCheckpoint decisions boards RecordQuality ExpireLeases ExpireDecisions TakeoverStaleLeads ExpireWakes

lemma step: "pg_step s t \<Longrightarrow> ok a s \<Longrightarrow> ok a t"
  by (induction rule: pg_step.induct) (simp_all add: methods)

lemma run: "pg_reaches s t \<Longrightarrow> ok a s \<Longrightarrow> ok a t"
  by (induction rule: pg_reaches.induct) (auto intro: step)

end

interpretation pg: sql_writes pg_ok
  by unfold_locales
    (fact pg_okD pg_ok_refl pg_ok_trans pg_ok_rollback pg_ok_event pg_ok_fence pg_ok_free pg_ok_once pg_ok_subtask pg_ok_lease pg_ok_lease_insert
      pg_ok_rows pg_ok_open pg_ok_settle pg_ok_release pg_ok_place)+

end
