(* ===== verification/StoreContract.thy ===== *)
theory StoreContract
  imports PgInvariants MemSafety
begin

text \<open>
  The part of the store interface (\<open>store.Store\<close> in \<open>internal/store/store.go\<close>) both implementations agree on: optimistic locking,
  fencing, the transition and the record that comes back. Its abstract state gives every subtask the record a client sees and the token
  of its ACTIVE lease. A locale states the contract of the calls over that abstraction; it is interpreted on the in-memory store and on
  the PostgreSQL store.
\<close>

section \<open>What a client sees\<close>

text \<open>
  A client sees a subtask record up to what a store may choose or what its columns round: the lease id is drawn by the store, times keep
  microseconds, JSON values and checkpoints come back in normal form. Every other field is compared as it is.
\<close>

definition ckpt_view :: "jsonb \<Rightarrow> string \<Rightarrow> string" where
  "ckpt_view jb t = (case checkpoint_column jb t of None \<Rightarrow> t | Some u \<Rightarrow> u)"

definition client_view :: "jsonb \<Rightarrow> Subtask \<Rightarrow> Subtask" where
  "client_view jb sub =
     sub\<lparr>st_LeaseID := (if st_LeaseID sub = '''' then '''' else ''les_''), st_Input := json_payload (st_Input sub),
        st_Checkpoint := ckpt_view jb (st_Checkpoint sub),
        st_WakeAt := map_option pg_time (st_WakeAt sub), st_WakeDeadline := map_option pg_time (st_WakeDeadline sub)\<rparr>"

text \<open>The server takes back what it has stored, unchanged.\<close>

definition json_stable :: "jsonb \<Rightarrow> bool" where
  "json_stable jb \<longleftrightarrow> (\<forall>t u. jb t = Some u \<longrightarrow> jb u = Some u)"

lemma client_view_fields [simp]:
  "st_ID (client_view jb x) = st_ID x" "st_State (client_view jb x) = st_State x" "st_Version (client_view jb x) = st_Version x"
  "(st_LeaseID (client_view jb x) = '''') = (st_LeaseID x = '''')"
  by (simp_all add: client_view_def)

lemma client_view_upd [simp]:
  "(client_view jb x)\<lparr>st_State := a\<rparr> = client_view jb (x\<lparr>st_State := a\<rparr>)"
  "(client_view jb x)\<lparr>st_Version := n\<rparr> = client_view jb (x\<lparr>st_Version := n\<rparr>)"
  by (simp_all add: client_view_def)

lemma pg_time_idem [simp]: "pg_time (pg_time t) = pg_time t"
  by (simp add: pg_time_def)

lemma json_value_idem [simp]: "json_value (json_value v) = json_value v"
  by (induction v) (auto simp: fmap.map_comp comp_def intro!: fmap.map_cong)

lemma json_payload_idem [simp]: "json_payload (json_payload p) = json_payload p"
  by (simp add: json_payload_def fmap.map_comp comp_def)

lemma column_idem: "json_stable jb \<Longrightarrow> checkpoint_column jb t = Some u \<Longrightarrow> checkpoint_column jb u = Some u"
  by (auto simp: json_stable_def checkpoint_column_def split: if_splits)

lemma ckpt_view_idem [simp]: "json_stable jb \<Longrightarrow> ckpt_view jb (ckpt_view jb t) = ckpt_view jb t"
  by (auto simp: ckpt_view_def dest: column_idem split: option.split)

lemma ckpt_view_stored: "checkpoint_column jb t = Some u \<Longrightarrow> ckpt_view jb t = u"
  by (simp add: ckpt_view_def)

lemma ckpt_view_empty [simp]: "ckpt_view jb '''' = ''''"
  by (simp add: ckpt_view_def checkpoint_column_def)

section \<open>The abstract machine\<close>

record Ctl =
  c_Task :: Subtask
  c_Token :: "int option"

type_synonym control = "string \<Rightarrow> Ctl option"

definition held_token :: "Lease table \<Rightarrow> string \<Rightarrow> int option" where
  "held_token L lid =
     (if lid = '''' then None
      else case fmlookup L lid of None \<Rightarrow> None | Some l \<Rightarrow> if l_State l = LeaseActive then Some (l_FencingToken l) else None)"

definition ctl :: "jsonb \<Rightarrow> Lease table \<Rightarrow> Subtask \<Rightarrow> Ctl" where
  "ctl jb L sub = \<lparr>c_Task = client_view jb sub, c_Token = held_token L (st_LeaseID sub)\<rparr>"

definition control_of :: "jsonb \<Rightarrow> Subtask table \<Rightarrow> Lease table \<Rightarrow> control" where
  "control_of jb S L = (\<lambda>k. map_option (ctl jb L) (fmlookup S k))"

text \<open>
  A call on subtask \<open>k\<close>: optional token, expected version, event, and what the call writes besides the state. The version is checked
  before the token, the token before the transition; a refused call changes nothing. Without a lease there is no token.
\<close>

definition abstract_call ::
  "jsonb \<Rightarrow> EventType \<Rightarrow> (Subtask \<Rightarrow> Subtask) \<Rightarrow> string \<Rightarrow> int option \<Rightarrow> int \<Rightarrow> control \<Rightarrow> (error + Subtask) \<times> control" where
  "abstract_call jb ev eff k tok v A =
     (case A k of
        None \<Rightarrow> (Inl ErrNotFound, A)
      | Some c \<Rightarrow>
          if st_Version (c_Task c) \<noteq> v then (Inl ErrConflict, A)
          else if tok \<noteq> None \<and> c_Token c \<noteq> tok then (Inl ErrFenced, A)
          else case Apply (st_State (c_Task c)) ev of
              Inl _ \<Rightarrow> (Inl ErrConflict, A)
            | Inr nxt \<Rightarrow>
                let task = client_view jb ((eff (c_Task c\<lparr>st_State := nxt\<rparr>))\<lparr>st_Version := v + 1\<rparr>) in
                (Inr task, A(k \<mapsto> \<lparr>c_Task = task, c_Token = (if st_LeaseID task = '''' then None else c_Token c)\<rparr>)))"

text \<open>What a client sees of an outcome: the error or the record, and the state left behind.\<close>

definition answer :: "jsonb \<Rightarrow> ('s \<Rightarrow> control) \<Rightarrow> (error, Subtask, 's) outcome \<Rightarrow> (error + Subtask) \<times> control" where
  "answer jb view r = (map_sum (\<lambda>e. e) (client_view jb) (fst r), view (snd r))"

lemma answer_simps [simp]: "answer jb view (Inl e, s) = (Inl e, view s)" "answer jb view (Inr v, s) = (Inr (client_view jb v), view s)"
  by (simp_all add: answer_def)

section \<open>The contract\<close>

text \<open>
  The calls both implementations answer alike: starting, blocking, suspending with any checkpoint, cancelling, and the generic transition
  with the caller's mutator.
\<close>

type_synonym mutator = "Subtask \<Rightarrow> error option \<times> Subtask"

datatype callback =
    OnStart string int int Actor time
  | OnBlock string int int Actor time
  | OnSuspend string int int WakeSpec string Actor time
  | OnCancel string int Actor time
  | OnMove string EventType int Actor "payload option" time "mutator option"

text \<open>
  A mutator both stores carry out: it does not fail, it writes only what the update statement writes (not the identity, the
  parent, the kind or the dependencies), leaves state and version to the store, keeps the lease id or clears it, decides on nothing a
  client does not see, and leaves a checkpoint the server accepts. The mutators of the service are of this kind.
\<close>

definition portable :: "jsonb \<Rightarrow> mutator \<Rightarrow> bool" where
  "portable jb f \<longleftrightarrow> (\<forall>x. fst (f x) = None \<and> st_ID (snd (f x)) = st_ID x \<and> st_MissionID (snd (f x)) = st_MissionID x
     \<and> st_ParentID (snd (f x)) = st_ParentID x \<and> st_Kind (snd (f x)) = st_Kind x \<and> st_DependsOn (snd (f x)) = st_DependsOn x
     \<and> st_State (snd (f x)) = st_State x \<and> st_Version (snd (f x)) = st_Version x \<and> st_LeaseID (snd (f x)) \<in> {st_LeaseID x, ''''}
     \<and> client_view jb (snd (f (client_view jb x))) = client_view jb (snd (f x))
     \<and> (checkpoint_column jb (st_Checkpoint x) \<noteq> None \<longrightarrow> checkpoint_column jb (st_Checkpoint (snd (f x))) \<noteq> None))"

text \<open>The calls of a client of both stores: its checkpoints are JSON and its mutators portable.\<close>

fun client_call :: "jsonb \<Rightarrow> callback \<Rightarrow> bool" where
  "client_call jb (OnSuspend _ _ _ _ ckpt _ _) \<longleftrightarrow> checkpoint_column jb ckpt \<noteq> None"
| "client_call jb (OnMove _ _ _ _ _ _ (Some f)) \<longleftrightarrow> portable jb f"
| "client_call jb _ \<longleftrightarrow> True"

definition writes :: "mutator option \<Rightarrow> Subtask \<Rightarrow> Subtask" where
  "writes m = (case m of None \<Rightarrow> (\<lambda>x. x) | Some f \<Rightarrow> (\<lambda>x. snd (f x)))"

definition lets_go :: "Subtask \<Rightarrow> Subtask" where
  "lets_go sub = sub\<lparr>st_Assignee := '''', st_LeaseID := ''''\<rparr>"

fun abstract_callback :: "jsonb \<Rightarrow> callback \<Rightarrow> control \<Rightarrow> (error + Subtask) \<times> control" where
  "abstract_callback jb (OnStart k tok v _ _) = abstract_call jb EvStarted (\<lambda>x. x) k (Some tok) v"
| "abstract_callback jb (OnBlock k tok v _ _) = abstract_call jb EvBlocked (\<lambda>x. x) k (Some tok) v"
| "abstract_callback jb (OnSuspend k tok v wake ckpt _ _) = abstract_call jb EvSuspended (suspended wake ckpt) k (Some tok) v"
| "abstract_callback jb (OnCancel k v _ _) = abstract_call jb EvCancelled lets_go k None v"
| "abstract_callback jb (OnMove k ev v _ _ _ m) = abstract_call jb ev (writes m) k None v"

text \<open>The subtask a call is about and the version it expects.\<close>

fun target :: "callback \<Rightarrow> string \<times> int" where
  "target (OnStart k _ v _ _) = (k, v)"
| "target (OnBlock k _ v _ _) = (k, v)"
| "target (OnSuspend k _ v _ _ _ _) = (k, v)"
| "target (OnCancel k v _ _) = (k, v)"
| "target (OnMove k _ v _ _ _ _) = (k, v)"

text \<open>The answers to a sequence of calls and the state after it, and what a client sees of both.\<close>

fun run_calls :: "('c \<Rightarrow> 's \<Rightarrow> 'r \<times> 's) \<Rightarrow> 'c list \<Rightarrow> 's \<Rightarrow> 'r list \<times> 's" where
  "run_calls call [] s = ([], s)"
| "run_calls call (c # cs) s = (let (r, s) = call c s; (rs, s) = run_calls call cs s in (r # rs, s))"

definition observed :: "jsonb \<Rightarrow> ('s \<Rightarrow> control) \<Rightarrow> (error + Subtask) list \<times> 's \<Rightarrow> (error + Subtask) list \<times> control" where
  "observed jb view r = (map (map_sum (\<lambda>e. e) (client_view jb)) (fst r), view (snd r))"

locale fenced_store =
  fixes jb :: jsonb
    and good :: "'s \<Rightarrow> bool"
    and view :: "'s \<Rightarrow> control"
    and call :: "callback \<Rightarrow> 's \<Rightarrow> (error, Subtask, 's) outcome"
  assumes refines: "good s \<Longrightarrow> client_call jb c \<Longrightarrow> answer jb view (call c s) = abstract_callback jb c (view s)"
    and kept: "good s \<Longrightarrow> client_call jb c \<Longrightarrow> good (snd (call c s))"
begin

lemma calls_refine: "good s \<Longrightarrow> list_all (client_call jb) cs
    \<Longrightarrow> observed jb view (run_calls call cs s) = run_calls (abstract_callback jb) cs (view s)"
proof (induction cs arbitrary: s)
  case Nil
  then show ?case by (simp add: observed_def)
next
  case (Cons c cs)
  obtain r t where c: "call c s = (r, t)" by fastforce
  have "abstract_callback jb c (view s) = (map_sum (\<lambda>e. e) (client_view jb) r, view t)"
    using refines [OF Cons.prems(1), of c] Cons.prems(2) c by (simp add: answer_def)
  moreover have "observed jb view (run_calls call cs t) = run_calls (abstract_callback jb) cs (view t)"
    using Cons.IH [of t] kept [OF Cons.prems(1), of c] Cons.prems(2) c by simp
  ultimately show ?case using c by (auto simp: observed_def Let_def split: prod.splits)
qed

text \<open>Of two calls for one version of a subtask, one wins.\<close>

lemma one_winner:
  assumes "target c = target c'" "good s" "client_call jb c" "client_call jb c'" "call c s = (Inr sub, t)"
  shows "fst (call c' t) = Inl ErrConflict \<and> view (snd (call c' t)) = view t"
proof -
  have "answer jb view (call c s) = abstract_callback jb c (view s)" by (rule refines [OF assms(2,3)])
  then have new: "\<exists>x. view t (fst (target c)) = Some x \<and> st_Version (c_Task x) \<noteq> snd (target c)"
    using assms(5) by (cases c) (auto simp: abstract_call_def Let_def split: option.splits sum.splits if_splits)
  have "good t" using kept [OF assms(2,3)] assms(5) by simp
  then have "answer jb view (call c' t) = abstract_callback jb c' (view t)" using assms(4) by (rule refines)
  also have "\<dots> = (Inl ErrConflict, view t)"
    using new assms(1) by (cases c') (auto simp: abstract_call_def)
  finally show ?thesis by (cases "fst (call c' t)") (auto simp: answer_def)
qed

end

section \<open>What the calls write\<close>

text \<open>What a call writes depends on the record only as far as a client sees it.\<close>

definition seen_only :: "jsonb \<Rightarrow> (Subtask \<Rightarrow> Subtask) \<Rightarrow> bool" where
  "seen_only jb eff \<longleftrightarrow> (\<forall>x. client_view jb (eff (client_view jb x)) = client_view jb (eff x))"

lemma seen_id [simp]: "json_stable jb \<Longrightarrow> seen_only jb (\<lambda>x. x)"
  by (simp add: seen_only_def client_view_def option.map_comp comp_def)

lemma seen_suspended [simp]: "json_stable jb \<Longrightarrow> seen_only jb (suspended wake ckpt)"
  by (simp add: seen_only_def client_view_def suspended_def Let_def option.map_comp comp_def)

lemma seen_lets_go [simp]: "json_stable jb \<Longrightarrow> seen_only jb lets_go"
  by (simp add: seen_only_def client_view_def lets_go_def option.map_comp comp_def)

lemma seen_writes [simp]: "json_stable jb \<Longrightarrow> client_call jb (OnMove k ev v actor pl now m) \<Longrightarrow> seen_only jb (writes m)"
  by (cases m) (auto simp: writes_def seen_only_def portable_def dest: seen_id)

lemma seenD: "seen_only jb eff \<Longrightarrow> client_view jb ((eff (client_view jb x))\<lparr>st_Version := n\<rparr>) = client_view jb ((eff x)\<lparr>st_Version := n\<rparr>)"
  by (metis client_view_upd(2) seen_only_def)


lemma client_view_idem [simp]: "json_stable jb \<Longrightarrow> client_view jb (client_view jb x) = client_view jb x"
  using seen_id [of jb] by (simp add: seen_only_def)

lemma client_view_same:
  "st_LeaseID y = '''' \<longleftrightarrow> st_LeaseID x = ''''" if "client_view jb y = client_view jb x"
  using that client_view_fields(4) by metis

text \<open>A call that goes through, on the tables of a store.\<close>

lemma control_of_app: "control_of jb S L k = map_option (ctl jb L) (fmlookup S k)"
  by (simp add: control_of_def)

lemma control_of_upd [simp]: "control_of jb (fmupd k v S) L = (control_of jb S L)(k \<mapsto> ctl jb L v)"
  by (auto simp: control_of_def)

lemma abstract_hit:
  assumes "fmlookup S k = Some sub" "st_Version sub = v" "tok = None \<or> held_token L (st_LeaseID sub) = tok"
    and "Apply (st_State sub) ev = Inr nxt" "seen_only jb eff"
    and "client_view jb y = client_view jb ((eff (sub\<lparr>st_State := nxt\<rparr>))\<lparr>st_Version := v + 1\<rparr>)"
  shows "abstract_call jb ev eff k tok v (control_of jb S L) = (Inr (client_view jb y), (control_of jb S L)
    (k \<mapsto> \<lparr>c_Task = client_view jb y, c_Token = (if st_LeaseID y = '''' then None else held_token L (st_LeaseID sub))\<rparr>))"
proof -
  have "client_view jb ((eff ((client_view jb sub)\<lparr>st_State := nxt\<rparr>))\<lparr>st_Version := v + 1\<rparr>) = client_view jb y"
    using assms(6) by (simp add: seenD [OF assms(5)])
  then show ?thesis using assms(1-4) by (auto simp: abstract_call_def control_of_app ctl_def Let_def)
qed

text \<open>A refusal answers alike because it only looks at version, token and state.\<close>

lemma abstract_miss:
  "fmlookup S k = None \<Longrightarrow> abstract_call jb ev eff k tok v (control_of jb S L) = (Inl ErrNotFound, control_of jb S L)"
  "fmlookup S k = Some sub \<Longrightarrow> st_Version sub \<noteq> v \<Longrightarrow> abstract_call jb ev eff k tok v (control_of jb S L) = (Inl ErrConflict, control_of jb S L)"
  "fmlookup S k = Some sub \<Longrightarrow> st_Version sub = v \<Longrightarrow> held_token L (st_LeaseID sub) \<noteq> Some n
    \<Longrightarrow> abstract_call jb ev eff k (Some n) v (control_of jb S L) = (Inl ErrFenced, control_of jb S L)"
  "fmlookup S k = Some sub \<Longrightarrow> st_Version sub = v \<Longrightarrow> tok = None \<or> held_token L (st_LeaseID sub) = tok \<Longrightarrow> Apply (st_State sub) ev = Inl e
    \<Longrightarrow> abstract_call jb ev eff k tok v (control_of jb S L) = (Inl ErrConflict, control_of jb S L)"
  by (auto simp: abstract_call_def control_of_app ctl_def)

text \<open>Both stores check in the order of the abstract call; what is left to show of a call is what it does when it goes through.\<close>

lemma guarded_answer:
  assumes "seen_only jb eff" "view s = control_of jb S L"
    and none: "fmlookup S k = None \<Longrightarrow> r = (Inl ErrNotFound, s)"
    and conflict: "\<And>sub. fmlookup S k = Some sub \<Longrightarrow> st_Version sub \<noteq> v \<Longrightarrow> r = (Inl ErrConflict, s)"
    and fenced: "\<And>sub n. fmlookup S k = Some sub \<Longrightarrow> st_Version sub = v \<Longrightarrow> tok = Some n
      \<Longrightarrow> held_token L (st_LeaseID sub) \<noteq> Some n \<Longrightarrow> r = (Inl ErrFenced, s)"
    and illegal: "\<And>sub e. fmlookup S k = Some sub \<Longrightarrow> st_Version sub = v \<Longrightarrow> tok = None \<or> held_token L (st_LeaseID sub) = tok
      \<Longrightarrow> Apply (st_State sub) ev = Inl e \<Longrightarrow> r = (Inl ErrConflict, s)"
    and goes: "\<And>sub nxt. fmlookup S k = Some sub \<Longrightarrow> st_Version sub = v \<Longrightarrow> tok = None \<or> held_token L (st_LeaseID sub) = tok
      \<Longrightarrow> Apply (st_State sub) ev = Inr nxt \<Longrightarrow> \<exists>y t. r = (Inr y, t)
        \<and> client_view jb y = client_view jb ((eff (sub\<lparr>st_State := nxt\<rparr>))\<lparr>st_Version := v + 1\<rparr>)
        \<and> view t = (view s)(k \<mapsto> \<lparr>c_Task = client_view jb y,
            c_Token = (if st_LeaseID y = '''' then None else held_token L (st_LeaseID sub))\<rparr>)"
  shows "answer jb view r = abstract_call jb ev eff k tok v (view s)"
proof (cases "fmlookup S k")
  case None
  then show ?thesis by (simp add: none assms(2) abstract_miss)
next
  case (Some sub)
  consider "st_Version sub \<noteq> v" | n where "st_Version sub = v" "tok = Some n" "held_token L (st_LeaseID sub) \<noteq> Some n"
    | "st_Version sub = v" "tok = None \<or> held_token L (st_LeaseID sub) = tok" by (cases tok) auto
  then show ?thesis
  proof cases
    case 1
    with conflict [OF Some] Some show ?thesis by (simp add: assms(2) abstract_miss)
  next
    case 2
    with fenced [OF Some] Some show ?thesis by (simp add: assms(2) abstract_miss)
  next
    case 3
    show ?thesis
    proof (cases "Apply (st_State sub) ev")
      case (Inl e)
      with illegal [OF Some 3] abstract_miss(4) [OF Some 3] show ?thesis by (simp add: assms(2))
    next
      case (Inr nxt)
      with goes [OF Some 3] obtain y t where "r = (Inr y, t)"
        "client_view jb y = client_view jb ((eff (sub\<lparr>st_State := nxt\<rparr>))\<lparr>st_Version := v + 1\<rparr>)"
        "view t = (view s)(k \<mapsto> \<lparr>c_Task = client_view jb y,
            c_Token = (if st_LeaseID y = '''' then None else held_token L (st_LeaseID sub))\<rparr>)" by blast
      with abstract_hit [OF Some 3 Inr assms(1), of y] show ?thesis by (simp only: assms(2) answer_simps)
    qed
  qed
qed

section \<open>The in-memory store\<close>

text \<open>Ending the lease of a subtask changes the token of no other subtask.\<close>

lemma control_of_release:
  assumes "\<And>j sub. fmlookup S j = Some sub \<Longrightarrow> own_lease L j (st_LeaseID sub)"
    and "fmlookup L lid = Some l" "l_SubtaskID l = k"
  shows "(control_of jb S (fmupd lid l' L))(k \<mapsto> c) = (control_of jb S L)(k \<mapsto> c)"
proof
  fix j
  show "((control_of jb S (fmupd lid l' L))(k \<mapsto> c)) j = ((control_of jb S L)(k \<mapsto> c)) j"
  proof (cases "j = k \<or> fmlookup S j = None")
    case False
    then obtain sub where sub: "fmlookup S j = Some sub" "j \<noteq> k" by auto
    with assms(1) [OF sub(1)] assms(2,3) show ?thesis
      by (auto simp: control_of_def ctl_def held_token_def own_lease_def)
  qed (auto simp: control_of_def)
qed

definition mem_view :: "jsonb \<Rightarrow> Store \<Rightarrow> control" where
  "mem_view jb s = control_of jb (subtasks s) (leases s)"

lemma checkFencing_token:
  "checkFencingLocked sub tok s = (if held_token (leases s) (st_LeaseID sub) = Some tok
     then Inr (the (fmlookup (leases s) (st_LeaseID sub))) else Inl ErrFenced)"
  by (auto simp: checkFencingLocked_def held_token_def split: option.split)

lemma releaseActive_leases:
  "leases (releaseActiveLease sub s) = (case held_token (leases s) (st_LeaseID sub) of None \<Rightarrow> leases s
     | Some _ \<Rightarrow> fmupd (st_LeaseID sub) ((the (fmlookup (leases s) (st_LeaseID sub)))\<lparr>l_State := LeaseReleased\<rparr>) (leases s))"
  by (auto simp: releaseActiveLease_def releaseLeaseLocked_def held_token_def split: option.splits)

fun mem_call :: "callback \<Rightarrow> Store \<Rightarrow> Subtask result" where
  "mem_call (OnStart k tok v actor now) = StartSubtask k tok v actor now"
| "mem_call (OnBlock k tok v actor now) = BlockSubtask k tok v actor now"
| "mem_call (OnSuspend k tok v wake ckpt actor now) = SuspendSubtask k tok v wake ckpt actor now"
| "mem_call (OnCancel k v actor now) = CancelSubtask k v actor now"
| "mem_call (OnMove k ev v actor pl now m) = TransitionSubtask k ev v actor pl now m"

lemma portable_ok: "client_call jb (OnMove k ev v actor pl now m) \<Longrightarrow> mutate_ok m \<and> pg_mutate_ok m"
  by (cases m) (auto simp: portable_def mutate_ok_def pg_mutate_ok_def)

lemma mem_call_step: "client_call jb c \<Longrightarrow> mem_step s (snd (mem_call c s))"
  by (cases c) (auto intro: mem_step.intros dest: portable_ok)

text \<open>What the calls of the in-memory store do when they go through.\<close>

lemma mem_goes:
  assumes "store_wf s" "fmlookup (subtasks s) k = Some sub" "leases t = leases s \<or> (\<exists>l. fmlookup (leases s) (st_LeaseID sub) = Some l
      \<and> leases t = fmupd (st_LeaseID sub) (l\<lparr>l_State := LeaseReleased\<rparr>) (leases s) \<and> st_LeaseID y = '''')"
    and "subtasks t = fmupd k y (subtasks s)" "st_LeaseID y \<in> {st_LeaseID sub, ''''}"
  shows "mem_view jb t = (mem_view jb s)
    (k \<mapsto> \<lparr>c_Task = client_view jb y, c_Token = (if st_LeaseID y = '''' then None else held_token (leases s) (st_LeaseID sub))\<rparr>)"
proof -
  have own: "own_lease (leases s) j (st_LeaseID x)" if "fmlookup (subtasks s) j = Some x" for j x
    using assms(1) that by (auto simp: store_wf_def leases_wf_def owners_wf_def own_lease_def)
  have empty: "held_token L '''' = None" for L by (simp add: held_token_def)
  from assms(3) show ?thesis
  proof
    assume "leases t = leases s"
    then show ?thesis using assms(4,5) by (auto simp: mem_view_def ctl_def empty)
  next
    assume "\<exists>l. fmlookup (leases s) (st_LeaseID sub) = Some l
      \<and> leases t = fmupd (st_LeaseID sub) (l\<lparr>l_State := LeaseReleased\<rparr>) (leases s) \<and> st_LeaseID y = ''''"
    then obtain l where l: "fmlookup (leases s) (st_LeaseID sub) = Some l" "st_LeaseID y = ''''"
      "leases t = fmupd (st_LeaseID sub) (l\<lparr>l_State := LeaseReleased\<rparr>) (leases s)" by blast
    have "st_LeaseID sub \<noteq> ''''"
    proof -
      have "st_LeaseID sub = leaseID (l_FencingToken l)" using assms(1) l(1) by (simp add: store_wf_def leases_wf_def entries_wf_def)
      then show ?thesis by simp
    qed
    then have "l_SubtaskID l = k" using own [OF assms(2)] l(1) by (auto simp: own_lease_def)
    from control_of_release [OF own l(1) this] show ?thesis
      using assms(4) l(2,3) by (simp add: mem_view_def ctl_def empty)
  qed
qed


lemma mem_guarded:
  assumes "store_wf s" "seen_only jb eff"
    and "fmlookup (subtasks s) k = None \<Longrightarrow> r = (Inl ErrNotFound, s)"
    and "\<And>sub. fmlookup (subtasks s) k = Some sub \<Longrightarrow> st_Version sub \<noteq> v \<Longrightarrow> r = (Inl ErrConflict, s)"
    and "\<And>sub n. fmlookup (subtasks s) k = Some sub \<Longrightarrow> st_Version sub = v \<Longrightarrow> tok = Some n
      \<Longrightarrow> held_token (leases s) (st_LeaseID sub) \<noteq> Some n \<Longrightarrow> r = (Inl ErrFenced, s)"
    and "\<And>sub e. fmlookup (subtasks s) k = Some sub \<Longrightarrow> st_Version sub = v
      \<Longrightarrow> tok = None \<or> held_token (leases s) (st_LeaseID sub) = tok \<Longrightarrow> Apply (st_State sub) ev = Inl e \<Longrightarrow> r = (Inl ErrConflict, s)"
    and goes: "\<And>sub nxt. fmlookup (subtasks s) k = Some sub \<Longrightarrow> st_Version sub = v
      \<Longrightarrow> tok = None \<or> held_token (leases s) (st_LeaseID sub) = tok \<Longrightarrow> Apply (st_State sub) ev = Inr nxt \<Longrightarrow> \<exists>y t. r = (Inr y, t)
        \<and> client_view jb y = client_view jb ((eff (sub\<lparr>st_State := nxt\<rparr>))\<lparr>st_Version := v + 1\<rparr>)
        \<and> subtasks t = fmupd k y (subtasks s) \<and> st_LeaseID y \<in> {st_LeaseID sub, ''''}
        \<and> (leases t = leases s \<or> (\<exists>l. fmlookup (leases s) (st_LeaseID sub) = Some l
            \<and> leases t = fmupd (st_LeaseID sub) (l\<lparr>l_State := LeaseReleased\<rparr>) (leases s) \<and> st_LeaseID y = ''''))"
  shows "answer jb (mem_view jb) r = abstract_call jb ev eff k tok v (mem_view jb s)"
proof (rule guarded_answer [OF assms(2) mem_view_def assms(3-6)])
  fix sub nxt
  assume a: "fmlookup (subtasks s) k = Some sub" "st_Version sub = v" "tok = None \<or> held_token (leases s) (st_LeaseID sub) = tok"
    "Apply (st_State sub) ev = Inr nxt"
  from goes [OF a] obtain y t where "r = (Inr y, t)"
    "client_view jb y = client_view jb ((eff (sub\<lparr>st_State := nxt\<rparr>))\<lparr>st_Version := v + 1\<rparr>)"
    and t: "subtasks t = fmupd k y (subtasks s)" "st_LeaseID y \<in> {st_LeaseID sub, ''''}"
      "leases t = leases s \<or> (\<exists>l. fmlookup (leases s) (st_LeaseID sub) = Some l
            \<and> leases t = fmupd (st_LeaseID sub) (l\<lparr>l_State := LeaseReleased\<rparr>) (leases s) \<and> st_LeaseID y = '''')" by blast
  with mem_goes [OF assms(1) a(1) t(3,1,2)]
  show "\<exists>y t. r = (Inr y, t) \<and> client_view jb y = client_view jb ((eff (sub\<lparr>st_State := nxt\<rparr>))\<lparr>st_Version := v + 1\<rparr>)
      \<and> mem_view jb t = (mem_view jb s)(k \<mapsto> \<lparr>c_Task = client_view jb y,
            c_Token = (if st_LeaseID y = '''' then None else held_token (leases s) (st_LeaseID sub))\<rparr>)" by blast
qed

lemma held_lease:
  "held_token L k = Some n \<Longrightarrow> \<exists>l. fmlookup L k = Some l"
  by (auto simp: held_token_def split: if_splits option.splits)

lemma moved_record:
  assumes "client_call jb (OnMove k ev v actor pl now m)"
  shows "(case m of None \<Rightarrow> (None, x) | Some f \<Rightarrow> f x) = (None, writes m x)"
    and "st_LeaseID (writes m x) \<in> {st_LeaseID x, ''''}" and "st_Version (writes m x) = st_Version x"
    and "st_ID (writes m x) = st_ID x" "st_MissionID (writes m x) = st_MissionID x" "st_ParentID (writes m x) = st_ParentID x"
      "st_Kind (writes m x) = st_Kind x" "st_DependsOn (writes m x) = st_DependsOn x"
    and "checkpoint_column jb (st_Checkpoint x) \<noteq> None \<Longrightarrow> checkpoint_column jb (st_Checkpoint (writes m x)) \<noteq> None"
  using assms by (cases m; simp add: writes_def portable_def prod_eq_iff)+

lemma mem_refines:
  assumes wf: "store_wf s" and js: "json_stable jb" and c: "client_call jb c"
  shows "answer jb (mem_view jb) (mem_call c s) = abstract_callback jb c (mem_view jb s)"
proof (cases c)
  case (OnStart k tok v actor now)
  show ?thesis unfolding OnStart mem_call.simps abstract_callback.simps
    by (rule mem_guarded [OF wf seen_id [OF js]])
      (auto simp: StartSubtask_def checkFencing_token Let_def dest!: Apply_next)
next
  case (OnBlock k tok v actor now)
  show ?thesis unfolding OnBlock mem_call.simps abstract_callback.simps
    by (rule mem_guarded [OF wf seen_id [OF js]])
      (auto simp: BlockSubtask_def checkFencing_token Let_def dest!: Apply_next)
next
  case (OnSuspend k tok v wake ckpt actor now)
  show ?thesis unfolding OnSuspend mem_call.simps abstract_callback.simps
    by (rule mem_guarded [OF wf seen_suspended [OF js]])
      (auto simp: SuspendSubtask_def suspended_def checkFencing_token releaseLeaseLocked_def client_view_def Let_def dest!: Apply_next held_lease)
next
  case (OnCancel k v actor now)
  show ?thesis unfolding OnCancel mem_call.simps abstract_callback.simps
    by (rule mem_guarded [OF wf seen_lets_go [OF js]])
      (auto simp: CancelSubtask_def lets_go_def releaseActive_leases Let_def dest!: Apply_next dest: held_lease split: option.split)
next
  case (OnMove k ev v actor pl now m)
  note m = moved_record [OF c [unfolded OnMove]]
  have "st_LeaseID (writes m (x\<lparr>st_State := a\<rparr>)) = st_LeaseID x" if "st_LeaseID (writes m (x\<lparr>st_State := a\<rparr>)) \<noteq> ''''" for x a
    using m(2) [of "x\<lparr>st_State := a\<rparr>"] that by simp
  then show ?thesis unfolding OnMove mem_call.simps abstract_callback.simps
    by (intro mem_guarded [OF wf seen_writes [OF js c [unfolded OnMove]]])
      (auto simp: TransitionSubtask_def m(1,3) Let_def)
qed

interpretation mem: fenced_store jb "\<lambda>s. store_wf s \<and> json_stable jb" "mem_view jb" mem_call for jb
  by unfold_locales (auto intro: mem_refines well.step [OF mem_call_step])

section \<open>The PostgreSQL store\<close>

definition pg_view :: "jsonb \<Rightarrow> Db \<Rightarrow> control" where
  "pg_view jb db = control_of jb (db_subtasks db) (db_leases db)"

text \<open>Every stored checkpoint is text the server accepts.\<close>

definition stored_ok :: "jsonb \<Rightarrow> Db \<Rightarrow> bool" where
  "stored_ok jb db \<longleftrightarrow> fmpred (\<lambda>_ sub. checkpoint_column jb (st_Checkpoint sub) \<noteq> None) (db_subtasks db)"

definition pg_good :: "jsonb \<Rightarrow> Db \<Rightarrow> bool" where
  "pg_good jb db \<longleftrightarrow> json_stable jb \<and> pg_wf db \<and> stored_ok jb db"

lemma loadActiveLease_token:
  "loadActiveLease sub tok db = (if held_token (db_leases db) (st_LeaseID sub) = Some tok then None else Some ErrFenced)"
  by (auto simp: loadActiveLease_def held_token_def split: option.split)

lemma rollback_frame [simp]:
  "rollback db db = db" "db_subtasks (rollback db db') = db_subtasks db" "db_leases (rollback db db') = db_leases db"
  by (simp_all add: rollback_def)

lemma pg_appendEvent_frame [simp]:
  "db_subtasks (pg_appendEvent ag mi ty pl ac now u) = db_subtasks u" "db_leases (pg_appendEvent ag mi ty pl ac now u) = db_leases u"
  "db_holds (pg_appendEvent ag mi ty pl ac now u) = db_holds u" "db_budgets (pg_appendEvent ag mi ty pl ac now u) = db_budgets u"
  by (simp_all add: pg_appendEvent_def)

lemma pg_row:
  assumes "pg_good jb db" "fmlookup (db_subtasks db) k = Some sub"
  shows "st_ID sub = k" "\<exists>text. checkpoint_column jb (st_Checkpoint sub) = Some text"
    "own_lease (db_leases db) k (st_LeaseID sub)" "row_of db sub"
  using assms by (auto simp: pg_good_def stored_ok_def pg_wf_def pg_keys_def pg_owners_def row_of_def dest: keyed_byD fmpredD)

text \<open>What the update statement leaves in the row is what the caller's record shows.\<close>

lemma row_view:
  assumes "json_stable jb" "checkpoint_column jb (st_Checkpoint y) = Some ck" "st_ID y = st_ID row" "st_MissionID y = st_MissionID row"
    "st_ParentID y = st_ParentID row" "st_Kind y = st_Kind row" "st_DependsOn y = st_DependsOn row"
  shows "client_view jb (updated_row row y ck) = client_view jb (y\<lparr>st_Version := st_Version row + 1\<rparr>)"
proof -
  have "ckpt_view jb ck = ck" "ckpt_view jb (st_Checkpoint y) = ck"
    using column_idem [OF assms(1,2)] assms(2) by (simp_all add: ckpt_view_stored)
  with assms(3-) show ?thesis
    by (intro Subtask.equality) (simp_all add: client_view_def updated_row_def option.map_comp comp_def)
qed

text \<open>What the record \<open>y\<close> may be: the row but for the columns of the update statement.\<close>

definition row_update :: "jsonb \<Rightarrow> Subtask \<Rightarrow> Subtask \<Rightarrow> bool" where
  "row_update jb row y \<longleftrightarrow> st_ID y = st_ID row \<and> st_MissionID y = st_MissionID row \<and> st_ParentID y = st_ParentID row
     \<and> st_Kind y = st_Kind row \<and> st_DependsOn y = st_DependsOn row \<and> st_Version y = st_Version row
     \<and> st_LeaseID y \<in> {st_LeaseID row, ''''} \<and> checkpoint_column jb (st_Checkpoint y) \<noteq> None"

lemma update_goes_through:
  assumes "pg_good jb db" "fmlookup (db_subtasks db) k = Some sub" "row_update jb sub y"
  obtains row where "updateSubtask jb y (st_Version sub) db = (Inr (), db\<lparr>db_subtasks := fmupd k row (db_subtasks db)\<rparr>)"
    "client_view jb row = client_view jb (y\<lparr>st_Version := st_Version sub + 1\<rparr>)" "st_LeaseID row = st_LeaseID y"
proof -
  obtain ck where ck: "checkpoint_column jb (st_Checkpoint y) = Some ck" using assms(3) by (auto simp: row_update_def)
  have "client_view jb (updated_row sub y ck) = client_view jb (y\<lparr>st_Version := st_Version sub + 1\<rparr>)"
    by (rule row_view [OF _ ck]) (use assms in \<open>auto simp: row_update_def pg_good_def\<close>)
  then show thesis
    using that [of "updated_row sub y ck"] ck assms pg_row(1) [OF assms(1,2)]
    by (simp add: updateSubtask_def row_update_def updated_row_def)
qed

text \<open>The counterpart of \<open>mem_goes\<close>.\<close>

lemma pg_goes:
  assumes "pg_good jb db" "fmlookup (db_subtasks db) k = Some sub" "row_update jb sub y"
    and "client_view jb row = client_view jb (y\<lparr>st_Version := st_Version sub + 1\<rparr>)" "st_LeaseID row = st_LeaseID y"
    and "db_subtasks t = fmupd k row (db_subtasks db)"
    and "db_leases t = db_leases db \<or> db_leases t = db_leases (releaseLease (st_LeaseID sub) db) \<and> st_LeaseID y = ''''"
  shows "pg_view jb t = (pg_view jb db)(k \<mapsto> \<lparr>c_Task = client_view jb (y\<lparr>st_Version := st_Version sub + 1\<rparr>),
    c_Token = (if st_LeaseID y = '''' then None else held_token (db_leases db) (st_LeaseID sub))\<rparr>)"
proof -
  have own: "own_lease (db_leases db) j (st_LeaseID x)" if "fmlookup (db_subtasks db) j = Some x" for j x
    using pg_row(3) [OF assms(1) that] .
  have empty: "held_token L '''' = None" for L by (simp add: held_token_def)
  have lease: "st_LeaseID y \<in> {st_LeaseID sub, ''''}" using assms(3) by (simp add: row_update_def)
  consider "db_leases t = db_leases db"
    | l l' where "db_leases t = fmupd (st_LeaseID sub) l' (db_leases db)" "fmlookup (db_leases db) (st_LeaseID sub) = Some l"
      "st_LeaseID y = ''''"
    using assms(7) by (auto simp: releaseLease_def split: option.splits)
  then show ?thesis
  proof cases
    case 1
    then show ?thesis using assms(4-6) lease by (auto simp: pg_view_def ctl_def empty)
  next
    case 2
    have "st_LeaseID sub \<noteq> ''''"
    proof
      assume "st_LeaseID sub = ''''"
      moreover have "st_LeaseID sub = pg_lease_id (l_FencingToken l)"
        using assms(1) 2(2) by (auto simp: pg_good_def pg_wf_def pg_leases_def)
      ultimately show False by (simp add: pg_lease_id_def)
    qed
    then have "l_SubtaskID l = k" using own [OF assms(2)] 2(2) by (auto simp: own_lease_def)
    from control_of_release [OF own 2(2) this] show ?thesis
      using assms(4-6) 2 by (simp add: pg_view_def ctl_def empty)
  qed
qed

lemma pg_guarded:
  assumes good: "pg_good jb db" and "seen_only jb eff"
    and "fmlookup (db_subtasks db) k = None \<Longrightarrow> r = (Inl ErrNotFound, db)"
    and "\<And>sub. fmlookup (db_subtasks db) k = Some sub \<Longrightarrow> st_Version sub \<noteq> v \<Longrightarrow> r = (Inl ErrConflict, db)"
    and "\<And>sub n. fmlookup (db_subtasks db) k = Some sub \<Longrightarrow> st_Version sub = v \<Longrightarrow> tok = Some n
      \<Longrightarrow> held_token (db_leases db) (st_LeaseID sub) \<noteq> Some n \<Longrightarrow> r = (Inl ErrFenced, db)"
    and "\<And>sub e. fmlookup (db_subtasks db) k = Some sub \<Longrightarrow> st_Version sub = v
      \<Longrightarrow> tok = None \<or> held_token (db_leases db) (st_LeaseID sub) = tok \<Longrightarrow> Apply (st_State sub) ev = Inl e \<Longrightarrow> r = (Inl ErrConflict, db)"
    and upd: "\<And>sub nxt. fmlookup (db_subtasks db) k = Some sub \<Longrightarrow> Apply (st_State sub) ev = Inr nxt
      \<Longrightarrow> row_update jb sub (eff (sub\<lparr>st_State := nxt\<rparr>))"
    and goes: "\<And>sub nxt y row. fmlookup (db_subtasks db) k = Some sub \<Longrightarrow> st_Version sub = v
      \<Longrightarrow> tok = None \<or> held_token (db_leases db) (st_LeaseID sub) = tok \<Longrightarrow> Apply (st_State sub) ev = Inr nxt
      \<Longrightarrow> y = eff (sub\<lparr>st_State := nxt\<rparr>)
      \<Longrightarrow> updateSubtask jb y v db = (Inr (), db\<lparr>db_subtasks := fmupd k row (db_subtasks db)\<rparr>) \<Longrightarrow> \<exists>t. r = (Inr (y\<lparr>st_Version := st_Version y + 1\<rparr>), t)
        \<and> db_subtasks t = fmupd k row (db_subtasks db)
        \<and> (db_leases t = db_leases db \<or> db_leases t = db_leases (releaseLease (st_LeaseID sub) db) \<and> st_LeaseID y = '''')"
  shows "answer jb (pg_view jb) r = abstract_call jb ev eff k tok v (pg_view jb db)"
proof (rule guarded_answer [OF assms(2) pg_view_def assms(3-6)])
  fix sub nxt
  assume a: "fmlookup (db_subtasks db) k = Some sub" "st_Version sub = v" "tok = None \<or> held_token (db_leases db) (st_LeaseID sub) = tok"
    "Apply (st_State sub) ev = Inr nxt"
  let ?y = "eff (sub\<lparr>st_State := nxt\<rparr>)"
  note u = upd [OF a(1,4)]
  obtain row where row: "updateSubtask jb ?y v db = (Inr (), db\<lparr>db_subtasks := fmupd k row (db_subtasks db)\<rparr>)"
    "client_view jb row = client_view jb (?y\<lparr>st_Version := st_Version sub + 1\<rparr>)" "st_LeaseID row = st_LeaseID ?y"
    using update_goes_through [OF good a(1) u] a(2) by metis
  obtain t where t: "r = (Inr (?y\<lparr>st_Version := st_Version ?y + 1\<rparr>), t)" "db_subtasks t = fmupd k row (db_subtasks db)"
    "db_leases t = db_leases db \<or> db_leases t = db_leases (releaseLease (st_LeaseID sub) db) \<and> st_LeaseID ?y = ''''"
    using goes [OF a refl row(1)] by blast
  have v: "st_Version ?y = v" using u a(2) by (simp add: row_update_def)
  show "\<exists>y t. r = (Inr y, t) \<and> client_view jb y = client_view jb (?y\<lparr>st_Version := v + 1\<rparr>)
      \<and> pg_view jb t = (pg_view jb db)(k \<mapsto> \<lparr>c_Task = client_view jb y,
            c_Token = (if st_LeaseID y = '''' then None else held_token (db_leases db) (st_LeaseID sub))\<rparr>)"
    using t(1) pg_goes [OF good a(1) u row(2,3) t(2,3)] v a(2) by (intro exI [of _ "?y\<lparr>st_Version := v + 1\<rparr>"] exI [of _ t]) simp
qed

lemma release_total:
  assumes "pg_wf db" "row_of db sub" "db_holds u = db_holds db" "db_budgets u = db_budgets db" "st_ID y = st_ID sub"
    "st_MissionID y = st_MissionID sub"
  shows "\<exists>u'. releaseBudgetHold y reason actor now u = (Inr (), u') \<and> db_subtasks u' = db_subtasks u \<and> db_leases u' = db_leases u"
proof (cases "hold_of (st_ID sub) db")
  case None
  then show ?thesis using assms(3,5) by (simp add: releaseBudgetHold_def hold_of_def)
next
  case (Some h)
  have h: "hold_of (st_ID y) u = Some h" using Some assms(3,5) by (simp add: hold_of_def)
  note look = hold_of_lookup [OF assms(1) Some] and m = hold_of_mission [OF assms(1) Some assms(2)]
  obtain b where b: "fmlookup (db_budgets db) (st_MissionID sub) = Some b"
    using pg_wf_hold [OF assms(1) look(1)] m by (auto simp: pg_hold_def)
  note acc = pg_account [OF assms(1) b]
  have "h_Amount h \<le> ba_Held b \<and> 0 < h_Amount h" if "h_Status h = BudgetHoldHeld"
    using pg_held_ge [OF assms(1) look(1) that m] pg_wf_hold [OF assms(1) look(1)] acc(4) by (simp add: pg_hold_def)
  then show ?thesis
    using h b assms(3-) acc(1-3,5)
    by (auto simp: releaseBudgetHold_def one_row_def update_budget_def budget_checks_def update_hold_def Let_def split: option.split)
qed

fun pg_call :: "jsonb \<Rightarrow> callback \<Rightarrow> Db \<Rightarrow> Subtask sql" where
  "pg_call jb (OnStart k tok v actor now) = pg_StartSubtask jb k tok v actor now"
| "pg_call jb (OnBlock k tok v actor now) = pg_BlockSubtask jb k tok v actor now"
| "pg_call jb (OnSuspend k tok v wake ckpt actor now) = pg_SuspendSubtask jb k tok v wake ckpt actor now"
| "pg_call jb (OnCancel k v actor now) = pg_CancelSubtask jb k v actor now"
| "pg_call jb (OnMove k ev v actor pl now m) = pg_TransitionSubtask jb k ev v actor pl now m"

lemma pg_call_step: "client_call jb c \<Longrightarrow> pg_step db (snd (pg_call jb c db))"
  by (cases c) (auto intro: pg_step.intros dest: portable_ok)

lemma pg_move:
  assumes good: "pg_good jb db" and c: "client_call jb (OnMove k ev v actor pl now m)"
  shows "answer jb (pg_view jb) (pg_TransitionSubtask jb k ev v actor pl now m db) = abstract_call jb ev (writes m) k None v (pg_view jb db)"
proof -
  note m = moved_record [OF c]
  have js: "json_stable jb" using good by (simp add: pg_good_def)
  have "row_update jb sub (writes m (sub\<lparr>st_State := nxt\<rparr>))" if "fmlookup (db_subtasks db) k = Some sub" for sub nxt
    using pg_row(2) [OF good that] m(2) [of "sub\<lparr>st_State := nxt\<rparr>"] m(9) [of "sub\<lparr>st_State := nxt\<rparr>"] by (auto simp: row_update_def m(3-8))
  then show ?thesis
    by (intro pg_guarded [OF good seen_writes [OF js c]])
      (auto simp: pg_TransitionSubtask_def tx_def one_row_def apply_transition_def m(1) Let_def split: option.split)
qed

lemma pg_fenced:
  assumes good: "pg_good jb db"
  shows "answer jb (pg_view jb) (fencedTransition jb k tok v ev (Some pl) actor now None db)
    = abstract_call jb ev (\<lambda>x. x) k (Some tok) v (pg_view jb db)"
proof -
  have js: "json_stable jb" using good by (simp add: pg_good_def)
  have "row_update jb sub (sub\<lparr>st_State := nxt\<rparr>)" if "fmlookup (db_subtasks db) k = Some sub" for sub nxt
    using pg_row(2) [OF good that] by (auto simp: row_update_def)
  then show ?thesis
    by (intro pg_guarded [OF good seen_id [OF js]])
      (auto simp: fencedTransition_def tx_def one_row_def apply_transition_def loadActiveLease_token Let_def split: option.split)
qed

lemma pg_suspend:
  assumes good: "pg_good jb db" and c: "checkpoint_column jb ckpt \<noteq> None"
  shows "answer jb (pg_view jb) (pg_SuspendSubtask jb k tok v wake ckpt actor now db)
    = abstract_call jb EvSuspended (suspended wake ckpt) k (Some tok) v (pg_view jb db)"
proof -
  have js: "json_stable jb" using good by (simp add: pg_good_def)
  have same: "suspended wake ckpt (sub\<lparr>st_State := nxt\<rparr>) = suspended wake ckpt sub" for sub nxt
    by (simp add: suspended_def Let_def)
  have "row_update jb sub (suspended wake ckpt sub)" if "fmlookup (db_subtasks db) k = Some sub" for sub
    using pg_row(2) [OF good that] c by (auto simp: row_update_def suspended_def Let_def)
  moreover have "st_LeaseID (suspended wake ckpt x) = ''''" for x by (simp add: suspended_def Let_def)
  ultimately show ?thesis
    by (intro pg_guarded [OF good seen_suspended [OF js]])
      (auto simp: same pg_SuspendSubtask_def tx_def one_row_def loadActiveLease_token releaseLease_def Let_def split: option.split)
qed

lemma pg_cancel:
  assumes good: "pg_good jb db"
  shows "answer jb (pg_view jb) (pg_CancelSubtask jb k v actor now db) = abstract_call jb EvCancelled lets_go k None v (pg_view jb db)"
proof (rule pg_guarded [OF good])
  show "seen_only jb lets_go" using good by (simp add: pg_good_def)
next
  fix sub nxt
  assume "fmlookup (db_subtasks db) k = Some sub" "Apply (st_State sub) EvCancelled = Inr nxt"
  then show "row_update jb sub (lets_go (sub\<lparr>st_State := nxt\<rparr>))"
    using pg_row(2) [OF good] by (auto simp: row_update_def lets_go_def)
next
  fix sub nxt y row
  assume a: "fmlookup (db_subtasks db) k = Some sub" "st_Version sub = v" "Apply (st_State sub) EvCancelled = Inr nxt"
    "y = lets_go (sub\<lparr>st_State := nxt\<rparr>)"
    "updateSubtask jb y v db = (Inr (), db\<lparr>db_subtasks := fmupd k row (db_subtasks db)\<rparr>)" (is "_ = (_, ?u)")
  have y: "sub\<lparr>st_State := StateCancelled, st_Assignee := '''', st_LeaseID := ''''\<rparr> = y"
    using a(3,4) by (auto simp: lets_go_def dest: Apply_next)
  let ?u' = "if st_LeaseID sub \<noteq> '''' then releaseLease (st_LeaseID sub) ?u else ?u"
  have frame: "db_holds ?u' = db_holds db" "db_budgets ?u' = db_budgets db" "db_subtasks ?u' = fmupd k row (db_subtasks db)"
    "db_leases ?u' = db_leases db \<or> db_leases ?u' = db_leases (releaseLease (st_LeaseID sub) db)"
    by (auto simp: releaseLease_def split: option.split)
  obtain u'' where rel: "releaseBudgetHold y ''cancelled'' actor now ?u' = (Inr (), u'')"
      "db_subtasks u'' = db_subtasks ?u'" "db_leases u'' = db_leases ?u'"
    using release_total [OF _ pg_row(4) [OF good a(1)] frame(1,2), of y "''cancelled''" actor now] good y
    by (auto simp: pg_good_def)
  have "pg_CancelSubtask jb k v actor now db = (Inr (y\<lparr>st_Version := st_Version y + 1\<rparr>),
      pg_appendEvent (st_ID y) (st_MissionID y) (event_string EvCancelled) (fmap_of_list [(''state'', VStr (state_string StateCancelled))]) actor now u'')"
    using a(1-3,5) rel(1) by (simp add: pg_CancelSubtask_def tx_def one_row_def Let_def y)
  then show "\<exists>t. pg_CancelSubtask jb k v actor now db = (Inr (y\<lparr>st_Version := st_Version y + 1\<rparr>), t) \<and> db_subtasks t = fmupd k row (db_subtasks db)
      \<and> (db_leases t = db_leases db \<or> db_leases t = db_leases (releaseLease (st_LeaseID sub) db) \<and> st_LeaseID y = '''')"
    using frame(3,4) rel(2,3) a(4) by (auto simp: lets_go_def)
qed (auto simp: pg_CancelSubtask_def tx_def one_row_def)

text \<open>The calls write checkpoints only through \<open>updateSubtask\<close>.\<close>

lemma stored_ok_cong: "db_subtasks u = db_subtasks db \<Longrightarrow> stored_ok jb u = stored_ok jb db"
  by (simp add: stored_ok_def)

lemma stored_ok_update:
  assumes "json_stable jb" "stored_ok jb db"
  shows "stored_ok jb (snd (updateSubtask jb sub v db))"
proof (cases "checkpoint_column jb (st_Checkpoint sub)")
  case (Some ck)
  then have "checkpoint_column jb ck \<noteq> None" using column_idem [OF assms(1)] by simp
  then show ?thesis using Some assms(2)
    by (auto simp: updateSubtask_def stored_ok_def updated_row_def intro!: fmpred_upd split: option.splits)
qed (simp add: updateSubtask_def assms(2))

lemma frame_subtasks [simp]:
  "db_subtasks (releaseLease lid u) = db_subtasks u" "db_subtasks (snd (releaseBudgetHold sub reason actor now u)) = db_subtasks u"
  by (auto simp: releaseLease_def releaseBudgetHold_def one_row_def update_budget_def update_hold_def and_then_def Let_def
      split: option.splits sum.splits prod.splits)

lemma stored_ok_tx: "stored_ok jb db \<Longrightarrow> stored_ok jb (snd (body db)) \<Longrightarrow> stored_ok jb (snd (tx body db))"
  by (cases "body db") (auto simp: tx_def stored_ok_def split: sum.splits)

lemma stored_ok_call:
  assumes "json_stable jb" "stored_ok jb db"
  shows "stored_ok jb (snd (pg_call jb c db))"
proof -
  note upd = stored_ok_update [OF assms]
  have seq: "stored_ok jb (snd (and_then r f))"
    if "stored_ok jb (snd r)" "\<And>x u. r = (Inr x, u) \<Longrightarrow> stored_ok jb u \<Longrightarrow> stored_ok jb (snd (f x u))"
    for r :: "unit sql" and f :: "unit \<Rightarrow> Db \<Rightarrow> Subtask sql"
    using that by (rule and_then_inv)
  have ev: "stored_ok jb (pg_appendEvent ag mi ty pl ac now u) = stored_ok jb u" "stored_ok jb (releaseLease lid u) = stored_ok jb u"
    for ag mi ty pl ac now u lid
    by (rule stored_ok_cong, simp)+
  have rel: "stored_ok jb (snd (releaseBudgetHold sub reason ac now u)) = stored_ok jb u" for sub reason ac now u
    by (rule stored_ok_cong) simp
  show ?thesis
    using assms(2)
    by (cases c) (auto simp: pg_StartSubtask_def pg_BlockSubtask_def fencedTransition_def pg_SuspendSubtask_def pg_CancelSubtask_def
        pg_TransitionSubtask_def one_row_def apply_transition_def Let_def ev rel upd intro!: stored_ok_tx seq
        split: option.splits sum.splits prod.split)
qed

lemma pg_refines:
  assumes "pg_good jb db" "client_call jb c"
  shows "answer jb (pg_view jb) (pg_call jb c db) = abstract_callback jb c (pg_view jb db)"
  using assms by (cases c) (simp_all add: pg_StartSubtask_def pg_BlockSubtask_def pg_fenced pg_suspend pg_cancel pg_move)

interpretation pgs: fenced_store jb "pg_good jb" "pg_view jb" "pg_call jb" for jb
proof
  fix db c
  assume good: "pg_good jb db" and c: "client_call jb c"
  show "answer jb (pg_view jb) (pg_call jb c db) = abstract_callback jb c (pg_view jb db)" by (rule pg_refines [OF good c])
  have "pg_ok db db" using good by (simp add: pg_good_def pg_ok_def)
  then have "pg_wf (snd (pg_call jb c db))" using pg.step [OF pg_call_step [OF c]] pg_okD(1) by blast
  with good stored_ok_call [of jb db c] show "pg_good jb (snd (pg_call jb c db))"
    by (simp add: pg_good_def)
qed

section \<open>Where they part\<close>

text \<open>A suspension whose checkpoint is no JSON text is refused by the server where the in-memory store stores it.\<close>

lemma suspension_refused:
  assumes "pg_good jb db" "mem_view jb s = pg_view jb db" "checkpoint_column jb ckpt = None"
    and "SuspendSubtask k tok v wake ckpt actor now s = (Inr sub, t)"
  shows "pg_SuspendSubtask jb k tok v wake ckpt actor now db = (Inl sql_error, db)"
proof -
  obtain x where x: "fmlookup (subtasks s) k = Some x" "st_Version x = v" "held_token (leases s) (st_LeaseID x) = Some tok"
    "\<exists>nxt. Apply (st_State x) EvSuspended = Inr nxt"
    using assms(4) by (auto simp: SuspendSubtask_def checkFencing_token split: option.splits if_splits sum.splits)
  then have "pg_view jb db k = Some (ctl jb (leases s) x)"
    unfolding assms(2) [symmetric] by (simp add: mem_view_def control_of_app)
  then obtain y where "fmlookup (db_subtasks db) k = Some y" "ctl jb (db_leases db) y = ctl jb (leases s) x"
    by (auto simp: pg_view_def control_of_app)
  moreover from this have "st_Version y = v" "st_State y = st_State x" "held_token (db_leases db) (st_LeaseID y) = Some tok"
    using x(2,3) client_view_fields [of jb x] client_view_fields [of jb y] by (simp_all add: ctl_def)
  moreover have "st_Checkpoint (suspended wake ckpt y) = ckpt"
    using assms(3) by (auto simp: suspended_def checkpoint_column_def Let_def)
  ultimately show ?thesis using x(4) assms(3)
    by (auto simp: pg_SuspendSubtask_def tx_def one_row_def loadActiveLease_token updateSubtask_def Let_def)
qed

end
