(* ===== verification/PgProps.thy ===== *)
theory PgProps
  imports StoreContract Scenario CoreExec CoreHitl
begin

text \<open>
  What holds of every run of the PostgreSQL store, and where it agrees with the in-memory store and where it does not. The theory
  begins with a run of the store that instantiates the hypotheses.
\<close>

section \<open>A run\<close>

text \<open>
  The run of the theory \<open>Scenario\<close> on the PostgreSQL store: registration, creation, activation, offer, acceptance, start,
  cancellation.
\<close>

definition demo_jb :: jsonb where "demo_jb = Some"

definition pgn_created :: Db where
  "pgn_created = snd (pg_CreateMission demo_mission [demo_task] ann 10 (snd (pg_UpsertAgent demo_agent 5 pg_empty)))"

definition pgn_ready :: Db where
  "pgn_ready = snd (pg_TransitionSubtask demo_jb ''sub_a'' EvDepsSatisfied 0 ann None 10 None pgn_created)"

definition pgn_offered :: Db where
  "pgn_offered = snd (pg_OfferLease demo_jb demo_digest ''sub_a'' ''agt_1'' 1 30000 ann 20000 pgn_ready)"

definition pgn_leased :: Db where
  "pgn_leased = snd (pg_AcceptLease demo_jb (pg_lease_id 1) 1 2 worker 25000 pgn_offered)"

definition pgn_running :: Db where
  "pgn_running = snd (pg_StartSubtask demo_jb ''sub_a'' 1 3 worker 26000 pgn_leased)"

definition pgn_cancelled :: Db where
  "pgn_cancelled = snd (pg_CancelSubtask demo_jb ''sub_a'' 4 ann 30000 pgn_running)"

lemma pg_created_run: "pg_reaches pg_empty pgn_created"
  unfolding pgn_created_def
  by (rule pg_reaches_step [OF pg_reaches_step [OF pg_reaches_refl pg_UpsertAgent] pg_CreateMission])
    (simp add: demo_mission_def in_int64_def)

lemma pg_ready_run: "pg_reaches pg_empty pgn_ready"
  unfolding pgn_ready_def
  by (rule pg_reaches_step [OF pg_created_run pg_TransitionSubtask]) (simp add: pg_mutate_ok_def)

lemma pg_offered_run: "pg_reaches pg_empty pgn_offered"
  unfolding pgn_offered_def by (rule pg_reaches_step [OF pg_ready_run pg_OfferLease])

lemma pg_leased_run: "pg_reaches pg_empty pgn_leased"
  unfolding pgn_leased_def by (rule pg_reaches_step [OF pg_offered_run pg_AcceptLease])

lemma pg_running_run: "pg_reaches pg_empty pgn_running"
  unfolding pgn_running_def by (rule pg_reaches_step [OF pg_leased_run pg_StartSubtask])

lemma pg_cancel_step: "pg_step pgn_running pgn_cancelled"
  unfolding pgn_cancelled_def by (rule pg_CancelSubtask)

lemmas pg_cancelled_run = pg_reaches_step [OF pg_running_run pg_cancel_step]

section \<open>What the run looks like\<close>

text \<open>
  A statement is evaluated once the statements before it are: the congruence rules keep the simplifier out of the statements
  that still wait for their database.
\<close>

lemma eval_congs:
  "r = r' \<Longrightarrow> and_then r f = and_then r' f"
  "db = db' \<Longrightarrow> tx body db = tx body db'"
  "q = q' \<Longrightarrow> db = db' \<Longrightarrow> one_row q e g db = one_row q' e g db'"
  "xs = ys \<Longrightarrow> db = db' \<Longrightarrow> for_each step xs db = for_each step ys db'"
  by simp_all

lemmas pg_eval = pg_UpsertAgent_def pg_empty_def pg_CreateMission_def tx_def insert_mission_def insert_budget_def
  pg_created_subtask_def insert_subtask_def inserted_row_def refers_def refers_null_def pg_appendEvent_def agent_row_def
  json_payload_def pg_TransitionSubtask_def one_row_def apply_transition_def updateSubtask_def checkpoint_column_def updated_row_def
  Apply_def pg_OfferLease_def insert_lease_def any_value_iff on_error_def buildContextPackageTx_def BuildContextPackage_def
  insert_context_def NormalizePermissionEnvelope_def map_values_def pg_board_views_def context_task_def Let_def
  demo_agent_def demo_mission_def demo_task_def demo_digest_def demo_jb_def zero_subtask_def zero_grants_def

definition pgn_lease :: Lease where
  "pgn_lease = \<lparr>l_ID = pg_lease_id 1, l_SubtaskID = ''sub_a'', l_AgentID = ''agt_1'', l_FencingToken = 1, l_ExpiresAt = 50000,
     l_State = LeaseActive, l_CreatedAt = 20000\<rparr>"

lemma pgn_offered_rows:
  "db_leases pgn_offered = fmupd (pg_lease_id 1) pgn_lease fmempty" "db_holds pgn_offered = fmempty"
  "db_subtasks pgn_offered = fmupd ''sub_a'' (demo_task\<lparr>st_State := StateOffered, st_Assignee := ''agt_1'', st_LeaseID := pg_lease_id 1,
     st_Version := 2\<rparr>) fmempty"
  unfolding pgn_offered_def pgn_ready_def pgn_created_def
  by (simp_all add: pg_eval pgn_lease_def pg_time_def time_add_def cong: eval_congs)

lemma pg_lease_id_nonempty [simp]: "pg_lease_id n \<noteq> ''''"
  by (simp add: pg_lease_id_def)

lemma no_holds [simp]: "db_holds u = fmempty \<Longrightarrow> hold_of k u = None"
  by (simp add: hold_of_def map_values_def map_filter_simps sorted_list_of_fset.rep_eq)

lemmas pg_callback_eval = pg_AcceptLease_def pg_StartSubtask_def pg_CancelSubtask_def fencedTransition_def loadActiveLease_def
  releaseLease_def releaseBudgetHold_def pgn_lease_def

lemma pgn_leased_rows:
  "db_leases pgn_leased = fmupd (pg_lease_id 1) pgn_lease fmempty" "db_holds pgn_leased = fmempty"
  "fmlookup (db_subtasks pgn_leased) k = (if k = ''sub_a'' then Some (demo_task\<lparr>st_State := StateLeased, st_Assignee := ''agt_1'',
     st_LeaseID := pg_lease_id 1, st_Version := 3\<rparr>) else None)"
  unfolding pgn_leased_def
  by (simp_all add: pgn_offered_rows pg_callback_eval pg_eval cong: eval_congs)

lemma pgn_running_rows:
  "db_leases pgn_running = fmupd (pg_lease_id 1) pgn_lease fmempty" "db_holds pgn_running = fmempty"
  "fmlookup (db_subtasks pgn_running) k = (if k = ''sub_a'' then Some (demo_task\<lparr>st_State := StateRunning, st_Assignee := ''agt_1'',
     st_LeaseID := pg_lease_id 1, st_Version := 4\<rparr>) else None)"
  unfolding pgn_running_def
  by (simp_all add: pgn_leased_rows pg_callback_eval pg_eval cong: eval_congs)

lemma pgn_cancelled_lease:
  "fmlookup (db_leases pgn_cancelled) (pg_lease_id 1) = Some (pgn_lease\<lparr>l_State := LeaseReleased\<rparr>)"
  unfolding pgn_cancelled_def
  by (simp add: pgn_running_rows pg_callback_eval pg_eval cong: eval_congs)

lemma scn_running_task: "fmlookup (subtasks scn_running) ''sub_a'' = Some (demo_task\<lparr>st_State := StateRunning, st_Assignee := ''agt_1'',
    st_LeaseID := leaseID 1, st_Version := 4\<rparr>)"
  by code_simp

lemma scn_running_view: "mem_view demo_jb scn_running = pg_view demo_jb pgn_running"
proof
  fix k
  have dom: "fmdom (subtasks scn_running) = {|''sub_a''|}" by code_simp
  show "mem_view demo_jb scn_running k = pg_view demo_jb pgn_running k"
  proof (cases "k = ''sub_a''")
    case True
    then show ?thesis
      using scn_running_task lease_running
      by (simp add: mem_view_def pg_view_def control_of_def pgn_running_rows ctl_def held_token_def pgn_lease_def scn_lease_def client_view_def)
  next
    case False
    then have "fmlookup (subtasks scn_running) k = None" using dom by (simp add: fmdom_notD)
    with False show ?thesis by (simp add: mem_view_def pg_view_def control_of_def pgn_running_rows)
  qed
qed

section \<open>Runs\<close>

lemma pg_wf_empty: "pg_wf pg_empty"
  by (simp add: pg_wf_def pg_keys_def pg_log_def pg_leases_def pg_owners_def pg_budgets_def pg_empty_def keyed_by_def newest_wf_def)

lemma pg_reached_wf: "pg_reaches pg_empty db \<Longrightarrow> pg_wf db"
  using pg.run [of pg_empty db pg_empty] pg_wf_empty by (simp add: pg_ok_def)

lemma pg_reached_history: "pg_reaches pg_empty db \<Longrightarrow> pg_reaches db db' \<Longrightarrow> pg_history db db'"
  using pg.run [of db db' db] pg_reached_wf [of db] by (simp add: pg_ok_def)

lemma pg_reaches_trans: "pg_reaches db db' \<Longrightarrow> pg_reaches start db \<Longrightarrow> pg_reaches start db'"
  by (induction rule: pg_reaches.induct) (auto intro: pg_reaches_step)

text \<open>C12: The tables of the PostgreSQL store are well formed after any sequence of committed or rolled back methods, and the past is
  never rewritten: rows sit under their keys, event numbers rise, a lease has the id of its token and the ACTIVE one the newest token of
  its subtask, the budget rows balance the holds; and a later database extends the event log, keeps every row and moves it forward.\<close>

theorem pg_run_well_formed:
  assumes "pg_reaches pg_empty db" "pg_reaches db db'"
  shows "pg_wf db' \<and> pg_history db db'"
  using pg_reached_wf [OF pg_reaches_trans [OF assms(2,1)]] pg_reached_history [OF assms] by blast

theorem pg_run_well_formed_witness: "pg_wf pgn_cancelled \<and> pg_history pgn_running pgn_cancelled"
  by (rule pg_run_well_formed [OF pg_running_run pg_reaches_step [OF pg_reaches_refl pg_cancel_step]])

section \<open>Fencing\<close>

definition turned_away :: "('e + 'a) \<times> Db \<Rightarrow> Db \<Rightarrow> bool" where
  "turned_away r db \<longleftrightarrow> isl (fst r) \<and> snd r = db"

lemma turned_away_simps [simp]: "turned_away (Inl e, db) db" "\<not> turned_away (Inr v, db) db'"
  by (simp_all add: turned_away_def)

text \<open>A transaction that is turned away before its first statement writes leaves no trace.\<close>

lemma turned_away_tx: "turned_away (body db) db \<Longrightarrow> turned_away (tx body db) db"
  by (cases "body db") (auto simp: turned_away_def tx_def split: sum.splits)

lemma turned_away_row: "(\<And>v. r = Some v \<Longrightarrow> turned_away (k v db) db) \<Longrightarrow> turned_away (one_row r e k db) db"
  by (simp add: one_row_def split: option.split)

lemma pg_dead_lease:
  assumes "pg_wf db" "fmlookup (db_leases db) k = Some l" "l_State l \<noteq> LeaseActive"
  shows "\<And>sub. loadActiveLease sub (l_FencingToken l) db = Some ErrFenced"
    and "\<And>sub ag now. loadOwnedActiveLease sub (l_FencingToken l) ag now db = Some ErrFenced"
    and "\<And>k' l'. fmlookup (db_leases db) k' = Some l' \<Longrightarrow> l_State l' \<noteq> LeaseActive \<or> l_FencingToken l' \<noteq> l_FencingToken l"
proof -
  show dead: "l_State l' \<noteq> LeaseActive \<or> l_FencingToken l' \<noteq> l_FencingToken l" if "fmlookup (db_leases db) k' = Some l'" for k' l'
  proof (rule ccontr)
    assume "\<not> ?thesis"
    moreover have "j = pg_lease_id (l_FencingToken x)" if "fmlookup (db_leases db) j = Some x" for j x
      using assms(1) that by (simp add: pg_wf_def pg_leases_def)
    ultimately have "k' = k" using that assms(2) by metis
    with that assms(2,3) \<open>\<not> ?thesis\<close> show False by simp
  qed
  show "loadActiveLease sub (l_FencingToken l) db = Some ErrFenced" for sub
    using dead by (auto simp: loadActiveLease_def split: option.splits)
  show "loadOwnedActiveLease sub (l_FencingToken l) ag now db = Some ErrFenced" for sub ag now
    using dead by (auto simp: loadOwnedActiveLease_def split: option.splits)
qed

text \<open>C14: Fencing in PostgreSQL. Once a lease row is no longer ACTIVE, then in every database a run can lead to, every callback that
  presents its token is turned away and writes nothing, whatever lease id, subtask, version and agent it names: accepting, renewing, starting, completing, failing, blocking, blocking on a decision
  ticket, suspending, saving a checkpoint, delegating a child, ingesting an inbox item and saving a Lead snapshot.\<close>

theorem pg_zombie_fenced:
  assumes "pg_reaches pg_empty db" "fmlookup (db_leases db) k = Some l" "l_State l \<noteq> LeaseActive" "pg_reaches db t"
    and "tok = l_FencingToken l"
  shows "turned_away (pg_AcceptLease jb lid tok v actor now t) t \<and> turned_away (pg_RenewLease lid tok ttl now t) t
    \<and> turned_away (pg_StartSubtask jb ident tok v actor now t) t
    \<and> turned_away (pg_CompleteSubtaskWithUsage jb ident tok key ref usage v actor now t) t
    \<and> turned_away (pg_FailSubtask jb ident tok reason v actor now t) t
    \<and> turned_away (pg_BlockSubtask jb ident tok v actor now t) t
    \<and> turned_away (pg_CreateDecisionAndBlock jb d v (Some tok) actor now t) t
    \<and> turned_away (pg_SuspendSubtask jb ident tok v wake ckpt actor now t) t
    \<and> turned_away (pg_SaveCheckpoint jb ident tok ckpt t) t
    \<and> turned_away (pg_SpawnSubtask key ident tok v child actor now t) t
    \<and> turned_away (pg_IngestLeadInbox itemID ident tok v mode actor now t) t
    \<and> turned_away (pg_SaveLeadSnapshot jb ident tok v val ttl actor now t) t"
proof -
  have wf: "pg_wf t" and evo: "evolves pg_lease_le (db_leases db) (db_leases t)"
    using pg_reached_wf [OF pg_reaches_trans [OF assms(4,1)]] pg_reached_history [OF assms(1,4)] by (auto simp: pg_history_def)
  obtain l' where l': "fmlookup (db_leases t) k = Some l'" "pg_lease_le l l'"
    using evolvesD [OF evo assms(2)] by blast
  have "l_State l' \<noteq> LeaseActive" using l'(2) assms(3) unfolding pg_lease_le_def by blast
  moreover have "l_FencingToken l' = tok" using pg_lease_le_fields [OF l'(2)] assms(5) by simp
  ultimately
  have no: "\<And>sub. loadActiveLease sub tok t = Some ErrFenced"
      "\<And>sub ag now. loadOwnedActiveLease sub tok ag now t = Some ErrFenced"
    and other: "\<And>k x. fmlookup (db_leases t) k = Some x \<Longrightarrow> l_State x \<noteq> LeaseActive \<or> l_FencingToken x \<noteq> tok"
    using pg_dead_lease [OF wf l'(1)] by simp_all
  have fenced: "turned_away (fencedTransition jb i tok v ev pl actor now m t) t" for i ev pl m
    unfolding fencedTransition_def by (rule turned_away_tx, rule turned_away_row) (simp add: no)
  have lead: "isl (owned_lead i tok ag now t)" for i ag
    by (simp add: owned_lead_def no split: option.split)
  have "turned_away (pg_AcceptLease jb lid tok v actor now t) t" "turned_away (pg_StartSubtask jb ident tok v actor now t) t"
    "turned_away (pg_BlockSubtask jb ident tok v actor now t) t"
    by (auto simp: pg_AcceptLease_def pg_StartSubtask_def pg_BlockSubtask_def fenced split: option.split)
  moreover have "turned_away (pg_RenewLease lid tok ttl now t) t"
    using other by (auto simp: pg_RenewLease_def turned_away_def split: option.split)
  moreover have "turned_away (pg_CompleteSubtaskWithUsage jb ident tok key ref usage v actor now t) t"
    unfolding pg_CompleteSubtaskWithUsage_def
    by (rule turned_away_tx) (simp add: no turned_away_row split: option.split)
  moreover have "turned_away (pg_SpawnSubtask key ident tok v child actor now t) t"
    unfolding pg_SpawnSubtask_def
    by (rule turned_away_tx) (simp add: no turned_away_row split: option.split)
  moreover have "turned_away (pg_FailSubtask jb ident tok reason v actor now t) t"
    unfolding pg_FailSubtask_def by (rule turned_away_tx, rule turned_away_row) (simp add: no)
  moreover have "turned_away (pg_SuspendSubtask jb ident tok v wake ckpt actor now t) t"
    unfolding pg_SuspendSubtask_def by (rule turned_away_tx, rule turned_away_row) (simp add: no)
  moreover have "turned_away (pg_CreateDecisionAndBlock jb d v (Some tok) actor now t) t"
    unfolding pg_CreateDecisionAndBlock_def by (rule turned_away_tx, rule turned_away_row) (simp add: no)
  moreover have "turned_away (pg_SaveCheckpoint jb ident tok ckpt t) t"
    unfolding pg_SaveCheckpoint_def by (rule turned_away_tx, rule turned_away_row) (simp add: no)
  moreover have "turned_away (pg_IngestLeadInbox itemID ident tok v mode actor now t) t"
    unfolding pg_IngestLeadInbox_def using lead [of ident "ac_ID actor"]
    by (intro turned_away_tx turned_away_row) (auto split: sum.split)
  moreover have "turned_away (pg_SaveLeadSnapshot jb ident tok v val ttl actor now t) t"
    unfolding pg_SaveLeadSnapshot_def using lead [of ident "ac_ID actor"]
    by (intro turned_away_tx) (auto split: sum.split)
  ultimately show ?thesis by blast
qed

theorem pg_zombie_fenced_witness:
  "turned_away (pg_CompleteSubtaskWithUsage demo_jb ''sub_a'' 1 ''k'' ''r'' 0 5 worker 60000 pgn_cancelled) pgn_cancelled"
  using pg_zombie_fenced [OF pg_cancelled_run pgn_cancelled_lease _ pg_reaches_refl, of 1] by (simp add: pgn_lease_def)

section \<open>The two stores\<close>

lemma demo_good: "pg_reaches pg_empty db \<Longrightarrow> pg_good demo_jb db"
  by (simp add: pg_good_def stored_ok_def json_stable_def checkpoint_column_def demo_jb_def pg_reached_wf fmpredI)

text \<open>The mutators of the service: a retry and the result of a decision.\<close>

lemma portable_mutators: "portable jb retry_mutate" "portable jb (decision_mutate d)" if "json_stable jb"
  using that by (auto simp: portable_def retry_mutate_def decision_mutate_def client_view_def option.map_comp comp_def)

text \<open>C13: Both stores answer alike and stay alike. When the in-memory store and the PostgreSQL store show a client the same subtasks (every
  field of the record, times to the microsecond, JSON in normal form, lease ids up to their presence) with the same ACTIVE
  tokens, then any sequence of starts, blocks, suspensions with JSON checkpoints, cancellations and generic transitions with portable
  mutators gets the same answers from both, the records returned and the errors included, and leaves them showing the same
  subtasks again. Outside of these calls they part: a suspension whose checkpoint is no JSON text, which the in-memory store
  accepts, PostgreSQL refuses, changing nothing.\<close>

theorem stores_agree:
  assumes "reachable s" "pg_good jb db" "mem_view jb s = pg_view jb db" "list_all (client_call jb) cs"
  shows "observed jb (mem_view jb) (run_calls mem_call cs s) = observed jb (pg_view jb) (run_calls (pg_call jb) cs db)
    \<and> (\<forall>k tok v wake ckpt actor now sub t. checkpoint_column jb ckpt = None
         \<longrightarrow> SuspendSubtask k tok v wake ckpt actor now s = (Inr sub, t)
         \<longrightarrow> pg_SuspendSubtask jb k tok v wake ckpt actor now db = (Inl sql_error, db))"
proof -
  have "store_wf s \<and> json_stable jb" using reachable_wf [OF assms(1)] assms(2) by (simp add: pg_good_def)
  from mem.calls_refine [OF this assms(4)] pgs.calls_refine [OF assms(2,4)] assms(3) suspension_refused [OF assms(2,3)]
  show ?thesis by auto
qed

definition pgn_wake :: WakeSpec where
  "pgn_wake = \<lparr>w_Kind = WakeManual, w_At = None, w_Deadline = None, w_RegisteredAt = None, w_Event = None, w_Condition = None\<rparr>"

definition pgn_calls :: "callback list" where
  "pgn_calls = [OnSuspend ''sub_a'' 1 4 pgn_wake ''[1]'' worker 27000, OnMove ''sub_a'' EvWoken 5 ann None 27500 (Some retry_mutate),
     OnCancel ''sub_a'' 6 ann 28000, OnStart ''sub_b'' 1 0 worker 9]"

theorem stores_agree_witness:
  "fst (observed demo_jb (mem_view demo_jb) (run_calls mem_call pgn_calls scn_running))
     = fst (observed demo_jb (pg_view demo_jb) (run_calls (pg_call demo_jb) pgn_calls pgn_running))"
proof -
  have "list_all (client_call demo_jb) pgn_calls"
    using portable_mutators(1) [of demo_jb]
    by (simp add: pgn_calls_def json_stable_def checkpoint_column_def demo_jb_def)
  from stores_agree [OF reachable_running demo_good [OF pg_running_run] scn_running_view this] show ?thesis by simp
qed

text \<open>Of two calls that expect the same version of a subtask, one wins: once the first has committed in PostgreSQL, the second is
  answered \<open>ErrConflict\<close> and changes nothing a client sees.\<close>

theorem pg_one_winner:
  assumes "target c = target c'" "pg_good jb db" "client_call jb c" "client_call jb c'" "pg_call jb c db = (Inr sub, t)"
  shows "fst (pg_call jb c' t) = Inl ErrConflict \<and> pg_view jb (snd (pg_call jb c' t)) = pg_view jb t"
  by (rule pgs.one_winner [OF assms])

lemma cancel_wins: "\<exists>sub. pg_call demo_jb (OnCancel ''sub_a'' 4 ann 30000) pgn_running = (Inr sub, pgn_cancelled)"
  unfolding pgn_cancelled_def
  by (simp add: pgn_running_rows pg_callback_eval pg_eval cong: eval_congs)

theorem pg_one_winner_witness:
  "fst (pg_call demo_jb (OnSuspend ''sub_a'' 1 4 pgn_wake ''[1]'' worker 30001) pgn_cancelled) = Inl ErrConflict"
proof -
  obtain sub where "pg_call demo_jb (OnCancel ''sub_a'' 4 ann 30000) pgn_running = (Inr sub, pgn_cancelled)" using cancel_wins by blast
  from pg_one_winner [OF _ demo_good [OF pg_running_run] _ _ this, of "OnSuspend ''sub_a'' 1 4 pgn_wake ''[1]'' worker 30001"]
  show ?thesis by (simp add: checkpoint_column_def demo_jb_def)
qed

section \<open>Where the stores differ\<close>

lemma view_entry_keeps: "fmlookup views k \<noteq> None \<Longrightarrow> fmlookup (view_entry sub g e views) k \<noteq> None"
  by (auto simp: view_entry_def Let_def split: option.split)

lemma view_entries_keep: "fmlookup views k \<noteq> None \<Longrightarrow> fmlookup (fold (view_entry sub g) es views) k \<noteq> None"
  by (induction es arbitrary: views) (simp_all add: view_entry_keeps del: not_None_eq)

lemma board_views_keep:
  "fmlookup views k \<noteq> None \<Longrightarrow> fmlookup (fold (\<lambda>g. fold (view_entry sub g) es) gs views) k \<noteq> None"
  by (induction gs arbitrary: views) (simp_all add: view_entries_keep del: not_None_eq)

lemma view_entries_add:
  assumes "e \<in> set es" "b_MissionID e = st_MissionID sub" "b_Namespace e = g_Namespace g" "g_Keys g = []"
  shows "fmlookup (fold (view_entry sub g) es views) (b_Namespace e @ NUL @ b_Key e) \<noteq> None"
proof -
  obtain xs ys where es: "es = xs @ e # ys" using assms(1) by (metis split_list)
  have "fmlookup (view_entry sub g e vs) (b_Namespace e @ NUL @ b_Key e) \<noteq> None" for vs
    using assms(2-4) by (auto simp: view_entry_def Let_def split: option.split)
  then show ?thesis by (simp add: es view_entries_keep del: not_None_eq)
qed

lemma wildcard_grants_namespace:
  assumes "valid_order ord" "g \<in> set (BoardViews (st_Grants sub))" "g_Keys g = []" "fmlookup (board s) k = Some e"
    and "b_MissionID e = st_MissionID sub" "b_Namespace e = g_Namespace g"
  shows "fmlookup (board_views ord sub s) (b_Namespace e @ NUL @ b_Key e) \<noteq> None"
proof -
  obtain gs hs where "BoardViews (st_Grants sub) = gs @ g # hs" using assms(2) by (metis split_list)
  moreover have "e \<in> set (map_values ord (board s))" using assms(1,4) by (auto simp: set_map_values)
  ultimately show ?thesis
    using view_entries_add [OF _ assms(5,6,3)] by (simp add: board_views_def board_views_keep del: not_None_eq)
qed

text \<open>C39: A grant on a whole namespace grants nothing in PostgreSQL. A grant without keys means every key of its namespace, and the
  in-memory store puts every entry of the namespace into the context package; the query of the PostgreSQL store compares with \<open>NULL\<close>
  and finds no row, so an agent whose grants are all of that kind is offered the subtask without any view of the blackboard.\<close>

theorem pg_wildcard_grants_nothing:
  assumes "\<forall>g \<in> set (BoardViews (st_Grants sub)). g_Keys g = []" "valid_order ord"
  shows "pg_board_views sub db = fmempty
    \<and> (\<forall>g \<in> set (BoardViews (st_Grants sub)). \<forall>k e. fmlookup (board s) k = Some e \<and> b_MissionID e = st_MissionID sub
         \<and> b_Namespace e = g_Namespace g \<longrightarrow> fmlookup (board_views ord sub s) (b_Namespace e @ NUL @ b_Key e) \<noteq> None)"
proof
  have "granted_rows m g db = []" if "g \<in> set (BoardViews (st_Grants sub))" for m g
    using assms(1) that by (simp add: granted_rows_def key_granted_def sql_array_def or3_def)
  then have "fold (\<lambda>g. fold (pg_view_entry g) (granted_rows (st_MissionID sub) g db)) gs views = views"
    if "set gs \<subseteq> set (BoardViews (st_Grants sub))" for gs views
    using that by (induction gs arbitrary: views) simp_all
  then show "pg_board_views sub db = fmempty" by (simp add: pg_board_views_def)
qed (use wildcard_grants_namespace [OF assms(2)] assms(1) in blast)

text \<open>A grant on the namespace of a running subtask.\<close>

theorem pg_wildcard_grants_nothing_witness:
  "pg_board_views (demo_task\<lparr>st_Grants := zero_grants\<lparr>BoardViews := [\<lparr>g_Namespace = ''ns'', g_Keys = [], g_Mode = BoardModeReadOnly\<rparr>]\<rparr>\<rparr>) pgn_running
     = fmempty"
  using pg_wildcard_grants_nothing [of "demo_task\<lparr>st_Grants := zero_grants\<lparr>BoardViews := [\<lparr>g_Namespace = ''ns'', g_Keys = [], g_Mode = BoardModeReadOnly\<rparr>]\<rparr>\<rparr>"
      sorted_list_of_fset pgn_running New]
  by (simp add: valid_order_sorted)

end
