(* ===== verification/PgStream.thy ===== *)
theory PgStream
  imports PgProps StoreProps
begin

text \<open>
  The event stream over the PostgreSQL store. As long as transactions commit one after the other the stream is exact; numbers are drawn
  when an event is inserted and become visible when its transaction commits, so with two transactions at work a reader that moves on
  to the last number it has seen can lose events for good.
\<close>

section \<open>Transactions one after the other\<close>

text \<open>The ticks of \<open>missionEventsSSE\<close> over the databases it meets.\<close>

definition pg_stream :: "string \<Rightarrow> int \<Rightarrow> Db list \<Rightarrow> Event list" where
  "pg_stream m after ticks = polled (\<lambda>after. pg_ListMissionEvents m after 200) after ticks"

lemma sort_key_sorted: "sorted_wrt (<) (map f xs) \<Longrightarrow> sort_key f xs = xs" for f :: "'a \<Rightarrow> int"
  by (simp add: sorted_sort_id strict_sorted_imp_sorted sort_key_id_if_sorted)

lemma pg_page:
  assumes "pg_wf db"
  shows "pg_ListMissionEvents m after 200 db = take 200 (filter (\<lambda>e. e_MissionID e = m \<and> e_Seq e > after) (db_events db))"
  using assms by (simp add: pg_ListMissionEvents_def pg_wf_def pg_log_def sort_key_sorted sorted_wrt_map sorted_wrt_filter)

interpretation pg_log: polled_log db_events m "\<lambda>after. pg_ListMissionEvents m after 200" "\<lambda>db t. pg_reaches pg_empty db \<and> pg_reaches db t" for m
proof
  fix db t after
  assume run: "pg_reaches pg_empty db \<and> pg_reaches db t"
  then show t: "pg_reaches pg_empty t \<and> pg_reaches t t" using pg_reaches_trans pg_reaches_refl by blast
  then show "sorted_wrt (<) (map e_Seq (db_events t))" using pg_reached_wf by (auto simp: pg_wf_def pg_log_def)
  show "\<exists>es. db_events t = db_events db @ es" using pg_reached_history [of db t] run by (simp add: pg_history_def)
  show "pg_ListMissionEvents m after 200 db = take 200 (filter (\<lambda>e. e_MissionID e = m \<and> e_Seq e > after) (db_events db))"
    using run pg_reached_wf by (blast intro: pg_page)
qed

abbreviation pg_pending :: "string \<Rightarrow> int \<Rightarrow> Db \<Rightarrow> Event list" where
  "pg_pending m after db \<equiv> filter (\<lambda>e. e_MissionID e = m \<and> e_Seq e > after) (db_events db)"

text \<open>With transactions that commit one after the other the event stream is exact on PostgreSQL too: over the ticks of a connection
  the events written are the first events of the mission after the start position, in order, and once the log rests for a tick per 200
  events they are all of them.\<close>

theorem pg_stream_exact:
  assumes "\<forall>db \<in> set ticks. pg_reaches pg_empty db \<and> pg_reaches db t" "pg_reaches pg_empty t"
  shows "\<exists>left. pg_pending m after t = pg_stream m after ticks @ left
    \<and> (length left \<le> 200 * n \<longrightarrow> pg_stream m after (ticks @ replicate n t) = pg_pending m after t)"
  using pg_log.poll_exact [of ticks t m after n] assms pg_reaches_refl by (simp add: pg_stream_def pg_log.left_def)

text \<open>A connection that sees the subtask running, and again after its cancellation.\<close>

theorem pg_stream_exact_witness:
  "\<exists>left. pg_pending ''msn_1'' 0 pgn_cancelled = pg_stream ''msn_1'' 0 [pgn_running, pgn_running] @ left"
  using pg_stream_exact [of "[pgn_running, pgn_running]" pgn_cancelled "''msn_1''" 0 0] pg_running_run
    pg_reaches_step [OF pg_reaches_refl pg_cancel_step] pg_cancelled_run by auto

section \<open>Transactions at the same time\<close>

text \<open>
  The committed database, with the sequence all transactions draw from, and the events each open transaction has inserted.
\<close>

record Sessions =
  se_db :: Db
  se_open :: "nat \<Rightarrow> Event list"

text \<open>The insertion in transaction \<open>a\<close>: the number is drawn at once, the row is seen by no one else.\<close>

definition se_append :: "nat \<Rightarrow> string \<Rightarrow> string \<Rightarrow> string \<Rightarrow> payload \<Rightarrow> Actor \<Rightarrow> time \<Rightarrow> Sessions \<Rightarrow> Sessions" where
  "se_append a ag mi ty pl actor now s =
     (let db' = pg_appendEvent ag mi ty pl actor now (se_db s)
      in s\<lparr>se_db := rollback (se_db s) db', se_open := (se_open s)(a := se_open s a @ [last (db_events db')])\<rparr>)"

definition se_commit :: "nat \<Rightarrow> Sessions \<Rightarrow> Sessions" where
  "se_commit a s = s\<lparr>se_db := (se_db s)\<lparr>db_events := db_events (se_db s) @ se_open s a\<rparr>, se_open := (se_open s)(a := [])\<rparr>"

text \<open>A transaction alone is the method of \<open>PgState\<close>.\<close>

lemma append_commit_alone:
  assumes "se_open s a = []"
  shows "se_db (se_commit a (se_append a (e_AggregateID e) (e_MissionID e) (e_Type e) (e_Payload e) (e_Actor e) (e_Ts e) s))
    = snd (pg_AppendEvent e (se_db s))"
  using assms by (simp add: se_commit_def se_append_def pg_AppendEvent_def tx_def pg_appendEvent_def rollback_def Let_def)

text \<open>The stream only moves forward: it delivers nothing numbered at or below its position.\<close>

lemma stream_forward: "e \<in> set (pg_stream m after ticks) \<Longrightarrow> after < e_Seq e"
proof (induction ticks arbitrary: after)
  case (Cons db ticks)
  let ?evs = "pg_ListMissionEvents m after 200 db"
  have page: "after < e_Seq x" if "x \<in> set ?evs" for x
    using that by (auto simp: pg_ListMissionEvents_def dest!: in_set_takeD)
  let ?after = "if ?evs = [] then after else e_Seq (last ?evs)"
  have "after \<le> ?after" using page [of "last ?evs"] by (auto intro: less_imp_le)
  moreover have "e \<in> set ?evs \<or> e \<in> set (pg_stream m ?after ticks)" using Cons.prems by (auto simp: pg_stream_def Let_def)
  ultimately show ?case using page Cons.IH [of ?after] by fastforce
qed (simp add: pg_stream_def)

text \<open>The insertion that draws the next number.\<close>

abbreviation drawn :: "string \<Rightarrow> string \<Rightarrow> string \<Rightarrow> payload \<Rightarrow> Actor \<Rightarrow> time \<Rightarrow> Db \<Rightarrow> Event" where
  "drawn ag mi ty pl actor now db \<equiv> last (db_events (pg_appendEvent ag mi ty pl actor now db))"

text \<open>C38: Two transactions can lose an event for every reader that is there. Transaction \<open>a\<close> inserts an event of a mission, transaction
  \<open>b\<close> inserts the next one and commits first. A connection that has read everything before delivers the event of \<open>b\<close> at its next tick;
  then \<open>a\<close> commits, its event is in the log and a new reader would get it, but this connection never delivers it, whatever the
  database holds at its later ticks.\<close>

theorem pg_stream_loses_event:
  assumes "a \<noteq> b" "se_open s a = []" "se_open s b = []" "pg_pending m after (se_db s) = []" "after \<le> db_event_seq (se_db s)"
    and "s1 = se_commit b (se_append b ag' m ty' pl' actor' now' (se_append a ag m ty pl actor now s))" "s2 = se_commit a s1"
    and "x = drawn ag m ty pl actor now (se_db s)"
  shows "map e_AggregateID (pg_stream m after [se_db s1]) = [ag'] \<and> x \<in> set (pg_pending m after (se_db s2))
    \<and> x \<notin> set (pg_stream m after (se_db s1 # se_db s2 # later))"
proof -
  let ?n = "db_event_seq (se_db s)"
  define y where "y = drawn ag' m ty' pl' actor' now' (se_db s\<lparr>db_event_seq := ?n + 1\<rparr>)"
  have x: "e_Seq x = ?n + 1" "e_MissionID x = m" using assms(8) by (simp_all add: pg_appendEvent_def)
  have y: "e_Seq y = ?n + 2" "e_MissionID y = m" "e_AggregateID y = ag'" by (simp_all add: y_def pg_appendEvent_def)
  have s1: "db_events (se_db s1) = db_events (se_db s) @ [y]" "se_open s1 a = [x]"
    using assms(1-3,6,8) by (simp_all add: se_commit_def se_append_def pg_appendEvent_def rollback_def Let_def y_def)
  have s2: "db_events (se_db s2) = db_events (se_db s) @ [y, x]" using s1 assms(7) by (simp add: se_commit_def)
  have none: "\<not> (e_MissionID e = m \<and> e_Seq e > after)" if "e \<in> set (db_events (se_db s))" for e
    using assms(4) that by (auto simp: filter_empty_conv)
  have page: "pg_ListMissionEvents m after 200 (se_db s1) = [y]"
    using none y assms(5) by (simp add: pg_ListMissionEvents_def s1 filter_empty_conv filter_False)
  have "x \<notin> set (pg_stream m (e_Seq y) (se_db s2 # later))" using stream_forward [of x m "e_Seq y"] x y by fastforce
  moreover have "x \<noteq> y" using x y by auto
  moreover have "pg_stream m after (se_db s1 # ticks) = y # pg_stream m (e_Seq y) ticks" for ticks
    using page by (simp add: pg_stream_def)
  ultimately show ?thesis
    using x y assms(5) by (simp add: s2) (simp add: pg_stream_def)
qed

text \<open>Two transactions over the run that got the subtask running.\<close>

theorem pg_stream_loses_event_witness:
  "let s = \<lparr>se_db = pgn_running, se_open = (\<lambda>_. [])\<rparr>; n = db_event_seq pgn_running;
       s1 = se_commit 3 (se_append 3 ''sub_a'' ''msn_1'' ''subtask.blocked'' fmempty worker 27000
          (se_append 2 ''msn_1'' ''msn_1'' ''board.updated'' fmempty worker 26500 s));
       s2 = se_commit 2 s1
   in \<exists>x \<in> set (pg_pending ''msn_1'' n (se_db s2)). x \<notin> set (pg_stream ''msn_1'' n [se_db s1, se_db s2, se_db s2])"
proof -
  let ?s = "\<lparr>se_db = pgn_running, se_open = (\<lambda>_. [])\<rparr>" and ?n = "db_event_seq pgn_running"
  have "pg_wf pgn_running" by (rule pg_reached_wf [OF pg_running_run])
  then have start: "(2::nat) \<noteq> 3" "se_open ?s 2 = []" "se_open ?s 3 = []" "pg_pending ''msn_1'' ?n (se_db ?s) = []"
      "?n \<le> db_event_seq (se_db ?s)"
    by (auto simp: pg_wf_def pg_log_def filter_empty_conv)
  show ?thesis
    using pg_stream_loses_event [OF start refl refl refl, of "''sub_a''" "''subtask.blocked''" fmempty worker 27000
      "''msn_1''" "''board.updated''" fmempty worker 26500 "[se_db (se_commit 2 (se_commit 3 (se_append 3 ''sub_a'' ''msn_1''
        ''subtask.blocked'' fmempty worker 27000 (se_append 2 ''msn_1'' ''msn_1'' ''board.updated'' fmempty worker 26500 ?s))))]"]
    unfolding Let_def by blast
qed

end
