(* ===== verification/Adapters.thy ===== *)
theory Adapters
  imports ApiAccess ServiceRuns
begin

text \<open>
  The worker side of the lease protocol: the reference adapter \<open>adapters/http-echo/main.go\<close> and the managed adapter
  \<open>adapters/managed-http/main.go\<close>, which run one offered task by a sequence of requests to the control plane. The network is a
  parameter: it takes the path and the JSON body of a \<open>POST\<close> and answers an error or the \<open>version\<close> field of the response. Timers,
  flags, the environment, the base URLs and the logging are left out; the progress loop that runs beside the runtime is a number of
  beats. The last section lets the reference adapter talk to the modelled server.
\<close>

type_synonym 'w net = "string \<Rightarrow> payload \<Rightarrow> 'w \<Rightarrow> (string + int) \<times> 'w"

section \<open>The reference adapter\<close>

definition adapter_skills :: "string \<Rightarrow> string list" where
  "adapter_skills skills = filter (\<lambda>sk. sk \<noteq> '''') (map TrimSpace (split_on (CHR '','') skills))"

definition capability_body :: "string \<Rightarrow> goval" where
  "capability_body skill = VObj (fmap_of_list [(''skill'', VStr skill), (''level'', VFloat (fl (9 / 10)))])"

definition echo_register :: "string \<Rightarrow> string \<Rightarrow> string \<Rightarrow> payload" where
  "echo_register ident skills subject = fmap_of_list [(''id'', VStr ident), (''name'', VStr ident), (''platform'', VStr ''http-echo''),
     (''capabilities'', VArr (map capability_body (adapter_skills skills))), (''max_concurrency'', VInt 2), (''auth_subject'', VStr subject)]"

definition accept_body :: "string \<Rightarrow> int \<Rightarrow> int \<Rightarrow> payload" where
  "accept_body ident token version =
     fmap_of_list [(''agent_id'', VStr ident), (''fencing_token'', VInt64 token), (''subtask_version'', VInt64 version)]"

definition start_body :: "string \<Rightarrow> int \<Rightarrow> int \<Rightarrow> payload" where
  "start_body ident token version =
     fmap_of_list [(''agent_id'', VStr ident), (''fencing_token'', VInt64 token), (''version'', VInt64 version)]"

definition echo_complete_body :: "string \<Rightarrow> string \<Rightarrow> int \<Rightarrow> int \<Rightarrow> payload" where
  "echo_complete_body ident subtaskID token version =
     fmupd ''idempotency_key'' (VStr (''echo-'' @ subtaskID))
       (fmupd ''result_ref'' (VStr (''echo://'' @ ident @ ''/'' @ subtaskID)) (start_body ident token version))"

definition accept_path :: "string \<Rightarrow> string" where
  "accept_path lid = ''/v1/leases/'' @ lid @ ''/accept''"

definition subtask_path :: "string \<Rightarrow> string \<Rightarrow> string" where
  "subtask_path subtaskID action = ''/v1/subtasks/'' @ subtaskID @ ''/'' @ action"

text \<open>Accept, start, complete; the first refusal ends the run.\<close>

definition runTask :: "string \<Rightarrow> 'w net \<Rightarrow> string \<Rightarrow> int \<Rightarrow> string \<Rightarrow> int \<Rightarrow> 'w \<Rightarrow> 'w" where
  "runTask ident post subtaskID version lid token w =
     (case post (accept_path lid) (accept_body ident token version) w of
        (Inl _, w) \<Rightarrow> w
      | (Inr accepted, w) \<Rightarrow>
         (case post (subtask_path subtaskID ''start'') (start_body ident token accepted) w of
            (Inl _, w) \<Rightarrow> w
          | (Inr started, w) \<Rightarrow>
              snd (post (subtask_path subtaskID ''complete'') (echo_complete_body ident subtaskID token started) w)))"

section \<open>The managed adapter\<close>

record ManagedOffer =
  mo_SubtaskID :: string
  mo_Version :: int
  mo_Attempt :: int
  mo_LeaseID :: string
  mo_FencingToken :: int
  mo_ContextPackage :: payload

record runtimeResult =
  rr_ResultRef :: string
  rr_UsageTokens :: int

text \<open>The flags, with \<open>RUNTIME_MODEL\<close> as the fallback of the model.\<close>

record AdapterFlags =
  af_ID :: string
  af_Platform :: string
  af_RunPath :: string
  af_Profile :: string
  af_Model :: string
  af_EnvModel :: string

text \<open>The fields the response of a runtime is decoded into.\<close>

record RuntimeAnswer =
  ra_ID :: string
  ra_Result :: string
  ra_Usage :: int
  ra_InputTokens :: int
  ra_OutputTokens :: int
  ra_TotalTokens :: int

text \<open>A response of the runtime: its status, its text and what its text decodes to.\<close>

record RuntimeResponse =
  rs_Status :: int
  rs_Text :: string
  rs_Decoded :: "string + RuntimeAnswer"

definition managed_register :: "AdapterFlags \<Rightarrow> string \<Rightarrow> string \<Rightarrow> payload" where
  "managed_register cfg skills subject = fmap_of_list [(''id'', VStr (af_ID cfg)), (''name'', VStr (af_ID cfg)),
     (''platform'', VStr (af_Platform cfg)), (''capabilities'', VArr (map capability_body (adapter_skills skills))),
     (''max_concurrency'', VInt 1), (''auth_subject'', VStr subject)]"

definition selected_profile :: "AdapterFlags \<Rightarrow> string" where
  "selected_profile cfg = (if af_Profile cfg = ''auto'' then af_Platform cfg else af_Profile cfg)"

definition responses_profile :: "string \<Rightarrow> bool" where
  "responses_profile selected \<longleftrightarrow> selected = ''hermes'' \<or> selected = ''openclaw''"

text \<open>Path and payload of the request to the runtime; \<open>marshal\<close> is \<open>encoding/json\<close>.\<close>

definition runtime_request :: "(payload \<Rightarrow> string) \<Rightarrow> AdapterFlags \<Rightarrow> ManagedOffer \<Rightarrow> string \<times> payload" where
  "runtime_request marshal cfg current =
     (if responses_profile (selected_profile cfg)
      then (''/v1/responses'', fmap_of_list
        [(''model'', VStr (if af_Model cfg \<noteq> '''' then af_Model cfg else if af_EnvModel cfg \<noteq> '''' then af_EnvModel cfg else ''default'')),
         (''input'', VStr (marshal (mo_ContextPackage current))),
         (''metadata'', VObj (fmap_of_list [(''troop_subtask_id'', VStr (mo_SubtaskID current)), (''troop_lease_id'', VStr (mo_LeaseID current))]))])
      else (af_RunPath cfg, fmap_of_list
        [(''task'', VObj (fmap_of_list [(''id'', VStr (mo_SubtaskID current)), (''version'', VInt64 (mo_Version current)),
            (''attempt'', VInt (mo_Attempt current))])),
         (''context_package'', VObj (mo_ContextPackage current))]))"

text \<open>What becomes of the response. The sum of the tokens is a sum of 64-bit integers.\<close>

definition runtime_result :: "AdapterFlags \<Rightarrow> RuntimeResponse \<Rightarrow> string + runtimeResult" where
  "runtime_result cfg resp =
     (if rs_Status resp \<ge> 300 then Inl (''runtime status '' @ itoa (rs_Status resp) @ '': '' @ take (64 * 1024) (rs_Text resp))
      else case rs_Decoded resp of
          Inl e \<Rightarrow> Inl e
        | Inr raw \<Rightarrow>
            let result = (if responses_profile (selected_profile cfg)
                  then \<lparr>rr_ResultRef = ''runtime://'' @ selected_profile cfg @ ''/responses/'' @ ra_ID raw,
                    rr_UsageTokens = (if ra_TotalTokens raw = 0 then wrap64 (ra_InputTokens raw + ra_OutputTokens raw) else ra_TotalTokens raw)\<rparr>
                  else \<lparr>rr_ResultRef = ra_Result raw, rr_UsageTokens = ra_Usage raw\<rparr>)
            in if rr_UsageTokens result < 0 then Inl ''runtime returned negative usage_tokens'' else Inr result)"

definition invokeRuntime ::
  "(payload \<Rightarrow> string) \<Rightarrow> AdapterFlags \<Rightarrow> (string \<Rightarrow> payload \<Rightarrow> string + RuntimeResponse) \<Rightarrow> ManagedOffer \<Rightarrow> string + runtimeResult" where
  "invokeRuntime marshal cfg runtime current =
     (case runtime_request marshal cfg current of (path, pl) \<Rightarrow>
        (case runtime path pl of Inl e \<Rightarrow> Inl e | Inr resp \<Rightarrow> runtime_result cfg resp))"

definition progress_body :: "AdapterFlags \<Rightarrow> ManagedOffer \<Rightarrow> payload" where
  "progress_body cfg current = fmap_of_list [(''agent_id'', VStr (af_ID cfg)), (''lease_id'', VStr (mo_LeaseID current)),
     (''fencing_token'', VInt64 (mo_FencingToken current))]"

fun progressLoop :: "AdapterFlags \<Rightarrow> 'w net \<Rightarrow> ManagedOffer \<Rightarrow> nat \<Rightarrow> 'w \<Rightarrow> 'w" where
  "progressLoop cfg post current 0 w = w"
| "progressLoop cfg post current (Suc n) w =
     progressLoop cfg post current n (snd (post (subtask_path (mo_SubtaskID current) ''progress'') (progress_body cfg current) w))"

definition managed_run ::
  "(payload \<Rightarrow> string) \<Rightarrow> AdapterFlags \<Rightarrow> (string \<Rightarrow> payload \<Rightarrow> string + RuntimeResponse) \<Rightarrow> 'w net \<Rightarrow> nat \<Rightarrow> ManagedOffer \<Rightarrow> 'w \<Rightarrow> 'w" where
  "managed_run marshal cfg runtime post beats current w =
     (case post (accept_path (mo_LeaseID current)) (accept_body (af_ID cfg) (mo_FencingToken current) (mo_Version current)) w of
        (Inl _, w) \<Rightarrow> w
      | (Inr accepted, w) \<Rightarrow>
         (case post (subtask_path (mo_SubtaskID current) ''start'') (start_body (af_ID cfg) (mo_FencingToken current) accepted) w of
            (Inl _, w) \<Rightarrow> w
          | (Inr started, w) \<Rightarrow>
              let w = progressLoop cfg post current beats w; body = start_body (af_ID cfg) (mo_FencingToken current) started in
              (case invokeRuntime marshal cfg runtime current of
                 Inl e \<Rightarrow> snd (post (subtask_path (mo_SubtaskID current) ''fail'') (fmupd ''reason'' (VStr e) body) w)
               | Inr result \<Rightarrow>
                   let ref = (if rr_ResultRef result = '''' then ''runtime://'' @ af_Platform cfg @ ''/'' @ mo_SubtaskID current
                         else rr_ResultRef result)
                   in snd (post (subtask_path (mo_SubtaskID current) ''complete'')
                        (fmupd ''idempotency_key'' (VStr (''managed-'' @ mo_SubtaskID current @ ''-'' @ itoa (mo_Attempt current)))
                          (fmupd ''result_ref'' (VStr ref) (fmupd ''usage_tokens'' (VInt64 (rr_UsageTokens result)) body))) w))))"

section \<open>What the adapters send\<close>

text \<open>A network with a log of what is sent over it.\<close>

definition logged :: "'w net \<Rightarrow> ('w \<times> (string \<times> payload) list) net" where
  "logged post path body wl = (case post path body (fst wl) of (r, w) \<Rightarrow> (r, (w, snd wl @ [(path, body)])))"

definition presents :: "string \<Rightarrow> int \<Rightarrow> payload \<Rightarrow> bool" where
  "presents ident token body \<longleftrightarrow> fmlookup body ''agent_id'' = Some (VStr ident) \<and> fmlookup body ''fencing_token'' = Some (VInt64 token)"

lemma presents_bodies [simp]:
  "presents ident token (accept_body ident token v)" "presents ident token (start_body ident token v)"
  "presents (af_ID cfg) (mo_FencingToken c) (progress_body cfg c)"
  by (simp_all add: presents_def accept_body_def start_body_def progress_body_def)

lemma presents_upd [simp]: "k \<noteq> ''agent_id'' \<Longrightarrow> k \<noteq> ''fencing_token'' \<Longrightarrow> presents ident token (fmupd k v b) = presents ident token b"
  by (auto simp: presents_def)

lemma progress_log:
  "snd (progressLoop cfg (logged post) c n wl) = snd wl @ replicate n (subtask_path (mo_SubtaskID c) ''progress'', progress_body cfg c)"
  by (induction n arbitrary: wl) (simp_all add: logged_def split: prod.split)

text \<open>
  The order of the protocol: the managed adapter sends an accept, then a start, then its progress beats and one final completion or
  failure; it stops at the first of the two opening requests that is refused, and every request presents the agent and the fencing
  token of the offer.
\<close>

theorem managed_run_protocol:
  fixes c :: ManagedOffer
  defines "accept \<equiv> accept_path (mo_LeaseID c)" and "path \<equiv> subtask_path (mo_SubtaskID c)"
  assumes "sent = snd (managed_run marshal cfg runtime (logged post) beats c (w, []))"
  shows "list_all (\<lambda>(_, body). presents (af_ID cfg) (mo_FencingToken c) body) sent
    \<and> (map fst sent = [accept] \<or> map fst sent = [accept, path ''start'']
       \<or> (\<exists>last \<in> {path ''complete'', path ''fail''}. map fst sent = [accept, path ''start''] @ replicate beats (path ''progress'') @ [last]))"
proof -
  let ?w1 = "(w, [])"
  obtain r1 w1 where 1: "post accept (accept_body (af_ID cfg) (mo_FencingToken c) (mo_Version c)) w = (r1, w1)" by fastforce
  show ?thesis
  proof (cases r1)
    case (Inl e)
    then show ?thesis using 1 assms by (simp add: managed_run_def logged_def)
  next
    case (Inr v)
    obtain r2 w2 where 2: "post (path ''start'') (start_body (af_ID cfg) (mo_FencingToken c) v) w1 = (r2, w2)" by fastforce
    show ?thesis
    proof (cases r2)
      case (Inl e)
      then show ?thesis using 1 2 \<open>r1 = Inr v\<close> assms by (simp add: managed_run_def logged_def)
    next
      case started: (Inr v')
      let ?opening = "[(accept, accept_body (af_ID cfg) (mo_FencingToken c) (mo_Version c)),
        (path ''start'', start_body (af_ID cfg) (mo_FencingToken c) v)]"
      obtain body last where "sent = ?opening @ replicate beats (path ''progress'', progress_body cfg c) @ [(last, body)]"
        "presents (af_ID cfg) (mo_FencingToken c) body" "last \<in> {path ''complete'', path ''fail''}"
        using 1 2 \<open>r1 = Inr v\<close> started assms progress_log [of cfg post c beats "(w2, ?opening)"]
        by (auto simp: managed_run_def logged_def [of post] Let_def split: prod.splits sum.splits)
      then show ?thesis by (auto simp: list_all_iff)
    qed
  qed
qed

section \<open>Against the server\<close>

text \<open>The in-memory store does what it is asked, call by call.\<close>

lemma accept_effect:
  assumes "store_wf s" "fmlookup (subtasks s) sid = Some sub" "st_State sub = StateOffered" "st_LeaseID sub \<noteq> ''''"
    and "fmlookup (leases s) (st_LeaseID sub) = Some l" "l_State l = LeaseActive"
  shows "\<exists>s1. AcceptLease (st_LeaseID sub) (l_FencingToken l) (st_Version sub) actor now s
      = (Inr (sub\<lparr>st_State := StateLeased, st_Version := st_Version sub + 1\<rparr>), s1)
    \<and> subtasks s1 = fmupd sid (sub\<lparr>st_State := StateLeased, st_Version := st_Version sub + 1\<rparr>) (subtasks s)
    \<and> leases s1 = leases s \<and> idem s1 = idem s"
proof -
  have "l_SubtaskID l = sid" using assms(1,2,4,5) unfolding store_wf_def leases_wf_def owners_wf_def by (metis option.inject)
  then show ?thesis using assms by (simp add: AcceptLease_def Apply_def Let_def)
qed

lemma start_effect:
  assumes "fmlookup (subtasks s) sid = Some sub" "st_State sub = StateLeased" "st_LeaseID sub \<noteq> ''''" "v = st_Version sub" "v' = v + 1"
    and "fmlookup (leases s) (st_LeaseID sub) = Some l" "l_State l = LeaseActive"
  shows "\<exists>s1. StartSubtask sid (l_FencingToken l) v actor now s = (Inr (sub\<lparr>st_State := StateRunning, st_Version := v'\<rparr>), s1)
    \<and> subtasks s1 = fmupd sid (sub\<lparr>st_State := StateRunning, st_Version := v'\<rparr>) (subtasks s)
    \<and> leases s1 = leases s \<and> idem s1 = idem s"
  using assms by (simp add: StartSubtask_def checkFencingLocked_def Apply_def Let_def)

text \<open>A completion that reports no usage can always be settled.\<close>

lemma settle_zero:
  assumes "store_wf s" "fmlookup (subtasks s) (st_ID sub) = Some sub"
  shows "\<exists>u. settleBudgetHoldLocked sub 0 actor now s = (Inr (), u)"
proof (cases "fmlookup (budgetHolds s) (st_ID sub)")
  case None
  then show ?thesis by (simp add: settleBudgetHoldLocked_def)
next
  case (Some h)
  have bud: "budgets_wf s" using assms(1) by (simp add: store_wf_def)
  have h: "hold_wf s (st_ID sub) h" using budgets_wfD(2) [OF bud Some] .
  then have m: "h_MissionID h = st_MissionID sub" using assms(2) by (auto simp: hold_wf_def split: option.splits)
  then obtain a where a: "fmlookup (budgets s) (st_MissionID sub) = Some a" using h by (auto simp: hold_wf_def)
  note acc = account_int64 [OF bud a]
  have "h_Amount h \<le> ba_Held a \<and> 0 < h_Amount h" if "h_Status h = BudgetHoldHeld"
    using held_ge [OF bud Some that m] h acc(5) by (simp add: hold_wf_def)
  moreover have "wrap64 (wrap64 (ba_Total a - ba_Spent a) - wrap64 (ba_Held a - h_Amount h)) = ba_Total a - ba_Spent a - (ba_Held a - h_Amount h)"
    "wrap64 (ba_Held a - h_Amount h) = ba_Held a - h_Amount h" if "h_Amount h \<le> ba_Held a \<and> 0 < h_Amount h"
    using that acc(1-4) by (auto simp: wrap64_id in_int64_def)
  ultimately show ?thesis using Some a acc(4) by (auto simp: settleBudgetHoldLocked_def Let_def)
qed

lemma complete_effect:
  assumes "store_wf s" "fmlookup (subtasks s) sid = Some sub" "st_State sub = StateRunning" "st_LeaseID sub \<noteq> ''''" "v = st_Version sub"
    and "fmlookup (leases s) (st_LeaseID sub) = Some l" "l_State l = LeaseActive" "fmlookup (idem s) key = None"
  shows "\<exists>sub' s1. CompleteSubtaskWithUsage sid (l_FencingToken l) key ref 0 v actor now s = (Inr sub', s1)"
proof -
  have "st_ID sub = sid" using assms(1,2) by (auto simp: store_wf_def keys_wf_def dest: keyed_byD)
  then obtain u where "settleBudgetHoldLocked sub 0 actor now s = (Inr (), u)" using settle_zero [of s sub actor now] assms(1,2) by auto
  then show ?thesis using assms
    by (simp add: CompleteSubtaskWithUsage_def completeSubtask_def checkFencingLocked_def Apply_def Let_def)
qed

text \<open>
  The HTTP client of the adapter, on a server without authentication: each request meets the server with the next environment (its
  clock, its codec). An answer of 300 or more is an error; of an answer below only the version of the subtask matters.
\<close>

definition client_request :: "string \<Rightarrow> string \<Rightarrow> Request" where
  "client_request path body = \<lparr>rq_Method = ''POST'', rq_Path = path, rq_Header = (\<lambda>_. ''''), rq_Query = (\<lambda>_. ''''), rq_Body = body,
     rq_BodyErr = None, rq_Host = '''', rq_TLS = False, rq_Identity = None, rq_PathValues = fmempty\<rparr>"

definition answer_version :: "Response option \<Rightarrow> int" where
  "answer_version r = (case r of Some resp \<Rightarrow> (case rs_Body resp of BSubtask sub \<Rightarrow> st_Version sub | _ \<Rightarrow> 0) | None \<Rightarrow> 0)"

definition http_net :: "(payload \<Rightarrow> string) \<Rightarrow> ('b Srv \<times> 'b ApiEnv list) net" where
  "http_net marshal path body w =
     (case w of
        (srv, []) \<Rightarrow> (Inl ''connection refused'', w)
      | (srv, env # envs) \<Rightarrow>
         (case serve env (client_request path (marshal body)) srv of
            None \<Rightarrow> (Inl ''timeout'', (srv, envs))
          | Some (r, srv) \<Rightarrow>
              (if status_of r \<ge> 300 then Inl (''status '' @ itoa (status_of r)) else Inr (answer_version r), (srv, envs))))"

lemma client_request_simps [simp]:
  "rq_Method (client_request p b) = ''POST''" "rq_Path (client_request p b) = p" "rq_Body (client_request p b) = b"
  "rq_BodyErr (client_request p b) = None"
  by (simp_all add: client_request_def)

lemma path_three:
  assumes "CHR ''/'' \<notin> set a" "CHR ''/'' \<notin> set x" "CHR ''/'' \<notin> set b" "b \<noteq> ''''"
  shows "path_segs (''/v1/'' @ a @ ''/'' @ x @ ''/'' @ b) = [''v1'', a, x, b]"
proof -
  have "path_segs (CHR ''/'' # (''v1'' @ CHR ''/'' # a @ CHR ''/'' # x @ CHR ''/'' # b)) = split_on (CHR ''/'') (''v1'' @ CHR ''/'' # a @ CHR ''/'' # x @ CHR ''/'' # b)"
    by (rule path_segs_inner) (use assms(3,4) in \<open>auto dest: last_in_set\<close>)
  also have "\<dots> = [''v1'', a, x, b]" using assms by (simp add: split_on_sep split_on_free del: append.simps)
  finally show ?thesis by simp
qed

lemma worker_routes:
  "find_route (routes False) ''POST'' [''v1'', ''leases'', x, ''accept''] = Some (h_acceptLease, fmupd ''id'' x fmempty)"
  "find_route (routes False) ''POST'' [''v1'', ''subtasks'', x, ''start''] = Some (h_startSubtask, fmupd ''id'' x fmempty)"
  "find_route (routes False) ''POST'' [''v1'', ''subtasks'', x, ''complete''] = Some (h_completeSubtask, fmupd ''id'' x fmempty)"
  by code_simp+

lemma serve_plain:
  assumes "sr_auth srv = None" "find_route (routes False) ''POST'' (path_segs p) = Some (h, vals)"
    and "dispatch env h (arriving env (client_request p b)\<lparr>rq_PathValues := vals\<rparr>) srv = Some (r, t)"
  shows "\<exists>t'. serve env (client_request p b) srv = Some (r, t') \<and> sr_svc t' = sr_svc t \<and> sr_auth t' = sr_auth t"
  using assms by (simp add: serve_eq authenticate_def route_request_def route_of_def)

lemma path_value [simp]: "pv (rq\<lparr>rq_PathValues := fmupd ''id'' x fmempty\<rparr>) ''id'' = x"
  by (simp add: pv_def header_get_def)

lemma post_accept:
  assumes "sr_auth srv = None" "CHR ''/'' \<notin> set lid"
    and "cd_accept (ev_codec env) (marshal body) None = (\<lparr>aq_AgentID = ident, aq_FencingToken = tok, aq_SubtaskVersion = v\<rparr>, None)"
    and "ServiceAcceptLease lid tok v ident (ev_now env) (sv_st (sr_svc srv)) = (Inr sub, s1)"
  shows "\<exists>srv1. http_net marshal (accept_path lid) body (srv, env # envs) = (Inr (st_Version sub), (srv1, envs))
    \<and> sr_auth srv1 = None \<and> sv_st (sr_svc srv1) = s1"
proof -
  have segs: "path_segs (accept_path lid) = [''v1'', ''leases'', lid, ''accept'']"
    using path_three [of "''leases''" lid "''accept''"] assms(2) by (simp add: accept_path_def)
  let ?t = "srv\<lparr>sr_svc := (sr_svc srv)\<lparr>sv_st := s1\<rparr>\<rparr>"
  have "dispatch env h_acceptLease (arriving env (client_request (accept_path lid) (marshal body))\<lparr>rq_PathValues := fmupd ''id'' lid fmempty\<rparr>) srv
      = Some (Some (writeJSON 200 (BSubtask sub)), ?t)"
    using assms by (simp add: dispatch_def acceptLease_def with_req_def decode_def guarded_def requireAgentIdentity_def reply_def on_store_def)
  from serve_plain [OF assms(1) _ this] segs worker_routes(1) [of lid] assms(1) show ?thesis
    by (auto simp: http_net_def status_of_def answer_version_def writeJSON_def)
qed

lemma post_start:
  assumes "sr_auth srv = None" "CHR ''/'' \<notin> set sid"
    and "cd_fenced (ev_codec env) (marshal body) None = (\<lparr>fq_AgentID = ident, fq_FencingToken = tok, fq_Version = v\<rparr>, None)"
    and "ServiceStartSubtask sid tok v ident (ev_now env) (sv_st (sr_svc srv)) = (Inr sub, s1)"
  shows "\<exists>srv1. http_net marshal (subtask_path sid ''start'') body (srv, env # envs) = (Inr (st_Version sub), (srv1, envs))
    \<and> sr_auth srv1 = None \<and> sv_st (sr_svc srv1) = s1"
proof -
  have segs: "path_segs (subtask_path sid ''start'') = [''v1'', ''subtasks'', sid, ''start'']"
    using path_three [of "''subtasks''" sid "''start''"] assms(2) by (simp add: subtask_path_def)
  let ?t = "srv\<lparr>sr_svc := (sr_svc srv)\<lparr>sv_st := s1\<rparr>\<rparr>"
  have "dispatch env h_startSubtask (arriving env (client_request (subtask_path sid ''start'') (marshal body))\<lparr>rq_PathValues := fmupd ''id'' sid fmempty\<rparr>) srv
      = Some (Some (writeJSON 200 (BSubtask sub)), ?t)"
    using assms by (simp add: dispatch_def startSubtask_def with_req_def decode_def guarded_def requireAgentIdentity_def reply_def on_store_def)
  from serve_plain [OF assms(1) _ this] segs worker_routes(2) [of sid] assms(1) show ?thesis
    by (auto simp: http_net_def status_of_def answer_version_def writeJSON_def)
qed

text \<open>Whatever the answer, a completion leaves the server with the service the operation left.\<close>

lemma post_complete:
  assumes "sr_auth srv = None" "CHR ''/'' \<notin> set sid"
    and "cd_complete (ev_codec env) (marshal body) None = (\<lparr>cq_AgentID = ident, cq_FencingToken = tok, cq_Version = v,
      cq_IdempotencyKey = key, cq_ResultRef = ref, cq_UsageTokens = 0\<rparr>, None)"
  shows "sr_svc (fst (snd (http_net marshal (subtask_path sid ''complete'') body (srv, env # envs))))
    = snd (ServiceCompleteSubtaskWithUsage (ev_ord env) sid tok key ref 0 v ident (ev_now env) (sr_svc srv))"
proof -
  have segs: "path_segs (subtask_path sid ''complete'') = [''v1'', ''subtasks'', sid, ''complete'']"
    using path_three [of "''subtasks''" sid "''complete''"] assms(2) by (simp add: subtask_path_def)
  let ?rq = "arriving env (client_request (subtask_path sid ''complete'') (marshal body))\<lparr>rq_PathValues := fmupd ''id'' sid fmempty\<rparr>"
  obtain r t where d: "completeSubtaskHandler env ?rq srv = (r, t)" by fastforce
  then have svc: "sr_svc t = snd (ServiceCompleteSubtaskWithUsage (ev_ord env) sid tok key ref 0 v ident (ev_now env) (sr_svc srv))"
    using assms by (auto simp: completeSubtaskHandler_def with_req_def decode_def guarded_def requireAgentIdentity_def
      split: prod.splits sum.splits if_splits)
  have "dispatch env h_completeSubtask ?rq srv = Some (r, t)" using d by (simp add: dispatch_def)
  from serve_plain [OF assms(1) _ this] segs worker_routes(3) [of sid] svc show ?thesis
    by (auto simp: http_net_def)
qed

text \<open>A successful completion of the store survives what the service does after it.\<close>

lemma service_complete_final:
  assumes "reachable (sv_st sv)" "authorizeSubtaskLeaseOwner sid tok ident False (sv_st sv) = Inr cur"
    and "CompleteSubtaskWithUsage sid tok key ref 0 v (agent_actor ident) now (sv_st sv) = (Inr sub, s1)"
  shows "fmlookup (subtasks (sv_st (snd (ServiceCompleteSubtaskWithUsage ord sid tok key ref 0 v ident now sv)))) sid = Some sub
    \<and> st_State sub = StateSucceeded \<and> st_ResultRef sub = ref"
proof -
  have fin: "fmlookup (subtasks s1) sid = Some sub" "st_State sub = StateSucceeded" "st_ResultRef sub = ref"
    using assms(3) unfolding CompleteSubtaskWithUsage_def by (auto elim!: completeSubtask_Inr)
  have s1: "reaches (sv_st sv) s1"
  proof -
    have "reaches (sv_st sv) (snd (CompleteSubtaskWithUsage sid tok key ref 0 v (agent_actor ident) now (sv_st sv)))"
      by (intro runs reaches_refl) (simp add: in_int64_def)
    then show ?thesis by (simp add: assms(3))
  qed
  have "srun s1 (snd (ServiceCompleteSubtaskWithUsage ord sid tok key ref 0 v ident now sv))"
  proof -
    let ?sv = "sv\<lparr>sv_st := s1\<rparr>"
    obtain r sv2 where p: "on_store (propagate ord sub (agent_actor ident) now) ?sv = (r, sv2)" by fastforce
    then have "srun s1 sv2" by (rule srun_on_store_case) (simp add: run_propagate reaches_refl)
    then show ?thesis
      using p assms(2,3) by (cases r) (auto simp: ServiceCompleteSubtaskWithUsage_def on_store_def Let_def intro!: run_outcome_record split: prod.splits)
  qed
  then have evo: "evolves subtask_le (subtasks s1) (subtasks (sv_st (snd (ServiceCompleteSubtaskWithUsage ord sid tok key ref 0 v ident now sv))))"
    using reachable_history [OF reachable_run [OF assms(1) s1]] by (simp add: history_def)
  obtain x where x: "fmlookup (subtasks (sv_st (snd (ServiceCompleteSubtaskWithUsage ord sid tok key ref 0 v ident now sv)))) sid = Some x"
    "subtask_le sub x" using evolvesD [OF evo fin(1)] by blast
  have "absorbing (st_State sub)" using fin(2) by (simp add: absorbing_def)
  then have "x = sub" using x(2) unfolding subtask_le_def by blast
  with x(1) fin(2,3) show ?thesis by simp
qed

text \<open>The request bodies read back as what the adapter meant: the codec of each request decodes what \<open>marshal\<close> encodes.\<close>

definition decodes_run :: "(payload \<Rightarrow> string) \<Rightarrow> string \<Rightarrow> string \<Rightarrow> int \<Rightarrow> int \<Rightarrow> Codec \<Rightarrow> Codec \<Rightarrow> Codec \<Rightarrow> bool" where
  "decodes_run marshal ident sid tok v c1 c2 c3 \<longleftrightarrow>
     cd_accept c1 (marshal (accept_body ident tok v)) None = (\<lparr>aq_AgentID = ident, aq_FencingToken = tok, aq_SubtaskVersion = v\<rparr>, None)
     \<and> cd_fenced c2 (marshal (start_body ident tok (v + 1))) None = (\<lparr>fq_AgentID = ident, fq_FencingToken = tok, fq_Version = v + 1\<rparr>, None)
     \<and> cd_complete c3 (marshal (echo_complete_body ident sid tok (v + 2))) None
       = (\<lparr>cq_AgentID = ident, cq_FencingToken = tok, cq_Version = v + 2, cq_IdempotencyKey = ''echo-'' @ sid,
           cq_ResultRef = ''echo://'' @ ident @ ''/'' @ sid, cq_UsageTokens = 0\<rparr>, None)"

text \<open>C8: A task that is offered gets done. Adapter, HTTP API, service and store together: when a subtask is offered to an agent under
  an ACTIVE lease in a reachable state, and its result was not delivered before, the reference adapter of that agent, talking to a server
  without authentication, takes the subtask through acceptance and start to SUCCEEDED with the adapter's result, whatever budget, parent
  or dependents the subtask has.\<close>

theorem echo_task_completes:
  assumes "reachable (sv_st (sr_svc srv))" "sr_auth srv = None"
    and "fmlookup (subtasks (sv_st (sr_svc srv))) sid = Some sub" "st_State sub = StateOffered" "st_LeaseID sub = lid" "lid \<noteq> ''''"
    and "fmlookup (leases (sv_st (sr_svc srv))) lid = Some l" "l_State l = LeaseActive" "l_AgentID l = ident" "ident \<noteq> ''''"
    and "fmlookup (idem (sv_st (sr_svc srv))) (''echo-'' @ sid) = None" "CHR ''/'' \<notin> set lid" "CHR ''/'' \<notin> set sid"
    and "decodes_run marshal ident sid (l_FencingToken l) (st_Version sub) (ev_codec e1) (ev_codec e2) (ev_codec e3)"
    and "srv' = fst (runTask ident (http_net marshal) sid (st_Version sub) lid (l_FencingToken l) (srv, [e1, e2, e3]))"
  shows "\<exists>result. fmlookup (subtasks (sv_st (sr_svc srv'))) sid = Some result \<and> st_State result = StateSucceeded
    \<and> st_ResultRef result = ''echo://'' @ ident @ ''/'' @ sid"
proof -
  let ?s = "sv_st (sr_svc srv)" and ?tok = "l_FencingToken l" and ?v = "st_Version sub"
  have wf: "store_wf ?s" by (rule reachable_wf [OF assms(1)])
  have own: "l_SubtaskID l = sid" using wf assms(3,5-7) unfolding store_wf_def leases_wf_def owners_wf_def by (metis option.inject)
  let ?sub1 = "sub\<lparr>st_State := StateLeased, st_Version := ?v + 1\<rparr>"
  let ?sub2 = "sub\<lparr>st_State := StateRunning, st_Version := ?v + 2\<rparr>"
  obtain s1 where s1: "AcceptLease lid ?tok ?v (agent_actor ident) (ev_now e1) ?s = (Inr ?sub1, s1)" "subtasks s1 = fmupd sid ?sub1 (subtasks ?s)"
      "leases s1 = leases ?s" "idem s1 = idem ?s"
    using accept_effect [OF wf assms(3,4)] assms(5-8) by blast
  then have a1: "ServiceAcceptLease lid ?tok ?v ident (ev_now e1) ?s = (Inr ?sub1, s1)"
    using assms(7-10) by (simp add: ServiceAcceptLease_def authorizeLeaseOwner_def GetLease_def)
  obtain s2 where s2: "StartSubtask sid ?tok (?v + 1) (agent_actor ident) (ev_now e2) s1 = (Inr ?sub2, s2)" "subtasks s2 = fmupd sid ?sub2 (subtasks s1)"
      "leases s2 = leases ?s" "idem s2 = idem ?s"
    using start_effect [of s1 sid ?sub1 "?v + 1" "?v + 2" l "agent_actor ident" "ev_now e2"] s1 assms(5-8) by auto
  then have a2: "ServiceStartSubtask sid ?tok (?v + 1) ident (ev_now e2) s1 = (Inr ?sub2, s2)"
    using s1 assms(5-10) own by (simp add: ServiceStartSubtask_def authorizeSubtaskLeaseOwner_def authorizeLeaseOwner_def GetLease_def GetSubtask_def)
  have r2: "reachable s2"
    using run_start [OF run_accept [OF reaches_refl [of ?s], of lid ?tok ?v ident "ev_now e1"], of sid ?tok "?v + 1" ident "ev_now e2"] a1 a2 reachable_run [OF assms(1)]
    by simp
  obtain sub3 s3 where s3: "CompleteSubtaskWithUsage sid ?tok (''echo-'' @ sid) (''echo://'' @ ident @ ''/'' @ sid) 0 (?v + 2) (agent_actor ident) (ev_now e3) s2
      = (Inr sub3, s3)"
    using complete_effect [OF reachable_wf [OF r2], of sid ?sub2 "?v + 2" l "''echo-'' @ sid" "''echo://'' @ ident @ ''/'' @ sid" "agent_actor ident" "ev_now e3"] s1 s2 assms(5-11)
    by auto
  have cur: "authorizeSubtaskLeaseOwner sid ?tok ident False s2 = Inr ?sub2"
    using s1 s2 assms(5-10) own by (simp add: authorizeSubtaskLeaseOwner_def authorizeLeaseOwner_def GetLease_def GetSubtask_def)
  note dec = assms(14) [unfolded decodes_run_def]
  obtain srv1 where p1: "http_net marshal (accept_path lid) (accept_body ident ?tok ?v) (srv, [e1, e2, e3]) = (Inr (?v + 1), (srv1, [e2, e3]))"
      "sr_auth srv1 = None" "sv_st (sr_svc srv1) = s1"
    using post_accept [OF assms(2,12) _ a1, of marshal "accept_body ident ?tok ?v" "[e2, e3]"] dec by auto
  obtain srv2 where p2: "http_net marshal (subtask_path sid ''start'') (start_body ident ?tok (?v + 1)) (srv1, [e2, e3]) = (Inr (?v + 2), (srv2, [e3]))"
      "sr_auth srv2 = None" "sv_st (sr_svc srv2) = s2"
    using post_start [OF p1(2) assms(13), of e2 marshal "start_body ident ?tok (?v + 1)" ident ?tok "?v + 1" ?sub2 s2 "[e3]"] dec a2 p1(3) by auto
  have "sr_svc srv' = snd (ServiceCompleteSubtaskWithUsage (ev_ord e3) sid ?tok (''echo-'' @ sid) (''echo://'' @ ident @ ''/'' @ sid) 0 (?v + 2) ident (ev_now e3) (sr_svc srv2))"
    using post_complete [OF p2(2) assms(13), of e3 marshal "echo_complete_body ident sid ?tok (?v + 2)" ident ?tok "?v + 2"] dec p1(1) p2(1) assms(15)
    by (simp add: runTask_def echo_complete_body_def)
  then show ?thesis
    using service_complete_final [of "sr_svc srv2" sid ?tok ident ?sub2] r2 cur s3 p2(3) by auto
qed

text \<open>The offered subtask of the scenario.\<close>

definition echo_codec :: Codec where
  "echo_codec = demo_codec\<lparr>cd_complete := one_body \<lparr>cq_AgentID = ''agt_1'', cq_FencingToken = 1, cq_Version = 4,
     cq_IdempotencyKey = ''echo-sub_a'', cq_ResultRef = ''echo://agt_1/sub_a'', cq_UsageTokens = 0\<rparr>\<rparr>"

theorem echo_task_completes_witness:
  "\<exists>result. fmlookup (subtasks (sv_st (sr_svc (fst (runTask ''agt_1'' (http_net (\<lambda>_. '''')) ''sub_a'' 2 (leaseID 1) 1
       (NewServer (NewService scn_offered DefaultConfig) NewMemBlob, [demo_env\<lparr>ev_codec := echo_codec\<rparr>, demo_env\<lparr>ev_codec := echo_codec\<rparr>, demo_env\<lparr>ev_codec := echo_codec\<rparr>])))))) ''sub_a''
     = Some result \<and> st_State result = StateSucceeded \<and> st_ResultRef result = ''echo://agt_1/sub_a''"
proof -
  have facts: "case fmlookup (subtasks scn_offered) ''sub_a'' of None \<Rightarrow> False | Some sub \<Rightarrow> st_State sub = StateOffered \<and> st_LeaseID sub = leaseID 1 \<and> st_Version sub = 2"
    "fmlookup (idem scn_offered) ''echo-sub_a'' = None" "leaseID 1 \<noteq> '''' \<and> CHR ''/'' \<notin> set (leaseID 1)"
    by code_simp+
  then obtain sub where sub: "fmlookup (subtasks scn_offered) ''sub_a'' = Some sub" "st_State sub = StateOffered" "st_LeaseID sub = leaseID 1" "st_Version sub = 2"
    by (auto split: option.splits)
  note reachable_offered
  moreover have "l_State scn_lease = LeaseActive" "l_AgentID scn_lease = ''agt_1''" "l_FencingToken scn_lease = 1" by (simp_all add: scn_lease_def)
  ultimately show ?thesis
    using echo_task_completes [of "NewServer (NewService scn_offered DefaultConfig) NewMemBlob" "''sub_a''" sub "leaseID 1" scn_lease "''agt_1''" "\<lambda>_. ''''"] sub facts
      lease_offered
    by (simp add: NewServer_def NewService_def decodes_run_def echo_codec_def demo_codec_def one_body_def)
qed

end
