(* ===== verification/Spec2Isabelle.thy ===== *)
theory Spec2Isabelle
  imports ServiceRuns AuthProps ApiRuns ApiStream PgProps PgStream Adapters
begin

text \<open>
  Agent Troop (\<open>src/\<close>) is a control plane that hands the subtasks of missions to agents. A human or an agent submits a mission as a
  task graph; the scheduler offers ready subtasks to registered agents under leases with fencing tokens; agents report progress, results
  and failures over HTTP; subtasks may suspend until a wake condition holds, wait for a human decision, or delegate children inside their
  own rights and budget; a sweeper repairs what was cut short. This development models the Go code of the program and proves what makes
  it correct. Names of definitions are the names of the code; a prefix \<open>Service\<close> marks a service method whose store method has the same
  name, and \<open>pg_\<close> a method of the PostgreSQL store.

  \<^bold>\<open>The layers and how they call each other.\<close>
  \<^item> \<open>internal/mission\<close>: types, the subtask state machine (\<open>Apply\<close>, \<open>transitions\<close>, \<open>MissionStatusOf\<close>) and permission envelopes, in
    \<open>MissionTypes\<close>, \<open>StateMachine\<close>, \<open>Permissions\<close>. Everything else calls \<open>Apply\<close> before it changes a state.
  \<^item> \<open>internal/store\<close>: the records of the store interface, context packages, reputation and price arithmetic, in \<open>StoreTypes\<close>,
    \<open>ContextPackages\<close>, \<open>Quality\<close>; \<open>float64\<close> is \<open>Float64\<close> (a real number, every operation rounded to 53 bits).
  \<^item> \<open>internal/store/memory\<close>: the record \<open>Store\<close> has one finite map per Go map, the event log as a list and the counters; a method is a
    function \<open>Store \<Rightarrow> (error + result) \<times> Store\<close> with every branch of the code. \<open>MemState\<close> (helpers), \<open>MemTasks\<close>, \<open>MemLeases\<close>,
    \<open>MemExec\<close>, \<open>MemDelegate\<close>, \<open>MemWake\<close>, \<open>MemDecisions\<close>, \<open>MemBoard\<close>. Every method holds the mutex, so a method is one step.
  \<^item> \<open>internal/store/pg\<close>: the record \<open>Db\<close> has one finite map per table of \<open>migrations/\<close> and the two sequences; a method is the same kind of
    function, wrapped in \<open>tx\<close> (commit, or rollback of the tables but not of the sequences), over statements that fail when a primary
    key, foreign key, check or unique index says so. \<open>PgState\<close> (tables and shared statements), \<open>PgTasks\<close>, \<open>PgLeases\<close>, \<open>PgExec\<close>,
    \<open>PgDelegate\<close>, \<open>PgWake\<close>, \<open>PgBoard\<close>.
  \<^item> \<open>internal/core\<close>: the service over the in-memory store. \<open>Dag\<close> (\<open>validateDAG\<close>), \<open>CoreMission\<close> and \<open>CoreExec\<close> and \<open>CoreSweep\<close>
    (\<open>service.go\<close>), \<open>CoreSchedule\<close> (\<open>scheduler.go\<close>), \<open>CoreHitl\<close> (\<open>hitl.go\<close>), \<open>CoreDelegate\<close> (\<open>delegate.go\<close>, \<open>lead.go\<close>), \<open>CoreIntent\<close>
    (\<open>intent.go\<close>), \<open>Cel\<close> (\<open>cel.go\<close>), \<open>CoreTrigger\<close> (\<open>trigger.go\<close>), \<open>CoreQuality\<close> (\<open>quality.go\<close>, \<open>blob.go\<close>), \<open>CoreProduct\<close>
    (\<open>product.go\<close>, \<open>observability.go\<close>), \<open>CoreQuery\<close> (methods that only pass a call on). The record \<open>Service\<close> holds the store, the
    configuration and the reputation cache.
  \<^item> \<open>internal/auth\<close>: \<open>AuthTokens\<close> (platform tokens, signed artifact URLs, external tokens with the key cache) over \<open>Base64\<close> (the string
    functions of Go's library).
  \<^item> \<open>internal/api\<close>: \<open>ApiHttp\<close> (requests, router, route table), \<open>ApiServer\<close> (state, identity checks), \<open>ApiHandlers\<close> (\<open>http.go\<close>),
    \<open>ApiProtocol\<close> (the handlers of \<open>auth.go\<close>, \<open>m9.go\<close>, \<open>m10.go\<close>, \<open>protocol.go\<close>), \<open>ApiServe\<close> (the pipeline around the router).
  \<^item> \<open>adapters\<close>: \<open>Adapters\<close>, the worker side of the protocol over a network that is a parameter.

  \<^bold>\<open>What is shown.\<close>
  \<^item> In-memory store. \<open>MemReach\<close> has one rule of \<open>mem_step\<close> per method that writes; \<open>MemInvariants\<close> proves, in the locale
    \<open>store_invariant\<close>, that a predicate kept by every write is kept by every run; \<open>MemSafety\<close> interprets it with well-formedness
    (\<open>MemWf\<close>), the history order (\<open>MemHistory\<close>) and the reputation bounds. \<open>LeaseProps\<close>, \<open>StoreProps\<close>, \<open>SweepProps\<close>, \<open>QueueProps\<close>
    derive fencing, one completion, balanced budgets, forward-only life cycles, exact sweeps, exact paging and bounded scores.
  \<^item> Service. \<open>CoreRuns\<close> and \<open>ServiceRuns\<close> show that every operation of the service is a run of the store; \<open>MissionProps\<close>,
    \<open>ScheduleProps\<close>, \<open>HitlProps\<close>, \<open>TriggerProps\<close>, \<open>CelProps\<close>, \<open>FilterProps\<close>, \<open>RecoveryProps\<close>, \<open>QualityProps\<close>, \<open>ProductProps\<close>,
    \<open>AdmissionProps\<close>, \<open>DelegateProps\<close> and the first section below (failure and retry) state the whole effect of the operations, errors
    included.
  \<^item> PostgreSQL store. \<open>PgInvariants\<close> has the locale \<open>sql_writes\<close> and one rule of \<open>pg_step\<close> per method; \<open>PgWf\<close> is its instance.
    \<open>StoreContract\<close> states optimistic locking, fencing and what a transition writes as an abstract machine over the records a client sees
    (lease ids up to presence, times to the microsecond, JSON in normal form) and interprets the locale \<open>fenced_store\<close> on both stores;
    \<open>PgProps\<close> concludes that for five of the calls, with JSON checkpoints and portable mutators, they answer alike, returned records
    included, and where they do not; \<open>PgStream\<close> shows the event stream exact for transactions one
    after the other and losing events for overlapping ones.
  \<^item> HTTP edge. \<open>ApiRuns\<close>: a request is a step of the service or none. \<open>ApiRoutes\<close> and \<open>ApiAccess\<close>: who may change what, and the holes of
    the policy. \<open>ApiStream\<close>: the event stream, and two answers that do not say what happened. \<open>AuthProps\<close>: tokens and signed URLs.
  \<^item> \<open>Adapters\<close>: what a worker sends, and that an offered task gets done through adapter, HTTP API, service and store.
  \<^item> \<open>Scenario\<close>, \<open>ApiDemo\<close> and the first part of \<open>PgProps\<close> are concrete runs on which the theorems are instantiated.

  \<^bold>\<open>Parameters.\<close> Code outside \<open>src/\<close> is an argument: the CEL engine, \<open>encoding/json\<close> (\<open>Codec\<close>, \<open>JSON\<close>, \<open>jsonb\<close>), SHA-256, HMAC and RSA, the
  HTTP client that fetches keys, the network and the runtime of the adapters. So are the order in which Go visits a map (\<open>order\<close>, with
  \<open>valid_order\<close> as its law), fresh ids, and the clock: an operation reads one time, where the code may read the clock several times.
  Integers of the code are \<open>int\<close> with \<open>wrap64\<close> where the arithmetic can leave 64 bits; times are nanoseconds since the epoch.

  \<^bold>\<open>Loops and bounds.\<close> The loops of the code are structural recursion or end by a measure: \<open>kahn\<close> by the queue and the edges left, \<open>cancel_loop\<close> by the
  subtasks not yet marked, \<open>scan_events\<close> by the events after the cursor. The walk along rework links is a \<open>partial_function\<close> because a
  cycle would never end; \<open>rework_chain_ends\<close> shows that it ends in every reachable state. The walk to the parents (\<open>climb\<close>)
  counts its steps in the code; the counter is its argument. Streams and progress loops, which run until the client leaves, take the number of their ticks.

  \<^bold>\<open>Not modelled.\<close> The S3 blob store and the file system blob store (their behaviour is that of the network and the operating system),
  \<open>internal/clock\<close>, the console page (a constant), \<open>cmd/troopd\<close> (process wiring), the timers, flags and HTTP client calls of the adapters,
  \<open>New\<close>, \<open>Connect\<close>, \<open>Close\<close> and \<open>Ping\<close> of the PostgreSQL store (the connection pool), and errors of the database server other than violated
  constraints. Concurrency is modelled where it can be seen: methods of the in-memory store run one at a time under its mutex, methods of
  the PostgreSQL store lock the rows they decide on, and \<open>PgStream\<close> interleaves the one effect that is not protected by a lock.
\<close>

section \<open>Failure and retry\<close>

lemma record_signal_frame:
  "subtasks (sv_st (record_signal now ag sig sv)) = subtasks (sv_st sv)"
  "missions (sv_st (record_signal now ag sig sv)) = missions (sv_st sv)"
  "leases (sv_st (record_signal now ag sig sv)) = leases (sv_st sv)"
  by (auto simp: record_signal_def on_store_def StoreApplyReputationSignal_def applyReputationSignalLocked_def invalidateReputation_def Let_def
      split: option.splits)

lemma recordOutcome_frame [simp]:
  "subtasks (sv_st (recordOutcome sub ok ag lat now sv)) = subtasks (sv_st sv)"
  "missions (sv_st (recordOutcome sub ok ag lat now sv)) = missions (sv_st sv)"
  "leases (sv_st (recordOutcome sub ok ag lat now sv)) = leases (sv_st sv)"
proof -
  let ?I = "\<lambda>u. subtasks (sv_st u) = subtasks (sv_st sv) \<and> missions (sv_st u) = missions (sv_st sv) \<and> leases (sv_st u) = leases (sv_st sv)"
  have "?I (recordOutcome sub ok ag lat now sv)"
    unfolding recordOutcome_def by (auto intro!: fold_inv [where I = ?I] simp: record_signal_frame)
  then show "subtasks (sv_st (recordOutcome sub ok ag lat now sv)) = subtasks (sv_st sv)"
    "missions (sv_st (recordOutcome sub ok ag lat now sv)) = missions (sv_st sv)"
    "leases (sv_st (recordOutcome sub ok ag lat now sv)) = leases (sv_st sv)" by simp_all
qed

lemma TransitionSubtask_frame [simp]:
  "leases (snd (TransitionSubtask ident ev v actor pl now m s)) = leases s"
  "missions (snd (TransitionSubtask ident ev v actor pl now m s)) = missions s"
  by (auto simp: TransitionSubtask_def Let_def split: option.split sum.split prod.split)

lemma cancel_pass_frame:
  "leases (snd (cancel_pass f actor now subs dead s)) = leases s \<and> missions (snd (cancel_pass f actor now subs dead s)) = missions s"
proof (induction f actor now subs dead s rule: cancel_pass.induct)
  case (2 f actor now sub subs dead s)
  let ?r = "TransitionSubtask (st_ID sub) EvCancelled (st_Version sub) actor (Some (fmap_of_list [(''reason'', VStr (''upstream failed: '' @ f))])) now None s"
  show ?case
    using 2 by (auto intro!: and_then_inv [where I = "\<lambda>u. leases u = leases s \<and> missions u = missions s"])
qed simp

lemma cancel_loop_frame:
  "leases (snd (cancel_loop f actor now subs dead s)) = leases s \<and> missions (snd (cancel_loop f actor now subs dead s)) = missions s"
proof (induction f actor now subs dead s rule: cancel_loop.induct)
  case (1 f actor now subs dead s)
  then show ?case using cancel_pass_frame [of f actor now subs dead s]
    by (subst (1 2) cancel_loop.simps) (auto split: prod.split sum.split)
qed

lemma deriveMissionStatus_frame [simp]: "leases (snd (deriveMissionStatus ord m now s)) = leases s"
  by (auto simp: deriveMissionStatus_def tolerate_conflict_def GetMission_def SetMissionStatus_def Let_def split: option.splits sum.splits)

text \<open>What a worker has to hold to report a failure: the ACTIVE lease of the RUNNING subtask, its token, and the current version.\<close>

definition may_fail :: "Store \<Rightarrow> string \<Rightarrow> int \<Rightarrow> int \<Rightarrow> string \<Rightarrow> Subtask \<Rightarrow> Lease \<Rightarrow> bool" where
  "may_fail s k tok v ag sub l \<longleftrightarrow> fmlookup (subtasks s) k = Some sub \<and> st_State sub = StateRunning \<and> st_Version sub = v
     \<and> st_LeaseID sub \<noteq> '''' \<and> fmlookup (leases s) (st_LeaseID sub) = Some l \<and> l_State l = LeaseActive \<and> l_FencingToken l = tok
     \<and> l_AgentID l = ag \<and> ag \<noteq> ''''"

definition failed_task :: "Subtask \<Rightarrow> Subtask" where
  "failed_task sub = sub\<lparr>st_State := StateFailed, st_Version := st_Version sub + 1\<rparr>"

lemma failed_task_fields [simp]:
  "st_ID (failed_task sub) = st_ID sub" "st_MissionID (failed_task sub) = st_MissionID sub" "st_Attempt (failed_task sub) = st_Attempt sub"
  "st_Retry (failed_task sub) = st_Retry sub" "st_State (failed_task sub) = StateFailed"
  by (simp_all add: failed_task_def)

definition retried_task :: "Subtask \<Rightarrow> Subtask" where
  "retried_task sub = sub\<lparr>st_State := StateReady, st_Attempt := st_Attempt sub + 1, st_Assignee := '''', st_LeaseID := '''',
     st_Version := st_Version sub + 2\<rparr>"

text \<open>The lease of the subtask is released, and no other lease changes.\<close>

definition gave_back :: "Subtask \<Rightarrow> Lease \<Rightarrow> Store \<Rightarrow> Store \<Rightarrow> bool" where
  "gave_back sub l s t \<longleftrightarrow> leases t = fmupd (st_LeaseID sub) (l\<lparr>l_State := LeaseReleased\<rparr>) (leases s)"

text \<open>The subtasks a permanent failure of \<open>k\<close> takes down are the PENDING ones that depend on it.\<close>

definition taken_down :: "Store \<Rightarrow> string \<Rightarrow> string \<Rightarrow> Subtask \<Rightarrow> string \<Rightarrow> bool" where
  "taken_down s m k x j \<longleftrightarrow> st_MissionID x = m \<and> st_State x = StatePending \<and> doomed s m k j"

lemma Apply_failed: "Apply x EvFailed = Inr y \<longleftrightarrow> x = StateRunning \<and> y = StateFailed"
  by (cases x) (auto simp: Apply_def)

lemma fail_goes:
  assumes "store_wf s" "may_fail s k tok v ag sub l"
  shows "authorizeSubtaskLeaseOwner k tok ag True s = Inr sub"
    and "\<exists>t. FailSubtask k tok reason v actor now s = (Inr (failed_task sub), t) \<and> subtasks t = fmupd k (failed_task sub) (subtasks s)
      \<and> missions t = missions s \<and> gave_back sub l s t"
proof -
  have "l_SubtaskID l = k" using assms by (force simp: store_wf_def leases_wf_def owners_wf_def may_fail_def)
  with assms(2) show "authorizeSubtaskLeaseOwner k tok ag True s = Inr sub"
    by (simp add: may_fail_def authorizeSubtaskLeaseOwner_def authorizeLeaseOwner_def GetSubtask_def GetLease_def)
  have "Apply StateRunning EvFailed = Inr StateFailed" by (simp add: Apply_failed)
  then show "\<exists>t. FailSubtask k tok reason v actor now s = (Inr (failed_task sub), t) \<and> subtasks t = fmupd k (failed_task sub) (subtasks s)
      \<and> missions t = missions s \<and> gave_back sub l s t"
    using assms(2) by (simp add: may_fail_def FailSubtask_def checkFencingLocked_def failed_task_def gave_back_def releaseLeaseLocked_def Let_def)
qed

lemma fail_refused:
  assumes "\<nexists>sub l. may_fail s k tok v ag sub l"
  shows "(\<exists>e. authorizeSubtaskLeaseOwner k tok ag True s = Inl e) \<or> (\<exists>e. FailSubtask k tok reason v actor now s = (Inl e, s))"
proof (rule ccontr)
  assume a: "\<not> ?thesis"
  then obtain sub where auth: "authorizeSubtaskLeaseOwner k tok ag True s = Inr sub"
    by (cases "authorizeSubtaskLeaseOwner k tok ag True s") auto
  then obtain l where l: "fmlookup (subtasks s) k = Some sub" "st_LeaseID sub \<noteq> ''''" "ag \<noteq> ''''" "l_AgentID l = ag"
    "fmlookup (leases s) (st_LeaseID sub) = Some l" "l_State l = LeaseActive" "l_FencingToken l = tok"
    by (auto simp: authorizeSubtaskLeaseOwner_def authorizeLeaseOwner_def GetSubtask_def GetLease_def split: option.splits if_splits)
  have a: "FailSubtask k tok reason v actor now s \<noteq> (Inl e, s)" for e using a by blast
  have "st_Version sub = v" using a [of ErrConflict] l(1) by (cases "st_Version sub = v") (simp_all add: FailSubtask_def)
  moreover have "st_State sub = StateRunning"
  proof (cases "Apply (st_State sub) EvFailed")
    case (Inl e)
    with a [of ErrConflict] l \<open>st_Version sub = v\<close> show ?thesis by (auto simp: FailSubtask_def checkFencingLocked_def)
  qed (simp add: Apply_failed)
  ultimately show False using assms l by (auto simp: may_fail_def)
qed

text \<open>A failed subtask is not PENDING before or after, so the dependents of \<open>k\<close> are the same in both stores.\<close>

lemma doomed_mono:
  assumes "doomed s m k j" "\<And>i x. i \<noteq> k \<Longrightarrow> fmlookup (subtasks s) i = Some x \<Longrightarrow> fmlookup (subtasks t) i = Some x"
  shows "doomed t m k j"
  using assms(1)
proof induction
  case (doomed_dep j x dep)
  then show ?case using assms(2) [of j x] by (cases "j = k") (auto intro: doomed.intros)
qed (rule doomed_root)

lemma failed_doomed:
  assumes "subtasks t = fmupd k y (subtasks s)"
  shows "doomed t m k j \<longleftrightarrow> doomed s m k j"
  using assms by (auto intro: doomed_mono [of s m k j t] doomed_mono [of t m k j s])

lemma fail_permanent:
  assumes "reachable t" "valid_order ord" "subtasks t = fmupd k y (subtasks s)" "st_ID y = k" "st_State y = StateFailed"
    and "fmlookup (missions t) (st_MissionID y) = Some m"
  shows "\<exists>u w. cancelUnreachable ord y actor now t = (Inr (), u) \<and> deriveMissionStatus ord (st_MissionID y) now u = (Inr (), w)
    \<and> leases w = leases t \<and> fmlookup (missions w) (st_MissionID y) = Some (derived_mission ord w m)
    \<and> (\<forall>j. fmlookup (subtasks w) j = (if j = k then Some y
         else map_option (\<lambda>x. if taken_down s (st_MissionID y) k x j then cancelled_pending x else x) (fmlookup (subtasks s) j)))"
proof -
  from cancelUnreachable_exact [OF assms(1,2), of y actor now] obtain u where u: "cancelUnreachable ord y actor now t = (Inr (), u)"
    "\<forall>j. fmlookup (subtasks u) j = map_option (\<lambda>x. if j \<noteq> st_ID y \<and> st_MissionID x = st_MissionID y \<and> st_State x = StatePending
        \<and> doomed t (st_MissionID y) (st_ID y) j then cancelled_pending x else x) (fmlookup (subtasks t) j)" by blast
  have frame: "leases u = leases t" "missions u = missions t"
    using u(1) cancel_loop_frame [of "st_ID y" actor now "ListSubtasks ord (st_MissionID y) t" "[st_ID y]" t]
    by (simp_all add: cancelUnreachable_def)
  have "m_ID m = st_MissionID y" using reachable_wf [OF assms(1)] assms(6) by (auto simp: store_wf_def dest: keys_wfD)
  with derive_exact [of u "st_MissionID y" m ord now] assms(6) frame(2) obtain w where
    w: "deriveMissionStatus ord (st_MissionID y) now u = (Inr (), w)" "subtasks w = subtasks u"
      "fmlookup (missions w) (st_MissionID y) = Some (derived_mission ord u m)" by auto
  have "leases w = leases u" using deriveMissionStatus_frame [of ord "st_MissionID y" now u] w(1) by simp
  moreover have "derived_mission ord u m = derived_mission ord w m" using w(2) by (simp add: derived_mission_def ListSubtasks_def)
  moreover have "fmlookup (subtasks w) j = (if j = k then Some y
         else map_option (\<lambda>x. if taken_down s (st_MissionID y) k x j then cancelled_pending x else x) (fmlookup (subtasks s) j))" for j
    using u(2) w(2) assms(3,4) failed_doomed [OF assms(3), of "st_MissionID y" j] by (simp add: taken_down_def)
  ultimately show ?thesis using u(1) w(1,3) frame(1) by auto
qed

text \<open>C5: A failure is retried exactly while attempts are left. In a reachable state, whoever does not present the ACTIVE lease of the RUNNING
  subtask, with its token, as its agent and for the current version, is refused, and nothing at all changes (store, cache, reputation).
  Whoever does is never refused: the lease is released and no other lease changes; with attempts left the subtask becomes READY with the
  attempt counted, no assignee and no lease, and no other subtask changes; on the last attempt it becomes FAILED, exactly the
  PENDING subtasks of the mission that depend on it, directly or through others, are cancelled, no other subtask changes, and the
  mission gets the status derived from its subtasks.\<close>

theorem fail_retries_exactly:
  assumes "reachable (sv_st sv)" "valid_order ord" "ServiceFailSubtask ord k tok reason v ag now sv = (r, sv')"
    and mission: "\<And>sub. fmlookup (subtasks (sv_st sv)) k = Some sub \<Longrightarrow> \<exists>m. fmlookup (missions (sv_st sv)) (st_MissionID sub) = Some m"
  shows "((\<nexists>sub l. may_fail (sv_st sv) k tok v ag sub l) \<longrightarrow> sv' = sv \<and> (\<exists>e. r = Inl (e, None)))
    \<and> (\<forall>sub l. may_fail (sv_st sv) k tok v ag sub l \<longrightarrow> gave_back sub l (sv_st sv) (sv_st sv') \<and>
        (if st_Attempt sub < MaxAttempts (st_Retry sub)
         then r = Inr (retried_task sub) \<and> subtasks (sv_st sv') = fmupd k (retried_task sub) (subtasks (sv_st sv))
         else r = Inr (failed_task sub)
           \<and> (\<forall>j. fmlookup (subtasks (sv_st sv')) j = (if j = k then Some (failed_task sub)
                else map_option (\<lambda>x. if taken_down (sv_st sv) (st_MissionID sub) k x j then cancelled_pending x else x)
                  (fmlookup (subtasks (sv_st sv)) j)))
           \<and> map_option (derived_mission ord (sv_st sv')) (fmlookup (missions (sv_st sv)) (st_MissionID sub))
               = fmlookup (missions (sv_st sv')) (st_MissionID sub)))"
  (is "_ \<and> (\<forall>sub l. _ sub l \<longrightarrow> ?R sub l)")
proof (cases "\<exists>sub l. may_fail (sv_st sv) k tok v ag sub l")
  case False
  from fail_refused [OF this, of reason "agent_actor ag" now] have "sv' = sv \<and> (\<exists>e. r = Inl (e, None))"
  proof
    assume "\<exists>e. authorizeSubtaskLeaseOwner k tok ag True (sv_st sv) = Inl e"
    with assms(3) show ?thesis by (auto simp: ServiceFailSubtask_def)
  next
    assume "\<exists>e. FailSubtask k tok reason v (agent_actor ag) now (sv_st sv) = (Inl e, sv_st sv)"
    with assms(3) show ?thesis
      by (cases "authorizeSubtaskLeaseOwner k tok ag True (sv_st sv)") (auto simp: ServiceFailSubtask_def on_store_def Let_def)
  qed
  with False show ?thesis by blast
next
  case True
  then obtain sub l where g: "may_fail (sv_st sv) k tok v ag sub l" by blast
  note wf = reachable_wf [OF assms(1)]
  note auth = fail_goes(1) [OF wf g]
  obtain t where t: "FailSubtask k tok reason v (agent_actor ag) now (sv_st sv) = (Inr (failed_task sub), t)"
    "subtasks t = fmupd k (failed_task sub) (subtasks (sv_st sv))" "missions t = missions (sv_st sv)" "gave_back sub l (sv_st sv) t"
    using fail_goes(2) [OF wf g] by blast
  have only: "sub' = sub \<and> l' = l" if "may_fail (sv_st sv) k tok v ag sub' l'" for sub' l' using g that by (auto simp: may_fail_def)
  have key: "st_ID sub = k" "fmlookup (subtasks (sv_st sv)) k = Some sub" using g subtask_key [OF wf] by (auto simp: may_fail_def)
  let ?sv = "recordOutcome (failed_task sub) False ag (lease_latency (st_LeaseID sub) now (sv_st sv)) now (sv\<lparr>sv_st := t\<rparr>)"
  have "mem_step (sv_st sv) t" using step_FailSubtask [of "sv_st sv" k tok reason v "agent_actor ag" now] t(1) by simp
  then have "reachable t" using reachable_step assms(1) by blast
  moreover have "srun t ?sv" by (rule run_outcome_record) (simp add: reaches_refl)
  ultimately have reach: "reachable (sv_st ?sv)" by (rule reachable_run)
  have main: "?R sub l"
  proof (cases "st_Attempt sub < MaxAttempts (st_Retry sub)")
    case True
    have "Apply StateFailed EvRetried = Inr StateReady" by (simp add: Apply_def)
    then have "\<exists>w. TransitionSubtask k EvRetried (st_Version (failed_task sub)) (system_actor ''orchestrator'')
        (Some (fmap_of_list [(''reason'', VStr reason)])) now (Some retry_mutate) (sv_st ?sv) = (Inr (retried_task sub), w)
        \<and> subtasks w = fmupd k (retried_task sub) (subtasks (sv_st sv)) \<and> leases w = leases t"
      using t(2) by (simp add: TransitionSubtask_def retry_mutate_def failed_task_def retried_task_def Let_def fmupd_idem add.commute)
    then obtain w where w: "TransitionSubtask k EvRetried (st_Version (failed_task sub)) (system_actor ''orchestrator'')
        (Some (fmap_of_list [(''reason'', VStr reason)])) now (Some retry_mutate) (sv_st ?sv) = (Inr (retried_task sub), w)"
      "subtasks w = fmupd k (retried_task sub) (subtasks (sv_st sv))" "leases w = leases t" by blast
    have "ServiceFailSubtask ord k tok reason v ag now sv = (Inr (retried_task sub), ?sv\<lparr>sv_st := w\<rparr>)"
      using auth t(1) w(1) True key by (simp add: ServiceFailSubtask_def on_store_def)
    then have "r = Inr (retried_task sub) \<and> sv_st sv' = w" using assms(3) by auto
    with True w t(4) show ?thesis by (simp add: gave_back_def)
  next
    case False
    obtain m where m: "fmlookup (missions (sv_st sv)) (st_MissionID sub) = Some m" using mission key by blast
    have f: "st_ID (failed_task sub) = k" "st_State (failed_task sub) = StateFailed" "st_MissionID (failed_task sub) = st_MissionID sub"
      using key by simp_all
    from fail_permanent [OF reach assms(2), of k "failed_task sub" "sv_st sv" m "agent_actor ag" now] t(2,3) m f obtain u w where
      w: "cancelUnreachable ord (failed_task sub) (agent_actor ag) now (sv_st ?sv) = (Inr (), u)"
        "deriveMissionStatus ord (st_MissionID sub) now u = (Inr (), w)" "leases w = leases t"
        "fmlookup (missions w) (st_MissionID sub) = Some (derived_mission ord w m)"
        "\<forall>j. fmlookup (subtasks w) j = (if j = k then Some (failed_task sub)
         else map_option (\<lambda>x. if taken_down (sv_st sv) (st_MissionID sub) k x j then cancelled_pending x else x) (fmlookup (subtasks (sv_st sv)) j))"
      by auto
    have "ServiceFailSubtask ord k tok reason v ag now sv = (Inr (failed_task sub), ?sv\<lparr>sv_st := w\<rparr>)"
      using auth t(1) w(1,2) False by (simp add: ServiceFailSubtask_def on_store_def)
    then have "r = Inr (failed_task sub) \<and> sv_st sv' = w" using assms(3) by auto
    with False w t(4) m show ?thesis by (simp add: gave_back_def)
  qed
  have "?R x y" if "may_fail (sv_st sv) k tok v ag x y" for x y using only [OF that] main by simp
  with True show ?thesis by blast
qed

theorem fail_retries_exactly_witness:
  "\<exists>sub sv'. ServiceFailSubtask sorted_list_of_fset ''sub_a'' 1 ''broken'' 4 ''agt_1'' 30 (NewService scn_running DefaultConfig) = (Inr sub, sv')
     \<and> st_State sub = StateFailed \<and> fmlookup (subtasks (sv_st sv')) ''sub_a'' = Some sub"
proof -
  let ?sv = "NewService scn_running DefaultConfig"
  let ?sub = "demo_task\<lparr>st_State := StateRunning, st_Assignee := ''agt_1'', st_LeaseID := leaseID 1, st_Version := 4\<rparr>"
  obtain r sv' where r: "ServiceFailSubtask sorted_list_of_fset ''sub_a'' 1 ''broken'' 4 ''agt_1'' 30 ?sv = (r, sv')" by fastforce
  have m: "fmlookup (missions scn_running) ''msn_1'' \<noteq> None" by code_simp
  have st: "sv_st ?sv = scn_running" by (simp add: NewService_def)
  have may: "may_fail (sv_st ?sv) ''sub_a'' 1 4 ''agt_1'' ?sub scn_lease"
    using scn_running_task lease_running by (simp add: st may_fail_def scn_lease_def)
  have "reachable (sv_st ?sv)" using reachable_running by (simp add: st)
  from fail_retries_exactly [OF this valid_order_sorted r] may m scn_running_task
  have "r = Inr (failed_task ?sub) \<and> fmlookup (subtasks (sv_st sv')) ''sub_a'' = Some (failed_task ?sub)"
    by (fastforce simp: st demo_task_def zero_subtask_def)
  with r show ?thesis by simp
qed

section \<open>The service over the store\<close>

text \<open>C6: The tables of a running service are well formed, and its past is never rewritten. In every state a service reaches from an empty store the
  keys of the tables are the ids of their records, the event log is numbered without a gap, the leases have the ids of their
  tokens with at most one ACTIVE lease per subtask, and the budget accounts balance; and any later state only extends the
  event log, keeps every record and moves it forward in its life cycle.\<close>

theorem service_well_formed:
  assumes "sv_st sv = New" "service_runs sv sv1" "service_runs sv1 sv2"
  shows "store_wf (sv_st sv1) \<and> history (sv_st sv1) (sv_st sv2)"
proof -
  have "reachable (sv_st sv1)" using service_runs_run [OF assms(2)] assms(1) by (simp add: reachable_def)
  with reachable_wf reachable_history [OF _ service_runs_run [OF assms(3)]] show ?thesis by blast
qed

theorem service_well_formed_witness:
  "store_wf (sv_st (snd (on_store (RegisterAgent sorted_list_of_fset ''agt_1'' demo_agent 10) (NewService New DefaultConfig))))"
proof -
  let ?sv = "NewService New DefaultConfig"
  have "service_runs ?sv (snd (on_store (RegisterAgent sorted_list_of_fset ''agt_1'' demo_agent 10) ?sv))"
    by (intro sr_step [OF sr_refl ss_Register])
  from service_well_formed [OF _ this sr_refl] show ?thesis by (simp add: NewService_def)
qed

text \<open>Every known subtask state other than the absorbing ones has a run of legal transitions to SUCCEEDED, and the absorbing
  states SUCCEEDED and CANCELLED refuse every event.\<close>

theorem subtask_never_stuck:
  assumes "\<And>x. s \<noteq> StateOther x"
  shows "if absorbing s then (\<forall>ev. \<exists>e. Apply s ev = Inl e)
         else follows moves s (success_path s) StateSucceeded"
  using assms by (cases s) (auto simp: absorbing_def Apply_def moves_iff)

theorem subtask_never_stuck_witness:
  "follows moves StateWaiting (success_path StateWaiting) StateSucceeded"
  using subtask_never_stuck [of StateWaiting] by (simp add: absorbing_def)

end
